(* ===== verification/Igs_Prelude.thy ===== *)
theory Igs_Prelude
  imports Main "HOL-Library.Monad_Syntax" "HOL-Library.Word"
begin

text \<open>
  Shared vocabulary of the development: the collections that feed the
  automation, and the two container types of CZMQ that the program keeps its
  state in.

  A C function that cannot go on (a failed \<open>assert\<close>, a second lock of the
  non-recursive model mutex by its holder, a read through NULL or of freed or
  too short memory, arithmetic the C standard leaves undefined, a loop that does
  not end) is the value \<open>None\<close>; a function that returns is \<open>Some\<close> of its result. Error
  codes the program returns itself are ordinary results.

  A \<open>zlist_t\<close> is the list of its items. A \<open>zhashx_t\<close> is the association list of
  its entries in the order in which \<open>zhashx_first\<close> and \<open>zhashx_next\<close> visit them.
  CZMQ documents no such order: \<open>zhashx_insert\<close> does nothing when the key is
  present, as its documentation says, and puts the entries, the new one among
  them, in the order of \<open>zhashx_rank\<close>, which is left unspecified.
\<close>

section \<open>Collections\<close>

named_theorems table_simps \<open>lookups after an update of a hash table\<close>
named_theorems lock_intros \<open>operations that leave the model mutex as they found it\<close>
named_theorems wf_intros \<open>operations that keep the invariant of the state\<close>

lemmas bind_some_eqs = Option.bind_eq_Some_conv Option.bind_eq_None_conv

section \<open>Lists\<close>

text \<open>\<open>zlist_remove\<close> of the first item that satisfies a test.\<close>

fun remove_first :: "('a \<Rightarrow> bool) \<Rightarrow> 'a list \<Rightarrow> 'a list" where
  "remove_first P [] = []"
| "remove_first P (x # xs) = (if P x then xs else x # remove_first P xs)"

lemma set_remove_first_subset: "set (remove_first P xs) \<subseteq> set xs"
  by (induction xs) auto

lemma remove_first_none: "\<not> (\<exists>x \<in> set xs. P x) \<Longrightarrow> remove_first P xs = xs"
  by (induction xs) auto

lemma length_remove_first:
  "length (remove_first P xs) = (if \<exists>x \<in> set xs. P x then length xs - 1 else length xs)"
  by (induction xs) (auto simp: Suc_diff_Suc, metis One_nat_def Suc_pred length_pos_if_in_set)

text \<open>When the key of every item is unique, removing the first match removes them all.\<close>

lemma remove_first_filter:
  "distinct (map f xs) \<Longrightarrow> remove_first (\<lambda>x. f x = k) xs = filter (\<lambda>x. f x \<noteq> k) xs"
proof (induction xs)
  case (Cons x xs)
  show ?case
  proof (cases "f x = k")
    case True
    with Cons.prems have "\<forall>y \<in> set xs. f y \<noteq> k" by (auto simp: image_iff)
    then have "filter (\<lambda>x. f x \<noteq> k) xs = xs" by (simp add: filter_id_conv)
    with True show ?thesis by simp
  next
    case False
    with Cons show ?thesis by simp
  qed
qed simp

lemma distinct_map_filter_key: "distinct (map f xs) \<Longrightarrow> distinct (map f (filter P xs))"
  by (induction xs) auto

lemma find_Some_iff_ex: "(\<exists>x. find P xs = Some x) \<longleftrightarrow> (\<exists>x \<in> set xs. P x)"
  by (induction xs) auto

lemma find_SomeD: "find P xs = Some x \<Longrightarrow> x \<in> set xs \<and> P x"
  by (induction xs) (auto split: if_splits)

lemma find_append: "find P (xs @ ys) = (case find P xs of Some x \<Rightarrow> Some x | None \<Rightarrow> find P ys)"
  by (induction xs) auto

text \<open>A write through the pointer to the first item that satisfies a test.\<close>

fun update_first :: "('a \<Rightarrow> bool) \<Rightarrow> ('a \<Rightarrow> 'a) \<Rightarrow> 'a list \<Rightarrow> 'a list" where
  "update_first P f [] = []"
| "update_first P f (x # xs) = (if P x then f x # xs else x # update_first P f xs)"

lemma length_update_first [simp]: "length (update_first P f xs) = length xs"
  by (induction xs) auto

lemma find_update_first:
  "find P xs = Some x \<Longrightarrow> P (f x) \<Longrightarrow> find P (update_first P f xs) = Some (f x)"
  by (induction xs) (auto split: if_splits)

lemma update_first_none: "find P xs = None \<Longrightarrow> update_first P f xs = xs"
  by (induction xs) (auto split: if_splits)

section \<open>Hash tables\<close>

type_synonym ('k, 'v) table = "('k \<times> 'v) list"

definition zh_lookup :: "('k, 'v) table \<Rightarrow> 'k \<Rightarrow> 'v option" where
  "zh_lookup t k = map_of t k"

text \<open>
  The place of a key in the order of the table, given the key that comes in and the keys
  before it: a function of which nothing is known.
\<close>

definition zhashx_rank :: "'k list \<Rightarrow> 'k \<Rightarrow> nat" where
  "zhashx_rank = undefined"

definition zh_insert :: "'k \<Rightarrow> 'v \<Rightarrow> ('k, 'v) table \<Rightarrow> ('k, 'v) table" where
  "zh_insert k v t = (case map_of t k of
     None \<Rightarrow> sort_key (\<lambda>e. zhashx_rank (k # map fst t) (fst e)) ((k, v) # t)
   | Some _ \<Rightarrow> t)"

definition zh_delete :: "'k \<Rightarrow> ('k, 'v) table \<Rightarrow> ('k, 'v) table" where
  "zh_delete k t = filter (\<lambda>e. fst e \<noteq> k) t"

text \<open>A write through the pointer that a lookup of \<open>k\<close> returned.\<close>

definition zh_update :: "'k \<Rightarrow> ('v \<Rightarrow> 'v) \<Rightarrow> ('k, 'v) table \<Rightarrow> ('k, 'v) table" where
  "zh_update k f t = map (\<lambda>e. if fst e = k then (fst e, f (snd e)) else e) t"

definition zh_wf :: "('k, 'v) table \<Rightarrow> bool" where
  "zh_wf t \<longleftrightarrow> distinct (map fst t)"

lemma zh_lookup_Nil [table_simps]: "zh_lookup [] k = None"
  by (simp add: zh_lookup_def)

text \<open>A stable sort leaves the entries of each key in their order, whatever the ranks are.\<close>

lemma map_of_filter_key: "map_of (filter (\<lambda>e. fst e = k) t) k = map_of t k"
  by (induction t) auto

lemma filter_sort_rank:
  "filter (\<lambda>e. fst e = k) (sort_key (\<lambda>e. r (fst e)) t) = filter (\<lambda>e. fst e = k) t"
proof -
  have one: "r (fst k') = r k" if "k' \<in> set (filter (\<lambda>e. fst e = k) t)" for k' using that by auto
  have "filter (\<lambda>e. fst e = k) (sort_key (\<lambda>e. r (fst e)) t) = sort_key (\<lambda>e. r (fst e)) (filter (\<lambda>e. fst e = k) t)"
    by (rule filter_sort)
  also have "\<dots> = filter (\<lambda>e. fst e = k) t"
    by (rule sort_key_id_if_sorted, rule sorted_wrt_mono_rel [of _ "\<lambda>_ _. True"]) (use one in \<open>auto simp: sorted_wrt_map\<close>)
  finally show ?thesis .
qed

lemma map_of_sort_rank: "map_of (sort_key (\<lambda>e. r (fst e)) t) k = map_of t k"
  using map_of_filter_key [of k "sort_key (\<lambda>e. r (fst e)) t"] map_of_filter_key [of k t] by (simp add: filter_sort_rank)

lemma set_zh_insert:
  "set (zh_insert k v t) = (if zh_lookup t k = None then insert (k, v) (set t) else set t)"
  by (simp add: zh_insert_def zh_lookup_def del: sort_key_simps split: option.splits)

lemma zh_insert_Nil [simp]: "zh_insert k v [] = [(k, v)]"
  by (simp add: zh_insert_def)

lemma zh_lookup_insert [table_simps]:
  "zh_lookup (zh_insert k v t) k' =
     (if k' = k \<and> zh_lookup t k = None then Some v else zh_lookup t k')"
  by (auto simp: zh_lookup_def zh_insert_def map_of_sort_rank simp del: sort_key_simps split: option.splits)

lemma zh_lookup_delete [table_simps]:
  "zh_lookup (zh_delete k t) k' = (if k' = k then None else zh_lookup t k')"
  by (induction t) (auto simp: zh_lookup_def zh_delete_def)

lemma zh_lookup_update [table_simps]:
  "zh_lookup (zh_update k f t) k' =
     (if k' = k then map_option f (zh_lookup t k) else zh_lookup t k')"
  by (induction t) (auto simp: zh_lookup_def zh_update_def)

lemma zh_keys_update [simp]: "map fst (zh_update k f t) = map fst t"
  by (simp add: zh_update_def comp_def if_distrib cong: if_cong)

lemma zh_keys_delete: "map fst (zh_delete k t) = filter (\<lambda>x. x \<noteq> k) (map fst t)"
  by (simp add: zh_delete_def filter_map comp_def)

lemma zh_distinct_insert:
  "distinct (map fst (zh_insert k v t)) \<longleftrightarrow> distinct (map fst t)"
  by (auto simp: zh_insert_def distinct_map map_of_eq_None_iff distinct_sort image_iff
      simp del: sort_key_simps split: option.splits)

lemma zh_lookup_None_iff: "zh_lookup t k = None \<longleftrightarrow> k \<notin> set (map fst t)"
  by (simp add: zh_lookup_def map_of_eq_None_iff)

lemma zh_lookup_SomeD: "zh_lookup t k = Some v \<Longrightarrow> (k, v) \<in> set t"
  by (simp add: zh_lookup_def map_of_SomeD)

lemma zh_wf_Nil [wf_intros, simp]: "zh_wf []"
  by (simp add: zh_wf_def)

lemma zh_wf_insert [wf_intros]: "zh_wf t \<Longrightarrow> zh_wf (zh_insert k v t)"
  by (simp add: zh_wf_def zh_distinct_insert)

lemma zh_wf_delete [wf_intros]: "zh_wf t \<Longrightarrow> zh_wf (zh_delete k t)"
  by (simp add: zh_wf_def zh_keys_delete)

lemma zh_wf_update [wf_intros]: "zh_wf t \<Longrightarrow> zh_wf (zh_update k f t)"
  by (simp add: zh_wf_def)

lemma zh_lookup_wf: "zh_wf t \<Longrightarrow> (k, v) \<in> set t \<Longrightarrow> zh_lookup t k = Some v"
  by (simp add: zh_wf_def zh_lookup_def)

lemma zh_update_none: "zh_lookup t k = None \<Longrightarrow> zh_update k f t = t"
  by (induction t) (auto simp: zh_lookup_def zh_update_def split: if_splits)

end
