(* ===== verification/C_Runtime.thy ===== *)
theory C_Runtime
  imports Igs_Prelude "HOL-Library.Char_ord"
begin

text \<open>
  What the program uses of the C language and its library, on a little-endian
  machine with 32-bit \<open>int\<close>, IEEE 754 binary64 \<open>double\<close> and one-byte \<open>bool\<close>:
  typed reads and writes of raw memory, NUL-terminated strings, \<open>atoi\<close>,
  \<open>atof\<close>, and the conversions \<open>%d\<close> and \<open>%f\<close> of \<open>printf\<close>.

  A byte is a \<open>char\<close>; a memory object is the list of its bytes. A \<open>double\<close> is
  its 64-bit pattern, and its arithmetic is exact integer arithmetic on
  multiples of the least positive double, \<open>2 ^ (-1074)\<close>.
\<close>

type_synonym i32 = "32 word"
type_synonym u64 = "64 word"
type_synonym f64 = "64 word"

section \<open>Raw memory\<close>

fun le_nat :: "string \<Rightarrow> nat" where
  "le_nat [] = 0"
| "le_nat (c # cs) = of_char c + 256 * le_nat cs"

fun le_bytes :: "nat \<Rightarrow> nat \<Rightarrow> string" where
  "le_bytes 0 n = []"
| "le_bytes (Suc k) n = char_of (n mod 256) # le_bytes k (n div 256)"

text \<open>Reads of a typed object: \<open>None\<close> when the memory is too short for the type.\<close>

definition rd_int :: "string \<Rightarrow> i32 option" where
  "rd_int m = (if 4 \<le> length m then Some (of_nat (le_nat (take 4 m))) else None)"

definition wr_int :: "i32 \<Rightarrow> string" where
  "wr_int i = le_bytes 4 (unat i)"

definition rd_double :: "string \<Rightarrow> f64 option" where
  "rd_double m = (if 8 \<le> length m then Some (of_nat (le_nat (take 8 m))) else None)"

definition wr_double :: "f64 \<Rightarrow> string" where
  "wr_double d = le_bytes 8 (unat d)"

text \<open>A \<open>bool\<close> object holds 0 or 1; any other byte is a trap representation.\<close>

definition rd_bool :: "string \<Rightarrow> bool option" where
  "rd_bool m = (case m of [] \<Rightarrow> None
     | c # _ \<Rightarrow> if c = CHR 0x00 then Some False
               else if c = CHR 0x01 then Some True else None)"

definition wr_bool :: "bool \<Rightarrow> string" where
  "wr_bool b = (if b then [CHR 0x01] else [CHR 0x00])"

text \<open>The string at the start of a memory object, which must hold a NUL.\<close>

definition rd_cstr :: "string \<Rightarrow> string option" where
  "rd_cstr m = (if CHR 0x00 \<in> set m then Some (takeWhile (\<lambda>c. c \<noteq> CHR 0x00) m) else None)"

definition wr_cstr :: "string \<Rightarrow> string" where
  "wr_cstr s = s @ [CHR 0x00]"

definition no_nul :: "string \<Rightarrow> bool" where
  "no_nul s \<longleftrightarrow> CHR 0x00 \<notin> set s"

lemma length_le_bytes [simp]: "length (le_bytes k n) = k"
  by (induction k arbitrary: n) auto

lemma le_nat_le_bytes: "le_nat (le_bytes k n) = n mod 256 ^ k"
proof (induction k arbitrary: n)
  case (Suc k)
  have "n mod 256 + 256 * (n div 256 mod 256 ^ k) = n mod 256 ^ Suc k"
    using mod_mult2_eq [of n 256 "256 ^ k"] by simp
  with Suc show ?case by simp
qed simp

declare le_bytes.simps [simp del]

lemma length_wr [simp]: "length (wr_int i) = 4" "length (wr_double d) = 8" "length (wr_bool b) = 1"
  by (simp_all add: wr_int_def wr_double_def wr_bool_def)

lemma rd_wr_int [simp]: "rd_int (wr_int i @ r) = Some i"
proof -
  have "unat i < 256 ^ 4" using unsigned_less [where 'a = nat, of i] by simp
  then have "le_nat (take 4 (wr_int i @ r)) = unat i"
    by (simp add: wr_int_def le_nat_le_bytes)
  then show ?thesis by (simp add: rd_int_def)
qed

lemma rd_wr_double [simp]: "rd_double (wr_double d @ r) = Some d"
proof -
  have "unat d < 256 ^ 8" using unsigned_less [where 'a = nat, of d] by simp
  then have "le_nat (take 8 (wr_double d @ r)) = unat d"
    by (simp add: wr_double_def le_nat_le_bytes)
  then show ?thesis by (simp add: rd_double_def)
qed

lemma rd_wr_bool [simp]: "rd_bool (wr_bool b @ r) = Some b"
  by (simp add: rd_bool_def wr_bool_def)

lemma rd_wr_exact [simp]: "rd_int (wr_int i) = Some i" "rd_double (wr_double d) = Some d"
  "rd_bool (wr_bool b) = Some b"
  using rd_wr_int [of i "[]"] rd_wr_double [of d "[]"] rd_wr_bool [of b "[]"] by auto

lemma wr_nonempty [simp]: "wr_int i \<noteq> []" "wr_double d \<noteq> []" "wr_bool b \<noteq> []" "wr_cstr s \<noteq> []"
  using length_wr(1) [of i] length_wr(2) [of d] length_wr(3) [of b]
  by (auto simp: wr_cstr_def simp del: length_wr)

lemma rd_cstr_wr [simp]: "no_nul s \<Longrightarrow> rd_cstr (wr_cstr s @ r) = Some s"
  by (auto simp: rd_cstr_def wr_cstr_def no_nul_def takeWhile_append)

lemma rd_cstr_wr_exact [simp]: "no_nul s \<Longrightarrow> rd_cstr (wr_cstr s) = Some s"
  using rd_cstr_wr [of s "[]"] by simp

lemma rd_cstr_no_nul: "rd_cstr m = Some s \<Longrightarrow> no_nul s"
  by (auto simp: rd_cstr_def no_nul_def split: if_splits dest: set_takeWhileD)

section \<open>Integers as text\<close>

definition int_ok :: "int \<Rightarrow> bool" where
  "int_ok x \<longleftrightarrow> - (2 ^ 31) \<le> x \<and> x < 2 ^ 31"

definition digit_char :: "nat \<Rightarrow> char" where
  "digit_char d = char_of (48 + d)"

function dec_nat :: "nat \<Rightarrow> string" where
  "dec_nat n = (if n < 10 then [digit_char n] else dec_nat (n div 10) @ [digit_char (n mod 10)])"
  by pat_completeness auto
termination by (relation "measure id") auto

declare dec_nat.simps [simp del]

text \<open>\<open>%d\<close> and \<open>%lld\<close>.\<close>

definition fmt_d :: "int \<Rightarrow> string" where
  "fmt_d x = (if x < 0 then CHR ''-'' # dec_nat (nat (- x)) else dec_nat (nat x))"

definition is_digit_char :: "char \<Rightarrow> bool" where
  "is_digit_char c \<longleftrightarrow> 48 \<le> (of_char c :: nat) \<and> (of_char c :: nat) \<le> 57"

definition c_isspace :: "char \<Rightarrow> bool" where
  "c_isspace c \<longleftrightarrow> c = CHR '' '' \<or> (9 \<le> (of_char c :: nat) \<and> (of_char c :: nat) \<le> 13)"

definition digits_val :: "nat \<Rightarrow> string \<Rightarrow> nat" where
  "digits_val b ds = foldl (\<lambda>a c. a * b + (of_char c - 48)) 0 ds"

fun c_sign :: "string \<Rightarrow> bool \<times> string" where
  "c_sign [] = (False, [])"
| "c_sign (c # cs) = (if c = CHR ''-'' then (True, cs) else if c = CHR ''+'' then (False, cs)
     else (False, c # cs))"

text \<open>\<open>atoi\<close>; a value that an \<open>int\<close> cannot hold is undefined behaviour.\<close>

definition c_atoi :: "string \<Rightarrow> i32 option" where
  "c_atoi s =
     (let (neg, r) = c_sign (dropWhile c_isspace s);
          v = int (digits_val 10 (takeWhile is_digit_char r));
          x = (if neg then - v else v)
      in if int_ok x then Some (word_of_int x) else None)"

text \<open>\<open>atoll\<close>, likewise; and \<open>strtoul\<close> in base ten, which saturates.\<close>

definition c_atoll :: "string \<Rightarrow> int option" where
  "c_atoll s =
     (let (neg, r) = c_sign (dropWhile c_isspace s);
          v = int (digits_val 10 (takeWhile is_digit_char r));
          x = (if neg then - v else v)
      in if - (2 ^ 63) \<le> x \<and> x < 2 ^ 63 then Some x else None)"

definition c_strtoul :: "string \<Rightarrow> 64 word" where
  "c_strtoul s =
     (let (neg, r) = c_sign (dropWhile c_isspace s);
          v = digits_val 10 (takeWhile is_digit_char r)
      in if 2 ^ 64 \<le> v then - 1 else if neg then - of_nat v else of_nat v)"

lemma of_char_digit: "d < 10 \<Longrightarrow> (of_char (digit_char d) :: nat) = 48 + d"
  by (simp add: digit_char_def)

lemma is_digit_digit_char [simp]: "d < 10 \<Longrightarrow> is_digit_char (digit_char d)"
  by (simp add: is_digit_char_def of_char_digit)

lemma dec_nat_nonempty [simp]: "dec_nat n \<noteq> []"
  by (subst dec_nat.simps) simp

lemma dec_nat_digits: "\<forall>c \<in> set (dec_nat n). is_digit_char c"
proof (induction n rule: dec_nat.induct)
  case (1 n)
  then show ?case by (subst dec_nat.simps) (auto simp: ball_Un)
qed

lemma digits_val_snoc: "digits_val b (ds @ [c]) = digits_val b ds * b + (of_char c - 48)"
  by (simp add: digits_val_def)

lemma digits_val_dec_nat [simp]: "digits_val 10 (dec_nat n) = n"
proof (induction n rule: dec_nat.induct)
  case (1 n)
  show ?case
  proof (cases "n < 10")
    case True
    then show ?thesis by (subst dec_nat.simps) (simp add: digits_val_def of_char_digit)
  next
    case False
    with 1 show ?thesis by (subst dec_nat.simps) (simp add: digits_val_snoc of_char_digit)
  qed
qed

lemma digit_not_sign: "is_digit_char c \<Longrightarrow> c \<noteq> CHR ''-'' \<and> c \<noteq> CHR ''+'' \<and> \<not> c_isspace c \<and> c \<noteq> CHR 0x00"
  by (auto simp: is_digit_char_def c_isspace_def)

lemma takeWhile_digits [simp]: "takeWhile is_digit_char (dec_nat n) = dec_nat n"
  using dec_nat_digits by (simp add: takeWhile_eq_all_conv)

lemma fmt_d_no_nul [simp]: "no_nul (fmt_d x)"
  using dec_nat_digits digit_not_sign by (fastforce simp: no_nul_def fmt_d_def)

lemma fmt_d_nonempty [simp]: "fmt_d x \<noteq> []"
  by (simp add: fmt_d_def)

lemma atoi_fmt_d:
  assumes "int_ok x" shows "c_atoi (fmt_d x) = Some (word_of_int x)"
proof (cases "x < 0")
  case True
  with assms show ?thesis by (simp add: c_atoi_def fmt_d_def c_isspace_def Let_def)
next
  case False
  obtain c cs where d: "dec_nat (nat x) = c # cs" by (cases "dec_nat (nat x)") auto
  then have c: "is_digit_char c" using dec_nat_digits [of "nat x"] by simp
  have "c_sign (dropWhile c_isspace (fmt_d x)) = (False, dec_nat (nat x))"
    using False d digit_not_sign [OF c] by (simp add: fmt_d_def)
  with False assms show ?thesis by (simp add: c_atoi_def)
qed

lemma int_ok_sint: "int_ok (sint (i :: i32))"
  using sint_range_size [of i] by (simp add: int_ok_def word_size)

lemma atoi_fmt_sint [simp]: "c_atoi (fmt_d (sint (i :: i32))) = Some i"
  by (simp add: atoi_fmt_d int_ok_sint)

lemma no_nul_append [simp]: "no_nul (s @ t) \<longleftrightarrow> no_nul s \<and> no_nul t" "no_nul []"
  "no_nul (c # s) \<longleftrightarrow> c \<noteq> CHR 0x00 \<and> no_nul s" "no_nul (replicate n (CHR ''0''))"
  by (auto simp: no_nul_def)

lemma no_nul_take: "no_nul s \<Longrightarrow> no_nul (take n s)"
  and no_nul_drop: "no_nul s \<Longrightarrow> no_nul (drop n s)"
  by (auto simp: no_nul_def dest: in_set_takeD in_set_dropD)

lemma no_nul_dec_nat [simp]: "no_nul (dec_nat n)"
  using dec_nat_digits [of n] digit_not_sign by (auto simp: no_nul_def)

end
