(* ===== verification/C_Double.thy ===== *)
theory C_Double
  imports C_Runtime
begin

text \<open>
  IEEE 754 binary64 \<open>double\<close>s as the program uses them: the comparisons of the
  value constraints, the casts between \<open>int\<close>, \<open>bool\<close> and \<open>double\<close>, the
  addition of one half that rounds a \<open>double\<close> to an \<open>int\<close>, \<open>atof\<close>, \<open>%f\<close> and \<open>%.20g\<close>.

  A finite \<open>double\<close> is an integer number of units of \<open>2 ^ (-1074)\<close>; infinity
  counts as the number of units the exponent 2047 would give, which is above
  every finite one. Rounding is to nearest, ties to even. The text conversions
  are those of the C locale.
\<close>

section \<open>Bit patterns\<close>

definition d_sign :: "f64 \<Rightarrow> bool" where
  "d_sign w \<longleftrightarrow> 2 ^ 63 \<le> unat w"

definition d_exp :: "f64 \<Rightarrow> nat" where
  "d_exp w = unat w div 2 ^ 52 mod 2048"

definition d_man :: "f64 \<Rightarrow> nat" where
  "d_man w = unat w mod 2 ^ 52"

definition d_is_nan :: "f64 \<Rightarrow> bool" where
  "d_is_nan w \<longleftrightarrow> d_exp w = 2047 \<and> d_man w \<noteq> 0"

definition d_units :: "f64 \<Rightarrow> nat" where
  "d_units w = (if d_exp w = 0 then d_man w else (2 ^ 52 + d_man w) * 2 ^ (d_exp w - 1))"

definition d_scaled :: "f64 \<Rightarrow> int" where
  "d_scaled w = (if d_sign w then - int (d_units w) else int (d_units w))"

definition d_lt :: "f64 \<Rightarrow> f64 \<Rightarrow> bool" where
  "d_lt a b \<longleftrightarrow> \<not> d_is_nan a \<and> \<not> d_is_nan b \<and> d_scaled a < d_scaled b"

text \<open>The tests \<open>d >= 0 && d <= 0\<close> and \<open>(bool) d\<close>.\<close>

definition d_is_zero :: "f64 \<Rightarrow> bool" where
  "d_is_zero w \<longleftrightarrow> \<not> d_is_nan w \<and> d_scaled w = 0"

section \<open>Rounding\<close>

definition round_half_even :: "nat \<Rightarrow> nat \<Rightarrow> nat" where
  "round_half_even n d =
     (let q = n div d; r = n mod d
      in if 2 * r < d then q else if d < 2 * r then q + 1 else if even q then q else q + 1)"

function bit_len :: "nat \<Rightarrow> nat" where
  "bit_len n = (if n = 0 then 0 else Suc (bit_len (n div 2)))"
  by pat_completeness auto
termination by (relation "measure id") auto

declare bit_len.simps [simp del]

text \<open>The \<open>double\<close> nearest to \<open>n / d\<close> units.\<close>

definition d_of_ratio :: "bool \<Rightarrow> nat \<Rightarrow> nat \<Rightarrow> f64" where
  "d_of_ratio neg n d =
     (let sh = bit_len (n div d) - 53;
          bits = sh * 2 ^ 52 + round_half_even n (d * 2 ^ sh)
      in of_nat ((if neg then 2 ^ 63 else 0) + min bits (2047 * 2 ^ 52)))"

definition d_of_scaled :: "int \<Rightarrow> f64" where
  "d_of_scaled s = d_of_ratio (s < 0) (nat \<bar>s\<bar>) 1"

definition d_of_int :: "int \<Rightarrow> f64" where
  "d_of_int x = d_of_scaled (x * 2 ^ 1074)"

text \<open>The cast \<open>(int) d\<close>: undefined when the truncated value is no \<open>int\<close>.\<close>

definition d_to_int :: "f64 \<Rightarrow> i32 option" where
  "d_to_int w =
     (if d_exp w = 2047 then None
      else let t = int (d_units w div 2 ^ 1074); x = (if d_sign w then - t else t)
           in if int_ok x then Some (word_of_int x) else None)"

text \<open>The sums \<open>d + 0.5\<close> and \<open>d - 0.5\<close>.\<close>

definition d_half :: "bool \<Rightarrow> f64 \<Rightarrow> f64" where
  "d_half neg w =
     (if d_exp w = 2047 then w
      else d_of_scaled (d_scaled w + (if neg then - (2 ^ 1073) else 2 ^ 1073)))"

section \<open>Text\<close>

definition pad6 :: "string \<Rightarrow> string" where
  "pad6 s = replicate (6 - length s) (CHR ''0'') @ s"

definition fmt_f :: "f64 \<Rightarrow> string" where
  "fmt_f w =
     (if d_sign w then ''-'' else '''') @
     (if d_is_nan w then ''nan''
      else if d_exp w = 2047 then ''inf''
      else let k = round_half_even (d_units w * 10 ^ 6) (2 ^ 1074)
           in dec_nat (k div 10 ^ 6) @ ''.'' @ pad6 (dec_nat (k mod 10 ^ 6)))"

lemma fmt_f_no_nul [simp]: "no_nul (fmt_f w)"
  by (simp add: fmt_f_def pad6_def Let_def)

text \<open>
  \<open>%.20g\<close> of a finite double: twenty significant digits, fixed notation when the
  decimal exponent \<open>x\<close> has \<open>-4 \<le> x < 20\<close>, trailing zeros dropped.
\<close>

definition decimal_exp :: "nat \<Rightarrow> int" where
  "decimal_exp u =
     (if 2 ^ 1074 \<le> u then int (length (dec_nat (u div 2 ^ 1074))) - 1
      else case find (\<lambda>k. 2 ^ 1074 \<le> u * 10 ^ k) [1..<400] of Some k \<Rightarrow> - int k | None \<Rightarrow> 0)"

definition strip_zeros :: "string \<Rightarrow> string" where
  "strip_zeros s = rev (dropWhile (\<lambda>c. c = CHR ''0'') (rev s))"

definition with_fraction :: "string \<Rightarrow> string \<Rightarrow> string" where
  "with_fraction i f = (let f' = strip_zeros f in if f' = [] then i else i @ ''.'' @ f')"

definition g20_text :: "int \<Rightarrow> string \<Rightarrow> string" where
  "g20_text x ds =
     (if x < -4 \<or> 20 \<le> x then
        with_fraction (take 1 ds) (drop 1 ds) @ ''e'' @ (if x < 0 then ''-'' else ''+'') @
        (if \<bar>x\<bar> < 10 then ''0'' else '''') @ dec_nat (nat \<bar>x\<bar>)
      else if x < 0 then with_fraction ''0'' (replicate (nat (- x) - 1) (CHR ''0'') @ ds)
      else with_fraction (take (nat x + 1) ds) (drop (nat x + 1) ds))"

definition fmt_g20 :: "f64 \<Rightarrow> string" where
  "fmt_g20 w =
     (let u = d_units w; x = decimal_exp u;
          q = (if x \<le> 19 then round_half_even (u * 10 ^ nat (19 - x)) (2 ^ 1074)
               else round_half_even u (2 ^ 1074 * 10 ^ nat (x - 19)))
      in (if d_sign w then ''-'' else '''') @
         (if u = 0 then ''0''
          else if q = 10 ^ 20 then g20_text (x + 1) (dec_nat (10 ^ 19)) else g20_text x (dec_nat q)))"

definition c_lower :: "char \<Rightarrow> char" where
  "c_lower c = (if 65 \<le> (of_char c :: nat) \<and> (of_char c :: nat) \<le> 90 then char_of ((of_char c :: nat) + 32) else c)"

definition is_xdigit :: "char \<Rightarrow> bool" where
  "is_xdigit c \<longleftrightarrow> is_digit_char c \<or> c \<in> set ''abcdefABCDEF''"

definition xdigit_val :: "char \<Rightarrow> nat" where
  "xdigit_val c = (if is_digit_char c then of_char c - 48 else of_char (c_lower c) - 87)"

definition number_val :: "nat \<Rightarrow> string \<Rightarrow> nat" where
  "number_val b ds = foldl (\<lambda>a c. a * b + xdigit_val c) 0 ds"

text \<open>The fraction part: the digits after a point, and the rest of the text.\<close>

definition fraction :: "(char \<Rightarrow> bool) \<Rightarrow> string \<Rightarrow> string \<times> string" where
  "fraction P s = (case s of c # r \<Rightarrow> if c = CHR ''.'' then (takeWhile P r, dropWhile P r) else ([], s)
     | [] \<Rightarrow> ([], []))"

text \<open>An exponent is read only when at least one digit follows its letter and sign.\<close>

definition exponent :: "char \<Rightarrow> string \<Rightarrow> int" where
  "exponent e s = (case s of [] \<Rightarrow> 0
     | c # r \<Rightarrow> if c_lower c = e then
          let (neg, ds) = c_sign r; v = int (digits_val 10 (takeWhile is_digit_char ds))
          in if neg then - v else v
        else 0)"

definition d_of_number :: "bool \<Rightarrow> nat \<Rightarrow> nat \<Rightarrow> int \<Rightarrow> f64" where
  "d_of_number neg m b e = d_of_ratio neg (m * b ^ nat e * 2 ^ 1074) (b ^ nat (- e))"

definition c_atof :: "string \<Rightarrow> f64" where
  "c_atof s =
     (let (neg, r) = c_sign (dropWhile c_isspace s);
          l = map c_lower (take 3 r);
          sgn = (if neg then 2 ^ 63 else 0);
          hx = takeWhile is_xdigit (drop 2 r);
          (hf, hrest) = fraction is_xdigit (dropWhile is_xdigit (drop 2 r));
          ds = takeWhile is_digit_char r;
          (df, drest) = fraction is_digit_char (dropWhile is_digit_char r)
      in if l = ''inf'' then of_nat (sgn + 2047 * 2 ^ 52)
         else if l = ''nan'' then of_nat (sgn + 2047 * 2 ^ 52 + 2 ^ 51)
         else if take 2 l = ''0x'' \<and> hx @ hf \<noteq> [] then
           d_of_number neg (number_val 16 (hx @ hf)) 2 (exponent (CHR ''p'') hrest - 4 * int (length hf))
         else d_of_number neg (number_val 10 (ds @ df)) 10
                (if ds @ df = [] then 0 else exponent (CHR ''e'') drest - int (length df)))"

section \<open>An int survives the trip through a double\<close>

lemma bit_len_bounds: "0 < n \<Longrightarrow> 2 ^ (bit_len n - 1) \<le> n \<and> n < 2 ^ bit_len n \<and> 0 < bit_len n"
proof (induction n rule: bit_len.induct)
  case (1 n)
  show ?case
  proof (cases "n div 2 = 0")
    case True
    with 1 have "n = 1" by simp
    then show ?thesis by (simp add: bit_len.simps)
  next
    case False
    with 1 have ih: "2 ^ (bit_len (n div 2) - 1) \<le> n div 2" "n div 2 < 2 ^ bit_len (n div 2)"
      "0 < bit_len (n div 2)" by auto
    have s: "bit_len n = Suc (bit_len (n div 2))"
      using 1 by (subst bit_len.simps) simp
    have "2 ^ bit_len (n div 2) = 2 * (2::nat) ^ (bit_len (n div 2) - 1)"
      using ih(3) by (metis power_minus_mult mult.commute)
    with ih(1) have "2 ^ bit_len (n div 2) \<le> n" by linarith
    moreover have "n < 2 * 2 ^ bit_len (n div 2)" using ih(2) by linarith
    ultimately show ?thesis by (simp add: s)
  qed
qed

lemma bit_len_shift: "0 < n \<Longrightarrow> bit_len (n * 2 ^ k) = bit_len n + k"
proof (induction k)
  case (Suc k)
  have "bit_len (n * 2 ^ Suc k) = Suc (bit_len (n * 2 ^ Suc k div 2))"
    using Suc.prems by (subst bit_len.simps) simp
  then show ?case using Suc by simp
qed simp

lemma round_half_even_exact: "0 < d \<Longrightarrow> round_half_even (q * d) d = q"
  by (simp add: round_half_even_def)

lemma d_fields_of_bits:
  assumes "b < 2 ^ 63"
  shows "d_sign (of_nat ((if neg then 2 ^ 63 else 0) + b)) = neg"
    and "d_exp (of_nat ((if neg then 2 ^ 63 else 0) + b)) = b div 2 ^ 52"
    and "d_man (of_nat ((if neg then 2 ^ 63 else 0) + b)) = b mod 2 ^ 52"
proof -
  have u: "unat (of_nat ((if neg then 2 ^ 63 else 0) + b) :: f64) = (if neg then 2 ^ 63 else 0) + b"
    using assms by (subst unat_of_nat) simp
  show "d_sign (of_nat ((if neg then 2 ^ 63 else 0) + b)) = neg"
    unfolding d_sign_def u using assms by auto
  have "(2 ^ 63 + b) div 2 ^ 52 = 2048 + b div 2 ^ 52"
    using div_mult_self1 [of "2 ^ 52" b 2048] by (simp add: add.commute)
  moreover have "b div 2 ^ 52 < 2048" using assms by (simp add: less_mult_imp_div_less)
  ultimately show "d_exp (of_nat ((if neg then 2 ^ 63 else 0) + b)) = b div 2 ^ 52"
    unfolding d_exp_def u by simp
  have "(2 ^ 63 + b) mod 2 ^ 52 = b mod 2 ^ 52"
    using mod_mult_self1 [of b 2048 "2 ^ 52"] by (simp add: add.commute)
  then show "d_man (of_nat ((if neg then 2 ^ 63 else 0) + b)) = b mod 2 ^ 52"
    unfolding d_man_def u by simp
qed

lemma d_of_int_exact:
  assumes "0 < x" and "x < 2 ^ 53"
  shows "d_units (d_of_ratio neg (x * 2 ^ 1074) 1) = x * 2 ^ 1074"
    and "d_sign (d_of_ratio neg (x * 2 ^ 1074) 1) = neg"
    and "d_exp (d_of_ratio neg (x * 2 ^ 1074) 1) < 2047"
proof -
  define l where "l = bit_len x"
  define m where "m = x * 2 ^ (53 - l)"
  have lb: "2 ^ (l - 1) \<le> x" "x < 2 ^ l" "0 < l"
    using bit_len_bounds [OF assms(1)] by (auto simp: l_def)
  have l53: "l \<le> 53"
  proof (rule ccontr)
    assume "\<not> l \<le> 53"
    then have "(2::nat) ^ 53 \<le> 2 ^ (l - 1)" by (intro power_increasing) auto
    with lb assms(2) show False by linarith
  qed
  have m1: "2 ^ 52 \<le> m"
  proof -
    have "(2::nat) ^ 52 = 2 ^ (l - 1) * 2 ^ (53 - l)" using lb(3) l53 by (simp flip: power_add)
    also have "\<dots> \<le> m" using lb(1) by (simp add: m_def)
    finally show ?thesis .
  qed
  have m2: "m < 2 ^ 53"
  proof -
    have "m < 2 ^ l * 2 ^ (53 - l)" using lb(2) by (simp add: m_def)
    also have "\<dots> = 2 ^ 53" using l53 by (simp flip: power_add)
    finally show ?thesis .
  qed
  have sh: "bit_len (x * 2 ^ 1074 div 1) - 53 = l + 1021"
    using bit_len_shift [OF assms(1), of 1074] by (simp add: l_def)
  have "x * 2 ^ 1074 = m * 2 ^ (l + 1021)"
    using l53 by (simp add: m_def mult.assoc flip: power_add)
  then have r: "round_half_even (x * 2 ^ 1074) (1 * 2 ^ (l + 1021)) = m"
    using round_half_even_exact [of "2 ^ (l + 1021)" m] by simp
  let ?b = "(l + 1021) * 2 ^ 52 + m"
  have bd: "?b div 2 ^ 52 = l + 1022" "?b mod 2 ^ 52 = m - 2 ^ 52"
  proof -
    have "?b = (l + 1022) * 2 ^ 52 + (m - 2 ^ 52)" using m1 by (simp add: algebra_simps)
    moreover have "m - 2 ^ 52 < 2 ^ 52" using m2 by simp
    moreover have "(k * d + r) div d = k \<and> (k * d + r) mod d = r" if "r < d" for k d r :: nat
      using that by simp
    ultimately show "?b div 2 ^ 52 = l + 1022" "?b mod 2 ^ 52 = m - 2 ^ 52" by metis+
  qed
  have bb: "?b \<le> 2047 * 2 ^ 52" "?b < 2 ^ 63"
  proof -
    have "?b < (l + 1023) * 2 ^ 52 + 2 ^ 52" using m2 by (simp add: algebra_simps)
    also have "\<dots> \<le> 1077 * 2 ^ 52" using l53 by simp
    finally show "?b \<le> 2047 * 2 ^ 52" "?b < 2 ^ 63" by simp_all
  qed
  have w: "d_of_ratio neg (x * 2 ^ 1074) 1 = of_nat ((if neg then 2 ^ 63 else 0) + ?b)"
    unfolding d_of_ratio_def sh Let_def r using bb(1) by (simp add: min_def)
  note f = d_fields_of_bits [OF bb(2), of neg, folded w, unfolded bd]
  show "d_sign (d_of_ratio neg (x * 2 ^ 1074) 1) = neg" by (rule f(1))
  show "d_exp (d_of_ratio neg (x * 2 ^ 1074) 1) < 2047" using f(2) l53 by simp
  have "d_units (d_of_ratio neg (x * 2 ^ 1074) 1) = m * 2 ^ (l + 1021)"
    using f(2,3) m1 by (simp add: d_units_def)
  also have "\<dots> = x * 2 ^ 1074"
    using l53 by (simp add: m_def mult.assoc flip: power_add)
  finally show "d_units (d_of_ratio neg (x * 2 ^ 1074) 1) = x * 2 ^ 1074" .
qed

lemma d_of_int_0: "d_of_int 0 = 0"
  by (simp add: d_of_int_def d_of_scaled_def d_of_ratio_def round_half_even_def bit_len.simps [of 0])

lemma d_to_of_int:
  assumes "int_ok x" shows "d_to_int (d_of_int x) = Some (word_of_int x)"
proof (cases "x = 0")
  case True
  then show ?thesis by (simp add: d_of_int_0 d_to_int_def d_exp_def d_units_def d_man_def int_ok_def)
next
  case False
  define n where "n = nat \<bar>x\<bar>"
  have n: "0 < n" "n < 2 ^ 53" using False assms by (auto simp: n_def int_ok_def)
  have w: "d_of_int x = d_of_ratio (x < 0) (n * 2 ^ 1074) 1"
    by (simp add: d_of_int_def d_of_scaled_def n_def abs_mult nat_mult_distrib nat_power_eq
        mult_less_0_iff)
  have "n * 2 ^ 1074 div 2 ^ 1074 = n" by simp
  moreover have "(if x < 0 then - int n else int n) = x" by (simp add: n_def)
  ultimately show ?thesis
    using d_of_int_exact [OF n, of "x < 0"] assms by (simp add: d_to_int_def w Let_def)
qed

lemma d_to_of_sint [simp]: "d_to_int (d_of_int (sint (i :: i32))) = Some i"
  by (simp add: d_to_of_int int_ok_sint)

end
