(* ===== verification/Igs_Strings.thy ===== *)
theory Igs_Strings
  imports C_Double
begin

text \<open>
  The string helpers: \<open>s_strndup\<close> (src/src/igs_core.c), \<open>model_clean_string\<close>,
  \<open>model_check_string\<close> and \<open>model_string_to_bytes\<close> (src/src/igs_model.c), and
  the hash \<open>mapping_djb2_hash\<close> with the text it is applied to
  (src/src/igs_mapping.c). The first four work on memory that holds a
  NUL-terminated string; elsewhere in the development a C string is the list
  of its bytes before the NUL.
\<close>

unbundle bit_operations_syntax

section \<open>The definitions\<close>

fun s_strndup_loop :: "string \<Rightarrow> nat \<Rightarrow> nat \<Rightarrow> string option" where
  "s_strndup_loop m chars n =
     (if n < chars
      then case m of [] \<Rightarrow> None
           | c # r \<Rightarrow> if c = CHR 0x00 then Some [CHR 0x00]
                     else map_option (\<lambda>b. c # b) (s_strndup_loop r chars (Suc n))
      else Some [CHR 0x00])"

definition s_strndup :: "string \<Rightarrow> nat \<Rightarrow> string option" where
  "s_strndup m chars = s_strndup_loop m chars 0"

definition is_ctl :: "char \<Rightarrow> bool" where
  "is_ctl c \<longleftrightarrow> c = CHR 0x09 \<or> c = CHR 0x0B \<or> c = CHR 0x0D \<or> c = CHR 0x0A \<or> c = CHR 0x0C"

definition skip_ctl :: "string \<Rightarrow> nat \<Rightarrow> nat" where
  "skip_ctl m k = k + length (takeWhile is_ctl (drop k m))"

text \<open>
  The loop of \<open>model_clean_string\<close>: \<open>i\<close> is \<open>write_index\<close>, which
  \<open>char_index - string\<close> equals throughout, and \<open>off\<close> is \<open>offset\<close>.
\<close>

function model_clean_loop :: "string \<Rightarrow> nat \<Rightarrow> nat \<Rightarrow> nat \<Rightarrow> (string \<times> nat) option" where
  "model_clean_loop m mx i off =
     (let j = skip_ctl m (i + off); off' = j - i
      in if length m \<le> j then None
         else let m' = (if 0 < off' then m[i := m ! j] else m)
              in if m' ! i = CHR 0x00 then Some (m', off')
                 else if length m \<le> Suc i then None
                 else if Suc i = mx then Some (m'[Suc i := CHR 0x00], Suc off')
                 else model_clean_loop m' mx (Suc i) off')"
  by pat_completeness auto
termination by (relation "measure (\<lambda>(m, mx, i, off). length m - i)") (auto split: if_splits)

declare model_clean_loop.simps [simp del]

definition max_of :: "int \<Rightarrow> nat" where
  "max_of mx = (if mx \<le> 0 then 2 ^ 63 - 1 else nat mx)"

definition model_clean_string :: "string \<Rightarrow> int \<Rightarrow> (string \<times> nat) option" where
  "model_clean_string m mx = model_clean_loop m (max_of mx) 0 0"

fun model_check_loop :: "string \<Rightarrow> nat \<Rightarrow> nat \<Rightarrow> bool option" where
  "model_check_loop [] mx off = None"
| "model_check_loop (c # r) mx off =
     (if is_ctl c then Some False
      else if c = CHR 0x00 then Some True
      else if mx \<le> off then Some False
      else model_check_loop r mx (Suc off))"

definition model_check_string :: "string \<Rightarrow> int \<Rightarrow> bool option" where
  "model_check_string m mx = model_check_loop m (max_of mx) 0"

definition hex_val :: "char \<Rightarrow> nat option" where
  "hex_val c = (let n = (of_char c :: nat) in
     if 48 \<le> n \<and> n \<le> 57 then Some (n - 48)
     else if 65 \<le> n \<and> n \<le> 70 then Some (10 + (n - 65))
     else if 97 \<le> n \<and> n \<le> 102 then Some (10 + (n - 97))
     else None)"

fun string_to_bytes_loop :: "string \<Rightarrow> nat \<Rightarrow> string \<Rightarrow> string option" where
  "string_to_bytes_loop [] index data = Some data"
| "string_to_bytes_loop (c # cs) index data =
     (case hex_val c of None \<Rightarrow> None
      | Some v \<Rightarrow> string_to_bytes_loop cs (Suc index)
          (data[index div 2 := char_of
             ((of_char (data ! (index div 2)) + v * 2 ^ (((index + 1) mod 2) * 4)) mod 256)]))"

definition model_string_to_bytes :: "string \<Rightarrow> string option" where
  "model_string_to_bytes s =
     (if length s < 2 \<or> odd (length s) then None
      else string_to_bytes_loop s 0 (replicate (length s div 2) (CHR 0x00)))"

definition djb2_step :: "u64 \<Rightarrow> char \<Rightarrow> u64" where
  "djb2_step hash c = (push_bit 5 hash + hash) + of_nat (of_char c)"

definition mapping_djb2_hash :: "string \<Rightarrow> u64" where
  "mapping_djb2_hash s = foldl djb2_step 5381 s"

text \<open>The text hashed for an entry \<open>from_input \<rightarrow> to_agent.to_output\<close>.\<close>

definition mashup :: "string \<Rightarrow> string \<Rightarrow> string \<Rightarrow> string" where
  "mashup from_input to_agent to_output = from_input @ ''.'' @ to_agent @ ''.'' @ to_output"

definition entry_id :: "string \<Rightarrow> string \<Rightarrow> string \<Rightarrow> u64" where
  "entry_id from_input to_agent to_output = mapping_djb2_hash (mashup from_input to_agent to_output)"

section \<open>Copying a prefix\<close>

lemma s_strndup_loop_take:
  "no_nul s \<Longrightarrow> s_strndup_loop (s @ CHR 0x00 # r) chars n = Some (wr_cstr (take (chars - n) s))"
proof (induction s arbitrary: n)
  case Nil
  then show ?case by (simp add: wr_cstr_def)
next
  case (Cons c s)
  then have "c \<noteq> CHR 0x00" "no_nul s" by (auto simp: no_nul_def)
  moreover have "chars - n = Suc (chars - Suc n)" if "n < chars" using that by simp
  ultimately show ?case using Cons.IH [of "Suc n"] by (auto simp: wr_cstr_def)
qed

lemma s_strndup_wr [simp]: "no_nul s \<Longrightarrow> s_strndup (wr_cstr s) chars = Some (wr_cstr (take chars s))"
  using s_strndup_loop_take [of s "[]" chars 0] by (simp add: s_strndup_def wr_cstr_def)

section \<open>Cleaning\<close>

lemma skip_ctl_step: "k < length m \<Longrightarrow> is_ctl (m ! k) \<Longrightarrow> skip_ctl m k = skip_ctl m (Suc k)"
  by (simp add: skip_ctl_def Cons_nth_drop_Suc [symmetric])

lemma skip_ctl_stop: "k < length m \<Longrightarrow> \<not> is_ctl (m ! k) \<Longrightarrow> skip_ctl m k = k"
  by (simp add: skip_ctl_def Cons_nth_drop_Suc [symmetric])

lemma clean_loop_skip:
  "i + off < length m \<Longrightarrow> is_ctl (m ! (i + off)) \<Longrightarrow>
     model_clean_loop m mx i off = model_clean_loop m mx i (Suc off)"
  using skip_ctl_step [of "i + off" m]
  by (simp add: model_clean_loop.simps [of m mx i off] model_clean_loop.simps [of m mx i "Suc off"])

lemma not_ctl_nul [simp]: "\<not> is_ctl (CHR 0x00)"
  by (simp add: is_ctl_def)

lemma rd_cstr_append [simp]: "no_nul s \<Longrightarrow> rd_cstr (s @ CHR 0x00 # r) = Some s"
  using rd_cstr_wr [of s r] by (simp add: wr_cstr_def)

lemma clean_loop_result:
  assumes "no_nul kept" "no_nul s" "length kept < mx"
  shows "\<exists>m' n. model_clean_loop (kept @ junk @ s @ CHR 0x00 # r) mx (length kept) (length junk) = Some (m', n)
           \<and> rd_cstr m' = Some (take mx (kept @ filter (\<lambda>c. \<not> is_ctl c) s))
           \<and> (n = 0 \<longleftrightarrow> junk = [] \<and> (\<forall>c \<in> set s. \<not> is_ctl c) \<and> length kept + length s < mx)"
  using assms
proof (induction s arbitrary: kept junk)
  case Nil
  let ?m = "kept @ junk @ CHR 0x00 # r"
  have j: "skip_ctl ?m (length kept + length junk) = length kept + length junk"
    by (rule skip_ctl_stop) (simp_all add: nth_append)
  show ?case
  proof (cases junk)
    case Nil
    with j show ?thesis
      using Nil.prems by (simp add: model_clean_loop.simps [of "kept @ CHR 0x00 # r"])
  next
    case (Cons x xs)
    have "?m[length kept := CHR 0x00] = kept @ CHR 0x00 # xs @ CHR 0x00 # r"
      by (simp add: Cons)
    moreover have "?m ! (length kept + length junk) = CHR 0x00" by (simp add: nth_append)
    ultimately show ?thesis
      using Nil.prems j Cons
      by (simp add: model_clean_loop.simps [of "kept @ x # xs @ CHR 0x00 # r"] nth_append)
  qed
next
  case (Cons c s)
  let ?m = "kept @ junk @ (c # s) @ CHR 0x00 # r"
  have at: "?m ! (length kept + length junk) = c" by (simp add: nth_append)
  have c0: "c \<noteq> CHR 0x00" "no_nul s" using Cons.prems by (auto simp: no_nul_def)
  show ?case
  proof (cases "is_ctl c")
    case True
    then have "model_clean_loop ?m mx (length kept) (length junk)
        = model_clean_loop ?m mx (length kept) (Suc (length junk))"
      by (intro clean_loop_skip) (simp_all add: nth_append)
    then show ?thesis using Cons.IH [of kept "junk @ [c]"] Cons.prems c0 True by simp
  next
    case False
    have j: "skip_ctl ?m (length kept + length junk) = length kept + length junk"
      using False by (intro skip_ctl_stop) (simp_all add: nth_append)
    obtain junk' where m': "(if 0 < length junk then ?m[length kept := c] else ?m)
        = (kept @ [c]) @ junk' @ s @ CHR 0x00 # r" and l: "length junk' = length junk"
    proof (cases junk)
      case (Cons x xs)
      then show ?thesis using that [of "xs @ [c]"] by simp
    qed (use that [of "[]"] in simp)
    have step: "model_clean_loop ?m mx (length kept) (length junk) =
       (if Suc (length kept) = mx
        then Some (((kept @ [c]) @ junk' @ s @ CHR 0x00 # r)[Suc (length kept) := CHR 0x00], Suc (length junk))
        else model_clean_loop ((kept @ [c]) @ junk' @ s @ CHR 0x00 # r) mx (Suc (length kept)) (length junk))"
      unfolding model_clean_loop.simps [of ?m] Let_def j diff_add_inverse at m'
      using c0 by (simp add: nth_append)
    show ?thesis
    proof (cases "Suc (length kept) = mx")
      case True
      obtain y ys where y: "junk' @ s @ CHR 0x00 # r = y # ys" by (cases "junk' @ s @ CHR 0x00 # r") auto
      have "((kept @ [c]) @ junk' @ s @ CHR 0x00 # r)[Suc (length kept) := CHR 0x00]
          = (kept @ [c]) @ CHR 0x00 # ys" by (simp only: y) (simp add: list_update_append)
      moreover have "no_nul (kept @ [c])" using Cons.prems c0 by (auto simp: no_nul_def)
      moreover have "mx - length kept = Suc 0" using True by simp
      ultimately show ?thesis using step True False by (simp del: append_assoc)
    next
      case mx: False
      have "no_nul (kept @ [c])" using Cons.prems c0 by (auto simp: no_nul_def)
      then show ?thesis
        using Cons.IH [of "kept @ [c]" junk'] Cons.prems c0 step mx False l by auto
    qed
  qed
qed

lemma max_of_pos [simp]: "0 < max_of mx"
  by (simp add: max_of_def)

lemma clean_string_result:
  assumes "no_nul s"
  shows "\<exists>m' n. model_clean_string (wr_cstr s) mx = Some (m', n)
           \<and> rd_cstr m' = Some (take (max_of mx) (filter (\<lambda>c. \<not> is_ctl c) s))
           \<and> (n = 0 \<longleftrightarrow> (\<forall>c \<in> set s. \<not> is_ctl c) \<and> length s < max_of mx)"
  using clean_loop_result [of "[]" s "max_of mx" "[]" "[]"] assms
  by (simp add: model_clean_string_def wr_cstr_def no_nul_def)

section \<open>Checking\<close>

lemma check_loop_result:
  "no_nul s \<Longrightarrow> off \<le> mx \<Longrightarrow> model_check_loop (s @ CHR 0x00 # r) mx off =
     Some ((\<forall>c \<in> set s. \<not> is_ctl c) \<and> off + length s \<le> mx)"
proof (induction s arbitrary: off)
  case (Cons c s)
  then show ?case by (cases "off = mx") (auto simp: no_nul_def)
qed simp

lemma check_string_result:
  "no_nul s \<Longrightarrow> model_check_string (wr_cstr s) mx =
     Some ((\<forall>c \<in> set s. \<not> is_ctl c) \<and> length s \<le> max_of mx)"
  using check_loop_result [of s 0 "max_of mx" "[]"] by (simp add: model_check_string_def wr_cstr_def)

section \<open>Hexadecimal text\<close>

definition hex_digit :: "nat \<Rightarrow> char" where
  "hex_digit n = (if n < 10 then char_of (48 + n) else char_of (55 + n))"

fun to_hex :: "string \<Rightarrow> string" where
  "to_hex [] = []"
| "to_hex (c # cs) = hex_digit ((of_char c :: nat) div 16) # hex_digit ((of_char c :: nat) mod 16) # to_hex cs"

lemma hex_val_digit: "n < 16 \<Longrightarrow> hex_val (hex_digit n) = Some n"
  by (auto simp: hex_val_def hex_digit_def Let_def)

lemma length_to_hex [simp]: "length (to_hex d) = 2 * length d"
  by (induction d) auto

lemma string_to_bytes_loop_hex:
  "length acc * 2 = index \<Longrightarrow>
     string_to_bytes_loop (to_hex d) index (acc @ replicate (length d) (CHR 0x00)) = Some (acc @ d)"
proof (induction d arbitrary: acc index)
  case (Cons c d)
  have hi: "(of_char c :: nat) div 16 < 16" and lo: "(of_char c :: nat) mod 16 < 16"
    using nat_of_char_less_256 [of c] by (simp_all add: less_mult_imp_div_less)
  have i: "index div 2 = length acc" "Suc index div 2 = length acc" "even index"
    "Suc index mod 2 = 1"
    using Cons.prems by (auto, presburger)
  have "(of_char c :: nat) div 16 * 16 + of_char c mod 16 = of_char c" by simp
  moreover have "(of_char c :: nat) div 16 * 16 < 256" using hi by simp
  ultimately have "string_to_bytes_loop (to_hex (c # d)) index (acc @ replicate (length (c # d)) (CHR 0x00))
      = string_to_bytes_loop (to_hex d) (Suc (Suc index)) ((acc @ [c]) @ replicate (length d) (CHR 0x00))"
    using i Cons.prems hex_val_digit [OF hi] hex_val_digit [OF lo]
    by (simp add: list_update_append nth_append)
  then show ?case using Cons.IH [of "acc @ [c]" "Suc (Suc index)"] Cons.prems by simp
qed simp

lemma string_to_bytes_hex: "d \<noteq> [] \<Longrightarrow> model_string_to_bytes (to_hex d) = Some d"
  using string_to_bytes_loop_hex [of "[]" 0 d] by (cases d) (auto simp: model_string_to_bytes_def)

lemma string_to_bytes_loop_length:
  "string_to_bytes_loop s index data = Some d \<Longrightarrow> length d = length data"
  by (induction s index data rule: string_to_bytes_loop.induct) (auto split: option.splits)

lemma string_to_bytes_length: "model_string_to_bytes s = Some d \<Longrightarrow> length d = length s div 2 \<and> d \<noteq> []"
  by (auto simp: model_string_to_bytes_def split: if_splits dest!: string_to_bytes_loop_length)

section \<open>The hash\<close>

lemma djb2_step_33: "djb2_step h c = h * 33 + of_nat (of_char c)"
  by (simp add: djb2_step_def push_bit_eq_mult)

lemma djb2_foldl: "foldl djb2_step h s
   = h * 33 ^ length s + (\<Sum>i<length s. of_nat (of_char (s ! i)) * 33 ^ (length s - Suc i))"
proof (induction s rule: rev_induct)
  case (snoc c s)
  have "(\<Sum>i<length s. of_nat (of_char ((s @ [c]) ! i)) * 33 ^ (length s - i) :: u64)
      = (\<Sum>i<length s. of_nat (of_char (s ! i)) * 33 ^ (length s - Suc i)) * 33"
    by (subst sum_distrib_right, rule sum.cong) (simp_all add: nth_append mult.assoc Suc_diff_Suc flip: power_Suc2)
  then show ?case using snoc by (simp add: djb2_step_33 algebra_simps)
qed simp

lemma djb2_snoc: "mapping_djb2_hash (s @ [c]) = 33 * mapping_djb2_hash s + of_nat (of_char c)"
  by (simp add: mapping_djb2_hash_def djb2_step_33)

end
