(* ===== verification/Igs_Types.thy ===== *)
theory Igs_Types
  imports Igs_Strings
begin

text \<open>
  The data model of src/include/ingescape_private.h and src/include/ingescape.h:
  inputs, outputs and attributes with their constraints, services, the
  definition and the mapping of an agent, the agent and the core context.

  A C union is one field per member: the program reads only the member that
  the type tag selects, and \<open>io_wf\<close> states that the others keep the zero they
  are allocated with. A \<open>char *\<close> or \<open>void *\<close> that owns memory is \<open>None\<close> for NULL
  or the bytes it points to. \<open>value.s\<close> and \<open>value.data\<close> keep every byte of
  their buffer, the NUL of a string included; names, descriptions and the like
  are the bytes before the NUL. Agents live at addresses, so that the pointer
  the application holds and the one in the context's tables are the same agent.
\<close>

section \<open>Enumerations\<close>

datatype igs_result = IGS_SUCCESS | IGS_FAILURE

datatype igs_io_type = IGS_INPUT_T | IGS_OUTPUT_T | IGS_ATTRIBUTE_T

datatype igs_io_value_type =
  IGS_UNKNOWN_T | IGS_INTEGER_T | IGS_DOUBLE_T | IGS_STRING_T | IGS_BOOL_T | IGS_IMPULSION_T | IGS_DATA_T

fun value_type_code :: "igs_io_value_type \<Rightarrow> nat" where
  "value_type_code IGS_UNKNOWN_T = 0"
| "value_type_code IGS_INTEGER_T = 1"
| "value_type_code IGS_DOUBLE_T = 2"
| "value_type_code IGS_STRING_T = 3"
| "value_type_code IGS_BOOL_T = 4"
| "value_type_code IGS_IMPULSION_T = 5"
| "value_type_code IGS_DATA_T = 6"

text \<open>The enumerator of a number; a number outside the enumeration has none.\<close>

definition value_type_of :: "int \<Rightarrow> igs_io_value_type option" where
  "value_type_of n = (if n = 0 then Some IGS_UNKNOWN_T else if n = 1 then Some IGS_INTEGER_T
     else if n = 2 then Some IGS_DOUBLE_T else if n = 3 then Some IGS_STRING_T
     else if n = 4 then Some IGS_BOOL_T else if n = 5 then Some IGS_IMPULSION_T
     else if n = 6 then Some IGS_DATA_T else None)"

lemma value_type_of_code [simp]: "value_type_of (int (value_type_code t)) = Some t"
  by (cases t) (simp_all add: value_type_of_def)

datatype igs_constraint_type =
  IGS_CONSTRAINT_MIN | IGS_CONSTRAINT_MAX | IGS_CONSTRAINT_RANGE | IGS_CONSTRAINT_REGEXP

section \<open>Sizes and limits\<close>

definition sizeof_int :: nat where "sizeof_int = 4"
definition sizeof_double :: nat where "sizeof_double = 8"
definition sizeof_bool :: nat where "sizeof_bool = 1"

lemmas sizeofs = sizeof_int_def sizeof_double_def sizeof_bool_def

definition IGS_MAX_IO_NAME_LENGTH :: nat where "IGS_MAX_IO_NAME_LENGTH = 1024"
definition IGS_MAX_AGENT_NAME_LENGTH :: nat where "IGS_MAX_AGENT_NAME_LENGTH = 1024"
definition IGS_MAX_AGENT_CLASS_LENGTH :: nat where "IGS_MAX_AGENT_CLASS_LENGTH = 1024"
definition IGS_MAX_AGENT_PACKAGE_LENGTH :: nat where "IGS_MAX_AGENT_PACKAGE_LENGTH = 4096"
definition IGS_MAX_SERVICE_NAME_LENGTH :: nat where "IGS_MAX_SERVICE_NAME_LENGTH = 1024"
definition IGS_MAX_SERVICE_ARG_NAME_LENGTH :: nat where "IGS_MAX_SERVICE_ARG_NAME_LENGTH = 1024"
definition IGS_MAX_DESCRIPTION_LENGTH :: nat where "IGS_MAX_DESCRIPTION_LENGTH = 4096 * 4096"
definition IGS_MAX_FAMILY_LENGTH :: nat where "IGS_MAX_FAMILY_LENGTH = 64"
definition IGS_MAX_VERSION_LENGTH :: nat where "IGS_MAX_VERSION_LENGTH = 64"
definition IGS_MAX_DETAILED_TYPE_LENGTH :: nat where "IGS_MAX_DETAILED_TYPE_LENGTH = 1024"
definition IGS_MAX_SPECIFICATION_LENGTH :: nat where "IGS_MAX_SPECIFICATION_LENGTH = 4096 * 4096"
definition IGS_MAX_CONSTRAINT_LENGTH :: nat where "IGS_MAX_CONSTRAINT_LENGTH = 4096"
definition IGS_MAX_STATE_LENGTH :: nat where "IGS_MAX_STATE_LENGTH = 4096"
definition IGS_MAX_PATH_LENGTH :: nat where "IGS_MAX_PATH_LENGTH = 4096"
definition IGS_DEFAULT_WORKER_CREDIT :: int where "IGS_DEFAULT_WORKER_CREDIT = 3"
definition IGS_DEFAULT_AGENT_NAME :: string where "IGS_DEFAULT_AGENT_NAME = ''no_name''"

section \<open>Inputs, outputs and attributes\<close>

record igs_constraint =
  ct_type :: igs_constraint_type
  ct_min_int :: i32
  ct_max_int :: i32
  ct_min_double :: f64
  ct_max_double :: f64
  ct_regexp :: string

record igs_observe_io_wrapper =
  cb_ptr :: nat
  cb_my_data :: nat

record igs_io =
  io_name :: string
  io_description :: "string option"
  io_detailed_type :: "string option"
  io_specification :: "string option"
  io_value_type :: igs_io_value_type
  io_type :: igs_io_type
  io_i :: i32
  io_d :: f64
  io_s :: "string option"
  io_b :: bool
  io_data :: "string option"
  io_value_size :: nat
  io_is_muted :: bool
  io_callbacks :: "igs_observe_io_wrapper list"
  io_constraint :: "igs_constraint option"

section \<open>Services\<close>

record igs_service_arg =
  sa_name :: "string option"
  sa_description :: "string option"
  sa_type :: igs_io_value_type
  sa_b :: bool
  sa_i :: i32
  sa_d :: f64
  sa_c :: "string option"
  sa_data :: "string option"
  sa_size :: nat

text \<open>
  A reply has the type of a service, but the program never gives it a callback
  or replies of its own.
\<close>

record igs_reply =
  rp_name :: string
  rp_description :: "string option"
  rp_arguments :: "igs_service_arg list"

record igs_service =
  sv_name :: string
  sv_description :: "string option"
  sv_cb :: "nat option"
  sv_cb_data :: nat
  sv_arguments :: "igs_service_arg list"
  sv_replies_names :: "string list"
  sv_replies :: "(string, igs_reply) table"

section \<open>Definition and mapping\<close>

record igs_definition =
  df_my_class :: "string option"
  df_class_set_explicitly :: bool
  df_package :: "string option"
  df_name :: "string option"
  df_description :: "string option"
  df_version :: "string option"
  df_json :: "string option"
  df_json_legacy_v3 :: "string option"
  df_json_legacy_v4 :: "string option"
  df_family :: "string option"
  df_attributes_names :: "string list"
  df_attributes :: "(string, igs_io) table"
  df_inputs_names :: "string list"
  df_inputs :: "(string, igs_io) table"
  df_outputs_names :: "string list"
  df_outputs :: "(string, igs_io) table"
  df_services_names :: "string list"
  df_services :: "(string, igs_service) table"

record igs_map =
  mp_id :: u64
  mp_from_input :: string
  mp_to_agent :: string
  mp_to_output :: string

record igs_split =
  sp_id :: u64
  sp_from_input :: string
  sp_to_agent :: string
  sp_to_output :: string

record igs_mapping =
  mg_json :: "string option"
  mg_json_legacy :: "string option"
  mg_map_elements :: "igs_map list"
  mg_split_elements :: "igs_split list"

section \<open>Agents and the core context\<close>

type_synonym addr = nat

text \<open>
  Every wrapper of a callback holds the function and the data of the application:
  \<open>igsagent_wrapper_t\<close>, \<open>igs_agent_event_wrapper_t\<close> and \<open>igs_mute_wrapper_t\<close>.
\<close>

record igs_wrapper =
  wr_callback :: nat
  wr_my_data :: nat

record igs_agent =
  ag_uuid :: "string option"
  ag_state :: "string option"
  ag_is_virtual :: bool
  ag_context :: bool
  ag_igs_channel :: "string option"
  ag_activate_callbacks :: "igs_wrapper list"
  ag_agent_event_callbacks :: "igs_wrapper list"
  ag_enforce_constraints :: bool
  ag_definition_path :: "string option"
  ag_definition :: "igs_definition option"
  ag_mapping_path :: "string option"
  ag_mapping :: "igs_mapping option"
  ag_rt_timestamps_enabled :: bool
  ag_rt_current_timestamp :: int
  ag_rt_synchronous_mode :: bool
  ag_need_definition_update :: bool
  ag_need_mapping_update :: bool
  ag_request_outputs :: bool
  ag_activation_during_runtime :: bool
  ag_is_whole_agent_muted :: bool
  ag_mute_callbacks :: "igs_wrapper list"
  ag_elections :: "string list option"

datatype igs_agent_event =
  IGS_PEER_ENTERED | IGS_PEER_EXITED | IGS_AGENT_ENTERED | IGS_AGENT_UPDATED_DEFINITION | IGS_AGENT_KNOWS_US
| IGS_AGENT_EXITED | IGS_AGENT_UPDATED_MAPPING | IGS_AGENT_WON_ELECTION | IGS_AGENT_LOST_ELECTION
| IGS_AGENT_CHANGED_STATE

record igs_zyre_peer =
  pe_peer_id :: string
  pe_name :: string
  pe_subscriber :: bool
  pe_reconnected :: nat
  pe_has_joined_private_channel :: bool
  pe_protocol :: "string option"

text \<open>A remote agent keeps a pointer to its peer, which does not change while the agent is known.\<close>

record igs_remote_agent =
  ra_uuid :: string
  ra_peer :: igs_zyre_peer
  ra_definition :: "igs_definition option"
  ra_shall_send_outputs_request :: bool
  ra_mapping :: "igs_mapping option"
  ra_mapping_filters :: "string list"

record igs_worker =
  wk_input_name :: string
  wk_agent_uuid :: string
  wk_credit :: int
  wk_uses :: int

record igs_queued_work =
  qw_value_type :: igs_io_value_type
  qw_i :: i32
  qw_d :: f64
  qw_s :: "string option"
  qw_s_address :: "64 word"
  qw_b :: bool
  qw_data :: "string option"
  qw_value_size :: nat

record igs_splitter =
  sl_agent_uuid :: string
  sl_output_name :: string
  sl_workers :: "igs_worker list"
  sl_queued_works :: "igs_queued_work list"

text \<open>
  What the network actor and the administration keep in the context: the configuration
  of the network, the observers of channels, the files of the log, the counters of the
  measure of performance, and the default agent (\<open>core_agent\<close>, a global of its own).
\<close>

record igs_network =
  nt_ip_address :: string
  nt_process_id :: i32
  nt_pid_namespace :: u64
  nt_allow_ipc :: bool
  nt_allow_inproc :: bool
  nt_security :: bool
  nt_replay_channel :: string
  nt_peer_headers :: "(string, string) table"
  nt_zyre_callbacks :: "igs_wrapper list"
  nt_external_stop :: bool
  nt_external_stop_callbacks :: "igs_wrapper list"
  nt_log_in_stream :: bool
  nt_log_in_file :: bool
  nt_log_file_path :: string
  nt_log_file :: bool
  nt_performance_msg_counter :: u64
  nt_performance_msg_count_target :: u64
  nt_core_agent :: "addr option"

text \<open>
  What the program hands to the network layer and to its own pipe, in order;
  a message is the list of its frames.
\<close>

datatype igs_event =
  Zyre_Shout string "string list"
| Zyre_Shouts string string
| Zyre_Join string
| Zyre_Leave string
| Zyre_Contest string
| Zyre_Whisper string "string list"
| Publish_Network "string list"
| Publish_Ipc "string list"
| Publish_Inproc "string list"
| Pipe_Send "string list"
| Zsock_Subscribe string string
| Zsock_Unsubscribe string string
| Outputs_Request_Timer string
| Outputs_Request_Timer_End string
| Zyre_Whispers string string
| Zsock_New_Sub string string
| Zsock_Curve_Key string string
| Zsock_Destroy string
| File_Written string string

record igs_core =
  cx_model_locked :: bool
  cx_store :: "addr \<Rightarrow> igs_agent option"
  cx_created_agents :: "(string, addr) table"
  cx_agents :: "(string, addr) table"
  cx_remote_agents :: "(string, igs_remote_agent) table"
  cx_zyre_peers :: "(string, igs_zyre_peer) table"
  cx_splitters :: "igs_splitter list"
  cx_node :: bool
  cx_network_actor :: bool
  cx_publisher :: bool
  cx_ipc_publisher :: bool
  cx_inproc_publisher :: bool
  cx_is_frozen :: bool
  cx_freeze_callbacks :: "igs_wrapper list"
  cx_elections :: "(string, string list) table"
  cx_rt_current_microseconds :: int
  cx_network :: igs_network
  cx_events :: "igs_event list"

end
