(* ===== verification/Igs_Constraint.thy ===== *)
theory Igs_Constraint
  imports Igs_Types C_Double
begin

text \<open>
  Constraints on the value of an input, output or attribute (src/src/igs_model.c,
  \<open>model_parse_constraint\<close> and the first part of \<open>model_write\<close>).

  Regular expressions are those of CZMQ's \<open>zrex\<close>, which is not in the
  repository: \<open>zrex_hits env pattern text\<close> is the list of hits of a match, hit 0
  first, or \<open>None\<close> when the text does not match, and \<open>zrex_valid env pattern\<close>
  tells whether the pattern compiles. Error messages are only logged: the
  parser returns whether there was one.
\<close>

record igs_env =
  zrex_hits :: "string \<Rightarrow> string \<Rightarrow> string list option"
  zrex_valid :: "string \<Rightarrow> bool"

section \<open>The parser\<close>

text \<open>A hit that is not there is NULL, which \<open>atoi\<close> and \<open>atof\<close> dereference.\<close>

definition zrex_hit :: "string list \<Rightarrow> nat \<Rightarrow> string option" where
  "zrex_hit hits n = (if n < length hits then Some (hits ! n) else None)"

definition min_exp :: string where
  "min_exp = ''min ([+-]?('' @ [CHR 0x5C] @ ''d*[.])?'' @ [CHR 0x5C] @ ''d+)''"

definition max_exp :: string where
  "max_exp = ''max ([+-]?('' @ [CHR 0x5C] @ ''d*[.])?'' @ [CHR 0x5C] @ ''d+)''"

definition range_exp :: string where
  "range_exp = [CHR 0x5C] @ ''[([+-]?('' @ [CHR 0x5C] @ ''d*[.])?'' @ [CHR 0x5C] @ ''d+)'' @ [CHR 0x5C] @ ''s*,''
     @ [CHR 0x5C] @ ''s*([+-]?('' @ [CHR 0x5C] @ ''d*[.])?'' @ [CHR 0x5C] @ ''d+)'' @ [CHR 0x5C] @ '']''"

definition regexp_exp :: string where
  "regexp_exp = ''~ ([^'' @ [CHR 0x0A] @ '']+)''"

definition new_constraint :: "igs_constraint_type \<Rightarrow> igs_constraint" where
  "new_constraint t = \<lparr> ct_type = t, ct_min_int = 0, ct_max_int = 0, ct_min_double = 0, ct_max_double = 0,
     ct_regexp = [] \<rparr>"

definition parse_min :: "igs_io_value_type \<Rightarrow> string list \<Rightarrow> (igs_constraint option \<times> bool) option" where
  "parse_min type hits =
     (if type = IGS_INTEGER_T then
        do { e \<leftarrow> zrex_hit hits 1; i \<leftarrow> c_atoi e;
             Some (Some (new_constraint IGS_CONSTRAINT_MIN\<lparr> ct_min_int := i \<rparr>), False) }
      else if type = IGS_DOUBLE_T then
        do { e \<leftarrow> zrex_hit hits 1;
             Some (Some (new_constraint IGS_CONSTRAINT_MIN\<lparr> ct_min_double := c_atof e \<rparr>), False) }
      else Some (None, True))"

definition parse_max :: "igs_io_value_type \<Rightarrow> string list \<Rightarrow> (igs_constraint option \<times> bool) option" where
  "parse_max type hits =
     (if type = IGS_INTEGER_T then
        do { e \<leftarrow> zrex_hit hits 1; i \<leftarrow> c_atoi e;
             Some (Some (new_constraint IGS_CONSTRAINT_MAX\<lparr> ct_max_int := i \<rparr>), False) }
      else if type = IGS_DOUBLE_T then
        do { e \<leftarrow> zrex_hit hits 1;
             Some (Some (new_constraint IGS_CONSTRAINT_MAX\<lparr> ct_max_double := c_atof e \<rparr>), False) }
      else Some (None, True))"

definition parse_range :: "igs_io_value_type \<Rightarrow> string list \<Rightarrow> (igs_constraint option \<times> bool) option" where
  "parse_range type hits =
     (if type = IGS_INTEGER_T then
        do { e1 \<leftarrow> zrex_hit hits 1; e2 \<leftarrow> zrex_hit hits 3; lo \<leftarrow> c_atoi e1; hi \<leftarrow> c_atoi e2;
             if sint hi < sint lo then Some (None, True)
             else Some (Some (new_constraint IGS_CONSTRAINT_RANGE\<lparr> ct_min_int := lo, ct_max_int := hi \<rparr>), False) }
      else if type = IGS_DOUBLE_T then
        do { e1 \<leftarrow> zrex_hit hits 1; e2 \<leftarrow> zrex_hit hits 3;
             Some (Some (new_constraint IGS_CONSTRAINT_RANGE
               \<lparr> ct_min_double := c_atof e1, ct_max_double := c_atof e2 \<rparr>), False) }
      else Some (None, True))"

definition parse_regexp ::
    "igs_env \<Rightarrow> igs_io_value_type \<Rightarrow> string list \<Rightarrow> (igs_constraint option \<times> bool) option" where
  "parse_regexp env type hits =
     (if type = IGS_STRING_T then
        do { e \<leftarrow> zrex_hit hits 1;
             if \<not> zrex_valid env e then Some (None, True)
             else Some (Some (new_constraint IGS_CONSTRAINT_REGEXP\<lparr> ct_regexp := e \<rparr>), False) }
      else Some (None, True))"

definition model_parse_constraint ::
    "igs_env \<Rightarrow> igs_io_value_type \<Rightarrow> string \<Rightarrow> (igs_constraint option \<times> bool) option" where
  "model_parse_constraint env type expression =
     (case zrex_hits env min_exp expression of Some hits \<Rightarrow> parse_min type hits
      | None \<Rightarrow>
     (case zrex_hits env max_exp expression of Some hits \<Rightarrow> parse_max type hits
      | None \<Rightarrow>
     (case zrex_hits env range_exp expression of Some hits \<Rightarrow> parse_range type hits
      | None \<Rightarrow>
     (case zrex_hits env regexp_exp expression of Some hits \<Rightarrow> parse_regexp env type hits
      | None \<Rightarrow> Some (None, True)))))"

section \<open>The check of a write\<close>

text \<open>
  The value converted for the comparison. The inner \<open>None\<close> is a refusal; reading
  more bytes than the buffer holds is the outer one.
\<close>

definition constraint_int ::
    "igs_io_value_type \<Rightarrow> string option \<Rightarrow> nat \<Rightarrow> i32 option option" where
  "constraint_int value_type value sz =
     (case value of
        Some v \<Rightarrow>
          if sz > 0 then
            (case value_type of
               IGS_STRING_T \<Rightarrow> do { s \<leftarrow> rd_cstr v; i \<leftarrow> c_atoi s; Some (Some i) }
             | IGS_DATA_T \<Rightarrow> if sz = sizeof_int then do { i \<leftarrow> rd_int v; Some (Some i) } else Some None
             | IGS_DOUBLE_T \<Rightarrow> do { d \<leftarrow> rd_double v; i \<leftarrow> d_to_int d; Some (Some i) }
             | _ \<Rightarrow> do { i \<leftarrow> rd_int v; Some (Some i) })
          else Some (Some 0)
      | None \<Rightarrow> Some (Some 0))"

definition constraint_double ::
    "igs_io_value_type \<Rightarrow> string option \<Rightarrow> nat \<Rightarrow> f64 option option" where
  "constraint_double value_type value sz =
     (case value of
        Some v \<Rightarrow>
          if sz > 0 then
            (case value_type of
               IGS_STRING_T \<Rightarrow> do { s \<leftarrow> rd_cstr v; Some (Some (c_atof s)) }
             | IGS_DATA_T \<Rightarrow> if sz = sizeof_double then do { d \<leftarrow> rd_double v; Some (Some d) } else Some None
             | IGS_INTEGER_T \<Rightarrow> do { i \<leftarrow> rd_int v; Some (Some (d_of_int (sint i))) }
             | IGS_BOOL_T \<Rightarrow> do { i \<leftarrow> rd_int v; Some (Some (d_of_int (sint i))) }
             | _ \<Rightarrow> do { d \<leftarrow> rd_double v; Some (Some d) })
          else Some (Some 0)
      | None \<Rightarrow> Some (Some 0))"

definition NUMBER_TO_STRING_MAX_LENGTH :: nat where "NUMBER_TO_STRING_MAX_LENGTH = 255"

text \<open>
  The case of data has no \<open>break\<close>: data that ends in NUL goes on as an integer,
  so that its first four bytes, in decimal, are what the expression must match.
\<close>

definition constraint_string ::
    "igs_io_value_type \<Rightarrow> string option \<Rightarrow> nat \<Rightarrow> string option option" where
  "constraint_string value_type value sz =
     (case value of
        Some v \<Rightarrow>
          if sz > 0 then
            (case value_type of
               IGS_STRING_T \<Rightarrow> do { s \<leftarrow> rd_cstr v; Some (Some s) }
             | IGS_DATA_T \<Rightarrow>
                 if length v < sz then None
                 else if v ! (sz - 1) = CHR 0x00 then do { i \<leftarrow> rd_int v; Some (Some (fmt_d (sint i))) }
                 else Some None
             | IGS_INTEGER_T \<Rightarrow> do { i \<leftarrow> rd_int v; Some (Some (fmt_d (sint i))) }
             | IGS_BOOL_T \<Rightarrow> do { i \<leftarrow> rd_int v; Some (Some (fmt_d (sint i))) }
             | IGS_DOUBLE_T \<Rightarrow>
                 do { d \<leftarrow> rd_double v; Some (Some (take NUMBER_TO_STRING_MAX_LENGTH (fmt_f d))) }
             | _ \<Rightarrow> Some (Some []))
          else Some None
      | None \<Rightarrow> Some None)"

definition int_allowed :: "igs_constraint \<Rightarrow> i32 \<Rightarrow> bool" where
  "int_allowed c v =
     (case ct_type c of
        IGS_CONSTRAINT_MIN \<Rightarrow> \<not> sint v < sint (ct_min_int c)
      | IGS_CONSTRAINT_MAX \<Rightarrow> \<not> sint (ct_max_int c) < sint v
      | IGS_CONSTRAINT_RANGE \<Rightarrow> \<not> sint (ct_max_int c) < sint v \<and> \<not> sint v < sint (ct_min_int c)
      | _ \<Rightarrow> True)"

definition double_allowed :: "igs_constraint \<Rightarrow> f64 \<Rightarrow> bool" where
  "double_allowed c v =
     (case ct_type c of
        IGS_CONSTRAINT_MIN \<Rightarrow> \<not> d_lt v (ct_min_double c)
      | IGS_CONSTRAINT_MAX \<Rightarrow> \<not> d_lt (ct_max_double c) v
      | IGS_CONSTRAINT_RANGE \<Rightarrow> \<not> d_lt (ct_max_double c) v \<and> \<not> d_lt v (ct_min_double c)
      | _ \<Rightarrow> True)"

text \<open>Whether the write goes on: the check of an io of one of the three constrained types.\<close>

definition constraint_check ::
    "igs_env \<Rightarrow> igs_constraint \<Rightarrow> igs_io_value_type \<Rightarrow> igs_io_value_type \<Rightarrow> string option \<Rightarrow> nat \<Rightarrow> bool option" where
  "constraint_check env c iot value_type value sz =
     (case iot of
        IGS_INTEGER_T \<Rightarrow>
          do { r \<leftarrow> constraint_int value_type value sz;
               Some (case r of None \<Rightarrow> False | Some v \<Rightarrow> int_allowed c v) }
      | IGS_DOUBLE_T \<Rightarrow>
          do { r \<leftarrow> constraint_double value_type value sz;
               Some (case r of None \<Rightarrow> False | Some v \<Rightarrow> double_allowed c v) }
      | IGS_STRING_T \<Rightarrow>
          do { r \<leftarrow> constraint_string value_type value sz;
               case r of None \<Rightarrow> Some False
               | Some s \<Rightarrow> if ct_type c = IGS_CONSTRAINT_REGEXP
                           then Some (zrex_hits env (ct_regexp c) s \<noteq> None) else None }
      | _ \<Rightarrow> Some True)"

section \<open>Well-formed constraints\<close>

text \<open>
  What the parser guarantees: numeric constraints sit on numeric types, regular
  expressions on strings, and an integer range is not empty.
\<close>

definition constraint_wf :: "igs_env \<Rightarrow> igs_io_value_type \<Rightarrow> igs_constraint \<Rightarrow> bool" where
  "constraint_wf env t c =
     (case ct_type c of
        IGS_CONSTRAINT_REGEXP \<Rightarrow> t = IGS_STRING_T \<and> zrex_valid env (ct_regexp c)
      | IGS_CONSTRAINT_RANGE \<Rightarrow> t = IGS_DOUBLE_T \<or> t = IGS_INTEGER_T \<and> sint (ct_min_int c) \<le> sint (ct_max_int c)
      | _ \<Rightarrow> t = IGS_INTEGER_T \<or> t = IGS_DOUBLE_T)"

lemmas constraint_parsers = parse_min_def parse_max_def parse_range_def parse_regexp_def

lemma parse_constraint_wf:
  "model_parse_constraint env t e = Some (Some c, err) \<Longrightarrow> constraint_wf env t c \<and> \<not> err"
  by (auto simp: model_parse_constraint_def constraint_parsers constraint_wf_def new_constraint_def
      bind_some_eqs split: option.splits if_splits)

lemma parse_constraint_reported:
  "model_parse_constraint env t e = Some (None, err) \<Longrightarrow> err"
  by (auto simp: model_parse_constraint_def constraint_parsers bind_some_eqs split: option.splits if_splits)

text \<open>A constraint the parser made never makes the check read a missing expression.\<close>

lemma check_defined_string:
  assumes "constraint_wf env IGS_STRING_T c" and "no_nul s"
  shows "constraint_check env c IGS_STRING_T IGS_STRING_T (Some (wr_cstr s)) (length s + 1)
    = Some (zrex_hits env (ct_regexp c) s \<noteq> None)"
  using assms by (auto simp: constraint_check_def constraint_string_def constraint_wf_def split: igs_constraint_type.splits)

end
