(* ===== verification/Igs_Io.thy ===== *)
theory Igs_Io
  imports Igs_Constraint
begin

text \<open>
  Reading and writing the value of one input, output or attribute: the
  conversions of \<open>model_write\<close> and of the \<open>s_model_read_io_as_\<close> functions of
  src/src/igs_model.c. A write takes the buffer and the size it is given
  (\<open>void *value\<close>, \<open>size_t size\<close>) and returns whether it was accepted (\<open>ret\<close>)
  and the io after it.
\<close>

section \<open>Writing\<close>

definition set_int :: "i32 \<Rightarrow> igs_io \<Rightarrow> igs_io" where
  "set_int i io = io\<lparr> io_value_size := sizeof_int, io_i := i \<rparr>"

definition set_double :: "f64 \<Rightarrow> igs_io \<Rightarrow> igs_io" where
  "set_double d io = io\<lparr> io_value_size := sizeof_double, io_d := d \<rparr>"

definition set_bool :: "bool \<Rightarrow> igs_io \<Rightarrow> igs_io" where
  "set_bool b io = io\<lparr> io_value_size := sizeof_bool, io_b := b \<rparr>"

definition set_string :: "string \<Rightarrow> igs_io \<Rightarrow> igs_io" where
  "set_string s io = io\<lparr> io_s := Some (wr_cstr s), io_value_size := length s + 1 \<rparr>"

definition set_data :: "string \<Rightarrow> igs_io \<Rightarrow> igs_io" where
  "set_data d io = io\<lparr> io_data := Some d, io_value_size := length d \<rparr>"

definition set_no_string :: "igs_io \<Rightarrow> igs_io" where
  "set_no_string io = io\<lparr> io_s := None, io_value_size := 0 \<rparr>"

definition set_no_data :: "igs_io \<Rightarrow> igs_io" where
  "set_no_data io = io\<lparr> io_data := None, io_value_size := 0 \<rparr>"

definition set_impulsion :: "igs_io \<Rightarrow> igs_io" where
  "set_impulsion io = io\<lparr> io_value_size := 0 \<rparr>"

lemmas io_setters = set_int_def set_double_def set_bool_def set_string_def set_data_def
  set_no_string_def set_no_data_def set_impulsion_def

text \<open>A write of no value, and a write of an impulsion: zero of the type.\<close>

definition write_nothing :: "igs_io \<Rightarrow> bool \<times> igs_io" where
  "write_nothing io =
     (case io_value_type io of
        IGS_INTEGER_T \<Rightarrow> (True, set_int 0 io)
      | IGS_DOUBLE_T \<Rightarrow> (True, set_double 0 io)
      | IGS_BOOL_T \<Rightarrow> (True, set_bool False io)
      | IGS_STRING_T \<Rightarrow> (True, set_no_string io)
      | IGS_IMPULSION_T \<Rightarrow> (True, set_impulsion io)
      | IGS_DATA_T \<Rightarrow> (True, set_no_data io)
      | IGS_UNKNOWN_T \<Rightarrow> (False, io))"

definition copy_bytes :: "string \<Rightarrow> nat \<Rightarrow> string option" where
  "copy_bytes v n = (if n \<le> length v then Some (take n v) else None)"

definition write_integer :: "string \<Rightarrow> igs_io \<Rightarrow> (bool \<times> igs_io) option" where
  "write_integer v io =
     (case io_value_type io of
        IGS_INTEGER_T \<Rightarrow> do { i \<leftarrow> rd_int v; Some (True, set_int i io) }
      | IGS_DOUBLE_T \<Rightarrow> do { i \<leftarrow> rd_int v; Some (True, set_double (d_of_int (sint i)) io) }
      | IGS_BOOL_T \<Rightarrow> do { i \<leftarrow> rd_int v; Some (True, set_bool (i \<noteq> 0) io) }
      | IGS_STRING_T \<Rightarrow> do { i \<leftarrow> rd_int v; Some (True, set_string (fmt_d (sint i)) io) }
      | IGS_IMPULSION_T \<Rightarrow> Some (True, set_impulsion io)
      | IGS_DATA_T \<Rightarrow> do { d \<leftarrow> copy_bytes v sizeof_int; Some (True, set_data d io) }
      | IGS_UNKNOWN_T \<Rightarrow> Some (False, io))"

definition write_double :: "string \<Rightarrow> igs_io \<Rightarrow> (bool \<times> igs_io) option" where
  "write_double v io =
     (case io_value_type io of
        IGS_INTEGER_T \<Rightarrow> do { d \<leftarrow> rd_double v; i \<leftarrow> d_to_int d; Some (True, set_int i io) }
      | IGS_DOUBLE_T \<Rightarrow> do { d \<leftarrow> rd_double v; Some (True, set_double d io) }
      | IGS_BOOL_T \<Rightarrow> do { d \<leftarrow> rd_double v; Some (True, set_bool (\<not> d_is_zero d) io) }
      | IGS_STRING_T \<Rightarrow>
          do { d \<leftarrow> rd_double v; Some (True, set_string (take NUMBER_TO_STRING_MAX_LENGTH (fmt_f d)) io) }
      | IGS_IMPULSION_T \<Rightarrow> Some (True, set_impulsion io)
      | IGS_DATA_T \<Rightarrow> do { d \<leftarrow> copy_bytes v sizeof_double; Some (True, set_data d io) }
      | IGS_UNKNOWN_T \<Rightarrow> Some (False, io))"

definition of_bool_i32 :: "bool \<Rightarrow> i32" where
  "of_bool_i32 b = (if b then 1 else 0)"

definition write_bool :: "string \<Rightarrow> igs_io \<Rightarrow> (bool \<times> igs_io) option" where
  "write_bool v io =
     (case io_value_type io of
        IGS_INTEGER_T \<Rightarrow> do { b \<leftarrow> rd_bool v; Some (True, set_int (of_bool_i32 b) io) }
      | IGS_DOUBLE_T \<Rightarrow> do { b \<leftarrow> rd_bool v; Some (True, set_double (d_of_int (if b then 1 else 0)) io) }
      | IGS_BOOL_T \<Rightarrow> do { b \<leftarrow> rd_bool v; Some (True, set_bool b io) }
      | IGS_STRING_T \<Rightarrow> do { b \<leftarrow> rd_bool v; Some (True, set_string (fmt_d (if b then 1 else 0)) io) }
      | IGS_IMPULSION_T \<Rightarrow> Some (True, set_impulsion io)
      | IGS_DATA_T \<Rightarrow> do { d \<leftarrow> copy_bytes v sizeof_bool; Some (True, set_data d io) }
      | IGS_UNKNOWN_T \<Rightarrow> Some (False, io))"

definition string_to_bool :: "string \<Rightarrow> bool option" where
  "string_to_bool s =
     (if s = ''false'' \<or> s = ''False'' \<or> s = ''FALSE'' then Some False
      else if s = ''true'' \<or> s = ''True'' \<or> s = ''TRUE'' then Some True
      else do { i \<leftarrow> c_atoi s; Some (i \<noteq> 0) })"

definition write_string :: "string \<Rightarrow> igs_io \<Rightarrow> (bool \<times> igs_io) option" where
  "write_string v io =
     (case io_value_type io of
        IGS_INTEGER_T \<Rightarrow> do { s \<leftarrow> rd_cstr v; i \<leftarrow> c_atoi s; Some (True, set_int i io) }
      | IGS_DOUBLE_T \<Rightarrow> do { s \<leftarrow> rd_cstr v; Some (True, set_double (c_atof s) io) }
      | IGS_BOOL_T \<Rightarrow> do { s \<leftarrow> rd_cstr v; b \<leftarrow> string_to_bool s; Some (True, set_bool b io) }
      | IGS_STRING_T \<Rightarrow> do { s \<leftarrow> rd_cstr v; Some (True, set_string s io) }
      | IGS_IMPULSION_T \<Rightarrow> Some (True, set_impulsion io)
      | IGS_DATA_T \<Rightarrow>
          do { s \<leftarrow> rd_cstr v;
               Some (True, case model_string_to_bytes s of Some d \<Rightarrow> set_data d io
                           | None \<Rightarrow> set_data (wr_cstr s) io) }
      | IGS_UNKNOWN_T \<Rightarrow> Some (False, io))"

definition write_data :: "string \<Rightarrow> nat \<Rightarrow> igs_io \<Rightarrow> (bool \<times> igs_io) option" where
  "write_data v sz io =
     (case io_value_type io of
        IGS_INTEGER_T \<Rightarrow>
          if sz = sizeof_int then do { i \<leftarrow> rd_int v; Some (True, set_int i io) } else Some (False, io)
      | IGS_DOUBLE_T \<Rightarrow>
          if sz = sizeof_double then do { d \<leftarrow> rd_double v; Some (True, set_double d io) } else Some (False, io)
      | IGS_BOOL_T \<Rightarrow>
          if sz = sizeof_bool then do { b \<leftarrow> rd_bool v; Some (True, set_bool b io) } else Some (False, io)
      | IGS_STRING_T \<Rightarrow>
          do { d \<leftarrow> copy_bytes v sz;
               if last d = CHR 0x00 then Some (True, io\<lparr> io_s := Some d, io_value_size := sz \<rparr>)
               else Some (False, io) }
      | IGS_IMPULSION_T \<Rightarrow> Some (True, set_impulsion io)
      | IGS_DATA_T \<Rightarrow> do { d \<leftarrow> copy_bytes v sz; Some (True, set_data d io) }
      | IGS_UNKNOWN_T \<Rightarrow> Some (False, io))"

text \<open>
  The value part of \<open>model_write\<close>. A value of unknown type is accepted and
  changes nothing.
\<close>

definition write_value ::
    "igs_io_value_type \<Rightarrow> string option \<Rightarrow> nat \<Rightarrow> igs_io \<Rightarrow> (bool \<times> igs_io) option" where
  "write_value value_type value sz io =
     (case value of
        None \<Rightarrow> Some (write_nothing io)
      | Some v \<Rightarrow>
          if sz = 0 then Some (write_nothing io)
          else (case value_type of
                  IGS_INTEGER_T \<Rightarrow> write_integer v io
                | IGS_DOUBLE_T \<Rightarrow> write_double v io
                | IGS_BOOL_T \<Rightarrow> write_bool v io
                | IGS_STRING_T \<Rightarrow> write_string v io
                | IGS_IMPULSION_T \<Rightarrow> Some (write_nothing io)
                | IGS_DATA_T \<Rightarrow> write_data v sz io
                | IGS_UNKNOWN_T \<Rightarrow> Some (True, io)))"

text \<open>With the constraint check in front of it.\<close>

definition write_io ::
    "igs_env \<Rightarrow> bool \<Rightarrow> igs_io_value_type \<Rightarrow> string option \<Rightarrow> nat \<Rightarrow> igs_io \<Rightarrow> (bool \<times> igs_io) option" where
  "write_io env enforce value_type value sz io =
     do { ok \<leftarrow> (case io_constraint io of
                   Some c \<Rightarrow> if enforce then constraint_check env c (io_value_type io) value_type value sz
                             else Some True
                 | None \<Rightarrow> Some True);
          if ok then write_value value_type value sz io else Some (False, io) }"

text \<open>\<open>s_model_clear_io\<close> keeps the size of a number, and asks no constraint.\<close>

definition clear_io :: "igs_io \<Rightarrow> igs_io" where
  "clear_io io =
     (case io_value_type io of
        IGS_IMPULSION_T \<Rightarrow> io
      | IGS_DATA_T \<Rightarrow> (if io_data io \<noteq> None then set_no_data io else io)
      | IGS_STRING_T \<Rightarrow> (if io_s io \<noteq> None then set_no_string io else io)
      | IGS_DOUBLE_T \<Rightarrow> io\<lparr> io_d := 0 \<rparr>
      | IGS_INTEGER_T \<Rightarrow> io\<lparr> io_i := 0 \<rparr>
      | IGS_BOOL_T \<Rightarrow> io\<lparr> io_b := False \<rparr>
      | IGS_UNKNOWN_T \<Rightarrow> io)"

section \<open>Reading\<close>

text \<open>The memory \<open>s_model_get_value_for\<close> points to.\<close>

definition io_memory :: "igs_io \<Rightarrow> string option" where
  "io_memory io =
     (case io_value_type io of
        IGS_INTEGER_T \<Rightarrow> Some (wr_int (io_i io))
      | IGS_DOUBLE_T \<Rightarrow> Some (wr_double (io_d io))
      | IGS_BOOL_T \<Rightarrow> Some (wr_bool (io_b io))
      | IGS_STRING_T \<Rightarrow> io_s io
      | IGS_IMPULSION_T \<Rightarrow> None
      | IGS_DATA_T \<Rightarrow> io_data io
      | IGS_UNKNOWN_T \<Rightarrow> None)"

text \<open>\<open>memcpy\<close> of \<open>value_size\<close> bytes; of none, the source does not matter.\<close>

definition copy_value :: "igs_io \<Rightarrow> (string option \<times> nat) option" where
  "copy_value io =
     (if io_value_size io = 0 then Some (Some [], 0)
      else do { m \<leftarrow> io_memory io; d \<leftarrow> copy_bytes m (io_value_size io); Some (Some d, io_value_size io) })"

definition read_buffer :: "igs_io \<Rightarrow> (string option \<times> nat) option" where
  "read_buffer io =
     (if io_value_type io = IGS_IMPULSION_T
       \<or> io_value_type io = IGS_STRING_T \<and> io_s io = None
       \<or> io_value_type io = IGS_DATA_T \<and> io_data io = None then Some (None, 0)
      else copy_value io)"

definition read_data :: "igs_io \<Rightarrow> (string option \<times> nat) option" where
  "read_data io =
     (if io_value_type io = IGS_IMPULSION_T \<or> io_value_type io = IGS_UNKNOWN_T
       \<or> io_value_type io = IGS_DATA_T \<and> io_data io = None then Some (None, 0)
      else copy_value io)"

definition read_bool :: "igs_io \<Rightarrow> bool option" where
  "read_bool io =
     (case io_value_type io of
        IGS_BOOL_T \<Rightarrow> Some (io_b io)
      | IGS_INTEGER_T \<Rightarrow> Some (io_i io \<noteq> 0)
      | IGS_DOUBLE_T \<Rightarrow> Some (\<not> d_is_zero (io_d io))
      | IGS_STRING_T \<Rightarrow>
          (case io_s io of None \<Rightarrow> Some False | Some m \<Rightarrow> do { s \<leftarrow> rd_cstr m; Some (s = ''true'') })
      | _ \<Rightarrow> Some False)"

text \<open>A NULL string reaches \<open>atoi\<close>, respectively \<open>atof\<close>.\<close>

definition read_int :: "igs_io \<Rightarrow> i32 option" where
  "read_int io =
     (case io_value_type io of
        IGS_BOOL_T \<Rightarrow> Some (of_bool_i32 (io_b io))
      | IGS_INTEGER_T \<Rightarrow> Some (io_i io)
      | IGS_DOUBLE_T \<Rightarrow> d_to_int (d_half (d_lt (io_d io) 0) (io_d io))
      | IGS_STRING_T \<Rightarrow> do { m \<leftarrow> io_s io; s \<leftarrow> rd_cstr m; c_atoi s }
      | _ \<Rightarrow> Some 0)"

definition read_double :: "igs_io \<Rightarrow> f64 option" where
  "read_double io =
     (case io_value_type io of
        IGS_BOOL_T \<Rightarrow> Some (d_of_int (if io_b io then 1 else 0))
      | IGS_INTEGER_T \<Rightarrow> Some (d_of_int (sint (io_i io)))
      | IGS_DOUBLE_T \<Rightarrow> Some (io_d io)
      | IGS_STRING_T \<Rightarrow> do { m \<leftarrow> io_s io; s \<leftarrow> rd_cstr m; Some (c_atof s) }
      | _ \<Rightarrow> Some 0)"

text \<open>\<open>s_model_int_to_string\<close> and \<open>s_model_double_to_string\<close> allocate what they need.\<close>

definition read_string :: "igs_io \<Rightarrow> string option option" where
  "read_string io =
     (case io_value_type io of
        IGS_STRING_T \<Rightarrow> (case io_s io of None \<Rightarrow> Some None | Some m \<Rightarrow> do { s \<leftarrow> rd_cstr m; Some (Some s) })
      | IGS_BOOL_T \<Rightarrow> Some (Some (if io_b io then ''true'' else ''false''))
      | IGS_INTEGER_T \<Rightarrow> Some (Some (fmt_d (sint (io_i io))))
      | IGS_DOUBLE_T \<Rightarrow> Some (Some (fmt_f (io_d io)))
      | _ \<Rightarrow> Some None)"

section \<open>The invariant of a value\<close>

text \<open>
  Only the member of the union that the type selects is ever set; the size is
  that of the value, or zero before the first accepted write.
\<close>

definition string_buffer :: "string option \<Rightarrow> nat \<Rightarrow> bool" where
  "string_buffer b n \<longleftrightarrow> (case b of None \<Rightarrow> n = 0 | Some m \<Rightarrow> m \<noteq> [] \<and> length m = n \<and> last m = CHR 0x00)"

definition data_buffer :: "string option \<Rightarrow> nat \<Rightarrow> bool" where
  "data_buffer b n \<longleftrightarrow> (case b of None \<Rightarrow> n = 0 | Some m \<Rightarrow> m \<noteq> [] \<and> length m = n)"

definition io_wf :: "igs_io \<Rightarrow> bool" where
  "io_wf io \<longleftrightarrow>
     (let t = io_value_type io; n = io_value_size io
      in (t \<noteq> IGS_INTEGER_T \<longrightarrow> io_i io = 0) \<and> (t \<noteq> IGS_DOUBLE_T \<longrightarrow> io_d io = 0)
       \<and> (t \<noteq> IGS_BOOL_T \<longrightarrow> \<not> io_b io) \<and> (t \<noteq> IGS_STRING_T \<longrightarrow> io_s io = None)
       \<and> (t \<noteq> IGS_DATA_T \<longrightarrow> io_data io = None)
       \<and> (case t of IGS_INTEGER_T \<Rightarrow> n = 0 \<or> n = sizeof_int | IGS_DOUBLE_T \<Rightarrow> n = 0 \<or> n = sizeof_double
          | IGS_BOOL_T \<Rightarrow> n = 0 \<or> n = sizeof_bool | IGS_STRING_T \<Rightarrow> string_buffer (io_s io) n
          | IGS_DATA_T \<Rightarrow> data_buffer (io_data io) n | _ \<Rightarrow> n = 0))"

lemmas write_defs = write_integer_def write_double_def write_bool_def write_string_def write_data_def
  write_nothing_def

lemma value_type_all:
  "P IGS_UNKNOWN_T \<Longrightarrow> P IGS_INTEGER_T \<Longrightarrow> P IGS_DOUBLE_T \<Longrightarrow> P IGS_STRING_T \<Longrightarrow> P IGS_BOOL_T
     \<Longrightarrow> P IGS_IMPULSION_T \<Longrightarrow> P IGS_DATA_T \<Longrightarrow> P t"
  by (cases t) auto

lemma copy_bytes_length: "copy_bytes v n = Some d \<Longrightarrow> length d = n"
  by (auto simp: copy_bytes_def split: if_splits)

lemma copy_bytes_nonempty: "copy_bytes v n = Some d \<Longrightarrow> n \<noteq> 0 \<Longrightarrow> d \<noteq> []"
  by (auto simp: copy_bytes_def split: if_splits)

lemma string_buffer_wr [simp]: "string_buffer (Some (wr_cstr s)) (length s + 1)"
  "string_buffer (Some (wr_cstr s)) (Suc (length s))"
  by (simp_all add: string_buffer_def wr_cstr_def)

lemma string_buffer_None [simp]: "string_buffer None n \<longleftrightarrow> n = 0" "data_buffer None n \<longleftrightarrow> n = 0"
  by (simp_all add: string_buffer_def data_buffer_def)

lemma set_wf:
  "io_wf io \<Longrightarrow> io_value_type io = IGS_INTEGER_T \<Longrightarrow> io_wf (set_int i io)"
  "io_wf io \<Longrightarrow> io_value_type io = IGS_DOUBLE_T \<Longrightarrow> io_wf (set_double d io)"
  "io_wf io \<Longrightarrow> io_value_type io = IGS_BOOL_T \<Longrightarrow> io_wf (set_bool b io)"
  "io_wf io \<Longrightarrow> io_value_type io = IGS_STRING_T \<Longrightarrow> io_wf (set_string s io)"
  "io_wf io \<Longrightarrow> io_value_type io = IGS_DATA_T \<Longrightarrow> x \<noteq> [] \<Longrightarrow> io_wf (set_data x io)"
  "io_wf io \<Longrightarrow> io_value_type io = IGS_STRING_T \<Longrightarrow> io_wf (set_no_string io)"
  "io_wf io \<Longrightarrow> io_value_type io = IGS_DATA_T \<Longrightarrow> io_wf (set_no_data io)"
  "io_wf io \<Longrightarrow> io_value_type io = IGS_IMPULSION_T \<Longrightarrow> io_wf (set_impulsion io)"
  "io_wf io \<Longrightarrow> io_value_type io = IGS_STRING_T \<Longrightarrow> x \<noteq> [] \<Longrightarrow> last x = CHR 0x00 \<Longrightarrow> length x = n \<Longrightarrow>
     io_wf (io\<lparr> io_s := Some x, io_value_size := n \<rparr>)"
  by (simp_all add: io_wf_def io_setters Let_def) (auto simp: string_buffer_def data_buffer_def)

lemma write_nothing_wf: "io_wf io \<Longrightarrow> io_wf (snd (write_nothing io))"
  by (cases "io_value_type io") (simp_all add: write_nothing_def set_wf)

lemma write_typed_wf:
  "io_wf io \<Longrightarrow> write_integer v io = Some (r, io') \<Longrightarrow> io_wf io'"
  "io_wf io \<Longrightarrow> write_double v io = Some (r, io') \<Longrightarrow> io_wf io'"
  "io_wf io \<Longrightarrow> write_bool v io = Some (r, io') \<Longrightarrow> io_wf io'"
  by (cases "io_value_type io"; auto simp: write_integer_def write_double_def write_bool_def bind_some_eqs
      sizeofs intro!: set_wf dest!: copy_bytes_length)+

lemma write_string_wf: "io_wf io \<Longrightarrow> write_string v io = Some (r, io') \<Longrightarrow> io_wf io'"
  by (cases "io_value_type io")
    (auto simp: write_string_def bind_some_eqs intro!: set_wf split: option.splits dest: string_to_bytes_length)

lemma write_data_wf: "io_wf io \<Longrightarrow> sz \<noteq> 0 \<Longrightarrow> write_data v sz io = Some (r, io') \<Longrightarrow> io_wf io'"
  by (cases "io_value_type io")
    (auto simp: write_data_def bind_some_eqs intro!: set_wf split: if_splits
      dest: copy_bytes_length copy_bytes_nonempty)

lemma write_value_wf:
  "io_wf io \<Longrightarrow> write_value t value sz io = Some (r, io') \<Longrightarrow> io_wf io'"
  using write_nothing_wf [of io]
  by (cases t) (auto simp: write_value_def intro: write_typed_wf write_string_wf write_data_wf split: option.splits if_splits)

lemma write_io_wf [wf_intros]:
  "io_wf io \<Longrightarrow> write_io env enforce t value sz io = Some (r, io') \<Longrightarrow> io_wf io'"
  by (auto simp: write_io_def bind_some_eqs intro: write_value_wf split: if_splits)

lemma clear_io_wf [wf_intros]: "io_wf io \<Longrightarrow> io_wf (clear_io io)"
  by (cases "io_value_type io") (auto simp: clear_io_def set_wf, auto simp: io_wf_def Let_def)

section \<open>Laws of reading and writing\<close>

definition same_io :: "igs_io \<Rightarrow> igs_io \<Rightarrow> bool" where
  "same_io io io' \<longleftrightarrow> io_name io' = io_name io \<and> io_value_type io' = io_value_type io
     \<and> io_type io' = io_type io \<and> io_constraint io' = io_constraint io \<and> io_callbacks io' = io_callbacks io
     \<and> io_is_muted io' = io_is_muted io \<and> io_description io' = io_description io
     \<and> io_detailed_type io' = io_detailed_type io \<and> io_specification io' = io_specification io"

lemma same_io_setters [simp]: "same_io io io" "same_io io (set_int i io)" "same_io io (set_double d io)"
  "same_io io (set_bool b io)" "same_io io (set_string s io)" "same_io io (set_data x io)"
  "same_io io (set_no_string io)" "same_io io (set_no_data io)" "same_io io (set_impulsion io)"
  "same_io io (io\<lparr> io_s := m, io_value_size := n \<rparr>)"
  by (simp_all add: same_io_def io_setters)

lemma write_nothing_same: "same_io io (snd (write_nothing io))" "\<not> fst (write_nothing io) \<Longrightarrow> snd (write_nothing io) = io"
  by (cases "io_value_type io"; simp add: write_nothing_def)+

lemma write_typed_same:
  "write_integer v io = Some (r, io') \<Longrightarrow> same_io io io' \<and> (\<not> r \<longrightarrow> io' = io)"
  "write_double v io = Some (r, io') \<Longrightarrow> same_io io io' \<and> (\<not> r \<longrightarrow> io' = io)"
  "write_bool v io = Some (r, io') \<Longrightarrow> same_io io io' \<and> (\<not> r \<longrightarrow> io' = io)"
  "write_string v io = Some (r, io') \<Longrightarrow> same_io io io' \<and> (\<not> r \<longrightarrow> io' = io)"
  "write_data v sz io = Some (r, io') \<Longrightarrow> same_io io io' \<and> (\<not> r \<longrightarrow> io' = io)"
proof -
  show "write_integer v io = Some (r, io') \<Longrightarrow> same_io io io' \<and> (\<not> r \<longrightarrow> io' = io)"
    by (cases "io_value_type io") (auto simp: write_integer_def bind_some_eqs)
  show "write_double v io = Some (r, io') \<Longrightarrow> same_io io io' \<and> (\<not> r \<longrightarrow> io' = io)"
    by (cases "io_value_type io") (auto simp: write_double_def bind_some_eqs)
  show "write_bool v io = Some (r, io') \<Longrightarrow> same_io io io' \<and> (\<not> r \<longrightarrow> io' = io)"
    by (cases "io_value_type io") (auto simp: write_bool_def bind_some_eqs)
  show "write_string v io = Some (r, io') \<Longrightarrow> same_io io io' \<and> (\<not> r \<longrightarrow> io' = io)"
    by (cases "io_value_type io") (auto simp: write_string_def bind_some_eqs split: option.splits)
  show "write_data v sz io = Some (r, io') \<Longrightarrow> same_io io io' \<and> (\<not> r \<longrightarrow> io' = io)"
    by (cases "io_value_type io") (auto simp: write_data_def bind_some_eqs split: if_splits)
qed

lemma write_value_same:
  "write_value t value sz io = Some (r, io') \<Longrightarrow> same_io io io' \<and> (\<not> r \<longrightarrow> io' = io)"
  using write_nothing_same [of io]
  by (cases t) (auto simp: write_value_def dest: write_typed_same split: option.splits if_splits)

lemma write_io_same:
  "write_io env enforce t value sz io = Some (r, io') \<Longrightarrow> same_io io io' \<and> (\<not> r \<longrightarrow> io' = io)"
  using write_value_same by (fastforce simp: write_io_def bind_some_eqs split: if_splits)

lemma clear_io_same: "same_io io (clear_io io)"
  by (cases "io_value_type io") (simp_all add: clear_io_def, simp_all add: same_io_def)

text \<open>What was written is read back, in the type of the write, whatever the type of the io.\<close>

lemma write_int_read_int:
  assumes "io_value_type io \<in> {IGS_INTEGER_T, IGS_DOUBLE_T, IGS_STRING_T}"
    and "write_value IGS_INTEGER_T (Some (wr_int i)) sizeof_int io = Some (r, io')"
  shows "r \<and> (io_value_type io \<noteq> IGS_DOUBLE_T \<longrightarrow> read_int io' = Some i)
    \<and> (io_value_type io = IGS_DOUBLE_T \<longrightarrow> io_d io' = d_of_int (sint i) \<and> d_to_int (io_d io') = Some i)"
  using assms by (auto simp: write_value_def write_integer_def io_setters read_int_def sizeofs)

lemma write_string_read_string:
  assumes "io_value_type io = IGS_STRING_T" and "no_nul s"
  shows "write_value IGS_STRING_T (Some (wr_cstr s)) (length s + 1) io = Some (True, set_string s io)
    \<and> read_string (set_string s io) = Some (Some s)"
  using assms by (simp add: write_value_def write_string_def read_string_def io_setters)

lemma write_double_read_double:
  "io_value_type io = IGS_DOUBLE_T \<Longrightarrow>
     write_value IGS_DOUBLE_T (Some (wr_double d)) sizeof_double io = Some (True, set_double d io)
     \<and> read_double (set_double d io) = Some d"
  by (simp add: write_value_def write_double_def read_double_def io_setters sizeofs)

lemma write_bool_read_bool:
  assumes "io_value_type io \<in> {IGS_INTEGER_T, IGS_BOOL_T}"
    and "write_value IGS_BOOL_T (Some (wr_bool b)) sizeof_bool io = Some (r, io')"
  shows "r \<and> read_bool io' = Some b"
  using assms rd_wr_bool [of b "[]"]
  by (auto simp: write_value_def write_bool_def io_setters read_bool_def sizeofs of_bool_i32_def)

lemma write_data_read_data:
  "io_value_type io = IGS_DATA_T \<Longrightarrow> d \<noteq> [] \<Longrightarrow>
     write_value IGS_DATA_T (Some d) (length d) io = Some (True, set_data d io)
     \<and> read_data (set_data d io) = Some (Some d, length d)"
  by (simp add: write_value_def write_data_def copy_bytes_def read_data_def copy_value_def io_memory_def
      io_setters)

lemma write_hex_read_data:
  assumes "io_value_type io = IGS_DATA_T" and "d \<noteq> []" and "no_nul (to_hex d)"
  shows "write_value IGS_STRING_T (Some (wr_cstr (to_hex d))) (length (to_hex d) + 1) io = Some (True, set_data d io)"
  using assms by (simp add: write_value_def write_string_def string_to_bytes_hex)

text \<open>On a well-formed io the reads never go past a buffer.\<close>

lemma string_buffer_cstr: "string_buffer (Some m) n \<Longrightarrow> \<exists>s. rd_cstr m = Some s"
  using last_in_set [of m] by (auto simp: string_buffer_def rd_cstr_def)

lemma wf_string: "io_wf io \<Longrightarrow> io_value_type io = IGS_STRING_T \<Longrightarrow> string_buffer (io_s io) (io_value_size io)"
  by (simp add: io_wf_def Let_def)

lemma wf_memory:
  assumes "io_wf io" and "io_value_size io \<noteq> 0"
  shows "\<exists>m. io_memory io = Some m \<and> length m = io_value_size io"
  using assms by (cases "io_value_type io")
    (auto simp: io_wf_def io_memory_def Let_def string_buffer_def data_buffer_def sizeofs split: option.splits)

lemma copy_value_defined: "io_wf io \<Longrightarrow> \<exists>r. copy_value io = Some r"
  using wf_memory [of io] by (auto simp: copy_value_def copy_bytes_def)

lemma reads_defined:
  assumes "io_wf io"
  shows "read_buffer io \<noteq> None" "read_data io \<noteq> None" "read_bool io \<noteq> None" "read_string io \<noteq> None"
proof -
  show "read_buffer io \<noteq> None" "read_data io \<noteq> None"
    using copy_value_defined [OF assms] by (auto simp: read_buffer_def read_data_def)
  show "read_bool io \<noteq> None" "read_string io \<noteq> None"
    using wf_string [OF assms] string_buffer_cstr
    by (cases "io_value_type io"; fastforce simp: read_bool_def read_string_def split: option.splits)+
qed

text \<open>A string io without a value cannot be read as a number.\<close>

lemma read_number_null_string:
  "io_value_type io = IGS_STRING_T \<Longrightarrow> io_s io = None \<Longrightarrow> read_int io = None \<and> read_double io = None"
  by (simp add: read_int_def read_double_def)

lemma read_double_defined:
  assumes "io_wf io" shows "read_double io = None \<longleftrightarrow> io_value_type io = IGS_STRING_T \<and> io_s io = None"
  using wf_string [OF assms] string_buffer_cstr
  by (cases "io_value_type io"; cases "io_s io") (fastforce simp: read_double_def)+

text \<open>
  When reading an int is undefined: the integer in front of a text, or a double with one half
  added and its fraction cut off, that no \<open>int\<close> holds.
\<close>

definition leading_integer :: "string \<Rightarrow> int" where
  "leading_integer s =
     (let (neg, r) = c_sign (dropWhile c_isspace s); v = int (digits_val 10 (takeWhile is_digit_char r))
      in if neg then - v else v)"

definition int_of_double :: "f64 \<Rightarrow> int" where
  "int_of_double w = (let t = int (d_units w div 2 ^ 1074) in if d_sign w then - t else t)"

lemma number_none: "c_atoi s = None \<longleftrightarrow> \<not> int_ok (leading_integer s)"
  "d_to_int w = None \<longleftrightarrow> d_exp w = 2047 \<or> \<not> int_ok (int_of_double w)"
  by (simp_all add: c_atoi_def leading_integer_def d_to_int_def int_of_double_def Let_def split: prod.splits)

lemma read_int_defined:
  assumes "io_wf io"
  shows "read_int io = None \<longleftrightarrow>
      io_value_type io = IGS_STRING_T \<and>
        (case io_s io of None \<Rightarrow> True | Some m \<Rightarrow> \<not> int_ok (leading_integer (takeWhile (\<lambda>ch. ch \<noteq> CHR 0x00) m)))
    \<or> io_value_type io = IGS_DOUBLE_T \<and>
        (let d = d_half (d_lt (io_d io) 0) (io_d io) in d_exp d = 2047 \<or> \<not> int_ok (int_of_double d))"
proof (cases "io_value_type io = IGS_STRING_T \<and> io_s io \<noteq> None")
  case True
  then obtain m where m: "io_s io = Some m" by blast
  obtain s where s: "rd_cstr m = Some s" using wf_string [OF assms] string_buffer_cstr True m by fastforce
  then have "s = takeWhile (\<lambda>ch. ch \<noteq> CHR 0x00) m" by (simp add: rd_cstr_def split: if_splits)
  with True m s show ?thesis by (simp add: read_int_def number_none)
next
  case False
  then show ?thesis by (cases "io_value_type io") (auto simp: read_int_def number_none Let_def split: option.splits)
qed

text \<open>
  An accepted write obeys the constraint that is enforced. The meaning of a constraint is
  stated by the bounds it has, apart from the way the code compares.
\<close>

definition bounded_below :: "igs_constraint \<Rightarrow> bool" where
  "bounded_below c \<longleftrightarrow> ct_type c = IGS_CONSTRAINT_MIN \<or> ct_type c = IGS_CONSTRAINT_RANGE"

definition bounded_above :: "igs_constraint \<Rightarrow> bool" where
  "bounded_above c \<longleftrightarrow> ct_type c = IGS_CONSTRAINT_MAX \<or> ct_type c = IGS_CONSTRAINT_RANGE"

definition within_int :: "igs_constraint \<Rightarrow> i32 \<Rightarrow> bool" where
  "within_int c v \<longleftrightarrow> (bounded_below c \<longrightarrow> sint (ct_min_int c) \<le> sint v) \<and> (bounded_above c \<longrightarrow> sint v \<le> sint (ct_max_int c))"

definition within_double :: "igs_constraint \<Rightarrow> f64 \<Rightarrow> bool" where
  "within_double c v \<longleftrightarrow> (bounded_below c \<longrightarrow> \<not> d_lt v (ct_min_double c)) \<and> (bounded_above c \<longrightarrow> \<not> d_lt (ct_max_double c) v)"

lemma int_allowed_within: "int_allowed c v = within_int c v"
  by (auto simp: int_allowed_def within_int_def bounded_below_def bounded_above_def split: igs_constraint_type.splits)

lemma double_allowed_within: "double_allowed c v = within_double c v"
  by (auto simp: double_allowed_def within_double_def bounded_below_def bounded_above_def split: igs_constraint_type.splits)

definition satisfies :: "igs_env \<Rightarrow> igs_constraint \<Rightarrow> igs_io \<Rightarrow> bool" where
  "satisfies env c io =
     (case io_value_type io of
        IGS_INTEGER_T \<Rightarrow> within_int c (io_i io)
      | IGS_DOUBLE_T \<Rightarrow> within_double c (io_d io)
      | IGS_STRING_T \<Rightarrow> (\<exists>m s. io_s io = Some m \<and> rd_cstr m = Some s \<and> zrex_hits env (ct_regexp c) s \<noteq> None)
      | _ \<Rightarrow> True)"

lemma rd_cstr_again: "rd_cstr v = Some s \<Longrightarrow> rd_cstr (wr_cstr s) = Some s"
  using rd_cstr_no_nul [of v s] by simp

lemma rd_cstr_take:
  assumes "0 < n" and "n \<le> length v" and "v ! (n - Suc 0) = CHR 0x00"
  shows "rd_cstr (take n v) = rd_cstr v"
proof -
  have z: "CHR 0x00 \<in> set (take n v)"
    using nth_mem [of "n - Suc 0" "take n v"] assms by simp
  have "takeWhile (\<lambda>c. c \<noteq> CHR 0x00) (take n v @ drop n v) = takeWhile (\<lambda>c. c \<noteq> CHR 0x00) (take n v)"
    by (rule takeWhile_append1 [OF z]) simp
  with z show ?thesis by (auto simp: rd_cstr_def dest: in_set_takeD)
qed

lemma enforced_write_satisfies:
  assumes "io_constraint io = Some c" and "write_io env True t value sz io = Some (True, io')"
    and "value = None \<or> t \<in> {IGS_INTEGER_T, IGS_DOUBLE_T, IGS_STRING_T} \<or> t = IGS_DATA_T \<and> io_value_type io \<noteq> IGS_STRING_T"
  shows "satisfies env c io'"
proof (cases "value = None \<or> sz = 0")
  case True
  with assms(1,2) show ?thesis
    by (cases "io_value_type io")
      (auto simp: write_io_def constraint_check_def constraint_int_def constraint_double_def constraint_string_def
        write_value_def write_nothing_def satisfies_def int_allowed_within double_allowed_within io_setters split: option.splits if_splits)
next
  case False
  then obtain v where v: "value = Some v" "sz \<noteq> 0" by auto
  have again: "rd_cstr v = Some s \<Longrightarrow> rd_cstr (wr_cstr s) = Some s" for s by (rule rd_cstr_again)
  from assms(3) v consider "t = IGS_INTEGER_T" | "t = IGS_DOUBLE_T" | "t = IGS_STRING_T"
    | "t = IGS_DATA_T" "io_value_type io \<noteq> IGS_STRING_T" by auto
  then show ?thesis
  proof cases
    case 1
    with assms(1,2) v show ?thesis
      by (cases "io_value_type io")
        (auto simp: write_io_def constraint_check_def constraint_int_def constraint_double_def constraint_string_def
          write_value_def write_integer_def satisfies_def int_allowed_within double_allowed_within io_setters bind_some_eqs split: if_splits)
  next
    case 2
    with assms(1,2) v show ?thesis
      by (cases "io_value_type io")
        (auto simp: write_io_def constraint_check_def constraint_int_def constraint_double_def constraint_string_def
          write_value_def write_double_def satisfies_def int_allowed_within double_allowed_within io_setters bind_some_eqs no_nul_take split: if_splits)
  next
    case 3
    with assms(1,2) v show ?thesis
      by (cases "io_value_type io")
        (auto simp: write_io_def constraint_check_def constraint_int_def constraint_double_def constraint_string_def
          write_value_def write_string_def satisfies_def int_allowed_within double_allowed_within io_setters bind_some_eqs
          again split: if_splits option.splits)
  next
    case 4
    with assms(1,2) v show ?thesis
      by (cases "io_value_type io")
        (auto simp: write_io_def constraint_check_def constraint_int_def constraint_double_def
          write_value_def write_data_def satisfies_def int_allowed_within double_allowed_within io_setters bind_some_eqs copy_bytes_def
          split: if_splits option.splits)
  qed
qed

end
