(* ===== verification/Yajl_Codec.thy ===== *)
theory Yajl_Codec
  imports C_Runtime
begin

text \<open>
  The string codec of the JSON layer (src/src/yajl_encode.c): escaping, the
  inverse, and the UTF-8 check. Strings are byte strings; the two loops keep
  the run of bytes that is copied as it is (\<open>str + beg\<close>, \<open>end - beg\<close>) as \<open>pend\<close>.
  A read past the bytes given, and a failed \<open>assert\<close>, is \<open>None\<close>.
\<close>

unbundle bit_operations_syntax

section \<open>Escaping\<close>

definition hexchar :: "nat \<Rightarrow> char" where
  "hexchar n = ''0123456789ABCDEF'' ! n"

definition CharToHex :: "char \<Rightarrow> string" where
  "CharToHex c = [hexchar (of_char c div 16), hexchar (of_char c mod 16)]"

definition escaped :: "bool \<Rightarrow> char \<Rightarrow> string option" where
  "escaped escape_solidus c =
     (if c = CHR 0x0D then Some [CHR 0x5C, CHR ''r'']
      else if c = CHR 0x0A then Some [CHR 0x5C, CHR ''n'']
      else if c = CHR 0x5C then Some [CHR 0x5C, CHR 0x5C]
      else if c = CHR ''/'' then (if escape_solidus then Some [CHR 0x5C, CHR ''/''] else None)
      else if c = CHR 0x22 then Some [CHR 0x5C, CHR 0x22]
      else if c = CHR 0x0C then Some [CHR 0x5C, CHR ''f'']
      else if c = CHR 0x08 then Some [CHR 0x5C, CHR ''b'']
      else if c = CHR 0x09 then Some [CHR 0x5C, CHR ''t'']
      else if (of_char c :: nat) < 32 then Some ([CHR 0x5C, CHR ''u'', CHR ''0'', CHR ''0''] @ CharToHex c)
      else None)"

fun string_encode_loop :: "bool \<Rightarrow> string \<Rightarrow> string \<Rightarrow> string \<Rightarrow> string" where
  "string_encode_loop sol out pend [] = out @ pend"
| "string_encode_loop sol out pend (c # s) =
     (case escaped sol c of
        Some e \<Rightarrow> string_encode_loop sol (out @ pend @ e) [] s
      | None \<Rightarrow> string_encode_loop sol out (pend @ [c]) s)"

definition igsyajl_string_encode :: "bool \<Rightarrow> string \<Rightarrow> string" where
  "igsyajl_string_encode sol s = string_encode_loop sol [] [] s"

section \<open>Unescaping\<close>

definition hexToDigit1 :: "char \<Rightarrow> 8 word option" where
  "hexToDigit1 ch =
     (let c = of_char ch :: 8 word;
          c' = (if 0x41 \<le> c then (c AND NOT 0x20) - 7 else c);
          d = c' - 0x30
      in if d AND 0xF0 = 0 then Some d else None)"

fun hexToDigit_loop :: "nat \<Rightarrow> 32 word \<Rightarrow> string \<Rightarrow> 32 word option" where
  "hexToDigit_loop 0 v h = Some v"
| "hexToDigit_loop (Suc n) v [] = None"
| "hexToDigit_loop (Suc n) v (c # h) =
     do { d \<leftarrow> hexToDigit1 c; hexToDigit_loop n (push_bit 4 v OR ucast d) h }"

definition hexToDigit :: "string \<Rightarrow> 32 word option" where
  "hexToDigit h = hexToDigit_loop 4 0 h"

definition char_of_word :: "32 word \<Rightarrow> char" where
  "char_of_word w = char_of (unat w)"

definition Utf32toUtf8 :: "32 word \<Rightarrow> string" where
  "Utf32toUtf8 cp =
     (if cp < 0x80 then [char_of_word cp]
      else if cp < 0x0800 then
        [char_of_word (drop_bit 6 cp OR 0xC0), char_of_word (cp AND 0x3F OR 0x80)]
      else if cp < 0x10000 then
        [char_of_word (drop_bit 12 cp OR 0xE0), char_of_word (drop_bit 6 cp AND 0x3F OR 0x80),
         char_of_word (cp AND 0x3F OR 0x80)]
      else if cp < 0x200000 then
        [char_of_word (drop_bit 18 cp OR 0xF0), char_of_word (drop_bit 12 cp AND 0x3F OR 0x80),
         char_of_word (drop_bit 6 cp AND 0x3F OR 0x80), char_of_word (cp AND 0x3F OR 0x80)]
      else ''?'')"

definition unescaped1 :: "char \<Rightarrow> char option" where
  "unescaped1 c =
     (if c = CHR ''r'' then Some (CHR 0x0D) else if c = CHR ''n'' then Some (CHR 0x0A)
      else if c = CHR 0x5C then Some (CHR 0x5C) else if c = CHR ''/'' then Some (CHR ''/'')
      else if c = CHR 0x22 then Some (CHR 0x22) else if c = CHR ''f'' then Some (CHR 0x0C)
      else if c = CHR ''b'' then Some (CHR 0x08) else if c = CHR ''t'' then Some (CHR 0x09)
      else None)"

text \<open>
  The escape \<open>\\u\<close>, from its first hexadecimal digit: the bytes it stands for
  and what follows. A high surrogate that no \<open>\\u\<close> follows is \<open>?\<close>, and the
  byte after it is skipped.
\<close>

definition decode_u :: "string \<Rightarrow> (string \<times> string) option" where
  "decode_u s =
     do { cp \<leftarrow> hexToDigit s;
          let r = drop 4 s;
          if cp AND 0xFC00 = 0xD800 then
            (case r of
               [] \<Rightarrow> None
             | c # r1 \<Rightarrow>
                 if c \<noteq> CHR 0x5C then Some (''?'', r1)
                 else (case r1 of
                         [] \<Rightarrow> None
                       | u # r2 \<Rightarrow>
                           if u \<noteq> CHR ''u'' then Some (''?'', r1)
                           else do { sur \<leftarrow> hexToDigit r2;
                                     let cp' = push_bit 10 (cp AND 0x3F)
                                        OR push_bit 16 ((drop_bit 6 cp AND 0xF) + 1) OR (sur AND 0x3FF);
                                     Some (Utf32toUtf8 cp', drop 4 r2) }))
          else Some (Utf32toUtf8 cp, r) }"

lemma decode_u_length: "decode_u s = Some (t, r) \<Longrightarrow> length r < Suc (length s)"
proof -
  assume d: "decode_u s = Some (t, r)"
  have "length r \<le> length (drop 4 s)"
    using d by (cases "drop 4 s") (auto simp: decode_u_def bind_some_eqs Let_def split: if_splits list.splits)
  then show ?thesis by simp
qed

text \<open>
  The loop over the memory that the text is in: \<open>n\<close> bytes of the text are left,
  and an escape that the text cuts goes on in what follows it in memory.
\<close>

function string_decode_loop :: "nat \<Rightarrow> string \<Rightarrow> string \<Rightarrow> string \<Rightarrow> string option" where
  "string_decode_loop n out pend m =
     (if n = 0 then Some (out @ pend)
      else case m of
        [] \<Rightarrow> None
      | c # s \<Rightarrow>
          if c \<noteq> CHR 0x5C then string_decode_loop (n - 1) out (pend @ [c]) s
          else (case s of
                  [] \<Rightarrow> None
                | e # r \<Rightarrow>
                    if e = CHR ''u'' then
                      (case decode_u r of
                         None \<Rightarrow> None
                       | Some (t, r') \<Rightarrow> string_decode_loop (n - (length m - length r')) (out @ pend @ t) [] r')
                    else
                      (case unescaped1 e of
                         None \<Rightarrow> None
                       | Some t \<Rightarrow> string_decode_loop (n - 2) (out @ pend @ [t]) [] r)))"
  by pat_completeness auto
termination by (relation "measure (\<lambda>(_, _, _, m). length m)") (auto dest: decode_u_length)

declare string_decode_loop.simps [simp del]

text \<open>The memory from \<open>str\<close> on, and \<open>len\<close>.\<close>

definition igsyajl_string_decode :: "string \<Rightarrow> nat \<Rightarrow> string option" where
  "igsyajl_string_decode str len = string_decode_loop len [] [] str"

section \<open>The UTF-8 check\<close>

definition is_cont :: "char \<Rightarrow> bool" where
  "is_cont c \<longleftrightarrow> (of_char c :: nat) div 64 = 2"

text \<open>\<open>ADV_PTR\<close> and the test of a continuation byte, \<open>n\<close> times.\<close>

fun conts :: "nat \<Rightarrow> string \<Rightarrow> string option" where
  "conts 0 s = Some s"
| "conts (Suc n) [] = None"
| "conts (Suc n) (c # s) = (if is_cont c then conts n s else None)"

lemma conts_length: "conts n s = Some r \<Longrightarrow> length r < Suc (length s)"
  by (induction n s rule: conts.induct) (auto split: if_splits)

definition lead_len :: "char \<Rightarrow> nat option" where
  "lead_len c =
     (let b = of_char c :: nat
      in if b \<le> 0x7f then Some 0 else if b div 32 = 6 then Some 1 else if b div 16 = 14 then Some 2
         else if b div 8 = 30 then Some 3 else None)"

function igsyajl_string_validate_utf8 :: "string \<Rightarrow> bool" where
  "igsyajl_string_validate_utf8 [] = True"
| "igsyajl_string_validate_utf8 (c # s) =
     (case lead_len c of
        None \<Rightarrow> False
      | Some n \<Rightarrow> (case conts n s of None \<Rightarrow> False | Some r \<Rightarrow> igsyajl_string_validate_utf8 r))"
  by pat_completeness auto
termination by (relation "measure length") (auto dest: conts_length)

section \<open>What they compute\<close>

text \<open>The reference: a text whose escapes all end in it.\<close>

function decode_list :: "string \<Rightarrow> string \<Rightarrow> string \<Rightarrow> string option" where
  "decode_list out pend [] = Some (out @ pend)"
| "decode_list out pend (c # s) =
     (if c = CHR 0x5C then
        (case s of
           [] \<Rightarrow> None
         | e # r \<Rightarrow>
             if e = CHR ''u'' then
               (case decode_u r of
                  None \<Rightarrow> None
                | Some (t, r') \<Rightarrow> decode_list (out @ pend @ t) [] r')
             else
               (case unescaped1 e of
                  None \<Rightarrow> None
                | Some t \<Rightarrow> decode_list (out @ pend @ [t]) [] r))
      else decode_list out (pend @ [c]) s)"
  by pat_completeness auto
termination by (relation "measure (\<lambda>(_, _, s). length s)") (auto dest: decode_u_length)


definition enc_char :: "bool \<Rightarrow> char \<Rightarrow> string" where
  "enc_char sol c = (case escaped sol c of Some e \<Rightarrow> e | None \<Rightarrow> [c])"

lemma encode_loop_concat:
  "string_encode_loop sol out pend s = out @ pend @ concat (map (enc_char sol) s)"
  by (induction s arbitrary: out pend) (auto simp: enc_char_def split: option.splits)

lemma encode_concat: "igsyajl_string_encode sol s = concat (map (enc_char sol) s)"
  by (simp add: igsyajl_string_encode_def encode_loop_concat)

lemma encode_append:
  "igsyajl_string_encode sol (s @ t) = igsyajl_string_encode sol s @ igsyajl_string_encode sol t"
  by (simp add: encode_concat)

lemma decode_loop_acc:
  "decode_list out pend s = map_option ((@) (out @ pend)) (decode_list [] [] s)"
proof (induction "length s" arbitrary: out pend s rule: less_induct)
  case less
  show ?case
  proof (cases s)
    case Nil
    then show ?thesis by simp
  next
    case (Cons c r)
    have *: "decode_list out' pend' r' = map_option ((@) (out' @ pend')) (decode_list [] [] r')"
      if "length r' < length s" for out' pend' r' using less that by blast
    show ?thesis
    proof (cases "c = CHR 0x5C")
      case False
      then show ?thesis
        using * [of r "[]" "[c]"] * [of r out "pend @ [c]"] Cons
        by (cases "decode_list [] [] r") simp_all
    next
      case True
      show ?thesis
      proof (cases r)
        case Nil
        with Cons True show ?thesis by simp
      next
        case (Cons e r2)
        have l: "length r2 < length s" using Cons \<open>s = c # r\<close> by simp
        show ?thesis
        proof (cases "e = CHR ''u''")
          case False
          show ?thesis
            using True False \<open>s = c # r\<close> Cons
            by (cases "unescaped1 e"; cases "decode_list [] [] r2")
              (simp_all add: * [OF l, of "out @ pend @ [_]" "[]", simplified]
                * [OF l, of "[_]" "[]", simplified])
        next
          case u: True
          show ?thesis
          proof (cases "decode_u r2")
            case None
            then show ?thesis using True u \<open>s = c # r\<close> Cons by simp
          next
            case (Some p)
            obtain t r' where p: "p = (t, r')" by (cases p)
            have l': "length r' < length s"
              using decode_u_length [of r2 t r'] Some p l by simp
            show ?thesis
              using True u \<open>s = c # r\<close> Cons Some p
              by (cases "decode_list [] [] r'")
                (simp_all add: * [OF l', of "out @ pend @ t" "[]", simplified]
                  * [OF l', of t "[]", simplified])
          qed
        qed
      qed
    qed
  qed
qed

lemma decode_plain:
  "c \<noteq> CHR 0x5C \<Longrightarrow>
     decode_list [] [] (c # s) = map_option ((#) c) (decode_list [] [] s)"
  by (cases "decode_list [] [] s") (simp_all add: decode_loop_acc [of "[]" "[c]"])

lemma decode_short:
  "e \<noteq> CHR ''u'' \<Longrightarrow> unescaped1 e = Some c \<Longrightarrow>
     decode_list [] [] (CHR 0x5C # e # s) = map_option ((#) c) (decode_list [] [] s)"
  by (cases "decode_list [] [] s") (simp_all add: decode_loop_acc [of "[c]" "[]"])

lemma decode_u_control:
  assumes "k < 32"
  shows "decode_u (CHR ''0'' # CHR ''0'' # hexchar (k div 16) # hexchar (k mod 16) # s) = Some ([char_of k], s)"
proof -
  have h: "\<forall>k \<in> set [0..<32]. hexToDigit_loop 4 0 [CHR ''0'', CHR ''0'', hexchar (k div 16), hexchar (k mod 16)]
      = Some (of_nat k)"
    by code_simp
  have l: "hexToDigit_loop n v (a @ s) = hexToDigit_loop n v a" if "n \<le> length a" for n v a
    using that by (induction n v a rule: hexToDigit_loop.induct) (auto intro!: bind_option_cong)
  have "hexToDigit (CHR ''0'' # CHR ''0'' # hexchar (k div 16) # hexchar (k mod 16) # s) = Some (of_nat k)"
    using h assms l [of 4 "[CHR ''0'', CHR ''0'', hexchar (k div 16), hexchar (k mod 16)]" 0]
    by (simp add: hexToDigit_def)
  moreover have "\<forall>k \<in> set [0..<32]. (of_nat k :: 32 word) AND 0xFC00 \<noteq> 0xD800 \<and> Utf32toUtf8 (of_nat k) = [char_of k]"
    by code_simp
  ultimately show ?thesis
    using assms by (simp add: decode_u_def)
qed

lemma decode_enc_char:
  "decode_list [] [] (enc_char sol c @ s) = map_option ((#) c) (decode_list [] [] s)"
proof (cases "escaped sol c")
  case None
  then have "c \<noteq> CHR 0x5C" by (auto simp: escaped_def)
  with None show ?thesis by (simp add: enc_char_def decode_plain del: decode_list.simps)
next
  case (Some e)
  consider x where "x \<noteq> CHR ''u''" "unescaped1 x = Some c" "e = [CHR 0x5C, x]"
    | "(of_char c :: nat) < 32" "e = [CHR 0x5C, CHR ''u'', CHR ''0'', CHR ''0''] @ CharToHex c"
    using Some by (fastforce simp: escaped_def unescaped1_def split: if_splits)
  then show ?thesis
  proof cases
    case 1
    with Some show ?thesis by (simp add: enc_char_def decode_short del: decode_list.simps)
  next
    case 2
    with Some show ?thesis
      using decode_u_control [OF 2(1), of s] decode_loop_acc [of "[c]" "[]" s]
      by (cases "decode_list [] [] s") (simp_all add: enc_char_def CharToHex_def)
  qed
qed

lemma hexToDigit_append: "hexToDigit_loop n v h = Some d \<Longrightarrow> hexToDigit_loop n v (h @ t) = Some d \<and> n \<le> length h"
  by (induction n v h rule: hexToDigit_loop.induct) (auto simp: bind_some_eqs)

lemma decode_u_append:
  assumes "decode_u s = Some (t, r)" shows "decode_u (s @ a) = Some (t, r @ a)"
proof -
  have h: "hexToDigit x = Some d \<Longrightarrow> hexToDigit (x @ a) = Some d \<and> 4 \<le> length x" for x d
    using hexToDigit_append [of 4 0 x d a] by (simp add: hexToDigit_def)
  obtain cp where cp: "hexToDigit s = Some cp" using assms by (auto simp: decode_u_def bind_some_eqs)
  have cp': "hexToDigit (s @ a) = Some cp" "drop 4 (s @ a) = drop 4 s @ a" using h [OF cp] by simp_all
  show ?thesis
  proof (cases "cp AND 0xFC00 = 0xD800")
    case False
    with assms cp cp' show ?thesis by (simp add: decode_u_def)
  next
    case True
    with assms cp obtain c r1 where r: "drop 4 s = c # r1" by (cases "drop 4 s") (simp_all add: decode_u_def)
    show ?thesis
    proof (cases "c = CHR 0x5C")
      case False
      with assms cp cp' True r show ?thesis by (simp add: decode_u_def)
    next
      case c: True
      with assms cp True r obtain x r2 where r1: "r1 = x # r2" by (cases r1) (simp_all add: decode_u_def)
      show ?thesis
      proof (cases "x = CHR ''u''")
        case False
        have "t = ''?'' \<and> r = x # r2" using assms cp True r c r1 False by (simp add: decode_u_def)
        with cp' True r c r1 False show ?thesis by (simp add: decode_u_def)
      next
        case x: True
        with assms cp True r c r1 obtain sur where s: "hexToDigit r2 = Some sur"
          by (auto simp: decode_u_def bind_some_eqs)
        with assms cp cp' True r c r1 x h [OF s] show ?thesis by (simp add: decode_u_def Let_def)
      qed
    qed
  qed
qed

lemma decode_list_memory:
  "decode_list out pend s = Some t \<Longrightarrow> string_decode_loop (length s) out pend (s @ a) = Some t"
proof (induction out pend s rule: decode_list.induct)
  case (2 out pend c s)
  show ?case
  proof (cases "c = CHR 0x5C")
    case False
    with 2 show ?thesis by (subst string_decode_loop.simps) simp
  next
    case True
    with 2 obtain e r where s: "s = e # r" by (cases s) auto
    show ?thesis
    proof (cases "e = CHR ''u''")
      case u: True
      with 2 True s obtain t' r' where d: "decode_u r = Some (t', r')" "decode_list (out @ pend @ t') [] r' = Some t"
        by (auto split: option.splits)
      have "length r' < Suc (length r)" by (rule decode_u_length [OF d(1)])
      then have "length r + 2 - (length r + 2 - length r') = length r'" by simp
      then show ?thesis
        using 2(1) [OF True s u d(1) refl d(2)] True s u decode_u_append [OF d(1), of a]
        by (subst string_decode_loop.simps) simp
    next
      case False
      with 2 True s show ?thesis
        by (subst string_decode_loop.simps) (auto split: option.splits)
    qed
  qed
qed (simp add: string_decode_loop.simps)

lemma decode_encode_list: "decode_list [] [] (igsyajl_string_encode sol s) = Some s"
  unfolding encode_concat
  by (induction s) (simp_all add: decode_enc_char del: decode_list.simps, simp)

lemma decode_encode:
  "igsyajl_string_decode (igsyajl_string_encode sol s @ a) (length (igsyajl_string_encode sol s)) = Some s"
  unfolding igsyajl_string_decode_def by (rule decode_list_memory [OF decode_encode_list])

lemma conts_append: "conts n s = Some r \<Longrightarrow> conts n (s @ t) = Some (r @ t)"
  by (induction n s rule: conts.induct) (auto split: if_splits)

lemma validate_append:
  "igsyajl_string_validate_utf8 s \<Longrightarrow>
     igsyajl_string_validate_utf8 (s @ t) = igsyajl_string_validate_utf8 t"
  by (induction s rule: igsyajl_string_validate_utf8.induct)
    (auto split: option.splits dest: conts_append simp: conts_append)

lemma validate_ascii: "\<forall>c \<in> set s. (of_char c :: nat) \<le> 0x7f \<Longrightarrow> igsyajl_string_validate_utf8 s"
  by (induction s) (auto simp: lead_len_def)

lemma word_below: "unat x < k \<Longrightarrow> (\<forall>n \<in> set [0..<k]. P (of_nat n)) \<Longrightarrow> P (x :: 32 word)"
  by (drule bspec [of _ _ "unat x"]) simp_all

lemma of_char_of_word: "(of_char (char_of_word w) :: nat) = unat w mod 256"
  by (simp add: char_of_word_def)

lemma is_cont_masked: "is_cont (char_of_word (x AND 0x3F OR 0x80))"
proof -
  have "x AND 0x3F \<le> 0x3F" by (rule word_and_le1)
  then have *: "unat (x AND 0x3F) < 64" by (simp add: word_le_nat_alt)
  have "unat (x AND 0x3F OR 0x80) = unat (x AND 0x3F) + 128"
    by (rule word_below [OF *, of "\<lambda>x. unat (x OR 0x80) = unat x + 128"]) (simp add: upt_rec)
  with * show ?thesis by (simp add: is_cont_def of_char_of_word)
qed

lemma lead_len_word:
  "x < 0x20 \<Longrightarrow> lead_len (char_of_word (x OR 0xC0)) = Some 1"
  "x < 0x10 \<Longrightarrow> lead_len (char_of_word (x OR 0xE0)) = Some 2"
  "x < 0x08 \<Longrightarrow> lead_len (char_of_word (x OR 0xF0)) = Some 3"
proof -
  show "lead_len (char_of_word (x OR 0xC0)) = Some 1" if "x < 0x20"
  proof -
    from that have *: "unat x < 32" by (simp add: word_less_nat_alt)
    have "unat (x OR 0xC0) = unat x + 0xC0"
      by (rule word_below [OF *, of "\<lambda>x. unat (x OR 0xC0) = unat x + 0xC0"]) (simp add: upt_rec)
    moreover have "(unat x + 0xC0) div 32 = 6" using * by (auto intro!: div_nat_eqI)
    ultimately show ?thesis using * by (simp add: lead_len_def of_char_of_word)
  qed
  show "lead_len (char_of_word (x OR 0xE0)) = Some 2" if "x < 0x10"
  proof -
    from that have *: "unat x < 16" by (simp add: word_less_nat_alt)
    have "unat (x OR 0xE0) = unat x + 0xE0"
      by (rule word_below [OF *, of "\<lambda>x. unat (x OR 0xE0) = unat x + 0xE0"]) (simp add: upt_rec)
    moreover have "(unat x + 0xE0) div 32 = 7" "(unat x + 0xE0) div 16 = 14" using * by (auto intro!: div_nat_eqI)
    ultimately show ?thesis using * by (simp add: lead_len_def of_char_of_word)
  qed
  show "lead_len (char_of_word (x OR 0xF0)) = Some 3" if "x < 0x08"
  proof -
    from that have *: "unat x < 8" by (simp add: word_less_nat_alt)
    have "unat (x OR 0xF0) = unat x + 0xF0"
      by (rule word_below [OF *, of "\<lambda>x. unat (x OR 0xF0) = unat x + 0xF0"]) (simp add: upt_rec)
    moreover have "(unat x + 0xF0) div 32 = 7" "(unat x + 0xF0) div 16 = 15" "(unat x + 0xF0) div 8 = 30" using * by (auto intro!: div_nat_eqI)
    ultimately show ?thesis using * by (simp add: lead_len_def of_char_of_word)
  qed
qed

lemma validate_utf32: "igsyajl_string_validate_utf8 (Utf32toUtf8 cp)"
proof -
  have sh: "cp < 0x800 \<Longrightarrow> drop_bit 6 cp < 0x20" "cp < 0x10000 \<Longrightarrow> drop_bit 12 cp < 0x10"
    "cp < 0x200000 \<Longrightarrow> drop_bit 18 cp < 0x08"
    by (simp_all add: word_less_nat_alt unat_drop_bit_eq, simp_all add: drop_bit_eq_div less_mult_imp_div_less)
  consider "cp < 0x80" | "\<not> cp < 0x80" "cp < 0x800" | "\<not> cp < 0x800" "\<not> cp < 0x80" "cp < 0x10000"
    | "\<not> cp < 0x10000" "\<not> cp < 0x800" "\<not> cp < 0x80" "cp < 0x200000" | "\<not> cp < 0x200000" "\<not> cp < 0x10000" "\<not> cp < 0x800" "\<not> cp < 0x80"
    by blast
  then show ?thesis
  proof cases
    case 1
    then have "(of_char (char_of_word cp) :: nat) \<le> 0x7f"
      by (simp add: char_of_word_def word_less_nat_alt)
    with 1 show ?thesis by (simp add: Utf32toUtf8_def lead_len_def)
  next
    case 2
    with sh(1) lead_len_word(1) [of "drop_bit 6 cp"] show ?thesis
      by (simp add: Utf32toUtf8_def is_cont_masked)
  next
    case 3
    with sh(2) lead_len_word(2) [of "drop_bit 12 cp"] show ?thesis
      by (simp add: Utf32toUtf8_def is_cont_masked numeral_eq_Suc)
  next
    case 4
    with sh(3) lead_len_word(3) [of "drop_bit 18 cp"] show ?thesis
      by (simp add: Utf32toUtf8_def is_cont_masked numeral_eq_Suc)
  next
    case 5
    then show ?thesis by (simp add: Utf32toUtf8_def lead_len_def)
  qed
qed

end
