(* ===== verification/Yajl_Gen.thy ===== *)
theory Yajl_Gen
  imports Yajl_Codec C_Double
begin

text \<open>
  The JSON generator (src/src/yajl_gen.c and the buffer of src/src/yajl_buf.c).
  The generator prints to its own buffer: the program never sets a print
  callback. The stack of states has 128 cells, one per depth, and a depth is a
  32-bit unsigned counter; a read or write of a cell past the stack is \<open>None\<close>.
  The macros of the file are definitions of the same names in lower case.
\<close>

section \<open>State\<close>

definition IGSYAJL_MAX_DEPTH :: nat where "IGSYAJL_MAX_DEPTH = 128"

datatype igsyajl_gen_state =
  gen_start | gen_map_start | gen_map_key | gen_map_val | gen_array_start | gen_in_array
| gen_complete | gen_error

datatype igsyajl_gen_status =
  gen_status_ok | gen_keys_must_be_strings | max_depth_exceeded | gen_in_error_state
| gen_generation_complete | gen_invalid_number | gen_no_buf | gen_invalid_string

record igsyajl_gen =
  gn_beautify :: bool
  gn_validate_utf8 :: bool
  gn_escape_solidus :: bool
  gn_depth :: nat
  gn_indentString :: string
  gn_state :: "igsyajl_gen_state list"
  gn_buf :: "string option"

definition igsyajl_gen_alloc :: igsyajl_gen where
  "igsyajl_gen_alloc =
     \<lparr> gn_beautify = False, gn_validate_utf8 = False, gn_escape_solidus = False, gn_depth = 0,
       gn_indentString = replicate 4 (CHR '' ''), gn_state = replicate IGSYAJL_MAX_DEPTH gen_start,
       gn_buf = None \<rparr>"

text \<open>
  \<open>igsyajl_buf_append\<close>: the first append allocates the buffer, even for no bytes.
\<close>

definition igsyajl_buf_append :: "string option \<Rightarrow> string \<Rightarrow> string option" where
  "igsyajl_buf_append b s = Some ((case b of None \<Rightarrow> [] | Some t \<Rightarrow> t) @ s)"

definition gprint :: "string \<Rightarrow> igsyajl_gen \<Rightarrow> igsyajl_gen" where
  "gprint s g = g\<lparr> gn_buf := igsyajl_buf_append (gn_buf g) s \<rparr>"

definition cur_state :: "igsyajl_gen \<Rightarrow> igsyajl_gen_state option" where
  "cur_state g = (if gn_depth g < length (gn_state g) then Some (gn_state g ! gn_depth g) else None)"

definition set_state :: "igsyajl_gen_state \<Rightarrow> igsyajl_gen \<Rightarrow> igsyajl_gen option" where
  "set_state st g =
     (if gn_depth g < length (gn_state g) then Some (g\<lparr> gn_state := (gn_state g)[gn_depth g := st] \<rparr>)
      else None)"

section \<open>The macros\<close>

definition newline :: string where "newline = [CHR 0x0A]"

definition insert_sep :: "igsyajl_gen \<Rightarrow> igsyajl_gen option" where
  "insert_sep g =
     do { st \<leftarrow> cur_state g;
          Some (if st = gen_map_key \<or> st = gen_in_array then
                  (let g = gprint '','' g in if gn_beautify g then gprint newline g else g)
                else if st = gen_map_val then
                  (let g = gprint '':'' g in if gn_beautify g then gprint '' '' g else g)
                else g) }"

definition insert_whitespace :: "igsyajl_gen \<Rightarrow> igsyajl_gen option" where
  "insert_whitespace g =
     (if gn_beautify g then
        do { st \<leftarrow> cur_state g;
             Some (if st \<noteq> gen_map_val then (gprint (gn_indentString g) ^^ gn_depth g) g else g) }
      else Some g)"

definition ensure_not_key :: "igsyajl_gen \<Rightarrow> igsyajl_gen_status option" where
  "ensure_not_key g =
     do { st \<leftarrow> cur_state g;
          Some (if st = gen_map_key \<or> st = gen_map_start then gen_keys_must_be_strings else gen_status_ok) }"

definition ensure_valid_state :: "igsyajl_gen \<Rightarrow> igsyajl_gen_status option" where
  "ensure_valid_state g =
     do { st \<leftarrow> cur_state g;
          Some (if st = gen_error then gen_in_error_state
                else if st = gen_complete then gen_generation_complete else gen_status_ok) }"

definition appended :: "igsyajl_gen_state \<Rightarrow> igsyajl_gen_state" where
  "appended st =
     (case st of gen_start \<Rightarrow> gen_complete
      | gen_map_start \<Rightarrow> gen_map_val | gen_map_key \<Rightarrow> gen_map_val
      | gen_array_start \<Rightarrow> gen_in_array | gen_map_val \<Rightarrow> gen_map_key | _ \<Rightarrow> st)"

definition appended_atom :: "igsyajl_gen \<Rightarrow> igsyajl_gen option" where
  "appended_atom g = do { st \<leftarrow> cur_state g; set_state (appended st) g }"

definition final_newline :: "igsyajl_gen \<Rightarrow> igsyajl_gen option" where
  "final_newline g =
     (if gn_beautify g then
        do { st \<leftarrow> cur_state g; Some (if st = gen_complete then gprint newline g else g) }
      else Some g)"

section \<open>The operations\<close>

type_synonym gen_result = "(igsyajl_gen_status \<times> igsyajl_gen) option"

text \<open>
  What the scalars share: the checks, then the text between separator and
  newline. \<open>pre\<close> is the status of the check on the value itself.
\<close>

definition gen_scalar :: "igsyajl_gen_status \<Rightarrow> string \<Rightarrow> igsyajl_gen \<Rightarrow> gen_result" where
  "gen_scalar pre text g =
     do { s \<leftarrow> ensure_valid_state g;
          if s \<noteq> gen_status_ok then Some (s, g)
          else do { s \<leftarrow> ensure_not_key g;
          if s \<noteq> gen_status_ok then Some (s, g)
          else if pre \<noteq> gen_status_ok then Some (pre, g)
          else do { g \<leftarrow> insert_sep g; g \<leftarrow> insert_whitespace g;
                    g \<leftarrow> appended_atom (gprint text g); g \<leftarrow> final_newline g;
                    Some (gen_status_ok, g) } } }"

definition igsyajl_gen_integer :: "igsyajl_gen \<Rightarrow> int \<Rightarrow> gen_result" where
  "igsyajl_gen_integer g number = gen_scalar gen_status_ok (fmt_d number) g"

definition double_text :: "f64 \<Rightarrow> string" where
  "double_text d = (let i = fmt_g20 d
     in if list_all (\<lambda>c. c \<in> set ''0123456789-'') i then i @ ''.0'' else i)"

definition igsyajl_gen_double :: "igsyajl_gen \<Rightarrow> f64 \<Rightarrow> gen_result" where
  "igsyajl_gen_double g number =
     gen_scalar (if d_exp number = 2047 then gen_invalid_number else gen_status_ok) (double_text number) g"

definition igsyajl_gen_number :: "igsyajl_gen \<Rightarrow> string \<Rightarrow> gen_result" where
  "igsyajl_gen_number g s = gen_scalar gen_status_ok s g"

definition igsyajl_gen_null :: "igsyajl_gen \<Rightarrow> gen_result" where
  "igsyajl_gen_null g = gen_scalar gen_status_ok ''null'' g"

definition igsyajl_gen_bool :: "igsyajl_gen \<Rightarrow> bool \<Rightarrow> gen_result" where
  "igsyajl_gen_bool g b = gen_scalar gen_status_ok (if b then ''true'' else ''false'') g"

definition igsyajl_gen_string :: "igsyajl_gen \<Rightarrow> string \<Rightarrow> gen_result" where
  "igsyajl_gen_string g str =
     (if gn_validate_utf8 g \<and> \<not> igsyajl_string_validate_utf8 str then Some (gen_invalid_string, g)
      else do { s \<leftarrow> ensure_valid_state g;
                if s \<noteq> gen_status_ok then Some (s, g)
                else do { g \<leftarrow> insert_sep g; g \<leftarrow> insert_whitespace g;
                          let g = gprint [CHR 0x22] g;
                          let g = gprint (igsyajl_string_encode (gn_escape_solidus g) str) g;
                          let g = gprint [CHR 0x22] g;
                          g \<leftarrow> appended_atom g; g \<leftarrow> final_newline g;
                          Some (gen_status_ok, g) } })"

definition gen_open :: "igsyajl_gen_state \<Rightarrow> string \<Rightarrow> igsyajl_gen \<Rightarrow> gen_result" where
  "gen_open st bracket g =
     do { s \<leftarrow> ensure_valid_state g;
          if s \<noteq> gen_status_ok then Some (s, g)
          else do { s \<leftarrow> ensure_not_key g;
          if s \<noteq> gen_status_ok then Some (s, g)
          else do { g \<leftarrow> insert_sep g; g \<leftarrow> insert_whitespace g;
                    let g = g\<lparr> gn_depth := (gn_depth g + 1) mod 2 ^ 32 \<rparr>;
                    if IGSYAJL_MAX_DEPTH \<le> gn_depth g then Some (max_depth_exceeded, g)
                    else do { g \<leftarrow> set_state st g;
                              let g = gprint bracket g;
                              let g = (if gn_beautify g then gprint newline g else g);
                              g \<leftarrow> final_newline g;
                              Some (gen_status_ok, g) } } } }"

definition gen_close :: "string \<Rightarrow> igsyajl_gen \<Rightarrow> gen_result" where
  "gen_close bracket g =
     do { s \<leftarrow> ensure_valid_state g;
          if s \<noteq> gen_status_ok then Some (s, g)
          else do { let g = g\<lparr> gn_depth := (if gn_depth g = 0 then 2 ^ 32 - 1 else gn_depth g - 1) \<rparr>;
                    if IGSYAJL_MAX_DEPTH \<le> gn_depth g then Some (gen_generation_complete, g)
                    else do { let g = (if gn_beautify g then gprint newline g else g);
                              g \<leftarrow> appended_atom g; g \<leftarrow> insert_whitespace g;
                              g \<leftarrow> final_newline (gprint bracket g);
                              Some (gen_status_ok, g) } } }"

definition igsyajl_gen_map_open :: "igsyajl_gen \<Rightarrow> gen_result" where
  "igsyajl_gen_map_open = gen_open gen_map_start ''{''"

definition igsyajl_gen_map_close :: "igsyajl_gen \<Rightarrow> gen_result" where
  "igsyajl_gen_map_close = gen_close ''}''"

definition igsyajl_gen_array_open :: "igsyajl_gen \<Rightarrow> gen_result" where
  "igsyajl_gen_array_open = gen_open gen_array_start ''[''"

definition igsyajl_gen_array_close :: "igsyajl_gen \<Rightarrow> gen_result" where
  "igsyajl_gen_array_close = gen_close '']''"

definition igsyajl_gen_get_buf :: "igsyajl_gen \<Rightarrow> string option" where
  "igsyajl_gen_get_buf g = gn_buf g"

definition igsyajl_gen_clear :: "igsyajl_gen \<Rightarrow> igsyajl_gen" where
  "igsyajl_gen_clear g = g\<lparr> gn_buf := map_option (\<lambda>_. []) (gn_buf g) \<rparr>"

definition igsyajl_gen_reset :: "igsyajl_gen \<Rightarrow> string option \<Rightarrow> igsyajl_gen" where
  "igsyajl_gen_reset g sep =
     (let g = g\<lparr> gn_depth := 0, gn_state := replicate IGSYAJL_MAX_DEPTH gen_start \<rparr>
      in case sep of None \<Rightarrow> g | Some s \<Rightarrow> gprint s g)"

end
