(* ===== verification/Igs_Json.thy ===== *)
theory Igs_Json
  imports Igs_Prelude Yajl_Gen
begin

text \<open>
  The JSON documents the program writes and the JSON trees it queries
  (src/src/igs_json.c, src/src/igs_json_node.c and \<open>igsyajl_tree_get\<close> of
  src/src/yajl_tree.c). A status that is not ok is only logged: the operations
  of \<open>igs_json_t\<close> return the generator as the failed call left it.

  A number node keeps the integer, the double, the text and the two flags that
  say which of the first two are valid. Nodes the parser builds have zeroed
  unions, so \<open>true\<close>, \<open>false\<close> and \<open>null\<close> carry nothing.
\<close>

section \<open>Writing\<close>

definition igs_json_new :: igsyajl_gen where
  "igs_json_new = igsyajl_gen_alloc\<lparr> gn_beautify := True, gn_validate_utf8 := True \<rparr>"

definition igs_json_open_map :: "igsyajl_gen \<Rightarrow> igsyajl_gen option" where
  "igs_json_open_map g = map_option snd (igsyajl_gen_map_open g)"

definition igs_json_close_map :: "igsyajl_gen \<Rightarrow> igsyajl_gen option" where
  "igs_json_close_map g = map_option snd (igsyajl_gen_map_close g)"

definition igs_json_open_array :: "igsyajl_gen \<Rightarrow> igsyajl_gen option" where
  "igs_json_open_array g = map_option snd (igsyajl_gen_array_open g)"

definition igs_json_close_array :: "igsyajl_gen \<Rightarrow> igsyajl_gen option" where
  "igs_json_close_array g = map_option snd (igsyajl_gen_array_close g)"

definition igs_json_add_null :: "igsyajl_gen \<Rightarrow> igsyajl_gen option" where
  "igs_json_add_null g = map_option snd (igsyajl_gen_null g)"

definition igs_json_add_bool :: "bool \<Rightarrow> igsyajl_gen \<Rightarrow> igsyajl_gen option" where
  "igs_json_add_bool b g = map_option snd (igsyajl_gen_bool g b)"

definition igs_json_add_int :: "int \<Rightarrow> igsyajl_gen \<Rightarrow> igsyajl_gen option" where
  "igs_json_add_int n g = map_option snd (igsyajl_gen_integer g n)"

definition igs_json_add_double :: "f64 \<Rightarrow> igsyajl_gen \<Rightarrow> igsyajl_gen option" where
  "igs_json_add_double d g = map_option snd (igsyajl_gen_double g d)"

definition igs_json_add_string :: "string option \<Rightarrow> igsyajl_gen \<Rightarrow> igsyajl_gen option" where
  "igs_json_add_string value g =
     (let value = (case value of None \<Rightarrow> [] | Some s \<Rightarrow> s)
      in do { (status, g) \<leftarrow> igsyajl_gen_string g value;
              if status \<noteq> gen_status_ok then igs_json_add_null g else Some g })"

text \<open>\<open>strdup\<close> stops at the first NUL; of a buffer never printed to it is undefined.\<close>

definition igs_json_dump :: "igsyajl_gen \<Rightarrow> string option" where
  "igs_json_dump g = do { b \<leftarrow> igsyajl_gen_get_buf g; Some (takeWhile (\<lambda>c. c \<noteq> CHR 0x00) b) }"

section \<open>Trees\<close>

datatype igs_json_node =
  JString string
| JNumber int f64 string bool bool
| JMap "(string \<times> igs_json_node) list"
| JArray "igs_json_node list"
| JTrue
| JFalse
| JNull

definition json_int :: "int \<Rightarrow> f64 \<Rightarrow> igs_json_node" where
  "json_int n d = JNumber n d (fmt_d n) True True"

definition igs_json_node_is_integer :: "igs_json_node \<Rightarrow> bool" where
  "igs_json_node_is_integer n = (case n of JNumber i d r iv dv \<Rightarrow> iv | _ \<Rightarrow> False)"

definition igs_json_node_is_double :: "igs_json_node \<Rightarrow> bool" where
  "igs_json_node_is_double n = (case n of JNumber i d r iv dv \<Rightarrow> dv | _ \<Rightarrow> False)"

text \<open>
  \<open>s_json_node_iterate\<close>, and \<open>igs_json_insert_node\<close>, which is the same code.
\<close>

fun s_json_node_iterate :: "igs_json_node \<Rightarrow> igsyajl_gen \<Rightarrow> igsyajl_gen option"
  and s_json_iterate_entries :: "(string \<times> igs_json_node) list \<Rightarrow> igsyajl_gen \<Rightarrow> igsyajl_gen option"
  and s_json_iterate_values :: "igs_json_node list \<Rightarrow> igsyajl_gen \<Rightarrow> igsyajl_gen option" where
  "s_json_node_iterate (JString s) g = igs_json_add_string (Some s) g"
| "s_json_node_iterate (JNumber i d r iv dv) g =
     (if iv then igs_json_add_int i g else igs_json_add_double d g)"
| "s_json_node_iterate (JMap es) g =
     do { g \<leftarrow> igs_json_open_map g; g \<leftarrow> s_json_iterate_entries es g; igs_json_close_map g }"
| "s_json_node_iterate (JArray vs) g =
     do { g \<leftarrow> igs_json_open_array g; g \<leftarrow> s_json_iterate_values vs g; igs_json_close_array g }"
| "s_json_node_iterate JTrue g = igs_json_add_bool True g"
| "s_json_node_iterate JFalse g = igs_json_add_bool False g"
| "s_json_node_iterate JNull g = igs_json_add_null g"
| "s_json_iterate_entries [] g = Some g"
| "s_json_iterate_entries ((k, v) # es) g =
     do { g \<leftarrow> igs_json_add_string (Some k) g; g \<leftarrow> s_json_node_iterate v g; s_json_iterate_entries es g }"
| "s_json_iterate_values [] g = Some g"
| "s_json_iterate_values (v # vs) g =
     do { g \<leftarrow> s_json_node_iterate v g; s_json_iterate_values vs g }"

definition igs_json_insert_node :: "igsyajl_gen \<Rightarrow> igs_json_node \<Rightarrow> igsyajl_gen option" where
  "igs_json_insert_node json node = s_json_node_iterate node json"

definition igs_json_node_dump :: "igs_json_node \<Rightarrow> string option" where
  "igs_json_node_dump v = do { g \<leftarrow> s_json_node_iterate v igs_json_new; igs_json_dump g }"

fun igs_json_node_dup :: "igs_json_node \<Rightarrow> igs_json_node"
  and dup_entries :: "(string \<times> igs_json_node) list \<Rightarrow> (string \<times> igs_json_node) list"
  and dup_values :: "igs_json_node list \<Rightarrow> igs_json_node list" where
  "igs_json_node_dup (JString s) = JString s"
| "igs_json_node_dup (JNumber i d r iv dv) =
     (if iv then JNumber i 0 r iv dv else JNumber 0 d r iv dv)"
| "igs_json_node_dup (JMap es) = JMap (dup_entries es)"
| "igs_json_node_dup (JArray vs) = JArray (dup_values vs)"
| "igs_json_node_dup JTrue = JTrue"
| "igs_json_node_dup JFalse = JFalse"
| "igs_json_node_dup JNull = JNull"
| "dup_entries [] = []"
| "dup_entries ((k, v) # es) = (k, igs_json_node_dup v) # dup_entries es"
| "dup_values [] = []"
| "dup_values (v # vs) = igs_json_node_dup v # dup_values vs"

text \<open>The replacement of the value of the first entry of a key.\<close>

fun set_entry :: "string \<Rightarrow> 'v \<Rightarrow> (string \<times> 'v) list \<Rightarrow> (string \<times> 'v) list" where
  "set_entry key v [] = [(key, v)]"
| "set_entry key v ((k, w) # es) = (if k = key then (k, v) # es else (k, w) # set_entry key v es)"

text \<open>A key is asserted for a map; another parent is left as it is, with an error logged.\<close>

definition igs_json_node_insert ::
    "igs_json_node \<Rightarrow> string option \<Rightarrow> igs_json_node \<Rightarrow> igs_json_node option" where
  "igs_json_node_insert parent key node =
     (case parent of
        JArray vs \<Rightarrow> Some (JArray (vs @ [igs_json_node_dup node]))
      | JMap es \<Rightarrow> (case key of None \<Rightarrow> None
                    | Some k \<Rightarrow> Some (JMap (set_entry k (igs_json_node_dup node) es)))
      | _ \<Rightarrow> Some parent)"

section \<open>Queries\<close>

text \<open>
  The \<open>unsigned long\<close> of \<open>strtol\<close>, or \<open>None\<close> when no digit was read.
\<close>

definition strtol_index :: "string \<Rightarrow> nat option" where
  "strtol_index s =
     (let (neg, r) = c_sign (dropWhile c_isspace s); ds = takeWhile is_digit_char r;
          v = digits_val 10 ds
      in if ds = [] then None
         else if neg then (let m = min v (2 ^ 63) in Some ((2 ^ 64 - m) mod 2 ^ 64))
         else Some (min v (2 ^ 63 - 1)))"

fun igsyajl_tree_get :: "igs_json_node \<Rightarrow> string list \<Rightarrow> igs_json_node option" where
  "igsyajl_tree_get n [] = Some n"
| "igsyajl_tree_get n (p # path) =
     (case n of
        JMap es \<Rightarrow> (case map_of es p of None \<Rightarrow> None | Some v \<Rightarrow> igsyajl_tree_get v path)
      | JArray vs \<Rightarrow>
          (case strtol_index p of None \<Rightarrow> None
           | Some i \<Rightarrow> if i < length vs then igsyajl_tree_get (vs ! i) path else None)
      | _ \<Rightarrow> igsyajl_tree_get n path)"

definition igs_json_node_find :: "igs_json_node \<Rightarrow> string list \<Rightarrow> igs_json_node option" where
  "igs_json_node_find node path = igsyajl_tree_get node path"

end
