(* ===== verification/Igs_Json_Text.thy ===== *)
theory Igs_Json_Text
  imports Igs_Json
begin

text \<open>
  What a document looks like: \<open>render d t\<close> is the text of the tree \<open>t\<close> at depth
  \<open>d\<close>, and the lemmas show that the generator, driven by \<open>s_json_node_iterate\<close>,
  prints exactly that, for trees whose keys are UTF-8, whose doubles are finite
  and whose nesting stays below the generator's 128 levels.
\<close>

section \<open>The abstract printer\<close>

definition indent :: "nat \<Rightarrow> string" where
  "indent d = concat (replicate d (replicate 4 (CHR '' '')))"

definition quoted :: "string \<Rightarrow> string" where
  "quoted s = [CHR 0x22] @ igsyajl_string_encode False s @ [CHR 0x22]"

definition string_text :: "string \<Rightarrow> string" where
  "string_text s = (if igsyajl_string_validate_utf8 s then quoted s else ''null'')"

fun render :: "nat \<Rightarrow> igs_json_node \<Rightarrow> string"
  and render_entries :: "nat \<Rightarrow> bool \<Rightarrow> (string \<times> igs_json_node) list \<Rightarrow> string"
  and render_values :: "nat \<Rightarrow> bool \<Rightarrow> igs_json_node list \<Rightarrow> string" where
  "render d (JString s) = string_text s"
| "render d (JNumber i x r iv dv) = (if iv then fmt_d i else double_text x)"
| "render d (JMap es) = ''{'' @ newline @ render_entries (Suc d) True es @ newline @ indent d @ ''}''"
| "render d (JArray vs) = ''['' @ newline @ render_values (Suc d) True vs @ newline @ indent d @ '']''"
| "render d JTrue = ''true''"
| "render d JFalse = ''false''"
| "render d JNull = ''null''"
| "render_entries d first [] = []"
| "render_entries d first ((k, v) # es) =
     (if first then [] else '','' @ newline) @ indent d @ quoted k @ '': '' @ render d v @ render_entries d False es"
| "render_values d first [] = []"
| "render_values d first (v # vs) =
     (if first then [] else '','' @ newline) @ indent d @ render d v @ render_values d False vs"

fun json_ok :: "nat \<Rightarrow> igs_json_node \<Rightarrow> bool"
  and entries_ok :: "nat \<Rightarrow> (string \<times> igs_json_node) list \<Rightarrow> bool"
  and values_ok :: "nat \<Rightarrow> igs_json_node list \<Rightarrow> bool" where
  "json_ok d (JString s) \<longleftrightarrow> True"
| "json_ok d (JNumber i x r iv dv) \<longleftrightarrow> iv \<or> d_exp x \<noteq> 2047"
| "json_ok d (JMap es) \<longleftrightarrow> Suc d < IGSYAJL_MAX_DEPTH \<and> entries_ok (Suc d) es"
| "json_ok d (JArray vs) \<longleftrightarrow> Suc d < IGSYAJL_MAX_DEPTH \<and> values_ok (Suc d) vs"
| "json_ok d JTrue \<longleftrightarrow> True"
| "json_ok d JFalse \<longleftrightarrow> True"
| "json_ok d JNull \<longleftrightarrow> True"
| "entries_ok d [] \<longleftrightarrow> True"
| "entries_ok d ((k, v) # es) \<longleftrightarrow> igsyajl_string_validate_utf8 k \<and> json_ok d v \<and> entries_ok d es"
| "values_ok d [] \<longleftrightarrow> True"
| "values_ok d (v # vs) \<longleftrightarrow> json_ok d v \<and> values_ok d vs"

section \<open>The macros on a well-formed generator\<close>

text \<open>
  \<open>gen_ok\<close>: a generator configured as the program does, inside its stack.
\<close>

definition gen_ok :: "igsyajl_gen \<Rightarrow> bool" where
  "gen_ok g \<longleftrightarrow> gn_beautify g \<and> gn_validate_utf8 g \<and> \<not> gn_escape_solidus g
     \<and> gn_indentString g = replicate 4 (CHR '' '') \<and> gn_depth g < IGSYAJL_MAX_DEPTH
     \<and> length (gn_state g) = IGSYAJL_MAX_DEPTH"

definition gtop :: "igsyajl_gen \<Rightarrow> igsyajl_gen_state" where
  "gtop g = gn_state g ! gn_depth g"

definition printed :: "igsyajl_gen \<Rightarrow> string" where
  "printed g = (case gn_buf g of None \<Rightarrow> [] | Some b \<Rightarrow> b)"

definition sep_text :: "igsyajl_gen_state \<Rightarrow> string" where
  "sep_text st = (if st = gen_map_key \<or> st = gen_in_array then '','' @ newline
     else if st = gen_map_val then '': '' else [])"

definition ws_text :: "nat \<Rightarrow> igsyajl_gen_state \<Rightarrow> string" where
  "ws_text d st = (if st = gen_map_val then [] else indent d)"

definition end_text :: "igsyajl_gen_state \<Rightarrow> string" where
  "end_text st = (if st = gen_complete then newline else [])"

text \<open>
  \<open>steps g s st g'\<close>: at the same depth, the states below untouched, the state of
  this depth now \<open>st\<close> and \<open>s\<close> printed.
\<close>

definition steps :: "igsyajl_gen \<Rightarrow> string \<Rightarrow> igsyajl_gen_state \<Rightarrow> igsyajl_gen \<Rightarrow> bool" where
  "steps g s st g' \<longleftrightarrow> gen_ok g' \<and> gn_depth g' = gn_depth g \<and> gtop g' = st
     \<and> take (gn_depth g) (gn_state g') = take (gn_depth g) (gn_state g) \<and> printed g' = printed g @ s"

definition put :: "string \<Rightarrow> igsyajl_gen \<Rightarrow> igsyajl_gen" where
  "put s g = (if s = [] then g else gprint s g)"

lemma gprint_put [simp]: "gprint t (put s g) = gprint (s @ t) g" "put t (gprint s g) = gprint (s @ t) g"
  "put t (put s g) = put (s @ t) g" "gprint t (gprint s g) = gprint (s @ t) g" "put [] g = g"
  by (auto simp: put_def gprint_def igsyajl_buf_append_def split: option.splits)

lemma put_fields [simp]: "gn_depth (put s g) = gn_depth g" "gn_state (put s g) = gn_state g"
  "gn_beautify (put s g) = gn_beautify g" "gn_validate_utf8 (put s g) = gn_validate_utf8 g"
  "gn_escape_solidus (put s g) = gn_escape_solidus g" "gn_indentString (put s g) = gn_indentString g"
  "printed (put s g) = printed g @ s"
  by (auto simp: put_def gprint_def printed_def igsyajl_buf_append_def split: option.splits)

lemma gprint_fields [simp]: "gn_depth (gprint s g) = gn_depth g" "gn_state (gprint s g) = gn_state g"
  "gn_beautify (gprint s g) = gn_beautify g" "gn_validate_utf8 (gprint s g) = gn_validate_utf8 g"
  "gn_escape_solidus (gprint s g) = gn_escape_solidus g" "gn_indentString (gprint s g) = gn_indentString g"
  "printed (gprint s g) = printed g @ s" "gn_buf (gprint s g) = Some (printed g @ s)"
  by (auto simp: gprint_def printed_def igsyajl_buf_append_def split: option.splits)

lemma printed_depth [simp]: "printed (g\<lparr> gn_depth := d \<rparr>) = printed g"
  by (simp add: printed_def)

lemma gtop_put [simp]: "gtop (put s g) = gtop g" "gtop (gprint s g) = gtop g"
  by (simp_all add: gtop_def)

lemma gen_ok_put [simp]: "gen_ok (put s g) = gen_ok g" "gen_ok (gprint s g) = gen_ok g"
  by (simp_all add: gen_ok_def)

lemma gprint_pow: "(gprint s ^^ n) g = (if n = 0 then g else gprint (concat (replicate n s)) g)"
proof (induction n)
  case (Suc n)
  have "concat (replicate n s) @ s = s @ concat (replicate n s)" by (induction n) auto
  with Suc show ?case by (cases n) auto
qed simp

lemma cur_state_ok [simp]: "gen_ok g \<Longrightarrow> cur_state g = Some (gtop g)"
  by (simp add: gen_ok_def cur_state_def gtop_def)

lemma insert_sep_ok [simp]: "gen_ok g \<Longrightarrow> insert_sep g = Some (put (sep_text (gtop g)) g)"
  by (auto simp: insert_sep_def sep_text_def put_def Let_def newline_def gen_ok_def)

lemma insert_whitespace_ok [simp]:
  "gen_ok g \<Longrightarrow> insert_whitespace g = Some (put (ws_text (gn_depth g) (gtop g)) g)"
  by (auto simp: insert_whitespace_def ws_text_def gprint_pow put_def indent_def gen_ok_def)

lemma ensure_ok [simp]:
  "gen_ok g \<Longrightarrow> gtop g \<noteq> gen_error \<Longrightarrow> gtop g \<noteq> gen_complete \<Longrightarrow> ensure_valid_state g = Some gen_status_ok"
  "gen_ok g \<Longrightarrow> gtop g \<noteq> gen_map_key \<Longrightarrow> gtop g \<noteq> gen_map_start \<Longrightarrow> ensure_not_key g = Some gen_status_ok"
  by (simp_all add: ensure_valid_state_def ensure_not_key_def)

definition with_state :: "igsyajl_gen_state \<Rightarrow> igsyajl_gen \<Rightarrow> igsyajl_gen" where
  "with_state st g = g\<lparr> gn_state := (gn_state g)[gn_depth g := st] \<rparr>"

lemma with_state_fields [simp]: "gn_depth (with_state st g) = gn_depth g" "gn_buf (with_state st g) = gn_buf g"
  "printed (with_state st g) = printed g" "gn_state (with_state st g) = (gn_state g)[gn_depth g := st]"
  "gn_beautify (with_state st g) = gn_beautify g" "gen_ok (with_state st g) = gen_ok g"
  by (simp_all add: with_state_def printed_def gen_ok_def)

lemma top_with_state [simp]: "gen_ok g \<Longrightarrow> gtop (with_state st g) = st"
  by (simp add: gen_ok_def gtop_def with_state_def)

lemma set_state_ok [simp]: "gen_ok g \<Longrightarrow> set_state st g = Some (with_state st g)"
  by (simp add: set_state_def gen_ok_def with_state_def)

lemma appended_atom_ok [simp]: "gen_ok g \<Longrightarrow> appended_atom g = Some (with_state (appended (gtop g)) g)"
  by (simp add: appended_atom_def)

lemma final_newline_ok [simp]: "gen_ok g \<Longrightarrow> final_newline g = Some (put (end_text (gtop g)) g)"
  by (auto simp: final_newline_def end_text_def put_def newline_def gen_ok_def)

section \<open>The operations\<close>

definition value_state :: "igsyajl_gen_state \<Rightarrow> bool" where
  "value_state st \<longleftrightarrow> st = gen_start \<or> st = gen_map_val \<or> st = gen_array_start \<or> st = gen_in_array"

definition key_state :: "igsyajl_gen_state \<Rightarrow> bool" where
  "key_state st \<longleftrightarrow> st = gen_map_start \<or> st = gen_map_key"

definition atom_text :: "igsyajl_gen \<Rightarrow> string \<Rightarrow> string" where
  "atom_text g text = sep_text (gtop g) @ ws_text (gn_depth g) (gtop g) @ text @ end_text (appended (gtop g))"

lemma steps_refl: "gen_ok g \<Longrightarrow> steps g [] (gtop g) g"
  by (simp add: steps_def)

lemma steps_trans: "steps g s st g' \<Longrightarrow> steps g' t st' g'' \<Longrightarrow> steps g (s @ t) st' g''"
  by (simp add: steps_def)

lemma stepsD: "steps g s st g' \<Longrightarrow> gen_ok g'" "steps g s st g' \<Longrightarrow> gtop g' = st"
  "steps g s st g' \<Longrightarrow> gn_depth g' = gn_depth g" "steps g s st g' \<Longrightarrow> printed g' = printed g @ s"
  by (simp_all add: steps_def)

lemma scalar_steps:
  assumes "gen_ok g" and "value_state (gtop g)"
  shows "\<exists>g'. gen_scalar gen_status_ok text g = Some (gen_status_ok, g')
    \<and> steps g (atom_text g text) (appended (gtop g)) g'"
  using assms by (auto simp: gen_scalar_def value_state_def steps_def atom_text_def)

lemma string_steps:
  assumes "gen_ok g" and "value_state (gtop g) \<or> key_state (gtop g)" and "igsyajl_string_validate_utf8 s"
  shows "\<exists>g'. igsyajl_gen_string g s = Some (gen_status_ok, g')
    \<and> steps g (atom_text g (quoted s)) (appended (gtop g)) g'"
proof -
  have "\<not> gn_escape_solidus g" using assms(1) by (simp add: gen_ok_def)
  with assms show ?thesis
    by (auto simp: igsyajl_gen_string_def value_state_def key_state_def steps_def atom_text_def
        quoted_def Let_def)
qed

lemma add_string_steps:
  assumes "gen_ok g" and "value_state (gtop g)"
  shows "\<exists>g'. igs_json_add_string (Some s) g = Some g' \<and> steps g (atom_text g (string_text s)) (appended (gtop g)) g'"
proof (cases "igsyajl_string_validate_utf8 s")
  case True
  with string_steps [OF assms(1) _ True] assms(2) show ?thesis
    by (auto simp: igs_json_add_string_def string_text_def)
next
  case False
  moreover have "gn_validate_utf8 g" using assms(1) by (simp add: gen_ok_def)
  ultimately have "igsyajl_gen_string g s = Some (gen_invalid_string, g)"
    by (simp add: igsyajl_gen_string_def)
  with scalar_steps [OF assms, of "''null''"] False show ?thesis
    by (auto simp: igs_json_add_string_def igs_json_add_null_def igsyajl_gen_null_def string_text_def)
qed

text \<open>Opening a map or an array goes one level deeper; closing it comes back.\<close>

definition opened :: "igsyajl_gen \<Rightarrow> string \<Rightarrow> igsyajl_gen_state \<Rightarrow> igsyajl_gen \<Rightarrow> bool" where
  "opened g s st g' \<longleftrightarrow> gen_ok g' \<and> gn_depth g' = Suc (gn_depth g) \<and> gtop g' = st
     \<and> take (Suc (gn_depth g)) (gn_state g') = take (Suc (gn_depth g)) (gn_state g)
     \<and> printed g' = printed g @ sep_text (gtop g) @ ws_text (gn_depth g) (gtop g) @ s @ newline"

lemma open_steps:
  assumes "gen_ok g" and "value_state (gtop g)" and "Suc (gn_depth g) < IGSYAJL_MAX_DEPTH" and "st \<noteq> gen_complete"
  shows "\<exists>g'. gen_open st bracket g = Some (gen_status_ok, g') \<and> opened g bracket st g'"
proof -
  define g1 where "g1 = put (sep_text (gtop g) @ ws_text (gn_depth g) (gtop g)) g\<lparr> gn_depth := Suc (gn_depth g) \<rparr>"
  have g1: "(put (sep_text (gtop g) @ ws_text (gn_depth g) (gtop g)) g)\<lparr> gn_depth := Suc (gn_depth g) \<rparr> = g1"
    by (simp add: g1_def put_def gprint_def)
  have ok: "gen_ok g1" "gn_depth g1 = Suc (gn_depth g)" "gn_state g1 = gn_state g" "gn_beautify g1"
    using assms(1,3) by (auto simp: g1_def gen_ok_def)
  have pr: "printed g1 = printed g @ sep_text (gtop g) @ ws_text (gn_depth g) (gtop g)"
    by (simp add: g1_def)
  have m: "Suc (gn_depth g) mod 4294967296 = Suc (gn_depth g)"
    using assms(3) by (simp add: IGSYAJL_MAX_DEPTH_def)
  have e: "end_text st = []" using assms(4) by (simp add: end_text_def)
  have v: "gtop g \<noteq> gen_error" "gtop g \<noteq> gen_complete" "gtop g \<noteq> gen_map_key" "gtop g \<noteq> gen_map_start"
    "\<not> IGSYAJL_MAX_DEPTH \<le> Suc (gn_depth g)"
    using assms(2,3) by (auto simp: value_state_def)
  have "gen_open st bracket g = Some (gen_status_ok, gprint newline (gprint bracket (with_state st g1)))"
    using assms(1) ok v by (simp add: gen_open_def Let_def e m g1)
  then show ?thesis using ok pr by (simp add: opened_def)
qed

lemma close_steps:
  assumes "opened g bracket st0 g0" and "steps g0 s st g1" and "gen_ok g" and "value_state (gtop g)"
    and "st \<noteq> gen_complete" and "st \<noteq> gen_error"
  shows "\<exists>g'. gen_close close g1 = Some (gen_status_ok, g')
    \<and> steps g (atom_text g (bracket @ newline @ s @ newline @ indent (gn_depth g) @ close)) (appended (gtop g)) g'"
proof -
  define g2 where "g2 = g1\<lparr> gn_depth := gn_depth g \<rparr>"
  have g1: "gen_ok g1" "gn_depth g1 = Suc (gn_depth g)" "gtop g1 = st"
    "take (Suc (gn_depth g)) (gn_state g1) = take (Suc (gn_depth g)) (gn_state g)"
    "printed g1 = printed g0 @ s"
    using assms(1,2) by (simp_all add: steps_def opened_def)
  have ok: "gen_ok g2" "gn_beautify g2" "gn_depth g2 = gn_depth g"
    using g1 assms(3) by (auto simp: g2_def gen_ok_def)
  have "gn_state g1 ! gn_depth g = take (Suc (gn_depth g)) (gn_state g1) ! gn_depth g" by simp
  also have "\<dots> = gtop g" by (simp add: g1(4) gtop_def)
  finally have tp: "gtop g2 = gtop g" by (simp add: g2_def gtop_def)
  have lt: "gn_depth g < 128" using assms(3) by (simp add: gen_ok_def IGSYAJL_MAX_DEPTH_def)
  have ws: "ws_text (gn_depth g) (appended (gtop g)) = indent (gn_depth g)"
    using assms(4) by (auto simp: ws_text_def value_state_def appended_def)
  have tk: "take (gn_depth g) (gn_state g2) = take (gn_depth g) (gn_state g)"
    using g1(4) by (simp add: g2_def) (metis lessI min.strict_order_iff take_take)
  let ?g' = "put (end_text (appended (gtop g)))
    (gprint (newline @ indent (gn_depth g) @ close) (with_state (appended (gtop g)) g2))"
  have "with_state x (gprint y g2) = gprint y (with_state x g2)" for x y
    by (simp add: with_state_def gprint_def)
  then have "gen_close close g1 = Some (gen_status_ok, ?g')"
    using g1 ok tp lt assms(5,6)
    by (auto simp: gen_close_def Let_def IGSYAJL_MAX_DEPTH_def ws simp flip: g2_def)
  moreover have "steps g (atom_text g (bracket @ newline @ s @ newline @ indent (gn_depth g) @ close))
      (appended (gtop g)) ?g'"
    using ok tk g1(5) assms(1) by (simp add: steps_def atom_text_def opened_def g2_def)
  ultimately show ?thesis by blast
qed

section \<open>The generator prints the tree\<close>

lemma appended_value: "value_state st \<Longrightarrow> appended st = gen_complete \<or> appended st = gen_map_key \<or> appended st = gen_in_array"
  by (auto simp: value_state_def appended_def)

lemma atom_text_state:
  "gtop g = gen_map_val \<Longrightarrow> atom_text g t = '': '' @ t"
  "gtop g = gen_array_start \<Longrightarrow> atom_text g t = indent (gn_depth g) @ t"
  "gtop g = gen_in_array \<Longrightarrow> atom_text g t = '','' @ newline @ indent (gn_depth g) @ t"
  "gtop g = gen_map_start \<Longrightarrow> atom_text g t = indent (gn_depth g) @ t"
  "gtop g = gen_map_key \<Longrightarrow> atom_text g t = '','' @ newline @ indent (gn_depth g) @ t"
  "gtop g = gen_start \<Longrightarrow> atom_text g t = indent (gn_depth g) @ t @ newline"
  by (simp_all add: atom_text_def sep_text_def ws_text_def end_text_def appended_def)

lemma add_key_steps:
  assumes "gen_ok g" and "key_state (gtop g)" and "igsyajl_string_validate_utf8 k"
  shows "\<exists>g'. igs_json_add_string (Some k) g = Some g'
    \<and> steps g ((if gtop g = gen_map_start then [] else '','' @ newline) @ indent (gn_depth g) @ quoted k) gen_map_val g'"
  using string_steps [OF assms(1) _ assms(3)] assms(2)
  by (fastforce simp: igs_json_add_string_def key_state_def atom_text_state appended_def)

lemma scalar_iterate:
  "gen_ok g \<Longrightarrow> value_state (gtop g) \<Longrightarrow>
     \<exists>g'. map_option snd (gen_scalar gen_status_ok text g) = Some g'
       \<and> steps g (atom_text g text) (appended (gtop g)) g'"
  using scalar_steps by fastforce

lemma iterate_render:
  "\<lbrakk>gen_ok g; value_state (gtop g); json_ok (gn_depth g) t\<rbrakk> \<Longrightarrow>
     \<exists>g'. s_json_node_iterate t g = Some g'
       \<and> steps g (atom_text g (render (gn_depth g) t)) (appended (gtop g)) g'"
  "\<lbrakk>gen_ok g; key_state (gtop g); entries_ok (gn_depth g) es\<rbrakk> \<Longrightarrow>
     \<exists>g' st. s_json_iterate_entries es g = Some g' \<and> key_state st
       \<and> steps g (render_entries (gn_depth g) (gtop g = gen_map_start) es) st g'"
  "\<lbrakk>gen_ok g; gtop g = gen_array_start \<or> gtop g = gen_in_array; values_ok (gn_depth g) vs\<rbrakk> \<Longrightarrow>
     \<exists>g' st. s_json_iterate_values vs g = Some g' \<and> (st = gen_array_start \<or> st = gen_in_array)
       \<and> steps g (render_values (gn_depth g) (gtop g = gen_array_start) vs) st g'"
proof (induction t g and es g and vs g
    rule: s_json_node_iterate_s_json_iterate_entries_s_json_iterate_values.induct)
  case (1 s g)
  then show ?case using add_string_steps by simp
next
  case (2 i d r iv dv g)
  then show ?case
    using scalar_iterate [OF 2(1,2), of "fmt_d i"] scalar_iterate [OF 2(1,2), of "double_text d"]
    by (auto simp: igs_json_add_int_def igs_json_add_double_def igsyajl_gen_integer_def igsyajl_gen_double_def)
next
  case (3 es g)
  obtain g0 where o: "igs_json_open_map g = Some g0" "opened g ''{'' gen_map_start g0"
    using open_steps [OF 3(2,3), of gen_map_start "''{''"] 3(4)
    by (auto simp: igs_json_open_map_def igsyajl_gen_map_open_def)
  then have g0: "gen_ok g0" "gn_depth g0 = Suc (gn_depth g)" "gtop g0 = gen_map_start"
    by (simp_all add: opened_def)
  from 3(1) [OF o(1)] g0 3(4) obtain g1 st where
    e: "s_json_iterate_entries es g0 = Some g1" "key_state st" "steps g0 (render_entries (Suc (gn_depth g)) True es) st g1"
    by (auto simp: key_state_def)
  from close_steps [OF o(2) e(3) 3(2,3), of "''}''"] e(2)
  show ?case using o(1) e(1)
    by (auto simp: igs_json_close_map_def igsyajl_gen_map_close_def key_state_def)
next
  case (4 vs g)
  obtain g0 where o: "igs_json_open_array g = Some g0" "opened g ''['' gen_array_start g0"
    using open_steps [OF 4(2,3), of gen_array_start "''[''"] 4(4)
    by (auto simp: igs_json_open_array_def igsyajl_gen_array_open_def)
  then have g0: "gen_ok g0" "gn_depth g0 = Suc (gn_depth g)" "gtop g0 = gen_array_start"
    by (simp_all add: opened_def)
  from 4(1) [OF o(1)] g0 4(4) obtain g1 st where
    e: "s_json_iterate_values vs g0 = Some g1" "st = gen_array_start \<or> st = gen_in_array"
      "steps g0 (render_values (Suc (gn_depth g)) True vs) st g1"
    by auto
  from close_steps [OF o(2) e(3) 4(2,3), of "'']''"] e(2)
  show ?case using o(1) e(1)
    by (auto simp: igs_json_close_array_def igsyajl_gen_array_close_def)
next
  case (5 g)
  then show ?case using scalar_iterate by (simp add: igs_json_add_bool_def igsyajl_gen_bool_def)
next
  case (6 g)
  then show ?case using scalar_iterate by (simp add: igs_json_add_bool_def igsyajl_gen_bool_def)
next
  case (7 g)
  then show ?case using scalar_iterate by (simp add: igs_json_add_null_def igsyajl_gen_null_def)
next
  case (8 g)
  then show ?case using steps_refl by fastforce
next
  case (9 k v es g)
  obtain g1 where k: "igs_json_add_string (Some k) g = Some g1"
    "steps g ((if gtop g = gen_map_start then [] else '','' @ newline) @ indent (gn_depth g) @ quoted k) gen_map_val g1"
    using add_key_steps [OF 9(3,4), of k] 9(5) by auto
  note g1 = stepsD [OF k(2)]
  from 9(1) [OF k(1)] g1 9(5) obtain g2 where v: "s_json_node_iterate v g1 = Some g2"
    "steps g1 ('': '' @ render (gn_depth g) v) gen_map_key g2"
    by (auto simp: value_state_def atom_text_state appended_def)
  note g2 = stepsD [OF v(2)]
  from 9(2) [OF k(1) v(1)] g1 g2 9(5) obtain g3 st where
    e: "s_json_iterate_entries es g2 = Some g3" "key_state st" "steps g2 (render_entries (gn_depth g) False es) st g3"
    by (auto simp: key_state_def)
  have "steps g (render_entries (gn_depth g) (gtop g = gen_map_start) ((k, v) # es)) st g3"
    using steps_trans [OF steps_trans [OF k(2) v(2)] e(3)] by simp
  with k(1) v(1) e(1,2) show ?case by auto
next
  case (10 g)
  then show ?case using steps_refl by fastforce
next
  case (11 v vs g)
  have vs: "value_state (gtop g)" using 11(4) by (auto simp: value_state_def)
  obtain g1 where v: "s_json_node_iterate v g = Some g1"
    "steps g ((if gtop g = gen_array_start then [] else '','' @ newline) @ indent (gn_depth g) @ render (gn_depth g) v) gen_in_array g1"
    using 11(1) [OF 11(3) vs] 11(4,5) by (auto simp: atom_text_state appended_def)
  note g1 = stepsD [OF v(2)]
  from 11(2) [OF v(1)] g1 11(5) obtain g2 st where
    e: "s_json_iterate_values vs g1 = Some g2" "st = gen_array_start \<or> st = gen_in_array"
      "steps g1 (render_values (gn_depth g) False vs) st g2"
    by auto
  have "steps g (render_values (gn_depth g) (gtop g = gen_array_start) (v # vs)) st g2"
    using steps_trans [OF v(2) e(3)] by simp
  with v(1) e(1,2) show ?case by auto
qed

text \<open>The text holds no NUL, so that the dump is the whole document.\<close>

lemma new_ok: "gen_ok igs_json_new" "gtop igs_json_new = gen_start" "gn_depth igs_json_new = 0"
  "printed igs_json_new = []"
  by (simp_all add: igs_json_new_def igsyajl_gen_alloc_def gen_ok_def gtop_def printed_def
      IGSYAJL_MAX_DEPTH_def)

lemma hexchar_no_nul: "n < 16 \<Longrightarrow> hexchar n \<noteq> CHR 0x00"
  using nth_mem [of n "''0123456789ABCDEF''"] by (auto simp: hexchar_def)

lemma escaped_no_nul: "escaped sol c = Some e \<Longrightarrow> CHR 0x00 \<notin> set e"
proof -
  have "of_char c div 16 < (16::nat)" if "(of_char c :: nat) < 32" using that by simp
  then have "CHR 0x00 \<notin> set (CharToHex c)" if "(of_char c :: nat) < 32"
    using that hexchar_no_nul [of "of_char c div 16"] hexchar_no_nul [of "of_char c mod 16"]
    unfolding CharToHex_def by (metis empty_iff empty_set mod_less_divisor set_ConsD zero_less_numeral)
  moreover assume "escaped sol c = Some e"
  ultimately show ?thesis by (simp add: escaped_def split: if_split_asm) (simp_all add: eq_commute)
qed

lemma enc_char_no_nul: "CHR 0x00 \<notin> set (enc_char sol c)"
proof (cases "escaped sol c")
  case None
  have "c \<noteq> CHR 0x00"
  proof
    assume "c = CHR 0x00"
    with None show False by (simp add: escaped_def)
  qed
  with None show ?thesis by (simp add: enc_char_def)
next
  case (Some e)
  then show ?thesis using escaped_no_nul by (simp add: enc_char_def)
qed

lemma quoted_no_nul: "no_nul (quoted s)"
  using enc_char_no_nul by (auto simp: no_nul_def quoted_def encode_concat)

lemma no_nul_strip: "no_nul s \<Longrightarrow> no_nul (strip_zeros s)"
  by (auto simp: no_nul_def strip_zeros_def dest: set_dropWhileD)

lemmas no_nul_parts = no_nul_take no_nul_drop no_nul_strip

lemma no_nul_with_fraction: "no_nul i \<Longrightarrow> no_nul f \<Longrightarrow> no_nul (with_fraction i f)"
  using no_nul_parts(3) [of f] by (auto simp: with_fraction_def Let_def)

lemma double_text_no_nul: "no_nul (double_text d)"
proof -
  have "no_nul (g20_text x (dec_nat q))" for x q
    by (simp add: g20_text_def no_nul_with_fraction no_nul_parts)
  then have "no_nul (fmt_g20 d)" unfolding fmt_g20_def Let_def by simp
  then show ?thesis by (simp add: double_text_def Let_def)
qed

lemma render_no_nul:
  "no_nul (render d t)" "no_nul (render_entries d b es)" "no_nul (render_values d b vs)"
proof -
  have lit: "no_nul newline" "no_nul (indent n)" for n
    by (auto simp: no_nul_def newline_def indent_def)
  show "no_nul (render d t)" "no_nul (render_entries d b es)" "no_nul (render_values d b vs)"
    by (induction d t and d b es and d b vs rule: render_render_entries_render_values.induct)
      (auto simp: lit string_text_def quoted_no_nul double_text_no_nul)
qed

text \<open>The dump of a tree is its text and a newline.\<close>

lemma node_dump_render:
  assumes "json_ok 0 t" shows "igs_json_node_dump t = Some (render 0 t @ newline)"
proof -
  obtain g where g: "s_json_node_iterate t igs_json_new = Some g"
    "steps igs_json_new (render 0 t @ newline) gen_complete g"
    using iterate_render(1) [OF new_ok(1), of t] assms
    by (auto simp: new_ok value_state_def atom_text_state appended_def indent_def)
  have "printed g = render 0 t @ newline" using stepsD(4) [OF g(2)] by (simp add: new_ok)
  then have "gn_buf g = Some (render 0 t @ newline)"
    by (simp add: printed_def newline_def split: option.splits)
  moreover have "takeWhile (\<lambda>c. c \<noteq> CHR 0x00) (render 0 t @ newline) = render 0 t @ newline"
    using render_no_nul(1) [of 0 t] by (auto simp: takeWhile_eq_all_conv no_nul_def newline_def)
  ultimately show ?thesis
    by (simp add: igs_json_node_dump_def g(1) igs_json_dump_def igsyajl_gen_get_buf_def)
qed

end
