(* ===== verification/Igs_Export.thy ===== *)
theory Igs_Export
  imports Igs_Types Igs_Json_Text
begin

text \<open>
  The JSON texts of a definition and of a mapping (the exporters of
  src/src/igs_parser.c, \<open>definition_update_json\<close> and \<open>mapping_update_json\<close>), as
  the sequence of calls on the generator the program makes, and the trees they
  are the texts of. \<open>None\<close> is a failed \<open>assert\<close>: a name of an ordered list that
  the table does not hold.
\<close>

section \<open>Pieces\<close>

definition s_value_type_to_string :: "igs_io_value_type \<Rightarrow> string" where
  "s_value_type_to_string t =
     (case t of IGS_INTEGER_T \<Rightarrow> ''INTEGER'' | IGS_DOUBLE_T \<Rightarrow> ''DOUBLE'' | IGS_STRING_T \<Rightarrow> ''STRING''
      | IGS_BOOL_T \<Rightarrow> ''BOOL'' | IGS_IMPULSION_T \<Rightarrow> ''IMPULSION'' | IGS_DATA_T \<Rightarrow> ''DATA''
      | IGS_UNKNOWN_T \<Rightarrow> ''UNKNOWN'')"

definition add_pair :: "string \<Rightarrow> string \<Rightarrow> igsyajl_gen \<Rightarrow> igsyajl_gen option" where
  "add_pair k v g = do { g \<leftarrow> igs_json_add_string (Some k) g; igs_json_add_string (Some v) g }"

definition add_opt :: "string \<Rightarrow> string option \<Rightarrow> igsyajl_gen \<Rightarrow> igsyajl_gen option" where
  "add_opt k v g = (case v of None \<Rightarrow> Some g | Some s \<Rightarrow> add_pair k s g)"

text \<open>\<open>snprintf\<close> into a buffer of \<open>IGS_MAX_CONSTRAINT_LENGTH\<close> bytes.\<close>

definition constraint_expression :: "igs_io_value_type \<Rightarrow> igs_constraint \<Rightarrow> string option" where
  "constraint_expression t c = map_option (take (IGS_MAX_CONSTRAINT_LENGTH - 1))
     (case ct_type c of
        IGS_CONSTRAINT_MIN \<Rightarrow>
          if t = IGS_INTEGER_T then Some (''min '' @ fmt_d (sint (ct_min_int c)))
          else if t = IGS_DOUBLE_T then Some (''min '' @ fmt_f (ct_min_double c)) else None
      | IGS_CONSTRAINT_MAX \<Rightarrow>
          if t = IGS_INTEGER_T then Some (''max '' @ fmt_d (sint (ct_max_int c)))
          else if t = IGS_DOUBLE_T then Some (''max '' @ fmt_f (ct_max_double c)) else None
      | IGS_CONSTRAINT_RANGE \<Rightarrow>
          if t = IGS_INTEGER_T then
            Some (''['' @ fmt_d (sint (ct_min_int c)) @ '', '' @ fmt_d (sint (ct_max_int c)) @ '']'')
          else if t = IGS_DOUBLE_T then
            Some (''['' @ fmt_f (ct_min_double c) @ '', '' @ fmt_f (ct_max_double c) @ '']'') else None
      | IGS_CONSTRAINT_REGEXP \<Rightarrow> Some (''~ '' @ ct_regexp c))"

definition io_constraint_text :: "igs_io \<Rightarrow> string option" where
  "io_constraint_text io = do { c \<leftarrow> io_constraint io; constraint_expression (io_value_type io) c }"

definition export_io :: "igs_io \<Rightarrow> igsyajl_gen \<Rightarrow> igsyajl_gen option" where
  "export_io io g =
     do { g \<leftarrow> igs_json_open_map g;
          g \<leftarrow> add_pair ''name'' (io_name io) g;
          g \<leftarrow> add_pair ''type'' (s_value_type_to_string (io_value_type io)) g;
          g \<leftarrow> add_opt ''constraint'' (io_constraint_text io) g;
          g \<leftarrow> add_opt ''description'' (io_description io) g;
          g \<leftarrow> add_opt ''detailed_type'' (io_detailed_type io) g;
          g \<leftarrow> add_opt ''specification'' (io_specification io) g;
          igs_json_close_map g }"

text \<open>The loop over the names of an ordered list.\<close>

fun export_each :: "('v \<Rightarrow> igsyajl_gen \<Rightarrow> igsyajl_gen option) \<Rightarrow> string list \<Rightarrow> (string, 'v) table
    \<Rightarrow> igsyajl_gen \<Rightarrow> igsyajl_gen option" where
  "export_each f [] t g = Some g"
| "export_each f (n # ns) t g =
     do { x \<leftarrow> zh_lookup t n; g \<leftarrow> f x g; export_each f ns t g }"

definition export_list :: "string \<Rightarrow> (igsyajl_gen \<Rightarrow> igsyajl_gen option) \<Rightarrow> igsyajl_gen \<Rightarrow> igsyajl_gen option" where
  "export_list key body g =
     do { g \<leftarrow> igs_json_add_string (Some key) g; g \<leftarrow> igs_json_open_array g;
          g \<leftarrow> body g; igs_json_close_array g }"

definition export_inputs :: "igs_definition \<Rightarrow> igsyajl_gen \<Rightarrow> igsyajl_gen option" where
  "export_inputs def = export_list ''inputs'' (export_each export_io (df_inputs_names def) (df_inputs def))"

definition export_outputs :: "igs_definition \<Rightarrow> igsyajl_gen \<Rightarrow> igsyajl_gen option" where
  "export_outputs def = export_list ''outputs'' (export_each export_io (df_outputs_names def) (df_outputs def))"

definition export_attributes :: "igs_definition \<Rightarrow> igsyajl_gen \<Rightarrow> igsyajl_gen option" where
  "export_attributes def =
     export_list ''attributes'' (export_each export_io (df_attributes_names def) (df_attributes def))"

text \<open>
  Arguments without a name are left out; \<open>descr\<close> tells whether the exporter
  writes their descriptions. The key is written only for a non-empty list.
\<close>

fun export_args :: "bool \<Rightarrow> igs_service_arg list \<Rightarrow> igsyajl_gen \<Rightarrow> igsyajl_gen option" where
  "export_args descr [] g = Some g"
| "export_args descr (a # as) g =
     (case sa_name a of
        None \<Rightarrow> export_args descr as g
      | Some n \<Rightarrow>
          do { g \<leftarrow> igs_json_open_map g;
               g \<leftarrow> add_pair ''name'' n g;
               g \<leftarrow> add_opt ''description'' (if descr then sa_description a else None) g;
               g \<leftarrow> add_pair ''type'' (s_value_type_to_string (sa_type a)) g;
               g \<leftarrow> igs_json_close_map g;
               export_args descr as g })"

definition export_arguments :: "bool \<Rightarrow> igs_service_arg list \<Rightarrow> igsyajl_gen \<Rightarrow> igsyajl_gen option" where
  "export_arguments descr as g =
     (if as = [] then Some g else export_list ''arguments'' (export_args descr as) g)"

definition export_reply :: "bool \<Rightarrow> igs_reply \<Rightarrow> igsyajl_gen \<Rightarrow> igsyajl_gen option" where
  "export_reply descr r g =
     do { g \<leftarrow> igs_json_open_map g;
          g \<leftarrow> add_pair ''name'' (rp_name r) g;
          g \<leftarrow> add_opt ''description'' (rp_description r) g;
          g \<leftarrow> export_arguments descr (rp_arguments r) g;
          igs_json_close_map g }"

definition export_service :: "bool \<Rightarrow> igs_service \<Rightarrow> igsyajl_gen \<Rightarrow> igsyajl_gen option" where
  "export_service descr s g =
     do { g \<leftarrow> igs_json_open_map g;
          g \<leftarrow> add_pair ''name'' (sv_name s) g;
          g \<leftarrow> add_opt ''description'' (sv_description s) g;
          g \<leftarrow> export_arguments descr (sv_arguments s) g;
          g \<leftarrow> export_list ''replies'' (export_each (export_reply descr) (sv_replies_names s) (sv_replies s)) g;
          igs_json_close_map g }"

definition export_services :: "igs_definition \<Rightarrow> igsyajl_gen \<Rightarrow> igsyajl_gen option" where
  "export_services def =
     export_list ''services'' (export_each (export_service True) (df_services_names def) (df_services def))"

section \<open>The exporters\<close>

definition parser_export_definition :: "igs_definition \<Rightarrow> string option" where
  "parser_export_definition def =
     do { g \<leftarrow> igs_json_open_map igs_json_new;
          g \<leftarrow> igs_json_add_string (Some ''definition'') g;
          g \<leftarrow> igs_json_open_map g;
          g \<leftarrow> add_opt ''name'' (df_name def) g;
          g \<leftarrow> add_opt ''class'' (df_my_class def) g;
          g \<leftarrow> add_opt ''package'' (df_package def) g;
          g \<leftarrow> add_opt ''family'' (df_family def) g;
          g \<leftarrow> add_opt ''description'' (df_description def) g;
          g \<leftarrow> add_opt ''version'' (df_version def) g;
          g \<leftarrow> export_inputs def g;
          g \<leftarrow> export_outputs def g;
          g \<leftarrow> export_attributes def g;
          g \<leftarrow> export_services def g;
          g \<leftarrow> igs_json_close_map g;
          g \<leftarrow> igs_json_close_map g;
          igs_json_dump g }"

text \<open>
  The legacy formats: version 4 calls attributes parameters and drops the
  descriptions of arguments; version 3 also calls services calls and keeps only
  the name and the type of an io. A reply the table does not hold is skipped by
  version 4.
\<close>

definition legacy_v4_inputs :: "igs_definition \<Rightarrow> igsyajl_gen \<Rightarrow> igsyajl_gen option" where
  "legacy_v4_inputs def = export_list ''inputs'' (export_each export_io (df_inputs_names def) (df_inputs def))"

definition legacy_v4_outputs :: "igs_definition \<Rightarrow> igsyajl_gen \<Rightarrow> igsyajl_gen option" where
  "legacy_v4_outputs def = export_list ''outputs'' (export_each export_io (df_outputs_names def) (df_outputs def))"

definition legacy_v4_attributes :: "igs_definition \<Rightarrow> igsyajl_gen \<Rightarrow> igsyajl_gen option" where
  "legacy_v4_attributes def =
     export_list ''parameters'' (export_each export_io (df_attributes_names def) (df_attributes def))"

fun legacy_v4_replies :: "string list \<Rightarrow> (string, igs_reply) table \<Rightarrow> igsyajl_gen \<Rightarrow> igsyajl_gen option" where
  "legacy_v4_replies [] t g = Some g"
| "legacy_v4_replies (n # ns) t g =
     (case zh_lookup t n of
        None \<Rightarrow> legacy_v4_replies ns t g
      | Some r \<Rightarrow> do { g \<leftarrow> export_reply False r g; legacy_v4_replies ns t g })"

definition legacy_v4_service :: "igs_service \<Rightarrow> igsyajl_gen \<Rightarrow> igsyajl_gen option" where
  "legacy_v4_service s g =
     do { g \<leftarrow> igs_json_open_map g;
          g \<leftarrow> add_pair ''name'' (sv_name s) g;
          g \<leftarrow> add_opt ''description'' (sv_description s) g;
          g \<leftarrow> export_arguments False (sv_arguments s) g;
          g \<leftarrow> export_list ''replies'' (legacy_v4_replies (sv_replies_names s) (sv_replies s)) g;
          igs_json_close_map g }"

definition legacy_v4_services :: "igs_definition \<Rightarrow> igsyajl_gen \<Rightarrow> igsyajl_gen option" where
  "legacy_v4_services def =
     export_list ''services'' (export_each legacy_v4_service (df_services_names def) (df_services def))"

definition parser_export_definition_legacy_v4 :: "igs_definition \<Rightarrow> string option" where
  "parser_export_definition_legacy_v4 def =
     do { g \<leftarrow> igs_json_open_map igs_json_new;
          g \<leftarrow> igs_json_add_string (Some ''definition'') g;
          g \<leftarrow> igs_json_open_map g;
          g \<leftarrow> add_opt ''name'' (df_name def) g;
          g \<leftarrow> add_opt ''class'' (df_my_class def) g;
          g \<leftarrow> add_opt ''package'' (df_package def) g;
          g \<leftarrow> add_opt ''family'' (df_family def) g;
          g \<leftarrow> add_opt ''description'' (df_description def) g;
          g \<leftarrow> add_opt ''version'' (df_version def) g;
          g \<leftarrow> legacy_v4_inputs def g;
          g \<leftarrow> legacy_v4_outputs def g;
          g \<leftarrow> legacy_v4_attributes def g;
          g \<leftarrow> legacy_v4_services def g;
          g \<leftarrow> igs_json_close_map g;
          g \<leftarrow> igs_json_close_map g;
          igs_json_dump g }"

definition legacy_v3_io :: "igs_io \<Rightarrow> igsyajl_gen \<Rightarrow> igsyajl_gen option" where
  "legacy_v3_io io g =
     do { g \<leftarrow> igs_json_open_map g;
          g \<leftarrow> add_pair ''name'' (io_name io) g;
          g \<leftarrow> add_pair ''type'' (s_value_type_to_string (io_value_type io)) g;
          igs_json_close_map g }"

definition legacy_v3_services :: "igs_definition \<Rightarrow> igsyajl_gen \<Rightarrow> igsyajl_gen option" where
  "legacy_v3_services def =
     export_list ''calls'' (export_each (export_service False) (df_services_names def) (df_services def))"

definition parser_export_definition_legacy_v3 :: "igs_definition \<Rightarrow> string option" where
  "parser_export_definition_legacy_v3 def =
     do { g \<leftarrow> igs_json_open_map igs_json_new;
          g \<leftarrow> igs_json_add_string (Some ''definition'') g;
          g \<leftarrow> igs_json_open_map g;
          g \<leftarrow> add_opt ''name'' (df_name def) g;
          g \<leftarrow> add_opt ''family'' (df_family def) g;
          g \<leftarrow> add_opt ''description'' (df_description def) g;
          g \<leftarrow> add_opt ''version'' (df_version def) g;
          g \<leftarrow> export_list ''inputs'' (export_each legacy_v3_io (df_inputs_names def) (df_inputs def)) g;
          g \<leftarrow> export_list ''outputs'' (export_each legacy_v3_io (df_outputs_names def) (df_outputs def)) g;
          g \<leftarrow> export_list ''parameters'' (export_each legacy_v3_io (df_attributes_names def) (df_attributes def)) g;
          g \<leftarrow> legacy_v3_services def g;
          g \<leftarrow> igs_json_close_map g;
          g \<leftarrow> igs_json_close_map g;
          igs_json_dump g }"

definition definition_update_json :: "igs_definition \<Rightarrow> igs_definition option" where
  "definition_update_json def =
     do { j \<leftarrow> parser_export_definition def;
          j3 \<leftarrow> parser_export_definition_legacy_v3 def;
          j4 \<leftarrow> parser_export_definition_legacy_v4 def;
          Some (def\<lparr> df_json := Some j, df_json_legacy_v3 := Some j3, df_json_legacy_v4 := Some j4 \<rparr>) }"

section \<open>Mappings\<close>

fun export_maps :: "string \<Rightarrow> string \<Rightarrow> string \<Rightarrow> igs_map list \<Rightarrow> igsyajl_gen \<Rightarrow> igsyajl_gen option" where
  "export_maps ki ka ko [] g = Some g"
| "export_maps ki ka ko (e # es) g =
     do { g \<leftarrow> igs_json_open_map g;
          g \<leftarrow> add_pair ki (mp_from_input e) g;
          g \<leftarrow> add_pair ka (mp_to_agent e) g;
          g \<leftarrow> add_pair ko (mp_to_output e) g;
          g \<leftarrow> igs_json_close_map g;
          export_maps ki ka ko es g }"

fun export_splits :: "igs_split list \<Rightarrow> igsyajl_gen \<Rightarrow> igsyajl_gen option" where
  "export_splits [] g = Some g"
| "export_splits (e # es) g =
     do { g \<leftarrow> igs_json_open_map g;
          g \<leftarrow> add_pair ''fromInput'' (sp_from_input e) g;
          g \<leftarrow> add_pair ''toAgent'' (sp_to_agent e) g;
          g \<leftarrow> add_pair ''toOutput'' (sp_to_output e) g;
          g \<leftarrow> igs_json_close_map g;
          export_splits es g }"

definition parser_export_mapping :: "igs_mapping \<Rightarrow> string option" where
  "parser_export_mapping m =
     do { g \<leftarrow> igs_json_open_map igs_json_new;
          g \<leftarrow> export_list ''mappings'' (export_maps ''fromInput'' ''toAgent'' ''toOutput'' (mg_map_elements m)) g;
          g \<leftarrow> export_list ''splits'' (export_splits (mg_split_elements m)) g;
          g \<leftarrow> igs_json_close_map g;
          igs_json_dump g }"

definition parser_export_mapping_legacy :: "igs_mapping \<Rightarrow> string option" where
  "parser_export_mapping_legacy m =
     do { g \<leftarrow> igs_json_open_map igs_json_new;
          g \<leftarrow> igs_json_add_string (Some ''mapping'') g;
          g \<leftarrow> igs_json_open_map g;
          g \<leftarrow> export_list ''mapping_out''
                 (export_maps ''input_name'' ''agent_name'' ''output_name'' (mg_map_elements m)) g;
          g \<leftarrow> igs_json_close_map g;
          g \<leftarrow> igs_json_close_map g;
          igs_json_dump g }"

definition mapping_update_json :: "igs_mapping \<Rightarrow> igs_mapping option" where
  "mapping_update_json m =
     do { j \<leftarrow> parser_export_mapping m;
          l \<leftarrow> parser_export_mapping_legacy m;
          Some (m\<lparr> mg_json := Some j, mg_json_legacy := Some l \<rparr>) }"

end
