(* ===== verification/Igs_Export_Trees.thy ===== *)
theory Igs_Export_Trees
  imports Igs_Export
begin

text \<open>
  What the exporters print: each is the dump of a JSON tree that is a function
  of the definition, respectively of the mapping. With \<open>node_dump_render\<close> this
  fixes the text byte by byte, and it makes \<open>definition_update_json\<close> total on
  every definition whose ordered lists name entries of their tables.
\<close>

section \<open>Trees\<close>

definition str_entry :: "string \<Rightarrow> string \<Rightarrow> string \<times> igs_json_node" where
  "str_entry k s = (k, JString s)"

definition opt_entry :: "string \<Rightarrow> string option \<Rightarrow> (string \<times> igs_json_node) list" where
  "opt_entry k v = (case v of None \<Rightarrow> [] | Some s \<Rightarrow> [str_entry k s])"

definition listed :: "string list \<Rightarrow> (string, 'v) table \<Rightarrow> 'v list" where
  "listed names t = map (\<lambda>n. the (zh_lookup t n)) names"

definition io_tree :: "igs_io \<Rightarrow> igs_json_node" where
  "io_tree io = JMap ([str_entry ''name'' (io_name io), str_entry ''type'' (s_value_type_to_string (io_value_type io))]
     @ opt_entry ''constraint'' (io_constraint_text io) @ opt_entry ''description'' (io_description io)
     @ opt_entry ''detailed_type'' (io_detailed_type io) @ opt_entry ''specification'' (io_specification io))"

definition arg_tree :: "bool \<Rightarrow> igs_service_arg \<Rightarrow> igs_json_node" where
  "arg_tree descr a = JMap (str_entry ''name'' (the (sa_name a))
     # opt_entry ''description'' (if descr then sa_description a else None)
     @ [str_entry ''type'' (s_value_type_to_string (sa_type a))])"

definition args_entry :: "bool \<Rightarrow> igs_service_arg list \<Rightarrow> (string \<times> igs_json_node) list" where
  "args_entry descr as = (if as = [] then []
     else [(''arguments'', JArray (map (arg_tree descr) (filter (\<lambda>a. sa_name a \<noteq> None) as)))])"

definition reply_tree :: "bool \<Rightarrow> igs_reply \<Rightarrow> igs_json_node" where
  "reply_tree descr r = JMap (str_entry ''name'' (rp_name r) # opt_entry ''description'' (rp_description r)
     @ args_entry descr (rp_arguments r))"

definition service_tree :: "bool \<Rightarrow> igs_service \<Rightarrow> igs_json_node" where
  "service_tree descr s = JMap (str_entry ''name'' (sv_name s) # opt_entry ''description'' (sv_description s)
     @ args_entry descr (sv_arguments s)
     @ [(''replies'', JArray (map (reply_tree descr) (listed (sv_replies_names s) (sv_replies s))))])"

definition definition_tree :: "igs_definition \<Rightarrow> igs_json_node" where
  "definition_tree def = JMap [(''definition'', JMap (
     opt_entry ''name'' (df_name def) @ opt_entry ''class'' (df_my_class def)
     @ opt_entry ''package'' (df_package def) @ opt_entry ''family'' (df_family def)
     @ opt_entry ''description'' (df_description def) @ opt_entry ''version'' (df_version def)
     @ [(''inputs'', JArray (map io_tree (listed (df_inputs_names def) (df_inputs def)))),
        (''outputs'', JArray (map io_tree (listed (df_outputs_names def) (df_outputs def)))),
        (''attributes'', JArray (map io_tree (listed (df_attributes_names def) (df_attributes def)))),
        (''services'', JArray (map (service_tree True) (listed (df_services_names def) (df_services def))))]))]"

definition legacy_v4_tree :: "igs_definition \<Rightarrow> igs_json_node" where
  "legacy_v4_tree def = JMap [(''definition'', JMap (
     opt_entry ''name'' (df_name def) @ opt_entry ''class'' (df_my_class def)
     @ opt_entry ''package'' (df_package def) @ opt_entry ''family'' (df_family def)
     @ opt_entry ''description'' (df_description def) @ opt_entry ''version'' (df_version def)
     @ [(''inputs'', JArray (map io_tree (listed (df_inputs_names def) (df_inputs def)))),
        (''outputs'', JArray (map io_tree (listed (df_outputs_names def) (df_outputs def)))),
        (''parameters'', JArray (map io_tree (listed (df_attributes_names def) (df_attributes def)))),
        (''services'', JArray (map (service_tree False) (listed (df_services_names def) (df_services def))))]))]"

definition v3_io_tree :: "igs_io \<Rightarrow> igs_json_node" where
  "v3_io_tree io =
     JMap [str_entry ''name'' (io_name io), str_entry ''type'' (s_value_type_to_string (io_value_type io))]"

definition legacy_v3_tree :: "igs_definition \<Rightarrow> igs_json_node" where
  "legacy_v3_tree def = JMap [(''definition'', JMap (
     opt_entry ''name'' (df_name def) @ opt_entry ''family'' (df_family def)
     @ opt_entry ''description'' (df_description def) @ opt_entry ''version'' (df_version def)
     @ [(''inputs'', JArray (map v3_io_tree (listed (df_inputs_names def) (df_inputs def)))),
        (''outputs'', JArray (map v3_io_tree (listed (df_outputs_names def) (df_outputs def)))),
        (''parameters'', JArray (map v3_io_tree (listed (df_attributes_names def) (df_attributes def)))),
        (''calls'', JArray (map (service_tree False) (listed (df_services_names def) (df_services def))))]))]"

definition entry_tree :: "string \<Rightarrow> string \<Rightarrow> string \<Rightarrow> string \<Rightarrow> string \<Rightarrow> string \<Rightarrow> igs_json_node" where
  "entry_tree ki ka ko i a out = JMap [str_entry ki i, str_entry ka a, str_entry ko out]"

definition map_tree :: "igs_map \<Rightarrow> igs_json_node" where
  "map_tree e = entry_tree ''fromInput'' ''toAgent'' ''toOutput'' (mp_from_input e) (mp_to_agent e) (mp_to_output e)"

definition split_tree :: "igs_split \<Rightarrow> igs_json_node" where
  "split_tree e = entry_tree ''fromInput'' ''toAgent'' ''toOutput'' (sp_from_input e) (sp_to_agent e) (sp_to_output e)"

definition mapping_tree :: "igs_mapping \<Rightarrow> igs_json_node" where
  "mapping_tree m = JMap [(''mappings'', JArray (map map_tree (mg_map_elements m))),
     (''splits'', JArray (map split_tree (mg_split_elements m)))]"

definition legacy_mapping_tree :: "igs_mapping \<Rightarrow> igs_json_node" where
  "legacy_mapping_tree m = JMap [(''mapping'', JMap [(''mapping_out'', JArray (map (\<lambda>e.
     entry_tree ''input_name'' ''agent_name'' ''output_name'' (mp_from_input e) (mp_to_agent e) (mp_to_output e))
     (mg_map_elements m)))])]"

section \<open>The exporters iterate over the trees\<close>

lemma bind_Some_id [simp]: "m \<bind> (\<lambda>x. Some x) = m" "m \<bind> Some = m"
  by (cases m; simp)+

lemma iterate_Nil [simp]: "s_json_iterate_entries [] = Some" "s_json_iterate_values [] = Some"
  by (rule ext, simp)+

lemma iterate_entries_append:
  "s_json_iterate_entries (a @ b) g = s_json_iterate_entries a g \<bind> s_json_iterate_entries b"
  by (induction a arbitrary: g) (auto intro!: bind_option_cong)

lemma iterate_str_entry:
  "s_json_iterate_entries (str_entry k s # es) g = add_pair k s g \<bind> s_json_iterate_entries es"
  by (simp add: str_entry_def add_pair_def)

lemma iterate_opt_entry: "s_json_iterate_entries (opt_entry k v) g = add_opt k v g"
  by (simp add: opt_entry_def add_opt_def iterate_str_entry split: option.split)

text \<open>As equations between functions, they also rewrite below a bind.\<close>

lemma iterate_simps:
  "s_json_iterate_entries (a @ b) = (\<lambda>g. s_json_iterate_entries a g \<bind> s_json_iterate_entries b)"
  "s_json_iterate_entries (str_entry k s # es) = (\<lambda>g. add_pair k s g \<bind> s_json_iterate_entries es)"
  "s_json_iterate_entries (opt_entry k v) = add_opt k v"
  by (rule ext, simp add: iterate_entries_append iterate_str_entry iterate_opt_entry)+

lemma export_io_tree: "export_io io = s_json_node_iterate (io_tree io)"
  by (rule ext) (simp add: export_io_def io_tree_def iterate_simps)

lemma legacy_v3_io_tree: "legacy_v3_io io = s_json_node_iterate (v3_io_tree io)"
  by (rule ext) (simp add: legacy_v3_io_def v3_io_tree_def iterate_simps)

definition names_in :: "string list \<Rightarrow> (string, 'v) table \<Rightarrow> bool" where
  "names_in names t \<longleftrightarrow> (\<forall>n \<in> set names. zh_lookup t n \<noteq> None)"

lemma export_each_tree:
  assumes "names_in names t" and "\<forall>n \<in> set names. \<forall>x. zh_lookup t n = Some x \<longrightarrow> f x = s_json_node_iterate (tr x)"
  shows "export_each f names t g = s_json_iterate_values (map tr (listed names t)) g"
  using assms by (induction names arbitrary: g) (auto simp: names_in_def listed_def intro!: bind_option_cong)

lemma export_list_tree:
  "(\<And>g. body g = s_json_iterate_values vs g) \<Longrightarrow>
     export_list k body g = s_json_iterate_entries [(k, JArray vs)] g"
  by (simp add: export_list_def)

lemma export_args_tree:
  "export_args descr as = s_json_iterate_values (map (arg_tree descr) (filter (\<lambda>a. sa_name a \<noteq> None) as))"
proof (induction as)
  case Nil
  show ?case by (rule ext) simp
next
  case (Cons a as)
  show ?case
  proof (rule ext, cases "sa_name a")
    fix g n assume n: "sa_name a = Some n"
    have "s_json_node_iterate (arg_tree descr a) g = do { g \<leftarrow> igs_json_open_map g; g \<leftarrow> add_pair ''name'' n g;
        g \<leftarrow> add_opt ''description'' (if descr then sa_description a else None) g;
        g \<leftarrow> add_pair ''type'' (s_value_type_to_string (sa_type a)) g; igs_json_close_map g }"
      by (simp add: arg_tree_def iterate_simps n)
    then show "export_args descr (a # as) g
        = s_json_iterate_values (map (arg_tree descr) (filter (\<lambda>a. sa_name a \<noteq> None) (a # as))) g"
      by (simp add: n Cons.IH)
  qed (simp add: Cons.IH)
qed

lemma export_arguments_tree: "export_arguments descr as g = s_json_iterate_entries (args_entry descr as) g"
  by (simp add: export_arguments_def args_entry_def export_args_tree export_list_tree)

lemma export_reply_tree: "export_reply descr r = s_json_node_iterate (reply_tree descr r)"
  by (rule ext)
    (simp add: export_reply_def reply_tree_def iterate_simps export_arguments_tree)

lemma export_service_tree:
  assumes "names_in (sv_replies_names s) (sv_replies s)"
  shows "export_service descr s = s_json_node_iterate (service_tree descr s)"
proof -
  have "export_list ''replies'' (export_each (export_reply descr) (sv_replies_names s) (sv_replies s)) g
      = s_json_iterate_entries [(''replies'', JArray (map (reply_tree descr) (listed (sv_replies_names s) (sv_replies s))))] g" for g
    by (rule export_list_tree, rule export_each_tree [OF assms]) (simp add: export_reply_tree)
  then show ?thesis
    by (intro ext) (simp add: export_service_def service_tree_def iterate_simps export_arguments_tree
        del: s_json_iterate_entries.simps)
qed

lemma legacy_v4_replies_same:
  "names_in names t \<Longrightarrow> legacy_v4_replies names t g = export_each (export_reply False) names t g"
  by (induction names arbitrary: g) (auto simp: names_in_def intro!: bind_option_cong)

lemma legacy_v4_service_tree:
  assumes "names_in (sv_replies_names s) (sv_replies s)"
  shows "legacy_v4_service s = s_json_node_iterate (service_tree False s)"
  unfolding export_service_tree [OF assms, symmetric]
  by (rule ext) (simp add: legacy_v4_service_def export_service_def export_list_def
      legacy_v4_replies_same [OF assms])

section \<open>The documents\<close>

text \<open>Every name of an ordered list has its entry, also in the replies of the services.\<close>

definition definition_names_in :: "igs_definition \<Rightarrow> bool" where
  "definition_names_in def \<longleftrightarrow>
     names_in (df_inputs_names def) (df_inputs def) \<and> names_in (df_outputs_names def) (df_outputs def)
     \<and> names_in (df_attributes_names def) (df_attributes def) \<and> names_in (df_services_names def) (df_services def)
     \<and> (\<forall>n \<in> set (df_services_names def). \<forall>s. zh_lookup (df_services def) n = Some s \<longrightarrow>
          names_in (sv_replies_names s) (sv_replies s))"

lemma ios_tree:
  "names_in ns t \<Longrightarrow> export_list k (export_each export_io ns t) g
     = s_json_iterate_entries [(k, JArray (map io_tree (listed ns t)))] g"
  by (rule export_list_tree, rule export_each_tree) (simp_all add: export_io_tree)

lemma v3_ios_tree:
  "names_in ns t \<Longrightarrow> export_list k (export_each legacy_v3_io ns t) g
     = s_json_iterate_entries [(k, JArray (map v3_io_tree (listed ns t)))] g"
  by (rule export_list_tree, rule export_each_tree) (simp_all add: legacy_v3_io_tree)

lemma services_tree:
  assumes "names_in ns t" and "\<forall>n \<in> set ns. \<forall>s. zh_lookup t n = Some s \<longrightarrow> names_in (sv_replies_names s) (sv_replies s)"
  shows "export_list k (export_each (export_service descr) ns t) g
      = s_json_iterate_entries [(k, JArray (map (service_tree descr) (listed ns t)))] g"
    and "export_list k (export_each legacy_v4_service ns t) g
      = s_json_iterate_entries [(k, JArray (map (service_tree False) (listed ns t)))] g"
  using assms
  by (auto intro!: export_list_tree export_each_tree simp: export_service_tree legacy_v4_service_tree
      simp del: s_json_iterate_entries.simps)

lemma export_definition_tree:
  assumes "definition_names_in def"
  shows "parser_export_definition def = igs_json_node_dump (definition_tree def)"
    and "parser_export_definition_legacy_v4 def = igs_json_node_dump (legacy_v4_tree def)"
    and "parser_export_definition_legacy_v3 def = igs_json_node_dump (legacy_v3_tree def)"
proof -
  note [simp] = ios_tree v3_ios_tree services_tree
  have a: "names_in (df_inputs_names def) (df_inputs def)" "names_in (df_outputs_names def) (df_outputs def)"
    "names_in (df_attributes_names def) (df_attributes def)" "names_in (df_services_names def) (df_services def)"
    "\<forall>n \<in> set (df_services_names def). \<forall>s. zh_lookup (df_services def) n = Some s \<longrightarrow>
       names_in (sv_replies_names s) (sv_replies s)"
    using assms by (simp_all add: definition_names_in_def)
  show "parser_export_definition def = igs_json_node_dump (definition_tree def)"
    by (simp add: parser_export_definition_def definition_tree_def igs_json_node_dump_def iterate_simps a
        export_inputs_def export_outputs_def export_attributes_def export_services_def)
  show "parser_export_definition_legacy_v4 def = igs_json_node_dump (legacy_v4_tree def)"
    by (simp add: parser_export_definition_legacy_v4_def legacy_v4_tree_def igs_json_node_dump_def iterate_simps a
        legacy_v4_inputs_def legacy_v4_outputs_def legacy_v4_attributes_def legacy_v4_services_def)
  show "parser_export_definition_legacy_v3 def = igs_json_node_dump (legacy_v3_tree def)"
    by (simp add: parser_export_definition_legacy_v3_def legacy_v3_tree_def igs_json_node_dump_def iterate_simps a
        legacy_v3_services_def)
qed

text \<open>The trees are printable: constant keys, strings only, a few levels deep.\<close>

lemma values_ok_map: "(\<And>x. json_ok d (f x)) \<Longrightarrow> values_ok d (map f xs)"
  by (induction xs) auto

lemma entries_ok_append: "entries_ok d (a @ b) \<longleftrightarrow> entries_ok d a \<and> entries_ok d b"
  by (induction a) auto

lemma utf8_keys [simp]:
  "igsyajl_string_validate_utf8 ''name''" "igsyajl_string_validate_utf8 ''type''"
  "igsyajl_string_validate_utf8 ''constraint''" "igsyajl_string_validate_utf8 ''description''"
  "igsyajl_string_validate_utf8 ''detailed_type''" "igsyajl_string_validate_utf8 ''specification''"
  "igsyajl_string_validate_utf8 ''class''" "igsyajl_string_validate_utf8 ''package''"
  "igsyajl_string_validate_utf8 ''family''" "igsyajl_string_validate_utf8 ''version''"
  "igsyajl_string_validate_utf8 ''inputs''" "igsyajl_string_validate_utf8 ''outputs''"
  "igsyajl_string_validate_utf8 ''attributes''" "igsyajl_string_validate_utf8 ''parameters''"
  "igsyajl_string_validate_utf8 ''services''" "igsyajl_string_validate_utf8 ''calls''"
  "igsyajl_string_validate_utf8 ''arguments''" "igsyajl_string_validate_utf8 ''replies''"
  "igsyajl_string_validate_utf8 ''definition''" "igsyajl_string_validate_utf8 ''mappings''"
  "igsyajl_string_validate_utf8 ''splits''" "igsyajl_string_validate_utf8 ''fromInput''"
  "igsyajl_string_validate_utf8 ''toAgent''" "igsyajl_string_validate_utf8 ''toOutput''"
  "igsyajl_string_validate_utf8 ''mapping''" "igsyajl_string_validate_utf8 ''mapping_out''"
  "igsyajl_string_validate_utf8 ''input_name''" "igsyajl_string_validate_utf8 ''agent_name''"
  "igsyajl_string_validate_utf8 ''output_name''"
  by (simp_all add: lead_len_def)

declare igsyajl_string_validate_utf8.simps(2) [simp del]

lemma opt_entry_ok: "igsyajl_string_validate_utf8 k \<Longrightarrow> entries_ok d (opt_entry k v)"
  by (simp add: opt_entry_def str_entry_def split: option.split)

lemmas tree_ok_simps = entries_ok_append opt_entry_ok str_entry_def IGSYAJL_MAX_DEPTH_def

lemma io_tree_ok: "d < 100 \<Longrightarrow> json_ok d (io_tree io)" "d < 100 \<Longrightarrow> json_ok d (v3_io_tree io)"
  by (simp_all add: io_tree_def v3_io_tree_def tree_ok_simps)

lemma args_entry_ok: "d < 100 \<Longrightarrow> entries_ok d (args_entry descr as)"
  by (auto simp: args_entry_def arg_tree_def tree_ok_simps intro!: values_ok_map)

lemma service_tree_ok: "d < 90 \<Longrightarrow> json_ok d (service_tree descr s)"
  by (auto simp: service_tree_def reply_tree_def tree_ok_simps args_entry_ok intro!: values_ok_map)

lemma definition_trees_ok:
  "json_ok 0 (definition_tree def)" "json_ok 0 (legacy_v4_tree def)" "json_ok 0 (legacy_v3_tree def)"
  by (auto simp: definition_tree_def legacy_v4_tree_def legacy_v3_tree_def tree_ok_simps
      intro!: values_ok_map io_tree_ok service_tree_ok)

lemma mapping_trees_ok: "json_ok 0 (mapping_tree m)" "json_ok 0 (legacy_mapping_tree m)"
  by (auto simp: mapping_tree_def legacy_mapping_tree_def map_tree_def split_tree_def entry_tree_def tree_ok_simps
      intro!: values_ok_map)

lemma export_maps_tree:
  "export_maps ki ka ko es = s_json_iterate_values (map (\<lambda>e.
     entry_tree ki ka ko (mp_from_input e) (mp_to_agent e) (mp_to_output e)) es)"
  by (induction es) (rule ext, simp add: entry_tree_def iterate_simps)+

lemma export_splits_tree: "export_splits es = s_json_iterate_values (map split_tree es)"
  by (induction es) (rule ext, simp add: split_tree_def entry_tree_def iterate_simps)+

lemma export_mapping_tree:
  "parser_export_mapping m = igs_json_node_dump (mapping_tree m)"
  "parser_export_mapping_legacy m = igs_json_node_dump (legacy_mapping_tree m)"
  by (simp_all add: parser_export_mapping_def parser_export_mapping_legacy_def mapping_tree_def
      legacy_mapping_tree_def igs_json_node_dump_def export_list_def export_maps_tree export_splits_tree
      map_tree_def [abs_def])

text \<open>The text of a definition and of a mapping, and that the updates always succeed.\<close>

definition definition_text :: "igs_definition \<Rightarrow> string" where
  "definition_text def = render 0 (definition_tree def) @ newline"

definition mapping_text :: "igs_mapping \<Rightarrow> string" where
  "mapping_text m = render 0 (mapping_tree m) @ newline"

lemma definition_update_json_result:
  assumes "definition_names_in def"
  shows "definition_update_json def = Some (def\<lparr> df_json := Some (definition_text def),
     df_json_legacy_v3 := Some (render 0 (legacy_v3_tree def) @ newline),
     df_json_legacy_v4 := Some (render 0 (legacy_v4_tree def) @ newline) \<rparr>)"
  using assms by (simp add: definition_update_json_def export_definition_tree node_dump_render
      definition_trees_ok definition_text_def)

lemma mapping_update_json_result:
  "mapping_update_json m = Some (m\<lparr> mg_json := Some (mapping_text m),
     mg_json_legacy := Some (render 0 (legacy_mapping_tree m) @ newline) \<rparr>)"
  by (simp add: mapping_update_json_def export_mapping_tree node_dump_render mapping_trees_ok mapping_text_def)

text \<open>The texts do not depend on the texts kept before.\<close>

lemma trees_ignore_json [simp]:
  "definition_tree (def\<lparr> df_json := a, df_json_legacy_v3 := b, df_json_legacy_v4 := c \<rparr>) = definition_tree def"
  "mapping_tree (m\<lparr> mg_json := a, mg_json_legacy := b \<rparr>) = mapping_tree m"
  by (simp_all add: definition_tree_def mapping_tree_def)

end
