(* ===== verification/Igs_Model.thy ===== *)
theory Igs_Model
  imports Igs_Io Igs_Export_Trees
begin

text \<open>
  The model of one agent (the internal functions of src/src/igs_model.c): finding
  an input, output or attribute by its name, writing and reading its value, its
  constraint, description and detailed type, and the lists of names. The
  functions take the agent the caller has locked and return it as they leave it;
  a pointer to an io is the key it is stored under.
\<close>

section \<open>Tables of a definition\<close>

definition io_names :: "igs_io_type \<Rightarrow> igs_definition \<Rightarrow> string list" where
  "io_names t d = (case t of IGS_INPUT_T \<Rightarrow> df_inputs_names d | IGS_OUTPUT_T \<Rightarrow> df_outputs_names d
     | IGS_ATTRIBUTE_T \<Rightarrow> df_attributes_names d)"

definition io_table :: "igs_io_type \<Rightarrow> igs_definition \<Rightarrow> (string, igs_io) table" where
  "io_table t d = (case t of IGS_INPUT_T \<Rightarrow> df_inputs d | IGS_OUTPUT_T \<Rightarrow> df_outputs d
     | IGS_ATTRIBUTE_T \<Rightarrow> df_attributes d)"

definition set_ios :: "igs_io_type \<Rightarrow> string list \<Rightarrow> (string, igs_io) table \<Rightarrow> igs_definition \<Rightarrow> igs_definition" where
  "set_ios t ns tb d =
     (case t of IGS_INPUT_T \<Rightarrow> d\<lparr> df_inputs_names := ns, df_inputs := tb \<rparr>
      | IGS_OUTPUT_T \<Rightarrow> d\<lparr> df_outputs_names := ns, df_outputs := tb \<rparr>
      | IGS_ATTRIBUTE_T \<Rightarrow> d\<lparr> df_attributes_names := ns, df_attributes := tb \<rparr>)"

definition model_find_io_by_name :: "igs_agent \<Rightarrow> string \<Rightarrow> igs_io_type \<Rightarrow> igs_io option" where
  "model_find_io_by_name a name t =
     (case ag_definition a of None \<Rightarrow> None | Some d \<Rightarrow> zh_lookup (io_table t d) name)"

text \<open>A write through the pointer to an io.\<close>

definition put_io :: "igs_io_type \<Rightarrow> string \<Rightarrow> (igs_io \<Rightarrow> igs_io) \<Rightarrow> igs_definition \<Rightarrow> igs_definition" where
  "put_io t name f d = set_ios t (io_names t d) (zh_update name f (io_table t d)) d"

definition on_io :: "igs_io_type \<Rightarrow> string \<Rightarrow> (igs_io \<Rightarrow> igs_io) \<Rightarrow> igs_agent \<Rightarrow> igs_agent" where
  "on_io t name f a = a\<lparr> ag_definition := map_option (put_io t name f) (ag_definition a) \<rparr>"

section \<open>Values\<close>

text \<open>The result is whether the io was found and the write accepted.\<close>

definition model_write ::
    "igs_env \<Rightarrow> igs_agent \<Rightarrow> string \<Rightarrow> igs_io_type \<Rightarrow> igs_io_value_type \<Rightarrow> string option \<Rightarrow> nat
     \<Rightarrow> (bool \<times> igs_agent) option" where
  "model_write env a name t value_type value sz =
     (case model_find_io_by_name a name t of
        None \<Rightarrow> Some (False, a)
      | Some io \<Rightarrow>
          do { (ok, io') \<leftarrow> write_io env (ag_enforce_constraints a) value_type value sz io;
               Some (ok, on_io t name (\<lambda>_. io') a) })"

definition s_model_clear_io :: "igs_agent \<Rightarrow> string \<Rightarrow> igs_io_type \<Rightarrow> igs_agent" where
  "s_model_clear_io a name t =
     (case model_find_io_by_name a name t of None \<Rightarrow> a | Some io \<Rightarrow> on_io t name clear_io a)"

text \<open>The out-parameters of a read that fails before it sets them are \<open>None\<close>.\<close>

definition s_read_io ::
    "igs_agent \<Rightarrow> string \<Rightarrow> igs_io_type \<Rightarrow> (igs_result \<times> (string option \<times> nat) option) option" where
  "s_read_io a name t =
     (case model_find_io_by_name a name t of
        None \<Rightarrow> Some (IGS_FAILURE, None)
      | Some io \<Rightarrow> do { r \<leftarrow> read_buffer io; Some (IGS_SUCCESS, Some r) })"

definition s_model_read_io_as_bool :: "igs_agent \<Rightarrow> string \<Rightarrow> igs_io_type \<Rightarrow> bool option" where
  "s_model_read_io_as_bool a name t =
     (case model_find_io_by_name a name t of None \<Rightarrow> Some False | Some io \<Rightarrow> read_bool io)"

definition s_model_read_io_as_int :: "igs_agent \<Rightarrow> string \<Rightarrow> igs_io_type \<Rightarrow> i32 option" where
  "s_model_read_io_as_int a name t =
     (case model_find_io_by_name a name t of None \<Rightarrow> Some 0 | Some io \<Rightarrow> read_int io)"

definition s_model_read_io_as_double :: "igs_agent \<Rightarrow> string \<Rightarrow> igs_io_type \<Rightarrow> f64 option" where
  "s_model_read_io_as_double a name t =
     (case model_find_io_by_name a name t of None \<Rightarrow> Some 0 | Some io \<Rightarrow> read_double io)"

definition s_model_read_io_as_string :: "igs_agent \<Rightarrow> string \<Rightarrow> igs_io_type \<Rightarrow> string option option" where
  "s_model_read_io_as_string a name t =
     (case model_find_io_by_name a name t of None \<Rightarrow> Some None | Some io \<Rightarrow> read_string io)"

definition s_model_read_io_as_data ::
    "igs_agent \<Rightarrow> string \<Rightarrow> igs_io_type \<Rightarrow> (igs_result \<times> string option \<times> nat) option" where
  "s_model_read_io_as_data a name t =
     (case model_find_io_by_name a name t of
        None \<Rightarrow> Some (IGS_FAILURE, None, 0)
      | Some io \<Rightarrow> do { r \<leftarrow> read_data io; Some (IGS_SUCCESS, r) })"

section \<open>Constraints, descriptions and types\<close>

definition need_definition_update :: "igs_agent \<Rightarrow> igs_agent" where
  "need_definition_update a = a\<lparr> ag_need_definition_update := True \<rparr>"

text \<open>\<open>definition_update_json(self->definition)\<close> and the flag that goes with it.\<close>

definition definition_changed :: "igs_agent \<Rightarrow> igs_agent option" where
  "definition_changed a =
     do { d \<leftarrow> ag_definition a; d \<leftarrow> definition_update_json d;
          Some (need_definition_update (a\<lparr> ag_definition := Some d \<rparr>)) }"

text \<open>\<open>s_strndup\<close> of a string of the application.\<close>

definition strndup_str :: "string \<Rightarrow> nat \<Rightarrow> string option" where
  "strndup_str s n = do { b \<leftarrow> s_strndup (wr_cstr s) n; rd_cstr b }"

lemma strndup_str_take [simp]: "no_nul s \<Longrightarrow> strndup_str s n = Some (take n s)"
  by (simp add: strndup_str_def no_nul_take)

definition s_model_add_constraint ::
    "igs_env \<Rightarrow> igs_agent \<Rightarrow> igs_io_type \<Rightarrow> string \<Rightarrow> string \<Rightarrow> (igs_result \<times> igs_agent) option" where
  "s_model_add_constraint env a t name constraint =
     do { d \<leftarrow> ag_definition a;
          case zh_lookup (io_table t d) name of
            None \<Rightarrow> Some (IGS_FAILURE, a)
          | Some io \<Rightarrow>
              do { (c, err) \<leftarrow> model_parse_constraint env (io_value_type io) constraint;
                   let a = on_io t name (\<lambda>io. io\<lparr> io_constraint := c \<rparr>) a;
                   if c = None \<or> err then Some (IGS_FAILURE, a)
                   else do { a \<leftarrow> definition_changed a; Some (IGS_SUCCESS, a) } } }"

definition s_model_set_description ::
    "igs_agent \<Rightarrow> igs_io_type \<Rightarrow> string \<Rightarrow> string \<Rightarrow> (igs_result \<times> igs_agent) option" where
  "s_model_set_description a t name description =
     do { d \<leftarrow> ag_definition a;
          case zh_lookup (io_table t d) name of
            None \<Rightarrow> Some (IGS_FAILURE, a)
          | Some io \<Rightarrow>
              do { s \<leftarrow> strndup_str description IGS_MAX_DESCRIPTION_LENGTH;
                   a \<leftarrow> definition_changed (on_io t name (\<lambda>io. io\<lparr> io_description := Some s \<rparr>) a);
                   Some (IGS_SUCCESS, a) } }"

definition s_model_get_description ::
    "igs_agent \<Rightarrow> igs_io_type \<Rightarrow> string \<Rightarrow> string option option" where
  "s_model_get_description a t name =
     do { d \<leftarrow> ag_definition a;
          case zh_lookup (io_table t d) name of None \<Rightarrow> Some None | Some io \<Rightarrow> Some (io_description io) }"

definition s_model_set_detailed_type ::
    "igs_agent \<Rightarrow> igs_io_type \<Rightarrow> string \<Rightarrow> string \<Rightarrow> string \<Rightarrow> (igs_result \<times> igs_agent) option" where
  "s_model_set_detailed_type a t name type_name specification =
     do { ok \<leftarrow> model_check_string (wr_cstr type_name) (int IGS_MAX_DETAILED_TYPE_LENGTH);
          if \<not> ok then None
          else do { d \<leftarrow> ag_definition a;
          case zh_lookup (io_table t d) name of
            None \<Rightarrow> Some (IGS_FAILURE, a)
          | Some io \<Rightarrow>
              do { ty \<leftarrow> strndup_str type_name IGS_MAX_DETAILED_TYPE_LENGTH;
                   sp \<leftarrow> strndup_str specification IGS_MAX_SPECIFICATION_LENGTH;
                   a \<leftarrow> definition_changed
                     (on_io t name (\<lambda>io. io\<lparr> io_detailed_type := Some ty, io_specification := Some sp \<rparr>) a);
                   Some (IGS_SUCCESS, a) } } }"

definition s_model_get_type_for_io :: "igs_agent \<Rightarrow> string \<Rightarrow> igs_io_type \<Rightarrow> igs_io_value_type option" where
  "s_model_get_type_for_io a name t =
     do { d \<leftarrow> ag_definition a;
          if name = [] then None
          else case zh_lookup (io_table t d) name of
                 None \<Rightarrow> Some IGS_UNKNOWN_T | Some io \<Rightarrow> Some (io_value_type io) }"

section \<open>Lists and callbacks\<close>

definition s_model_check_io_existence :: "igs_agent \<Rightarrow> string \<Rightarrow> (string, igs_io) table \<Rightarrow> bool" where
  "s_model_check_io_existence a name hash = (ag_definition a \<noteq> None \<and> zh_lookup hash name \<noteq> None)"

definition s_model_get_io_list :: "igs_agent \<Rightarrow> igs_io_type \<Rightarrow> string list option \<times> nat" where
  "s_model_get_io_list a t =
     (case ag_definition a of
        None \<Rightarrow> (None, 0)
      | Some d \<Rightarrow> (let list = io_names t d; n = length list in if n < 1 then (None, n) else (Some list, n)))"

definition s_model_observe :: "igs_agent \<Rightarrow> string \<Rightarrow> igs_io_type \<Rightarrow> nat \<Rightarrow> nat \<Rightarrow> igs_agent" where
  "s_model_observe a name t cb my_data =
     (case model_find_io_by_name a name t of
        None \<Rightarrow> a
      | Some io \<Rightarrow> on_io t name
          (\<lambda>io. io\<lparr> io_callbacks := io_callbacks io @ [\<lparr> cb_ptr = cb, cb_my_data = my_data \<rparr>] \<rparr>) a)"

end
