(* ===== verification/Igs_Core.thy ===== *)
theory Igs_Core
  imports Igs_Model
begin

text \<open>
  The core context: the model mutex (\<open>model_read_write_lock\<close> and its unlock in
  src/src/igs_model.c), agents behind the pointers of the application, and
  whispers (src/src/igs_channels.c). The mutex is not recursive: to lock it
  while holding it never returns, and to unlock it free is undefined.

  \<open>cx_events\<close> records what reaches the network, in order. Whether
  \<open>zyre_whisper\<close> reports success is a parameter, as Zyre is not in the repository.
\<close>

section \<open>The mutex\<close>

definition model_lock :: "igs_core \<Rightarrow> igs_core option" where
  "model_lock c = (if cx_model_locked c then None else Some (c\<lparr> cx_model_locked := True \<rparr>))"

definition model_unlock :: "igs_core \<Rightarrow> igs_core option" where
  "model_unlock c = (if cx_model_locked c then Some (c\<lparr> cx_model_locked := False \<rparr>) else None)"

type_synonym 'r core_op = "igs_core \<Rightarrow> ('r \<times> igs_core) option"

text \<open>Lock, run, unlock: the shape of most functions of the interface.\<close>

definition locked :: "'r core_op \<Rightarrow> 'r core_op" where
  "locked body c =
     do { c \<leftarrow> model_lock c; (r, c) \<leftarrow> body c; c \<leftarrow> model_unlock c; Some (r, c) }"

text \<open>Unlock, run, lock again: a call of a locking function from inside.\<close>

definition unlocked :: "'r core_op \<Rightarrow> 'r core_op" where
  "unlocked body c =
     do { c \<leftarrow> model_unlock c; (r, c) \<leftarrow> body c; c \<leftarrow> model_lock c; Some (r, c) }"

section \<open>Agents at addresses\<close>

definition deref :: "addr \<Rightarrow> igs_core \<Rightarrow> igs_agent option" where
  "deref p c = cx_store c p"

definition store :: "addr \<Rightarrow> igs_agent \<Rightarrow> igs_core \<Rightarrow> igs_core" where
  "store p a c = c\<lparr> cx_store := (cx_store c)(p := Some a) \<rparr>"

text \<open>
  \<open>assert (agent); if (!agent->uuid) return dflt;\<close> and then the rest. An agent that
  was destroyed has no uuid until its memory goes.
\<close>

definition with_agent :: "addr \<Rightarrow> 'r \<Rightarrow> 'r core_op \<Rightarrow> 'r core_op" where
  "with_agent p dflt body c =
     do { a \<leftarrow> deref p c; if ag_uuid a = None then Some (dflt, c) else body c }"

text \<open>A function of the model applied to the agent behind a pointer.\<close>

definition on_agent :: "addr \<Rightarrow> (igs_agent \<Rightarrow> ('r \<times> igs_agent) option) \<Rightarrow> 'r core_op" where
  "on_agent p f c = do { a \<leftarrow> deref p c; (r, a) \<leftarrow> f a; Some (r, store p a c) }"

definition read_agent :: "addr \<Rightarrow> (igs_agent \<Rightarrow> 'r option) \<Rightarrow> 'r core_op" where
  "read_agent p f c = do { a \<leftarrow> deref p c; r \<leftarrow> f a; Some (r, c) }"

definition emit :: "igs_event \<Rightarrow> igs_core \<Rightarrow> igs_core" where
  "emit e c = c\<lparr> cx_events := cx_events c @ [e] \<rparr>"

section \<open>Lock discipline\<close>

text \<open>
  \<open>balanced op\<close>: whatever it does, the operation leaves the mutex as it found it.
\<close>

definition balanced :: "'r core_op \<Rightarrow> bool" where
  "balanced op \<longleftrightarrow> (\<forall>c r c'. op c = Some (r, c') \<longrightarrow> cx_model_locked c' = cx_model_locked c)"

lemma balancedD: "balanced op \<Longrightarrow> op c = Some (r, c') \<Longrightarrow> cx_model_locked c' = cx_model_locked c"
  by (simp add: balanced_def)

lemma balanced_Some [lock_intros]: "balanced (\<lambda>c. Some (f c, c))" "balanced (\<lambda>c. None)"
  by (simp_all add: balanced_def)

lemma balanced_locked [lock_intros]: "balanced (locked body)"
  by (auto simp: balanced_def locked_def model_lock_def model_unlock_def bind_some_eqs split: if_splits)

lemma balanced_unlocked [lock_intros]: "balanced (unlocked body)"
  by (auto simp: balanced_def unlocked_def model_lock_def model_unlock_def bind_some_eqs split: if_splits)

lemma balanced_with_agent [lock_intros]: "balanced body \<Longrightarrow> balanced (with_agent p dflt body)"
  by (auto simp: balanced_def with_agent_def bind_some_eqs split: if_splits)

lemma balanced_on_agent [lock_intros]: "balanced (on_agent p f)"
  by (auto simp: balanced_def on_agent_def store_def bind_some_eqs)

lemma balanced_read_agent [lock_intros]: "balanced (read_agent p f)"
  by (auto simp: balanced_def read_agent_def bind_some_eqs)

lemma balanced_bind [lock_intros]:
  "balanced f \<Longrightarrow> (\<And>r. balanced (g r)) \<Longrightarrow> balanced (\<lambda>c. do { (r, c) \<leftarrow> f c; g r c })"
  by (fastforce simp: balanced_def bind_some_eqs)

lemma balanced_if [lock_intros]:
  "(b \<Longrightarrow> balanced f) \<Longrightarrow> (\<not> b \<Longrightarrow> balanced g) \<Longrightarrow> balanced (\<lambda>c. if b then f c else g c)"
  by (simp add: balanced_def)

lemma balanced_emit [lock_intros]: "balanced f \<Longrightarrow> balanced (\<lambda>c. f (emit e c))"
  by (simp add: balanced_def emit_def)

text \<open>
  Calls from the application find the mutex free: then a locked body runs once,
  and its result is the result.
\<close>

lemma locked_free:
  "\<not> cx_model_locked c \<Longrightarrow> body (c\<lparr> cx_model_locked := True \<rparr>) = Some (r, c') \<Longrightarrow> cx_model_locked c' \<Longrightarrow>
     locked body c = Some (r, c'\<lparr> cx_model_locked := False \<rparr>)"
  by (simp add: locked_def model_lock_def model_unlock_def)

lemma locked_twice: "cx_model_locked c \<Longrightarrow> locked body c = None"
  by (simp add: locked_def model_lock_def)

section \<open>Whispers\<close>

record net_env = igs_env +
  zyre_whisper_ok :: "string \<Rightarrow> string list \<Rightarrow> bool"

definition streq_name :: "igs_remote_agent \<Rightarrow> string \<Rightarrow> bool option" where
  "streq_name ra s = do { d \<leftarrow> ra_definition ra; n \<leftarrow> df_name d; Some (n = s) }"

text \<open>
  The loop over the remote agents: each one called or identified by \<open>target\<close>
  gets a copy with its uuid appended. An agent without definition is
  dereferenced before its uuid is looked at.
\<close>

fun whisper_agents ::
    "net_env \<Rightarrow> string \<Rightarrow> string list \<Rightarrow> igs_remote_agent list \<Rightarrow> (bool \<times> igs_result) \<Rightarrow> (bool \<times> igs_result) core_op" where
  "whisper_agents env target msg [] r c = Some (r, c)"
| "whisper_agents env target msg (ra # ras) (sent, res) c =
     do { same \<leftarrow> streq_name ra target;
          if same \<or> ra_uuid ra = target then
            (let m = msg @ [ra_uuid ra]; peer = pe_peer_id (ra_peer ra)
             in whisper_agents env target msg ras
                  (True, if zyre_whisper_ok env peer m then res else IGS_FAILURE) (emit (Zyre_Whisper peer m) c))
          else whisper_agents env target msg ras (sent, res) c }"

fun whisper_peers ::
    "net_env \<Rightarrow> string \<Rightarrow> string list \<Rightarrow> igs_zyre_peer list \<Rightarrow> igs_result \<Rightarrow> igs_core \<Rightarrow> igs_result \<times> igs_core" where
  "whisper_peers env target msg [] res c = (res, c)"
| "whisper_peers env target msg (pe # pes) res c =
     (if pe_name pe = target \<or> pe_peer_id pe = target then
        whisper_peers env target msg pes (if zyre_whisper_ok env (pe_peer_id pe) msg then res else IGS_FAILURE)
          (emit (Zyre_Whisper (pe_peer_id pe) msg) c)
      else whisper_peers env target msg pes res c)"

text \<open>
  The agent by default, which the function makes sure of first, is there from the start of
  the network on.
\<close>

definition igs_channel_whisper_zmsg :: "net_env \<Rightarrow> string \<Rightarrow> string list \<Rightarrow> igs_result core_op" where
  "igs_channel_whisper_zmsg env target msg c =
     (if \<not> cx_node c then Some (IGS_FAILURE, c)
      else locked (\<lambda>c.
        do { ((sent, res), c) \<leftarrow> whisper_agents env target msg (map snd (cx_remote_agents c)) (False, IGS_SUCCESS) c;
             Some (if sent then (res, c) else whisper_peers env target msg (map snd (cx_zyre_peers c)) res c) }) c)"

lemma balanced_whisper [lock_intros]: "balanced (igs_channel_whisper_zmsg env target msg)"
  by (auto simp: balanced_def igs_channel_whisper_zmsg_def dest: balancedD [OF balanced_locked] split: if_splits)

text \<open>What a whisper changes: the events only.\<close>

definition same_model :: "igs_core \<Rightarrow> igs_core \<Rightarrow> bool" where
  "same_model c c' \<longleftrightarrow> (\<exists>es. c' = c\<lparr> cx_events := cx_events c @ es \<rparr>)"

lemma same_model_refl [simp]: "same_model c c"
  unfolding same_model_def by (rule exI [of _ "[]"]) simp

lemma same_model_trans: "same_model c c2 \<Longrightarrow> same_model c2 c3 \<Longrightarrow> same_model c c3"
  by (auto simp: same_model_def)

lemma same_model_emit: "same_model c (emit e c)"
  by (auto simp: same_model_def emit_def)

lemmas same_model_emitD = same_model_trans [OF same_model_emit]

lemma whisper_agents_same: "whisper_agents env target msg ras r c = Some (r', c') \<Longrightarrow> same_model c c'"
proof (induction ras arbitrary: r c)
  case (Cons ra ras)
  obtain sent res where r: "r = (sent, res)" by (cases r)
  from Cons.prems r consider r2 c2 where "whisper_agents env target msg ras r2 c2 = Some (r', c')" "same_model c c2"
    by (auto simp: bind_some_eqs Let_def intro: same_model_emit split: if_splits)
  then show ?case using Cons.IH same_model_trans by cases blast
qed simp

lemma whisper_peers_same: "whisper_peers env target msg pes r c = (r', c') \<Longrightarrow> same_model c c'"
proof (induction pes arbitrary: r c)
  case (Cons pe pes)
  then show ?case by (fastforce split: if_splits dest!: Cons.IH intro: same_model_emitD)
qed simp

lemma whisper_same:
  assumes "igs_channel_whisper_zmsg env target msg c = Some (r, c')" shows "same_model c c'"
proof (cases "cx_node c")
  case True
  from True assms obtain sent res c1 c2 where w: "\<not> cx_model_locked c"
    "whisper_agents env target msg (map snd (cx_remote_agents c)) (False, IGS_SUCCESS) (c\<lparr> cx_model_locked := True \<rparr>) = Some ((sent, res), c1)"
    "(if sent then (res, c1) else whisper_peers env target msg (map snd (cx_zyre_peers c1)) res c1) = (r, c2)"
    "c' = c2\<lparr> cx_model_locked := False \<rparr>"
    by (auto simp: igs_channel_whisper_zmsg_def locked_def model_lock_def model_unlock_def bind_some_eqs split: if_splits)
  have "same_model (c\<lparr> cx_model_locked := True \<rparr>) c2"
    using whisper_agents_same [OF w(2)] whisper_peers_same w(3) same_model_trans
    by (cases sent) auto
  with w(1,4) show ?thesis by (cases c) (auto simp: same_model_def)
qed (use assms in \<open>simp add: igs_channel_whisper_zmsg_def\<close>)

end
