(* ===== verification/Igs_Registry.thy ===== *)
theory Igs_Registry
  imports Igs_Core
begin

text \<open>
  The tables of a definition. The inputs, outputs, attributes and services of a
  definition and the replies of a service are each kept twice: in a hash table
  and in a list of names that remembers the order of creation. The locale
  \<open>registry\<close> states what the functions rely on; \<open>registered\<close> is the invariant
  that ties the two together. It is interpreted on the fields of the model.
\<close>

definition registered :: "('v \<Rightarrow> string) \<Rightarrow> string list \<Rightarrow> (string, 'v) table \<Rightarrow> bool" where
  "registered nm ns t \<longleftrightarrow>
     distinct ns \<and> zh_wf t \<and> set ns = fst ` set t \<and> (\<forall>(k, v) \<in> set t. nm v = k)"

text \<open>\<open>zlist_append\<close> of the name and \<open>zhashx_insert\<close> of the entry; \<open>zlist_remove\<close> and \<open>zhashx_delete\<close>.\<close>

definition reg_add :: "string \<Rightarrow> 'v \<Rightarrow> string list \<times> (string, 'v) table \<Rightarrow> string list \<times> (string, 'v) table" where
  "reg_add k v r = (fst r @ [k], zh_insert k v (snd r))"

definition reg_remove :: "string \<Rightarrow> string list \<times> (string, 'v) table \<Rightarrow> string list \<times> (string, 'v) table" where
  "reg_remove k r = (remove_first (\<lambda>n. n = k) (fst r), zh_delete k (snd r))"

section \<open>The invariant\<close>

lemma registered_Nil [simp, wf_intros]: "registered nm [] []"
  by (simp add: registered_def)

lemma registered_lookup:
  assumes "registered nm ns t" shows "k \<in> set ns \<longleftrightarrow> (\<exists>v. zh_lookup t k = Some v)"
proof -
  have "k \<in> set ns \<longleftrightarrow> zh_lookup t k \<noteq> None"
    using assms zh_lookup_None_iff [of t k] by (simp add: registered_def)
  then show ?thesis by (simp only: not_None_eq)
qed

lemma registered_name:
  "registered nm ns t \<Longrightarrow> zh_lookup t k = Some v \<Longrightarrow> nm v = k"
  using zh_lookup_SomeD [of t k v] by (auto simp: registered_def)

lemma registered_add [wf_intros]:
  assumes "registered nm ns t" and "zh_lookup t k = None" and "nm v = k"
  shows "registered nm (ns @ [k]) (zh_insert k v t)"
  using assms zh_lookup_None_iff [of t k] by (auto simp: registered_def set_zh_insert zh_wf_insert)

lemma registered_remove [wf_intros]:
  assumes "registered nm ns t"
  shows "registered nm (remove_first (\<lambda>n. n = k) ns) (zh_delete k t)"
proof -
  have "remove_first (\<lambda>n. n = k) ns = filter (\<lambda>n. n \<noteq> k) ns"
    using remove_first_filter [of "\<lambda>n. n" ns k] assms by (simp add: registered_def)
  moreover have "zh_wf (zh_delete k t)" using assms by (simp add: registered_def zh_wf_delete)
  ultimately show ?thesis using assms by (auto simp: registered_def zh_delete_def)
qed

lemma registered_update [wf_intros]:
  assumes "registered nm ns t" and "\<And>v. zh_lookup t k = Some v \<Longrightarrow> nm (f v) = nm v"
  shows "registered nm ns (zh_update k f t)"
proof -
  have "fst ` set (zh_update k f t) = fst ` set t" using zh_keys_update [of k f t] by (metis list.set_map)
  moreover have "nm v' = k'" if "(k', v') \<in> set (zh_update k f t)" for k' v'
    using that assms zh_lookup_wf [of t] by (auto simp: zh_update_def registered_def split: if_splits)
  moreover have "zh_wf (zh_update k f t)" using assms by (simp add: registered_def zh_wf_update)
  ultimately show ?thesis using assms(1) by (auto simp: registered_def)
qed

lemma registered_names_in: "registered nm ns t \<Longrightarrow> names_in ns t"
  by (auto simp: names_in_def registered_lookup)

lemma reg_remove_names:
  "registered nm ns t \<Longrightarrow> remove_first (\<lambda>n. n = k) ns = filter (\<lambda>n. n \<noteq> k) ns"
  using remove_first_filter [of "\<lambda>n. n" ns k] by (simp add: registered_def)

lemma remove_first_snoc: "k \<notin> set ns \<Longrightarrow> remove_first (\<lambda>n. n = k) (ns @ [k]) = ns"
  by (induction ns) auto

section \<open>The interface\<close>

locale registry =
  fixes names :: "'d \<Rightarrow> string list"
    and entries :: "'d \<Rightarrow> (string, 'v) table"
    and put :: "string list \<times> (string, 'v) table \<Rightarrow> 'd \<Rightarrow> 'd"
    and nm :: "'v \<Rightarrow> string"
  assumes names_put [simp]: "names (put r d) = fst r"
    and entries_put [simp]: "entries (put r d) = snd r"
    and put_same [simp]: "put (names d, entries d) d = d"
    and put_put [simp]: "put r (put r' d) = put r d"
begin

lemma registered_put_add:
  "registered nm (names d) (entries d) \<Longrightarrow> zh_lookup (entries d) k = None \<Longrightarrow> nm v = k \<Longrightarrow>
     registered nm (names (put (reg_add k v (names d, entries d)) d))
       (entries (put (reg_add k v (names d, entries d)) d))"
  by (simp add: reg_add_def registered_add)

lemma registered_put_remove:
  "registered nm (names d) (entries d) \<Longrightarrow>
     registered nm (names (put (reg_remove k (names d, entries d)) d))
       (entries (put (reg_remove k (names d, entries d)) d))"
  by (simp add: reg_remove_def registered_remove)

text \<open>As a map from names: creation extends it, removal restricts it.\<close>

lemma lookup_put_add:
  "zh_lookup (entries d) k = None \<Longrightarrow>
     zh_lookup (entries (put (reg_add k v (names d, entries d)) d)) = (zh_lookup (entries d))(k \<mapsto> v)"
  by (auto simp: reg_add_def fun_eq_iff table_simps)

lemma lookup_put_remove:
  "zh_lookup (entries (put (reg_remove k (names d, entries d)) d)) = (zh_lookup (entries d))(k := None)"
  by (auto simp: reg_remove_def fun_eq_iff table_simps)

text \<open>Creating an entry and removing it gives back the names, in order, and the entries.\<close>

lemma remove_after_add:
  assumes "registered nm (names d) (entries d)" and "zh_lookup (entries d) k = None"
  shows "fst (reg_remove k (reg_add k v (names d, entries d))) = names d"
    and "set (snd (reg_remove k (reg_add k v (names d, entries d)))) = set (entries d)"
proof -
  have "k \<notin> set (names d)" using assms registered_lookup by fastforce
  then show "fst (reg_remove k (reg_add k v (names d, entries d))) = names d"
    by (simp add: reg_remove_def reg_add_def remove_first_snoc)
  show "set (snd (reg_remove k (reg_add k v (names d, entries d)))) = set (entries d)"
    using assms(2) zh_lookup_None_iff [of "entries d" k]
    by (auto simp: reg_remove_def reg_add_def zh_delete_def set_zh_insert image_iff)
qed

end

section \<open>The registries of the model\<close>

definition put_ios :: "igs_io_type \<Rightarrow> string list \<times> (string, igs_io) table \<Rightarrow> igs_definition \<Rightarrow> igs_definition" where
  "put_ios t r = set_ios t (fst r) (snd r)"

interpretation ios: registry "io_names t" "io_table t" "put_ios t" io_name for t
  by unfold_locales (cases t; simp add: put_ios_def set_ios_def io_names_def io_table_def)+

definition put_services ::
    "string list \<times> (string, igs_service) table \<Rightarrow> igs_definition \<Rightarrow> igs_definition" where
  "put_services r d = d\<lparr> df_services_names := fst r, df_services := snd r \<rparr>"

interpretation services: registry df_services_names df_services put_services sv_name
  by unfold_locales (simp_all add: put_services_def)

definition put_replies :: "string list \<times> (string, igs_reply) table \<Rightarrow> igs_service \<Rightarrow> igs_service" where
  "put_replies r s = s\<lparr> sv_replies_names := fst r, sv_replies := snd r \<rparr>"

interpretation replies: registry sv_replies_names sv_replies put_replies rp_name
  by unfold_locales (simp_all add: put_replies_def)

end
