(* ===== verification/Igs_Definition.thy ===== *)
theory Igs_Definition
  imports Igs_Registry
begin

text \<open>
  Definitions (src/src/igs_definition.c): creation and removal of inputs,
  outputs and attributes, the texts that describe an agent, clearing and
  exporting the definition. A pointer argument that the function asserts to be
  non-NULL is a plain value. The value type of a creation is an integer, since
  the code checks its range. The second mutex taken around a shout
  (\<open>s_lock_zyre_peer\<close>) protects nothing else here and is left out.
\<close>

definition c_assert :: "bool \<Rightarrow> unit option" where
  "c_assert b = (if b then Some () else None)"

lemma c_assert_simps [simp]: "c_assert b = Some u \<longleftrightarrow> b" "c_assert True = Some ()" "c_assert False = None"
  by (simp_all add: c_assert_def)

section \<open>Inputs, outputs and attributes\<close>

definition definition_add_io_to_definition ::
    "igs_io \<Rightarrow> igs_io_type \<Rightarrow> igs_definition \<Rightarrow> igs_result \<times> igs_definition" where
  "definition_add_io_to_definition io t d =
     (case zh_lookup (io_table t d) (io_name io) of
        Some _ \<Rightarrow> (IGS_FAILURE, d)
      | None \<Rightarrow> (IGS_SUCCESS, put_ios t (reg_add (io_name io) io (io_names t d, io_table t d)) d))"

definition new_io :: "string \<Rightarrow> igs_io_type \<Rightarrow> igs_io_value_type \<Rightarrow> igs_io" where
  "new_io name t vt = \<lparr> io_name = name, io_description = None, io_detailed_type = None, io_specification = None,
     io_value_type = vt, io_type = t, io_i = 0, io_d = 0, io_s = None, io_b = False, io_data = None,
     io_value_size = 0, io_is_muted = False, io_callbacks = [], io_constraint = None \<rparr>"

text \<open>The result tells whether an io was created; \<open>False\<close> stands for the NULL pointer.\<close>

definition definition_create_io ::
    "igs_env \<Rightarrow> igs_agent \<Rightarrow> string \<Rightarrow> igs_io_type \<Rightarrow> int \<Rightarrow> string option \<Rightarrow> nat \<Rightarrow> (bool \<times> igs_agent) option" where
  "definition_create_io env a name t value_type value sz =
     do { ok \<leftarrow> model_check_string (wr_cstr name) (int IGS_MAX_IO_NAME_LENGTH);
          c_assert ok;
          d \<leftarrow> ag_definition a;
          case value_type_of value_type of
            None \<Rightarrow> Some (False, a)
          | Some vt \<Rightarrow>
              do { n \<leftarrow> strndup_str name IGS_MAX_IO_NAME_LENGTH;
                   let (r, d) = definition_add_io_to_definition (new_io n t vt) t d;
                   if r \<noteq> IGS_SUCCESS then Some (False, a)
                   else do { (w, a) \<leftarrow> model_write env (a\<lparr> ag_definition := Some d \<rparr>) n t vt value sz;
                             Some (True, a) } } }"

text \<open>What \<open>igsagent_input_create\<close> and its siblings do while they hold the mutex.\<close>

definition create_body ::
    "igs_env \<Rightarrow> string \<Rightarrow> igs_io_type \<Rightarrow> int \<Rightarrow> string option \<Rightarrow> nat \<Rightarrow> igs_agent \<Rightarrow> (igs_result \<times> igs_agent) option" where
  "create_body env name t value_type value sz a =
     do { (made, a) \<leftarrow> definition_create_io env a name t value_type value sz;
          if \<not> made then Some (IGS_FAILURE, a)
          else do { a \<leftarrow> definition_changed a; Some (IGS_SUCCESS, a) } }"

definition io_create ::
    "igs_io_type \<Rightarrow> igs_env \<Rightarrow> addr \<Rightarrow> string \<Rightarrow> int \<Rightarrow> string option \<Rightarrow> nat \<Rightarrow> igs_result core_op" where
  "io_create t env p name value_type value sz = with_agent p IGS_FAILURE (\<lambda>c.
     do { c_assert (name \<noteq> []); locked (on_agent p (create_body env name t value_type value sz)) c })"

definition igsagent_input_create where "igsagent_input_create = io_create IGS_INPUT_T"
definition igsagent_output_create where "igsagent_output_create = io_create IGS_OUTPUT_T"
definition igsagent_attribute_create where "igsagent_attribute_create = io_create IGS_ATTRIBUTE_T"

definition remove_body :: "igs_io_type \<Rightarrow> string \<Rightarrow> igs_agent \<Rightarrow> (igs_result \<times> igs_agent) option" where
  "remove_body t name a =
     do { d \<leftarrow> ag_definition a;
          case model_find_io_by_name a name t of
            None \<Rightarrow> Some (IGS_FAILURE, a)
          | Some io \<Rightarrow>
              do { a \<leftarrow> definition_changed
                     (a\<lparr> ag_definition := Some (put_ios t (reg_remove (io_name io) (io_names t d, io_table t d)) d) \<rparr>);
                   Some (IGS_SUCCESS, a) } }"

definition io_remove :: "igs_io_type \<Rightarrow> addr \<Rightarrow> string \<Rightarrow> igs_result core_op" where
  "io_remove t p name = with_agent p IGS_FAILURE (locked (on_agent p (remove_body t name)))"

definition igsagent_input_remove where "igsagent_input_remove = io_remove IGS_INPUT_T"
definition igsagent_output_remove where "igsagent_output_remove = io_remove IGS_OUTPUT_T"
definition igsagent_attribute_remove where "igsagent_attribute_remove = io_remove IGS_ATTRIBUTE_T"

section \<open>The definition itself\<close>

definition empty_definition :: igs_definition where
  "empty_definition = \<lparr> df_my_class = None, df_class_set_explicitly = False, df_package = None, df_name = None,
     df_description = None, df_version = None, df_json = None, df_json_legacy_v3 = None, df_json_legacy_v4 = None,
     df_family = None, df_attributes_names = [], df_attributes = [], df_inputs_names = [], df_inputs = [],
     df_outputs_names = [], df_outputs = [], df_services_names = [], df_services = [] \<rparr>"

definition clear_definition :: "igs_agent \<Rightarrow> igs_agent option" where
  "clear_definition a =
     (let name = (case ag_definition a of None \<Rightarrow> None | Some d \<Rightarrow> df_name d)
      in definition_changed (a\<lparr> ag_definition := Some (empty_definition\<lparr> df_name :=
           Some (case name of Some n \<Rightarrow> n | None \<Rightarrow> IGS_DEFAULT_AGENT_NAME) \<rparr>) \<rparr>))"

definition igsagent_clear_definition :: "addr \<Rightarrow> unit core_op" where
  "igsagent_clear_definition p = with_agent p () (locked (on_agent p (\<lambda>a.
     do { a \<leftarrow> clear_definition a; Some ((), a) })))"

text \<open>When the agent has no definition the mutex stays locked.\<close>

definition igsagent_definition_json :: "addr \<Rightarrow> string option core_op" where
  "igsagent_definition_json p c =
     do { a \<leftarrow> deref p c;
          c \<leftarrow> model_lock c;
          case ag_definition a of
            None \<Rightarrow> Some (None, c)
          | Some d \<Rightarrow> do { c \<leftarrow> model_unlock c; Some (df_json d, c) } }"

definition read_definition :: "(igs_definition \<Rightarrow> string option) \<Rightarrow> addr \<Rightarrow> string option core_op" where
  "read_definition f p = with_agent p None (locked (read_agent p (\<lambda>a. do { d \<leftarrow> ag_definition a; Some (f d) })))"

definition igsagent_definition_package where "igsagent_definition_package = read_definition df_package"
definition igsagent_definition_class where "igsagent_definition_class = read_definition df_my_class"
definition igsagent_family where "igsagent_family = read_definition df_family"
definition igsagent_definition_description where "igsagent_definition_description = read_definition df_description"
definition igsagent_definition_version where "igsagent_definition_version = read_definition df_version"

text \<open>Copy a text into the definition and build its JSON again.\<close>

definition change_body ::
    "string \<Rightarrow> nat \<Rightarrow> (string \<Rightarrow> igs_definition \<Rightarrow> igs_definition) \<Rightarrow> igs_agent \<Rightarrow> (unit \<times> igs_agent) option" where
  "change_body s n upd a =
     do { d \<leftarrow> ag_definition a;
          v \<leftarrow> strndup_str s n;
          a \<leftarrow> definition_changed (a\<lparr> ag_definition := Some (upd v d) \<rparr>);
          Some ((), a) }"

definition change_definition ::
    "addr \<Rightarrow> string \<Rightarrow> nat \<Rightarrow> (string \<Rightarrow> igs_definition \<Rightarrow> igs_definition) \<Rightarrow> unit core_op" where
  "change_definition p s n upd = locked (on_agent p (change_body s n upd))"

definition has_definition :: "addr \<Rightarrow> igs_core \<Rightarrow> unit option" where
  "has_definition p c = do { a \<leftarrow> deref p c; c_assert (ag_definition a \<noteq> None) }"

definition checked :: "string \<Rightarrow> nat \<Rightarrow> unit option" where
  "checked s n = do { ok \<leftarrow> model_check_string (wr_cstr s) (int n); c_assert ok }"

text \<open>\<open>agent->context && agent->context->node\<close>: the agent is on the network.\<close>

definition agent_started :: "addr \<Rightarrow> igs_core \<Rightarrow> bool" where
  "agent_started p c = (case deref p c of None \<Rightarrow> False | Some a \<Rightarrow> ag_context a \<and> cx_node c)"

definition igsagent_set_family :: "addr \<Rightarrow> string \<Rightarrow> unit core_op" where
  "igsagent_set_family p family = with_agent p () (\<lambda>c.
     do { has_definition p c; checked family IGS_MAX_FAMILY_LENGTH;
          change_definition p family IGS_MAX_FAMILY_LENGTH (\<lambda>v d. d\<lparr> df_family := Some v \<rparr>) c })"

definition igsagent_definition_set_package :: "addr \<Rightarrow> string \<Rightarrow> unit core_op" where
  "igsagent_definition_set_package p package = with_agent p () (\<lambda>c.
     do { checked package IGS_MAX_AGENT_PACKAGE_LENGTH; has_definition p c;
          if agent_started p c then Some ((), c)
          else change_definition p package IGS_MAX_AGENT_PACKAGE_LENGTH (\<lambda>v d. d\<lparr> df_package := Some v \<rparr>) c })"

definition igsagent_definition_set_class :: "addr \<Rightarrow> string \<Rightarrow> unit core_op" where
  "igsagent_definition_set_class p my_class = with_agent p () (\<lambda>c.
     do { checked my_class IGS_MAX_AGENT_CLASS_LENGTH; has_definition p c;
          if agent_started p c then Some ((), c)
          else change_definition p my_class IGS_MAX_AGENT_CLASS_LENGTH
                 (\<lambda>v d. d\<lparr> df_my_class := Some v, df_class_set_explicitly := True \<rparr>) c })"

definition igsagent_definition_set_description :: "addr \<Rightarrow> string \<Rightarrow> unit core_op" where
  "igsagent_definition_set_description p description = with_agent p () (\<lambda>c.
     do { has_definition p c;
          change_definition p description IGS_MAX_DESCRIPTION_LENGTH (\<lambda>v d. d\<lparr> df_description := Some v \<rparr>) c })"

definition igsagent_definition_set_version :: "addr \<Rightarrow> string \<Rightarrow> unit core_op" where
  "igsagent_definition_set_version p version = with_agent p () (\<lambda>c.
     do { checked version IGS_MAX_VERSION_LENGTH; has_definition p c;
          change_definition p version IGS_MAX_VERSION_LENGTH (\<lambda>v d. d\<lparr> df_version := Some v \<rparr>) c })"

definition IGS_PRIVATE_CHANNEL :: string where "IGS_PRIVATE_CHANNEL = ''INGESCAPE_PRIVATE''"

definition set_path ::
    "string \<Rightarrow> (string \<Rightarrow> igs_agent \<Rightarrow> igs_agent) \<Rightarrow> addr \<Rightarrow> string \<Rightarrow> unit core_op" where
  "set_path message upd p path = with_agent p () (locked (\<lambda>c.
     do { v \<leftarrow> strndup_str path IGS_MAX_PATH_LENGTH;
          a \<leftarrow> deref p c;
          let c = store p (upd v a) c;
          if cx_network_actor c \<and> cx_node c
          then do { u \<leftarrow> ag_uuid a; Some ((), emit (Zyre_Shout IGS_PRIVATE_CHANNEL [message, v, u]) c) }
          else Some ((), c) }))"

definition igsagent_definition_set_path where
  "igsagent_definition_set_path = set_path ''DEFINITION_FILE_PATH'' (\<lambda>v a. a\<lparr> ag_definition_path := Some v \<rparr>)"

end
