(* ===== verification/Igs_Invariant.thy ===== *)
theory Igs_Invariant
  imports Igs_Definition
begin

text \<open>
  The invariant of a definition, and how the operations on it keep it: the five
  kinds of tables are registries, every io is well-formed and of the type of its
  table. \<open>refreshed\<close> is what \<open>definition_update_json\<close> makes of a definition.
  The locale \<open>agent_law\<close> is the contract of a function that the interface runs
  on one agent under the mutex.
\<close>

section \<open>Well-formed definitions\<close>

definition ios_ok :: "igs_io_type \<Rightarrow> igs_definition \<Rightarrow> bool" where
  "ios_ok t d \<longleftrightarrow> registered io_name (io_names t d) (io_table t d)
     \<and> (\<forall>(k, io) \<in> set (io_table t d). io_wf io \<and> io_type io = t)"

definition service_ok :: "igs_service \<Rightarrow> bool" where
  "service_ok s \<longleftrightarrow> registered rp_name (sv_replies_names s) (sv_replies s)"

definition services_ok :: "igs_definition \<Rightarrow> bool" where
  "services_ok d \<longleftrightarrow> registered sv_name (df_services_names d) (df_services d)
     \<and> (\<forall>(k, s) \<in> set (df_services d). service_ok s)"

definition definition_wf :: "igs_definition \<Rightarrow> bool" where
  "definition_wf d \<longleftrightarrow> ios_ok IGS_INPUT_T d \<and> ios_ok IGS_OUTPUT_T d \<and> ios_ok IGS_ATTRIBUTE_T d \<and> services_ok d"

definition refreshed :: "igs_definition \<Rightarrow> igs_definition" where
  "refreshed d = d\<lparr> df_json := Some (definition_text d),
     df_json_legacy_v3 := Some (render 0 (legacy_v3_tree d) @ newline),
     df_json_legacy_v4 := Some (render 0 (legacy_v4_tree d) @ newline) \<rparr>"

lemma definition_wf_ios: "definition_wf d \<Longrightarrow> ios_ok t d"
  by (cases t) (simp_all add: definition_wf_def)

lemma definition_wfI: "(\<And>t. ios_ok t d) \<Longrightarrow> services_ok d \<Longrightarrow> definition_wf d"
  by (simp add: definition_wf_def)

lemma definition_wf_names_in: "definition_wf d \<Longrightarrow> definition_names_in d"
  using zh_lookup_SomeD [of "df_services d"]
  by (fastforce simp: definition_wf_def definition_names_in_def ios_ok_def services_ok_def service_ok_def
      io_names_def io_table_def registered_names_in)

lemma update_json_refreshed:
  "definition_wf d \<Longrightarrow> definition_update_json d = Some (refreshed d)"
  by (simp add: definition_update_json_result definition_wf_names_in refreshed_def)

lemma refreshed_tables [simp]:
  "io_names t (refreshed d) = io_names t d" "io_table t (refreshed d) = io_table t d"
  "df_services_names (refreshed d) = df_services_names d" "df_services (refreshed d) = df_services d"
  "df_name (refreshed d) = df_name d"
  by (simp_all add: refreshed_def io_names_def io_table_def split: igs_io_type.splits)

lemma ios_ok_tables:
  "io_names t d' = io_names t d \<Longrightarrow> io_table t d' = io_table t d \<Longrightarrow> ios_ok t d' = ios_ok t d"
  by (simp add: ios_ok_def)

lemma refreshed_wf [simp]: "definition_wf (refreshed d) = definition_wf d"
  by (simp add: definition_wf_def services_ok_def ios_ok_def)

lemma refreshed_text: "df_json (refreshed d) = Some (definition_text (refreshed d))"
  unfolding definition_text_def refreshed_def trees_ignore_json by simp

definition agent_wf :: "igs_agent \<Rightarrow> bool" where
  "agent_wf a \<longleftrightarrow> (\<forall>d. ag_definition a = Some d \<longrightarrow> definition_wf d)"

lemma definition_changed_result:
  "ag_definition a = Some d \<Longrightarrow> definition_wf d \<Longrightarrow> definition_changed a
     = Some (a\<lparr> ag_definition := Some (refreshed d), ag_need_definition_update := True \<rparr>)"
  by (simp add: definition_changed_def update_json_refreshed need_definition_update_def)

lemma definition_changed_wf:
  "definition_changed a = Some a' \<Longrightarrow> agent_wf a \<Longrightarrow> agent_wf a'"
  by (cases "ag_definition a")
    (auto simp: definition_changed_result agent_wf_def, simp add: definition_changed_def)

section \<open>Changes of the tables\<close>

lemma put_ios_other:
  "t' \<noteq> t \<Longrightarrow> io_names t' (put_ios t r d) = io_names t' d" "t' \<noteq> t \<Longrightarrow> io_table t' (put_ios t r d) = io_table t' d"
  "df_services_names (put_ios t r d) = df_services_names d" "df_services (put_ios t r d) = df_services d"
  by (cases t; cases t'; simp add: put_ios_def set_ios_def io_names_def io_table_def)+

lemma put_ios_wf:
  assumes "definition_wf d" and "ios_ok t (put_ios t r d)" shows "definition_wf (put_ios t r d)"
proof (rule definition_wfI)
  show "ios_ok t' (put_ios t r d)" for t'
    using assms definition_wf_ios [OF assms(1), of t'] by (cases "t' = t") (simp_all add: put_ios_other ios_ok_def)
  show "services_ok (put_ios t r d)"
    using assms(1) by (simp add: definition_wf_def services_ok_def put_ios_other)
qed

lemma io_add_wf:
  assumes "definition_wf d" and "zh_lookup (io_table t d) (io_name io) = None" and "io_wf io" and "io_type io = t"
  shows "definition_wf (put_ios t (reg_add (io_name io) io (io_names t d, io_table t d)) d)"
proof (rule put_ios_wf [OF assms(1)])
  have ok: "ios_ok t d" by (rule definition_wf_ios [OF assms(1)])
  have "set (zh_insert (io_name io) io (io_table t d)) = insert (io_name io, io) (set (io_table t d))"
    using assms(2) by (simp add: set_zh_insert)
  then show "ios_ok t (put_ios t (reg_add (io_name io) io (io_names t d, io_table t d)) d)"
    using assms(2-) ok by (simp add: ios_ok_def reg_add_def registered_add)
qed

lemma io_remove_wf:
  assumes "definition_wf d"
  shows "definition_wf (put_ios t (reg_remove k (io_names t d, io_table t d)) d)"
proof (rule put_ios_wf [OF assms])
  have ok: "ios_ok t d" by (rule definition_wf_ios [OF assms])
  have "set (zh_delete k (io_table t d)) \<subseteq> set (io_table t d)" by (auto simp: zh_delete_def)
  with ok show "ios_ok t (put_ios t (reg_remove k (io_names t d, io_table t d)) d)"
    by (auto simp: ios_ok_def reg_remove_def intro: registered_remove)
qed

text \<open>Writes through the pointer to an io.\<close>

lemma put_io_put: "put_io t k f d = put_ios t (io_names t d, zh_update k f (io_table t d)) d"
  by (simp add: put_io_def put_ios_def)

lemma put_io_wf:
  assumes "definition_wf d"
    and "\<And>io. zh_lookup (io_table t d) k = Some io \<Longrightarrow> io_wf io \<Longrightarrow>
           io_wf (f io) \<and> io_name (f io) = io_name io \<and> io_type (f io) = io_type io"
  shows "definition_wf (put_io t k f d)"
  unfolding put_io_put
proof (rule put_ios_wf [OF assms(1)])
  have ok: "ios_ok t d" by (rule definition_wf_ios [OF assms(1)])
  then have "registered io_name (io_names t d) (zh_update k f (io_table t d))"
    using assms(2) zh_lookup_SomeD [of "io_table t d" k] by (intro registered_update) (auto simp: ios_ok_def)
  moreover have "io_wf io' \<and> io_type io' = t" if "(k', io') \<in> set (zh_update k f (io_table t d))" for k' io'
    using that ok assms(2) zh_lookup_wf [of "io_table t d"]
    by (auto simp: zh_update_def ios_ok_def registered_def split: if_splits)
  ultimately show "ios_ok t (put_ios t (io_names t d, zh_update k f (io_table t d)) d)"
    by (auto simp: ios_ok_def)
qed

lemma on_io_wf:
  assumes "agent_wf a"
    and "\<And>io. model_find_io_by_name a k t = Some io \<Longrightarrow> io_wf io \<Longrightarrow>
           io_wf (f io) \<and> io_name (f io) = io_name io \<and> io_type (f io) = io_type io"
  shows "agent_wf (on_io t k f a)"
  using assms put_io_wf by (auto simp: agent_wf_def on_io_def model_find_io_by_name_def)

lemma found_wf: "agent_wf a \<Longrightarrow> model_find_io_by_name a k t = Some io \<Longrightarrow> io_wf io \<and> io_name io = k \<and> io_type io = t"
  using definition_wf_ios [of _ t] zh_lookup_SomeD [of "io_table t _" k io]
  by (fastforce simp: agent_wf_def model_find_io_by_name_def ios_ok_def registered_name split: option.splits
      dest: registered_name)

section \<open>The contract of a function run on one agent\<close>

definition all_agents :: "(igs_agent \<Rightarrow> bool) \<Rightarrow> igs_core \<Rightarrow> bool" where
  "all_agents P c \<longleftrightarrow> (\<forall>p a. deref p c = Some a \<longrightarrow> P a)"

lemma all_agentsD: "all_agents P c \<Longrightarrow> deref p c = Some a \<Longrightarrow> P a"
  by (simp add: all_agents_def)

lemma all_agents_store: "all_agents P c \<Longrightarrow> P a \<Longrightarrow> all_agents P (store p a c)"
  by (simp add: all_agents_def deref_def store_def)

lemma all_agents_frame: "cx_store c' = cx_store c \<Longrightarrow> all_agents P c' = all_agents P c"
  by (simp add: all_agents_def deref_def)

lemma locked_on_agent_iff:
  "locked (on_agent p f) c = Some (r, c') \<longleftrightarrow>
     \<not> cx_model_locked c \<and> (\<exists>a a'. deref p c = Some a \<and> f a = Some (r, a') \<and> c' = store p a' c)"
  by (cases c) (auto simp: locked_def model_lock_def model_unlock_def on_agent_def deref_def store_def bind_some_eqs)

lemma locked_read_agent_iff:
  "locked (read_agent p f) c = Some (r, c') \<longleftrightarrow>
     \<not> cx_model_locked c \<and> c' = c \<and> (\<exists>a. deref p c = Some a \<and> f a = Some r)"
  by (cases c) (auto simp: locked_def model_lock_def model_unlock_def read_agent_def deref_def bind_some_eqs)

lemma with_agent_iff:
  "with_agent p dflt body c = Some (r, c') \<longleftrightarrow>
     (\<exists>a. deref p c = Some a \<and> (if ag_uuid a = None then r = dflt \<and> c' = c else body c = Some (r, c')))"
  by (auto simp: with_agent_def bind_some_eqs)

locale agent_law =
  fixes P :: "igs_agent \<Rightarrow> bool" and f :: "igs_agent \<Rightarrow> ('r \<times> igs_agent) option"
  assumes keeps: "P a \<Longrightarrow> f a = Some (r, a') \<Longrightarrow> P a'"
begin

text \<open>Under the mutex it keeps the property of every agent, and nothing else moves.\<close>

lemma locked_keeps:
  "locked (on_agent p f) c = Some (r, c') \<Longrightarrow> all_agents P c \<Longrightarrow> all_agents P c'"
  unfolding locked_on_agent_iff by (metis all_agentsD all_agents_store keeps)

lemma locked_frame:
  "locked (on_agent p f) c = Some (r, c') \<Longrightarrow> c' = c\<lparr> cx_store := cx_store c' \<rparr> \<and> (\<forall>q. q \<noteq> p \<longrightarrow> deref q c' = deref q c)"
  by (auto simp: locked_on_agent_iff store_def deref_def)

lemma api_keeps:
  "with_agent p dflt (locked (on_agent p f)) c = Some (r, c') \<Longrightarrow> all_agents P c \<Longrightarrow> all_agents P c'"
  using locked_keeps by (auto simp: with_agent_iff split: if_splits)

end

end
