(* ===== verification/Igs_Definition_Laws.thy ===== *)
theory Igs_Definition_Laws
  imports Igs_Invariant
begin

text \<open>
  What the operations on one agent do: each keeps the invariant (interpretations
  of \<open>agent_law\<close>), creation extends the map of its type by one name at the end of
  the list, removal takes it away, and the JSON texts are those of the new state.
\<close>

section \<open>Values\<close>

lemma model_write_found:
  "model_write env a name t vt v sz = Some (ok, a') \<Longrightarrow> model_find_io_by_name a name t = Some io \<Longrightarrow>
     \<exists>io'. write_io env (ag_enforce_constraints a) vt v sz io = Some (ok, io') \<and> a' = on_io t name (\<lambda>_. io') a"
  by (auto simp: model_write_def bind_some_eqs)

lemma model_write_wf: "agent_wf a \<Longrightarrow> model_write env a name t vt v sz = Some (ok, a') \<Longrightarrow> agent_wf a'"
  by (cases "model_find_io_by_name a name t")
    (auto simp: model_write_def bind_some_eqs same_io_def dest: write_io_wf write_io_same intro!: on_io_wf)

interpretation write_law: agent_law agent_wf "\<lambda>a. model_write env a name t vt v sz" for env name t vt v sz
  by unfold_locales (rule model_write_wf)

lemma find_on_io [simp]:
  "model_find_io_by_name (on_io t k f a) n t' =
     (if t' = t \<and> n = k then map_option f (model_find_io_by_name a k t) else model_find_io_by_name a n t')"
proof (cases "ag_definition a")
  case (Some d)
  then show ?thesis
    by (cases t; cases t') (simp_all add: model_find_io_by_name_def on_io_def put_io_def set_ios_def io_names_def
        io_table_def zh_lookup_update)
qed (simp add: model_find_io_by_name_def on_io_def)

text \<open>A write reaches the io it names and no other; a refused write changes nothing.\<close>

lemma on_io_same: "model_find_io_by_name a k t = Some io \<Longrightarrow> agent_wf a \<Longrightarrow> on_io t k (\<lambda>_. io) a = a"
proof (cases "ag_definition a")
  case (Some d)
  assume f: "model_find_io_by_name a k t = Some io" and wf: "agent_wf a"
  have "zh_lookup (io_table t d) k = Some io" using f Some by (simp add: model_find_io_by_name_def)
  moreover have "zh_wf (io_table t d)"
    using wf Some definition_wf_ios [of d t] by (simp add: agent_wf_def ios_ok_def registered_def)
  ultimately have "zh_update k (\<lambda>_. io) (io_table t d) = io_table t d"
    using zh_lookup_wf [of "io_table t d" k] unfolding zh_update_def by (intro map_idI) auto
  then have "put_io t k (\<lambda>_. io) d = d" unfolding put_io_put by simp
  then show ?thesis using Some by (cases a) (simp add: on_io_def)
qed (simp add: on_io_def)

lemma model_write_refused:
  "agent_wf a \<Longrightarrow> model_write env a name t vt v sz = Some (False, a') \<Longrightarrow> a' = a"
  by (cases "model_find_io_by_name a name t")
    (auto simp: model_write_def bind_some_eqs on_io_same dest!: write_io_same)

lemma clear_io_law: "agent_wf a \<Longrightarrow> agent_wf (s_model_clear_io a name t)"
  by (auto simp: s_model_clear_io_def clear_io_wf clear_io_same [unfolded same_io_def] split: option.splits intro!: on_io_wf)

lemma io_wf_meta: "io_wf (io\<lparr> io_constraint := x \<rparr>) = io_wf io" "io_wf (io\<lparr> io_description := y \<rparr>) = io_wf io"
  "io_wf (io\<lparr> io_detailed_type := y, io_specification := y' \<rparr>) = io_wf io"
  "io_wf (io\<lparr> io_callbacks := cbs \<rparr>) = io_wf io" "io_wf (io\<lparr> io_is_muted := b \<rparr>) = io_wf io"
  by (cases "io_value_type io"; simp add: io_wf_def)+

lemma on_io_meta_wf:
  "agent_wf a \<Longrightarrow> agent_wf (on_io t name (\<lambda>io. io\<lparr> io_constraint := x \<rparr>) a)"
  "agent_wf a \<Longrightarrow> agent_wf (on_io t name (\<lambda>io. io\<lparr> io_description := y \<rparr>) a)"
  "agent_wf a \<Longrightarrow> agent_wf (on_io t name (\<lambda>io. io\<lparr> io_detailed_type := y, io_specification := y' \<rparr>) a)"
  "agent_wf a \<Longrightarrow> agent_wf (on_io t name (\<lambda>io. io\<lparr> io_callbacks := cbs io \<rparr>) a)"
  "agent_wf a \<Longrightarrow> agent_wf (on_io t name (\<lambda>io. io\<lparr> io_is_muted := b \<rparr>) a)"
  by (rule on_io_wf; simp add: io_wf_meta)+

lemma observe_wf: "agent_wf a \<Longrightarrow> agent_wf (s_model_observe a name t cb d)"
  by (simp add: s_model_observe_def on_io_meta_wf split: option.splits)

lemma model_setters_wf:
  "agent_wf a \<Longrightarrow> s_model_add_constraint env a t name s = Some (r, a') \<Longrightarrow> agent_wf a'"
  "agent_wf a \<Longrightarrow> s_model_set_description a t name s = Some (r, a') \<Longrightarrow> agent_wf a'"
  "agent_wf a \<Longrightarrow> s_model_set_detailed_type a t name s s' = Some (r, a') \<Longrightarrow> agent_wf a'"
  by (auto simp: s_model_add_constraint_def s_model_set_description_def s_model_set_detailed_type_def bind_some_eqs
      Let_def on_io_meta_wf split: option.splits if_splits dest!: definition_changed_wf)

interpretation add_constraint_law: agent_law agent_wf "\<lambda>a. s_model_add_constraint env a t name s" for env t name s
  by unfold_locales (rule model_setters_wf)

interpretation set_description_law: agent_law agent_wf "\<lambda>a. s_model_set_description a t name s" for t name s
  by unfold_locales (rule model_setters_wf)

interpretation set_detailed_type_law: agent_law agent_wf "\<lambda>a. s_model_set_detailed_type a t name s s'" for t name s s'
  by unfold_locales (rule model_setters_wf)

section \<open>Creation and removal\<close>

lemma new_io_wf [simp]: "io_wf (new_io n t vt)"
  by (cases vt) (simp_all add: io_wf_def new_io_def)

lemma new_io_fields [simp]: "io_name (new_io n t vt) = n" "io_type (new_io n t vt) = t"
  "io_value_type (new_io n t vt) = vt" "io_constraint (new_io n t vt) = None"
  "io_s (new_io n t vt) = None"
  by (simp_all add: new_io_def)

lemma add_io_wf:
  "definition_wf d \<Longrightarrow> definition_add_io_to_definition (new_io n t vt) t d = (r, d') \<Longrightarrow> definition_wf d'"
  using io_add_wf [of d t "new_io n t vt"] by (auto simp: definition_add_io_to_definition_def split: option.splits)

lemma create_io_cases:
  assumes "definition_create_io env a name t n v sz = Some (made, a')"
  obtains (bad_type) "value_type_of n = None" "\<not> made" "a' = a"
  | (exists) d nm vt io where "ag_definition a = Some d" "strndup_str name IGS_MAX_IO_NAME_LENGTH = Some nm"
      "value_type_of n = Some vt" "zh_lookup (io_table t d) nm = Some io" "\<not> made" "a' = a"
  | (created) d nm vt w where "ag_definition a = Some d" "strndup_str name IGS_MAX_IO_NAME_LENGTH = Some nm"
      "value_type_of n = Some vt" "zh_lookup (io_table t d) nm = None" made
      "model_write env (a\<lparr> ag_definition := Some (put_ios t (reg_add nm (new_io nm t vt) (io_names t d, io_table t d)) d) \<rparr>)
         nm t vt v sz = Some (w, a')"
  using assms unfolding definition_create_io_def definition_add_io_to_definition_def
  by (cases "value_type_of n") (auto simp: bind_some_eqs split: option.splits)

lemma create_io_wf:
  assumes "agent_wf a" and "definition_create_io env a name t n v sz = Some (made, a')"
  shows "agent_wf a'"
  using assms(2)
proof (cases rule: create_io_cases)
  case (created d nm vt w)
  have "definition_wf (put_ios t (reg_add nm (new_io nm t vt) (io_names t d, io_table t d)) d)"
    using io_add_wf [of d t "new_io nm t vt"] created assms(1) by (simp add: agent_wf_def)
  then show ?thesis by (intro model_write_wf [OF _ created(6)]) (simp add: agent_wf_def)
qed (use assms in simp_all)

lemma create_body_wf: "agent_wf a \<Longrightarrow> create_body env name t n v sz a = Some (r, a') \<Longrightarrow> agent_wf a'"
  by (auto simp: create_body_def bind_some_eqs split: if_splits dest: create_io_wf definition_changed_wf)

lemma remove_body_wf: "agent_wf a \<Longrightarrow> remove_body t name a = Some (r, a') \<Longrightarrow> agent_wf a'"
  by (auto simp: remove_body_def bind_some_eqs split: option.splits elim!: definition_changed_wf)
    (auto simp: agent_wf_def intro: io_remove_wf)

lemma clear_definition_wf: "clear_definition a = Some a' \<Longrightarrow> agent_wf a'"
  by (rule definition_changed_wf)
    (auto simp: clear_definition_def Let_def agent_wf_def empty_definition_def definition_wf_def ios_ok_def
      services_ok_def io_names_def io_table_def)

interpretation create_law: agent_law agent_wf "create_body env name t n v sz" for env name t n v sz
  by unfold_locales (rule create_body_wf)

interpretation remove_law: agent_law agent_wf "remove_body t name" for t name
  by unfold_locales (rule remove_body_wf)


section \<open>What creation and removal do to the maps\<close>

text \<open>The ios of a type as a map from names, and the text kept for the network.\<close>

definition ios_of :: "igs_io_type \<Rightarrow> igs_agent \<Rightarrow> string \<Rightarrow> igs_io option" where
  "ios_of t a = (\<lambda>n. model_find_io_by_name a n t)"

definition names_of :: "igs_io_type \<Rightarrow> igs_agent \<Rightarrow> string list" where
  "names_of t a = (case ag_definition a of None \<Rightarrow> [] | Some d \<Rightarrow> io_names t d)"

definition json_fresh :: "igs_agent \<Rightarrow> bool" where
  "json_fresh a \<longleftrightarrow> (case ag_definition a of None \<Rightarrow> False | Some d \<Rightarrow> df_json d = Some (definition_text d))"

definition good_name :: "string \<Rightarrow> bool" where
  "good_name n \<longleftrightarrow> n \<noteq> [] \<and> no_nul n \<and> (\<forall>c \<in> set n. \<not> is_ctl c) \<and> length n \<le> IGS_MAX_IO_NAME_LENGTH"

lemma good_name_checks:
  "good_name n \<Longrightarrow> model_check_string (wr_cstr n) (int IGS_MAX_IO_NAME_LENGTH) = Some True"
  "good_name n \<Longrightarrow> strndup_str n IGS_MAX_IO_NAME_LENGTH = Some n"
  by (simp_all add: good_name_def check_string_result max_of_def IGS_MAX_IO_NAME_LENGTH_def)

lemma definition_changed_maps:
  assumes "definition_changed a = Some a'" and "agent_wf a"
  shows "ios_of t a' = ios_of t a" "names_of t a' = names_of t a" "json_fresh a'" "ag_need_definition_update a'"
    "ag_uuid a' = ag_uuid a"
proof -
  obtain d where d: "ag_definition a = Some d" using assms(1) by (auto simp: definition_changed_def bind_some_eqs)
  then have "a' = a\<lparr> ag_definition := Some (refreshed d), ag_need_definition_update := True \<rparr>"
    using assms by (simp add: definition_changed_result agent_wf_def)
  then show "ios_of t a' = ios_of t a" "names_of t a' = names_of t a" "json_fresh a'" "ag_need_definition_update a'"
    "ag_uuid a' = ag_uuid a"
    using d by (simp_all add: ios_of_def model_find_io_by_name_def names_of_def json_fresh_def refreshed_text)
qed

lemma definition_changed_defined:
  "ag_definition a = Some d \<Longrightarrow> agent_wf a \<Longrightarrow> \<exists>a'. definition_changed a = Some a'"
  by (simp add: definition_changed_result agent_wf_def)

lemma ios_of_on_io: "ios_of t' (on_io t k (\<lambda>_. io') a) =
   (if t' = t \<and> ios_of t a k \<noteq> None then (ios_of t a)(k \<mapsto> io') else ios_of t' a)"
  by (auto simp: ios_of_def fun_eq_iff)

lemma names_of_on_io [simp]: "names_of t' (on_io t k f a) = names_of t' a"
  by (cases t; cases t') (simp_all add: names_of_def on_io_def put_io_def set_ios_def io_names_def split: option.splits)

lemma on_io_other [simp]: "ag_uuid (on_io t k f a) = ag_uuid a" "ag_definition (on_io t k f a) = None \<longleftrightarrow> ag_definition a = None"
  by (simp_all add: on_io_def)

lemma ios_of_put:
  "ios_of t (a\<lparr> ag_definition := Some (put_ios t r d) \<rparr>) = zh_lookup (snd r)"
  "names_of t (a\<lparr> ag_definition := Some (put_ios t r d) \<rparr>) = fst r"
  by (simp_all add: ios_of_def model_find_io_by_name_def names_of_def)

lemma ios_of_put_other:
  "t' \<noteq> t \<Longrightarrow> ag_definition a = Some d \<Longrightarrow> ios_of t' (a\<lparr> ag_definition := Some (put_ios t r d) \<rparr>) = ios_of t' a"
  "t' \<noteq> t \<Longrightarrow> ag_definition a = Some d \<Longrightarrow> names_of t' (a\<lparr> ag_definition := Some (put_ios t r d) \<rparr>) = names_of t' a"
  by (simp_all add: ios_of_def model_find_io_by_name_def names_of_def put_ios_other)

lemma create_body_fresh:
  assumes wf: "agent_wf a" and d: "ag_definition a = Some d" and n: "good_name name"
    and vt: "value_type_of n = Some vt" and fresh: "ios_of t a name = None"
    and w: "write_value vt v sz (new_io name t vt) = Some (ok, io)"
  shows "\<exists>a'. create_body env name t n v sz a = Some (IGS_SUCCESS, a')
     \<and> ios_of t a' = (ios_of t a)(name \<mapsto> io) \<and> names_of t a' = names_of t a @ [name]
     \<and> (\<forall>t'. t' \<noteq> t \<longrightarrow> ios_of t' a' = ios_of t' a \<and> names_of t' a' = names_of t' a)
     \<and> json_fresh a' \<and> ag_need_definition_update a' \<and> agent_wf a'"
proof -
  let ?r = "reg_add name (new_io name t vt) (io_names t d, io_table t d)"
  let ?b = "a\<lparr> ag_definition := Some (put_ios t ?r d) \<rparr>"
  have look: "zh_lookup (io_table t d) = ios_of t a" using d by (simp add: ios_of_def model_find_io_by_name_def fun_eq_iff)
  have b: "ios_of t ?b = (ios_of t a)(name \<mapsto> new_io name t vt)"
    using fresh look by (auto simp: ios_of_put reg_add_def table_simps fun_eq_iff)
  then have "model_find_io_by_name ?b name t = Some (new_io name t vt)" by (simp add: ios_of_def fun_eq_iff)
  then have mw: "model_write env ?b name t vt v sz = Some (ok, on_io t name (\<lambda>_. io) ?b)"
    using w by (simp add: model_write_def write_io_def)
  have made: "definition_create_io env a name t n v sz = Some (True, on_io t name (\<lambda>_. io) ?b)"
    using d n vt fresh look mw
    by (simp add: definition_create_io_def good_name_checks definition_add_io_to_definition_def)
  have wf': "agent_wf (on_io t name (\<lambda>_. io) ?b)" by (rule create_io_wf [OF wf made])
  obtain a' where a': "definition_changed (on_io t name (\<lambda>_. io) ?b) = Some a'"
    using definition_changed_defined [OF _ wf'] by (cases "ag_definition (on_io t name (\<lambda>_. io) ?b)") (auto simp: on_io_def)
  have "create_body env name t n v sz a = Some (IGS_SUCCESS, a')" using made a' by (simp add: create_body_def)
  moreover have "ios_of t a' = (ios_of t a)(name \<mapsto> io)"
    by (simp add: definition_changed_maps [OF a' wf'] ios_of_on_io b)
  moreover have "names_of t a' = names_of t a @ [name]"
    using d by (simp add: definition_changed_maps [OF a' wf'] ios_of_put reg_add_def) (simp add: names_of_def)
  moreover have "ios_of t' a' = ios_of t' a \<and> names_of t' a' = names_of t' a" if "t' \<noteq> t" for t'
    using that d by (simp add: definition_changed_maps [OF a' wf'] ios_of_on_io ios_of_put_other)
  ultimately show ?thesis
    using definition_changed_maps [OF a' wf'] definition_changed_wf [OF a' wf'] by blast
qed

lemma create_body_taken:
  assumes "agent_wf a" and "good_name name" and "ios_of t a name = Some io"
  shows "create_body env name t n v sz a = Some (IGS_FAILURE, a)"
proof (cases "ag_definition a")
  case (Some d)
  with assms show ?thesis
    by (cases "value_type_of n") (auto simp: create_body_def definition_create_io_def good_name_checks ios_of_def
        definition_add_io_to_definition_def model_find_io_by_name_def)
qed (use assms in \<open>simp add: ios_of_def model_find_io_by_name_def\<close>)

lemma remove_body_present:
  assumes wf: "agent_wf a" and io: "ios_of t a name = Some io"
  shows "\<exists>a'. remove_body t name a = Some (IGS_SUCCESS, a')
     \<and> ios_of t a' = (ios_of t a)(name := None) \<and> names_of t a' = filter (\<lambda>n. n \<noteq> name) (names_of t a)
     \<and> (\<forall>t'. t' \<noteq> t \<longrightarrow> ios_of t' a' = ios_of t' a \<and> names_of t' a' = names_of t' a)
     \<and> json_fresh a' \<and> ag_need_definition_update a' \<and> agent_wf a'"
proof -
  have "ag_definition a \<noteq> None" using io by (cases "ag_definition a") (simp_all add: ios_of_def model_find_io_by_name_def)
  then obtain d where d: "ag_definition a = Some d" by blast
  then have ok: "definition_wf d" using wf by (simp add: agent_wf_def)
  have f: "model_find_io_by_name a name t = Some io" using io by (simp add: ios_of_def)
  then have nm: "io_name io = name" using found_wf wf by blast
  let ?r = "reg_remove name (io_names t d, io_table t d)"
  let ?b = "a\<lparr> ag_definition := Some (put_ios t ?r d) \<rparr>"
  have wfb: "agent_wf ?b" using io_remove_wf [OF ok] by (simp add: agent_wf_def)
  obtain a' where a': "definition_changed ?b = Some a'"
    using definition_changed_defined [OF _ wfb] by auto
  have "remove_body t name a = Some (IGS_SUCCESS, a')" using d f nm a' by (simp add: remove_body_def)
  moreover have "ios_of t a = zh_lookup (io_table t d)" using d by (simp add: ios_of_def model_find_io_by_name_def)
  then have "ios_of t a' = (ios_of t a)(name := None)"
    by (auto simp: definition_changed_maps [OF a' wfb] ios_of_put reg_remove_def table_simps fun_eq_iff)
  moreover have "names_of t a = io_names t d" using d by (simp add: names_of_def)
  then have "names_of t a' = filter (\<lambda>n. n \<noteq> name) (names_of t a)"
    using definition_wf_ios [OF ok, of t] reg_remove_names
    by (fastforce simp: definition_changed_maps [OF a' wfb] ios_of_put reg_remove_def ios_ok_def)
  moreover have "ios_of t' a' = ios_of t' a \<and> names_of t' a' = names_of t' a" if "t' \<noteq> t" for t'
    using that d by (simp add: definition_changed_maps [OF a' wfb] ios_of_put_other)
  ultimately show ?thesis
    using definition_changed_maps [OF a' wfb] definition_changed_wf [OF a' wfb] by blast
qed

end
