(* ===== verification/Yajl_Lex.thy ===== *)
theory Yajl_Lex
  imports Yajl_Codec
begin

text \<open>
  The lexer of JSON text (src/src/yajl_lex.c). A chunk of text is a byte string
  and \<open>*offset\<close> a position in it; the lexer keeps the text of a token that the
  previous chunk left unfinished, and reads that text first. \<open>lex_at\<close> is the
  lexer with the offset.

  \<open>None\<close> is what C does not define: a read past the end of the chunk, a position
  decremented below zero, a failed \<open>assert\<close>. The macros that return from the
  middle of a function are values \<open>Inl\<close> of a sum, and \<open>andthen\<close> goes on with the
  others.
\<close>

section \<open>Tokens, errors and the table of characters\<close>

datatype igsyajl_tok = tok_bool | tok_colon | tok_comma | tok_eof | tok_error | tok_left_brace
  | tok_left_bracket | tok_null | tok_right_brace | tok_right_bracket | tok_integer | tok_double
  | tok_string | tok_string_with_escapes | tok_comment

datatype igsyajl_lex_error = lex_e_ok | lex_string_invalid_utf8 | lex_string_invalid_escaped_char
  | lex_string_invalid_json_char | lex_string_invalid_hex_char | lex_invalid_char
  | lex_invalid_string | lex_missing_integer_after_decimal | lex_missing_integer_after_exponent
  | lex_missing_integer_after_minus | lex_unallowed_comment

definition igsyajl_lex_error_to_string :: "igsyajl_lex_error \<Rightarrow> string" where
  "igsyajl_lex_error_to_string e =
     (case e of
        lex_e_ok \<Rightarrow> ''ok, no error''
      | lex_string_invalid_utf8 \<Rightarrow> ''invalid bytes in UTF8 string.''
      | lex_string_invalid_escaped_char \<Rightarrow>
          ''inside a string, '' @ [CHR 0x27, CHR 0x5C, CHR 0x27] @ '' occurs before a character which it may not.''
      | lex_string_invalid_json_char \<Rightarrow> ''invalid character inside string.''
      | lex_string_invalid_hex_char \<Rightarrow>
          ''invalid (non-hex) character occurs after '' @ [CHR 0x27, CHR 0x5C, CHR ''u'', CHR 0x27] @ '' inside string.''
      | lex_invalid_char \<Rightarrow> ''invalid char in json text.''
      | lex_invalid_string \<Rightarrow> ''invalid string in json text.''
      | lex_missing_integer_after_exponent \<Rightarrow> ''malformed number, a digit is required after the exponent.''
      | lex_missing_integer_after_decimal \<Rightarrow> ''malformed number, a digit is required after the decimal point.''
      | lex_missing_integer_after_minus \<Rightarrow> ''malformed number, a digit is required after the minus sign.''
      | lex_unallowed_comment \<Rightarrow> ''probable comment found in input text, comments are not enabled.'')"

definition VEC :: "8 word" where "VEC = 0x01"
definition IJC :: "8 word" where "IJC = 0x02"
definition VHC :: "8 word" where "VHC = 0x04"
definition NFP :: "8 word" where "NFP = 0x08"
definition NUC :: "8 word" where "NUC = 0x10"

definition charLookupTable :: "8 word list" where
  "charLookupTable = replicate 32 IJC @
    [0, 0, NFP OR VEC OR IJC, 0, 0, 0, 0, 0,
     0, 0, 0, 0, 0, 0, 0, VEC,
     VHC, VHC, VHC, VHC, VHC, VHC, VHC, VHC,
     VHC, VHC, 0, 0, 0, 0, 0, 0,

     0, VHC, VHC, VHC, VHC, VHC, VHC, 0,
     0, 0, 0, 0, 0, 0, 0, 0,
     0, 0, 0, 0, 0, 0, 0, 0,
     0, 0, 0, 0, NFP OR VEC OR IJC, 0, 0, 0,

     0, VHC, VEC OR VHC, VHC, VHC, VHC, VEC OR VHC, 0,
     0, 0, 0, 0, 0, 0, VEC, 0,
     0, 0, VEC, 0, VEC, 0, 0, 0,
     0, 0, 0, 0, 0, 0, 0, 0] @ replicate 128 NUC"

definition char_is :: "8 word \<Rightarrow> char \<Rightarrow> bool" where
  "char_is bits c \<longleftrightarrow> charLookupTable ! of_char c AND bits \<noteq> 0"

section \<open>Reading\<close>

record igsyajl_lexer =
  lx_lineOff :: nat
  lx_charOff :: nat
  lx_error :: igsyajl_lex_error
  lx_buf :: string
  lx_bufOff :: nat
  lx_bufInUse :: bool
  lx_allowComments :: bool
  lx_validateUTF8 :: bool

definition igsyajl_lex_alloc :: "bool \<Rightarrow> bool \<Rightarrow> igsyajl_lexer" where
  "igsyajl_lex_alloc allowComments validateUTF8 =
     \<lparr> lx_lineOff = 0, lx_charOff = 0, lx_error = lex_e_ok, lx_buf = [], lx_bufOff = 0,
       lx_bufInUse = False, lx_allowComments = allowComments, lx_validateUTF8 = validateUTF8 \<rparr>"

type_synonym lex_at = "igsyajl_lexer \<times> nat"

definition from_buf :: "igsyajl_lexer \<Rightarrow> bool" where
  "from_buf lx \<longleftrightarrow> lx_bufInUse lx \<and> lx_buf lx \<noteq> [] \<and> lx_bufOff lx < length (lx_buf lx)"

fun readChar :: "string \<Rightarrow> lex_at \<Rightarrow> (char \<times> lex_at) option" where
  "readChar js (lx, off) =
     (if from_buf lx then
        Some (lx_buf lx ! lx_bufOff lx, lx\<lparr> lx_bufOff := lx_bufOff lx + 1 \<rparr>, off)
      else if off < length js then Some (js ! off, lx, off + 1)
      else None)"

fun unreadChar :: "lex_at \<Rightarrow> lex_at option" where
  "unreadChar (lx, off) =
     (if 0 < off then Some (lx, off - 1)
      else if 0 < lx_bufOff lx then Some (lx\<lparr> lx_bufOff := lx_bufOff lx - 1 \<rparr>, off)
      else None)"

text \<open>The bytes still to read: every character read makes them fewer.\<close>

fun left :: "string \<Rightarrow> lex_at \<Rightarrow> nat" where
  "left js (lx, off) =
     (if lx_bufInUse lx then length (lx_buf lx) - lx_bufOff lx else 0) + (length js - off)"

declare left.simps [simp del]

lemma readChar_left: "readChar js p = Some (c, q) \<Longrightarrow> left js q < left js p"
  by (cases p) (auto simp: from_buf_def left.simps split: if_splits)

section \<open>Returning early\<close>

type_synonym lexed = "igsyajl_tok \<times> lex_at"

definition andthen :: "('r + 'a) option \<Rightarrow> ('a \<Rightarrow> ('r + 'b) option) \<Rightarrow> ('r + 'b) option" where
  "andthen m f = (case m of None \<Rightarrow> None | Some (Inl r) \<Rightarrow> Some (Inl r) | Some (Inr x) \<Rightarrow> f x)"

lemma andthen_cong [fundef_cong]:
  "m = m' \<Longrightarrow> (\<And>x. m' = Some (Inr x) \<Longrightarrow> f x = f' x) \<Longrightarrow> andthen m f = andthen m' f'"
  by (auto simp: andthen_def split: option.splits sum.splits)

lemma andthen_simps [simp]: "andthen None f = None" "andthen (Some (Inl r)) f = Some (Inl r)"
  "andthen (Some (Inr x)) f = f x"
  by (simp_all add: andthen_def)

lemma andthen_Inr_iff: "andthen m f = Some (Inr y) \<longleftrightarrow> (\<exists>x. m = Some (Inr x) \<and> f x = Some (Inr y))"
  by (auto simp: andthen_def split: option.splits sum.splits)

lemma andthen_Inl_iff:
  "andthen m f = Some (Inl r) \<longleftrightarrow> m = Some (Inl r) \<or> (\<exists>x. m = Some (Inr x) \<and> f x = Some (Inl r))"
  by (auto simp: andthen_def split: option.splits sum.splits)

definition returned :: "('r + 'r) option \<Rightarrow> 'r option" where
  "returned m = map_option (case_sum id id) m"

lemma returned_simps [simp]: "returned None = None" "returned (Some (Inl r)) = Some r"
  "returned (Some (Inr r)) = Some r"
  by (simp_all add: returned_def)

lemma returned_Some_iff: "returned m = Some r \<longleftrightarrow> m = Some (Inl r) \<or> m = Some (Inr r)"
proof (cases m)
  case (Some x)
  then show ?thesis by (cases x) simp_all
qed simp

definition go :: "'a \<Rightarrow> ('r + 'a) option" where
  "go x = Some (Inr x)"

definition stop :: "'r \<Rightarrow> ('r + 'a) option" where
  "stop r = Some (Inl r)"

lemma go_stop [simp]: "go x \<noteq> Some (Inl r)" "stop r \<noteq> Some (Inr x)" "go x = Some (Inr y) \<longleftrightarrow> x = y"
  "go x = go y \<longleftrightarrow> x = y"
  "stop r = Some (Inl s) \<longleftrightarrow> r = s" "go x \<noteq> None" "stop r \<noteq> None"
  "andthen (go x) f = f x" "andthen (stop r) f = stop r" "returned (go s) = Some s" "returned (stop s) = Some s"
  by (simp_all add: go_def stop_def)

text \<open>\<open>RETURN_IF_EOF\<close> or \<open>STR_CHECK_EOF\<close> and the read that follows it.\<close>

definition next_char :: "string \<Rightarrow> lex_at \<Rightarrow> (lexed + char \<times> lex_at) option" where
  "next_char js p =
     (if length js \<le> snd p then stop (tok_eof, p)
      else case readChar js p of None \<Rightarrow> None | Some x \<Rightarrow> go x)"

definition with_error :: "igsyajl_lex_error \<Rightarrow> lex_at \<Rightarrow> lexed" where
  "with_error e p = (tok_error, (fst p)\<lparr> lx_error := e \<rparr>, snd p)"

text \<open>Back up to the offending character.\<close>

definition offended :: "igsyajl_lex_error \<Rightarrow> lex_at \<Rightarrow> (lexed + 'a) option" where
  "offended e p = (case unreadChar p of None \<Rightarrow> None | Some p \<Rightarrow> stop (with_error e p))"

lemma offended_not_Inr [simp]: "offended e p \<noteq> Some (Inr x)"
  by (auto simp: offended_def split: option.splits)

lemma next_char_left: "next_char js p = Some (Inr (c, q)) \<Longrightarrow> left js q < left js p"
  using readChar_left by (auto simp: next_char_def split: if_splits option.splits)

lemma next_char_eof: "next_char js p = Some (Inl r) \<Longrightarrow> r = (tok_eof, p)"
  by (auto simp: next_char_def split: if_splits option.splits)

section \<open>Strings\<close>

fun utf8_conts :: "nat \<Rightarrow> string \<Rightarrow> lex_at \<Rightarrow> lexed option" where
  "utf8_conts 0 js p = Some (tok_string, p)"
| "utf8_conts (Suc n) js p =
     returned (andthen (next_char js p) (\<lambda>(c, p).
       if is_cont c then map_option Inl (utf8_conts n js p) else stop (tok_error, p)))"

definition igsyajl_lex_utf8_char :: "string \<Rightarrow> lex_at \<Rightarrow> char \<Rightarrow> lexed option" where
  "igsyajl_lex_utf8_char js p curChar =
     (case lead_len curChar of None \<Rightarrow> Some (tok_error, p) | Some n \<Rightarrow> utf8_conts n js p)"

text \<open>The run of bytes, in the buffer or in the chunk, that need no look.\<close>

definition igsyajl_string_scan :: "string \<Rightarrow> bool \<Rightarrow> nat" where
  "igsyajl_string_scan buf utf8check =
     length (takeWhile (\<lambda>c. \<not> char_is (IJC OR NFP OR (if utf8check then NUC else 0)) c) buf)"

fun skip_scanned :: "string \<Rightarrow> lex_at \<Rightarrow> lex_at" where
  "skip_scanned js (lx, off) =
     (if from_buf lx then
        (lx\<lparr> lx_bufOff := lx_bufOff lx + igsyajl_string_scan (drop (lx_bufOff lx) (lx_buf lx)) (lx_validateUTF8 lx) \<rparr>, off)
      else if off < length js then (lx, off + igsyajl_string_scan (drop off js) (lx_validateUTF8 lx))
      else (lx, off))"

fun lex_hex :: "nat \<Rightarrow> string \<Rightarrow> lex_at \<Rightarrow> (lexed + lex_at) option" where
  "lex_hex 0 js p = go p"
| "lex_hex (Suc n) js p =
     andthen (next_char js p) (\<lambda>(c, p).
       if char_is VHC c then lex_hex n js p else offended lex_string_invalid_hex_char p)"

text \<open>What follows a backslash.\<close>

definition lex_escape :: "string \<Rightarrow> lex_at \<Rightarrow> (lexed + lex_at) option" where
  "lex_escape js p =
     andthen (next_char js p) (\<lambda>(c, p).
       if c = CHR ''u'' then lex_hex 4 js p
       else if \<not> char_is VEC c then offended lex_string_invalid_escaped_char p
       else go p)"

text \<open>Any other character inside a string.\<close>

definition lex_inside :: "string \<Rightarrow> char \<Rightarrow> lex_at \<Rightarrow> (lexed + lex_at) option" where
  "lex_inside js c p =
     (if char_is IJC c then offended lex_string_invalid_json_char p
      else if lx_validateUTF8 (fst p) then
        (case igsyajl_lex_utf8_char js p c of
           None \<Rightarrow> None
         | Some (t, p) \<Rightarrow>
             if t = tok_eof then stop (tok_eof, p)
             else if t = tok_error then stop (with_error lex_string_invalid_utf8 p)
             else go p)
      else go p)"

lemma skip_scanned_left: "left js (skip_scanned js p) \<le> left js p"
  by (cases p) (auto simp: left.simps)

lemma unread_left: "unreadChar p = Some q \<Longrightarrow> left js q \<le> Suc (left js p)"
  by (cases p) (auto simp: left.simps split: if_splits)

lemma lex_hex_left: "lex_hex n js p = Some (Inr q) \<Longrightarrow> left js q \<le> left js p"
proof (induction n arbitrary: p)
  case (Suc n)
  then show ?case
    by (fastforce simp: andthen_Inr_iff dest: next_char_left split: if_splits)
qed simp

lemma lex_escape_left: "lex_escape js p = Some (Inr q) \<Longrightarrow> left js q \<le> left js p"
  by (fastforce simp: lex_escape_def andthen_Inr_iff dest: next_char_left lex_hex_left split: if_splits)

lemma utf8_conts_left: "utf8_conts n js p = Some (t, q) \<Longrightarrow> left js q \<le> left js p"
proof (induction n arbitrary: p)
  case (Suc n)
  then show ?case
    by (fastforce simp: returned_Some_iff andthen_Inr_iff andthen_Inl_iff
        dest: next_char_left next_char_eof split: if_splits)
qed simp

lemma lex_inside_left: "lex_inside js c p = Some (Inr q) \<Longrightarrow> left js q \<le> left js p"
  by (auto simp: lex_inside_def igsyajl_lex_utf8_char_def split: option.splits if_splits dest: utf8_conts_left)

function lex_string_loop :: "bool \<Rightarrow> string \<Rightarrow> lex_at \<Rightarrow> (lexed + lexed) option" where
  "lex_string_loop hasEscapes js p =
     andthen (next_char js (skip_scanned js p)) (\<lambda>(c, p).
       if c = CHR 0x22 then stop ((if hasEscapes then tok_string_with_escapes else tok_string), p)
       else if c = CHR 0x5C then
         andthen (lex_escape js p) (\<lambda>p. lex_string_loop True js p)
       else andthen (lex_inside js c p) (\<lambda>p. lex_string_loop hasEscapes js p))"
  by pat_completeness auto
termination
proof (relation "measure (\<lambda>(_, js, p). left js p)", goal_cases)
  case 1
  show ?case by simp
next
  case (2 hasEscapes js p x c p1 p2)
  then show ?case
    using skip_scanned_left [of js p] next_char_left [of js "skip_scanned js p" c p1]
      lex_escape_left [of js p1 p2] by simp
next
  case (3 hasEscapes js p x c p1 p2)
  then show ?case
    using skip_scanned_left [of js p] next_char_left [of js "skip_scanned js p" c p1]
      lex_inside_left [of js c p1 p2] by simp
qed

declare lex_string_loop.simps [simp del]

definition igsyajl_lex_string :: "string \<Rightarrow> lex_at \<Rightarrow> lexed option" where
  "igsyajl_lex_string js p = returned (lex_string_loop False js p)"

section \<open>Numbers\<close>

text \<open>\<open>do { RETURN_IF_EOF; c = readChar } while (c is a digit)\<close>.\<close>

function lex_digits :: "string \<Rightarrow> lex_at \<Rightarrow> (lexed + char \<times> lex_at) option" where
  "lex_digits js p =
     andthen (next_char js p) (\<lambda>(c, p). if is_digit_char c then lex_digits js p else go (c, p))"
  by pat_completeness auto
termination by (relation "measure (\<lambda>(js, p). left js p)") (auto dest: next_char_left)

declare lex_digits.simps [simp del]

text \<open>The integer part, the fraction and the exponent, from their first character.\<close>

fun lex_int :: "string \<Rightarrow> char \<times> lex_at \<Rightarrow> (lexed + char \<times> lex_at) option" where
  "lex_int js (c, p) =
     (if c = CHR ''0'' then next_char js p
      else if is_digit_char c then lex_digits js p
      else offended lex_missing_integer_after_minus p)"

fun lex_frac :: "string \<Rightarrow> char \<times> lex_at \<Rightarrow> (lexed + igsyajl_tok \<times> char \<times> lex_at) option" where
  "lex_frac js (c, p) =
     (if c = CHR ''.'' then
        andthen (next_char js p) (\<lambda>(c, p).
        andthen (if is_digit_char c then lex_digits js p
                 else offended lex_missing_integer_after_decimal p) (\<lambda>(c, p).
        go (tok_double, c, p)))
      else go (tok_integer, c, p))"

fun lex_exp :: "string \<Rightarrow> igsyajl_tok \<times> char \<times> lex_at \<Rightarrow> (lexed + igsyajl_tok \<times> lex_at) option" where
  "lex_exp js (tok, c, p) =
     (if c = CHR ''e'' \<or> c = CHR ''E'' then
        andthen (next_char js p) (\<lambda>(c, p).
        andthen (if c = CHR ''+'' \<or> c = CHR ''-'' then next_char js p else go (c, p)) (\<lambda>(c, p).
        andthen (if is_digit_char c then lex_digits js p
                 else offended lex_missing_integer_after_exponent p) (\<lambda>(c, p).
        go (tok_double, p))))
      else go (tok, p))"

definition igsyajl_lex_number :: "string \<Rightarrow> lex_at \<Rightarrow> lexed option" where
  "igsyajl_lex_number js p = returned (
     andthen (next_char js p) (\<lambda>(c, p).
     andthen (if c = CHR ''-'' then next_char js p else go (c, p)) (\<lambda>x.
     andthen (lex_int js x) (\<lambda>x.
     andthen (lex_frac js x) (\<lambda>x.
     andthen (lex_exp js x) (\<lambda>(tok, p).
     case unreadChar p of None \<Rightarrow> None | Some p \<Rightarrow> stop (tok, p)))))))"

section \<open>Comments\<close>

function lex_line_comment :: "string \<Rightarrow> lex_at \<Rightarrow> (lexed + lexed) option" where
  "lex_line_comment js p =
     andthen (next_char js p) (\<lambda>(c, p).
       if c = CHR 0x0A then go (tok_comment, p) else lex_line_comment js p)"
  by pat_completeness auto
termination by (relation "measure (\<lambda>(js, p). left js p)") (auto dest: next_char_left)

function lex_block_comment :: "string \<Rightarrow> lex_at \<Rightarrow> (lexed + lexed) option" where
  "lex_block_comment js p =
     andthen (next_char js p) (\<lambda>(c, p).
       if c = CHR ''*'' then
         andthen (next_char js p) (\<lambda>(c, p).
           if c = CHR ''/'' then go (tok_comment, p)
           else case unreadChar p of None \<Rightarrow> None | Some p \<Rightarrow> lex_block_comment js p)
       else lex_block_comment js p)"
  by pat_completeness auto
termination
proof (relation "measure (\<lambda>(js, p). left js p)", goal_cases)
  case 1
  show ?case by simp
next
  case (2 js p x c p1 y d p2 p3)
  then show ?case
    using next_char_left [of js p c p1] next_char_left [of js p1 d p2] unread_left [of p2 p3 js] by simp
next
  case (3 js p x c p1)
  then show ?case using next_char_left [of js p c p1] by simp
qed

declare lex_line_comment.simps [simp del] lex_block_comment.simps [simp del]

definition igsyajl_lex_comment :: "string \<Rightarrow> lex_at \<Rightarrow> lexed option" where
  "igsyajl_lex_comment js p = returned (
     andthen (next_char js p) (\<lambda>(c, p).
       if c = CHR ''/'' then lex_line_comment js p
       else if c = CHR ''*'' then lex_block_comment js p
       else stop (with_error lex_invalid_char p)))"

lemma line_comment_left: "lex_line_comment js p = Some (Inr (t, q)) \<Longrightarrow> left js q \<le> left js p"
proof (induction "left js p" arbitrary: p rule: less_induct)
  case less
  then show ?case
    by (subst (asm) (2) lex_line_comment.simps)
      (fastforce simp: andthen_Inr_iff dest: next_char_left split: if_splits)
qed

lemma block_comment_left: "lex_block_comment js p = Some (Inr (t, q)) \<Longrightarrow> left js q \<le> left js p"
proof (induction "left js p" arbitrary: p rule: less_induct)
  case less
  from less.prems obtain c p1 where c: "next_char js p = Some (Inr (c, p1))"
    and r: "(if c = CHR ''*'' then
         andthen (next_char js p1) (\<lambda>(c, p).
           if c = CHR ''/'' then go (tok_comment, p)
           else case unreadChar p of None \<Rightarrow> None | Some p \<Rightarrow> lex_block_comment js p)
       else lex_block_comment js p1) = Some (Inr (t, q))"
    by (subst (asm) lex_block_comment.simps) (auto simp: andthen_Inr_iff)
  note l = next_char_left [OF c]
  show ?case
  proof (cases "c = CHR ''*''")
    case False
    with r less.hyps [of p1] l show ?thesis by simp
  next
    case True
    with r obtain d p2 where d: "next_char js p1 = Some (Inr (d, p2))"
      and r2: "(if d = CHR ''/'' then go (tok_comment, p2)
           else case unreadChar p2 of None \<Rightarrow> None | Some p \<Rightarrow> lex_block_comment js p) = Some (Inr (t, q))"
      by (auto simp: andthen_Inr_iff)
    show ?thesis
    proof (cases "d = CHR ''/''")
      case True
      with r2 l next_char_left [OF d] show ?thesis by simp
    next
      case False
      with r2 obtain p3 where "unreadChar p2 = Some p3" "lex_block_comment js p3 = Some (Inr (t, q))"
        by (auto split: option.splits)
      then show ?thesis
        using less.hyps [of p3] l next_char_left [OF d] unread_left [of p2 p3 js] by simp
    qed
  qed
qed

lemma comment_not_early: "lex_line_comment js p = Some (Inl r) \<Longrightarrow> fst r = tok_eof"
  "lex_block_comment js p = Some (Inl r) \<Longrightarrow> fst r = tok_eof"
proof -
  show "lex_line_comment js p = Some (Inl r) \<Longrightarrow> fst r = tok_eof"
  proof (induction "left js p" arbitrary: p rule: less_induct)
    case less
    then show ?case
      by (subst (asm) (2) lex_line_comment.simps)
        (auto simp: andthen_Inl_iff dest: next_char_left next_char_eof split: if_splits)
  qed
  show "lex_block_comment js p = Some (Inl r) \<Longrightarrow> fst r = tok_eof"
  proof (induction "left js p" arbitrary: p rule: less_induct)
    case less
    show ?case
    proof (cases "next_char js p")
      case None
      with less.prems show ?thesis by (subst (asm) lex_block_comment.simps) simp
    next
      case (Some x)
      show ?thesis
      proof (cases x)
        case (Inl s)
        with less.prems Some show ?thesis
          by (subst (asm) lex_block_comment.simps) (auto dest: next_char_eof)
      next
        case (Inr y)
        obtain c p1 where y: "y = (c, p1)" by (cases y)
        with Some Inr have c: "next_char js p = Some (Inr (c, p1))" by simp
        with less.prems have r: "(if c = CHR ''*'' then
             andthen (next_char js p1) (\<lambda>(c, p).
               if c = CHR ''/'' then go (tok_comment, p)
               else case unreadChar p of None \<Rightarrow> None | Some p \<Rightarrow> lex_block_comment js p)
           else lex_block_comment js p1) = Some (Inl r)"
          by (subst (asm) lex_block_comment.simps) simp
        show ?thesis
        proof (cases "c = CHR ''*''")
          case False
          with r less.hyps [of p1] next_char_left [OF c] show ?thesis by simp
        next
          case True
          with r consider "next_char js p1 = Some (Inl r)"
            | d p2 p3 where "next_char js p1 = Some (Inr (d, p2))" "unreadChar p2 = Some p3"
                "lex_block_comment js p3 = Some (Inl r)"
            by (auto simp: andthen_Inl_iff split: if_splits option.splits)
          then show ?thesis
          proof cases
            case 1
            then show ?thesis by (auto dest: next_char_eof)
          next
            case 2
            then show ?thesis
              using less.hyps [of p3] next_char_left [OF c] next_char_left [of js p1 d p2]
                unread_left [of p2 p3 js] by simp
          qed
        qed
      qed
    qed
  qed
qed

lemma comment_left: "igsyajl_lex_comment js p = Some (tok_comment, q) \<Longrightarrow> left js q \<le> left js p"
proof -
  assume "igsyajl_lex_comment js p = Some (tok_comment, q)"
  then obtain c p1 where c: "next_char js p = Some (Inr (c, p1))"
    and "lex_line_comment js p1 = Some (Inr (tok_comment, q)) \<or> lex_block_comment js p1 = Some (Inr (tok_comment, q))"
    by (auto simp: igsyajl_lex_comment_def returned_Some_iff andthen_Inl_iff andthen_Inr_iff with_error_def
        dest: next_char_eof comment_not_early split: if_splits)
  then show ?thesis
    using next_char_left [OF c] line_comment_left block_comment_left by (meson order.strict_trans1 order_less_imp_le)
qed

section \<open>A token\<close>

fun lex_want :: "string \<Rightarrow> string \<Rightarrow> lex_at \<Rightarrow> (lexed + lex_at) option" where
  "lex_want [] js p = go p"
| "lex_want (w # want) js p =
     andthen (next_char js p) (\<lambda>(c, p).
       if c \<noteq> w then offended lex_invalid_string p else lex_want want js p)"

definition lex_word :: "string \<Rightarrow> igsyajl_tok \<Rightarrow> string \<Rightarrow> lex_at \<Rightarrow> lexed option" where
  "lex_word want tok js p = returned (andthen (lex_want want js p) (\<lambda>p. stop (tok, p)))"

text \<open>A token from its first character \<open>c\<close>; whitespace and comments are the business of the loop.\<close>

definition lex_token :: "string \<Rightarrow> char \<Rightarrow> lex_at \<Rightarrow> lexed option" where
  "lex_token js c p =
     (if c = CHR ''{'' then Some (tok_left_bracket, p)
      else if c = CHR ''}'' then Some (tok_right_bracket, p)
      else if c = CHR ''['' then Some (tok_left_brace, p)
      else if c = CHR '']'' then Some (tok_right_brace, p)
      else if c = CHR '','' then Some (tok_comma, p)
      else if c = CHR '':'' then Some (tok_colon, p)
      else if c = CHR ''t'' then lex_word ''rue'' tok_bool js p
      else if c = CHR ''f'' then lex_word ''alse'' tok_bool js p
      else if c = CHR ''n'' then lex_word ''ull'' tok_null js p
      else if c = CHR 0x22 then igsyajl_lex_string js p
      else if c = CHR ''-'' \<or> is_digit_char c then
        (case unreadChar p of None \<Rightarrow> None | Some p \<Rightarrow> igsyajl_lex_number js p)
      else Some (with_error lex_invalid_char p))"

definition lex_space :: "char \<Rightarrow> bool" where
  "lex_space c \<longleftrightarrow> c = CHR 0x09 \<or> c = CHR 0x0A \<or> c = CHR 0x0B \<or> c = CHR 0x0C \<or> c = CHR 0x0D \<or> c = CHR '' ''"

fun drop_buf :: "lex_at \<Rightarrow> lex_at" where
  "drop_buf (lx, off) = (lx\<lparr> lx_buf := [], lx_bufInUse := False \<rparr>, off)"

lemma drop_buf_left: "left js (drop_buf p) \<le> left js p"
  by (cases p) (simp add: left.simps)

function lex_lex_loop :: "string \<Rightarrow> nat \<Rightarrow> lex_at \<Rightarrow> (nat \<times> lexed) option" where
  "lex_lex_loop js startOffset p =
     (if length js < snd p then None
      else if length js \<le> snd p then Some (startOffset, tok_eof, p)
      else case readChar js p of
        None \<Rightarrow> None
      | Some (c, p) \<Rightarrow>
          if lex_space c then lex_lex_loop js (startOffset + 1) p
          else if c = CHR ''/'' then
            (if \<not> lx_allowComments (fst p) then
               (case unreadChar p of None \<Rightarrow> None
                | Some p \<Rightarrow> Some (startOffset, with_error lex_unallowed_comment p))
             else case igsyajl_lex_comment js p of
               None \<Rightarrow> None
             | Some (tok, p) \<Rightarrow>
                 if tok = tok_comment then lex_lex_loop js (snd p) (drop_buf p)
                 else Some (startOffset, tok, p))
          else map_option (Pair startOffset) (lex_token js c p))"
  by pat_completeness auto
termination
proof (relation "measure (\<lambda>(js, _, p). left js p)", goal_cases)
  case 1
  show ?case by simp
next
  case (2 js s p x c p1)
  then show ?case using readChar_left [of js p c p1] by simp
next
  case (3 js s p x c p1 y tok p2)
  then show ?case
    using readChar_left [of js p c p1] comment_left [of js p1 p2] drop_buf_left [of js p2] by simp
qed

declare lex_lex_loop.simps [simp del]

text \<open>
  The end of \<open>igsyajl_lex_lex\<close>: the text of the token, in the buffer or in the
  chunk (the copy of a negative number of bytes is undefined), and the quotes of
  a string left out. \<open>*outBuf\<close> is the memory from that pointer on, \<open>[]\<close> for \<open>NULL\<close>;
  the buffer ends with a NUL.
\<close>

type_synonym out_text = "string \<times> nat"

definition out_string :: "out_text \<Rightarrow> string" where
  "out_string out = take (snd out) (fst out)"

fun lex_finish :: "string \<Rightarrow> nat \<times> lexed \<Rightarrow> (out_text \<times> lexed) option" where
  "lex_finish js (startOffset, tok, lx, off) =
     do { (out, lx) \<leftarrow>
            (if tok = tok_eof \<or> lx_bufInUse lx then
               (if startOffset \<le> off then
                  (let lx = (if lx_bufInUse lx then lx else lx\<lparr> lx_buf := [] \<rparr>);
                       lx = lx\<lparr> lx_bufInUse := True, lx_bufOff := 0,
                                lx_buf := lx_buf lx @ take (off - startOffset) (drop startOffset js) \<rparr>
                   in if tok \<noteq> tok_eof then
                        Some ((lx_buf lx @ [CHR 0x00], length (lx_buf lx)), lx\<lparr> lx_bufInUse := False \<rparr>)
                      else Some (([], 0), lx))
                else None)
             else if tok \<noteq> tok_error then
               (if startOffset \<le> off then Some ((drop startOffset js, off - startOffset), lx) else None)
             else Some (([], 0), lx));
          out \<leftarrow> (if tok = tok_string \<or> tok = tok_string_with_escapes then
                    (if 2 \<le> snd out then Some (tl (fst out), snd out - 2) else None)
                  else Some out);
          Some (out, tok, lx, off) }"

definition igsyajl_lex_lex :: "string \<Rightarrow> lex_at \<Rightarrow> (out_text \<times> lexed) option" where
  "igsyajl_lex_lex js p = Option.bind (lex_lex_loop js (snd p) p) (lex_finish js)"

text \<open>The token that comes next, the lexer as it was; its error stays, and bytes added to the buffer are cut.\<close>

definition igsyajl_lex_peek :: "string \<Rightarrow> lex_at \<Rightarrow> (igsyajl_tok \<times> igsyajl_lexer) option" where
  "igsyajl_lex_peek js p =
     do { (out, tok, lx, off) \<leftarrow> igsyajl_lex_lex js p;
          if length (lx_buf (fst p)) \<le> length (lx_buf lx) then
            Some (tok, lx\<lparr> lx_bufOff := lx_bufOff (fst p), lx_bufInUse := lx_bufInUse (fst p),
                           lx_buf := take (length (lx_buf (fst p))) (lx_buf lx) \<rparr>)
          else None }"

definition igsyajl_lex_get_error :: "igsyajl_lexer \<Rightarrow> igsyajl_lex_error" where
  "igsyajl_lex_get_error lx = lx_error lx"

definition igsyajl_lex_current_line :: "igsyajl_lexer \<Rightarrow> nat" where
  "igsyajl_lex_current_line lx = lx_lineOff lx"

definition igsyajl_lex_current_char :: "igsyajl_lexer \<Rightarrow> nat" where
  "igsyajl_lex_current_char lx = lx_charOff lx"

end
