(* ===== verification/Yajl_Parser.thy ===== *)
theory Yajl_Parser
  imports Yajl_Lex C_Double
begin

text \<open>
  The parser of JSON text (src/src/yajl_parser.c, src/src/yajl.c): a stack of
  states, driven by the tokens of the lexer, that calls the functions of its
  client. A client may leave a function out (\<open>NULL\<close>, here \<open>None\<close>); what a
  function returns is whether to go on and the new context of the client.

  One pass from the label \<open>around_again\<close> is a definition; it either returns a
  status or jumps back. The loop is a partial function, so that its termination
  is something to prove.
\<close>

section \<open>Numbers\<close>

definition LLONG_MAX :: int where "LLONG_MAX = 9223372036854775807"
definition LLONG_MIN :: int where "LLONG_MIN = - LLONG_MAX - 1"

definition MAX_VALUE_TO_MULTIPLY :: int where
  "MAX_VALUE_TO_MULTIPLY = LLONG_MAX div 10 + LLONG_MAX mod 10"

text \<open>
  \<open>MAX_VALUE_TO_MULTIPLY\<close> is seven too large: for seven values that pass its test
  \<open>ret *= 10\<close> overflows a \<open>long long\<close>, which C leaves undefined (\<open>None\<close>). The second
  component of the result is \<open>errno == ERANGE\<close>.
\<close>

definition saturated :: "bool \<Rightarrow> int \<times> bool" where
  "saturated neg = ((if neg then LLONG_MIN else LLONG_MAX), True)"

fun parse_integer_loop :: "bool \<Rightarrow> int \<Rightarrow> string \<Rightarrow> (int \<times> bool) option" where
  "parse_integer_loop neg ret [] = Some ((if neg then - ret else ret), False)"
| "parse_integer_loop neg ret (c # cs) =
     (let digit = int (of_char c) - 48
      in if MAX_VALUE_TO_MULTIPLY < ret then Some (saturated neg)
         else let ret = ret * 10
              in if LLONG_MAX < ret then None
                 else if LLONG_MAX - ret < digit then Some (saturated neg)
                 else if \<not> is_digit_char c then Some (saturated neg)
                 else parse_integer_loop neg (ret + digit) cs)"

definition igsyajl_parse_integer :: "string \<Rightarrow> (int \<times> bool) option" where
  "igsyajl_parse_integer number =
     (let neg = (number \<noteq> [] \<and> hd number = CHR ''-'');
          pos = (if neg then tl number else number);
          pos = (if pos \<noteq> [] \<and> hd pos = CHR ''+'' then tl pos else pos)
      in parse_integer_loop neg 0 pos)"

text \<open>
  \<open>strtod\<close> on a number in decimal notation, the only one the lexer hands over:
  \<open>c_atof\<close>, whether \<open>errno\<close> becomes \<open>ERANGE\<close> (on overflow, and on a subnormal or
  zero result that is not exact, as in the GNU library) and whether the whole
  text was taken.
\<close>

definition decimal_parts :: "string \<Rightarrow> nat \<times> int \<times> string" where
  "decimal_parts s =
     (let (neg, r) = c_sign (dropWhile c_isspace s);
          ds = takeWhile is_digit_char r;
          (df, rest) = fraction is_digit_char (dropWhile is_digit_char r)
      in (number_val 10 (ds @ df), exponent (CHR ''e'') rest - int (length df), rest))"

definition strtod_erange :: "string \<Rightarrow> bool" where
  "strtod_erange s =
     (let w = c_atof s; (m, e, rest) = decimal_parts s
      in d_exp w = 2047 \<or>
         d_exp w = 0 \<and> d_units w * 10 ^ nat (- e) \<noteq> m * 10 ^ nat e * 2 ^ 1074)"

definition strtod_all :: "string \<Rightarrow> bool" where
  "strtod_all s =
     (let (m, e, rest) = decimal_parts s
      in case rest of
           [] \<Rightarrow> True
         | c # r \<Rightarrow> c_lower c = CHR ''e'' \<and> snd (c_sign r) \<noteq> [] \<and> list_all is_digit_char (snd (c_sign r)))"

section \<open>States, callbacks and the handle\<close>

datatype igsyajl_state = state_start | state_parse_complete | state_parse_error | state_lexical_error
  | state_map_start | state_map_sep | state_map_need_val | state_map_got_val | state_map_need_key
  | state_array_start | state_array_got_val | state_array_need_val | state_got_value

datatype igsyajl_status = status_ok | status_client_canceled | status_error

definition igsyajl_status_to_string :: "igsyajl_status \<Rightarrow> string" where
  "igsyajl_status_to_string stat =
     (case stat of status_ok \<Rightarrow> ''ok, no error'' | status_client_canceled \<Rightarrow> ''client canceled parse''
      | status_error \<Rightarrow> ''parse error'')"

type_synonym 'c callback = "'c \<Rightarrow> (bool \<times> 'c) option"

record 'c igsyajl_callbacks =
  igsyajl_null :: "'c callback option"
  igsyajl_boolean :: "(bool \<Rightarrow> 'c callback) option"
  igsyajl_integer :: "(int \<Rightarrow> 'c callback) option"
  igsyajl_double :: "(f64 \<Rightarrow> 'c callback) option"
  igsyajl_number :: "(string \<Rightarrow> 'c callback) option"
  igsyajl_string :: "(string \<Rightarrow> 'c callback) option"
  igsyajl_start_map :: "'c callback option"
  igsyajl_map_key :: "(string \<Rightarrow> 'c callback) option"
  igsyajl_end_map :: "'c callback option"
  igsyajl_start_array :: "'c callback option"
  igsyajl_end_array :: "'c callback option"

text \<open>The stack of states has its top first; \<open>parseError\<close> is not initialised.\<close>

record 'c igsyajl_handle =
  hn_callbacks :: "'c igsyajl_callbacks option"
  hn_ctx :: 'c
  hn_lexer :: "igsyajl_lexer option"
  hn_parseError :: "string option"
  hn_bytesConsumed :: nat
  hn_decodeBuf :: string
  hn_stateStack :: "igsyajl_state list"
  hn_flags :: "32 word"

definition igsyajl_allow_comments :: "32 word" where "igsyajl_allow_comments = 0x01"
definition igsyajl_dont_validate_strings :: "32 word" where "igsyajl_dont_validate_strings = 0x02"
definition igsyajl_allow_trailing_garbage :: "32 word" where "igsyajl_allow_trailing_garbage = 0x04"
definition igsyajl_allow_multiple_values :: "32 word" where "igsyajl_allow_multiple_values = 0x08"
definition igsyajl_allow_partial_values :: "32 word" where "igsyajl_allow_partial_values = 0x10"

definition flag :: "'c igsyajl_handle \<Rightarrow> 32 word \<Rightarrow> bool" where
  "flag h opt \<longleftrightarrow> hn_flags h AND opt \<noteq> 0"

definition igsyajl_alloc :: "'c igsyajl_callbacks option \<Rightarrow> 'c \<Rightarrow> 'c igsyajl_handle" where
  "igsyajl_alloc callbacks ctx =
     \<lparr> hn_callbacks = callbacks, hn_ctx = ctx, hn_lexer = None, hn_parseError = None,
       hn_bytesConsumed = 0, hn_decodeBuf = [], hn_stateStack = [state_start], hn_flags = 0 \<rparr>"

definition igsyajl_config :: "32 word \<Rightarrow> bool \<Rightarrow> 'c igsyajl_handle \<Rightarrow> bool \<times> 'c igsyajl_handle" where
  "igsyajl_config opt on h =
     (if opt = igsyajl_allow_comments \<or> opt = igsyajl_dont_validate_strings
         \<or> opt = igsyajl_allow_trailing_garbage \<or> opt = igsyajl_allow_multiple_values
         \<or> opt = igsyajl_allow_partial_values
      then (True, h\<lparr> hn_flags := (if on then hn_flags h OR opt else hn_flags h AND NOT opt) \<rparr>)
      else (False, h))"

definition bs_current :: "'c igsyajl_handle \<Rightarrow> igsyajl_state option" where
  "bs_current h = (case hn_stateStack h of [] \<Rightarrow> None | s # _ \<Rightarrow> Some s)"

definition bs_set :: "igsyajl_state \<Rightarrow> 'c igsyajl_handle \<Rightarrow> 'c igsyajl_handle" where
  "bs_set s h = h\<lparr> hn_stateStack := s # tl (hn_stateStack h) \<rparr>"

definition bs_push :: "igsyajl_state \<Rightarrow> 'c igsyajl_handle \<Rightarrow> 'c igsyajl_handle" where
  "bs_push s h = h\<lparr> hn_stateStack := s # hn_stateStack h \<rparr>"

definition bs_pop :: "'c igsyajl_handle \<Rightarrow> 'c igsyajl_handle" where
  "bs_pop h = h\<lparr> hn_stateStack := tl (hn_stateStack h) \<rparr>"

definition parse_error :: "string \<Rightarrow> 'c igsyajl_handle \<Rightarrow> 'c igsyajl_handle" where
  "parse_error text h = bs_set state_parse_error h\<lparr> hn_parseError := Some text \<rparr>"

text \<open>``Try to restore error offset''.\<close>

definition restore_offset :: "string \<Rightarrow> 'c igsyajl_handle \<Rightarrow> 'c igsyajl_handle" where
  "restore_offset buf h =
     h\<lparr> hn_bytesConsumed := (if length buf \<le> hn_bytesConsumed h then hn_bytesConsumed h - length buf else 0) \<rparr>"

section \<open>One pass\<close>

datatype 'c parsed = Returned igsyajl_status "'c igsyajl_handle" | Again "'c igsyajl_handle"

text \<open>\<open>_CC_CHK\<close> of a callback that may be absent.\<close>

definition cc_chk :: "'c callback option \<Rightarrow> 'c igsyajl_handle \<Rightarrow> ('c parsed + 'c igsyajl_handle) option" where
  "cc_chk cb h =
     (case cb of
        None \<Rightarrow> go h
      | Some f \<Rightarrow>
          (case f (hn_ctx h) of
             None \<Rightarrow> None
           | Some (True, c) \<Rightarrow> go (h\<lparr> hn_ctx := c \<rparr>)
           | Some (False, c) \<Rightarrow>
               stop (Returned status_client_canceled
                 (parse_error ''client cancelled parse via callback return value'' (h\<lparr> hn_ctx := c \<rparr>)))))"

definition callback_of :: "('c igsyajl_callbacks \<Rightarrow> 'f option) \<Rightarrow> 'c igsyajl_handle \<Rightarrow> 'f option" where
  "callback_of f h = Option.bind (hn_callbacks h) f"

definition applied :: "'a \<Rightarrow> ('a \<Rightarrow> 'c callback) option \<Rightarrow> 'c callback option" where
  "applied x f = map_option (\<lambda>f. f x) f"

definition lex_next :: "string \<Rightarrow> 'c igsyajl_handle \<Rightarrow> (igsyajl_tok \<times> out_text \<times> 'c igsyajl_handle) option" where
  "lex_next js h =
     do { lx \<leftarrow> hn_lexer h;
          (buf, tok, lx, off) \<leftarrow> igsyajl_lex_lex js (lx, hn_bytesConsumed h);
          Some (tok, buf, h\<lparr> hn_lexer := Some lx, hn_bytesConsumed := off \<rparr>) }"

definition decoded :: "out_text \<Rightarrow> 'c igsyajl_handle \<Rightarrow> (string \<times> 'c igsyajl_handle) option" where
  "decoded buf h = do { s \<leftarrow> igsyajl_string_decode (fst buf) (snd buf); Some (s, h\<lparr> hn_decodeBuf := s \<rparr>) }"

definition pass_integer :: "string \<Rightarrow> 'c igsyajl_handle \<Rightarrow> ('c parsed + 'c igsyajl_handle) option" where
  "pass_integer buf h =
     (case callback_of igsyajl_number h of
        Some f \<Rightarrow> cc_chk (Some (f buf)) h
      | None \<Rightarrow>
          (case callback_of igsyajl_integer h of
             None \<Rightarrow> go h
           | Some f \<Rightarrow>
               (case igsyajl_parse_integer buf of
                  None \<Rightarrow> None
                | Some (i, erange) \<Rightarrow>
                    if (i = LLONG_MIN \<or> i = LLONG_MAX) \<and> erange then
                      stop (Again (restore_offset buf (parse_error ''integer overflow'' h)))
                    else cc_chk (Some (f i)) h)))"

definition pass_double :: "string \<Rightarrow> 'c igsyajl_handle \<Rightarrow> ('c parsed + 'c igsyajl_handle) option" where
  "pass_double buf h =
     (case callback_of igsyajl_number h of
        Some f \<Rightarrow> cc_chk (Some (f buf)) h
      | None \<Rightarrow>
          (case callback_of igsyajl_double h of
             None \<Rightarrow> go h
           | Some f \<Rightarrow>
               let h = h\<lparr> hn_decodeBuf := buf \<rparr>; d = c_atof buf
               in if d_exp d = 2047 \<and> \<not> d_is_nan d \<and> strtod_erange buf then
                    stop (Again (restore_offset buf (parse_error ''numeric (floating point) overflow'' h)))
                  else cc_chk (Some (f d)) h))"

definition pass_string :: "string \<Rightarrow> 'c igsyajl_handle \<Rightarrow> ('c parsed + 'c igsyajl_handle) option" where
  "pass_string buf h = cc_chk (applied buf (callback_of igsyajl_string h)) h"

text \<open>A value is expected: the token's callback, and the state that is pushed (\<open>state_start\<close> for none).\<close>

definition value_token ::
    "igsyajl_tok \<Rightarrow> out_text \<Rightarrow> 'c igsyajl_handle \<Rightarrow> ('c parsed + igsyajl_state \<times> 'c igsyajl_handle) option" where
  "value_token tok buf h =
     (case tok of
        tok_eof \<Rightarrow> stop (Returned status_ok h)
      | tok_error \<Rightarrow> stop (Again (bs_set state_lexical_error h))
      | tok_string \<Rightarrow> andthen (pass_string (out_string buf) h) (\<lambda>h. go (state_start, h))
      | tok_string_with_escapes \<Rightarrow>
          (if callback_of igsyajl_string h = None then go (state_start, h)
           else case decoded buf h of None \<Rightarrow> None
                | Some (s, h) \<Rightarrow> andthen (pass_string s h) (\<lambda>h. go (state_start, h)))
      | tok_bool \<Rightarrow>
          (if callback_of igsyajl_boolean h \<noteq> None \<and> fst buf = [] then None
           else andthen (cc_chk (applied (hd (fst buf) = CHR ''t'') (callback_of igsyajl_boolean h)) h) (\<lambda>h.
             go (state_start, h)))
      | tok_null \<Rightarrow> andthen (cc_chk (callback_of igsyajl_null h) h) (\<lambda>h. go (state_start, h))
      | tok_left_bracket \<Rightarrow>
          andthen (cc_chk (callback_of igsyajl_start_map h) h) (\<lambda>h. go (state_map_start, h))
      | tok_left_brace \<Rightarrow>
          andthen (cc_chk (callback_of igsyajl_start_array h) h) (\<lambda>h. go (state_array_start, h))
      | tok_integer \<Rightarrow> andthen (pass_integer (out_string buf) h) (\<lambda>h. go (state_start, h))
      | tok_double \<Rightarrow> andthen (pass_double (out_string buf) h) (\<lambda>h. go (state_start, h))
      | tok_right_brace \<Rightarrow>
          (if bs_current h = Some state_array_start then
             andthen (cc_chk (callback_of igsyajl_end_array h) h) (\<lambda>h. stop (Again (bs_pop h)))
           else stop (Again (parse_error ''unallowed token at this point in JSON text'' h)))
      | tok_colon \<Rightarrow> stop (Again (parse_error ''unallowed token at this point in JSON text'' h))
      | tok_comma \<Rightarrow> stop (Again (parse_error ''unallowed token at this point in JSON text'' h))
      | tok_right_bracket \<Rightarrow> stop (Again (parse_error ''unallowed token at this point in JSON text'' h))
      | tok_comment \<Rightarrow> stop (Again (parse_error ''invalid token, internal error'' h)))"

definition got_value_state :: "igsyajl_state \<Rightarrow> igsyajl_state" where
  "got_value_state s =
     (if s = state_start \<or> s = state_got_value then state_parse_complete
      else if s = state_map_need_val then state_map_got_val
      else state_array_got_val)"

definition parse_value :: "string \<Rightarrow> 'c igsyajl_handle \<Rightarrow> ('c parsed + 'c parsed) option" where
  "parse_value js h =
     (case lex_next js h of
        None \<Rightarrow> None
      | Some (tok, buf, h) \<Rightarrow>
          andthen (value_token tok buf h) (\<lambda>(stateToPush, h).
            case bs_current h of
              None \<Rightarrow> None
            | Some s \<Rightarrow>
                let h = bs_set (got_value_state s) h
                in stop (Again (if stateToPush \<noteq> state_start then bs_push stateToPush h else h))))"

definition pass_key :: "string \<Rightarrow> 'c igsyajl_handle \<Rightarrow> ('c parsed + 'c parsed) option" where
  "pass_key buf h =
     andthen (cc_chk (applied buf (callback_of igsyajl_map_key h)) h) (\<lambda>h.
       stop (Again (bs_set state_map_sep h)))"

definition parse_key :: "string \<Rightarrow> 'c igsyajl_handle \<Rightarrow> ('c parsed + 'c parsed) option" where
  "parse_key js h =
     (case lex_next js h of
        None \<Rightarrow> None
      | Some (tok, buf, h) \<Rightarrow>
          if tok = tok_eof then stop (Returned status_ok h)
          else if tok = tok_error then stop (Again (bs_set state_lexical_error h))
          else if tok = tok_string_with_escapes then
            (if callback_of igsyajl_map_key h = None then pass_key (out_string buf) h
             else case decoded buf h of None \<Rightarrow> None | Some (s, h) \<Rightarrow> pass_key s h)
          else if tok = tok_string then pass_key (out_string buf) h
          else if tok = tok_right_bracket \<and> bs_current h = Some state_map_start then
            andthen (cc_chk (callback_of igsyajl_end_map h) h) (\<lambda>h. stop (Again (bs_pop h)))
          else stop (Again (parse_error ''invalid object key (must be a string)'' h)))"

definition parse_sep :: "string \<Rightarrow> 'c igsyajl_handle \<Rightarrow> ('c parsed + 'c parsed) option" where
  "parse_sep js h =
     (case lex_next js h of
        None \<Rightarrow> None
      | Some (tok, buf, h) \<Rightarrow>
          if tok = tok_colon then stop (Again (bs_set state_map_need_val h))
          else if tok = tok_eof then stop (Returned status_ok h)
          else if tok = tok_error then stop (Again (bs_set state_lexical_error h))
          else stop (Again (parse_error (''object key and value must be separated by a colon ('' @
                 [CHR 0x27] @ '':'' @ [CHR 0x27] @ '')'') h)))"

definition parse_map_next :: "string \<Rightarrow> 'c igsyajl_handle \<Rightarrow> ('c parsed + 'c parsed) option" where
  "parse_map_next js h =
     (case lex_next js h of
        None \<Rightarrow> None
      | Some (tok, buf, h) \<Rightarrow>
          if tok = tok_right_bracket then
            andthen (cc_chk (callback_of igsyajl_end_map h) h) (\<lambda>h. stop (Again (bs_pop h)))
          else if tok = tok_comma then stop (Again (bs_set state_map_need_key h))
          else if tok = tok_eof then stop (Returned status_ok h)
          else if tok = tok_error then stop (Again (bs_set state_lexical_error h))
          else stop (Again (restore_offset (out_string buf) (parse_error (''after key and value, inside map, I expect '' @
                 [CHR 0x27] @ '','' @ [CHR 0x27] @ '' or '' @ [CHR 0x27] @ ''}'' @ [CHR 0x27]) h))))"

definition parse_array_next :: "string \<Rightarrow> 'c igsyajl_handle \<Rightarrow> ('c parsed + 'c parsed) option" where
  "parse_array_next js h =
     (case lex_next js h of
        None \<Rightarrow> None
      | Some (tok, buf, h) \<Rightarrow>
          if tok = tok_right_brace then
            andthen (cc_chk (callback_of igsyajl_end_array h) h) (\<lambda>h. stop (Again (bs_pop h)))
          else if tok = tok_comma then stop (Again (bs_set state_array_need_val h))
          else if tok = tok_eof then stop (Returned status_ok h)
          else if tok = tok_error then stop (Again (bs_set state_lexical_error h))
          else stop (Again (parse_error (''after array element, I expect '' @
                 [CHR 0x27] @ '','' @ [CHR 0x27] @ '' or '' @ [CHR 0x27] @ '']'' @ [CHR 0x27]) h)))"

definition parse_complete :: "string \<Rightarrow> 'c igsyajl_handle \<Rightarrow> ('c parsed + 'c parsed) option" where
  "parse_complete js h =
     (if flag h igsyajl_allow_multiple_values then stop (Again (bs_set state_got_value h))
      else if \<not> flag h igsyajl_allow_trailing_garbage \<and> hn_bytesConsumed h \<noteq> length js then
        (case lex_next js h of
           None \<Rightarrow> None
         | Some (tok, buf, h) \<Rightarrow>
             stop (Again (if tok \<noteq> tok_eof then parse_error ''trailing garbage'' h else h)))
      else stop (Returned status_ok h))"

definition around_again :: "string \<Rightarrow> 'c igsyajl_handle \<Rightarrow> 'c parsed option" where
  "around_again js h =
     (case bs_current h of
        None \<Rightarrow> None
      | Some state_parse_complete \<Rightarrow> returned (parse_complete js h)
      | Some state_lexical_error \<Rightarrow> Some (Returned status_error h)
      | Some state_parse_error \<Rightarrow> Some (Returned status_error h)
      | Some state_map_start \<Rightarrow> returned (parse_key js h)
      | Some state_map_need_key \<Rightarrow> returned (parse_key js h)
      | Some state_map_sep \<Rightarrow> returned (parse_sep js h)
      | Some state_map_got_val \<Rightarrow> returned (parse_map_next js h)
      | Some state_array_got_val \<Rightarrow> returned (parse_array_next js h)
      | Some _ \<Rightarrow> returned (parse_value js h))"

section \<open>The loop and its callers\<close>

partial_function (option) parse_loop ::
    "string \<Rightarrow> 'c igsyajl_handle \<Rightarrow> (igsyajl_status \<times> 'c igsyajl_handle) option" where
  "parse_loop js h =
     (case around_again js h of
        None \<Rightarrow> None
      | Some (Returned s h) \<Rightarrow> Some (s, h)
      | Some (Again h) \<Rightarrow> parse_loop js h)"

declare parse_loop.simps [code]

definition igsyajl_do_parse :: "string \<Rightarrow> 'c igsyajl_handle \<Rightarrow> (igsyajl_status \<times> 'c igsyajl_handle) option" where
  "igsyajl_do_parse js h = parse_loop js (h\<lparr> hn_bytesConsumed := 0 \<rparr>)"

definition igsyajl_do_finish :: "'c igsyajl_handle \<Rightarrow> (igsyajl_status \<times> 'c igsyajl_handle) option" where
  "igsyajl_do_finish h =
     do { (stat, h) \<leftarrow> igsyajl_do_parse '' '' h;
          if stat \<noteq> status_ok then Some (stat, h)
          else do { s \<leftarrow> bs_current h;
                    if s = state_parse_error \<or> s = state_lexical_error then Some (status_error, h)
                    else if s = state_got_value \<or> s = state_parse_complete then Some (status_ok, h)
                    else if \<not> flag h igsyajl_allow_partial_values then
                      Some (status_error, parse_error ''premature EOF'' h)
                    else Some (status_ok, h) } }"

definition with_lexer :: "'c igsyajl_handle \<Rightarrow> 'c igsyajl_handle" where
  "with_lexer h =
     (if hn_lexer h = None then
        h\<lparr> hn_lexer := Some (igsyajl_lex_alloc (flag h igsyajl_allow_comments)
                                               (\<not> flag h igsyajl_dont_validate_strings)) \<rparr>
      else h)"

definition igsyajl_parse :: "string \<Rightarrow> 'c igsyajl_handle \<Rightarrow> (igsyajl_status \<times> 'c igsyajl_handle) option" where
  "igsyajl_parse js h = igsyajl_do_parse js (with_lexer h)"

definition igsyajl_complete_parse :: "'c igsyajl_handle \<Rightarrow> (igsyajl_status \<times> 'c igsyajl_handle) option" where
  "igsyajl_complete_parse h = igsyajl_do_finish (with_lexer h)"

definition igsyajl_get_bytes_consumed :: "'c igsyajl_handle \<Rightarrow> nat" where
  "igsyajl_get_bytes_consumed h = hn_bytesConsumed h"

section \<open>The text of an error\<close>

text \<open>
  The excerpt has 72 bytes on the stack: blanks, up to sixty bytes around the
  error, a newline and a NUL. A longer excerpt would fail \<open>assert (i <= 71)\<close>, or put
  the NUL past the end. The excerpt is read as a C string. An error text that was
  never set is read through an uninitialised pointer.
\<close>

definition error_excerpt :: "string \<Rightarrow> nat \<Rightarrow> string option" where
  "error_excerpt js offset =
     (let spacesNeeded = (if offset < 30 then 40 - offset else 10);
          start = (if 30 \<le> offset then offset - 30 else 0);
          end' = (if length js < offset + 30 then length js else offset + 30);
          shown = map (\<lambda>c. if c \<noteq> CHR 0x0A \<and> c \<noteq> CHR 0x0D then c else CHR '' '')
                    (take (end' - start) (drop start js))
      in if spacesNeeded + length shown \<le> 70 then
           Some (takeWhile (\<lambda>c. c \<noteq> CHR 0x00) (replicate spacesNeeded (CHR '' '') @ shown @ [CHR 0x0A]))
         else None)"

definition error_arrow :: string where
  "error_arrow = replicate 21 (CHR '' '') @ ''(right here) ------^'' @ [CHR 0x0A]"

definition igsyajl_render_error_string :: "'c igsyajl_handle \<Rightarrow> string \<Rightarrow> bool \<Rightarrow> string option" where
  "igsyajl_render_error_string h js verbose =
     do { s \<leftarrow> bs_current h;
          str \<leftarrow> (if s = state_parse_error then
                    map_option (\<lambda>t. ''parse error: '' @ t) (hn_parseError h)
                  else if s = state_lexical_error then
                    map_option (\<lambda>lx. ''lexical error: '' @ igsyajl_lex_error_to_string (igsyajl_lex_get_error lx))
                      (hn_lexer h)
                  else Some ''unknown error'');
          let str = str @ [CHR 0x0A];
          if verbose then do { t \<leftarrow> error_excerpt js (hn_bytesConsumed h); Some (str @ t @ error_arrow) }
          else Some str }"

definition igsyajl_get_error :: "'c igsyajl_handle \<Rightarrow> bool \<Rightarrow> string \<Rightarrow> string option" where
  "igsyajl_get_error h verbose js = igsyajl_render_error_string h js verbose"

end
