(* ===== verification/Yajl_Tree.thy ===== *)
theory Yajl_Tree
  imports Yajl_Parser Igs_Json
begin

text \<open>
  From JSON text to a tree (src/src/yajl_tree.c): the callbacks of the parser
  build the tree with a stack of the objects and arrays that are open, each with
  the key that waits for its value, the innermost first. What is pushed is an
  object or an array, and grows in place.

  Strings are C strings: the bytes after a NUL that an escape produced are not
  part of the string any more. Running out of memory is left out.
\<close>

section \<open>The context\<close>

definition EINVAL :: nat where "EINVAL = 22"

record tree_context =
  tc_stack :: "(string option \<times> igs_json_node) list"
  tc_root :: "igs_json_node option"
  tc_errbuf :: "string option"
  tc_errbuf_size :: nat

text \<open>\<open>snprintf\<close> into a buffer of some size.\<close>

definition c_snprintf :: "nat \<Rightarrow> string \<Rightarrow> string" where
  "c_snprintf n s = take (n - 1) (takeWhile (\<lambda>c. c \<noteq> CHR 0x00) s)"

definition return_error :: "string \<Rightarrow> tree_context \<Rightarrow> tree_context" where
  "return_error text ctx =
     ctx\<lparr> tc_errbuf := map_option (\<lambda>_. c_snprintf (tc_errbuf_size ctx) text) (tc_errbuf ctx) \<rparr>"

definition node_type :: "igs_json_node \<Rightarrow> nat" where
  "node_type v = (case v of JString _ \<Rightarrow> 1 | JNumber _ _ _ _ _ \<Rightarrow> 2 | JMap _ \<Rightarrow> 3 | JArray _ \<Rightarrow> 4
     | JTrue \<Rightarrow> 5 | JFalse \<Rightarrow> 6 | JNull \<Rightarrow> 7)"

definition context_push :: "igs_json_node \<Rightarrow> tree_context \<Rightarrow> tree_context option" where
  "context_push v ctx =
     (if tc_stack ctx = [] \<or> node_type v = 3 \<or> node_type v = 4
      then Some (ctx\<lparr> tc_stack := (None, v) # tc_stack ctx \<rparr>) else None)"

definition context_pop :: "tree_context \<Rightarrow> igs_json_node option \<times> tree_context" where
  "context_pop ctx =
     (case tc_stack ctx of
        [] \<Rightarrow> (None, return_error ''context_pop: Bottom of stack reached prematurely'' ctx)
      | (k, v) # st \<Rightarrow> (Some v, ctx\<lparr> tc_stack := st \<rparr>))"

text \<open>The result is 0 or an error number.\<close>

definition context_add_value :: "igs_json_node \<Rightarrow> tree_context \<Rightarrow> (nat \<times> tree_context) option" where
  "context_add_value v ctx =
     (case tc_stack ctx of
        [] \<Rightarrow> if tc_root ctx = None then Some (0, ctx\<lparr> tc_root := Some v \<rparr>) else None
      | (key, tp) # st \<Rightarrow>
          (case tp of
             JMap es \<Rightarrow>
               (case key of
                  None \<Rightarrow>
                    (case v of
                       JString s \<Rightarrow> Some (0, ctx\<lparr> tc_stack := (Some s, tp) # st \<rparr>)
                     | _ \<Rightarrow> Some (EINVAL, return_error
                         (''context_add_value: Object key is not a string (0x0'' @ [hexchar (node_type v)] @ '')'') ctx))
                | Some k \<Rightarrow> Some (0, ctx\<lparr> tc_stack := (None, JMap (es @ [(k, v)])) # st \<rparr>))
           | JArray vs \<Rightarrow> Some (0, ctx\<lparr> tc_stack := (key, JArray (vs @ [v])) # st \<rparr>)
           | _ \<Rightarrow> Some (EINVAL, return_error
               (''context_add_value: Cannot add value to a value of type 0x0'' @ [hexchar (node_type tp)]
                @ '' (not a composite type)'') ctx)))"

section \<open>The callbacks\<close>

definition added :: "(nat \<times> tree_context) option \<Rightarrow> (bool \<times> tree_context) option" where
  "added r = map_option (\<lambda>(e, ctx). (e = 0, ctx)) r"

definition handle_string :: "string \<Rightarrow> tree_context callback" where
  "handle_string s ctx = added (context_add_value (JString (takeWhile (\<lambda>c. c \<noteq> CHR 0x00) s)) ctx)"

definition number_node :: "string \<Rightarrow> igs_json_node option" where
  "number_node r =
     (let r = takeWhile (\<lambda>c. c \<noteq> CHR 0x00) r
      in do { (i, erange) \<leftarrow> igsyajl_parse_integer r;
              Some (JNumber i (c_atof r) r (\<not> erange) (\<not> strtod_erange r \<and> strtod_all r)) })"

definition handle_number :: "string \<Rightarrow> tree_context callback" where
  "handle_number s ctx = do { v \<leftarrow> number_node s; added (context_add_value v ctx) }"

definition handle_start_map :: "tree_context callback" where
  "handle_start_map ctx = map_option (Pair True) (context_push (JMap []) ctx)"

definition handle_end_map :: "tree_context callback" where
  "handle_end_map ctx =
     (case context_pop ctx of (None, ctx) \<Rightarrow> Some (False, ctx) | (Some v, ctx) \<Rightarrow> added (context_add_value v ctx))"

definition handle_start_array :: "tree_context callback" where
  "handle_start_array ctx = map_option (Pair True) (context_push (JArray []) ctx)"

definition handle_end_array :: "tree_context callback" where
  "handle_end_array ctx =
     (case context_pop ctx of (None, ctx) \<Rightarrow> Some (False, ctx) | (Some v, ctx) \<Rightarrow> added (context_add_value v ctx))"

definition handle_boolean :: "bool \<Rightarrow> tree_context callback" where
  "handle_boolean b ctx = added (context_add_value (if b then JTrue else JFalse) ctx)"

definition handle_null :: "tree_context callback" where
  "handle_null ctx = added (context_add_value JNull ctx)"

section \<open>The parse of a text\<close>

definition tree_callbacks :: "tree_context igsyajl_callbacks" where
  "tree_callbacks =
     \<lparr> igsyajl_null = Some handle_null, igsyajl_boolean = Some handle_boolean, igsyajl_integer = None,
       igsyajl_double = None, igsyajl_number = Some handle_number, igsyajl_string = Some handle_string,
       igsyajl_start_map = Some handle_start_map, igsyajl_map_key = Some handle_string,
       igsyajl_end_map = Some handle_end_map, igsyajl_start_array = Some handle_start_array,
       igsyajl_end_array = Some handle_end_array \<rparr>"

text \<open>
  The first parameter is the size of the error buffer, \<open>None\<close> without one. The
  result is the tree, or \<open>NULL\<close>, and the buffer. The status of \<open>igsyajl_parse\<close> is
  overwritten by that of \<open>igsyajl_complete_parse\<close>.
\<close>

definition tree_handle :: "nat option \<Rightarrow> tree_context igsyajl_handle" where
  "tree_handle error_buffer =
     snd (igsyajl_config igsyajl_allow_trailing_garbage True
       (snd (igsyajl_config igsyajl_allow_comments True
         (igsyajl_alloc (Some tree_callbacks)
            \<lparr> tc_stack = [], tc_root = None, tc_errbuf = map_option (\<lambda>_. []) error_buffer,
              tc_errbuf_size = (case error_buffer of None \<Rightarrow> 0 | Some n \<Rightarrow> n) \<rparr>))))"

definition igsyajl_tree_parse ::
    "string \<Rightarrow> nat option \<Rightarrow> (igs_json_node option \<times> string option) option" where
  "igsyajl_tree_parse input error_buffer =
     do { (status, h) \<leftarrow> igsyajl_parse input (tree_handle error_buffer);
          (status, h) \<leftarrow> igsyajl_complete_parse h;
          if status \<noteq> status_ok then
            (case error_buffer of
               None \<Rightarrow> Some (None, None)
             | Some n \<Rightarrow>
                 if 0 < n then
                   do { e \<leftarrow> igsyajl_get_error h True input; Some (None, Some (c_snprintf n e)) }
                 else Some (None, tc_errbuf (hn_ctx h)))
          else Some (tc_root (hn_ctx h), tc_errbuf (hn_ctx h)) }"

definition igs_json_node_parse_from_str :: "string \<Rightarrow> igs_json_node option option" where
  "igs_json_node_parse_from_str content =
     map_option fst (igsyajl_tree_parse (takeWhile (\<lambda>c. c \<noteq> CHR 0x00) content) (Some 1024))"

text \<open>\<open>content\<close> is the text that the format and its arguments make.\<close>

definition IGS_MAX_STRING_MSG_LENGTH :: nat where "IGS_MAX_STRING_MSG_LENGTH = 4096"

definition igs_json_node_parse_from_str2 :: "string \<Rightarrow> igs_json_node option option" where
  "igs_json_node_parse_from_str2 content =
     (if length content < IGS_MAX_STRING_MSG_LENGTH - 1 then
        igs_json_node_parse_from_str (take (IGS_MAX_STRING_MSG_LENGTH - 2) content)
      else Some None)"

text \<open>\<open>read_file\<close> is the content of a regular and readable file, through CZMQ.\<close>

definition igs_json_node_parse_from_file ::
    "(string \<Rightarrow> string option) \<Rightarrow> string \<Rightarrow> igs_json_node option option" where
  "igs_json_node_parse_from_file read_file path =
     (case read_file path of
        None \<Rightarrow> Some None
      | Some data \<Rightarrow> map_option fst (igsyajl_tree_parse data (Some 1024)))"

section \<open>Insertion below a path\<close>

text \<open>\<open>at_path\<close> is \<open>igsyajl_tree_get\<close> with an update of the node it finds.\<close>

fun map_first :: "'k \<Rightarrow> ('v \<Rightarrow> 'v option) \<Rightarrow> ('k \<times> 'v) list \<Rightarrow> ('k \<times> 'v) list option" where
  "map_first k f [] = None"
| "map_first k f ((k', v) # es) =
     (if k' = k then map_option (\<lambda>v. (k', v) # es) (f v)
      else map_option ((#) (k', v)) (map_first k f es))"

fun at_path :: "string list \<Rightarrow> (igs_json_node \<Rightarrow> igs_json_node option) \<Rightarrow> igs_json_node \<Rightarrow> igs_json_node option" where
  "at_path [] f n = f n"
| "at_path (p # path) f n =
     (case n of
        JMap es \<Rightarrow> map_option JMap (map_first p (at_path path f) es)
      | JArray vs \<Rightarrow>
          (case strtol_index p of
             None \<Rightarrow> None
           | Some i \<Rightarrow>
               if i < length vs then map_option (\<lambda>v. JArray (vs[i := v])) (at_path path f (vs ! i)) else None)
      | _ \<Rightarrow> at_path path f n)"

text \<open>A target that is not found or cannot hold a node leaves the parent and the node alone.\<close>

definition igs_json_node_insert2 ::
    "igs_json_node \<Rightarrow> string option \<Rightarrow> string list option \<Rightarrow> igs_json_node \<Rightarrow> igs_json_node option" where
  "igs_json_node_insert2 parent key subpath node =
     (let path = (case subpath of None \<Rightarrow> [] | Some p \<Rightarrow> p)
      in case igs_json_node_find parent path of
           None \<Rightarrow> Some parent
         | Some target \<Rightarrow>
             if node_type target \<noteq> 3 \<and> node_type target \<noteq> 4 then Some parent
             else at_path path (\<lambda>t. igs_json_node_insert t key node) parent)"

end
