(* ===== verification/Igs_Parser.thy ===== *)
theory Igs_Parser
  imports Igs_Definition_Laws Yajl_Tree
begin

text \<open>
  From JSON trees to definitions and mappings (the parsers of
  src/src/igs_parser.c), and from texts. Strings of a tree hold no NUL. Where the code
  reads the array member of a node it did not check to be an array, the result
  is \<open>None\<close>.
\<close>

definition s_string_to_value_type :: "string \<Rightarrow> igs_io_value_type" where
  "s_string_to_value_type s =
     (if s = ''INTEGER'' then IGS_INTEGER_T else if s = ''DOUBLE'' then IGS_DOUBLE_T
      else if s = ''STRING'' then IGS_STRING_T else if s = ''BOOL'' then IGS_BOOL_T
      else if s = ''IMPULSION'' then IGS_IMPULSION_T else if s = ''DATA'' then IGS_DATA_T
      else IGS_UNKNOWN_T)"

definition s_string_to_boolean :: "string option \<Rightarrow> bool" where
  "s_string_to_boolean s = (s = Some ''true'')"

text \<open>\<open>node && node->type == IGS_JSON_STRING\<close> and the string.\<close>

definition node_string :: "igs_json_node option \<Rightarrow> string option" where
  "node_string n = (case n of Some (JString s) \<Rightarrow> Some s | _ \<Rightarrow> None)"

definition find_string :: "igs_json_node \<Rightarrow> string list \<Rightarrow> string option" where
  "find_string node path = node_string (igs_json_node_find node path)"

text \<open>\<open>s_strndup\<close> followed by \<open>model_clean_string\<close> in place; \<open>strdup\<close> before it for some.\<close>

definition cleaned_copy :: "nat \<Rightarrow> string \<Rightarrow> string option" where
  "cleaned_copy n s = do { (m, changes) \<leftarrow> model_clean_string (wr_cstr s) (int n); rd_cstr m }"

definition cleaned :: "nat \<Rightarrow> nat \<Rightarrow> string \<Rightarrow> string option" where
  "cleaned n mx s = do { b \<leftarrow> s_strndup (wr_cstr s) n; (m, changes) \<leftarrow> model_clean_string b (int mx); rd_cstr m }"

definition optional :: "(string \<Rightarrow> string option) \<Rightarrow> string option \<Rightarrow> string option option" where
  "optional f s = (case s of None \<Rightarrow> Some None | Some x \<Rightarrow> map_option Some (f x))"

definition prefix_copy :: "nat \<Rightarrow> string \<Rightarrow> string option" where
  "prefix_copy n s = strndup_str s n"

section \<open>Inputs, outputs and attributes\<close>

text \<open>One element of the array; without a name, or with a known one, it is skipped.\<close>

definition parse_io ::
    "igs_env \<Rightarrow> igs_io_type \<Rightarrow> igs_json_node \<Rightarrow> string list \<times> (string, igs_io) table
     \<Rightarrow> (string list \<times> (string, igs_io) table) option" where
  "parse_io env t node r =
     (case find_string node [''name''] of
        None \<Rightarrow> Some r
      | Some s \<Rightarrow>
          do { n \<leftarrow> cleaned IGS_MAX_IO_NAME_LENGTH IGS_MAX_IO_NAME_LENGTH s;
               if zh_lookup (snd r) n \<noteq> None then Some r
               else do {
                 let vt = (case find_string node [''type''] of None \<Rightarrow> IGS_UNKNOWN_T
                           | Some ty \<Rightarrow> s_string_to_value_type ty);
                 c \<leftarrow> (case find_string node [''constraint''] of None \<Rightarrow> Some None
                       | Some e \<Rightarrow> map_option fst (model_parse_constraint env vt e));
                 descr \<leftarrow> optional (prefix_copy IGS_MAX_DESCRIPTION_LENGTH) (find_string node [''description'']);
                 detailed \<leftarrow> optional (cleaned IGS_MAX_DETAILED_TYPE_LENGTH IGS_MAX_DETAILED_TYPE_LENGTH)
                   (find_string node [''detailed_type'']);
                 spec \<leftarrow> optional (prefix_copy IGS_MAX_SPECIFICATION_LENGTH) (find_string node [''specification'']);
                 Some (reg_add n ((new_io n t vt)\<lparr> io_constraint := c, io_description := descr,
                   io_detailed_type := detailed, io_specification := spec \<rparr>) r) } })"

text \<open>A loop over an array; a node that is not an array is left with an error logged.\<close>

fun fold_opt :: "('a \<Rightarrow> 's \<Rightarrow> 's option) \<Rightarrow> 'a list \<Rightarrow> 's \<Rightarrow> 's option" where
  "fold_opt f [] s = Some s"
| "fold_opt f (x # xs) s = f x s \<bind> fold_opt f xs"

definition in_array :: "(igs_json_node \<Rightarrow> 's \<Rightarrow> 's option) \<Rightarrow> igs_json_node option \<Rightarrow> 's \<Rightarrow> 's option" where
  "in_array f n s = (case n of Some (JArray vs) \<Rightarrow> fold_opt f vs s | _ \<Rightarrow> Some s)"

section \<open>Services\<close>

definition parsed_arg :: "string \<Rightarrow> string option \<Rightarrow> igs_io_value_type \<Rightarrow> igs_service_arg" where
  "parsed_arg n descr ty = \<lparr> sa_name = Some n, sa_description = descr, sa_type = ty, sa_b = False, sa_i = 0,
     sa_d = 0, sa_c = None, sa_data = None, sa_size = 0 \<rparr>"

definition parse_arg :: "igs_json_node \<Rightarrow> igs_service_arg list \<Rightarrow> igs_service_arg list option" where
  "parse_arg node as =
     (case node of
        JMap es \<Rightarrow>
          (case find_string node [''name''] of
             None \<Rightarrow> Some as
           | Some s \<Rightarrow>
               do { n \<leftarrow> cleaned IGS_MAX_SERVICE_ARG_NAME_LENGTH IGS_MAX_SERVICE_ARG_NAME_LENGTH s;
                    let ty = (case find_string node [''type''] of None \<Rightarrow> IGS_UNKNOWN_T
                              | Some ty \<Rightarrow> s_string_to_value_type ty);
                    descr \<leftarrow> optional (prefix_copy IGS_MAX_DESCRIPTION_LENGTH) (find_string node [''description'']);
                    Some (as @ [parsed_arg n descr ty]) })
      | _ \<Rightarrow> Some as)"

text \<open>A reply of a known name: the list of names grows, the table keeps the first.\<close>

definition parse_reply :: "igs_json_node \<Rightarrow> string list \<times> (string, igs_reply) table
     \<Rightarrow> (string list \<times> (string, igs_reply) table) option" where
  "parse_reply node r =
     (case find_string node [''name''] of
        None \<Rightarrow> Some r
      | Some s \<Rightarrow>
          do { n \<leftarrow> cleaned IGS_MAX_SERVICE_NAME_LENGTH IGS_MAX_SERVICE_NAME_LENGTH s;
               descr \<leftarrow> optional (prefix_copy IGS_MAX_DESCRIPTION_LENGTH) (find_string node [''description'']);
               as \<leftarrow> in_array parse_arg (igs_json_node_find node [''arguments'']) [];
               Some (reg_add n \<lparr> rp_name = n, rp_description = descr, rp_arguments = as \<rparr> r) })"

definition parse_service :: "igs_json_node \<Rightarrow> string list \<times> (string, igs_service) table
     \<Rightarrow> (string list \<times> (string, igs_service) table) option" where
  "parse_service node r =
     (case find_string node [''name''] of
        None \<Rightarrow> Some r
      | Some s \<Rightarrow>
          do { n \<leftarrow> cleaned IGS_MAX_SERVICE_NAME_LENGTH IGS_MAX_SERVICE_NAME_LENGTH s;
               if zh_lookup (snd r) n \<noteq> None then Some r
               else do {
                 descr \<leftarrow> optional (prefix_copy IGS_MAX_DESCRIPTION_LENGTH) (find_string node [''description'']);
                 as \<leftarrow> in_array parse_arg (igs_json_node_find node [''arguments'']) [];
                 rs \<leftarrow> in_array parse_reply (igs_json_node_find node [''replies'']) ([], []);
                 Some (reg_add n \<lparr> sv_name = n, sv_description = descr, sv_cb = None, sv_cb_data = 0,
                   sv_arguments = as, sv_replies_names = fst rs, sv_replies = snd rs \<rparr> r) } })"

section \<open>Definitions\<close>

definition or_else :: "igs_json_node option \<Rightarrow> igs_json_node option \<Rightarrow> igs_json_node option" where
  "or_else a b = (case a of None \<Rightarrow> b | Some n \<Rightarrow> Some n)"

definition parse_inputs :: "igs_env \<Rightarrow> igs_json_node \<Rightarrow> (string list \<times> (string, igs_io) table) option" where
  "parse_inputs env json =
     in_array (parse_io env IGS_INPUT_T) (igs_json_node_find json [''definition'', ''inputs'']) ([], [])"

definition parse_outputs :: "igs_env \<Rightarrow> igs_json_node \<Rightarrow> (string list \<times> (string, igs_io) table) option" where
  "parse_outputs env json =
     in_array (parse_io env IGS_OUTPUT_T) (igs_json_node_find json [''definition'', ''outputs'']) ([], [])"

definition parse_attributes :: "igs_env \<Rightarrow> igs_json_node \<Rightarrow> (string list \<times> (string, igs_io) table) option" where
  "parse_attributes env json =
     in_array (parse_io env IGS_ATTRIBUTE_T)
       (or_else (igs_json_node_find json [''definition'', ''attributes''])
          (igs_json_node_find json [''definition'', ''parameters''])) ([], [])"

definition parse_services :: "igs_json_node \<Rightarrow> (string list \<times> (string, igs_service) table) option" where
  "parse_services json =
     in_array parse_service
       (or_else (igs_json_node_find json [''definition'', ''services''])
          (igs_json_node_find json [''definition'', ''calls''])) ([], [])"

definition parser_parse_definition_from_node :: "igs_env \<Rightarrow> igs_json_node \<Rightarrow> igs_definition option option" where
  "parser_parse_definition_from_node env json =
     (case find_string json [''definition'', ''name''] of
        None \<Rightarrow> Some None
      | Some s \<Rightarrow>
          do { n \<leftarrow> cleaned IGS_MAX_AGENT_NAME_LENGTH IGS_MAX_AGENT_NAME_LENGTH s;
               cl \<leftarrow> optional (cleaned_copy IGS_MAX_AGENT_CLASS_LENGTH) (find_string json [''definition'', ''class'']);
               pk \<leftarrow> optional (cleaned_copy IGS_MAX_AGENT_PACKAGE_LENGTH) (find_string json [''definition'', ''package'']);
               fm \<leftarrow> optional (cleaned IGS_MAX_FAMILY_LENGTH IGS_MAX_FAMILY_LENGTH)
                 (find_string json [''definition'', ''family'']);
               ds \<leftarrow> optional (prefix_copy IGS_MAX_DESCRIPTION_LENGTH) (find_string json [''definition'', ''description'']);
               vr \<leftarrow> optional (cleaned IGS_MAX_VERSION_LENGTH IGS_MAX_VERSION_LENGTH)
                 (find_string json [''definition'', ''version'']);
               ins \<leftarrow> parse_inputs env json;
               outs \<leftarrow> parse_outputs env json;
               attrs \<leftarrow> parse_attributes env json;
               svs \<leftarrow> parse_services json;
               Some (Some (put_services svs (put_ios IGS_ATTRIBUTE_T attrs (put_ios IGS_OUTPUT_T outs
                 (put_ios IGS_INPUT_T ins (empty_definition\<lparr> df_name := Some n, df_my_class := cl,
                   df_package := pk, df_family := fm, df_description := ds, df_version := vr \<rparr>)))))) })"

section \<open>Mappings\<close>

text \<open>The three names of an element, each of them possibly missing.\<close>

definition entry_names :: "nat \<Rightarrow> bool \<Rightarrow> igs_json_node \<Rightarrow> (string \<times> string \<times> string) option option" where
  "entry_names agent_copy use_alternate node =
     do { from_input \<leftarrow> optional (cleaned IGS_MAX_IO_NAME_LENGTH IGS_MAX_IO_NAME_LENGTH)
            (find_string node [if use_alternate then ''input_name'' else ''fromInput'']);
          to_agent \<leftarrow> optional (cleaned agent_copy IGS_MAX_AGENT_NAME_LENGTH)
            (find_string node [if use_alternate then ''agent_name'' else ''toAgent'']);
          to_output \<leftarrow> optional (cleaned IGS_MAX_IO_NAME_LENGTH IGS_MAX_IO_NAME_LENGTH)
            (find_string node [if use_alternate then ''output_name'' else ''toOutput'']);
          Some (do { i \<leftarrow> from_input; a \<leftarrow> to_agent; out \<leftarrow> to_output; Some (i, a, out) }) }"

definition new_map :: "string \<Rightarrow> string \<Rightarrow> string \<Rightarrow> igs_map" where
  "new_map i a out = \<lparr> mp_id = entry_id i a out, mp_from_input = i, mp_to_agent = a, mp_to_output = out \<rparr>"

definition new_split :: "string \<Rightarrow> string \<Rightarrow> string \<Rightarrow> igs_split" where
  "new_split i a out = \<lparr> sp_id = entry_id i a out, sp_from_input = i, sp_to_agent = a, sp_to_output = out \<rparr>"

text \<open>An element whose id is already in the list is dropped.\<close>

definition add_unique :: "('e \<Rightarrow> u64) \<Rightarrow> 'e \<Rightarrow> 'e list \<Rightarrow> 'e list" where
  "add_unique ident e es = (if \<exists>x \<in> set es. ident x = ident e then es else es @ [e])"

definition parse_map :: "bool \<Rightarrow> igs_json_node \<Rightarrow> igs_map list \<Rightarrow> igs_map list option" where
  "parse_map use_alternate node es =
     (case node of
        JMap kvs \<Rightarrow>
          do { r \<leftarrow> entry_names IGS_MAX_AGENT_NAME_LENGTH use_alternate node;
               Some (case r of None \<Rightarrow> es | Some (i, a, out) \<Rightarrow> add_unique mp_id (new_map i a out) es) }
      | _ \<Rightarrow> Some es)"

definition parse_split :: "igs_json_node \<Rightarrow> igs_split list \<Rightarrow> igs_split list option" where
  "parse_split node es =
     (case node of
        JMap kvs \<Rightarrow>
          do { r \<leftarrow> entry_names IGS_MAX_IO_NAME_LENGTH False node;
               Some (case r of None \<Rightarrow> es | Some (i, a, out) \<Rightarrow> add_unique sp_id (new_split i a out) es) }
      | _ \<Rightarrow> Some es)"

text \<open>The loop bounded by \<open>u.array.len\<close>: nothing checks that the node is an array.\<close>

definition unchecked_array :: "(igs_json_node \<Rightarrow> 's \<Rightarrow> 's option) \<Rightarrow> igs_json_node option \<Rightarrow> 's \<Rightarrow> 's option" where
  "unchecked_array f n s =
     (case n of None \<Rightarrow> Some s | Some (JArray vs) \<Rightarrow> fold_opt f vs s | Some _ \<Rightarrow> None)"

definition parser_parse_mapping_from_node :: "igs_json_node \<Rightarrow> igs_mapping option option" where
  "parser_parse_mapping_from_node json =
     (let mappings = igs_json_node_find json [''mappings''];
          splits = igs_json_node_find json [''splits''];
          alternate = igs_json_node_find json [''mapping'', ''mapping_out''];
          use_alternate = (mappings = None \<and> (case alternate of Some (JArray vs) \<Rightarrow> True | _ \<Rightarrow> False))
      in if mappings = None \<and> \<not> use_alternate \<and> splits = None then Some None
         else do { ms \<leftarrow> unchecked_array (parse_map use_alternate) (or_else mappings alternate) [];
                   ss \<leftarrow> unchecked_array parse_split splits [];
                   Some (Some \<lparr> mg_json = None, mg_json_legacy = None, mg_map_elements = ms,
                                mg_split_elements = ss \<rparr>) })"

section \<open>Texts\<close>

definition is_map :: "igs_json_node \<Rightarrow> bool" where
  "is_map n = (case n of JMap es \<Rightarrow> True | _ \<Rightarrow> False)"

text \<open>\<open>read_file\<close>: the content of the file of a path, if it can be read.\<close>

record parse_env = igs_env +
  read_file :: "string \<Rightarrow> string option"

text \<open>The outer option is that of the JSON parser.\<close>

definition loaded_with :: "(igs_json_node \<Rightarrow> 'a option option) \<Rightarrow> igs_json_node option option \<Rightarrow> 'a option option" where
  "loaded_with parse json =
     (case json of
        None \<Rightarrow> None
      | Some None \<Rightarrow> Some None
      | Some (Some n) \<Rightarrow> if is_map n then parse n else Some None)"

definition parser_load_definition :: "parse_env \<Rightarrow> string \<Rightarrow> igs_definition option option" where
  "parser_load_definition env s =
     loaded_with (parser_parse_definition_from_node (igs_env.truncate env)) (igs_json_node_parse_from_str s)"

definition parser_load_definition_from_path :: "parse_env \<Rightarrow> string \<Rightarrow> igs_definition option option" where
  "parser_load_definition_from_path env path =
     loaded_with (parser_parse_definition_from_node (igs_env.truncate env))
       (igs_json_node_parse_from_file (read_file env) path)"

definition parser_load_mapping :: "string \<Rightarrow> igs_mapping option option" where
  "parser_load_mapping s = loaded_with parser_parse_mapping_from_node (igs_json_node_parse_from_str s)"

definition parser_load_mapping_from_path :: "parse_env \<Rightarrow> string \<Rightarrow> igs_mapping option option" where
  "parser_load_mapping_from_path env path =
     loaded_with parser_parse_mapping_from_node (igs_json_node_parse_from_file (read_file env) path)"

lemma loaded_with_Some:
  "loaded_with parse json = Some (Some x) \<Longrightarrow> \<exists>n. json = Some (Some n) \<and> parse n = Some (Some x)"
  by (auto simp: loaded_with_def split: option.splits if_splits)

end
