(* ===== verification/Igs_Mapping.thy ===== *)
theory Igs_Mapping
  imports Igs_Parser
begin

text \<open>
  Mappings (src/src/igs_mapping.c). Entries are told apart by the hash of their
  three names alone; \<open>entry_store\<close> is what the code needs of the two kinds of
  entries, and is interpreted on map and split elements. A test for an entry by
  its id therefore also finds another entry of the same hash.
\<close>

section \<open>Entries\<close>

definition keyed :: "('e \<Rightarrow> u64) \<Rightarrow> 'e list \<Rightarrow> bool" where
  "keyed ident es \<longleftrightarrow> distinct (map ident es)"

definition same_ids :: "('e \<Rightarrow> u64) \<Rightarrow> 'e list \<Rightarrow> 'e list \<Rightarrow> bool" where
  "same_ids ident es es' \<longleftrightarrow> length es = length es' \<and> (\<forall>e \<in> set es. \<exists>e' \<in> set es'. ident e = ident e')"

definition clean_text :: "nat \<Rightarrow> string \<Rightarrow> bool" where
  "clean_text n s \<longleftrightarrow> no_nul s \<and> (\<forall>c \<in> set s. \<not> is_ctl c) \<and> length s \<le> n"

lemma filter_all: "\<forall>c \<in> set s. \<not> P c \<Longrightarrow> filter (\<lambda>c. \<not> P c) s = s"
  by (simp add: filter_id_conv)

lemma cleaned_id:
  assumes "clean_text n s" and "n \<le> mx" and "0 < n" shows "cleaned n mx s = Some s"
proof -
  have s: "no_nul s" "\<forall>c \<in> set s. \<not> is_ctl c" "length s \<le> n" using assms(1) by (auto simp: clean_text_def)
  obtain m k where m: "model_clean_string (wr_cstr s) (int mx) = Some (m, k)"
    "rd_cstr m = Some (take (max_of (int mx)) (filter (\<lambda>c. \<not> is_ctl c) s))"
    using clean_string_result [OF s(1), of "int mx"] by blast
  have "length s \<le> max_of (int mx)" using s(3) assms(2,3) by (simp add: max_of_def)
  then show ?thesis using m s by (simp add: cleaned_def filter_all)
qed

lemma cleaned_copy_id:
  assumes "clean_text n s" and "0 < n" shows "cleaned_copy n s = Some s"
proof -
  have s: "no_nul s" "\<forall>c \<in> set s. \<not> is_ctl c" "length s \<le> n" using assms(1) by (auto simp: clean_text_def)
  obtain m k where m: "model_clean_string (wr_cstr s) (int n) = Some (m, k)"
    "rd_cstr m = Some (take (max_of (int n)) (filter (\<lambda>c. \<not> is_ctl c) s))"
    using clean_string_result [OF s(1), of "int n"] by blast
  have "length s \<le> max_of (int n)" using s(3) assms(2) by (simp add: max_of_def)
  then show ?thesis using m s by (simp add: cleaned_copy_def filter_all)
qed

text \<open>Whatever the text, cleaning gives a clean one.\<close>

lemma no_nul_filter: "no_nul s \<Longrightarrow> no_nul (filter P s)"
  by (auto simp: no_nul_def)

lemma cleaned_clean:
  assumes "no_nul s" and "0 < mx" and "int mx < 2 ^ 63"
  shows "\<exists>r. cleaned n mx s = Some r \<and> clean_text mx r"
proof -
  have t: "no_nul (take n s)" using assms(1) by (simp add: no_nul_take)
  obtain m k where m: "model_clean_string (wr_cstr (take n s)) (int mx) = Some (m, k)"
    "rd_cstr m = Some (take (max_of (int mx)) (filter (\<lambda>c. \<not> is_ctl c) (take n s)))"
    using clean_string_result [OF t, of "int mx"] by blast
  then show ?thesis
    using assms no_nul_take [OF no_nul_filter [OF t]]
    by (auto simp: cleaned_def clean_text_def max_of_def dest: in_set_takeD)
qed

locale entry_store =
  fixes ident :: "'e \<Rightarrow> u64" and make :: "string \<Rightarrow> string \<Rightarrow> string \<Rightarrow> 'e"
    and parts :: "'e \<Rightarrow> string \<times> string \<times> string"
  assumes parts_make [simp]: "parts (make i a out) = (i, a, out)"
    and ident_make [simp]: "ident (make i a out) = entry_id i a out"
    and make_parts: "parts e = (i, a, out) \<Longrightarrow> ident e = entry_id i a out \<Longrightarrow> make i a out = e"
begin

text \<open>Lists of entries without two of the same id.\<close>

lemma keyed_Nil [simp]: "keyed ident []"
  by (simp add: keyed_def)

lemma keyed_add_unique: "keyed ident es \<Longrightarrow> keyed ident (add_unique ident e es)"
  by (auto simp: keyed_def add_unique_def)

lemma ids_add_unique: "ident ` set (add_unique ident e es) = insert (ident e) (ident ` set es)"
  by (cases "\<exists>x \<in> set es. ident x = ident e") (simp_all add: add_unique_def, metis image_eqI insert_absorb)

lemma keyed_remove: "keyed ident es \<Longrightarrow> keyed ident (remove_first P es)"
  by (induction es) (auto simp: keyed_def image_iff dest: set_remove_first_subset [THEN subsetD])

lemma keyed_filter: "keyed ident es \<Longrightarrow> keyed ident (filter P es)"
  by (simp add: keyed_def distinct_map_filter_key)

lemma remove_id:
  "keyed ident es \<Longrightarrow> remove_first (\<lambda>e. ident e = k) es = filter (\<lambda>e. ident e \<noteq> k) es"
  by (simp add: keyed_def remove_first_filter)

text \<open>The comparison by count and ids is equality of the sets of ids.\<close>

lemma same_ids_iff:
  assumes "keyed ident es" and "keyed ident es'"
  shows "same_ids ident es es' \<longleftrightarrow> ident ` set es = ident ` set es'"
proof -
  have c: "card (ident ` set es) = length es" "card (ident ` set es') = length es'"
    using assms distinct_card [of "map ident es"] distinct_card [of "map ident es'"] by (simp_all add: keyed_def)
  show ?thesis
  proof
    assume "same_ids ident es es'"
    then have "ident ` set es \<subseteq> ident ` set es'" and "card (ident ` set es) = card (ident ` set es')"
      using c by (auto simp: same_ids_def)
    then show "ident ` set es = ident ` set es'" by (simp add: card_subset_eq)
  next
    assume eq: "ident ` set es = ident ` set es'"
    then have "\<forall>e \<in> set es. ident e \<in> ident ` set es'" by blast
    then show "same_ids ident es es'" using c eq by (auto simp: same_ids_def)
  qed
qed

text \<open>Adding a new entry and removing it by its names gives the list back.\<close>

lemma add_then_remove:
  assumes "\<forall>x \<in> set es. ident x \<noteq> entry_id i a out"
  shows "remove_first (\<lambda>e. ident e = entry_id i a out) (add_unique ident (make i a out) es) = es"
  using assms by (induction es) (auto simp: add_unique_def)

lemma fold_add_unique:
  assumes "keyed ident (es @ es')" and "\<forall>e \<in> set es'. \<exists>i a out. parts e = (i, a, out) \<and> ident e = entry_id i a out"
    and "\<And>e i a out st. e \<in> set es' \<Longrightarrow> parts e = (i, a, out) \<Longrightarrow>
           f (tr e) st = Some (add_unique ident (make i a out) st)"
  shows "fold_opt f (map tr es') es = Some (es @ es')"
  using assms
proof (induction es' arbitrary: es)
  case (Cons e es')
  obtain i a out where e: "parts e = (i, a, out)" "ident e = entry_id i a out"
    using Cons.prems(2) by auto
  have m: "make i a out = e" using make_parts e by blast
  have "\<not> (\<exists>x \<in> set es. ident x = ident e)" using Cons.prems(1) by (auto simp: keyed_def image_iff)
  then have "f (tr e) es = Some (es @ [e])" using Cons.prems(3) [OF _ e(1)] m by (simp add: add_unique_def)
  then show ?case using Cons.IH [of "es @ [e]"] Cons.prems by simp
qed simp

end

definition map_parts :: "igs_map \<Rightarrow> string \<times> string \<times> string" where
  "map_parts e = (mp_from_input e, mp_to_agent e, mp_to_output e)"

definition split_parts :: "igs_split \<Rightarrow> string \<times> string \<times> string" where
  "split_parts e = (sp_from_input e, sp_to_agent e, sp_to_output e)"

interpretation maps: entry_store mp_id new_map map_parts
  by unfold_locales (auto simp: new_map_def map_parts_def)

interpretation splits: entry_store sp_id new_split split_parts
  by unfold_locales (auto simp: new_split_def split_parts_def)

section \<open>Well-formed mappings\<close>

definition mapping_wf :: "igs_mapping \<Rightarrow> bool" where
  "mapping_wf m \<longleftrightarrow> keyed mp_id (mg_map_elements m) \<and> keyed sp_id (mg_split_elements m)
     \<and> (\<forall>e \<in> set (mg_map_elements m). mp_id e = entry_id (mp_from_input e) (mp_to_agent e) (mp_to_output e))
     \<and> (\<forall>e \<in> set (mg_split_elements m). sp_id e = entry_id (sp_from_input e) (sp_to_agent e) (sp_to_output e))"

text \<open>The names the interface accepts.\<close>

definition mapping_clean :: "igs_mapping \<Rightarrow> bool" where
  "mapping_clean m \<longleftrightarrow>
     (\<forall>e \<in> set (mg_map_elements m). clean_text IGS_MAX_IO_NAME_LENGTH (mp_from_input e)
        \<and> clean_text IGS_MAX_AGENT_NAME_LENGTH (mp_to_agent e) \<and> clean_text IGS_MAX_IO_NAME_LENGTH (mp_to_output e))
     \<and> (\<forall>e \<in> set (mg_split_elements m). clean_text IGS_MAX_IO_NAME_LENGTH (sp_from_input e)
        \<and> clean_text IGS_MAX_AGENT_NAME_LENGTH (sp_to_agent e) \<and> clean_text IGS_MAX_IO_NAME_LENGTH (sp_to_output e))"

lemmas name_lengths = IGS_MAX_IO_NAME_LENGTH_def IGS_MAX_AGENT_NAME_LENGTH_def

lemma fold_keyed:
  assumes "fold_opt f ns es = Some es'" and "P es" and "\<And>n es es'. f n es = Some es' \<Longrightarrow> P es \<Longrightarrow> P es'"
  shows "P es'"
  using assms(1,2) by (induction ns arbitrary: es) (auto simp: bind_some_eqs intro: assms(3))

definition maps_ok :: "igs_map list \<Rightarrow> bool" where
  "maps_ok es \<longleftrightarrow> keyed mp_id es \<and> (\<forall>e \<in> set es. mp_id e = entry_id (mp_from_input e) (mp_to_agent e) (mp_to_output e))"

definition splits_ok :: "igs_split list \<Rightarrow> bool" where
  "splits_ok es \<longleftrightarrow> keyed sp_id es \<and> (\<forall>e \<in> set es. sp_id e = entry_id (sp_from_input e) (sp_to_agent e) (sp_to_output e))"

lemma mapping_wf_parts: "mapping_wf m \<longleftrightarrow> maps_ok (mg_map_elements m) \<and> splits_ok (mg_split_elements m)"
  by (auto simp: mapping_wf_def maps_ok_def splits_ok_def)

lemma add_map_ok: "maps_ok es \<Longrightarrow> maps_ok (add_unique mp_id (new_map i a out) es)"
  using maps.keyed_add_unique [of es "new_map i a out"] by (auto simp: maps_ok_def add_unique_def new_map_def)

lemma add_split_ok: "splits_ok es \<Longrightarrow> splits_ok (add_unique sp_id (new_split i a out) es)"
  using splits.keyed_add_unique [of es "new_split i a out"] by (auto simp: splits_ok_def add_unique_def new_split_def)

lemma parse_map_ok: "parse_map alt n es = Some es' \<Longrightarrow> maps_ok es \<Longrightarrow> maps_ok es'"
  by (auto simp: parse_map_def bind_some_eqs intro: add_map_ok split: igs_json_node.splits option.splits)

lemma parse_split_ok: "parse_split n es = Some es' \<Longrightarrow> splits_ok es \<Longrightarrow> splits_ok es'"
  by (auto simp: parse_split_def bind_some_eqs intro: add_split_ok split: igs_json_node.splits option.splits)

lemma unchecked_array_keeps:
  assumes "unchecked_array f n es = Some es'" and "P es" and "\<And>n es es'. f n es = Some es' \<Longrightarrow> P es \<Longrightarrow> P es'"
  shows "P es'"
  using assms(1,2) fold_keyed [of f _ es es' P] assms(3)
  by (auto simp: unchecked_array_def split: option.splits igs_json_node.splits)

text \<open>Any tree that parses gives a well-formed mapping.\<close>

lemma parse_mapping_wf:
  assumes "parser_parse_mapping_from_node json = Some (Some m)" shows "mapping_wf m"
proof -
  obtain alt n1 n2 where "unchecked_array (parse_map alt) n1 [] = Some (mg_map_elements m)"
    "unchecked_array parse_split n2 [] = Some (mg_split_elements m)"
    using assms by (auto simp: parser_parse_mapping_from_node_def Let_def bind_some_eqs split: if_splits)
  then show ?thesis
    unfolding mapping_wf_parts
    using unchecked_array_keeps [of "parse_map alt" n1 "[]" _ maps_ok, OF _ _ parse_map_ok]
      unchecked_array_keeps [of parse_split n2 "[]" _ splits_ok, OF _ _ parse_split_ok]
    by (simp add: maps_ok_def splits_ok_def)
qed

section \<open>The round trip of a mapping\<close>

lemma find_entry_tree:
  "distinct [ki, ka, ko] \<Longrightarrow> find_string (entry_tree ki ka ko i a out) [ki] = Some i
     \<and> find_string (entry_tree ki ka ko i a out) [ka] = Some a \<and> find_string (entry_tree ki ka ko i a out) [ko] = Some out"
  by (auto simp: find_string_def igs_json_node_find_def entry_tree_def str_entry_def node_string_def)

lemma entry_names_tree:
  assumes "clean_text IGS_MAX_IO_NAME_LENGTH i" "clean_text IGS_MAX_AGENT_NAME_LENGTH a" "clean_text IGS_MAX_IO_NAME_LENGTH out"
    and "n = IGS_MAX_IO_NAME_LENGTH \<or> n = IGS_MAX_AGENT_NAME_LENGTH"
  shows "entry_names n False (entry_tree ''fromInput'' ''toAgent'' ''toOutput'' i a out) = Some (Some (i, a, out))"
  using assms find_entry_tree [of "''fromInput''" "''toAgent''" "''toOutput''"]
  by (auto simp: entry_names_def optional_def cleaned_id name_lengths clean_text_def)

lemma parse_entry_tree:
  "parse_map alt (entry_tree ki ka ko i a out) es = do { r \<leftarrow> entry_names IGS_MAX_AGENT_NAME_LENGTH alt (entry_tree ki ka ko i a out);
     Some (case r of None \<Rightarrow> es | Some (i, a, out) \<Rightarrow> add_unique mp_id (new_map i a out) es) }"
  "parse_split (entry_tree ki ka ko i a out) es' = do { r \<leftarrow> entry_names IGS_MAX_IO_NAME_LENGTH False (entry_tree ki ka ko i a out);
     Some (case r of None \<Rightarrow> es' | Some (i, a, out) \<Rightarrow> add_unique sp_id (new_split i a out) es') }"
  by (simp_all add: parse_map_def parse_split_def entry_tree_def)

lemma parse_mapping_tree:
  assumes "mapping_wf m" and "mapping_clean m"
  shows "parser_parse_mapping_from_node (mapping_tree m)
     = Some (Some (m\<lparr> mg_json := None, mg_json_legacy := None \<rparr>))"
proof -
  have f: "igs_json_node_find (mapping_tree m) [''mappings''] = Some (JArray (map map_tree (mg_map_elements m)))"
    "igs_json_node_find (mapping_tree m) [''splits''] = Some (JArray (map split_tree (mg_split_elements m)))"
    by (simp_all add: igs_json_node_find_def mapping_tree_def)
  have 1: "parse_map False (map_tree e) st = Some (add_unique mp_id (new_map i a out) st)"
    if "e \<in> set (mg_map_elements m)" "map_parts e = (i, a, out)" for e i a out st
    using that assms(2)
    by (auto simp: map_tree_def parse_entry_tree entry_names_tree map_parts_def mapping_clean_def)
  have "fold_opt (parse_map False) (map map_tree (mg_map_elements m)) [] = Some ([] @ mg_map_elements m)"
    by (rule maps.fold_add_unique) (use 1 assms(1) in \<open>auto simp: mapping_wf_def map_parts_def\<close>)
  moreover have 2: "parse_split (split_tree e) st = Some (add_unique sp_id (new_split i a out) st)"
    if "e \<in> set (mg_split_elements m)" "split_parts e = (i, a, out)" for e i a out st
    using that assms(2)
    by (auto simp: split_tree_def parse_entry_tree entry_names_tree split_parts_def mapping_clean_def)
  have "fold_opt parse_split (map split_tree (mg_split_elements m)) [] = Some ([] @ mg_split_elements m)"
    by (rule splits.fold_add_unique) (use 2 assms(1) in \<open>auto simp: mapping_wf_def split_parts_def\<close>)
  moreover have "m\<lparr> mg_json := None, mg_json_legacy := None \<rparr> = \<lparr> mg_json = None, mg_json_legacy = None,
      mg_map_elements = mg_map_elements m, mg_split_elements = mg_split_elements m \<rparr>" by (cases m) simp
  ultimately show ?thesis
    by (simp add: parser_parse_mapping_from_node_def Let_def f or_else_def unchecked_array_def)
qed

end
