(* ===== verification/Igs_Mapping_Api.thy ===== *)
theory Igs_Mapping_Api
  imports Igs_Mapping
begin

text \<open>
  The interface of mappings (src/src/igs_mapping.c): loading, clearing, adding
  and removing entries, and the laws of each. Removing from a list during its
  traversal visits every remaining entry, so the loops that remove are filters;
  a text built in the middle of such a loop is built again at its end.
\<close>

section \<open>Comparison\<close>

definition mapping_is_equal :: "string option \<Rightarrow> string option \<Rightarrow> bool option" where
  "mapping_is_equal first_str second_str =
     (case (first_str, second_str) of
        (None, None) \<Rightarrow> Some True
      | (Some f, Some s) \<Rightarrow>
          do { first \<leftarrow> parser_load_mapping f; second \<leftarrow> parser_load_mapping s;
               case (first, second) of
                 (None, None) \<Rightarrow> Some True
               | (Some m, Some m') \<Rightarrow>
                   Some (same_ids mp_id (mg_map_elements m) (mg_map_elements m')
                         \<and> same_ids sp_id (mg_split_elements m) (mg_split_elements m'))
               | _ \<Rightarrow> Some False }
      | _ \<Rightarrow> Some False)"

section \<open>Operations on one agent\<close>

definition mapping_changed :: "igs_agent \<Rightarrow> igs_agent option" where
  "mapping_changed a =
     do { m \<leftarrow> ag_mapping a; m \<leftarrow> mapping_update_json m;
          Some (a\<lparr> ag_mapping := Some m, ag_need_mapping_update := True \<rparr>) }"

definition set_maps :: "igs_map list \<Rightarrow> igs_agent \<Rightarrow> igs_agent" where
  "set_maps es a = a\<lparr> ag_mapping := map_option (\<lambda>m. m\<lparr> mg_map_elements := es \<rparr>) (ag_mapping a) \<rparr>"

definition empty_mapping :: igs_mapping where
  "empty_mapping = \<lparr> mg_json = None, mg_json_legacy = None, mg_map_elements = [], mg_split_elements = [] \<rparr>"

definition load_mapping_body ::
    "string \<Rightarrow> string option \<Rightarrow> igs_agent \<Rightarrow> (igs_result \<times> igs_agent) option" where
  "load_mapping_body json_str current a =
     do { eq \<leftarrow> mapping_is_equal (Some json_str) current;
          if eq then Some (IGS_SUCCESS, a)
          else do { tmp \<leftarrow> parser_load_mapping json_str;
                    case tmp of
                      None \<Rightarrow> Some (IGS_FAILURE, a)
                    | Some m \<Rightarrow> do { a \<leftarrow> mapping_changed (a\<lparr> ag_mapping := Some m \<rparr>); Some (IGS_SUCCESS, a) } } }"

definition load_mapping_file_body :: "parse_env \<Rightarrow> string \<Rightarrow> igs_agent \<Rightarrow> (igs_result \<times> igs_agent) option" where
  "load_mapping_file_body env file_path a =
     do { tmp \<leftarrow> parser_load_mapping_from_path env file_path;
          case tmp of
            None \<Rightarrow> Some (IGS_FAILURE, a)
          | Some m \<Rightarrow> do { v \<leftarrow> strndup_str file_path (IGS_MAX_PATH_LENGTH - 1);
                           a \<leftarrow> mapping_changed (a\<lparr> ag_mapping_path := Some v, ag_mapping := Some m \<rparr>);
                           Some (IGS_SUCCESS, a) } }"

definition clear_mappings_body :: "igs_agent \<Rightarrow> (unit \<times> igs_agent) option" where
  "clear_mappings_body a =
     do { a \<leftarrow> mapping_changed (a\<lparr> ag_mapping := Some empty_mapping \<rparr>); Some ((), a) }"

text \<open>Drop the entries that satisfy a test, then build the texts if an update is pending.\<close>

definition drop_maps :: "(igs_map \<Rightarrow> bool) \<Rightarrow> igs_mapping \<Rightarrow> igs_agent \<Rightarrow> igs_agent option" where
  "drop_maps P m a =
     (let a = (if \<exists>e \<in> set (mg_map_elements m). P e then a\<lparr> ag_need_mapping_update := True \<rparr> else a);
          a = set_maps (filter (\<lambda>e. \<not> P e) (mg_map_elements m)) a
      in if ag_need_mapping_update a then mapping_changed a else Some a)"

definition clear_with_agent_body :: "string \<Rightarrow> igs_agent \<Rightarrow> (unit \<times> igs_agent) option" where
  "clear_with_agent_body agent_name a =
     (case ag_mapping a of
        None \<Rightarrow> Some ((), a)
      | Some m \<Rightarrow> do { a \<leftarrow> drop_maps (\<lambda>e. mp_to_agent e = agent_name) m a; Some ((), a) })"

definition clear_for_input_body :: "string \<Rightarrow> igs_agent \<Rightarrow> (unit \<times> igs_agent) option" where
  "clear_for_input_body input_name a =
     do { m \<leftarrow> ag_mapping a; a \<leftarrow> drop_maps (\<lambda>e. mp_from_input e = input_name) m a; Some ((), a) }"

definition mapping_add_body :: "string \<Rightarrow> string \<Rightarrow> string \<Rightarrow> igs_agent \<Rightarrow> (u64 \<times> igs_agent) option" where
  "mapping_add_body from_our_input to_agent with_output a =
     do { m \<leftarrow> ag_mapping a;
          let hash = entry_id from_our_input to_agent with_output;
          if \<exists>e \<in> set (mg_map_elements m). mp_id e = hash then Some (hash, a)
          else do { a \<leftarrow> mapping_changed
                      (set_maps (mg_map_elements m @ [new_map from_our_input to_agent with_output]) a);
                    Some (hash, a) } }"

definition mapping_remove_body :: "u64 \<Rightarrow> igs_agent \<Rightarrow> (igs_result \<times> igs_agent) option" where
  "mapping_remove_body the_id a =
     do { m \<leftarrow> ag_mapping a;
          if \<not> (\<exists>e \<in> set (mg_map_elements m). mp_id e = the_id) then Some (IGS_FAILURE, a)
          else do { a \<leftarrow> mapping_changed (set_maps (remove_first (\<lambda>e. mp_id e = the_id) (mg_map_elements m)) a);
                    Some (IGS_SUCCESS, a) } }"

section \<open>The interface\<close>

definition has_mapping :: "addr \<Rightarrow> igs_core \<Rightarrow> unit option" where
  "has_mapping p c = do { a \<leftarrow> deref p c; c_assert (ag_mapping a \<noteq> None) }"

definition igsagent_mapping_json :: "addr \<Rightarrow> string option core_op" where
  "igsagent_mapping_json p = with_agent p None (locked (read_agent p (\<lambda>a. do { m \<leftarrow> ag_mapping a; Some (mg_json m) })))"

definition igsagent_mapping_count :: "addr \<Rightarrow> nat core_op" where
  "igsagent_mapping_count p = with_agent p 0 (locked (read_agent p (\<lambda>a.
     do { m \<leftarrow> ag_mapping a; Some (length (mg_map_elements m)) })))"

definition igsagent_mapping_load_str :: "addr \<Rightarrow> string \<Rightarrow> igs_result core_op" where
  "igsagent_mapping_load_str p json_str = with_agent p IGS_FAILURE (\<lambda>c.
     do { (current, c) \<leftarrow> igsagent_mapping_json p c;
          locked (on_agent p (load_mapping_body json_str current)) c })"

definition igsagent_mapping_load_file :: "parse_env \<Rightarrow> addr \<Rightarrow> string \<Rightarrow> igs_result core_op" where
  "igsagent_mapping_load_file env p path =
     with_agent p IGS_FAILURE (locked (on_agent p (load_mapping_file_body env path)))"

definition igsagent_clear_mappings :: "addr \<Rightarrow> unit core_op" where
  "igsagent_clear_mappings p = with_agent p () (locked (on_agent p clear_mappings_body))"

definition igsagent_clear_mappings_with_agent :: "addr \<Rightarrow> string \<Rightarrow> unit core_op" where
  "igsagent_clear_mappings_with_agent p n = with_agent p () (locked (on_agent p (clear_with_agent_body n)))"

definition igsagent_clear_mappings_for_input :: "addr \<Rightarrow> string \<Rightarrow> unit core_op" where
  "igsagent_clear_mappings_for_input p n = with_agent p () (locked (on_agent p (clear_for_input_body n)))"

definition igsagent_mapping_add :: "addr \<Rightarrow> string \<Rightarrow> string \<Rightarrow> string \<Rightarrow> u64 core_op" where
  "igsagent_mapping_add p from_our_input to_agent with_output = with_agent p 0 (\<lambda>c.
     do { c_assert (from_our_input \<noteq> []); checked from_our_input IGS_MAX_IO_NAME_LENGTH;
          c_assert (to_agent \<noteq> []); checked to_agent IGS_MAX_AGENT_NAME_LENGTH;
          c_assert (with_output \<noteq> []); checked with_output IGS_MAX_IO_NAME_LENGTH;
          locked (on_agent p (mapping_add_body from_our_input to_agent with_output)) c })"

definition igsagent_mapping_remove_with_id :: "addr \<Rightarrow> u64 \<Rightarrow> igs_result core_op" where
  "igsagent_mapping_remove_with_id p the_id = with_agent p IGS_FAILURE (\<lambda>c.
     do { has_mapping p c; locked (on_agent p (mapping_remove_body the_id)) c })"

definition igsagent_mapping_remove_with_name :: "addr \<Rightarrow> string \<Rightarrow> string \<Rightarrow> string \<Rightarrow> igs_result core_op" where
  "igsagent_mapping_remove_with_name p from_our_input to_agent with_output = with_agent p IGS_FAILURE (\<lambda>c.
     do { has_mapping p c;
          locked (on_agent p (mapping_remove_body (entry_id from_our_input to_agent with_output))) c })"

definition igsagent_mapping_set_path where
  "igsagent_mapping_set_path = set_path ''MAPPING_FILE_PATH'' (\<lambda>v a. a\<lparr> ag_mapping_path := Some v \<rparr>)"

section \<open>Laws\<close>

definition agent_mapping_ok :: "igs_agent \<Rightarrow> bool" where
  "agent_mapping_ok a \<longleftrightarrow> (\<forall>m. ag_mapping a = Some m \<longrightarrow> mapping_wf m \<and> mg_json m = Some (mapping_text m))"

definition refreshed_mapping :: "igs_mapping \<Rightarrow> igs_mapping" where
  "refreshed_mapping m = m\<lparr> mg_json := Some (mapping_text m),
     mg_json_legacy := Some (render 0 (legacy_mapping_tree m) @ newline) \<rparr>"

lemma refreshed_mapping_simps [simp]:
  "mg_map_elements (refreshed_mapping m) = mg_map_elements m"
  "mg_split_elements (refreshed_mapping m) = mg_split_elements m"
  "mapping_wf (refreshed_mapping m) = mapping_wf m"
  "mg_json (refreshed_mapping m) = Some (mapping_text (refreshed_mapping m))"
  unfolding mapping_text_def refreshed_mapping_def trees_ignore_json by (simp_all add: mapping_wf_def)

lemma mapping_changed_result:
  "ag_mapping a = Some m \<Longrightarrow> mapping_changed a
     = Some (a\<lparr> ag_mapping := Some (refreshed_mapping m), ag_need_mapping_update := True \<rparr>)"
  by (simp add: mapping_changed_def mapping_update_json_result refreshed_mapping_def)

lemma mapping_changed_ok:
  "mapping_changed a = Some a' \<Longrightarrow> (\<And>m. ag_mapping a = Some m \<Longrightarrow> mapping_wf m) \<Longrightarrow> agent_mapping_ok a'"
  by (cases "ag_mapping a")
    (simp add: mapping_changed_def, auto simp: mapping_changed_result agent_mapping_ok_def)

lemma mapping_okD: "agent_mapping_ok a \<Longrightarrow> ag_mapping a = Some m \<Longrightarrow>
    maps_ok (mg_map_elements m) \<and> splits_ok (mg_split_elements m)"
  by (simp add: agent_mapping_ok_def mapping_wf_parts)

lemma set_maps_mapping [simp]:
  "ag_mapping (set_maps es a) = map_option (\<lambda>m. m\<lparr> mg_map_elements := es \<rparr>) (ag_mapping a)"
  "ag_need_mapping_update (set_maps es a) = ag_need_mapping_update a"
  by (simp_all add: set_maps_def)

lemma set_maps_wf: "mapping_wf m \<Longrightarrow> maps_ok es \<Longrightarrow> mapping_wf (m\<lparr> mg_map_elements := es \<rparr>)"
  by (simp add: mapping_wf_parts)

lemma maps_ok_filter: "maps_ok es \<Longrightarrow> maps_ok (filter P es)"
  by (simp add: maps_ok_def maps.keyed_filter)

lemma maps_ok_remove: "maps_ok es \<Longrightarrow> maps_ok (remove_first P es)"
  by (auto simp: maps_ok_def maps.keyed_remove dest: set_remove_first_subset [THEN subsetD])

lemma maps_ok_append: "maps_ok es \<Longrightarrow> \<not> (\<exists>e \<in> set es. mp_id e = entry_id i a out) \<Longrightarrow> maps_ok (es @ [new_map i a out])"
  using add_map_ok [of es i a out] by (simp add: add_unique_def new_map_def)

lemma drop_maps_ok:
  assumes "drop_maps P m a = Some a'" and "ag_mapping a = Some m" and "agent_mapping_ok a"
  shows "agent_mapping_ok a'"
proof -
  have wf: "mapping_wf m" "maps_ok (mg_map_elements m)" "mg_json m = Some (mapping_text m)"
    using assms(2,3) by (auto simp: agent_mapping_ok_def mapping_wf_parts)
  let ?es = "filter (\<lambda>e. \<not> P e) (mg_map_elements m)"
  have w: "mapping_wf (m\<lparr> mg_map_elements := ?es \<rparr>)" using wf by (simp add: set_maps_wf maps_ok_filter)
  show ?thesis
  proof (cases "\<exists>e \<in> set (mg_map_elements m). P e")
    case True
    then have "mapping_changed (set_maps ?es (a\<lparr> ag_need_mapping_update := True \<rparr>)) = Some a'"
      using assms(1) by (simp add: drop_maps_def)
    then show ?thesis by (rule mapping_changed_ok) (use assms(2) w in auto)
  next
    case False
    then have es: "?es = mg_map_elements m" by (simp add: filter_id_conv)
    have "mapping_changed (set_maps ?es a) = Some a' \<or> a' = set_maps ?es a"
      using assms(1) False by (auto simp: drop_maps_def Let_def split: if_splits)
    then show ?thesis
    proof
      assume "mapping_changed (set_maps ?es a) = Some a'"
      then show ?thesis by (rule mapping_changed_ok) (use assms(2) w in auto)
    next
      assume "a' = set_maps ?es a"
      then show ?thesis using assms(2) wf unfolding es by (cases m) (simp add: agent_mapping_ok_def)
    qed
  qed
qed

lemma mapping_bodies_ok:
  "agent_mapping_ok a \<Longrightarrow> load_mapping_body s cur a = Some (r, a') \<Longrightarrow> agent_mapping_ok a'"
  "agent_mapping_ok a \<Longrightarrow> load_mapping_file_body env s a = Some (r, a') \<Longrightarrow> agent_mapping_ok a'"
  "agent_mapping_ok a \<Longrightarrow> clear_mappings_body a = Some (u, a') \<Longrightarrow> agent_mapping_ok a'"
  "agent_mapping_ok a \<Longrightarrow> clear_with_agent_body n a = Some (u, a') \<Longrightarrow> agent_mapping_ok a'"
  "agent_mapping_ok a \<Longrightarrow> clear_for_input_body n a = Some (u, a') \<Longrightarrow> agent_mapping_ok a'"
  "agent_mapping_ok a \<Longrightarrow> mapping_add_body i ag out a = Some (h, a') \<Longrightarrow> agent_mapping_ok a'"
  "agent_mapping_ok a \<Longrightarrow> mapping_remove_body k a = Some (r, a') \<Longrightarrow> agent_mapping_ok a'"
proof -
  have loaded: "parser_load_mapping s = Some (Some m) \<Longrightarrow> mapping_wf m"
    "parser_load_mapping_from_path env s = Some (Some m) \<Longrightarrow> mapping_wf m" for m
    by (auto simp: parser_load_mapping_def parser_load_mapping_from_path_def dest!: loaded_with_Some intro: parse_mapping_wf)
  show "agent_mapping_ok a \<Longrightarrow> load_mapping_body s cur a = Some (r, a') \<Longrightarrow> agent_mapping_ok a'"
    "agent_mapping_ok a \<Longrightarrow> load_mapping_file_body env s a = Some (r, a') \<Longrightarrow> agent_mapping_ok a'"
    by (auto simp: load_mapping_body_def load_mapping_file_body_def bind_some_eqs loaded
        split: if_splits option.splits elim!: mapping_changed_ok)
  show "agent_mapping_ok a \<Longrightarrow> clear_mappings_body a = Some (u, a') \<Longrightarrow> agent_mapping_ok a'"
    by (auto simp: clear_mappings_body_def bind_some_eqs mapping_wf_def empty_mapping_def elim!: mapping_changed_ok)
  show "agent_mapping_ok a \<Longrightarrow> clear_with_agent_body n a = Some (u, a') \<Longrightarrow> agent_mapping_ok a'"
    "agent_mapping_ok a \<Longrightarrow> clear_for_input_body n a = Some (u, a') \<Longrightarrow> agent_mapping_ok a'"
    by (auto simp: clear_with_agent_body_def clear_for_input_body_def bind_some_eqs split: option.splits
        elim!: drop_maps_ok)
  show "agent_mapping_ok a \<Longrightarrow> mapping_add_body i ag out a = Some (h, a') \<Longrightarrow> agent_mapping_ok a'"
    "agent_mapping_ok a \<Longrightarrow> mapping_remove_body k a = Some (r, a') \<Longrightarrow> agent_mapping_ok a'"
    by (auto simp: mapping_add_body_def mapping_remove_body_def bind_some_eqs Let_def mapping_wf_parts
        split: if_splits elim!: mapping_changed_ok)
      (auto dest!: mapping_okD intro: maps_ok_append maps_ok_remove)
qed


interpretation load_mapping_law: agent_law agent_mapping_ok "load_mapping_body s cur" for s cur
  by unfold_locales (rule mapping_bodies_ok)

interpretation load_mapping_file_law: agent_law agent_mapping_ok "load_mapping_file_body env s" for env s
  by unfold_locales (rule mapping_bodies_ok)

interpretation clear_mappings_law: agent_law agent_mapping_ok clear_mappings_body
  by unfold_locales (rule mapping_bodies_ok)

interpretation clear_with_agent_law: agent_law agent_mapping_ok "clear_with_agent_body n" for n
  by unfold_locales (rule mapping_bodies_ok)

interpretation clear_for_input_law: agent_law agent_mapping_ok "clear_for_input_body n" for n
  by unfold_locales (rule mapping_bodies_ok)

interpretation mapping_add_law: agent_law agent_mapping_ok "mapping_add_body i ag out" for i ag out
  by unfold_locales (rule mapping_bodies_ok)

interpretation mapping_remove_law: agent_law agent_mapping_ok "mapping_remove_body k" for k
  by unfold_locales (rule mapping_bodies_ok)

section \<open>Mappings as sets of links\<close>

text \<open>The abstract mapping: a set of links from an input to an output of an agent.\<close>

definition links :: "igs_agent \<Rightarrow> (string \<times> string \<times> string) set" where
  "links a = (case ag_mapping a of None \<Rightarrow> {} | Some m \<Rightarrow> map_parts ` set (mg_map_elements m))"

definition hash_free :: "string \<Rightarrow> string \<Rightarrow> string \<Rightarrow> (string \<times> string \<times> string) set \<Rightarrow> bool" where
  "hash_free i ag out ls \<longleftrightarrow> (\<forall>(i', ag', out') \<in> ls. entry_id i' ag' out' = entry_id i ag out \<longrightarrow> (i', ag', out') = (i, ag, out))"

lemma links_set_maps: "ag_mapping a = Some m \<Longrightarrow> mapping_changed (set_maps es a) = Some a' \<Longrightarrow> links a' = map_parts ` set es"
  by (auto simp: mapping_changed_result links_def)

lemma mapping_add_links:
  assumes "agent_mapping_ok a" and "ag_mapping a = Some m" and "hash_free i ag out (links a)"
  shows "\<exists>a'. mapping_add_body i ag out a = Some (entry_id i ag out, a') \<and> links a' = insert (i, ag, out) (links a)"
proof (cases "\<exists>e \<in> set (mg_map_elements m). mp_id e = entry_id i ag out")
  case True
  then obtain e where e: "e \<in> set (mg_map_elements m)" "mp_id e = entry_id i ag out" by blast
  have "mp_id e = entry_id (mp_from_input e) (mp_to_agent e) (mp_to_output e)"
    using mapping_okD [OF assms(1,2)] e by (auto simp: maps_ok_def)
  then have "map_parts e = (i, ag, out)"
    using assms(2,3) e by (fastforce simp: hash_free_def links_def map_parts_def)
  then have "(i, ag, out) \<in> links a" using assms(2) e by (force simp: links_def)
  then show ?thesis using True assms(2) by (auto simp: mapping_add_body_def)
next
  case False
  let ?es = "mg_map_elements m @ [new_map i ag out]"
  obtain a' where "mapping_changed (set_maps ?es a) = Some a'"
    using assms(2) by (simp add: mapping_changed_def mapping_update_json_result)
  then show ?thesis
    using False assms(2) links_set_maps [OF assms(2), of ?es a']
    by (auto simp: mapping_add_body_def links_def)
qed

lemma mapping_remove_links:
  assumes "agent_mapping_ok a" and "ag_mapping a = Some m" and "hash_free i ag out (links a)"
  shows "\<exists>r a'. mapping_remove_body (entry_id i ag out) a = Some (r, a') \<and> links a' = links a - {(i, ag, out)}
    \<and> (r = IGS_SUCCESS \<longleftrightarrow> (i, ag, out) \<in> links a)"
proof -
  have ok: "maps_ok (mg_map_elements m)" using mapping_okD [OF assms(1,2)] by simp
  have id: "mp_id e = entry_id i ag out \<longleftrightarrow> map_parts e = (i, ag, out)" if "e \<in> set (mg_map_elements m)" for e
    using that ok assms(2,3) by (fastforce simp: maps_ok_def hash_free_def links_def map_parts_def)
  show ?thesis
  proof (cases "\<exists>e \<in> set (mg_map_elements m). mp_id e = entry_id i ag out")
    case True
    let ?es = "remove_first (\<lambda>e. mp_id e = entry_id i ag out) (mg_map_elements m)"
    obtain a' where a': "mapping_changed (set_maps ?es a) = Some a'"
      using assms(2) by (simp add: mapping_changed_def mapping_update_json_result)
    have es: "?es = filter (\<lambda>e. mp_id e \<noteq> entry_id i ag out) (mg_map_elements m)"
      using ok by (simp add: maps_ok_def maps.remove_id)
    have "links a' = map_parts ` set ?es" by (rule links_set_maps [OF assms(2) a'])
    moreover have "links a = map_parts ` set (mg_map_elements m)" using assms(2) by (simp add: links_def)
    ultimately have "links a' = links a - {(i, ag, out)}" using id unfolding es by force
    moreover have "(i, ag, out) \<in> links a" using True id assms(2) by (force simp: links_def)
    moreover have "mapping_remove_body (entry_id i ag out) a = Some (IGS_SUCCESS, a')"
      using True a' assms(2) by (simp add: mapping_remove_body_def)
    ultimately show ?thesis by blast
  next
    case False
    then have "(i, ag, out) \<notin> links a" using id assms(2) by (force simp: links_def)
    moreover have "mapping_remove_body (entry_id i ag out) a = Some (IGS_FAILURE, a)"
      using False assms(2) by (simp add: mapping_remove_body_def)
    ultimately show ?thesis by (intro exI [of _ IGS_FAILURE] exI [of _ a]) simp
  qed
qed

text \<open>Names with dots can hash the same: then the second entry is dropped.\<close>

lemma mashup_collision: "entry_id (i @ ''.'' @ x) ag out = entry_id i (x @ ''.'' @ ag) out"
  by (simp add: entry_id_def mashup_def)

lemma mapping_add_dropped:
  assumes "ag_mapping a = Some m" and "e \<in> set (mg_map_elements m)" and "mp_id e = entry_id i ag out"
  shows "mapping_add_body i ag out a = Some (entry_id i ag out, a)"
  using assms by (auto simp: mapping_add_body_def Let_def)

section \<open>What the comparison decides\<close>

lemma mapping_is_equal_ids:
  assumes "parser_load_mapping s = Some (Some m)" and "parser_load_mapping s' = Some (Some m')"
  shows "mapping_is_equal (Some s) (Some s') = Some
     (mp_id ` set (mg_map_elements m) = mp_id ` set (mg_map_elements m')
      \<and> sp_id ` set (mg_split_elements m) = sp_id ` set (mg_split_elements m'))"
proof -
  have "mapping_wf m" "mapping_wf m'"
    using assms by (auto simp: parser_load_mapping_def dest!: loaded_with_Some intro: parse_mapping_wf)
  then show ?thesis
    using assms by (simp add: mapping_is_equal_def mapping_wf_def maps.same_ids_iff splits.same_ids_iff)
qed

end
