(* ===== verification/Igs_Parser_Laws.thy ===== *)
theory Igs_Parser_Laws
  imports Igs_Mapping
begin

text \<open>
  Definitions read from JSON: what every accepted tree gives, and that the tree
  of a definition gives the definition back, less what JSON does not carry
  (values, callbacks, the mute flag).
\<close>

section \<open>What a parsed definition satisfies\<close>

definition pair_ok :: "igs_io_type \<Rightarrow> string list \<times> (string, igs_io) table \<Rightarrow> bool" where
  "pair_ok t r \<longleftrightarrow> registered io_name (fst r) (snd r) \<and> (\<forall>(k, io) \<in> set (snd r). io_wf io \<and> io_type io = t)"

lemma parsed_io_wf: "io_wf ((new_io n t vt)\<lparr> io_constraint := c, io_description := x, io_detailed_type := y, io_specification := z \<rparr>)"
  by (cases vt) (simp_all add: io_wf_def new_io_def)

lemma zh_insert_subset: "set (zh_insert k v t) \<subseteq> insert (k, v) (set t)"
  by (auto simp: set_zh_insert)

lemma parse_io_ok: "parse_io env t node r = Some r' \<Longrightarrow> pair_ok t r \<Longrightarrow> pair_ok t r'"
  unfolding parse_io_def
  by (auto simp: bind_some_eqs Let_def pair_ok_def reg_add_def parsed_io_wf split: option.splits if_splits
      intro!: registered_add dest!: zh_insert_subset [THEN subsetD])

lemma in_array_keeps:
  assumes "in_array f n s = Some s'" and "P s" and "\<And>n s s'. f n s = Some s' \<Longrightarrow> P s \<Longrightarrow> P s'"
  shows "P s'"
  using assms(1,2) fold_keyed [of f _ s s' P] assms(3)
  by (auto simp: in_array_def split: option.splits igs_json_node.splits)

definition replies_ok :: "string list \<times> (string, igs_reply) table \<Rightarrow> bool" where
  "replies_ok r \<longleftrightarrow> zh_wf (snd r) \<and> set (fst r) = fst ` set (snd r) \<and> (\<forall>(k, v) \<in> set (snd r). rp_name v = k)"

lemma reply_add_ok: "replies_ok r \<Longrightarrow> rp_name v = k \<Longrightarrow> replies_ok (reg_add k v r)"
  using zh_lookup_None_iff [of "snd r" k] zh_wf_insert [of "snd r" k v]
  by (auto simp: replies_ok_def reg_add_def set_zh_insert image_iff split: if_splits)

lemma replies_registered: "replies_ok r \<Longrightarrow> registered rp_name (fst r) (snd r) \<longleftrightarrow> distinct (fst r)"
  by (auto simp: replies_ok_def registered_def)

lemma parse_reply_ok: "parse_reply node r = Some r' \<Longrightarrow> replies_ok r \<Longrightarrow> replies_ok r'"
  by (auto simp: parse_reply_def bind_some_eqs intro: reply_add_ok split: option.splits)

definition svs_ok :: "string list \<times> (string, igs_service) table \<Rightarrow> bool" where
  "svs_ok r \<longleftrightarrow> registered sv_name (fst r) (snd r)
     \<and> (\<forall>(k, s) \<in> set (snd r). replies_ok (sv_replies_names s, sv_replies s))"

lemma parse_ios_ok: "in_array (parse_io env t) n r = Some r' \<Longrightarrow> pair_ok t r \<Longrightarrow> pair_ok t r'"
  by (erule in_array_keeps) (auto intro: parse_io_ok)

lemma parse_replies_ok: "in_array parse_reply n r = Some r' \<Longrightarrow> replies_ok r \<Longrightarrow> replies_ok r'"
  by (erule in_array_keeps) (auto intro: parse_reply_ok)

lemma parse_service_ok: "parse_service node r = Some r' \<Longrightarrow> svs_ok r \<Longrightarrow> svs_ok r'"
  unfolding parse_service_def
  by (auto simp: bind_some_eqs svs_ok_def reg_add_def split: option.splits if_splits
      intro!: registered_add dest!: zh_insert_subset [THEN subsetD] parse_replies_ok)
    (simp add: replies_ok_def)+

lemma parse_services_ok: "in_array parse_service n r = Some r' \<Longrightarrow> svs_ok r \<Longrightarrow> svs_ok r'"
  by (erule in_array_keeps) (auto intro: parse_service_ok)

lemma parse_definition_ok:
  assumes "parser_parse_definition_from_node env json = Some (Some d)"
  shows "\<And>t. ios_ok t d" "svs_ok (df_services_names d, df_services d)"
proof -
  obtain n1 n2 n3 n4 ins outs attrs svs where a: "in_array (parse_io env IGS_INPUT_T) n1 ([], []) = Some ins"
    "in_array (parse_io env IGS_OUTPUT_T) n2 ([], []) = Some outs"
    "in_array (parse_io env IGS_ATTRIBUTE_T) n3 ([], []) = Some attrs"
    "in_array parse_service n4 ([], []) = Some svs"
    "\<exists>e. d = put_services svs (put_ios IGS_ATTRIBUTE_T attrs (put_ios IGS_OUTPUT_T outs (put_ios IGS_INPUT_T ins e)))"
    using assms unfolding parser_parse_definition_from_node_def parse_inputs_def parse_outputs_def parse_attributes_def
      parse_services_def
    by (cases "find_string json [''definition'', ''name'']") (simp, simp only: option.case bind_some_eqs, blast)
  have nil: "pair_ok t ([], [])" "svs_ok ([], [])" for t by (simp_all add: pair_ok_def svs_ok_def)
  have "pair_ok IGS_INPUT_T ins" "pair_ok IGS_OUTPUT_T outs" "pair_ok IGS_ATTRIBUTE_T attrs" "svs_ok svs"
    using parse_ios_ok [OF a(1) nil(1)] parse_ios_ok [OF a(2) nil(1)] parse_ios_ok [OF a(3) nil(1)]
      parse_services_ok [OF a(4) nil(2)] by blast+
  then show "ios_ok t d" "svs_ok (df_services_names d, df_services d)" for t
    using a(5) by (cases t; auto simp: ios_ok_def pair_ok_def put_services_def put_ios_def set_ios_def io_names_def io_table_def)+
qed

lemma parse_definition_names_in:
  assumes "parser_parse_definition_from_node env json = Some (Some d)" shows "definition_names_in d"
proof -
  have n: "names_in (io_names t d) (io_table t d)" for t
    using parse_definition_ok(1) [OF assms, of t] by (auto simp: ios_ok_def intro: registered_names_in)
  have s: "svs_ok (df_services_names d, df_services d)" by (rule parse_definition_ok [OF assms])
  have v: "names_in (sv_replies_names v) (sv_replies v)" if "zh_lookup (df_services d) n = Some v" for n v
    using s zh_lookup_SomeD [OF that] zh_lookup_None_iff [of "sv_replies v"]
    by (fastforce simp: svs_ok_def names_in_def replies_ok_def)
  have "names_in (df_services_names d) (df_services d)" using s by (auto simp: svs_ok_def intro: registered_names_in)
  then show ?thesis
    using v n [of IGS_INPUT_T] n [of IGS_OUTPUT_T] n [of IGS_ATTRIBUTE_T]
    by (simp add: definition_names_in_def io_names_def io_table_def)
qed

text \<open>It is well-formed exactly when no service came with two replies of one name.\<close>

lemma parse_definition_wf:
  assumes "parser_parse_definition_from_node env json = Some (Some d)"
  shows "definition_wf d \<longleftrightarrow> (\<forall>(k, s) \<in> set (df_services d). distinct (sv_replies_names s))"
proof -
  have "registered rp_name (sv_replies_names s) (sv_replies s) \<longleftrightarrow> distinct (sv_replies_names s)"
    if "(k, s) \<in> set (df_services d)" for k s
    using that parse_definition_ok(2) [OF assms] replies_registered [of "(sv_replies_names s, sv_replies s)"]
    by (auto simp: svs_ok_def)
  then show ?thesis
    using parse_definition_ok [OF assms] by (auto simp: definition_wf_def services_ok_def svs_ok_def service_ok_def)
qed

end
