(* ===== verification/Igs_Split.thy ===== *)
theory Igs_Split
  imports Igs_Core
begin

text \<open>
  Load balancing (src/src/igs_split.c): an output that other agents split has a
  splitter in the context, with the workers that said hello, their credits, and
  the queue of works not yet sent. Every publication queues a work, every
  message of a worker changes credits, and both end in
  \<open>s_split_trigger_send_message_to_worker\<close>, which hands the first queued work to
  the worker with most credit.

  The memory a work message copies for a string is that of the pointer in the work, not
  the string behind it, so a work keeps the address of its copy too: \<open>strdup_address\<close> is
  where the C library puts it.
\<close>

record split_env = net_env +
  strdup_address :: "string \<Rightarrow> igs_core \<Rightarrow> 64 word"

section \<open>Choosing a worker\<close>

fun max_credit_loop :: "nat \<Rightarrow> igs_worker \<Rightarrow> nat \<Rightarrow> igs_worker list \<Rightarrow> nat" where
  "max_credit_loop best bw i [] = best"
| "max_credit_loop best bw i (w # ws) =
     (if wk_credit bw < wk_credit w \<or> wk_credit bw = wk_credit w \<and> wk_uses w < wk_uses bw
      then max_credit_loop i w (Suc i) ws else max_credit_loop best bw (Suc i) ws)"

definition max_credit_worker :: "igs_worker list \<Rightarrow> nat option" where
  "max_credit_worker ws = (case ws of [] \<Rightarrow> None | w # _ \<Rightarrow> Some (max_credit_loop 0 w 0 ws))"

section \<open>Sending a work\<close>

definition is_splitter :: "string \<Rightarrow> string \<Rightarrow> igs_splitter \<Rightarrow> bool" where
  "is_splitter uuid out s \<longleftrightarrow> sl_agent_uuid s = uuid \<and> sl_output_name s = out"

text \<open>
  From \<open>&(work->value.s)\<close> on, an \<open>igs_queued_work_t\<close> of 24 bytes holds the 8 bytes of the
  pointer and then the 8 bytes of \<open>value_size\<close>; \<open>strlen (work->value.s) + 1\<close> of them are copied.
\<close>

definition work_memory :: "igs_queued_work \<Rightarrow> string" where
  "work_memory w = le_bytes 8 (unat (qw_s_address w)) @ le_bytes 8 (qw_value_size w)"

definition work_frames :: "igs_io_value_type \<Rightarrow> igs_queued_work \<Rightarrow> string list option" where
  "work_frames t w =
     (case t of
        IGS_INTEGER_T \<Rightarrow> Some [wr_int (qw_i w)]
      | IGS_DOUBLE_T \<Rightarrow> Some [wr_double (qw_d w)]
      | IGS_BOOL_T \<Rightarrow> Some [wr_bool (qw_b w)]
      | IGS_STRING_T \<Rightarrow>
          (case qw_s w of None \<Rightarrow> Some [[]]
           | Some m \<Rightarrow> do { s \<leftarrow> rd_cstr m; v \<leftarrow> copy_bytes (work_memory w) (length s + 1); Some [v] })
      | IGS_IMPULSION_T \<Rightarrow> Some [[]]
      | IGS_DATA_T \<Rightarrow>
          (case qw_data w of None \<Rightarrow> if qw_value_size w = 0 then Some [[]] else None
           | Some m \<Rightarrow> do { d \<leftarrow> copy_bytes m (qw_value_size w); Some [d] })
      | IGS_UNKNOWN_T \<Rightarrow> Some [])"

definition work_message ::
    "igs_splitter \<Rightarrow> igs_worker \<Rightarrow> igs_io \<Rightarrow> igs_queued_work \<Rightarrow> string list option" where
  "work_message s w output work =
     do { v \<leftarrow> work_frames (io_value_type output) work;
          Some ([''SPLITTER_WORK'', sl_agent_uuid s, wk_input_name w, io_name output,
                 fmt_d (int (value_type_code (io_value_type output)))] @ v) }"

text \<open>The announcement on the channel of the local agent, for each remote agent the worker is.\<close>

definition split_shout :: "igs_agent \<Rightarrow> igs_splitter \<Rightarrow> igs_worker \<Rightarrow> igs_io \<Rightarrow> igs_remote_agent \<Rightarrow> igs_event option" where
  "split_shout a s w output ra =
     do { d \<leftarrow> ag_definition a; n \<leftarrow> df_name d; ch \<leftarrow> ag_igs_channel a;
          rd \<leftarrow> ra_definition ra; rn \<leftarrow> df_name rd;
          Some (Zyre_Shouts ch (''SPLIT '' @ n @ ''('' @ sl_agent_uuid s @ '').'' @ io_name output @ '' to ''
            @ rn @ ''('' @ wk_agent_uuid w @ '').'' @ wk_input_name w)) }"

fun shout_remotes :: "igs_agent \<Rightarrow> igs_splitter \<Rightarrow> igs_worker \<Rightarrow> igs_io \<Rightarrow> igs_remote_agent list \<Rightarrow> igs_core \<Rightarrow> igs_core option" where
  "shout_remotes a s w output [] c = Some c"
| "shout_remotes a s w output (ra # ras) c =
     (if ra_uuid ra = wk_agent_uuid w
      then do { e \<leftarrow> split_shout a s w output ra; shout_remotes a s w output ras (emit e c) }
      else shout_remotes a s w output ras c)"

fun shout_locals :: "string \<Rightarrow> igs_splitter \<Rightarrow> igs_worker \<Rightarrow> igs_io \<Rightarrow> addr list \<Rightarrow> igs_core \<Rightarrow> igs_core option" where
  "shout_locals uuid s w output [] c = Some c"
| "shout_locals uuid s w output (p # ps) c =
     do { a \<leftarrow> deref p c; u \<leftarrow> ag_uuid a;
          c \<leftarrow> (if u = uuid then shout_remotes a s w output (map snd (cx_remote_agents c)) c else Some c);
          shout_locals uuid s w output ps c }"

text \<open>The first queued work leaves, the worker is used once more and has one credit less.\<close>

definition take_credit :: "nat \<Rightarrow> igs_splitter \<Rightarrow> igs_splitter" where
  "take_credit i s =
     (let w = sl_workers s ! i
      in s\<lparr> sl_queued_works := tl (sl_queued_works s),
            sl_workers := (sl_workers s)[i := w\<lparr> wk_uses := wk_uses w + 1, wk_credit := wk_credit w - 1 \<rparr>] \<rparr>)"

definition s_split_trigger_send_message_to_worker ::
    "split_env \<Rightarrow> string \<Rightarrow> igs_io \<Rightarrow> igs_core \<Rightarrow> igs_core option" where
  "s_split_trigger_send_message_to_worker env uuid output c =
     (case find (is_splitter uuid (io_name output)) (cx_splitters c) of
        None \<Rightarrow> Some c
      | Some s \<Rightarrow>
          (case max_credit_worker (sl_workers s) of
             None \<Rightarrow> Some c
           | Some i \<Rightarrow>
               let w = sl_workers s ! i
               in if \<not> 0 < wk_credit w then Some c
                  else (case sl_queued_works s of
                          [] \<Rightarrow> Some c
                        | work # _ \<Rightarrow>
                            do { m \<leftarrow> work_message s w output work;
                                 if \<not> int_ok (wk_uses w + 1) then None
                                 else do {
                                 let c = c\<lparr> cx_splitters :=
                                   update_first (is_splitter uuid (io_name output)) (take_credit i) (cx_splitters c) \<rparr>;
                                 c \<leftarrow> (if cx_node c then shout_locals uuid s w output (map snd (cx_agents c)) c
                                       else Some c);
                                 (_, c) \<leftarrow> unlocked (igs_channel_whisper_zmsg (net_env.truncate env) (wk_agent_uuid w) m) c;
                                 Some c } })))"

section \<open>Credits and works\<close>

text \<open>
  The loop over the workers of one splitter: the credit goes to every worker of
  that name, and the highest number of uses is what a new worker starts with.
\<close>

fun credit_workers :: "string \<Rightarrow> string \<Rightarrow> int \<Rightarrow> igs_worker list \<Rightarrow> (igs_worker list \<times> bool) option" where
  "credit_workers uuid input credit [] = Some ([], False)"
| "credit_workers uuid input credit (w # ws) =
     do { (ws, found) \<leftarrow> credit_workers uuid input credit ws;
          if wk_agent_uuid w = uuid \<and> wk_input_name w = input
          then (if int_ok (wk_credit w + credit) then Some (w\<lparr> wk_credit := wk_credit w + credit \<rparr> # ws, True) else None)
          else Some (w # ws, found) }"

definition max_uses :: "igs_worker list \<Rightarrow> int" where
  "max_uses ws = foldl (\<lambda>m w. if m < wk_uses w then wk_uses w else m) 0 ws"

definition new_worker :: "string \<Rightarrow> string \<Rightarrow> int \<Rightarrow> int \<Rightarrow> igs_worker" where
  "new_worker uuid input credit uses =
     \<lparr> wk_input_name = input, wk_agent_uuid = uuid, wk_credit = credit, wk_uses = uses \<rparr>"

fun credit_splitters ::
    "string \<Rightarrow> string \<Rightarrow> string \<Rightarrow> string \<Rightarrow> int \<Rightarrow> bool \<Rightarrow> igs_splitter list \<Rightarrow> bool \<times> bool
     \<Rightarrow> (igs_splitter list \<times> bool) option" where
  "credit_splitters agent out uuid input credit is_new [] (wfound, sfound) = Some ([], sfound)"
| "credit_splitters agent out uuid input credit is_new (s # ss) (wfound, sfound) =
     (if is_splitter agent out s then
        do { (ws, found) \<leftarrow> credit_workers uuid input credit (sl_workers s);
             let wfound = (wfound \<or> found);
             let ws = (if \<not> wfound \<and> is_new then ws @ [new_worker uuid input credit (max_uses (sl_workers s))] else ws);
             (ss, sfound) \<leftarrow> credit_splitters agent out uuid input credit is_new ss (wfound, True);
             Some (s\<lparr> sl_workers := ws \<rparr> # ss, sfound) }
      else do { (ss, sfound) \<leftarrow> credit_splitters agent out uuid input credit is_new ss (wfound, sfound); Some (s # ss, sfound) })"

definition s_split_add_credit_to_worker ::
    "split_env \<Rightarrow> string \<Rightarrow> igs_io \<Rightarrow> string \<Rightarrow> string \<Rightarrow> int \<Rightarrow> bool \<Rightarrow> igs_core \<Rightarrow> igs_core option" where
  "s_split_add_credit_to_worker env agent output uuid input credit is_new c =
     do { (ss, found) \<leftarrow> credit_splitters agent (io_name output) uuid input credit is_new (cx_splitters c) (False, False);
          let ss = (if \<not> found \<and> is_new
                    then ss @ [\<lparr> sl_agent_uuid = agent, sl_output_name = io_name output,
                                 sl_workers = [new_worker uuid input credit 0], sl_queued_works = [] \<rparr>]
                    else ss);
          s_split_trigger_send_message_to_worker env agent output (c\<lparr> cx_splitters := ss \<rparr>) }"

text \<open>A splitter goes with its last worker, and its queue with it.\<close>

definition removes :: "string \<Rightarrow> string option \<Rightarrow> igs_worker \<Rightarrow> bool" where
  "removes uuid input w \<longleftrightarrow> wk_agent_uuid w = uuid \<and> (case input of None \<Rightarrow> True | Some i \<Rightarrow> wk_input_name w = i)"

definition split_remove_worker :: "string \<Rightarrow> string option \<Rightarrow> igs_core \<Rightarrow> igs_core" where
  "split_remove_worker uuid input c =
     c\<lparr> cx_splitters := filter (\<lambda>s. sl_workers s \<noteq> [])
          (map (\<lambda>s. s\<lparr> sl_workers := filter (\<lambda>w. \<not> removes uuid input w) (sl_workers s) \<rparr>) (cx_splitters c)) \<rparr>"

definition new_work :: "split_env \<Rightarrow> igs_io \<Rightarrow> igs_core \<Rightarrow> igs_queued_work option" where
  "new_work env out c =
     (let w = \<lparr> qw_value_type = io_value_type out, qw_i = 0, qw_d = 0, qw_s = None, qw_s_address = 0, qw_b = False,
                qw_data = None, qw_value_size = io_value_size out \<rparr>
      in case io_value_type out of
           IGS_INTEGER_T \<Rightarrow> Some (w\<lparr> qw_i := io_i out \<rparr>)
         | IGS_DOUBLE_T \<Rightarrow> Some (w\<lparr> qw_d := io_d out \<rparr>)
         | IGS_BOOL_T \<Rightarrow> Some (w\<lparr> qw_b := io_b out \<rparr>)
         | IGS_STRING_T \<Rightarrow>
             (case io_s out of None \<Rightarrow> Some w
              | Some m \<Rightarrow> do { s \<leftarrow> rd_cstr m; Some (w\<lparr> qw_s := Some (wr_cstr s), qw_s_address := strdup_address env s c \<rparr>) })
         | IGS_DATA_T \<Rightarrow>
             if io_value_size out = 0 then Some (w\<lparr> qw_data := Some [] \<rparr>)
             else do { m \<leftarrow> io_data out; d \<leftarrow> copy_bytes m (io_value_size out); Some (w\<lparr> qw_data := Some d \<rparr>) }
         | _ \<Rightarrow> Some w)"

text \<open>
  The loop over a copy of the list: the work goes to each splitter of the
  output, and the trigger runs once per splitter of the context.
\<close>

fun add_work_loop :: "split_env \<Rightarrow> string \<Rightarrow> igs_io \<Rightarrow> nat list \<Rightarrow> igs_core \<Rightarrow> igs_core option" where
  "add_work_loop env uuid output [] c = Some c"
| "add_work_loop env uuid output (i # is) c =
     do { c \<leftarrow> (if i < length (cx_splitters c) \<and> is_splitter uuid (io_name output) (cx_splitters c ! i)
                then do { w \<leftarrow> new_work env output c;
                          Some (c\<lparr> cx_splitters := (cx_splitters c)[i := (cx_splitters c ! i)
                            \<lparr> sl_queued_works := sl_queued_works (cx_splitters c ! i) @ [w] \<rparr>] \<rparr>) }
                else Some c);
          c \<leftarrow> s_split_trigger_send_message_to_worker env uuid output c;
          add_work_loop env uuid output is c }"

definition split_add_work_to_queue :: "split_env \<Rightarrow> string \<Rightarrow> igs_io \<Rightarrow> igs_core \<Rightarrow> igs_core option" where
  "split_add_work_to_queue env uuid output c =
     add_work_loop env uuid output [0..<length (cx_splitters c)] c"

section \<open>The choice is the best one\<close>

text \<open>More credit first, then fewer uses.\<close>

definition worker_le :: "igs_worker \<Rightarrow> igs_worker \<Rightarrow> bool" where
  "worker_le w v \<longleftrightarrow> wk_credit w < wk_credit v \<or> wk_credit w = wk_credit v \<and> wk_uses v \<le> wk_uses w"

lemma max_credit_loop_best:
  "\<lbrakk>xs = take i xs @ ws; best < length xs; xs ! best = bw; \<forall>j < i. worker_le (xs ! j) bw; i \<le> length xs\<rbrakk> \<Longrightarrow>
     let r = max_credit_loop best bw i ws in r < length xs \<and> (\<forall>j < length xs. worker_le (xs ! j) (xs ! r))"
proof (induction best bw i ws rule: max_credit_loop.induct)
  case (1 best bw i)
  then have "length xs \<le> i" by (metis append_Nil2 length_take min.cobounded2)
  with 1 show ?case by simp
next
  case (2 best bw i w ws)
  have i: "i < length xs" using "2.prems"(1,5) by (metis append.right_neutral drop_eq_Nil2 append_take_drop_id
        linorder_not_le list.distinct(1) same_append_eq)
  have w: "xs ! i = w" and t: "xs = take (Suc i) xs @ ws"
    using "2.prems"(1) i by (metis append_take_drop_id Cons_nth_drop_Suc list.inject same_append_eq,
        metis append_take_drop_id Cons_nth_drop_Suc list.inject same_append_eq)
  show ?case
  proof (cases "wk_credit bw < wk_credit w \<or> wk_credit bw = wk_credit w \<and> wk_uses w < wk_uses bw")
    case True
    have "\<forall>j < Suc i. worker_le (xs ! j) w"
      using "2.prems"(4) True w by (auto simp: less_Suc_eq worker_le_def)
    with 2(1) [OF True t i w] True i show ?thesis by simp
  next
    case False
    have "\<forall>j < Suc i. worker_le (xs ! j) bw"
      using "2.prems"(4) False w by (auto simp: less_Suc_eq worker_le_def)
    moreover have "max_credit_loop best bw i (w # ws) = max_credit_loop best bw (Suc i) ws"
      using False by auto
    ultimately show ?thesis using 2(2) [OF False t "2.prems"(2,3)] i by simp
  qed
qed

lemma max_credit_worker_best:
  assumes "max_credit_worker ws = Some i"
  shows "i < length ws" and "\<forall>w \<in> set ws. worker_le w (ws ! i)"
proof -
  from assms obtain w r where ws: "ws = w # r" and i: "i = max_credit_loop 0 w 0 ws"
    by (cases ws) (auto simp: max_credit_worker_def)
  have "let r = max_credit_loop 0 w 0 ws in r < length ws \<and> (\<forall>j < length ws. worker_le (ws ! j) (ws ! r))"
    by (rule max_credit_loop_best) (auto simp: ws)
  then show "i < length ws" "\<forall>w \<in> set ws. worker_le w (ws ! i)"
    by (auto simp: i Let_def in_set_conv_nth)
qed

section \<open>What the trigger does\<close>

definition same_but_splitters :: "igs_core \<Rightarrow> igs_core \<Rightarrow> bool" where
  "same_but_splitters c c' \<longleftrightarrow> same_model (c\<lparr> cx_splitters := cx_splitters c' \<rparr>) c'"

lemma shout_remotes_same: "shout_remotes a s w out ras c = Some c' \<Longrightarrow> same_model c c'"
proof (induction ras arbitrary: c)
  case (Cons ra ras)
  then show ?case by (auto simp: bind_some_eqs intro: same_model_emitD split: if_splits)
qed simp

lemma shout_locals_same: "shout_locals uuid s w out ps c = Some c' \<Longrightarrow> same_model c c'"
proof (induction ps arbitrary: c)
  case (Cons p ps)
  from Cons.prems obtain u a c1 where c1: "(if u = uuid then shout_remotes a s w out (map snd (cx_remote_agents c)) c
      else Some c) = Some c1" "shout_locals uuid s w out ps c1 = Some c'"
    by (auto simp: bind_some_eqs)
  then have "same_model c c1" by (auto dest: shout_remotes_same split: if_splits)
  with c1(2) Cons.IH same_model_trans show ?case by blast
qed simp

lemma unlocked_whisper_same:
  assumes "unlocked (igs_channel_whisper_zmsg env t m) c = Some (r, c')" shows "same_model c c'"
proof -
  from assms obtain c1 where "cx_model_locked c" "same_model (c\<lparr> cx_model_locked := False \<rparr>) c1"
    "c' = c1\<lparr> cx_model_locked := True \<rparr>"
    by (auto simp: unlocked_def model_lock_def model_unlock_def bind_some_eqs dest: whisper_same split: if_splits)
  then show ?thesis by (cases c) (auto simp: same_model_def)
qed

lemma same_model_splitters: "same_model c c' \<Longrightarrow> cx_splitters c' = cx_splitters c"
  by (auto simp: same_model_def)

text \<open>
  Either nothing, or the first work of the queue goes to the chosen worker, who
  had credit; nothing but the splitters and the events changes.
\<close>

lemma trigger_effect:
  assumes "s_split_trigger_send_message_to_worker env uuid out c = Some c'"
  shows "c' = c \<or> (\<exists>s i. find (is_splitter uuid (io_name out)) (cx_splitters c) = Some s
     \<and> max_credit_worker (sl_workers s) = Some i \<and> 0 < wk_credit (sl_workers s ! i) \<and> sl_queued_works s \<noteq> []
     \<and> cx_splitters c' = update_first (is_splitter uuid (io_name out)) (take_credit i) (cx_splitters c)
     \<and> same_but_splitters c c')"
proof (cases "find (is_splitter uuid (io_name out)) (cx_splitters c)")
  case None
  with assms show ?thesis by (simp add: s_split_trigger_send_message_to_worker_def)
next
  case s: (Some s)
  show ?thesis
  proof (cases "max_credit_worker (sl_workers s)")
    case None
    with assms s show ?thesis by (simp add: s_split_trigger_send_message_to_worker_def)
  next
    case i: (Some i)
    show ?thesis
    proof (cases "0 < wk_credit (sl_workers s ! i) \<and> sl_queued_works s \<noteq> []")
      case False
      with assms s i show ?thesis
        by (auto simp: s_split_trigger_send_message_to_worker_def Let_def split: if_splits)
    next
      case True
      then obtain work ws where q: "sl_queued_works s = work # ws" by (cases "sl_queued_works s") auto
      let ?c = "c\<lparr> cx_splitters := update_first (is_splitter uuid (io_name out)) (take_credit i) (cx_splitters c) \<rparr>"
      obtain c1 r m uuid2 where
        c1: "(if cx_node c then shout_locals uuid s (sl_workers s ! i) out (map snd (cx_agents ?c)) ?c else Some ?c) = Some c1"
          "unlocked (igs_channel_whisper_zmsg (net_env.truncate env) uuid2 m) c1 = Some (r, c')"
      proof (cases "int_ok (wk_uses (sl_workers s ! i) + 1)")
        case True
        with assms s i q \<open>0 < wk_credit (sl_workers s ! i) \<and> sl_queued_works s \<noteq> []\<close> show ?thesis
          by (auto simp: s_split_trigger_send_message_to_worker_def Let_def bind_some_eqs intro: that)
      next
        case False
        with assms s i q \<open>0 < wk_credit (sl_workers s ! i) \<and> sl_queued_works s \<noteq> []\<close> show ?thesis
          by (auto simp: s_split_trigger_send_message_to_worker_def Let_def bind_some_eqs)
      qed
      from c1(1) have "same_model ?c c1" by (auto dest: shout_locals_same split: if_splits)
      with unlocked_whisper_same [OF c1(2)] have "same_model ?c c'" using same_model_trans by blast
      moreover from this have "cx_splitters c' = update_first (is_splitter uuid (io_name out)) (take_credit i) (cx_splitters c)"
        by (auto dest: same_model_splitters)
      ultimately show ?thesis using s i True by (auto simp: same_but_splitters_def)
    qed
  qed
qed

text \<open>
  What is sent for a string: bytes of the pointer and of the size, as many as the string has
  and one more. From 16 bytes on that reads beyond the block of the work.
\<close>

lemma string_frame:
  assumes "qw_s q = Some (wr_cstr s)" and "no_nul s"
  shows "work_frames IGS_STRING_T q =
    (if length s < 16 then Some [take (Suc (length s)) (work_memory q)] else None)"
  using assms by (simp add: work_frames_def copy_bytes_def work_memory_def)

lemma string_work_undefined:
  assumes "find (is_splitter uuid (io_name out)) (cx_splitters c) = Some sp" and "max_credit_worker (sl_workers sp) = Some i"
    and "0 < wk_credit (sl_workers sp ! i)" and "sl_queued_works sp = q # qs" and "io_value_type out = IGS_STRING_T"
    and "qw_s q = Some (wr_cstr s)" and "no_nul s" and "16 \<le> length s"
  shows "s_split_trigger_send_message_to_worker env uuid out c = None"
  using assms string_frame [OF assms(6,7)] by (simp add: s_split_trigger_send_message_to_worker_def work_message_def Let_def)

section \<open>Credits stay non-negative\<close>

definition credits_ok :: "igs_core \<Rightarrow> bool" where
  "credits_ok c \<longleftrightarrow> (\<forall>s \<in> set (cx_splitters c). \<forall>w \<in> set (sl_workers s). 0 \<le> wk_credit w)"

lemma update_first_all:
  "(\<forall>x \<in> set xs. Q x) \<Longrightarrow> (\<And>x. find P xs = Some x \<Longrightarrow> Q x \<Longrightarrow> Q (f x)) \<Longrightarrow> \<forall>x \<in> set (update_first P f xs). Q x"
  by (induction xs) (auto split: if_splits)

lemma trigger_credits [wf_intros]:
  assumes "credits_ok c" and "s_split_trigger_send_message_to_worker env uuid out c = Some c'"
  shows "credits_ok c'"
  using trigger_effect [OF assms(2)]
proof
  assume "\<exists>s i. find (is_splitter uuid (io_name out)) (cx_splitters c) = Some s
     \<and> max_credit_worker (sl_workers s) = Some i \<and> 0 < wk_credit (sl_workers s ! i) \<and> sl_queued_works s \<noteq> []
     \<and> cx_splitters c' = update_first (is_splitter uuid (io_name out)) (take_credit i) (cx_splitters c)
     \<and> same_but_splitters c c'"
  then obtain s i where s: "find (is_splitter uuid (io_name out)) (cx_splitters c) = Some s"
    "max_credit_worker (sl_workers s) = Some i" "0 < wk_credit (sl_workers s ! i)"
    "cx_splitters c' = update_first (is_splitter uuid (io_name out)) (take_credit i) (cx_splitters c)" by blast
  have "\<forall>w \<in> set (sl_workers (take_credit i s)). 0 \<le> wk_credit w"
    if "\<forall>w \<in> set (sl_workers s). 0 \<le> wk_credit w"
    using that s(3) by (auto simp: take_credit_def Let_def dest!: set_update_subset_insert [THEN subsetD])
  with assms(1) s show ?thesis unfolding credits_ok_def s(4)
    by (intro update_first_all) auto
qed (use assms in simp)

lemma credit_workers_ok:
  "credit_workers uuid input k ws = Some (ws', f) \<Longrightarrow> 0 \<le> k \<Longrightarrow> \<forall>w \<in> set ws. 0 \<le> wk_credit w \<Longrightarrow>
     \<forall>w \<in> set ws'. 0 \<le> wk_credit w"
  by (induction ws arbitrary: ws' f) (auto simp: bind_some_eqs split: if_splits)

lemma credit_splitters_ok:
  "credit_splitters ag out uuid input k n ss b = Some (ss', f) \<Longrightarrow> 0 \<le> k \<Longrightarrow>
     \<forall>s \<in> set ss. \<forall>w \<in> set (sl_workers s). 0 \<le> wk_credit w \<Longrightarrow>
     \<forall>s \<in> set ss'. \<forall>w \<in> set (sl_workers s). 0 \<le> wk_credit w"
proof (induction ss arbitrary: b ss' f)
  case (Cons s ss)
  obtain x y where b: "b = (x, y)" by (cases b)
  show ?case
  proof (cases "is_splitter ag out s")
    case False
    with Cons.prems(1) obtain r where r: "credit_splitters ag out uuid input k n ss b = Some (r, f)" "ss' = s # r"
      by (auto simp: b bind_some_eqs)
    with Cons.IH [OF r(1) Cons.prems(2)] Cons.prems(3) show ?thesis by simp
  next
    case True
    with Cons.prems(1) obtain ws fd r b' where r: "credit_workers uuid input k (sl_workers s) = Some (ws, fd)"
      "credit_splitters ag out uuid input k n ss b' = Some (r, f)"
      "ss' = s\<lparr> sl_workers := if \<not> (x \<or> fd) \<and> n then ws @ [new_worker uuid input k (max_uses (sl_workers s))] else ws \<rparr> # r"
      by (auto simp: b bind_some_eqs Let_def)
    with Cons.IH [OF r(2) Cons.prems(2)] credit_workers_ok [OF r(1) Cons.prems(2)] Cons.prems(2,3) show ?thesis
      by (simp add: new_worker_def)
  qed
qed (cases b, auto)

lemma add_credit_credits [wf_intros]:
  assumes "credits_ok c" and "0 \<le> k" and "s_split_add_credit_to_worker env ag out uuid input k n c = Some c'"
  shows "credits_ok c'"
proof -
  from assms(3) obtain ss f where s: "credit_splitters ag (io_name out) uuid input k n (cx_splitters c) (False, False) = Some (ss, f)"
    and t: "s_split_trigger_send_message_to_worker env ag out (c\<lparr> cx_splitters :=
      if \<not> f \<and> n then ss @ [\<lparr> sl_agent_uuid = ag, sl_output_name = io_name out,
        sl_workers = [new_worker uuid input k 0], sl_queued_works = [] \<rparr>] else ss \<rparr>) = Some c'"
    by (auto simp: s_split_add_credit_to_worker_def bind_some_eqs Let_def)
  have "\<forall>s \<in> set ss. \<forall>w \<in> set (sl_workers s). 0 \<le> wk_credit w"
    using credit_splitters_ok [OF s assms(2)] assms(1) by (simp add: credits_ok_def)
  with t assms(2) show ?thesis
    by (intro trigger_credits [OF _ t]) (auto simp: credits_ok_def new_worker_def)
qed

lemma remove_worker_credits [wf_intros]: "credits_ok c \<Longrightarrow> credits_ok (split_remove_worker uuid input c)"
  by (auto simp: credits_ok_def split_remove_worker_def)

lemma add_work_loop_credits:
  "credits_ok c \<Longrightarrow> add_work_loop env uuid out is c = Some c' \<Longrightarrow> credits_ok c'"
proof (induction "is" arbitrary: c)
  case (Cons i "is")
  from Cons.prems(2) obtain c1 c2 where
    c1: "c1 = c \<or> (\<exists>w. i < length (cx_splitters c) \<and> c1 = c\<lparr> cx_splitters := (cx_splitters c)[i := (cx_splitters c ! i)
        \<lparr> sl_queued_works := sl_queued_works (cx_splitters c ! i) @ [w] \<rparr>] \<rparr>)"
    and c2: "s_split_trigger_send_message_to_worker env uuid out c1 = Some c2"
      "add_work_loop env uuid out is c2 = Some c'"
    by (auto simp: bind_some_eqs split: if_splits)
  from c1 Cons.prems(1) have "credits_ok c1"
    by (fastforce simp: credits_ok_def dest!: set_update_subset_insert [THEN subsetD] dest: nth_mem)
  with c2 trigger_credits Cons.IH show ?case by blast
qed simp

lemma add_work_credits [wf_intros]:
  "credits_ok c \<Longrightarrow> split_add_work_to_queue env uuid out c = Some c' \<Longrightarrow> credits_ok c'"
  by (auto simp: split_add_work_to_queue_def intro: add_work_loop_credits)

end
