(* ===== verification/Igs_Publish.thy ===== *)
theory Igs_Publish
  imports Igs_Split
begin

text \<open>
  Publication of an output (\<open>network_publish_output\<close> of src/src/igs_network.c):
  queue the work of its splitters, build the message, send it to the publishing
  sockets of the context and, when the process holds other agents, to its own
  pipe. Parameters for CZMQ and the clock: the wire form of a message inside a
  message (\<open>zmsg_encode\<close>), whether a socket takes a message (\<open>zsock_send_ok\<close>)
  and the time in microseconds.
\<close>

record pub_env = split_env +
  zmsg_encode :: "string list \<Rightarrow> string"
  zsock_send_ok :: "igs_event \<Rightarrow> bool"
  clock_us :: int

definition INT64_MIN :: int where "INT64_MIN = - (2 ^ 63)"

definition wr_int64 :: "int \<Rightarrow> string" where
  "wr_int64 n = le_bytes 8 (nat (n mod 2 ^ 64))"

text \<open>The codes of the timestamped types: six more than those of the plain types.\<close>

definition timestamped_code :: "igs_io_value_type \<Rightarrow> int" where
  "timestamped_code t =
     (case t of IGS_INTEGER_T \<Rightarrow> 7 | IGS_DOUBLE_T \<Rightarrow> 8 | IGS_STRING_T \<Rightarrow> 9 | IGS_BOOL_T \<Rightarrow> 10
      | IGS_IMPULSION_T \<Rightarrow> 11 | IGS_DATA_T \<Rightarrow> 12 | IGS_UNKNOWN_T \<Rightarrow> 0)"

text \<open>The frame of the value; \<open>None\<close> reads more than the buffer holds.\<close>

definition value_frame :: "igs_io \<Rightarrow> string option" where
  "value_frame io =
     (case io_value_type io of
        IGS_INTEGER_T \<Rightarrow> Some (wr_int (io_i io))
      | IGS_DOUBLE_T \<Rightarrow> Some (wr_double (io_d io))
      | IGS_BOOL_T \<Rightarrow> Some (wr_bool (io_b io))
      | IGS_STRING_T \<Rightarrow> (case io_s io of None \<Rightarrow> Some [] | Some m \<Rightarrow> copy_bytes m (io_value_size io))
      | IGS_IMPULSION_T \<Rightarrow> Some []
      | IGS_DATA_T \<Rightarrow>
          (case io_data io of None \<Rightarrow> if io_value_size io = 0 then Some [] else None
           | Some m \<Rightarrow> copy_bytes m (io_value_size io))
      | IGS_UNKNOWN_T \<Rightarrow> Some [])"

definition publication_frames :: "pub_env \<Rightarrow> int \<Rightarrow> igs_io \<Rightarrow> string list option" where
  "publication_frames env us io =
     (if us = INT64_MIN then
        (if io_value_type io = IGS_UNKNOWN_T then Some [fmt_d (int (value_type_code IGS_UNKNOWN_T))]
         else do { v \<leftarrow> value_frame io; Some [fmt_d (int (value_type_code (io_value_type io))), v] })
      else if io_value_type io = IGS_UNKNOWN_T then Some []
      else do { v \<leftarrow> value_frame io;
                Some [fmt_d (timestamped_code (io_value_type io)), zmsg_encode env [v, wr_int64 us]] })"

definition publication_time :: "pub_env \<Rightarrow> igs_agent \<Rightarrow> igs_core \<Rightarrow> int" where
  "publication_time env a c =
     (if ag_rt_timestamps_enabled a then
        (if cx_rt_current_microseconds c \<noteq> INT64_MIN then cx_rt_current_microseconds c else clock_us env)
      else INT64_MIN)"

definition send_to :: "pub_env \<Rightarrow> igs_event \<Rightarrow> igs_result \<times> igs_core \<Rightarrow> igs_result \<times> igs_core" where
  "send_to env e rc = (if zsock_send_ok env e then fst rc else IGS_FAILURE, emit e (snd rc))"

definition publish_sockets :: "pub_env \<Rightarrow> string list \<Rightarrow> igs_core \<Rightarrow> igs_result \<times> igs_core" where
  "publish_sockets env msg c =
     (if cx_network_actor c \<and> cx_publisher c then
        (let rc = send_to env (Publish_Network msg) (IGS_SUCCESS, c);
             rc = (if cx_ipc_publisher c then send_to env (Publish_Ipc msg) rc else rc)
         in if cx_inproc_publisher c then send_to env (Publish_Inproc msg) rc else rc)
      else (IGS_SUCCESS, c))"

text \<open>
  Where the agent stands in the memory of the application does not matter here:
  the function reads it once, before the splitters are served.
\<close>

definition network_publish_output :: "pub_env \<Rightarrow> igs_agent \<Rightarrow> igs_io \<Rightarrow> igs_result core_op" where
  "network_publish_output env a io c =
     (if \<not> ag_context a then Some (IGS_FAILURE, c)
      else do { uuid \<leftarrow> ag_uuid a;
        if ag_is_whole_agent_muted a \<or> io_is_muted io \<or> cx_is_frozen c then Some (IGS_SUCCESS, c)
        else do {
          c \<leftarrow> split_add_work_to_queue (split_env.truncate env) uuid io c;
          frames \<leftarrow> publication_frames env (publication_time env a c) io;
          let (res, c) = publish_sockets env ((uuid @ ''-'' @ io_name io) # frames) c;
          if cx_network_actor c \<and> \<not> ag_is_virtual a \<and> length (cx_agents c) > 1 then
            do { d \<leftarrow> ag_definition a; n \<leftarrow> df_name d;
                 Some (res, emit (Pipe_Send ([''HANDLE_PUBLICATION'', n, io_name io] @ frames)) c) }
          else Some (res, c) } })"

section \<open>What is published\<close>

lemma value_frame_defined: "io_wf io \<Longrightarrow> \<exists>v. value_frame io = Some v"
  by (cases "io_value_type io")
    (auto simp: value_frame_def io_wf_def Let_def string_buffer_def data_buffer_def copy_bytes_def split: option.splits)

lemma value_frame_write_read:
  assumes "io_wf io" and "io_value_type io = IGS_STRING_T" and "io_s io = Some m"
  shows "value_frame io = Some m"
  using assms by (auto simp: value_frame_def io_wf_def Let_def string_buffer_def copy_bytes_def)

lemma publish_sockets_events:
  "cx_events (snd (publish_sockets env msg c)) =
     cx_events c @ (if cx_network_actor c \<and> cx_publisher c
       then Publish_Network msg # (if cx_ipc_publisher c then [Publish_Ipc msg] else [])
            @ (if cx_inproc_publisher c then [Publish_Inproc msg] else [])
       else [])"
  by (simp add: publish_sockets_def send_to_def emit_def Let_def)

lemma publish_sockets_same: "same_model c (snd (publish_sockets env msg c))"
proof (cases "cx_network_actor c \<and> cx_publisher c")
  case True
  then show ?thesis by (auto simp: publish_sockets_def send_to_def Let_def same_model_def emit_def)
qed (simp only: publish_sockets_def if_False, simp)

text \<open>No splitter for the output: nothing is queued.\<close>

lemma no_splitter_add_work:
  assumes "\<forall>s \<in> set (cx_splitters c). \<not> is_splitter uuid (io_name io) s"
  shows "split_add_work_to_queue env uuid io c = Some c"
proof -
  have f: "find (is_splitter uuid (io_name io)) (cx_splitters c) = None"
    using assms by (simp add: find_None_iff)
  have "add_work_loop env uuid io is c = Some c" if "\<forall>i \<in> set is. i < length (cx_splitters c)" for "is"
    using that assms f
    by (induction "is") (auto simp: s_split_trigger_send_message_to_worker_def dest: nth_mem)
  then show ?thesis by (simp add: split_add_work_to_queue_def)
qed

text \<open>Muted outputs, muted agents and a frozen context publish nothing.\<close>

lemma publish_muted:
  assumes "ag_uuid a = Some uuid" and "ag_is_whole_agent_muted a \<or> io_is_muted io \<or> cx_is_frozen c"
  shows "\<exists>r. network_publish_output env a io c = Some (r, c)"
  using assms by (simp add: network_publish_output_def)

lemma publish_events:
  assumes "ag_context a" and "ag_uuid a = Some uuid" and "\<not> ag_is_whole_agent_muted a" and "\<not> io_is_muted io"
    and "\<not> cx_is_frozen c" and "io_wf io" and "ag_definition a = Some d" and "df_name d = Some n"
    and "\<forall>s \<in> set (cx_splitters c). \<not> is_splitter uuid (io_name io) s"
  shows "\<exists>frames r c'. publication_frames env (publication_time env a c) io = Some frames
     \<and> network_publish_output env a io c = Some (r, c') \<and> same_model c c'
     \<and> cx_events c' = cx_events c
         @ (let m = (uuid @ ''-'' @ io_name io) # frames
            in if cx_network_actor c \<and> cx_publisher c
               then Publish_Network m # (if cx_ipc_publisher c then [Publish_Ipc m] else [])
                    @ (if cx_inproc_publisher c then [Publish_Inproc m] else [])
               else [])
         @ (if cx_network_actor c \<and> \<not> ag_is_virtual a \<and> length (cx_agents c) > 1
            then [Pipe_Send ([''HANDLE_PUBLICATION'', n, io_name io] @ frames)] else [])"
proof -
  obtain v where "value_frame io = Some v" using value_frame_defined [OF assms(6)] by blast
  then obtain frames where fr: "publication_frames env (publication_time env a c) io = Some frames"
    by (cases "io_value_type io = IGS_UNKNOWN_T"; cases "publication_time env a c = INT64_MIN")
      (simp_all add: publication_frames_def)
  let ?m = "(uuid @ ''-'' @ io_name io) # frames"
  obtain r c1 where ps: "publish_sockets env ?m c = (r, c1)" by (cases "publish_sockets env ?m c")
  have c1: "same_model c c1" using publish_sockets_same [of c env ?m] ps by simp
  then have f: "cx_network_actor c1 = cx_network_actor c" "cx_agents c1 = cx_agents c"
    by (auto simp: same_model_def)
  have ev: "cx_events c1 = cx_events c @ (if cx_network_actor c \<and> cx_publisher c
       then Publish_Network ?m # (if cx_ipc_publisher c then [Publish_Ipc ?m] else [])
            @ (if cx_inproc_publisher c then [Publish_Inproc ?m] else []) else [])"
    using publish_sockets_events [of env ?m c] ps by simp
  show ?thesis
    using assms fr ps c1 f ev same_model_trans [OF c1 same_model_emit]
    by (simp add: network_publish_output_def no_splitter_add_work Let_def) (simp add: emit_def)
qed

end
