(* ===== verification/Igs_Api.thy ===== *)
theory Igs_Api
  imports Igs_Publish Igs_Definition_Laws
begin

text \<open>
  The interface to the values of an agent (the public part of src/src/igs_model.c):
  reading, writing, clearing and observing inputs, outputs and attributes. A
  write publishes an output, releases the mutex and then calls the observers of
  the io one by one, each with the mutex free. The observers are functions of the
  application and so a parameter: a callback takes the address of the agent, the
  type, the name, the value type, the memory and the size of the value and its own
  data, and may change the context in any way. A pointer to an io that the code
  holds across a callback is the name of the io; when the callback has removed the
  io, the next use of the pointer is a use of freed memory, so \<open>None\<close>.
\<close>

record app_env = pub_env +
  zmsg_decode :: "string \<Rightarrow> string list option"
  call_io :: "nat \<Rightarrow> addr \<Rightarrow> igs_io_type \<Rightarrow> string \<Rightarrow> igs_io_value_type \<Rightarrow> string option \<Rightarrow> nat \<Rightarrow> nat \<Rightarrow> igs_core \<Rightarrow> igs_core option"
  call_service :: "nat \<Rightarrow> addr \<Rightarrow> string option \<Rightarrow> string \<Rightarrow> string \<Rightarrow> igs_service_arg list \<Rightarrow> nat \<Rightarrow> string option \<Rightarrow> nat \<Rightarrow> igs_core \<Rightarrow> igs_core option"
  call_event :: "nat \<Rightarrow> addr \<Rightarrow> igs_agent_event \<Rightarrow> string \<Rightarrow> string \<Rightarrow> string option \<Rightarrow> nat \<Rightarrow> igs_core \<Rightarrow> igs_core option"
  call_activate :: "nat \<Rightarrow> addr \<Rightarrow> bool \<Rightarrow> nat \<Rightarrow> igs_core \<Rightarrow> igs_core option"
  call_freeze :: "nat \<Rightarrow> bool \<Rightarrow> nat \<Rightarrow> igs_core \<Rightarrow> igs_core option"
  call_mute :: "nat \<Rightarrow> addr \<Rightarrow> bool \<Rightarrow> nat \<Rightarrow> igs_core \<Rightarrow> igs_core option"
  zuuid_new :: "igs_core \<Rightarrow> string"
  zmalloc_agent :: "igs_core \<Rightarrow> addr"
  zlist_cursor :: "addr \<Rightarrow> nat \<Rightarrow> igs_core \<Rightarrow> igs_core \<Rightarrow> nat"

definition find_io :: "addr \<Rightarrow> igs_io_type \<Rightarrow> string \<Rightarrow> igs_core \<Rightarrow> igs_io option" where
  "find_io p t name c = do { a \<leftarrow> deref p c; model_find_io_by_name a name t }"

section \<open>Observers\<close>

text \<open>One turn of the loop: the value type is read again, the value is the current one.\<close>

definition call_observer ::
    "app_env \<Rightarrow> addr \<Rightarrow> igs_io_type \<Rightarrow> string \<Rightarrow> igs_io_value_type \<Rightarrow> igs_observe_io_wrapper \<Rightarrow> igs_core \<Rightarrow> igs_core option" where
  "call_observer env p t name vt cb c =
     do { a \<leftarrow> deref p c;
          io \<leftarrow> model_find_io_by_name a name t;
          if io_value_type io = IGS_UNKNOWN_T then Some c
          else do { (_, c) \<leftarrow> unlocked (\<lambda>c.
                      if ag_uuid a = None then Some ((), c)
                      else do { c \<leftarrow> (if io_value_type io = IGS_IMPULSION_T
                                       then call_io env (cb_ptr cb) p t name vt None 0 (cb_my_data cb) c
                                       else call_io env (cb_ptr cb) p t name vt (io_memory io) (io_value_size io) (cb_my_data cb) c);
                                Some ((), c) }) c;
                    Some c } }"

fun observers_loop ::
    "app_env \<Rightarrow> addr \<Rightarrow> igs_io_type \<Rightarrow> string \<Rightarrow> igs_io_value_type \<Rightarrow> igs_observe_io_wrapper list \<Rightarrow> igs_core \<Rightarrow> igs_core option" where
  "observers_loop env p t name vt [] c = Some c"
| "observers_loop env p t name vt (cb # cbs) c =
     do { c \<leftarrow> call_observer env p t name vt cb c; observers_loop env p t name vt cbs c }"

definition model_LOCKED_handle_io_callbacks ::
    "app_env \<Rightarrow> addr \<Rightarrow> igs_io_type \<Rightarrow> string \<Rightarrow> unit core_op" where
  "model_LOCKED_handle_io_callbacks env p t name = locked (\<lambda>c.
     do { a \<leftarrow> deref p c;
          if ag_uuid a = None then Some ((), c)
          else do { io \<leftarrow> model_find_io_by_name a name t;
                    c \<leftarrow> observers_loop env p t name (io_value_type io) (io_callbacks io) c;
                    Some ((), c) } })"

section \<open>Writing\<close>

definition write_and_publish ::
    "igs_io_type \<Rightarrow> app_env \<Rightarrow> addr \<Rightarrow> string \<Rightarrow> igs_io_value_type \<Rightarrow> string option \<Rightarrow> nat \<Rightarrow> bool core_op" where
  "write_and_publish t env p name vt value sz c =
     do { (ok, c) \<leftarrow> on_agent p (\<lambda>a. model_write (igs_env.truncate env) a name t vt value sz) c;
          a \<leftarrow> deref p c;
          if ok \<and> t = IGS_OUTPUT_T \<and> \<not> ag_rt_synchronous_mode a then
            do { io \<leftarrow> model_find_io_by_name a name t;
                 (_, c) \<leftarrow> network_publish_output (pub_env.truncate env) a io c;
                 Some (True, c) }
          else Some (ok, c) }"

definition set_io ::
    "igs_io_type \<Rightarrow> app_env \<Rightarrow> addr \<Rightarrow> string \<Rightarrow> igs_io_value_type \<Rightarrow> string option \<Rightarrow> nat \<Rightarrow> igs_result core_op" where
  "set_io t env p name vt value sz = with_agent p IGS_FAILURE (\<lambda>c.
     do { (ok, c) \<leftarrow> locked (write_and_publish t env p name vt value sz) c;
          if ok then do { (_, c) \<leftarrow> model_LOCKED_handle_io_callbacks env p t name c; Some (IGS_SUCCESS, c) }
          else Some (IGS_FAILURE, c) })"

definition set_io_bool where
  "set_io_bool t env p name b = set_io t env p name IGS_BOOL_T (Some (wr_bool b)) sizeof_bool"

definition set_io_int where
  "set_io_int t env p name i = set_io t env p name IGS_INTEGER_T (Some (wr_int i)) sizeof_int"

definition set_io_double where
  "set_io_double t env p name d = set_io t env p name IGS_DOUBLE_T (Some (wr_double d)) sizeof_double"

definition set_io_string where
  "set_io_string t env p name value = set_io t env p name IGS_STRING_T (map_option wr_cstr value)
     (case value of None \<Rightarrow> 0 | Some s \<Rightarrow> length s + 1)"

definition set_io_impulsion where
  "set_io_impulsion t env p name = set_io t env p name IGS_IMPULSION_T None 0"

definition set_io_data where
  "set_io_data t env p name value sz = set_io t env p name IGS_DATA_T value sz"

definition igsagent_input_set_bool where "igsagent_input_set_bool = set_io_bool IGS_INPUT_T"
definition igsagent_input_set_int where "igsagent_input_set_int = set_io_int IGS_INPUT_T"
definition igsagent_input_set_double where "igsagent_input_set_double = set_io_double IGS_INPUT_T"
definition igsagent_input_set_string where "igsagent_input_set_string = set_io_string IGS_INPUT_T"
definition igsagent_input_set_impulsion where "igsagent_input_set_impulsion = set_io_impulsion IGS_INPUT_T"
definition igsagent_input_set_data where "igsagent_input_set_data = set_io_data IGS_INPUT_T"
definition igsagent_output_set_bool where "igsagent_output_set_bool = set_io_bool IGS_OUTPUT_T"
definition igsagent_output_set_int where "igsagent_output_set_int = set_io_int IGS_OUTPUT_T"
definition igsagent_output_set_double where "igsagent_output_set_double = set_io_double IGS_OUTPUT_T"
definition igsagent_output_set_string where "igsagent_output_set_string = set_io_string IGS_OUTPUT_T"
definition igsagent_output_set_impulsion where "igsagent_output_set_impulsion = set_io_impulsion IGS_OUTPUT_T"
definition igsagent_output_set_data where "igsagent_output_set_data = set_io_data IGS_OUTPUT_T"
definition igsagent_attribute_set_bool where "igsagent_attribute_set_bool = set_io_bool IGS_ATTRIBUTE_T"
definition igsagent_attribute_set_int where "igsagent_attribute_set_int = set_io_int IGS_ATTRIBUTE_T"
definition igsagent_attribute_set_double where "igsagent_attribute_set_double = set_io_double IGS_ATTRIBUTE_T"
definition igsagent_attribute_set_string where "igsagent_attribute_set_string = set_io_string IGS_ATTRIBUTE_T"
definition igsagent_attribute_set_data where "igsagent_attribute_set_data = set_io_data IGS_ATTRIBUTE_T"

definition igsagent_output_set_zmsg :: "app_env \<Rightarrow> addr \<Rightarrow> string \<Rightarrow> string list \<Rightarrow> igs_result core_op" where
  "igsagent_output_set_zmsg env p name msg =
     (let value = zmsg_encode env msg in set_io IGS_OUTPUT_T env p name IGS_DATA_T (Some value) (length value))"

section \<open>Reading\<close>

definition read_io :: "'r \<Rightarrow> (igs_agent \<Rightarrow> 'r option) \<Rightarrow> addr \<Rightarrow> 'r core_op" where
  "read_io dflt f p = with_agent p dflt (locked (read_agent p f))"

definition io_buffer where
  "io_buffer t p name = read_io (IGS_FAILURE, None) (\<lambda>a. s_read_io a name t) p"

definition io_bool where "io_bool t p name = read_io False (\<lambda>a. s_model_read_io_as_bool a name t) p"
definition io_int where "io_int t p name = read_io 0 (\<lambda>a. s_model_read_io_as_int a name t) p"
definition io_double where "io_double t p name = read_io 0 (\<lambda>a. s_model_read_io_as_double a name t) p"
definition io_string where "io_string t p name = read_io None (\<lambda>a. s_model_read_io_as_string a name t) p"

definition io_bytes where
  "io_bytes t p name = read_io (IGS_FAILURE, None, 0) (\<lambda>a. s_model_read_io_as_data a name t) p"

definition igsagent_input_buffer where "igsagent_input_buffer = io_buffer IGS_INPUT_T"
definition igsagent_output_buffer where "igsagent_output_buffer = io_buffer IGS_OUTPUT_T"
definition igsagent_attribute_buffer where "igsagent_attribute_buffer = io_buffer IGS_ATTRIBUTE_T"
definition igsagent_input_bool where "igsagent_input_bool = io_bool IGS_INPUT_T"
definition igsagent_input_int where "igsagent_input_int = io_int IGS_INPUT_T"
definition igsagent_input_double where "igsagent_input_double = io_double IGS_INPUT_T"
definition igsagent_input_string where "igsagent_input_string = io_string IGS_INPUT_T"
definition igsagent_input_data where "igsagent_input_data = io_bytes IGS_INPUT_T"
definition igsagent_output_bool where "igsagent_output_bool = io_bool IGS_OUTPUT_T"
definition igsagent_output_int where "igsagent_output_int = io_int IGS_OUTPUT_T"
definition igsagent_output_double where "igsagent_output_double = io_double IGS_OUTPUT_T"
definition igsagent_output_string where "igsagent_output_string = io_string IGS_OUTPUT_T"
definition igsagent_output_data where "igsagent_output_data = io_bytes IGS_OUTPUT_T"
definition igsagent_attribute_bool where "igsagent_attribute_bool = io_bool IGS_ATTRIBUTE_T"
definition igsagent_attribute_int where "igsagent_attribute_int = io_int IGS_ATTRIBUTE_T"
definition igsagent_attribute_double where "igsagent_attribute_double = io_double IGS_ATTRIBUTE_T"
definition igsagent_attribute_string where "igsagent_attribute_string = io_string IGS_ATTRIBUTE_T"
definition igsagent_attribute_data where "igsagent_attribute_data = io_bytes IGS_ATTRIBUTE_T"

text \<open>A value of size \<open>n\<close> whose pointer is NULL makes a frame only when \<open>n\<close> is 0.\<close>

definition igsagent_input_zmsg :: "app_env \<Rightarrow> addr \<Rightarrow> string \<Rightarrow> (igs_result \<times> string list option) core_op" where
  "igsagent_input_zmsg env p name = read_io (IGS_FAILURE, None) (\<lambda>a.
     do { (r, v, n) \<leftarrow> s_model_read_io_as_data a name IGS_INPUT_T;
          bytes \<leftarrow> (case v of None \<Rightarrow> if n = 0 then Some [] else None | Some b \<Rightarrow> copy_bytes b n);
          Some (r, zmsg_decode env bytes) }) p"

section \<open>Constraints, descriptions and types\<close>

definition igsagent_constraints_enforce :: "addr \<Rightarrow> bool \<Rightarrow> unit core_op" where
  "igsagent_constraints_enforce p b = with_agent p () (on_agent p (\<lambda>a. Some ((), a\<lparr> ag_enforce_constraints := b \<rparr>)))"

definition change_io :: "addr \<Rightarrow> (igs_agent \<Rightarrow> (igs_result \<times> igs_agent) option) \<Rightarrow> igs_result core_op" where
  "change_io p f = with_agent p IGS_FAILURE (locked (on_agent p f))"

definition io_add_constraint where
  "io_add_constraint t env p name s = change_io p (\<lambda>a. s_model_add_constraint env a t name s)"

definition io_set_description where
  "io_set_description t p name s = change_io p (\<lambda>a. s_model_set_description a t name s)"

definition io_get_description where
  "io_get_description t p name = read_io None (\<lambda>a. s_model_get_description a t name) p"

definition io_set_detailed_type where
  "io_set_detailed_type t p name ty spec = change_io p (\<lambda>a. s_model_set_detailed_type a t name ty spec)"

definition igsagent_input_add_constraint where "igsagent_input_add_constraint = io_add_constraint IGS_INPUT_T"
definition igsagent_output_add_constraint where "igsagent_output_add_constraint = io_add_constraint IGS_OUTPUT_T"
definition igsagent_attribute_add_constraint where "igsagent_attribute_add_constraint = io_add_constraint IGS_ATTRIBUTE_T"
definition igsagent_input_set_description where "igsagent_input_set_description = io_set_description IGS_INPUT_T"
definition igsagent_output_set_description where "igsagent_output_set_description = io_set_description IGS_OUTPUT_T"
definition igsagent_attribute_set_description where "igsagent_attribute_set_description = io_set_description IGS_ATTRIBUTE_T"
definition igsagent_input_description where "igsagent_input_description = io_get_description IGS_INPUT_T"
definition igsagent_output_description where "igsagent_output_description = io_get_description IGS_OUTPUT_T"
definition igsagent_attribute_description where "igsagent_attribute_description = io_get_description IGS_ATTRIBUTE_T"
definition igsagent_input_set_detailed_type where "igsagent_input_set_detailed_type = io_set_detailed_type IGS_INPUT_T"
definition igsagent_output_set_detailed_type where "igsagent_output_set_detailed_type = io_set_detailed_type IGS_OUTPUT_T"
definition igsagent_attribute_set_detailed_type where "igsagent_attribute_set_detailed_type = io_set_detailed_type IGS_ATTRIBUTE_T"

section \<open>Clearing, introspection, observation, muting\<close>

definition io_clear :: "igs_io_type \<Rightarrow> addr \<Rightarrow> string \<Rightarrow> unit core_op" where
  "io_clear t p name = with_agent p () (locked (on_agent p (\<lambda>a. Some ((), s_model_clear_io a name t))))"

definition igsagent_clear_input where "igsagent_clear_input = io_clear IGS_INPUT_T"
definition igsagent_clear_output where "igsagent_clear_output = io_clear IGS_OUTPUT_T"
definition igsagent_clear_attribute where "igsagent_clear_attribute = io_clear IGS_ATTRIBUTE_T"

definition io_kind :: "igs_io_type \<Rightarrow> addr \<Rightarrow> string \<Rightarrow> igs_io_value_type core_op" where
  "io_kind t p name = with_agent p IGS_UNKNOWN_T (\<lambda>c.
     do { c_assert (name \<noteq> []); locked (read_agent p (\<lambda>a. s_model_get_type_for_io a name t)) c })"

definition igsagent_input_type where "igsagent_input_type = io_kind IGS_INPUT_T"
definition igsagent_output_type where "igsagent_output_type = io_kind IGS_OUTPUT_T"
definition igsagent_attribute_type where "igsagent_attribute_type = io_kind IGS_ATTRIBUTE_T"

text \<open>The check of the definition comes before the lock here.\<close>

definition if_defined :: "addr \<Rightarrow> 'r \<Rightarrow> 'r core_op \<Rightarrow> 'r core_op" where
  "if_defined p dflt body c =
     do { a \<leftarrow> deref p c; if ag_definition a = None then Some (dflt, c) else body c }"

definition io_count :: "igs_io_type \<Rightarrow> addr \<Rightarrow> nat core_op" where
  "io_count t p = with_agent p 0 (if_defined p 0 (locked (read_agent p (\<lambda>a.
     do { d \<leftarrow> ag_definition a; Some (length (io_table t d)) }))))"

definition io_list :: "igs_io_type \<Rightarrow> addr \<Rightarrow> (string list option \<times> nat) core_op" where
  "io_list t p = read_io (None, 0) (\<lambda>a. Some (s_model_get_io_list a t)) p"

definition io_exists :: "igs_io_type \<Rightarrow> addr \<Rightarrow> string \<Rightarrow> bool core_op" where
  "io_exists t p name = with_agent p False (if_defined p False (locked (read_agent p (\<lambda>a.
     do { d \<leftarrow> ag_definition a; Some (s_model_check_io_existence a name (io_table t d)) }))))"

definition io_observe :: "igs_io_type \<Rightarrow> addr \<Rightarrow> string \<Rightarrow> nat \<Rightarrow> nat \<Rightarrow> unit core_op" where
  "io_observe t p name cb my_data =
     with_agent p () (locked (on_agent p (\<lambda>a. Some ((), s_model_observe a name t cb my_data))))"

definition igsagent_input_count where "igsagent_input_count = io_count IGS_INPUT_T"
definition igsagent_output_count where "igsagent_output_count = io_count IGS_OUTPUT_T"
definition igsagent_attribute_count where "igsagent_attribute_count = io_count IGS_ATTRIBUTE_T"
definition igsagent_input_list where "igsagent_input_list = io_list IGS_INPUT_T"
definition igsagent_output_list where "igsagent_output_list = io_list IGS_OUTPUT_T"
definition igsagent_attribute_list where "igsagent_attribute_list = io_list IGS_ATTRIBUTE_T"
definition igsagent_input_exists where "igsagent_input_exists = io_exists IGS_INPUT_T"
definition igsagent_output_exists where "igsagent_output_exists = io_exists IGS_OUTPUT_T"
definition igsagent_attribute_exists where "igsagent_attribute_exists = io_exists IGS_ATTRIBUTE_T"
definition igsagent_observe_input where "igsagent_observe_input = io_observe IGS_INPUT_T"
definition igsagent_observe_output where "igsagent_observe_output = io_observe IGS_OUTPUT_T"
definition igsagent_observe_attribute where "igsagent_observe_attribute = io_observe IGS_ATTRIBUTE_T"

definition set_muted :: "string \<Rightarrow> bool \<Rightarrow> addr \<Rightarrow> string \<Rightarrow> unit core_op" where
  "set_muted message b p name = with_agent p () (locked (\<lambda>c.
     do { a \<leftarrow> deref p c;
          u \<leftarrow> ag_uuid a;
          case model_find_io_by_name a name IGS_OUTPUT_T of
            None \<Rightarrow> Some ((), c)
          | Some io \<Rightarrow>
              if io_type io \<noteq> IGS_OUTPUT_T then Some ((), c)
              else (let c = store p (on_io IGS_OUTPUT_T name (\<lambda>io. io\<lparr> io_is_muted := b \<rparr>) a) c
                    in Some ((), if cx_node c then emit (Zyre_Shout IGS_PRIVATE_CHANNEL [message, name, u]) c else c)) }))"

definition igsagent_output_mute where "igsagent_output_mute = set_muted ''OUTPUT_MUTED'' True"
definition igsagent_output_unmute where "igsagent_output_unmute = set_muted ''OUTPUT_UNMUTED'' False"

definition igsagent_output_is_muted :: "addr \<Rightarrow> string \<Rightarrow> bool core_op" where
  "igsagent_output_is_muted p name = read_io False (\<lambda>a.
     case model_find_io_by_name a name IGS_OUTPUT_T of
       None \<Rightarrow> Some False
     | Some io \<Rightarrow> if io_type io \<noteq> IGS_OUTPUT_T then Some False else Some (io_is_muted io)) p"

end
