(* ===== verification/Igs_Keeps.thy ===== *)
theory Igs_Keeps
  imports Igs_Invariant
begin

text \<open>
  Operations that keep a property of all agents. \<open>keeps P op\<close> is closed under the
  ways the interface is put together (lock, unlock, the check of the agent, a
  function on one agent), so that a function of the interface keeps the property as
  soon as its parts do. The rules are collected in \<open>keeps_intros\<close>.
\<close>

named_theorems keeps_intros \<open>operations that keep a property of every agent\<close>

definition keeps :: "(igs_agent \<Rightarrow> bool) \<Rightarrow> 'r core_op \<Rightarrow> bool" where
  "keeps P op \<longleftrightarrow> (\<forall>c r c'. all_agents P c \<longrightarrow> op c = Some (r, c') \<longrightarrow> all_agents P c')"

lemma keepsI: "(\<And>c r c'. all_agents P c \<Longrightarrow> op c = Some (r, c') \<Longrightarrow> all_agents P c') \<Longrightarrow> keeps P op"
  by (auto simp: keeps_def)

lemma keepsD: "keeps P op \<Longrightarrow> all_agents P c \<Longrightarrow> op c = Some (r, c') \<Longrightarrow> all_agents P c'"
  by (auto simp: keeps_def)

lemma all_agents_lock [simp]: "all_agents P (c\<lparr> cx_model_locked := b \<rparr>) = all_agents P c"
  by (simp add: all_agents_def deref_def)

lemma all_agents_emit [simp]: "all_agents P (emit e c) = all_agents P c"
  by (simp add: all_agents_def deref_def emit_def)

lemma keeps_locked [keeps_intros]:
  assumes "keeps P op" shows "keeps P (locked op)"
proof (rule keepsI)
  fix c r c' assume all: "all_agents P c" and l: "locked op c = Some (r, c')"
  then obtain c1 where "op (c\<lparr> cx_model_locked := True \<rparr>) = Some (r, c1)" "c' = c1\<lparr> cx_model_locked := False \<rparr>"
    by (auto simp: locked_def model_lock_def model_unlock_def bind_some_eqs split: if_splits)
  with all keepsD [OF assms, of "c\<lparr> cx_model_locked := True \<rparr>" r c1] show "all_agents P c'" by simp
qed

lemma keeps_unlocked [keeps_intros]:
  assumes "keeps P op" shows "keeps P (unlocked op)"
proof (rule keepsI)
  fix c r c' assume all: "all_agents P c" and l: "unlocked op c = Some (r, c')"
  then obtain c1 where "op (c\<lparr> cx_model_locked := False \<rparr>) = Some (r, c1)" "c' = c1\<lparr> cx_model_locked := True \<rparr>"
    by (auto simp: unlocked_def model_lock_def model_unlock_def bind_some_eqs split: if_splits)
  with all keepsD [OF assms, of "c\<lparr> cx_model_locked := False \<rparr>" r c1] show "all_agents P c'" by simp
qed

lemma keeps_with_agent [keeps_intros]: "keeps P op \<Longrightarrow> keeps P (with_agent p dflt op)"
  by (rule keepsI) (auto simp: with_agent_iff dest: keepsD split: if_splits)

lemma keeps_same [keeps_intros]: "(\<And>c r c'. op c = Some (r, c') \<Longrightarrow> cx_store c' = cx_store c) \<Longrightarrow> keeps P op"
  by (rule keepsI) (metis all_agents_frame)

lemma keeps_read_agent [keeps_intros]: "keeps P (read_agent p f)"
  by (auto simp: keeps_def read_agent_def bind_some_eqs)

lemma keeps_pure [keeps_intros]: "keeps P (\<lambda>c. Some (r, c))" "keeps P (\<lambda>c. None)"
  by (simp_all add: keeps_def)

lemma keeps_bind [keeps_intros]:
  "keeps P f \<Longrightarrow> (\<And>r. keeps P (g r)) \<Longrightarrow> keeps P (\<lambda>c. do { (r, c) \<leftarrow> f c; g r c })"
  by (rule keepsI) (auto simp: bind_some_eqs dest: keepsD)

lemma keeps_guard [keeps_intros]:
  assumes "\<And>x. keeps P (g x)" shows "keeps P (\<lambda>c. do { x \<leftarrow> h c; g x c })"
proof (rule keepsI)
  fix c r c' assume all: "all_agents P c" and o: "(do { x \<leftarrow> h c; g x c }) = Some (r, c')"
  then obtain x where "g x c = Some (r, c')" by (auto simp only: bind_some_eqs)
  from keepsD [OF assms all this] show "all_agents P c'" .
qed

lemma keeps_if [keeps_intros]: "keeps P f \<Longrightarrow> keeps P g \<Longrightarrow> keeps P (\<lambda>c. if b c then f c else g c)"
  by (rule keepsI) (simp split: if_splits, (blast dest: keepsD)+)

context agent_law
begin

lemma keeps_on_agent: "keeps P (on_agent p f)"
proof (rule keepsI)
  fix c r c' assume all: "all_agents P c" and o: "on_agent p f c = Some (r, c')"
  then obtain a a' where a: "deref p c = Some a" "f a = Some (r, a')" "c' = store p a' c"
    by (auto simp: on_agent_def bind_some_eqs)
  show "all_agents P c'" unfolding a(3)
    by (rule all_agents_store [OF all keeps [OF all_agentsD [OF all a(1)] a(2)]])
qed

end

end
