(* ===== verification/Igs_Api_Laws.thy ===== *)
theory Igs_Api_Laws
  imports Igs_Api Igs_Keeps
begin

text \<open>
  What the interface to the values does: a publication touches splitters and events
  only; writes keep the invariant of every agent as long as the callbacks of the
  application do; the observers of an io are called once each, in the order they
  registered, with the new value and the mutex free; what was written is read back.
\<close>

section \<open>What a publication changes\<close>

lemma same_but_splitters_refl [simp]: "same_but_splitters c c"
  by (simp add: same_but_splitters_def)

lemma same_model_but_splitters: "same_model c c' \<Longrightarrow> same_but_splitters c c'"
  by (auto simp: same_but_splitters_def same_model_def)

lemma same_but_splitters_iff:
  "same_but_splitters c c' \<longleftrightarrow> (\<exists>es ss. c' = c\<lparr> cx_splitters := ss, cx_events := cx_events c @ es \<rparr>)"
  by (cases c) (auto simp: same_but_splitters_def same_model_def)

lemma same_but_splitters_trans:
  assumes "same_but_splitters c c2" and "same_but_splitters c2 c3" shows "same_but_splitters c c3"
proof -
  obtain es ss es2 ss2 where "c2 = c\<lparr> cx_splitters := ss, cx_events := cx_events c @ es \<rparr>"
    "c3 = c2\<lparr> cx_splitters := ss2, cx_events := cx_events c2 @ es2 \<rparr>"
    using assms unfolding same_but_splitters_iff by blast
  then have "c3 = c\<lparr> cx_splitters := ss2, cx_events := cx_events c @ (es @ es2) \<rparr>" by simp
  then show ?thesis unfolding same_but_splitters_iff by blast
qed

lemma same_but_splitters_put: "same_but_splitters c (c\<lparr> cx_splitters := ss \<rparr>)"
  unfolding same_but_splitters_def by simp

lemma same_but_splitters_frame:
  "same_but_splitters c c' \<Longrightarrow> cx_store c' = cx_store c \<and> cx_model_locked c' = cx_model_locked c
     \<and> cx_agents c' = cx_agents c \<and> cx_remote_agents c' = cx_remote_agents c \<and> cx_node c' = cx_node c"
  by (auto simp: same_but_splitters_iff)

lemma trigger_frame:
  "s_split_trigger_send_message_to_worker env uuid out c = Some c' \<Longrightarrow> same_but_splitters c c'"
  using trigger_effect by fastforce

lemma add_work_loop_frame: "add_work_loop env uuid out is c = Some c' \<Longrightarrow> same_but_splitters c c'"
proof (induction "is" arbitrary: c)
  case (Cons i "is")
  from Cons.prems obtain c1 c2 where
    "c1 = c \<or> (\<exists>ss. c1 = c\<lparr> cx_splitters := ss \<rparr>)"
    "s_split_trigger_send_message_to_worker env uuid out c1 = Some c2" "add_work_loop env uuid out is c2 = Some c'"
    by (auto simp: bind_some_eqs split: if_splits)
  moreover from this(1) have "same_but_splitters c c1" by (auto intro: same_but_splitters_put)
  ultimately show ?case using trigger_frame Cons.IH same_but_splitters_trans by blast
qed simp

lemma publish_frame:
  "network_publish_output env a io c = Some (r, c') \<Longrightarrow> same_but_splitters c c'"
proof -
  assume p: "network_publish_output env a io c = Some (r, c')"
  show ?thesis
  proof (cases "ag_context a \<and> \<not> (ag_is_whole_agent_muted a \<or> io_is_muted io \<or> cx_is_frozen c)")
    case True
    with p obtain uuid c1 m r2 c2 where c: "split_add_work_to_queue (split_env.truncate env) uuid io c = Some c1"
      "publish_sockets env m c1 = (r2, c2)" "same_model c2 c'"
      by (auto simp: network_publish_output_def bind_some_eqs split_def Let_def split: if_splits
          intro: same_model_emit) (metis prod.collapse same_model_emit same_model_refl)+
    then have "same_but_splitters c1 c'"
      using publish_sockets_same [of c1 env m] same_model_trans by (auto intro: same_model_but_splitters)
    with c(1) show ?thesis
      by (auto simp: split_add_work_to_queue_def dest: add_work_loop_frame intro: same_but_splitters_trans)
  qed (use p in \<open>auto simp: network_publish_output_def bind_some_eqs split: if_splits\<close>)
qed

section \<open>Observers\<close>

lemma set_io_balanced [lock_intros]: "balanced (set_io t env p name vt v sz)"
proof -
  have "balanced (\<lambda>c. do { (ok, c) \<leftarrow> locked (write_and_publish t env p name vt v sz) c;
          if ok then do { (_, c) \<leftarrow> model_LOCKED_handle_io_callbacks env p t name c; Some (IGS_SUCCESS, c) }
          else Some (IGS_FAILURE, c) })"
    unfolding model_LOCKED_handle_io_callbacks_def
    by (auto simp: balanced_def bind_some_eqs dest!: balancedD [OF balanced_locked] split: if_splits)
  then show ?thesis unfolding set_io_def by (rule balanced_with_agent)
qed

text \<open>
  Callbacks that leave the agents and the mutex as they are: the loop is the calls in
  a row, in the order of registration, each with the value and the mutex free.
\<close>

definition quiet :: "app_env \<Rightarrow> bool" where
  "quiet env \<longleftrightarrow> (\<forall>f p t n vt v sz d c c'. call_io env f p t n vt v sz d c = Some c' \<longrightarrow>
     cx_store c' = cx_store c \<and> cx_model_locked c' = cx_model_locked c)"

definition notify :: "app_env \<Rightarrow> addr \<Rightarrow> igs_io \<Rightarrow> igs_observe_io_wrapper \<Rightarrow> igs_core \<Rightarrow> igs_core option" where
  "notify env p io cb = call_io env (cb_ptr cb) p (io_type io) (io_name io) (io_value_type io) (io_memory io)
     (if io_value_type io = IGS_IMPULSION_T then 0 else io_value_size io) (cb_my_data cb)"

fun in_turn :: "('a \<Rightarrow> 'c \<Rightarrow> 'c option) \<Rightarrow> 'a list \<Rightarrow> 'c \<Rightarrow> 'c option" where
  "in_turn f [] c = Some c"
| "in_turn f (x # xs) c = do { c \<leftarrow> f x c; in_turn f xs c }"

lemma call_observer_quiet:
  assumes "quiet env" and "\<not> cx_model_locked c" and "deref p c = Some a" and "ag_uuid a \<noteq> None"
    and "model_find_io_by_name a name t = Some io" and "io_name io = name" and "io_type io = t"
    and "io_value_type io \<noteq> IGS_UNKNOWN_T"
  shows "call_observer env p t name (io_value_type io) cb (c\<lparr> cx_model_locked := True \<rparr>)
    = map_option (\<lambda>c. c\<lparr> cx_model_locked := True \<rparr>) (notify env p io cb c)"
proof -
  have d: "deref p (c\<lparr> cx_model_locked := True \<rparr>) = Some a" using assms(3) by (simp add: deref_def)
  have u: "c\<lparr> cx_model_locked := False \<rparr> = c" using assms(2) by (cases c) simp
  have n: "notify env p io cb c = (if io_value_type io = IGS_IMPULSION_T
      then call_io env (cb_ptr cb) p t name (io_value_type io) None 0 (cb_my_data cb) c
      else call_io env (cb_ptr cb) p t name (io_value_type io) (io_memory io) (io_value_size io) (cb_my_data cb) c)"
    using assms(6,7) by (simp add: notify_def io_memory_def)
  obtain u0 where "ag_uuid a = Some u0" using assms(4) by blast
  then have o: "call_observer env p t name (io_value_type io) cb (c\<lparr> cx_model_locked := True \<rparr>)
    = do { c \<leftarrow> notify env p io cb c; model_lock c }"
    using assms(4,5,8) d u
    by (cases "io_value_type io = IGS_IMPULSION_T") (simp_all add: call_observer_def unlocked_def model_unlock_def n)
  show ?thesis
  proof (cases "notify env p io cb c")
    case (Some c')
    then have "\<not> cx_model_locked c'" using assms(1,2) by (auto simp: quiet_def notify_def)
    with o Some show ?thesis by (simp add: model_lock_def)
  qed (use o in simp)
qed

lemma observers_loop_quiet:
  assumes "quiet env" and "ag_uuid a \<noteq> None" and "model_find_io_by_name a name t = Some io"
    and "io_name io = name" and "io_type io = t" and "io_value_type io \<noteq> IGS_UNKNOWN_T"
  shows "\<not> cx_model_locked c \<Longrightarrow> deref p c = Some a \<Longrightarrow>
    observers_loop env p t name (io_value_type io) cbs (c\<lparr> cx_model_locked := True \<rparr>)
      = map_option (\<lambda>c. c\<lparr> cx_model_locked := True \<rparr>) (in_turn (notify env p io) cbs c)"
proof (induction cbs arbitrary: c)
  case (Cons cb cbs)
  note o = call_observer_quiet [OF assms(1) Cons.prems assms(2-6), of cb]
  show ?case
  proof (cases "notify env p io cb c")
    case (Some c')
    then have "\<not> cx_model_locked c'" "deref p c' = Some a"
      using assms(1) Cons.prems by (auto simp: quiet_def notify_def deref_def)
    from Cons.IH [OF this] Some o show ?thesis by simp
  qed (use o in simp)
qed simp

lemma in_turn_quiet:
  "quiet env \<Longrightarrow> in_turn (notify env p io) cbs c = Some c' \<Longrightarrow> cx_store c' = cx_store c \<and> cx_model_locked c' = cx_model_locked c"
proof (induction cbs arbitrary: c)
  case (Cons cb cbs)
  then obtain c1 where c1: "notify env p io cb c = Some c1" "in_turn (notify env p io) cbs c1 = Some c'"
    by (auto simp: bind_some_eqs)
  then have "cx_store c1 = cx_store c \<and> cx_model_locked c1 = cx_model_locked c"
    using Cons.prems(1) by (auto simp: quiet_def notify_def)
  with Cons.IH [OF Cons.prems(1) c1(2)] show ?case by simp
qed simp

lemma observers_in_turn:
  assumes "quiet env" and "\<not> cx_model_locked c" and "deref p c = Some a" and "ag_uuid a \<noteq> None" and "agent_wf a"
    and "model_find_io_by_name a name t = Some io" and "io_value_type io \<noteq> IGS_UNKNOWN_T"
  shows "model_LOCKED_handle_io_callbacks env p t name c
    = map_option (Pair ()) (in_turn (notify env p io) (io_callbacks io) c)"
proof -
  have f: "io_name io = name" "io_type io = t" using found_wf [OF assms(5,6)] by auto
  have d: "deref p (c\<lparr> cx_model_locked := True \<rparr>) = Some a" using assms(3) by (simp add: deref_def)
  note l = observers_loop_quiet [OF assms(1,4,6) f assms(7,2,3), of "io_callbacks io"]
  show ?thesis
  proof (cases "in_turn (notify env p io) (io_callbacks io) c")
    case None
    with l assms d show ?thesis
      by (auto simp: model_LOCKED_handle_io_callbacks_def locked_def model_lock_def)
  next
    case (Some c')
    then have "c'\<lparr> cx_model_locked := False \<rparr> = c'"
      using in_turn_quiet [OF assms(1)] assms(2) by (cases c') fastforce
    with Some l assms d show ?thesis
      by (auto simp: model_LOCKED_handle_io_callbacks_def locked_def model_lock_def model_unlock_def)
  qed
qed

section \<open>The invariant of the agents\<close>

definition callbacks_keep :: "app_env \<Rightarrow> (igs_agent \<Rightarrow> bool) \<Rightarrow> bool" where
  "callbacks_keep env P \<longleftrightarrow>
     (\<forall>f p t n vt v sz d. keeps P (\<lambda>c. map_option (Pair ()) (call_io env f p t n vt v sz d c)))
     \<and> (\<forall>f p n u s as k tok d. keeps P (\<lambda>c. map_option (Pair ()) (call_service env f p n u s as k tok d c)))
     \<and> (\<forall>f p e u n x d. keeps P (\<lambda>c. map_option (Pair ()) (call_event env f p e u n x d c)))
     \<and> (\<forall>f p b d. keeps P (\<lambda>c. map_option (Pair ()) (call_activate env f p b d c)))
     \<and> (\<forall>f p b d. keeps P (\<lambda>c. map_option (Pair ()) (call_mute env f p b d c)))
     \<and> (\<forall>f b d. keeps P (\<lambda>c. map_option (Pair ()) (call_freeze env f b d c)))"

lemma keeps_unit:
  assumes "keeps P (\<lambda>c. map_option (Pair ()) (f c))" and "all_agents P c" and "f c = Some c'" shows "all_agents P c'"
  using assms(3) by (intro keepsD [OF assms(1,2), of "()"]) simp

lemma callbacks_keepD:
  assumes "callbacks_keep env P" and "all_agents P c"
  shows "call_io env f p t n vt v sz d c = Some c' \<Longrightarrow> all_agents P c'"
    and "call_service env f p n' u s as k tok d c = Some c' \<Longrightarrow> all_agents P c'"
    and "call_event env f p e u s x d c = Some c' \<Longrightarrow> all_agents P c'"
    and "call_activate env f p b d c = Some c' \<Longrightarrow> all_agents P c'"
    and "call_mute env f p b d c = Some c' \<Longrightarrow> all_agents P c'"
    and "call_freeze env f b d c = Some c' \<Longrightarrow> all_agents P c'"
proof -
  note k = assms(1) [unfolded callbacks_keep_def, THEN conjunct1, rule_format]
    assms(1) [unfolded callbacks_keep_def, THEN conjunct2, THEN conjunct1, rule_format]
    assms(1) [unfolded callbacks_keep_def, THEN conjunct2, THEN conjunct2, THEN conjunct1, rule_format]
    assms(1) [unfolded callbacks_keep_def, THEN conjunct2, THEN conjunct2, THEN conjunct2, THEN conjunct1, rule_format]
    assms(1) [unfolded callbacks_keep_def, THEN conjunct2, THEN conjunct2, THEN conjunct2, THEN conjunct2, THEN conjunct1, rule_format]
    assms(1) [unfolded callbacks_keep_def, THEN conjunct2, THEN conjunct2, THEN conjunct2, THEN conjunct2, THEN conjunct2, rule_format]
  show "call_io env f p t n vt v sz d c = Some c' \<Longrightarrow> all_agents P c'" by (rule keeps_unit [OF k(1) assms(2)])
  show "call_service env f p n' u s as k tok d c = Some c' \<Longrightarrow> all_agents P c'" by (rule keeps_unit [OF k(2) assms(2)])
  show "call_event env f p e u s x d c = Some c' \<Longrightarrow> all_agents P c'" by (rule keeps_unit [OF k(3) assms(2)])
  show "call_activate env f p b d c = Some c' \<Longrightarrow> all_agents P c'" by (rule keeps_unit [OF k(4) assms(2)])
  show "call_mute env f p b d c = Some c' \<Longrightarrow> all_agents P c'" by (rule keeps_unit [OF k(5) assms(2)])
  show "call_freeze env f b d c = Some c' \<Longrightarrow> all_agents P c'" by (rule keeps_unit [OF k(6) assms(2)])
qed

lemma call_observer_keeps:
  assumes "callbacks_keep env P" and "call_observer env p t name vt cb c = Some c'" and "all_agents P c"
  shows "all_agents P c'"
proof (cases "c' = c")
  case False
  let ?body = "\<lambda>b (io :: igs_io) c. if b then Some ((), c)
      else do { c \<leftarrow> (if io_value_type io = IGS_IMPULSION_T
                       then call_io env (cb_ptr cb) p t name vt None 0 (cb_my_data cb) c
                       else call_io env (cb_ptr cb) p t name vt (io_memory io) (io_value_size io) (cb_my_data cb) c);
                Some ((), c) }"
  from False assms(2) obtain b io where u: "unlocked (?body b io) c = Some ((), c')"
    by (auto simp: call_observer_def bind_some_eqs split: if_splits)
  have "keeps P (?body b io)"
    by (rule keepsI) (auto simp: bind_some_eqs split: if_splits intro: callbacks_keepD(1) [OF assms(1)])
  from keepsD [OF keeps_unlocked [OF this] assms(3) u] show ?thesis .
qed (use assms in simp)

lemma observers_loop_keeps:
  assumes "callbacks_keep env P"
  shows "observers_loop env p t name vt cbs c = Some c' \<Longrightarrow> all_agents P c \<Longrightarrow> all_agents P c'"
proof (induction cbs arbitrary: c)
  case (Cons cb cbs)
  from Cons.prems(1) obtain c1 where c1: "call_observer env p t name vt cb c = Some c1"
    "observers_loop env p t name vt cbs c1 = Some c'"
    by (auto simp: bind_some_eqs)
  from Cons.IH [OF c1(2) call_observer_keeps [OF assms c1(1) Cons.prems(2)]] show ?case .
qed simp

lemma handle_callbacks_keeps:
  assumes "callbacks_keep env P" shows "keeps P (model_LOCKED_handle_io_callbacks env p t name)"
  unfolding model_LOCKED_handle_io_callbacks_def
proof (rule keeps_locked, rule keeps_guard, rule keepsI)
  fix a c r c'
  assume all: "all_agents P c"
    and h: "(if ag_uuid a = None then Some ((), c)
          else do { io \<leftarrow> model_find_io_by_name a name t;
                    c \<leftarrow> observers_loop env p t name (io_value_type io) (io_callbacks io) c;
                    Some ((), c) }) = Some (r, c')"
  show "all_agents P c'"
  proof (cases "ag_uuid a")
    case (Some u)
    with h obtain io :: igs_io where "observers_loop env p t name (io_value_type io) (io_callbacks io) c = Some c'"
      by (auto simp: bind_some_eqs)
    from observers_loop_keeps [OF assms this all] show ?thesis .
  qed (use all h in simp)
qed

locale values_law =
  fixes P :: "igs_agent \<Rightarrow> bool"
  assumes write_keeps: "P a \<Longrightarrow> model_write env a name t vt v sz = Some (ok, a') \<Longrightarrow> P a'"
begin

lemma write_and_publish_keeps: "keeps P (write_and_publish t env p name vt v sz)"
proof (rule keepsI)
  fix c r c'
  assume all: "all_agents P c" and w: "write_and_publish t env p name vt v sz c = Some (r, c')"
  then obtain ok c1 where c1: "on_agent p (\<lambda>a. model_write (igs_env.truncate env) a name t vt v sz) c = Some (ok, c1)"
    and c': "c' = c1 \<or> (\<exists>a io r2. network_publish_output (pub_env.truncate env) a io c1 = Some (r2, c'))"
    by (auto simp: write_and_publish_def bind_some_eqs split: if_splits)
  from c1 all have "all_agents P c1"
    by (auto simp: on_agent_def bind_some_eqs dest: all_agentsD write_keeps intro: all_agents_store)
  with c' show "all_agents P c'"
    using same_but_splitters_frame [OF publish_frame] all_agents_frame by blast
qed

lemma set_io_keeps:
  assumes "callbacks_keep env P" shows "keeps P (set_io t env p name vt v sz)"
  unfolding set_io_def
  by (intro keeps_intros write_and_publish_keeps handle_callbacks_keeps [OF assms])

end

interpretation wf_values: values_law agent_wf
  by unfold_locales (rule model_write_wf)

section \<open>A write, from the call to the observers\<close>

text \<open>What happens between the write and the observers: an output is published.\<close>

definition published ::
    "igs_io_type \<Rightarrow> app_env \<Rightarrow> igs_agent \<Rightarrow> igs_io \<Rightarrow> igs_core \<Rightarrow> igs_core option" where
  "published t env a io c =
     (if t = IGS_OUTPUT_T \<and> \<not> ag_rt_synchronous_mode a
      then map_option snd (network_publish_output (pub_env.truncate env) a io c) else Some c)"

lemma published_frame:
  "published t env a io c = Some c' \<Longrightarrow> cx_store c' = cx_store c \<and> cx_model_locked c' = cx_model_locked c"
  using same_but_splitters_frame [OF publish_frame] by (auto simp: published_def split: if_splits)

lemma deref_store [simp]: "deref p (store q a c) = (if p = q then Some a else deref p c)"
  "cx_model_locked (store q a c) = cx_model_locked c"
  by (simp_all add: deref_def store_def)

lemma deref_locked [simp]: "deref p (c\<lparr> cx_model_locked := b \<rparr>) = deref p c"
  by (simp add: deref_def)

lemma on_io_frame [simp]: "ag_rt_synchronous_mode (on_io t k f a) = ag_rt_synchronous_mode a"
  "ag_enforce_constraints (on_io t k f a) = ag_enforce_constraints a"
  by (simp_all add: on_io_def)

lemma set_io_accepted:
  assumes "quiet env" and "\<not> cx_model_locked c" and "deref p c = Some a" and "ag_uuid a \<noteq> None" and "agent_wf a"
    and "ios_of t a name = Some io" and "io_value_type io \<noteq> IGS_UNKNOWN_T"
    and w: "write_io (igs_env.truncate env) (ag_enforce_constraints a) vt v sz io = Some (True, io')"
    and pub: "published t env (on_io t name (\<lambda>_. io') a) io' (store p (on_io t name (\<lambda>_. io') a) (c\<lparr> cx_model_locked := True \<rparr>)) = Some c1"
  shows "set_io t env p name vt v sz c
    = map_option (Pair IGS_SUCCESS) (in_turn (notify env p io') (io_callbacks io) (c1\<lparr> cx_model_locked := False \<rparr>))"
proof -
  let ?a = "on_io t name (\<lambda>_. io') a"
  have f: "model_find_io_by_name a name t = Some io" using assms(6) by (simp add: ios_of_def)
  have mw: "model_write (igs_env.truncate env) a name t vt v sz = Some (True, ?a)"
    using f w by (simp add: model_write_def)
  have wf: "agent_wf ?a" using model_write_wf [OF assms(5) mw] .
  have f': "model_find_io_by_name ?a name t = Some io'" using f by simp
  have s: "io_value_type io' = io_value_type io" "io_callbacks io' = io_callbacks io"
    using write_io_same [OF w] by (auto simp: same_io_def)
  have k: "cx_store c1 = cx_store (store p ?a c)" "cx_model_locked c1"
    using published_frame [OF pub] by (simp_all add: store_def)
  have "write_and_publish t env p name vt v sz (c\<lparr> cx_model_locked := True \<rparr>) = Some (True, c1)"
    using assms(3) mw pub f' by (auto simp: write_and_publish_def on_agent_def published_def split: if_splits)
  then have l: "locked (write_and_publish t env p name vt v sz) c = Some (True, c1\<lparr> cx_model_locked := False \<rparr>)"
    using assms(2) k(2) by (simp add: locked_def model_lock_def model_unlock_def)
  have d: "deref p (c1\<lparr> cx_model_locked := False \<rparr>) = Some ?a" using k(1) by (simp add: deref_def store_def)
  have h: "model_LOCKED_handle_io_callbacks env p t name (c1\<lparr> cx_model_locked := False \<rparr>)
      = map_option (Pair ()) (in_turn (notify env p io') (io_callbacks io') (c1\<lparr> cx_model_locked := False \<rparr>))"
    using observers_in_turn [OF assms(1) _ d _ wf f'] assms(4,7) s(1) by simp
  have "ag_uuid a \<noteq> None" by fact
  then show ?thesis using assms(3) l h s(2)
    by (cases "in_turn (notify env p io') (io_callbacks io) (c1\<lparr> cx_model_locked := False \<rparr>)")
      (simp_all add: set_io_def with_agent_def)
qed

lemma set_io_refused:
  assumes "\<not> cx_model_locked c" and "deref p c = Some a" and "ag_uuid a \<noteq> None" and "agent_wf a"
    and "model_write (igs_env.truncate env) a name t vt v sz = Some (False, a')"
  shows "set_io t env p name vt v sz c = Some (IGS_FAILURE, c)"
proof -
  have a': "a' = a" by (rule model_write_refused [OF assms(4,5)])
  have c: "store p a c = c" using assms(2) by (cases c) (auto simp: store_def deref_def)
  have "ag_uuid a \<noteq> None" by fact
  with assms(1,2,5) a' c show ?thesis
    by (cases c) (auto simp: set_io_def with_agent_def write_and_publish_def locked_def model_lock_def model_unlock_def
        on_agent_def store_def deref_def)
qed

text \<open>After a write whose observers leave the agents alone, the io is the written one.\<close>

lemma set_io_reads:
  assumes "quiet env" and "\<not> cx_model_locked c" and "deref p c = Some a" and "ag_uuid a = Some u" and "agent_wf a"
    and "ios_of t a name = Some io" and "io_value_type io \<noteq> IGS_UNKNOWN_T"
    and w: "write_io (igs_env.truncate env) (ag_enforce_constraints a) vt v sz io = Some (True, io')"
    and s: "set_io t env p name vt v sz c = Some (r, c')"
  shows "r = IGS_SUCCESS \<and> \<not> cx_model_locked c' \<and> deref p c' = Some (on_io t name (\<lambda>_. io') a)
    \<and> (\<forall>q. q \<noteq> p \<longrightarrow> deref q c' = deref q c)"
proof -
  let ?a = "on_io t name (\<lambda>_. io') a"
  have f: "model_find_io_by_name a name t = Some io" using assms(6) by (simp add: ios_of_def)
  have mw: "model_write (igs_env.truncate env) a name t vt v sz = Some (True, ?a)"
    using f w by (simp add: model_write_def)
  obtain c1 where c1: "published t env ?a io' (store p ?a (c\<lparr> cx_model_locked := True \<rparr>)) = Some c1"
    using s assms(2-4) mw f
    by (auto simp: set_io_def with_agent_def locked_def model_lock_def write_and_publish_def on_agent_def
        published_def bind_some_eqs split: if_splits)
  have "ag_uuid a \<noteq> None" using assms(4) by simp
  from s [unfolded set_io_accepted [OF assms(1-3) this assms(5-7) w c1]]
  have t: "r = IGS_SUCCESS" "in_turn (notify env p io') (io_callbacks io) (c1\<lparr> cx_model_locked := False \<rparr>) = Some c'"
    by auto
  then show ?thesis using in_turn_quiet [OF assms(1) t(2)] published_frame [OF c1]
    by (auto simp: deref_def store_def)
qed

lemma read_io_iff:
  "read_io dflt f p c = Some (r, c') \<longleftrightarrow> (\<exists>a. deref p c = Some a \<and> c' = c
     \<and> (if ag_uuid a = None then r = dflt else \<not> cx_model_locked c \<and> f a = Some r))"
  by (auto simp: read_io_def with_agent_iff locked_read_agent_iff)

end
