(* ===== verification/Igs_Service.thy ===== *)
theory Igs_Service
  imports Igs_Api_Laws
begin

text \<open>
  Services (src/src/igs_service.c): lists of arguments, the services of a definition
  with their arguments and replies, and the arguments of a call that arrives as a
  message. A \<open>igs_service_arg_t *\<close> list is the list of its elements. The string and
  the data of an argument keep every byte of their buffer.
\<close>

section \<open>Lists of arguments\<close>

definition zero_arg :: igs_service_arg where
  "zero_arg = \<lparr> sa_name = None, sa_description = None, sa_type = IGS_UNKNOWN_T, sa_b = False, sa_i = 0, sa_d = 0,
     sa_c = None, sa_data = None, sa_size = 0 \<rparr>"

definition igs_service_args_add_int :: "i32 \<Rightarrow> igs_service_arg list \<Rightarrow> igs_service_arg list" where
  "igs_service_args_add_int value as =
     as @ [zero_arg\<lparr> sa_type := IGS_INTEGER_T, sa_i := value, sa_size := sizeof_int \<rparr>]"

definition igs_service_args_add_bool :: "bool \<Rightarrow> igs_service_arg list \<Rightarrow> igs_service_arg list" where
  "igs_service_args_add_bool value as =
     as @ [zero_arg\<lparr> sa_type := IGS_BOOL_T, sa_b := value, sa_size := sizeof_bool \<rparr>]"

definition igs_service_args_add_double :: "f64 \<Rightarrow> igs_service_arg list \<Rightarrow> igs_service_arg list" where
  "igs_service_args_add_double value as =
     as @ [zero_arg\<lparr> sa_type := IGS_DOUBLE_T, sa_d := value, sa_size := sizeof_double \<rparr>]"

definition igs_service_args_add_string :: "string option \<Rightarrow> igs_service_arg list \<Rightarrow> igs_service_arg list" where
  "igs_service_args_add_string value as =
     as @ [case value of None \<Rightarrow> zero_arg\<lparr> sa_type := IGS_STRING_T \<rparr>
           | Some s \<Rightarrow> zero_arg\<lparr> sa_type := IGS_STRING_T, sa_c := Some (wr_cstr s), sa_size := length s + 1 \<rparr>]"

definition igs_service_args_add_data ::
    "string option \<Rightarrow> nat \<Rightarrow> igs_service_arg list \<Rightarrow> igs_service_arg list option" where
  "igs_service_args_add_data value sz as =
     (case value of
        Some v \<Rightarrow> if sz \<noteq> 0
          then do { d \<leftarrow> copy_bytes v sz;
                    Some (as @ [zero_arg\<lparr> sa_type := IGS_DATA_T, sa_data := Some d, sa_size := sz \<rparr>]) }
          else Some (as @ [zero_arg\<lparr> sa_type := IGS_DATA_T \<rparr>])
      | None \<Rightarrow> Some (as @ [zero_arg\<lparr> sa_type := IGS_DATA_T \<rparr>]))"

text \<open>\<open>memcpy\<close> of no bytes does not care about the source.\<close>

definition copy_from :: "string option \<Rightarrow> nat \<Rightarrow> string option" where
  "copy_from v n = (if n = 0 then Some [] else do { m \<leftarrow> v; copy_bytes m n })"

definition clone_arg :: "igs_service_arg \<Rightarrow> igs_service_arg option" where
  "clone_arg a =
     (let new = zero_arg\<lparr> sa_type := sa_type a, sa_name := sa_name a, sa_size := sa_size a \<rparr>
      in case sa_type a of
           IGS_BOOL_T \<Rightarrow> Some (new\<lparr> sa_b := sa_b a \<rparr>)
         | IGS_INTEGER_T \<Rightarrow> Some (new\<lparr> sa_i := sa_i a \<rparr>)
         | IGS_DOUBLE_T \<Rightarrow> Some (new\<lparr> sa_d := sa_d a \<rparr>)
         | IGS_STRING_T \<Rightarrow>
             (case sa_c a of None \<Rightarrow> Some new
              | Some m \<Rightarrow> do { s \<leftarrow> rd_cstr m; Some (new\<lparr> sa_c := Some (wr_cstr s) \<rparr>) })
         | IGS_DATA_T \<Rightarrow> do { d \<leftarrow> copy_from (sa_data a) (sa_size a); Some (new\<lparr> sa_data := Some d \<rparr>) }
         | _ \<Rightarrow> Some new)"

fun clone_args :: "igs_service_arg list \<Rightarrow> igs_service_arg list option" where
  "clone_args [] = Some []"
| "clone_args (a # as) = do { n \<leftarrow> clone_arg a; ns \<leftarrow> clone_args as; Some (n # ns) }"

definition igs_service_args_clone :: "igs_service_arg list \<Rightarrow> igs_service_arg list option" where
  "igs_service_args_clone as = do { c_assert (as \<noteq> []); clone_args as }"

section \<open>The arguments of a message\<close>

text \<open>The value of one argument from its frame.\<close>

definition arg_from_frame :: "igs_service_arg \<Rightarrow> string \<Rightarrow> igs_service_arg option" where
  "arg_from_frame a f =
     (let new = zero_arg\<lparr> sa_name := sa_name a, sa_type := sa_type a, sa_size := length f \<rparr>
      in case sa_type a of
           IGS_BOOL_T \<Rightarrow> do { b \<leftarrow> rd_bool f; Some (new\<lparr> sa_b := b \<rparr>) }
         | IGS_INTEGER_T \<Rightarrow> do { i \<leftarrow> rd_int f; Some (new\<lparr> sa_i := i \<rparr>) }
         | IGS_DOUBLE_T \<Rightarrow> do { d \<leftarrow> rd_double f; Some (new\<lparr> sa_d := d \<rparr>) }
         | IGS_STRING_T \<Rightarrow> Some (if 0 < length f then new\<lparr> sa_c := Some f \<rparr> else new)
         | IGS_DATA_T \<Rightarrow> Some (if 0 < length f then new\<lparr> sa_data := Some f \<rparr> else new)
         | _ \<Rightarrow> Some new)"

text \<open>
  The loop over the arguments the service defines; it starts from an empty list. The
  frames it does not take stay in the message. When frames are missing, the list made
  so far is freed.
\<close>

fun args_from_frames ::
    "igs_service_arg list \<Rightarrow> igs_service_arg list \<Rightarrow> string list \<Rightarrow> (igs_result \<times> igs_service_arg list \<times> string list) option" where
  "args_from_frames done_args [] fs = Some (IGS_SUCCESS, done_args, fs)"
| "args_from_frames done_args (a # as) [] = do { _ \<leftarrow> sa_name a; Some (IGS_FAILURE, [], []) }"
| "args_from_frames done_args (a # as) (f # fs) =
     do { _ \<leftarrow> sa_name a; new \<leftarrow> arg_from_frame a f; args_from_frames (done_args @ [new]) as fs }"

definition service_make_values_to_arguments_from_message ::
    "igs_service \<Rightarrow> string list \<Rightarrow> (igs_result \<times> igs_service_arg list \<times> string list) option" where
  "service_make_values_to_arguments_from_message service msg = args_from_frames [] (sv_arguments service) msg"

section \<open>Services of a definition\<close>

text \<open>Look the service up; when it is missing the function fails and changes nothing.\<close>

definition with_service ::
    "string \<Rightarrow> 'r \<Rightarrow> (igs_service \<Rightarrow> igs_agent \<Rightarrow> ('r \<times> igs_agent) option) \<Rightarrow> igs_agent \<Rightarrow> ('r \<times> igs_agent) option" where
  "with_service name dflt f a =
     do { d \<leftarrow> ag_definition a;
          case zh_lookup (df_services d) name of None \<Rightarrow> Some (dflt, a) | Some s \<Rightarrow> f s a }"

text \<open>A write through the pointer to a service.\<close>

definition on_service :: "string \<Rightarrow> (igs_service \<Rightarrow> igs_service) \<Rightarrow> igs_agent \<Rightarrow> igs_agent" where
  "on_service name f a =
     a\<lparr> ag_definition := map_option (\<lambda>d. put_services (df_services_names d, zh_update name f (df_services d)) d) (ag_definition a) \<rparr>"

definition service_changed ::
    "string \<Rightarrow> (igs_service \<Rightarrow> igs_service) \<Rightarrow> igs_agent \<Rightarrow> (igs_result \<times> igs_agent) option" where
  "service_changed name f a = do { a \<leftarrow> definition_changed (on_service name f a); Some (IGS_SUCCESS, a) }"

definition new_service :: "string \<Rightarrow> igs_service" where
  "new_service name = \<lparr> sv_name = name, sv_description = None, sv_cb = None, sv_cb_data = 0, sv_arguments = [],
     sv_replies_names = [], sv_replies = [] \<rparr>"

definition service_init_body :: "string \<Rightarrow> nat \<Rightarrow> nat \<Rightarrow> igs_agent \<Rightarrow> (igs_result \<times> igs_agent) option" where
  "service_init_body name cb my_data a =
     do { d \<leftarrow> ag_definition a;
          case zh_lookup (df_services d) name of
            Some s \<Rightarrow>
              if sv_cb s \<noteq> None then Some (IGS_FAILURE, a)
              else Some (IGS_SUCCESS, on_service name (\<lambda>s. s\<lparr> sv_cb := Some cb, sv_cb_data := my_data \<rparr>) a)
          | None \<Rightarrow>
              do { n \<leftarrow> strndup_str name IGS_MAX_SERVICE_NAME_LENGTH;
                   a \<leftarrow> definition_changed (a\<lparr> ag_definition :=
                     Some (put_services (reg_add n (new_service n) (df_services_names d, df_services d)) d) \<rparr>);
                   Some (IGS_SUCCESS, on_service n (\<lambda>s. s\<lparr> sv_cb := Some cb, sv_cb_data := my_data \<rparr>) a) } }"

definition igsagent_service_init :: "addr \<Rightarrow> string \<Rightarrow> nat \<Rightarrow> nat \<Rightarrow> igs_result core_op" where
  "igsagent_service_init p name cb my_data = with_agent p IGS_FAILURE (\<lambda>c.
     do { c_assert (name \<noteq> []); checked name IGS_MAX_SERVICE_NAME_LENGTH; has_definition p c;
          locked (on_agent p (service_init_body name cb my_data)) c })"

definition service_remove_body :: "string \<Rightarrow> igs_agent \<Rightarrow> (igs_result \<times> igs_agent) option" where
  "service_remove_body name = with_service name IGS_FAILURE (\<lambda>s a.
     do { d \<leftarrow> ag_definition a;
          a \<leftarrow> definition_changed (a\<lparr> ag_definition :=
            Some (put_services (reg_remove name (df_services_names d, df_services d)) d) \<rparr>);
          Some (IGS_SUCCESS, a) })"

text \<open>The function under the mutex, after the checks of the agent and its definition.\<close>

definition service_op ::
    "addr \<Rightarrow> (igs_agent \<Rightarrow> (igs_result \<times> igs_agent) option) \<Rightarrow> igs_result core_op" where
  "service_op p f = with_agent p IGS_FAILURE (\<lambda>c. do { has_definition p c; locked (on_agent p f) c })"

definition igsagent_service_remove :: "addr \<Rightarrow> string \<Rightarrow> igs_result core_op" where
  "igsagent_service_remove p name = service_op p (service_remove_body name)"

definition service_describe_body :: "string \<Rightarrow> string \<Rightarrow> igs_agent \<Rightarrow> (igs_result \<times> igs_agent) option" where
  "service_describe_body name description = with_service name IGS_FAILURE (\<lambda>s a.
     do { v \<leftarrow> strndup_str description IGS_MAX_DESCRIPTION_LENGTH;
          service_changed name (\<lambda>s. s\<lparr> sv_description := Some v \<rparr>) a })"

definition igsagent_service_set_description :: "addr \<Rightarrow> string \<Rightarrow> string \<Rightarrow> igs_result core_op" where
  "igsagent_service_set_description p name description = service_op p (service_describe_body name description)"

section \<open>Arguments\<close>

definition arg_size :: "igs_io_value_type \<Rightarrow> nat" where
  "arg_size t = (case t of IGS_BOOL_T \<Rightarrow> sizeof_bool | IGS_INTEGER_T \<Rightarrow> sizeof_int | IGS_DOUBLE_T \<Rightarrow> sizeof_double | _ \<Rightarrow> 0)"

definition new_arg :: "string \<Rightarrow> igs_io_value_type \<Rightarrow> igs_service_arg" where
  "new_arg n t = zero_arg\<lparr> sa_name := Some n, sa_type := t, sa_size := arg_size t \<rparr>"

definition arg_add_body :: "string \<Rightarrow> string \<Rightarrow> igs_io_value_type \<Rightarrow> igs_agent \<Rightarrow> (igs_result \<times> igs_agent) option" where
  "arg_add_body service_name arg_name t = with_service service_name IGS_FAILURE (\<lambda>s a.
     do { n \<leftarrow> strndup_str arg_name IGS_MAX_SERVICE_ARG_NAME_LENGTH;
          service_changed service_name (\<lambda>s. s\<lparr> sv_arguments := sv_arguments s @ [new_arg n t] \<rparr>) a })"

definition igsagent_service_arg_add :: "addr \<Rightarrow> string \<Rightarrow> string \<Rightarrow> igs_io_value_type \<Rightarrow> igs_result core_op" where
  "igsagent_service_arg_add p service_name arg_name t = with_agent p IGS_FAILURE (\<lambda>c.
     do { c_assert (arg_name \<noteq> []); checked arg_name IGS_MAX_SERVICE_ARG_NAME_LENGTH; has_definition p c;
          if t = IGS_IMPULSION_T then Some (IGS_FAILURE, c)
          else if t = IGS_UNKNOWN_T then Some (IGS_FAILURE, c)
          else locked (on_agent p (arg_add_body service_name arg_name t)) c })"

text \<open>
  The search of an argument by its name: the place of the first one. \<open>strcmp\<close> reads
  the name of every argument on the way.
\<close>

fun find_arg :: "string \<Rightarrow> igs_service_arg list \<Rightarrow> nat option option" where
  "find_arg n [] = Some None"
| "find_arg n (a # as) =
     do { m \<leftarrow> sa_name a;
          if m = n then Some (Some 0) else do { r \<leftarrow> find_arg n as; Some (map_option Suc r) } }"

definition remove_at :: "nat \<Rightarrow> 'a list \<Rightarrow> 'a list" where
  "remove_at i xs = take i xs @ drop (Suc i) xs"

definition describe_at :: "nat \<Rightarrow> string \<Rightarrow> igs_service_arg list \<Rightarrow> igs_service_arg list" where
  "describe_at i v as = as[i := (as ! i)\<lparr> sa_description := Some v \<rparr>]"

definition arg_remove_body :: "string \<Rightarrow> string \<Rightarrow> igs_agent \<Rightarrow> (igs_result \<times> igs_agent) option" where
  "arg_remove_body service_name arg_name = with_service service_name IGS_FAILURE (\<lambda>s a.
     do { r \<leftarrow> find_arg arg_name (sv_arguments s);
          case r of None \<Rightarrow> Some (IGS_SUCCESS, a)
          | Some i \<Rightarrow> service_changed service_name (\<lambda>s. s\<lparr> sv_arguments := remove_at i (sv_arguments s) \<rparr>) a })"

definition arg_describe_body :: "string \<Rightarrow> string \<Rightarrow> string \<Rightarrow> igs_agent \<Rightarrow> (igs_result \<times> igs_agent) option" where
  "arg_describe_body service_name arg_name description = with_service service_name IGS_FAILURE (\<lambda>s a.
     do { r \<leftarrow> find_arg arg_name (sv_arguments s);
          case r of None \<Rightarrow> Some (IGS_FAILURE, a)
          | Some i \<Rightarrow>
              do { v \<leftarrow> strndup_str description IGS_MAX_DESCRIPTION_LENGTH;
                   service_changed service_name (\<lambda>s. s\<lparr> sv_arguments := describe_at i v (sv_arguments s) \<rparr>) a } })"

definition igsagent_service_arg_remove :: "addr \<Rightarrow> string \<Rightarrow> string \<Rightarrow> igs_result core_op" where
  "igsagent_service_arg_remove p service_name arg_name = service_op p (arg_remove_body service_name arg_name)"

definition igsagent_service_arg_set_description :: "addr \<Rightarrow> string \<Rightarrow> string \<Rightarrow> string \<Rightarrow> igs_result core_op" where
  "igsagent_service_arg_set_description p service_name arg_name description =
     service_op p (arg_describe_body service_name arg_name description)"

section \<open>Replies\<close>

definition with_reply ::
    "string \<Rightarrow> string \<Rightarrow> 'r \<Rightarrow> (igs_reply \<Rightarrow> igs_agent \<Rightarrow> ('r \<times> igs_agent) option) \<Rightarrow> igs_agent \<Rightarrow> ('r \<times> igs_agent) option" where
  "with_reply service_name reply_name dflt f = with_service service_name dflt (\<lambda>s a.
     case zh_lookup (sv_replies s) reply_name of None \<Rightarrow> Some (dflt, a) | Some r \<Rightarrow> f r a)"

definition on_reply :: "string \<Rightarrow> (igs_reply \<Rightarrow> igs_reply) \<Rightarrow> igs_service \<Rightarrow> igs_service" where
  "on_reply reply_name f s = put_replies (sv_replies_names s, zh_update reply_name f (sv_replies s)) s"

definition new_reply :: "string \<Rightarrow> igs_reply" where
  "new_reply name = \<lparr> rp_name = name, rp_description = None, rp_arguments = [] \<rparr>"

definition reply_add_body :: "string \<Rightarrow> string \<Rightarrow> igs_agent \<Rightarrow> (igs_result \<times> igs_agent) option" where
  "reply_add_body service_name reply_name = with_service service_name IGS_FAILURE (\<lambda>s a.
     case zh_lookup (sv_replies s) reply_name of
       Some r \<Rightarrow> Some (IGS_FAILURE, a)
     | None \<Rightarrow>
         do { n \<leftarrow> strndup_str reply_name IGS_MAX_SERVICE_NAME_LENGTH;
              service_changed service_name
                (\<lambda>s. put_replies (reg_add n (new_reply n) (sv_replies_names s, sv_replies s)) s) a })"

definition reply_remove_body :: "string \<Rightarrow> string \<Rightarrow> igs_agent \<Rightarrow> (igs_result \<times> igs_agent) option" where
  "reply_remove_body service_name reply_name = with_reply service_name reply_name IGS_FAILURE (\<lambda>r a.
     service_changed service_name
       (\<lambda>s. put_replies (reg_remove reply_name (sv_replies_names s, sv_replies s)) s) a)"

definition reply_describe_body :: "string \<Rightarrow> string \<Rightarrow> string \<Rightarrow> igs_agent \<Rightarrow> (igs_result \<times> igs_agent) option" where
  "reply_describe_body service_name reply_name description = with_reply service_name reply_name IGS_FAILURE (\<lambda>r a.
     do { v \<leftarrow> strndup_str description IGS_MAX_DESCRIPTION_LENGTH;
          service_changed service_name (on_reply reply_name (\<lambda>r. r\<lparr> rp_description := Some v \<rparr>)) a })"

definition reply_arg_add_body ::
    "string \<Rightarrow> string \<Rightarrow> string \<Rightarrow> igs_io_value_type \<Rightarrow> igs_agent \<Rightarrow> (igs_result \<times> igs_agent) option" where
  "reply_arg_add_body service_name reply_name arg_name t = with_reply service_name reply_name IGS_FAILURE (\<lambda>r a.
     if t = IGS_IMPULSION_T then Some (IGS_FAILURE, a)
     else if t = IGS_UNKNOWN_T then Some (IGS_FAILURE, a)
     else do { n \<leftarrow> strndup_str arg_name IGS_MAX_SERVICE_ARG_NAME_LENGTH;
               service_changed service_name
                 (on_reply reply_name (\<lambda>r. r\<lparr> rp_arguments := rp_arguments r @ [new_arg n t] \<rparr>)) a })"

text \<open>Unlike the removal of an argument of the service, a missing argument is a failure here.\<close>

definition reply_arg_remove_body :: "string \<Rightarrow> string \<Rightarrow> string \<Rightarrow> igs_agent \<Rightarrow> (igs_result \<times> igs_agent) option" where
  "reply_arg_remove_body service_name reply_name arg_name = with_reply service_name reply_name IGS_FAILURE (\<lambda>r a.
     do { i \<leftarrow> find_arg arg_name (rp_arguments r);
          case i of None \<Rightarrow> Some (IGS_FAILURE, a)
          | Some i \<Rightarrow> service_changed service_name
              (on_reply reply_name (\<lambda>r. r\<lparr> rp_arguments := remove_at i (rp_arguments r) \<rparr>)) a })"

definition reply_arg_describe_body ::
    "string \<Rightarrow> string \<Rightarrow> string \<Rightarrow> string \<Rightarrow> igs_agent \<Rightarrow> (igs_result \<times> igs_agent) option" where
  "reply_arg_describe_body service_name reply_name arg_name description = with_reply service_name reply_name IGS_FAILURE (\<lambda>r a.
     do { i \<leftarrow> find_arg arg_name (rp_arguments r);
          case i of None \<Rightarrow> Some (IGS_FAILURE, a)
          | Some i \<Rightarrow>
              do { v \<leftarrow> strndup_str description IGS_MAX_DESCRIPTION_LENGTH;
                   service_changed service_name
                     (on_reply reply_name (\<lambda>r. r\<lparr> rp_arguments := describe_at i v (rp_arguments r) \<rparr>)) a } })"

text \<open>The functions that check the name of a reply or of an argument before they lock.\<close>

definition checked_op ::
    "addr \<Rightarrow> string \<Rightarrow> nat \<Rightarrow> (igs_agent \<Rightarrow> (igs_result \<times> igs_agent) option) \<Rightarrow> igs_result core_op" where
  "checked_op p s n f = with_agent p IGS_FAILURE (\<lambda>c.
     do { checked s n; has_definition p c; locked (on_agent p f) c })"

definition igsagent_service_reply_add :: "addr \<Rightarrow> string \<Rightarrow> string \<Rightarrow> igs_result core_op" where
  "igsagent_service_reply_add p service_name reply_name =
     checked_op p reply_name IGS_MAX_SERVICE_NAME_LENGTH (reply_add_body service_name reply_name)"

definition igsagent_service_reply_set_description :: "addr \<Rightarrow> string \<Rightarrow> string \<Rightarrow> string \<Rightarrow> igs_result core_op" where
  "igsagent_service_reply_set_description p service_name reply_name description =
     checked_op p reply_name IGS_MAX_SERVICE_NAME_LENGTH (reply_describe_body service_name reply_name description)"

definition igsagent_service_reply_remove :: "addr \<Rightarrow> string \<Rightarrow> string \<Rightarrow> igs_result core_op" where
  "igsagent_service_reply_remove p service_name reply_name = service_op p (reply_remove_body service_name reply_name)"

definition igsagent_service_reply_arg_add ::
    "addr \<Rightarrow> string \<Rightarrow> string \<Rightarrow> string \<Rightarrow> igs_io_value_type \<Rightarrow> igs_result core_op" where
  "igsagent_service_reply_arg_add p service_name reply_name arg_name t =
     checked_op p arg_name IGS_MAX_SERVICE_ARG_NAME_LENGTH (reply_arg_add_body service_name reply_name arg_name t)"

definition igsagent_service_reply_arg_remove :: "addr \<Rightarrow> string \<Rightarrow> string \<Rightarrow> string \<Rightarrow> igs_result core_op" where
  "igsagent_service_reply_arg_remove p service_name reply_name arg_name =
     service_op p (reply_arg_remove_body service_name reply_name arg_name)"

definition igsagent_service_reply_arg_set_description ::
    "addr \<Rightarrow> string \<Rightarrow> string \<Rightarrow> string \<Rightarrow> string \<Rightarrow> igs_result core_op" where
  "igsagent_service_reply_arg_set_description p service_name reply_name arg_name description =
     service_op p (reply_arg_describe_body service_name reply_name arg_name description)"

section \<open>Queries\<close>

definition query :: "'r \<Rightarrow> (igs_definition \<Rightarrow> 'r option) \<Rightarrow> addr \<Rightarrow> 'r core_op" where
  "query dflt f p = with_agent p dflt (\<lambda>c.
     do { has_definition p c; locked (read_agent p (\<lambda>a. do { d \<leftarrow> ag_definition a; f d })) c })"

definition of_service :: "string \<Rightarrow> 'r \<Rightarrow> (igs_service \<Rightarrow> 'r option) \<Rightarrow> igs_definition \<Rightarrow> 'r option" where
  "of_service name dflt f d = (case zh_lookup (df_services d) name of None \<Rightarrow> Some dflt | Some s \<Rightarrow> f s)"

definition of_reply :: "string \<Rightarrow> string \<Rightarrow> 'r \<Rightarrow> (igs_reply \<Rightarrow> 'r option) \<Rightarrow> igs_definition \<Rightarrow> 'r option" where
  "of_reply service_name reply_name dflt f = of_service service_name dflt (\<lambda>s.
     case zh_lookup (sv_replies s) reply_name of None \<Rightarrow> Some dflt | Some r \<Rightarrow> f r)"

definition igsagent_service_description where
  "igsagent_service_description p name = query None (of_service name None (\<lambda>s. Some (sv_description s))) p"

text \<open>The description is cut on the way out as it is on the way in.\<close>

definition description_in :: "string \<Rightarrow> igs_service_arg list \<Rightarrow> string option option" where
  "description_in arg_name as =
     do { r \<leftarrow> find_arg arg_name as;
          case r of None \<Rightarrow> Some None
          | Some i \<Rightarrow> (case sa_description (as ! i) of None \<Rightarrow> Some None
                        | Some v \<Rightarrow> do { v \<leftarrow> strndup_str v IGS_MAX_DESCRIPTION_LENGTH; Some (Some v) }) }"

definition igsagent_service_arg_description where
  "igsagent_service_arg_description p service_name arg_name =
     query None (of_service service_name None (\<lambda>s. description_in arg_name (sv_arguments s))) p"

definition igsagent_service_reply_description where
  "igsagent_service_reply_description p service_name reply_name = with_agent p None (\<lambda>c.
     do { checked reply_name IGS_MAX_SERVICE_NAME_LENGTH;
          query None (of_reply service_name reply_name None (\<lambda>r. Some (rp_description r))) p c })"

definition igsagent_service_reply_arg_description where
  "igsagent_service_reply_arg_description p service_name reply_name arg_name =
     query None (of_reply service_name reply_name None (\<lambda>r. description_in arg_name (rp_arguments r))) p"

definition igsagent_service_count where
  "igsagent_service_count = query 0 (\<lambda>d. Some (length (df_services d)))"

definition igsagent_service_exists where
  "igsagent_service_exists p name = query False (of_service name False (\<lambda>s. Some True)) p"

text \<open>
  The array has one place per entry of the table and is filled from the list of
  names: \<open>None\<close> when the names do not fit; a place without a name is \<open>None\<close>.
\<close>

definition name_array :: "nat \<Rightarrow> string list \<Rightarrow> (string option list option \<times> nat) option" where
  "name_array n names =
     (if n = 0 then Some (None, 0)
      else if n < length names then None
      else Some (Some (map Some names @ replicate (n - length names) None), n))"

definition igsagent_service_list where
  "igsagent_service_list = query (None, 0) (\<lambda>d. name_array (length (df_services d)) (df_services_names d))"

definition igsagent_service_args_first where
  "igsagent_service_args_first p name = query [] (of_service name [] (\<lambda>s. Some (sv_arguments s))) p"

definition igsagent_service_args_count where
  "igsagent_service_args_count p name = query 0 (of_service name 0 (\<lambda>s. Some (length (sv_arguments s)))) p"

definition igsagent_service_arg_exists where
  "igsagent_service_arg_exists p service_name arg_name =
     query False (of_service service_name False (\<lambda>s. do { r \<leftarrow> find_arg arg_name (sv_arguments s); Some (r \<noteq> None) })) p"

definition igsagent_service_has_replies where
  "igsagent_service_has_replies p name = query False (of_service name False (\<lambda>s. Some (length (sv_replies s) \<noteq> 0))) p"

definition igsagent_service_has_reply where
  "igsagent_service_has_reply p service_name reply_name =
     query False (of_reply service_name reply_name False (\<lambda>r. Some True)) p"

definition igsagent_service_reply_names where
  "igsagent_service_reply_names p name =
     query (None, 0) (of_service name (None, 0) (\<lambda>s. name_array (length (sv_replies s)) (sv_replies_names s))) p"

definition igsagent_service_reply_args_first where
  "igsagent_service_reply_args_first p service_name reply_name =
     query [] (of_reply service_name reply_name [] (\<lambda>r. Some (rp_arguments r))) p"

definition igsagent_service_reply_args_count where
  "igsagent_service_reply_args_count p service_name reply_name =
     query 0 (of_reply service_name reply_name 0 (\<lambda>r. Some (length (rp_arguments r)))) p"

definition igsagent_service_reply_arg_exists where
  "igsagent_service_reply_arg_exists p service_name reply_name arg_name =
     query False (of_reply service_name reply_name False
       (\<lambda>r. do { i \<leftarrow> find_arg arg_name (rp_arguments r); Some (i \<noteq> None) })) p"

end
