(* ===== verification/Igs_Service_Laws.thy ===== *)
theory Igs_Service_Laws
  imports Igs_Service
begin

text \<open>
  The operations on services keep the invariant of the agent (interpretations of
  \<open>agent_law\<close>), and each is an update of the map from names to services.
\<close>

section \<open>The invariant\<close>

lemma put_services_wf:
  "definition_wf d \<Longrightarrow> services_ok (put_services r d) \<Longrightarrow> definition_wf (put_services r d)"
  by (simp add: definition_wf_def ios_ok_def put_services_def io_names_def io_table_def)

lemma service_add_wf:
  assumes "definition_wf d" and "zh_lookup (df_services d) (sv_name s) = None" and "service_ok s"
  shows "definition_wf (put_services (reg_add (sv_name s) s (df_services_names d, df_services d)) d)"
proof (rule put_services_wf [OF assms(1)])
  have "set (zh_insert (sv_name s) s (df_services d)) = insert (sv_name s, s) (set (df_services d))"
    using assms(2) by (simp add: set_zh_insert)
  with assms show "services_ok (put_services (reg_add (sv_name s) s (df_services_names d, df_services d)) d)"
    by (auto simp: services_ok_def definition_wf_def put_services_def reg_add_def intro: registered_add)
qed

lemma service_remove_wf:
  assumes "definition_wf d"
  shows "definition_wf (put_services (reg_remove k (df_services_names d, df_services d)) d)"
proof (rule put_services_wf [OF assms])
  have "set (zh_delete k (df_services d)) \<subseteq> set (df_services d)" by (auto simp: zh_delete_def)
  with assms show "services_ok (put_services (reg_remove k (df_services_names d, df_services d)) d)"
    by (auto simp: services_ok_def definition_wf_def put_services_def reg_remove_def intro: registered_remove)
qed

lemma service_update_wf:
  assumes "definition_wf d"
    and "\<And>s. zh_lookup (df_services d) k = Some s \<Longrightarrow> service_ok s \<Longrightarrow> sv_name (f s) = sv_name s \<and> service_ok (f s)"
  shows "definition_wf (put_services (df_services_names d, zh_update k f (df_services d)) d)"
proof (rule put_services_wf [OF assms(1)])
  have ok: "services_ok d" using assms(1) by (simp add: definition_wf_def)
  then have "registered sv_name (df_services_names d) (zh_update k f (df_services d))"
    using assms(2) zh_lookup_SomeD [of "df_services d" k] by (intro registered_update) (auto simp: services_ok_def)
  moreover have "service_ok s" if "(k', s) \<in> set (zh_update k f (df_services d))" for k' s
    using that ok assms(2) zh_lookup_wf [of "df_services d"]
    by (auto simp: zh_update_def services_ok_def registered_def split: if_splits)
  ultimately show "services_ok (put_services (df_services_names d, zh_update k f (df_services d)) d)"
    by (auto simp: services_ok_def put_services_def)
qed

lemma on_service_wf:
  assumes "agent_wf a"
    and "\<And>d s. ag_definition a = Some d \<Longrightarrow> zh_lookup (df_services d) name = Some s \<Longrightarrow> service_ok s \<Longrightarrow>
           sv_name (f s) = sv_name s \<and> service_ok (f s)"
  shows "agent_wf (on_service name f a)"
  using assms service_update_wf by (auto simp: agent_wf_def on_service_def)

lemma service_changed_wf:
  assumes "service_changed name f a = Some (r, a')" and "agent_wf a"
    and "\<And>s. service_ok s \<Longrightarrow> sv_name (f s) = sv_name s \<and> service_ok (f s)"
  shows "agent_wf a'"
proof -
  have "agent_wf (on_service name f a)" using assms(2,3) by (intro on_service_wf)
  with assms(1) show ?thesis by (auto simp: service_changed_def bind_some_eqs dest: definition_changed_wf)
qed

text \<open>Changes of one service that keep its name and its replies, and changes of the replies.\<close>

lemma service_ok_fields [simp]:
  "service_ok (s\<lparr> sv_description := x \<rparr>) = service_ok s" "service_ok (s\<lparr> sv_arguments := as \<rparr>) = service_ok s"
  "service_ok (s\<lparr> sv_cb := cb, sv_cb_data := n \<rparr>) = service_ok s"
  by (simp_all add: service_ok_def)

lemma service_ok_new [simp]: "service_ok (new_service n)" "sv_name (new_service n) = n"
  by (simp_all add: service_ok_def new_service_def)

lemma service_ok_on_reply [simp]:
  "service_ok s \<Longrightarrow> (\<And>r. rp_name (f r) = rp_name r) \<Longrightarrow> service_ok (on_reply n f s)" "sv_name (on_reply n f s) = sv_name s"
  by (simp_all add: service_ok_def on_reply_def put_replies_def registered_update)

lemma service_ok_remove_reply [simp]:
  "service_ok s \<Longrightarrow> service_ok (put_replies (reg_remove n (sv_replies_names s, sv_replies s)) s)"
  by (simp add: service_ok_def put_replies_def reg_remove_def registered_remove)

lemma sv_name_put_replies [simp]: "sv_name (put_replies r s) = sv_name s"
  by (simp add: put_replies_def)

lemma service_ok_add_reply:
  "service_ok s \<Longrightarrow> zh_lookup (sv_replies s) n = None \<Longrightarrow>
     service_ok (put_replies (reg_add n (new_reply n) (sv_replies_names s, sv_replies s)) s)"
  by (simp add: service_ok_def put_replies_def reg_add_def registered_add new_reply_def)

lemma strndup_str_no_nul: "strndup_str s n = Some v \<Longrightarrow> no_nul v"
  by (auto simp: strndup_str_def bind_some_eqs dest: rd_cstr_no_nul)

lemma with_service_cases:
  assumes "with_service name dflt f a = Some (r, a')"
  obtains "a' = a" "r = dflt" | d s where "ag_definition a = Some d" "zh_lookup (df_services d) name = Some s" "f s a = Some (r, a')"
  using assms by (auto simp: with_service_def bind_some_eqs split: option.splits)

lemma with_reply_cases:
  assumes "with_reply name rname dflt f a = Some (r, a')"
  obtains "a' = a" "r = dflt" | d s rp where "ag_definition a = Some d" "zh_lookup (df_services d) name = Some s"
    "zh_lookup (sv_replies s) rname = Some rp" "f rp a = Some (r, a')"
  using assms by (auto simp: with_reply_def elim!: with_service_cases split: option.splits)

text \<open>The name of a new service or reply is what the public functions check: short enough and without NUL.\<close>

lemma service_init_wf:
  assumes "agent_wf a" and i: "service_init_body name cb my_data a = Some (r, a')"
    and n: "strndup_str name IGS_MAX_SERVICE_NAME_LENGTH = Some name"
  shows "agent_wf a'"
proof -
  obtain d where d: "ag_definition a = Some d" using i by (auto simp: service_init_body_def bind_some_eqs)
  have init: "agent_wf (on_service k (\<lambda>s. s\<lparr> sv_cb := Some cb, sv_cb_data := my_data \<rparr>) b)" if "agent_wf b" for k b
    using that by (rule on_service_wf) simp
  show ?thesis
  proof (cases "zh_lookup (df_services d) name")
    case (Some s)
    with d i assms(1) init show ?thesis by (auto simp: service_init_body_def split: if_splits)
  next
    case None
    then obtain b where b:
      "definition_changed (a\<lparr> ag_definition := Some (put_services (reg_add name (new_service name) (df_services_names d, df_services d)) d) \<rparr>) = Some b"
      "a' = on_service name (\<lambda>s. s\<lparr> sv_cb := Some cb, sv_cb_data := my_data \<rparr>) b"
      using d i n by (auto simp: service_init_body_def bind_some_eqs)
    have "definition_wf (put_services (reg_add name (new_service name) (df_services_names d, df_services d)) d)"
      using service_add_wf [of d "new_service name"] None assms(1) d by (simp add: agent_wf_def)
    then have "agent_wf b" using definition_changed_wf [OF b(1)] by (simp add: agent_wf_def)
    then show ?thesis unfolding b(2) by (rule init)
  qed
qed

lemma reply_add_wf:
  assumes "agent_wf a" and i: "reply_add_body sname name a = Some (r, a')"
    and n: "strndup_str name IGS_MAX_SERVICE_NAME_LENGTH = Some name"
  shows "agent_wf a'"
  using i unfolding reply_add_body_def
proof (rule with_service_cases)
  fix d s
  assume d: "ag_definition a = Some d" "zh_lookup (df_services d) sname = Some s"
    and b: "(case zh_lookup (sv_replies s) name of
       Some r \<Rightarrow> Some (IGS_FAILURE, a)
     | None \<Rightarrow>
         do { n \<leftarrow> strndup_str name IGS_MAX_SERVICE_NAME_LENGTH;
              service_changed sname (\<lambda>s. put_replies (reg_add n (new_reply n) (sv_replies_names s, sv_replies s)) s) a })
      = Some (r, a')"
  show ?thesis
  proof (cases "zh_lookup (sv_replies s) name")
    case None
    with b n have c: "service_changed sname (\<lambda>s. put_replies (reg_add name (new_reply name) (sv_replies_names s, sv_replies s)) s) a
      = Some (r, a')" by simp
    have "agent_wf (on_service sname (\<lambda>s. put_replies (reg_add name (new_reply name) (sv_replies_names s, sv_replies s)) s) a)"
      using d None by (intro on_service_wf assms(1)) (auto simp: service_ok_add_reply)
    with c show ?thesis by (auto simp: service_changed_def bind_some_eqs dest: definition_changed_wf)
  qed (use b assms(1) in simp)
qed (use assms(1) in simp)

lemmas service_bodies = service_remove_body_def service_describe_body_def arg_add_body_def arg_remove_body_def
  arg_describe_body_def reply_remove_body_def reply_describe_body_def reply_arg_add_body_def
  reply_arg_remove_body_def reply_arg_describe_body_def

lemma service_remove_body_wf: "agent_wf a \<Longrightarrow> service_remove_body name a = Some (r, a') \<Longrightarrow> agent_wf a'"
  using service_remove_wf
  by (auto simp: service_remove_body_def bind_some_eqs agent_wf_def elim!: with_service_cases dest!: definition_changed_wf)

lemma service_bodies_wf:
  "agent_wf a \<Longrightarrow> service_describe_body name descr a = Some (r, a') \<Longrightarrow> agent_wf a'"
  "agent_wf a \<Longrightarrow> arg_add_body name arg t a = Some (r, a') \<Longrightarrow> agent_wf a'"
  "agent_wf a \<Longrightarrow> arg_remove_body name arg a = Some (r, a') \<Longrightarrow> agent_wf a'"
  "agent_wf a \<Longrightarrow> arg_describe_body name arg descr a = Some (r, a') \<Longrightarrow> agent_wf a'"
  by (auto simp: service_bodies bind_some_eqs elim!: with_service_cases service_changed_wf split: option.splits)

lemma reply_bodies_wf:
  "agent_wf a \<Longrightarrow> reply_remove_body name reply a = Some (r, a') \<Longrightarrow> agent_wf a'"
  "agent_wf a \<Longrightarrow> reply_describe_body name reply descr a = Some (r, a') \<Longrightarrow> agent_wf a'"
  "agent_wf a \<Longrightarrow> reply_arg_add_body name reply arg t a = Some (r, a') \<Longrightarrow> agent_wf a'"
  "agent_wf a \<Longrightarrow> reply_arg_remove_body name reply arg a = Some (r, a') \<Longrightarrow> agent_wf a'"
  "agent_wf a \<Longrightarrow> reply_arg_describe_body name reply arg descr a = Some (r, a') \<Longrightarrow> agent_wf a'"
  by (auto simp: service_bodies bind_some_eqs elim!: with_reply_cases service_changed_wf split: option.splits if_splits)

interpretation service_remove_law: agent_law agent_wf "service_remove_body name" for name
  by unfold_locales (rule service_remove_body_wf)

interpretation service_describe_law: agent_law agent_wf "service_describe_body name descr" for name descr
  by unfold_locales (rule service_bodies_wf)

interpretation arg_add_law: agent_law agent_wf "arg_add_body name arg t" for name arg t
  by unfold_locales (rule service_bodies_wf)

interpretation arg_remove_law: agent_law agent_wf "arg_remove_body name arg" for name arg
  by unfold_locales (rule service_bodies_wf)

interpretation arg_describe_law: agent_law agent_wf "arg_describe_body name arg descr" for name arg descr
  by unfold_locales (rule service_bodies_wf)

interpretation reply_remove_law: agent_law agent_wf "reply_remove_body name reply" for name reply
  by unfold_locales (rule reply_bodies_wf)

interpretation reply_describe_law: agent_law agent_wf "reply_describe_body name reply descr" for name reply descr
  by unfold_locales (rule reply_bodies_wf)

interpretation reply_arg_add_law: agent_law agent_wf "reply_arg_add_body name reply arg t" for name reply arg t
  by unfold_locales (rule reply_bodies_wf)

interpretation reply_arg_remove_law: agent_law agent_wf "reply_arg_remove_body name reply arg" for name reply arg
  by unfold_locales (rule reply_bodies_wf)

interpretation reply_arg_describe_law: agent_law agent_wf "reply_arg_describe_body name reply arg descr" for name reply arg descr
  by unfold_locales (rule reply_bodies_wf)

section \<open>Services as a map from names\<close>

definition services_of :: "igs_agent \<Rightarrow> string \<Rightarrow> igs_service option" where
  "services_of a = (case ag_definition a of None \<Rightarrow> (\<lambda>n. None) | Some d \<Rightarrow> zh_lookup (df_services d))"

definition service_names_of :: "igs_agent \<Rightarrow> string list" where
  "service_names_of a = (case ag_definition a of None \<Rightarrow> [] | Some d \<Rightarrow> df_services_names d)"

lemma definition_changed_services:
  assumes "definition_changed a = Some a'" and "agent_wf a"
  shows "services_of a' = services_of a" "service_names_of a' = service_names_of a"
proof -
  obtain d where d: "ag_definition a = Some d" using assms(1) by (auto simp: definition_changed_def bind_some_eqs)
  then have "a' = a\<lparr> ag_definition := Some (refreshed d), ag_need_definition_update := True \<rparr>"
    using assms by (simp add: definition_changed_result agent_wf_def)
  with d show "services_of a' = services_of a" "service_names_of a' = service_names_of a"
    by (simp_all add: services_of_def service_names_of_def)
qed

lemma services_of_on_service:
  "services_of (on_service name f a) = (services_of a)(name := map_option f (services_of a name))"
  "service_names_of (on_service name f a) = service_names_of a"
  "ios_of t (on_service name f a) = ios_of t a" "names_of t (on_service name f a) = names_of t a"
  by (auto simp: services_of_def service_names_of_def on_service_def put_services_def fun_eq_iff table_simps
      ios_of_def names_of_def model_find_io_by_name_def io_table_def io_names_def split: option.splits igs_io_type.splits)

text \<open>A change of one service: that service, the JSON text, and nothing else.\<close>

lemma service_changed_result:
  assumes "agent_wf a" and "services_of a name = Some s"
    and "\<And>s. service_ok s \<Longrightarrow> sv_name (f s) = sv_name s \<and> service_ok (f s)"
  shows "\<exists>a'. service_changed name f a = Some (IGS_SUCCESS, a') \<and> services_of a' = (services_of a)(name \<mapsto> f s)
    \<and> service_names_of a' = service_names_of a \<and> (\<forall>t. ios_of t a' = ios_of t a \<and> names_of t a' = names_of t a)
    \<and> json_fresh a' \<and> ag_need_definition_update a' \<and> agent_wf a'"
proof -
  have wf: "agent_wf (on_service name f a)" using assms(1,3) by (intro on_service_wf)
  obtain d where "ag_definition (on_service name f a) = Some d"
    using assms(2) by (auto simp: services_of_def on_service_def split: option.splits)
  then obtain a' where a': "definition_changed (on_service name f a) = Some a'"
    using definition_changed_defined [OF _ wf] by blast
  with definition_changed_services [OF a' wf] definition_changed_maps [OF a' wf] definition_changed_wf [OF a' wf] assms(2)
  show ?thesis by (simp add: service_changed_def services_of_on_service)
qed

lemma with_service_found:
  "services_of a name = Some s \<Longrightarrow> with_service name dflt f a = f s a"
  by (auto simp: services_of_def with_service_def split: option.splits)

lemma with_service_missing:
  "services_of a name = None \<Longrightarrow> ag_definition a \<noteq> None \<Longrightarrow> with_service name dflt f a = Some (dflt, a)"
  by (auto simp: services_of_def with_service_def split: option.splits)

lemma with_reply_found:
  "services_of a name = Some s \<Longrightarrow> zh_lookup (sv_replies s) rn = Some rp \<Longrightarrow> with_reply name rn dflt f a = f rp a"
  by (simp add: with_reply_def with_service_found)

lemma arg_add_result:
  assumes "agent_wf a" and "services_of a name = Some s" and "no_nul arg" and "length arg \<le> IGS_MAX_SERVICE_ARG_NAME_LENGTH"
  shows "\<exists>a'. arg_add_body name arg t a = Some (IGS_SUCCESS, a')
    \<and> services_of a' = (services_of a)(name \<mapsto> s\<lparr> sv_arguments := sv_arguments s @ [new_arg arg t] \<rparr>)
    \<and> service_names_of a' = service_names_of a \<and> (\<forall>t. ios_of t a' = ios_of t a \<and> names_of t a' = names_of t a)
    \<and> json_fresh a' \<and> ag_need_definition_update a' \<and> agent_wf a'"
  using service_changed_result [OF assms(1,2), of "\<lambda>s. s\<lparr> sv_arguments := sv_arguments s @ [new_arg arg t] \<rparr>"] assms(2-4)
  by (simp add: arg_add_body_def with_service_found)

section \<open>The search of an argument\<close>

definition args_named :: "igs_service_arg list \<Rightarrow> bool" where
  "args_named as \<longleftrightarrow> (\<forall>a \<in> set as. sa_name a \<noteq> None)"

lemma find_arg_first:
  "args_named as \<Longrightarrow> find_arg n as = Some (Some i) \<Longrightarrow>
     i < length as \<and> sa_name (as ! i) = Some n \<and> (\<forall>j < i. sa_name (as ! j) \<noteq> Some n)"
proof (induction as arbitrary: i)
  case (Cons a as)
  show ?case
  proof (cases "sa_name a = Some n")
    case False
    with Cons.prems(2) obtain m j where m: "sa_name a = Some m" "m \<noteq> n" "find_arg n as = Some (Some j)" "i = Suc j"
      by (auto simp: bind_some_eqs split: if_splits)
    then have "j < length as \<and> sa_name (as ! j) = Some n \<and> (\<forall>k < j. sa_name (as ! k) \<noteq> Some n)"
      using Cons by (simp add: args_named_def)
    with m show ?thesis by (simp add: All_less_Suc2)
  qed (use Cons.prems in simp)
qed simp

lemma find_arg_none:
  "args_named as \<Longrightarrow> find_arg n as = Some None \<longleftrightarrow> (\<forall>a \<in> set as. sa_name a \<noteq> Some n)"
  by (induction as) (auto simp: args_named_def bind_some_eqs)

lemma find_arg_defined: "args_named as \<Longrightarrow> find_arg n as \<noteq> None"
  by (induction as) (auto simp: args_named_def)

section \<open>The arrays of names\<close>

lemma name_array_fits:
  assumes "registered nm ns t" shows "name_array (length t) ns = Some (if t = [] then (None, 0) else (Some (map Some ns), length ns))"
proof -
  have "length ns = card (set ns)" using assms by (simp add: registered_def flip: distinct_card)
  also have "set ns = set (map fst t)" using assms by (simp add: registered_def)
  also have "card (set (map fst t)) = length (map fst t)"
    using assms by (intro distinct_card) (simp add: registered_def zh_wf_def)
  also have "\<dots> = length t" by simp
  finally show ?thesis by (simp add: name_array_def)
qed

text \<open>A reply that is parsed twice is twice among the names: the array is too short.\<close>

lemma name_array_overflow: "t \<noteq> [] \<Longrightarrow> length t < length ns \<Longrightarrow> name_array (length t) ns = None"
  by (simp add: name_array_def)

end
