(* ===== verification/Igs_Service_Call.thy ===== *)
theory Igs_Service_Call
  imports Igs_Service_Laws
begin

text \<open>
  Calls of services: \<open>igsagent_service_call\<close> of src/src/igs_service.c on the side of the
  caller, and the handler of the message \<open>SERVICE\<close> in \<open>s_manage_zyre_incoming\<close> of
  src/src/igs_network.c on the side of the callee. The callee's function is a
  callback of the application and runs with the mutex free. Logging is left out.
\<close>

section \<open>The message of a call\<close>

text \<open>A boolean is sent as four bytes of its union, which is zero outside its first byte.\<close>

definition arg_frame :: "igs_service_arg \<Rightarrow> string option" where
  "arg_frame a =
     (case sa_type a of
        IGS_BOOL_T \<Rightarrow> Some (wr_int (of_bool_i32 (sa_b a)))
      | IGS_INTEGER_T \<Rightarrow> Some (wr_int (sa_i a))
      | IGS_DOUBLE_T \<Rightarrow> Some (wr_double (sa_d a))
      | IGS_STRING_T \<Rightarrow>
          (case sa_c a of None \<Rightarrow> Some []
           | Some m \<Rightarrow> if sa_size a = 0 then Some [] else do { s \<leftarrow> rd_cstr m; Some (wr_cstr s) })
      | IGS_DATA_T \<Rightarrow> copy_from (sa_data a) (sa_size a)
      | _ \<Rightarrow> None)"

fun arg_frames :: "igs_service_arg list \<Rightarrow> string list option" where
  "arg_frames [] = Some []"
| "arg_frames (a # as) = do { f \<leftarrow> arg_frame a; fs \<leftarrow> arg_frames as; Some (f # fs) }"

definition call_title :: "igs_remote_agent \<Rightarrow> string option" where
  "call_title ra =
     (case pe_protocol (ra_peer ra) of
        Some pr \<Rightarrow> if pr = ''v2'' \<or> pr = ''v3'' then do { d \<leftarrow> ra_definition ra; Some ''CALL'' } else Some ''SERVICE''
      | None \<Rightarrow> Some ''SERVICE'')"

definition call_message ::
    "igs_agent \<Rightarrow> igs_remote_agent \<Rightarrow> string \<Rightarrow> string option \<Rightarrow> igs_service_arg list \<Rightarrow> int \<Rightarrow> string list option" where
  "call_message a ra service_name token args us =
     do { title \<leftarrow> call_title ra;
          u \<leftarrow> ag_uuid a;
          fs \<leftarrow> arg_frames args;
          Some ([title, u, ra_uuid ra, service_name, (case token of None \<Rightarrow> [] | Some t \<Rightarrow> t)] @ fs
            @ (if ag_rt_timestamps_enabled a then [wr_int64 us] else [])) }"

section \<open>The caller\<close>

definition call_time :: "app_env \<Rightarrow> igs_agent \<Rightarrow> igs_core \<Rightarrow> int" where
  "call_time env a c =
     (if ag_rt_timestamps_enabled a then
        (if ag_context a \<and> cx_rt_current_microseconds c \<noteq> INT64_MIN then cx_rt_current_microseconds c else clock_us env)
      else INT64_MIN)"

definition remote_matches :: "igs_remote_agent \<Rightarrow> string \<Rightarrow> bool option" where
  "remote_matches ra target =
     (case ra_definition ra of
        None \<Rightarrow> Some (ra_uuid ra = target)
      | Some d \<Rightarrow> do { n \<leftarrow> df_name d; Some (n = target \<or> ra_uuid ra = target) })"

definition call_shout :: "igs_agent \<Rightarrow> igs_definition option \<Rightarrow> string \<Rightarrow> string \<Rightarrow> igs_event option" where
  "call_shout a callee callee_uuid service_name =
     do { ch \<leftarrow> ag_igs_channel a; d \<leftarrow> ag_definition a; n \<leftarrow> df_name d; u \<leftarrow> ag_uuid a;
          cd \<leftarrow> callee; cn \<leftarrow> df_name cd;
          Some (Zyre_Shouts ch (''SERVICE '' @ n @ ''('' @ u @ '') called '' @ cn @ ''.'' @ service_name
            @ ''('' @ callee_uuid @ '')'')) }"

text \<open>The name of the remote agent is read for the announcement, whether it has a definition or not.\<close>

fun call_remotes ::
    "igs_agent \<Rightarrow> string \<Rightarrow> string \<Rightarrow> igs_service_arg list \<Rightarrow> string option \<Rightarrow> int \<Rightarrow> igs_remote_agent list \<Rightarrow> bool
     \<Rightarrow> igs_core \<Rightarrow> (bool \<times> igs_core) option" where
  "call_remotes a target service_name args token us [] found c = Some (found, c)"
| "call_remotes a target service_name args token us (ra # ras) found c =
     do { m \<leftarrow> remote_matches ra target;
          if m then do {
            msg \<leftarrow> call_message a ra service_name token args us;
            e \<leftarrow> call_shout a (ra_definition ra) (ra_uuid ra) service_name;
            call_remotes a target service_name args token us ras True
              (emit (Zyre_Whisper (pe_peer_id (ra_peer ra)) msg) (emit e c)) }
          else call_remotes a target service_name args token us ras found c }"

definition put_timestamp :: "addr \<Rightarrow> int \<Rightarrow> igs_core \<Rightarrow> igs_core option" where
  "put_timestamp p us c = do { a \<leftarrow> deref p c; Some (store p (a\<lparr> ag_rt_current_timestamp := us \<rparr>) c) }"

text \<open>One call of an agent of the same process, by the agent at \<open>p\<close> to the one at \<open>q\<close>.\<close>

definition call_local ::
    "app_env \<Rightarrow> addr \<Rightarrow> addr \<Rightarrow> string \<Rightarrow> igs_service_arg list \<Rightarrow> string option \<Rightarrow> int \<Rightarrow> igs_service \<Rightarrow> igs_core \<Rightarrow> igs_core option" where
  "call_local env p q service_name args token us s c =
     do { c \<leftarrow> put_timestamp p us c;
          a \<leftarrow> deref p c;
          la \<leftarrow> deref q c;
          lu \<leftarrow> ag_uuid la;
          c \<leftarrow> (if cx_node c then do { e \<leftarrow> call_shout a (ag_definition la) lu service_name; Some (emit e c) } else Some c);
          (_, c) \<leftarrow> unlocked (\<lambda>c.
            case (ag_uuid a, sv_cb s) of
              (Some u, Some cb) \<Rightarrow>
                do { d \<leftarrow> ag_definition a;
                     c \<leftarrow> call_service env cb q (df_name d) u service_name args (length args) token (sv_cb_data s) c;
                     Some ((), c) }
            | _ \<Rightarrow> Some ((), c)) c;
          put_timestamp p INT64_MIN c }"

text \<open>
  The loop over a copy of the list of local agents. It ends at the first one that was
  destroyed meanwhile (its uuid is NULL).
\<close>

fun call_locals ::
    "app_env \<Rightarrow> addr \<Rightarrow> string \<Rightarrow> string \<Rightarrow> igs_service_arg list \<Rightarrow> string option \<Rightarrow> int \<Rightarrow> addr list \<Rightarrow> bool
     \<Rightarrow> igs_core \<Rightarrow> (bool \<times> igs_core) option" where
  "call_locals env p target service_name args token us [] found c = Some (found, c)"
| "call_locals env p target service_name args token us (q # qs) found c =
     do { la \<leftarrow> deref q c;
          case ag_uuid la of
            None \<Rightarrow> Some (found, c)
          | Some lu \<Rightarrow>
              do { d \<leftarrow> ag_definition la;
                   n \<leftarrow> df_name d;
                   if n = target \<or> lu = target then
                     do { c \<leftarrow> (case zh_lookup (df_services d) service_name of
                                 None \<Rightarrow> Some c
                               | Some s \<Rightarrow> if length args \<noteq> length (sv_arguments s) then Some c
                                           else call_local env p q service_name args token us s c);
                          call_locals env p target service_name args token us qs True c }
                   else call_locals env p target service_name args token us qs found c } }"

definition service_call_body ::
    "app_env \<Rightarrow> addr \<Rightarrow> string \<Rightarrow> string \<Rightarrow> igs_service_arg list \<Rightarrow> string option \<Rightarrow> igs_result core_op" where
  "service_call_body env p target service_name args token c =
     do { a \<leftarrow> deref p c;
          let us = call_time env a c;
          (found, c) \<leftarrow> (if ag_context a \<and> cx_node c
             then call_remotes a target service_name args token us (map snd (cx_remote_agents c)) False c
             else Some (False, c));
          (found, c) \<leftarrow> (if ag_context a \<and> ag_uuid a \<noteq> None \<and> \<not> ag_is_virtual a
             then call_locals env p target service_name args token us (map snd (cx_agents c)) found c
             else Some (found, c));
          a \<leftarrow> deref p c;
          Some (if \<not> ag_context a \<or> \<not> found then IGS_FAILURE else IGS_SUCCESS, c) }"

text \<open>No list, or a list that is not empty; the list is destroyed by the call.\<close>

definition igsagent_service_call ::
    "app_env \<Rightarrow> addr \<Rightarrow> string \<Rightarrow> string \<Rightarrow> igs_service_arg list option \<Rightarrow> string option \<Rightarrow> igs_result core_op" where
  "igsagent_service_call env p target service_name args token = with_agent p IGS_FAILURE (\<lambda>c.
     do { c_assert (args \<noteq> Some []);
          locked (service_call_body env p target service_name (case args of None \<Rightarrow> [] | Some as \<Rightarrow> as) token) c })"

section \<open>The callee\<close>

text \<open>\<open>zmsg_popstr\<close>: the bytes of the frame, as the C string that is made of them.\<close>

definition popstr :: "string list \<Rightarrow> (string \<times> string list) option" where
  "popstr fs = (case fs of [] \<Rightarrow> None | f # r \<Rightarrow> Some (takeWhile (\<lambda>ch. ch \<noteq> CHR 0x00) f, r))"

definition rd_int64 :: "string \<Rightarrow> int" where
  "rd_int64 m = sint (of_nat (le_nat (take 8 m)) :: 64 word)"

text \<open>
  What follows the arguments: nothing, or a timestamp of eight bytes. \<open>None\<close> for
  anything else, and then the service is not called.
\<close>

definition trailing_timestamp :: "string list \<Rightarrow> int option" where
  "trailing_timestamp rest = (case rest of [] \<Rightarrow> Some INT64_MIN
     | f # _ \<Rightarrow> if length f = 8 then Some (rd_int64 f) else None)"

definition deliver_call ::
    "app_env \<Rightarrow> addr \<Rightarrow> string \<Rightarrow> string \<Rightarrow> string \<Rightarrow> string \<Rightarrow> igs_service \<Rightarrow> igs_service_arg list \<Rightarrow> string list
     \<Rightarrow> igs_core \<Rightarrow> igs_core option" where
  "deliver_call env q caller_name caller_uuid service_name token s args rest c =
     do { c \<leftarrow> put_timestamp q INT64_MIN c;
          c \<leftarrow> (case trailing_timestamp rest of
                 None \<Rightarrow> Some c
               | Some us \<Rightarrow>
                   do { c \<leftarrow> put_timestamp q us c;
                        la \<leftarrow> deref q c;
                        (_, c) \<leftarrow> unlocked (\<lambda>c.
                          case (ag_uuid la, sv_cb s) of
                            (Some u, Some cb) \<Rightarrow>
                              do { c \<leftarrow> call_service env cb q (Some caller_name) caller_uuid service_name args
                                         (length (sv_arguments s)) (Some token) (sv_cb_data s) c;
                                   Some ((), c) }
                          | _ \<Rightarrow> Some ((), c)) c;
                        Some c });
          la \<leftarrow> deref q c;
          if ag_uuid la = None then Some c else put_timestamp q INT64_MIN c }"

definition callee_shout :: "string \<Rightarrow> string \<Rightarrow> string \<Rightarrow> string \<Rightarrow> igs_event" where
  "callee_shout ch service_name caller_name caller_uuid =
     Zyre_Shouts ch (''CALLED '' @ service_name @ '' from '' @ caller_name @ '' ('' @ caller_uuid @ '')'')"

definition service_to_callee ::
    "app_env \<Rightarrow> string list \<Rightarrow> addr \<Rightarrow> string \<Rightarrow> string \<Rightarrow> string \<Rightarrow> string \<Rightarrow> string list \<Rightarrow> igs_core \<Rightarrow> igs_core option" where
  "service_to_callee env msg q caller_name caller_uuid service_name token rest c =
     do { la \<leftarrow> deref q c;
          case ag_definition la of
            None \<Rightarrow> Some c
          | Some d \<Rightarrow>
              (case zh_lookup (df_services d) service_name of
                 None \<Rightarrow> Some c
               | Some s \<Rightarrow>
                   do { ch \<leftarrow> ag_igs_channel la;
                        let c = emit (callee_shout ch service_name caller_name caller_uuid) c;
                        if length msg < length (sv_arguments s) then Some c
                        else do { (r, args, rest) \<leftarrow> service_make_values_to_arguments_from_message s rest;
                                  if r = IGS_SUCCESS
                                  then deliver_call env q caller_name caller_uuid service_name token s args rest c
                                  else Some c } }) }"

text \<open>The name of the caller: that of its definition when the agent is known, else that of its peer.\<close>

definition caller_name_of :: "string \<Rightarrow> string \<Rightarrow> igs_core \<Rightarrow> string option" where
  "caller_name_of peer_name caller_uuid c =
     (case zh_lookup (cx_remote_agents c) caller_uuid of
        None \<Rightarrow> Some peer_name
      | Some ra \<Rightarrow> do { d \<leftarrow> ra_definition ra; df_name d })"

definition handle_call_service :: "app_env \<Rightarrow> string \<Rightarrow> string list \<Rightarrow> unit core_op" where
  "handle_call_service env peer_name msg c =
     (case popstr (tl msg) of
        None \<Rightarrow> Some ((), c)
      | Some (caller_uuid, r) \<Rightarrow>
     (case popstr r of
        None \<Rightarrow> Some ((), c)
      | Some (callee_uuid, r) \<Rightarrow>
          locked (\<lambda>c.
            do { caller_name \<leftarrow> caller_name_of peer_name caller_uuid c;
                 case zh_lookup (cx_agents c) callee_uuid of
                   None \<Rightarrow> Some ((), c)
                 | Some q \<Rightarrow>
                (case popstr r of
                   None \<Rightarrow> Some ((), c)
                 | Some (service_name, r) \<Rightarrow>
                (case popstr r of
                   None \<Rightarrow> Some ((), c)
                 | Some (token, r) \<Rightarrow>
                     do { c \<leftarrow> service_to_callee env msg q caller_name caller_uuid service_name token r c;
                          Some ((), c) })) }) c))"

end
