(* ===== verification/Igs_Service_Call_Laws.thy ===== *)
theory Igs_Service_Call_Laws
  imports Igs_Service_Call
begin

text \<open>
  What a call does: the frames a caller makes of its arguments are read back by the
  callee; a call that travels as a message reaches the function of the service with
  the values, the caller and the token of the call; calls keep the invariant of the
  agents as long as the callbacks do.
\<close>

section \<open>Arguments over the wire\<close>

text \<open>An argument as the application builds it with the \<open>args_add\<close> functions.\<close>

definition arg_ok :: "igs_service_arg \<Rightarrow> bool" where
  "arg_ok a \<longleftrightarrow>
     (case sa_type a of
        IGS_STRING_T \<Rightarrow> (case sa_c a of None \<Rightarrow> sa_size a = 0 | Some m \<Rightarrow> \<exists>s. no_nul s \<and> m = wr_cstr s \<and> sa_size a = length s + 1)
      | IGS_DATA_T \<Rightarrow> (case sa_data a of None \<Rightarrow> sa_size a = 0 | Some d \<Rightarrow> d \<noteq> [] \<and> sa_size a = length d)
      | IGS_IMPULSION_T \<Rightarrow> False
      | IGS_UNKNOWN_T \<Rightarrow> False
      | _ \<Rightarrow> True)"

lemma args_add_ok:
  "list_all arg_ok as \<Longrightarrow> list_all arg_ok (igs_service_args_add_int i as)"
  "list_all arg_ok as \<Longrightarrow> list_all arg_ok (igs_service_args_add_bool b as)"
  "list_all arg_ok as \<Longrightarrow> list_all arg_ok (igs_service_args_add_double d as)"
  "list_all arg_ok as \<Longrightarrow> (\<And>s. v = Some s \<Longrightarrow> no_nul s) \<Longrightarrow> list_all arg_ok (igs_service_args_add_string v as)"
  by (auto simp: igs_service_args_add_int_def igs_service_args_add_bool_def igs_service_args_add_double_def
      igs_service_args_add_string_def arg_ok_def zero_arg_def split: option.splits)

lemma args_add_data_ok:
  "list_all arg_ok as \<Longrightarrow> igs_service_args_add_data v n as = Some as' \<Longrightarrow> list_all arg_ok as'"
  by (auto simp: igs_service_args_add_data_def arg_ok_def zero_arg_def bind_some_eqs copy_bytes_length
      copy_bytes_nonempty split: option.splits if_splits)

text \<open>What the callee makes of an argument: the name it declared, the type and the value sent.\<close>

definition received :: "igs_service_arg \<Rightarrow> igs_service_arg \<Rightarrow> igs_service_arg" where
  "received formal a =
     (let new = zero_arg\<lparr> sa_name := sa_name formal, sa_type := sa_type a,
                  sa_size := (if sa_type a = IGS_BOOL_T \<or> sa_type a = IGS_INTEGER_T then 4
                              else if sa_type a = IGS_DOUBLE_T then 8 else sa_size a) \<rparr>
      in case sa_type a of
           IGS_BOOL_T \<Rightarrow> new\<lparr> sa_b := sa_b a \<rparr>
         | IGS_INTEGER_T \<Rightarrow> new\<lparr> sa_i := sa_i a \<rparr>
         | IGS_DOUBLE_T \<Rightarrow> new\<lparr> sa_d := sa_d a \<rparr>
         | IGS_STRING_T \<Rightarrow> new\<lparr> sa_c := sa_c a \<rparr>
         | IGS_DATA_T \<Rightarrow> new\<lparr> sa_data := sa_data a \<rparr>
         | _ \<Rightarrow> new)"

lemma rd_bool_of_int: "rd_bool (wr_int (of_bool_i32 b)) = Some b"
proof -
  have four: "(4 :: nat) = Suc 3" by simp
  have "wr_int (of_bool_i32 b) = char_of (unat (of_bool_i32 b) mod 256) # le_bytes 3 (unat (of_bool_i32 b) div 256)"
    unfolding wr_int_def four le_bytes.simps ..
  then show ?thesis by (cases b) (simp_all add: rd_bool_def of_bool_i32_def char_of_def bit_0)
qed

lemma arg_frame_received:
  assumes "arg_ok a" and "sa_type formal = sa_type a"
  shows "\<exists>f. arg_frame a = Some f \<and> arg_from_frame formal f = Some (received formal a)"
proof (cases "sa_type a")
  case IGS_STRING_T
  show ?thesis
  proof (cases "sa_c a")
    case None
    with assms IGS_STRING_T show ?thesis
      by (simp add: arg_ok_def arg_frame_def arg_from_frame_def received_def zero_arg_def)
  next
    case (Some m)
    with assms IGS_STRING_T obtain s where "no_nul s" "m = wr_cstr s" "sa_size a = length s + 1"
      by (auto simp: arg_ok_def)
    with assms IGS_STRING_T Some show ?thesis
      by (simp add: arg_frame_def arg_from_frame_def received_def) (simp add: wr_cstr_def zero_arg_def)
  qed
next
  case IGS_DATA_T
  with assms show ?thesis
    by (cases "sa_data a") (auto simp: arg_ok_def arg_frame_def arg_from_frame_def received_def copy_from_def copy_bytes_def
        Let_def zero_arg_def)
next
  case IGS_BOOL_T
  with assms show ?thesis by (simp add: arg_frame_def arg_from_frame_def received_def rd_bool_of_int)
next
  case IGS_INTEGER_T
  with assms show ?thesis by (simp add: arg_frame_def arg_from_frame_def received_def)
next
  case IGS_DOUBLE_T
  with assms show ?thesis by (simp add: arg_frame_def arg_from_frame_def received_def)
qed (use assms in \<open>simp_all add: arg_ok_def\<close>)

lemma args_received:
  "list_all2 (\<lambda>x a. sa_type x = sa_type a \<and> sa_name x \<noteq> None) formals args \<Longrightarrow> list_all arg_ok args \<Longrightarrow>
     \<exists>fs. arg_frames args = Some fs \<and> length fs = length args
       \<and> args_from_frames acc formals (fs @ rest) = Some (IGS_SUCCESS, acc @ map2 received formals args, rest)"
proof (induction args arbitrary: formals acc)
  case (Cons a args)
  from Cons.prems(1) obtain x xs where x: "formals = x # xs" "sa_type x = sa_type a" "sa_name x \<noteq> None"
    "list_all2 (\<lambda>x a. sa_type x = sa_type a \<and> sa_name x \<noteq> None) xs args"
    by (auto simp: list_all2_Cons2)
  obtain f where f: "arg_frame a = Some f" "arg_from_frame x f = Some (received x a)"
    using arg_frame_received [OF _ x(2)] Cons.prems(2) by auto
  from Cons.IH [OF x(4), of "acc @ [received x a]"] Cons.prems(2) f x(1,3) show ?case by auto
qed simp

text \<open>A message with too few frames is refused and no argument is made.\<close>

lemma args_from_frames_short:
  "args_from_frames acc formals fs = Some (r, as, rest) \<Longrightarrow>
     (if length fs < length formals then r = IGS_FAILURE \<and> as = [] else r = IGS_SUCCESS \<and> length as = length acc + length formals)"
  by (induction acc formals fs rule: args_from_frames.induct) (auto simp: bind_some_eqs split: if_splits)

lemma rd_wr_int64: "- (2 ^ 63) \<le> us \<Longrightarrow> us < 2 ^ 63 \<Longrightarrow> rd_int64 (wr_int64 us) = us"
proof -
  assume us: "- (2 ^ 63) \<le> us" "us < 2 ^ 63"
  have "nat (us mod 2 ^ 64) < 256 ^ 8" using pos_mod_bound [of "2 ^ 64" us] by (simp add: nat_less_iff)
  then have "le_nat (take 8 (wr_int64 us)) = nat (us mod 2 ^ 64)" by (simp add: wr_int64_def le_nat_le_bytes)
  then have "rd_int64 (wr_int64 us) = sint (word_of_int (us mod 2 ^ 64) :: 64 word)"
    by (simp add: rd_int64_def of_nat_nat)
  also have "(word_of_int (us mod 2 ^ 64) :: 64 word) = word_of_int us"
    by (simp add: word_of_int_eq_iff take_bit_eq_mod)
  also have "sint (word_of_int us :: 64 word) = us"
    using us by (simp add: sint_sbintrunc' signed_take_bit_int_eq_self)
  finally show ?thesis .
qed

lemma length_wr_int64 [simp]: "length (wr_int64 us) = 8"
  by (simp add: wr_int64_def)

section \<open>A call that travels as a message\<close>

lemma popstr_no_nul: "no_nul s \<Longrightarrow> popstr (s # fs) = Some (s, fs)"
  by (auto simp: popstr_def no_nul_def takeWhile_eq_all_conv)

lemma store_locked: "(store p a c)\<lparr> cx_model_locked := b \<rparr> = store p a (c\<lparr> cx_model_locked := b \<rparr>)"
  by (cases c) (simp add: store_def)

lemma trailing_timestamp_sent:
  assumes "- (2 ^ 63) \<le> us" and "us < 2 ^ 63" and "\<not> enabled \<longrightarrow> us = INT64_MIN"
  shows "trailing_timestamp (if enabled then [wr_int64 us] else []) = Some us"
  using assms by (simp add: trailing_timestamp_def rd_wr_int64)

lemma put_timestamp_frame:
  "put_timestamp p us c = Some c' \<Longrightarrow> \<exists>a. deref p c = Some a \<and> c' = store p (a\<lparr> ag_rt_current_timestamp := us \<rparr>) c"
  by (auto simp: put_timestamp_def bind_some_eqs)

text \<open>
  The callee of a message: its function gets the arguments, the caller and the token,
  and sees the timestamp of the call, with the mutex free; afterwards the timestamp
  is reset.
\<close>

lemma deliver_call_result:
  assumes "cx_model_locked c" and "deref q c = Some la" and "ag_uuid la = Some u" and "sv_cb s = Some cb"
    and "trailing_timestamp rest = Some us"
    and k: "call_service env cb q (Some cn) cu sname args (length (sv_arguments s)) (Some tok) (sv_cb_data s)
           (store q (la\<lparr> ag_rt_current_timestamp := us \<rparr>) (c\<lparr> cx_model_locked := False \<rparr>)) = Some c2"
    and "\<not> cx_model_locked c2" and "deref q c2 = Some la2"
  shows "deliver_call env q cn cu sname tok s args rest c = Some (
    if ag_uuid la2 = None then c2\<lparr> cx_model_locked := True \<rparr>
    else store q (la2\<lparr> ag_rt_current_timestamp := INT64_MIN \<rparr>) (c2\<lparr> cx_model_locked := True \<rparr>))"
proof -
  have p: "put_timestamp q x c = Some (store q (la\<lparr> ag_rt_current_timestamp := x \<rparr>) c)" for x
    using assms(2) by (simp add: put_timestamp_def)
  have p2: "put_timestamp q us (store q (la\<lparr> ag_rt_current_timestamp := x \<rparr>) c)
      = Some (store q (la\<lparr> ag_rt_current_timestamp := us \<rparr>) c)" for x
    by (simp add: put_timestamp_def) (simp add: store_def)
  have u: "unlocked op (store q b c) = do { (r, c) \<leftarrow> op (store q b (c\<lparr> cx_model_locked := False \<rparr>)); c \<leftarrow> model_lock c; Some (r, c) }"
    for op :: "unit core_op" and b
    using assms(1) by (simp add: unlocked_def model_unlock_def store_locked)
  have p3: "put_timestamp q INT64_MIN (c2\<lparr> cx_model_locked := True \<rparr>)
      = Some (store q (la2\<lparr> ag_rt_current_timestamp := INT64_MIN \<rparr>) (c2\<lparr> cx_model_locked := True \<rparr>))"
    using assms(8) by (simp add: put_timestamp_def)
  show ?thesis
    using assms(3-5,7,8) k
    by (simp add: deliver_call_def p p2 p3 u model_lock_def)
qed

lemma call_delivered:
  assumes args: "list_all2 (\<lambda>x a. sa_type x = sa_type a \<and> sa_name x \<noteq> None) (sv_arguments s) args" "list_all arg_ok args"
    and m: "call_message a ra sname (Some tok) args us = Some msg"
    and us: "- (2 ^ 63) \<le> us" "us < 2 ^ 63" "\<not> ag_rt_timestamps_enabled a \<longrightarrow> us = INT64_MIN"
    and caller: "ag_uuid a = Some cu" "no_nul cu" "no_nul (ra_uuid ra)" "no_nul sname" "no_nul tok"
    and callee: "\<not> cx_model_locked c" "zh_lookup (cx_agents c) (ra_uuid ra) = Some q" "deref q c = Some la" "ag_uuid la = Some lu"
      "ag_definition la = Some d" "zh_lookup (df_services d) sname = Some s" "sv_cb s = Some cb" "ag_igs_channel la = Some ch"
      "caller_name_of peer cu c = Some cn"
    and c1: "c1 = emit (callee_shout ch sname cn cu) c"
    and k: "call_service env cb q (Some cn) cu sname (map2 received (sv_arguments s) args) (length args) (Some tok) (sv_cb_data s)
           (store q (la\<lparr> ag_rt_current_timestamp := us \<rparr>) c1) = Some c2"
      "\<not> cx_model_locked c2" "deref q c2 = Some la2"
  shows "handle_call_service env peer msg c = Some ((),
    if ag_uuid la2 = None then c2 else store q (la2\<lparr> ag_rt_current_timestamp := INT64_MIN \<rparr>) c2)"
proof -
  let ?rest = "if ag_rt_timestamps_enabled a then [wr_int64 us] else []"
  obtain fs where fs: "arg_frames args = Some fs" "length fs = length args"
    "args_from_frames [] (sv_arguments s) (fs @ ?rest) = Some (IGS_SUCCESS, map2 received (sv_arguments s) args, ?rest)"
    using args_received [OF args, of "[]" ?rest] by auto
  obtain title where t: "call_title ra = Some title"
    "msg = [title, cu, ra_uuid ra, sname, tok] @ fs @ ?rest"
    using m fs(1) caller(1) by (auto simp: call_message_def bind_some_eqs)
  have len: "length (sv_arguments s) = length args" using args(1) by (rule list_all2_lengthD)
  let ?c = "c\<lparr> cx_model_locked := True \<rparr>"
  have ul: "(c1\<lparr> cx_model_locked := True \<rparr>)\<lparr> cx_model_locked := False \<rparr> = c1"
    using callee(1) c1 by (cases c) (simp add: emit_def)
  have em: "emit (callee_shout ch sname cn cu) ?c = c1\<lparr> cx_model_locked := True \<rparr>"
    using c1 by (simp add: emit_def)
  have d1: "deref q (c1\<lparr> cx_model_locked := True \<rparr>) = Some la" "deref q c1 = Some la"
    using callee(3) c1 by (simp_all add: emit_def deref_def)
  have "deliver_call env q cn cu sname tok s (map2 received (sv_arguments s) args) ?rest (c1\<lparr> cx_model_locked := True \<rparr>) = Some (
    if ag_uuid la2 = None then c2\<lparr> cx_model_locked := True \<rparr>
    else store q (la2\<lparr> ag_rt_current_timestamp := INT64_MIN \<rparr>) (c2\<lparr> cx_model_locked := True \<rparr>))"
    using k callee(4,7) len trailing_timestamp_sent [OF us]
    by (intro deliver_call_result) (simp_all add: ul d1)
  then have sc: "service_to_callee env msg q cn cu sname tok (fs @ ?rest) ?c = Some (
    if ag_uuid la2 = None then c2\<lparr> cx_model_locked := True \<rparr>
    else store q (la2\<lparr> ag_rt_current_timestamp := INT64_MIN \<rparr>) (c2\<lparr> cx_model_locked := True \<rparr>))"
    using callee(3,5,6,8) t(2) fs(2,3) len
    by (simp add: service_to_callee_def em service_make_values_to_arguments_from_message_def)
  obtain r where r: "r = fs @ ?rest" by blast
  have tail: "tl msg = cu # ra_uuid ra # sname # tok # r" using t(2) r by simp
  have look: "caller_name_of peer cu ?c = Some cn" "zh_lookup (cx_agents ?c) (ra_uuid ra) = Some q"
    using callee(2,9) by (simp_all add: caller_name_of_def)
  have l2: "c2\<lparr> cx_model_locked := False \<rparr> = c2" using k(2) by (cases c2) simp
  have "handle_call_service env peer msg c = locked (\<lambda>c.
      do { caller_name \<leftarrow> caller_name_of peer cu c;
           case zh_lookup (cx_agents c) (ra_uuid ra) of
             None \<Rightarrow> Some ((), c)
           | Some q \<Rightarrow> do { c \<leftarrow> service_to_callee env msg q caller_name cu sname tok r c; Some ((), c) } }) c"
    using caller by (simp add: handle_call_service_def popstr_no_nul tail cong: option.case_cong)
  also have "\<dots> = Some ((), if ag_uuid la2 = None then c2 else store q (la2\<lparr> ag_rt_current_timestamp := INT64_MIN \<rparr>) c2)"
    using callee(1) look sc [folded r] l2 by (simp add: locked_def model_lock_def model_unlock_def store_locked)
  finally show ?thesis .
qed

end
