(* ===== verification/Igs_Subscribe.thy ===== *)
theory Igs_Subscribe
  imports Igs_Service_Call_Laws
begin

text \<open>
  Subscriptions and received publications (src/src/igs_network.c): the filters set
  on the socket of a remote agent for the outputs that a mapping names, and what
  becomes of a message that arrives: \<open>s_manage_received_publication\<close>,
  \<open>s_handle_publication\<close> and the command \<open>HANDLE_PUBLICATION\<close> of \<open>s_manage_parent\<close>.
  Frames are byte strings; \<open>zmsg_popmsg\<close> pops one and decodes it (\<open>zmsg_decode\<close>).

  The entries of a mapping are iterated by the cursor of their list, which other functions
  that use the list move or reset: where it stands after the observers of an input have
  run with the mutex free is the parameter \<open>zlist_cursor\<close>.
\<close>

section \<open>Subscriptions\<close>

text \<open>The filter is built in a buffer of 1057 bytes.\<close>

definition filter_value :: "string \<Rightarrow> string \<Rightarrow> string" where
  "filter_value uuid output = take (IGS_MAX_IO_NAME_LENGTH + 32) (uuid @ ''-'' @ output)"

definition put_remote :: "igs_remote_agent \<Rightarrow> igs_core \<Rightarrow> igs_core" where
  "put_remote ra c = c\<lparr> cx_remote_agents := zh_update (ra_uuid ra) (\<lambda>_. ra) (cx_remote_agents c) \<rparr>"

definition s_subscribe_to_remote_agent_output ::
    "igs_remote_agent \<Rightarrow> string \<Rightarrow> igs_core \<Rightarrow> (igs_remote_agent \<times> igs_core) option" where
  "s_subscribe_to_remote_agent_output ra output c =
     (if output = [] then Some (ra, c)
      else (let f = filter_value (ra_uuid ra) output
            in if f \<in> set (ra_mapping_filters ra) then Some (ra, c)
               else do { c_assert (pe_subscriber (ra_peer ra));
                         let ra = ra\<lparr> ra_mapping_filters := ra_mapping_filters ra @ [f] \<rparr>;
                         Some (ra, put_remote ra (emit (Zsock_Subscribe (pe_peer_id (ra_peer ra)) f) c)) }))"

text \<open>The filters of the list hold the uuid of the agent, what is compared with them does not.\<close>

definition s_unsubscribe_to_remote_agent_output ::
    "igs_remote_agent \<Rightarrow> string \<Rightarrow> igs_core \<Rightarrow> (igs_remote_agent \<times> igs_core) option" where
  "s_unsubscribe_to_remote_agent_output ra output c =
     (if output = [] \<or> output \<notin> set (ra_mapping_filters ra) then Some (ra, c)
      else do { c_assert (pe_subscriber (ra_peer ra));
                let ra = ra\<lparr> ra_mapping_filters := remove_first (\<lambda>f. f = output) (ra_mapping_filters ra) \<rparr>;
                Some (ra, put_remote ra (emit (Zsock_Unsubscribe (pe_peer_id (ra_peer ra)) output) c)) })"

text \<open>
  One entry of the mapping: the agent it names (or \<open>*\<close>), an output of that agent and an
  input of ours. \<open>remote_agent->definition->name\<close> is read before the definition is checked.
\<close>

definition configure_entry ::
    "igs_agent \<Rightarrow> igs_map \<Rightarrow> igs_remote_agent \<Rightarrow> igs_core \<Rightarrow> (igs_remote_agent \<times> igs_core) option" where
  "configure_entry a e ra c =
     do { d \<leftarrow> ra_definition ra;
          n \<leftarrow> df_name d;
          if n = mp_to_agent e \<or> mp_to_agent e = ''*'' then
            (let found_output = zh_lookup (df_outputs d) (mp_to_output e) \<noteq> None;
                 found_input = (case ag_definition a of None \<Rightarrow> False
                                | Some ad \<Rightarrow> zh_lookup (df_inputs ad) (mp_from_input e) \<noteq> None)
             in if found_output \<and> found_input then
                  do { (ra, c) \<leftarrow> s_subscribe_to_remote_agent_output ra (mp_to_output e) c;
                       if \<not> ra_shall_send_outputs_request ra \<and> ag_request_outputs a
                       then (let ra = ra\<lparr> ra_shall_send_outputs_request := True \<rparr>
                             in Some (ra, put_remote ra (emit (Outputs_Request_Timer (ra_uuid ra)) c)))
                       else Some (ra, c) }
                else Some (ra, c))
          else Some (ra, c) }"

fun configure_entries ::
    "igs_agent \<Rightarrow> igs_map list \<Rightarrow> igs_remote_agent \<Rightarrow> igs_core \<Rightarrow> (igs_remote_agent \<times> igs_core) option" where
  "configure_entries a [] ra c = Some (ra, c)"
| "configure_entries a (e # es) ra c =
     do { (ra, c) \<leftarrow> configure_entry a e ra c; configure_entries a es ra c }"

definition s_network_configure_mapping_to_remote_agent ::
    "igs_agent \<Rightarrow> igs_remote_agent \<Rightarrow> igs_core \<Rightarrow> (igs_remote_agent \<times> igs_core) option" where
  "s_network_configure_mapping_to_remote_agent a ra c =
     (case ag_mapping a of None \<Rightarrow> Some (ra, c) | Some m \<Rightarrow> configure_entries a (mg_map_elements m) ra c)"

definition s_trigger_outputs_request_to_newcomer :: "igs_remote_agent \<Rightarrow> unit core_op" where
  "s_trigger_outputs_request_to_newcomer ra = locked (\<lambda>c.
     do { c_assert (cx_node c);
          Some ((), if ra_shall_send_outputs_request ra
            then put_remote (ra\<lparr> ra_shall_send_outputs_request := False \<rparr>)
                   (emit (Zyre_Whisper (pe_peer_id (ra_peer ra)) [''GET_CURRENT_OUTPUTS'', ra_uuid ra]) c)
            else c) })"

section \<open>One published value for one agent\<close>

text \<open>The entry of a mapping that takes the output of the agent of that name.\<close>

definition takes :: "string option \<Rightarrow> string \<Rightarrow> igs_map \<Rightarrow> bool" where
  "takes name output e \<longleftrightarrow> name = Some (mp_to_agent e) \<and> mp_to_output e = output"

text \<open>
  The write of one entry, the \<open>i\<close>-th. The result is the index of the entry that
  \<open>zlist_next\<close> then yields, or \<open>None\<close> when the agent is not in the context any more.
\<close>

definition write_entry ::
    "app_env \<Rightarrow> addr \<Rightarrow> string \<Rightarrow> nat \<Rightarrow> igs_map \<Rightarrow> igs_io_value_type \<Rightarrow> string \<Rightarrow> int \<Rightarrow> nat option core_op" where
  "write_entry env p agent_uuid i e vt data us c =
     do { a \<leftarrow> deref p c;
          d \<leftarrow> ag_definition a;
          case zh_lookup (df_inputs d) (mp_from_input e) of
            None \<Rightarrow> Some (Some (Suc i), c)
          | Some found_input \<Rightarrow>
              do { c \<leftarrow> put_timestamp p us c;
                   (ok, c) \<leftarrow> on_agent p (\<lambda>a. model_write (igs_env.truncate env) a (io_name found_input) IGS_INPUT_T
                                 vt (Some data) (length data)) c;
                   (j, c) \<leftarrow> (if ok
                     then do { (_, c') \<leftarrow> unlocked (model_LOCKED_handle_io_callbacks env p IGS_INPUT_T (io_name found_input)) c;
                               Some (zlist_cursor env p i c c', c') }
                     else Some (Suc i, c));
                   if zh_lookup (cx_agents c) agent_uuid = None then Some (None, c)
                   else do { c \<leftarrow> put_timestamp p INT64_MIN c; Some (Some j, c) } } }"

text \<open>
  The loop over the entries from the \<open>i\<close>-th on. It ends at the end of the list, or when
  the agent is gone.
\<close>

partial_function (option) entries_loop ::
    "app_env \<Rightarrow> addr \<Rightarrow> string \<Rightarrow> string option \<Rightarrow> string \<Rightarrow> igs_io_value_type \<Rightarrow> string \<Rightarrow> int \<Rightarrow> nat
     \<Rightarrow> igs_core \<Rightarrow> igs_core option" where
  "entries_loop env p agent_uuid rname output vt data us i c =
     do { a \<leftarrow> deref p c;
          m \<leftarrow> ag_mapping a;
          if length (mg_map_elements m) \<le> i then Some c
          else (let e = mg_map_elements m ! i
                in if rname = None \<or> ag_uuid a = None then Some c
                   else if takes rname output e
                   then do { (next, c) \<leftarrow> write_entry env p agent_uuid i e vt data us c;
                             case next of
                               Some j \<Rightarrow> entries_loop env p agent_uuid rname output vt data us j c
                             | None \<Rightarrow> Some c }
                   else entries_loop env p agent_uuid rname output vt data us (Suc i) c) }"

section \<open>All agents of the context\<close>

text \<open>The first agent of the context whose uuid is not among those contacted.\<close>

fun next_agent :: "string list \<Rightarrow> addr list \<Rightarrow> igs_core \<Rightarrow> addr option option" where
  "next_agent contacted [] c = Some None"
| "next_agent contacted (p # ps) c =
     do { a \<leftarrow> deref p c;
          u \<leftarrow> ag_uuid a;
          if u \<in> set contacted then next_agent contacted ps c else Some (Some p) }"

partial_function (option) agents_loop ::
    "app_env \<Rightarrow> string option \<Rightarrow> string \<Rightarrow> igs_io_value_type \<Rightarrow> string \<Rightarrow> int \<Rightarrow> string list \<Rightarrow> addr option
     \<Rightarrow> igs_core \<Rightarrow> igs_core option" where
  "agents_loop env rname output vt data us contacted cur c =
     (case cur of
        None \<Rightarrow> Some c
      | Some p \<Rightarrow>
          do { a \<leftarrow> deref p c;
               case ag_uuid a of
                 None \<Rightarrow> Some c
               | Some u \<Rightarrow>
                   (case ag_mapping a of
                      None \<Rightarrow> Some c
                    | Some m \<Rightarrow>
                        do { c \<leftarrow> entries_loop env p u rname output vt data us 0 c;
                             n \<leftarrow> next_agent (contacted @ [u]) (map snd (cx_agents c)) c;
                             agents_loop env rname output vt data us (contacted @ [u]) n c }) })"

definition first_agent :: "igs_core \<Rightarrow> addr option" where
  "first_agent c = (case cx_agents c of [] \<Rightarrow> None | (u, p) # _ \<Rightarrow> Some p)"

section \<open>The message\<close>

text \<open>The value of a part: \<open>Some None\<close> ends the loop, the timestamp is that of the bundle if any.\<close>

definition part_value :: "app_env \<Rightarrow> int \<Rightarrow> string \<Rightarrow> (string \<times> int option) option option" where
  "part_value env code frame =
     (if 7 \<le> code then
        (case zmsg_decode env frame of
           None \<Rightarrow> Some None
         | Some fs \<Rightarrow> if length fs \<noteq> 2 then Some None
                      else if length (fs ! 1) < 8 then None
                      else Some (Some (fs ! 0, Some (rd_int64 (fs ! 1)))))
      else Some (Some (frame, None)))"

definition plain_code :: "int \<Rightarrow> int" where
  "plain_code code = (if 7 \<le> code then code - 6 else code)"

text \<open>A string that does not end in NUL gets one, after the NUL it may hold already.\<close>

definition ended_string :: "igs_io_value_type \<Rightarrow> string \<Rightarrow> string" where
  "ended_string vt data =
     (if vt = IGS_STRING_T \<and> data \<noteq> [] \<and> last data \<noteq> CHR 0x00
      then wr_cstr (takeWhile (\<lambda>ch. ch \<noteq> CHR 0x00) data) else data)"

definition remote_still_exists :: "string \<Rightarrow> igs_core \<Rightarrow> bool" where
  "remote_still_exists uuid c \<longleftrightarrow> uuid = ''FAKE_UUID'' \<or> (\<exists>ra \<in> set (map snd (cx_remote_agents c)). ra_uuid ra = uuid)"

text \<open>
  The loop over the parts of a message, three frames each. The timestamp of a part
  stays for the parts after it that have none.
\<close>

fun publication_parts ::
    "app_env \<Rightarrow> string \<Rightarrow> string option \<Rightarrow> int \<Rightarrow> string list \<Rightarrow> igs_core \<Rightarrow> igs_core option" where
  "publication_parts env ruuid rname us (o_frame # t_frame # v_frame # rest) c =
     do { code \<leftarrow> c_atoi (takeWhile (\<lambda>ch. ch \<noteq> CHR 0x00) t_frame);
          let output = takeWhile (\<lambda>ch. ch \<noteq> CHR 0x00) o_frame;
          if sint code < 1 \<or> 12 < sint code then Some c
          else do {
            v \<leftarrow> part_value env (sint code) v_frame;
            case v of
              None \<Rightarrow> Some c
            | Some (value, ts) \<Rightarrow>
                do { vt \<leftarrow> value_type_of (plain_code (sint code));
                     let us = (case ts of None \<Rightarrow> us | Some t \<Rightarrow> t);
                     c \<leftarrow> agents_loop env rname output vt (ended_string vt value) us [] (first_agent c) c;
                     if remote_still_exists ruuid c then publication_parts env ruuid rname us rest c else Some c } } }"
| "publication_parts env ruuid rname us [o_frame, t_frame] c =
     do { code \<leftarrow> c_atoi (takeWhile (\<lambda>ch. ch \<noteq> CHR 0x00) t_frame); Some c }"
| "publication_parts env ruuid rname us _ c = Some c"

definition s_handle_publication ::
    "app_env \<Rightarrow> string \<Rightarrow> string option \<Rightarrow> string list \<Rightarrow> igs_core \<Rightarrow> igs_core option" where
  "s_handle_publication env ruuid rname msg c =
     (if cx_is_frozen c then Some c else publication_parts env ruuid rname INT64_MIN msg c)"

text \<open>
  From the socket. Two of the three early returns leave the mutex locked. An id of
  exactly 32 characters has no byte after its NUL, which is read.
\<close>

definition s_manage_received_publication :: "app_env \<Rightarrow> string list \<Rightarrow> unit core_op" where
  "s_manage_received_publication env msg c =
     do { c \<leftarrow> model_lock c;
          case popstr msg of
            None \<Rightarrow> Some ((), c)
          | Some (publication_id, r) \<Rightarrow>
              if length publication_id < 32 then Some ((), c)
              else if length publication_id = 32 then None
              else (case zh_lookup (cx_remote_agents c) (take 32 publication_id) of
                      None \<Rightarrow> do { c \<leftarrow> model_unlock c; Some ((), c) }
                    | Some ra \<Rightarrow>
                        do { c \<leftarrow> s_handle_publication env (ra_uuid ra) (Option.bind (ra_definition ra) df_name)
                                   (drop 33 publication_id # r) c;
                             c \<leftarrow> model_unlock c;
                             Some ((), c) }) }"

text \<open>From an agent of the same process, through the pipe.\<close>

definition handle_publication_command :: "app_env \<Rightarrow> string list \<Rightarrow> unit core_op" where
  "handle_publication_command env msg = locked (\<lambda>c.
     do { (name, r) \<leftarrow> popstr msg;
          c \<leftarrow> s_handle_publication env ''FAKE_UUID'' (Some name) r c;
          Some ((), c) })"

end
