(* ===== verification/Igs_Subscribe_Laws.thy ===== *)
theory Igs_Subscribe_Laws
  imports Igs_Subscribe Igs_Mapping_Api
begin

text \<open>
  What a received publication does: with observers that only observe, every agent of
  the context takes the value into each input its mapping links to the output, once,
  and nothing else changes. The loops return. Two early returns keep the mutex.
\<close>

section \<open>Observers that only observe\<close>

text \<open>They return, leave the model as it was, and with it the cursors of its lists.\<close>

definition observing :: "app_env \<Rightarrow> bool" where
  "observing env \<longleftrightarrow> (\<forall>f p t n vt v sz d c. \<exists>c'. call_io env f p t n vt v sz d c = Some c' \<and> same_model c c')
     \<and> (\<forall>p i c c'. same_model c c' \<longrightarrow> zlist_cursor env p i c c' = Suc i)"

lemma same_model_frame: "same_model c c' \<Longrightarrow> cx_store c' = cx_store c \<and> cx_model_locked c' = cx_model_locked c
    \<and> cx_agents c' = cx_agents c \<and> cx_remote_agents c' = cx_remote_agents c"
  by (auto simp: same_model_def)

lemma observing_quiet: "observing env \<Longrightarrow> quiet env"
  unfolding observing_def quiet_def using same_model_frame by (metis option.inject)

lemma in_turn_observing:
  "observing env \<Longrightarrow> \<exists>c'. in_turn (notify env p io) cbs c = Some c' \<and> same_model c c'"
proof (induction cbs arbitrary: c)
  case (Cons cb cbs)
  then obtain c1 where c1: "notify env p io cb c = Some c1" "same_model c c1"
    unfolding observing_def notify_def by metis
  with Cons obtain c' where "in_turn (notify env p io) cbs c1 = Some c'" "same_model c1 c'" by blast
  with c1 show ?case by (auto intro: same_model_trans)
qed simp

lemma same_model_lock: "same_model c c' \<Longrightarrow> same_model (c\<lparr> cx_model_locked := b \<rparr>) (c'\<lparr> cx_model_locked := b \<rparr>)"
  by (cases c) (auto simp: same_model_def)

lemma same_model_store: "same_model c c' \<Longrightarrow> same_model (store p a c) (store p a c')"
  by (cases c) (auto simp: same_model_def store_def)

lemma store_store [simp]: "store p a (store p b c) = store p a c"
  by (simp add: store_def)

lemma lock_lock [simp]: "cx_model_locked c \<Longrightarrow> c\<lparr> cx_model_locked := True \<rparr> = c"
  by (cases c) simp

lemma write_unknown:
  "vt \<noteq> IGS_UNKNOWN_T \<Longrightarrow> write_io env enforce vt (Some v) n io = Some (True, io') \<Longrightarrow> io_value_type io \<noteq> IGS_UNKNOWN_T"
  by (cases vt; auto simp: write_io_def write_value_def write_defs bind_some_eqs split: option.splits if_splits)

lemma notify_under_lock:
  assumes "observing env" and "cx_model_locked c" and "deref p c = Some a" and "ag_uuid a \<noteq> None" and "agent_wf a"
    and "model_find_io_by_name a name t = Some io" and "io_value_type io \<noteq> IGS_UNKNOWN_T"
  shows "\<exists>c'. unlocked (model_LOCKED_handle_io_callbacks env p t name) c = Some ((), c') \<and> same_model c c'"
proof -
  let ?c = "c\<lparr> cx_model_locked := False \<rparr>"
  obtain c1 where c1: "in_turn (notify env p io) (io_callbacks io) ?c = Some c1" "same_model ?c c1"
    using in_turn_observing [OF assms(1)] by blast
  have h: "model_LOCKED_handle_io_callbacks env p t name ?c = Some ((), c1)"
    using observers_in_turn [OF observing_quiet [OF assms(1)], of ?c p a name t io] assms(3-7) c1(1) by simp
  have "\<not> cx_model_locked c1" using same_model_frame [OF c1(2)] by simp
  then have "unlocked (model_LOCKED_handle_io_callbacks env p t name) c = Some ((), c1\<lparr> cx_model_locked := True \<rparr>)"
    using assms(2) h by (simp add: unlocked_def model_unlock_def model_lock_def)
  moreover have "same_model c (c1\<lparr> cx_model_locked := True \<rparr>)"
    using same_model_lock [OF c1(2), of True] assms(2) by simp
  ultimately show ?thesis by blast
qed

section \<open>One entry\<close>

definition take_entry ::
    "app_env \<Rightarrow> igs_io_value_type \<Rightarrow> string \<Rightarrow> igs_map \<Rightarrow> igs_agent \<Rightarrow> igs_agent option" where
  "take_entry env vt data e a =
     (case ios_of IGS_INPUT_T a (mp_from_input e) of
        None \<Rightarrow> Some a
      | Some io \<Rightarrow>
          do { (ok, io') \<leftarrow> write_io (igs_env.truncate env) (ag_enforce_constraints a) vt (Some data) (length data) io;
               Some ((on_io IGS_INPUT_T (mp_from_input e) (\<lambda>_. io') a)\<lparr> ag_rt_current_timestamp := INT64_MIN \<rparr>) })"

lemma stamp_frame [simp]:
  "ios_of t (a\<lparr> ag_rt_current_timestamp := x \<rparr>) = ios_of t a"
  "model_find_io_by_name (a\<lparr> ag_rt_current_timestamp := x \<rparr>) = model_find_io_by_name a"
  "agent_wf (a\<lparr> ag_rt_current_timestamp := x \<rparr>) = agent_wf a"
  "on_io t k f (a\<lparr> ag_rt_current_timestamp := x \<rparr>) = (on_io t k f a)\<lparr> ag_rt_current_timestamp := x \<rparr>"
  by (simp_all add: ios_of_def model_find_io_by_name_def agent_wf_def on_io_def fun_eq_iff)

lemma on_io_mapping [simp]: "ag_mapping (on_io t k f a) = ag_mapping a"
  by (simp add: on_io_def)

lemma take_entry_frame:
  assumes "take_entry env vt data e a = Some a'"
  shows "ag_uuid a' = ag_uuid a" "ag_mapping a' = ag_mapping a" "ag_enforce_constraints a' = ag_enforce_constraints a"
    "agent_wf a \<Longrightarrow> agent_wf a'" "ag_definition a \<noteq> None \<Longrightarrow> ag_definition a' \<noteq> None"
proof -
  show "ag_uuid a' = ag_uuid a" "ag_mapping a' = ag_mapping a" "ag_enforce_constraints a' = ag_enforce_constraints a"
    "ag_definition a \<noteq> None \<Longrightarrow> ag_definition a' \<noteq> None"
    using assms by (auto simp: take_entry_def bind_some_eqs on_io_def split: option.splits)
  show "agent_wf a'" if wf: "agent_wf a"
  proof (cases "ios_of IGS_INPUT_T a (mp_from_input e)")
    case None
    with assms wf show ?thesis by (simp add: take_entry_def)
  next
    case (Some io)
    with assms obtain ok io' where w: "write_io (igs_env.truncate env) (ag_enforce_constraints a) vt (Some data) (length data) io = Some (ok, io')"
      "a' = (on_io IGS_INPUT_T (mp_from_input e) (\<lambda>_. io') a)\<lparr> ag_rt_current_timestamp := INT64_MIN \<rparr>"
      by (auto simp: take_entry_def bind_some_eqs)
    have "model_write (igs_env.truncate env) a (mp_from_input e) IGS_INPUT_T vt (Some data) (length data)
        = Some (ok, on_io IGS_INPUT_T (mp_from_input e) (\<lambda>_. io') a)"
      using Some w(1) by (simp add: model_write_def ios_of_def)
    from model_write_wf [OF wf this] w(2) show ?thesis by simp
  qed
qed

lemma write_entry_result:
  assumes "observing env" and "cx_model_locked c" and "deref p c = Some a" and "ag_uuid a = Some u" and "agent_wf a"
    and "ag_definition a \<noteq> None" and "zh_lookup (cx_agents c) u \<noteq> None" and "vt \<noteq> IGS_UNKNOWN_T"
    and t: "take_entry env vt data e a = Some a'"
  shows "\<exists>c'. write_entry env p u i e vt data us c = Some (Some (Suc i), c') \<and> same_model (store p a' c) c'"
proof -
  obtain d where d: "ag_definition a = Some d" using assms(6) by blast
  let ?i = "mp_from_input e"
  have look: "ios_of IGS_INPUT_T a ?i = zh_lookup (df_inputs d) ?i"
    using d by (simp add: ios_of_def model_find_io_by_name_def io_table_def)
  show ?thesis
  proof (cases "zh_lookup (df_inputs d) ?i")
    case None
    then have "a' = a" using t look by (simp add: take_entry_def)
    moreover have "store p a c = c" using assms(3) by (cases c) (auto simp: store_def deref_def)
    ultimately show ?thesis using assms(3) d None by (simp add: write_entry_def)
  next
    case (Some io)
    with t look obtain ok io' where w: "write_io (igs_env.truncate env) (ag_enforce_constraints a) vt (Some data) (length data) io = Some (ok, io')"
      and a': "a' = (on_io IGS_INPUT_T ?i (\<lambda>_. io') a)\<lparr> ag_rt_current_timestamp := INT64_MIN \<rparr>"
      by (auto simp: take_entry_def bind_some_eqs)
    have f: "model_find_io_by_name a ?i IGS_INPUT_T = Some io" using look Some by (simp add: ios_of_def)
    have n: "io_name io = ?i" using found_wf [OF assms(5) f] by simp
    let ?b = "(on_io IGS_INPUT_T ?i (\<lambda>_. io') a)\<lparr> ag_rt_current_timestamp := us \<rparr>"
    have mw: "model_write (igs_env.truncate env) (a\<lparr> ag_rt_current_timestamp := us \<rparr>) (io_name io) IGS_INPUT_T vt (Some data) (length data)
        = Some (ok, ?b)"
      using f w n by (simp add: model_write_def)
    have wfb: "agent_wf ?b" using take_entry_frame(4) [OF t assms(5)] a' by simp
    have on: "on_agent p (\<lambda>a. model_write (igs_env.truncate env) a (io_name io) IGS_INPUT_T vt (Some data) (length data))
        (store p (a\<lparr> ag_rt_current_timestamp := us \<rparr>) c) = Some (ok, store p ?b c)"
      by (simp add: on_agent_def mw)
    have put: "put_timestamp p us c = Some (store p (a\<lparr> ag_rt_current_timestamp := us \<rparr>) c)"
      using assms(3) by (simp add: put_timestamp_def)
    obtain c2 where c2: "(if ok then do { (_, c') \<leftarrow> unlocked (model_LOCKED_handle_io_callbacks env p IGS_INPUT_T (io_name io)) (store p ?b c);
          Some (zlist_cursor env p i (store p ?b c) c', c') }
          else Some (Suc i, store p ?b c)) = Some (Suc i, c2)" "same_model (store p ?b c) c2"
    proof (cases ok)
      case True
      have "\<exists>c'. unlocked (model_LOCKED_handle_io_callbacks env p IGS_INPUT_T (io_name io)) (store p ?b c) = Some ((), c')
        \<and> same_model (store p ?b c) c'"
      proof (rule notify_under_lock [OF assms(1) _ _ _ wfb])
        show "model_find_io_by_name ?b (io_name io) IGS_INPUT_T = Some io'" using f n by simp
        show "io_value_type io' \<noteq> IGS_UNKNOWN_T"
          using write_unknown [OF assms(8)] w True write_io_same [OF w] by (auto simp: same_io_def)
      qed (use assms(2,4) in simp_all)
      moreover have "zlist_cursor env p i c c' = Suc i" if "same_model c c'" for c c'
        using assms(1) that by (simp add: observing_def)
      ultimately show ?thesis using True that by auto
    qed (use that in simp)
    have "deref p c2 = Some ?b" "zh_lookup (cx_agents c2) u \<noteq> None"
      using same_model_frame [OF c2(2)] assms(7) by (simp_all add: deref_def store_def)
    then have "write_entry env p u i e vt data us c = Some (Some (Suc i), store p a' c2)"
      using assms(3) d Some put on c2(1) a' by (simp add: write_entry_def) (simp add: put_timestamp_def)
    moreover have "same_model (store p a' c) (store p a' c2)"
      using same_model_store [OF c2(2), of p a'] by simp
    ultimately show ?thesis by blast
  qed
qed

section \<open>All entries, all agents\<close>

fun take_entries ::
    "app_env \<Rightarrow> igs_io_value_type \<Rightarrow> string \<Rightarrow> string option \<Rightarrow> string \<Rightarrow> igs_map list \<Rightarrow> igs_agent \<Rightarrow> igs_agent option" where
  "take_entries env vt data rname output [] a = Some a"
| "take_entries env vt data rname output (e # es) a =
     (if takes rname output e
      then do { a \<leftarrow> take_entry env vt data e a; take_entries env vt data rname output es a }
      else take_entries env vt data rname output es a)"

definition fed :: "igs_agent \<Rightarrow> bool" where
  "fed a \<longleftrightarrow> agent_wf a \<and> ag_uuid a \<noteq> None \<and> ag_definition a \<noteq> None \<and> ag_mapping a \<noteq> None"

lemma take_entry_fed: "take_entry env vt data e a = Some a' \<Longrightarrow> fed a \<Longrightarrow> fed a' \<and> ag_uuid a' = ag_uuid a \<and> ag_mapping a' = ag_mapping a"
  using take_entry_frame [of env vt data e a a'] by (simp add: fed_def)

lemma same_model_deref: "same_model c c' \<Longrightarrow> deref q c' = deref q c"
  using same_model_frame [of c c'] by (simp add: deref_def)

lemma entries_loop_result:
  assumes "observing env" and "vt \<noteq> IGS_UNKNOWN_T" and "cx_model_locked c" and "deref p c = Some a" and "fed a"
    and "ag_uuid a = Some u" and "ag_mapping a = Some m" and "mg_map_elements m = earlier @ es"
    and "zh_lookup (cx_agents c) u \<noteq> None" and "rname \<noteq> None"
    and "take_entries env vt data rname output es a = Some a'"
  shows "\<exists>c'. entries_loop env p u rname output vt data us (length earlier) c = Some c' \<and> same_model (store p a' c) c'"
  using assms(3-9,11)
proof (induction es arbitrary: earlier a c)
  case Nil
  have "store p a c = c" using Nil.prems(2) by (cases c) (auto simp: store_def deref_def)
  with Nil.prems show ?case by (simp add: entries_loop.simps)
next
  case (Cons e es)
  obtain rn where rn: "rname = Some rn" using assms(10) by blast
  show ?case
  proof (cases "takes rname output e")
    case False
    with Cons.prems Cons.IH [of c a "earlier @ [e]"] assms(10)
    obtain c' where "entries_loop env p u rname output vt data us (Suc (length earlier)) c = Some c'" "same_model (store p a' c) c'"
      by auto
    with Cons.prems False rn show ?thesis
      by (intro exI [of _ c']) (subst entries_loop.simps, simp)
  next
    case True
    with Cons.prems(8) obtain b where b: "take_entry env vt data e a = Some b"
      "take_entries env vt data rname output es b = Some a'"
      by (auto simp: bind_some_eqs)
    have fb: "fed b" "ag_uuid b = Some u" "ag_mapping b = Some m"
      using take_entry_fed [OF b(1) Cons.prems(3)] Cons.prems(4,5) by simp_all
    obtain c1 where c1: "write_entry env p u (length earlier) e vt data us c = Some (Some (Suc (length earlier)), c1)" "same_model (store p b c) c1"
      using write_entry_result [OF assms(1) Cons.prems(1,2,4) _ _ Cons.prems(7) assms(2) b(1)] Cons.prems(3)
      unfolding fed_def by blast
    have s: "cx_model_locked c1" "deref p c1 = Some b" "cx_agents c1 = cx_agents c"
      using same_model_frame [OF c1(2)] Cons.prems(1) by (simp_all add: deref_def store_def)
    obtain c' where c': "entries_loop env p u rname output vt data us (Suc (length earlier)) c1 = Some c'"
      "same_model (store p a' c1) c'"
      using Cons.IH [OF s(1,2) fb(1-3) _ _ b(2), of "earlier @ [e]"] Cons.prems(6,7) s(3) by auto
    have "entries_loop env p u rname output vt data us (length earlier) c = Some c'"
      using True Cons.prems(2,4,5,6) rn c1(1) c'(1)
      by (subst entries_loop.simps) simp
    moreover have "same_model (store p a' c) c'"
      using same_model_trans [OF same_model_store [OF c1(2), of p a']] c'(2) by simp
    ultimately show ?thesis by blast
  qed
qed

definition served ::
    "app_env \<Rightarrow> igs_io_value_type \<Rightarrow> string \<Rightarrow> string option \<Rightarrow> string \<Rightarrow> igs_agent \<Rightarrow> igs_agent option" where
  "served env vt data rname output a =
     (case ag_mapping a of None \<Rightarrow> Some a | Some m \<Rightarrow> take_entries env vt data rname output (mg_map_elements m) a)"

lemma take_entries_frame:
  "take_entries env vt data rname output es a = Some a' \<Longrightarrow> fed a \<Longrightarrow> fed a' \<and> ag_uuid a' = ag_uuid a \<and> ag_mapping a' = ag_mapping a"
proof (induction es arbitrary: a)
  case (Cons e es)
  then show ?case
  proof (cases "takes rname output e")
    case True
    with Cons.prems(1) obtain b where b: "take_entry env vt data e a = Some b" "take_entries env vt data rname output es b = Some a'"
      by (auto simp: bind_some_eqs)
    with take_entry_fed [OF b(1) Cons.prems(2)] Cons.IH [OF b(2)] show ?thesis by simp
  qed simp
qed simp

lemma served_frame:
  "served env vt data rname output a = Some a' \<Longrightarrow> fed a \<Longrightarrow> fed a' \<and> ag_uuid a' = ag_uuid a \<and> ag_mapping a' = ag_mapping a"
  using take_entries_frame by (auto simp: served_def split: option.splits)

text \<open>The agents of a table, all with a definition and a mapping.\<close>

definition feeding :: "(string \<times> addr) list \<Rightarrow> igs_core \<Rightarrow> bool" where
  "feeding ups c \<longleftrightarrow> (\<forall>(u, p) \<in> set ups. \<exists>a. deref p c = Some a \<and> fed a \<and> ag_uuid a = Some u)"

lemma next_agent_skip:
  "feeding (ups @ vqs) c \<Longrightarrow> set (map fst ups) \<subseteq> set us \<Longrightarrow> set (map fst vqs) \<inter> set us = {} \<Longrightarrow>
     next_agent us (map snd (ups @ vqs)) c = Some (case vqs of [] \<Rightarrow> None | (v, q) # _ \<Rightarrow> Some q)"
proof (induction ups)
  case Nil
  then show ?case by (cases vqs) (auto simp: feeding_def)
next
  case (Cons x ups)
  then show ?case by (cases x) (auto simp: feeding_def)
qed

lemma feeding_distinct_addr:
  "feeding ups c \<Longrightarrow> distinct (map fst ups) \<Longrightarrow> distinct (map snd ups)"
proof (induction ups)
  case (Cons x ups)
  obtain u p where x: "x = (u, p)" by (cases x)
  have "p \<notin> snd ` set ups"
  proof
    assume "p \<in> snd ` set ups"
    then obtain v where "(v, p) \<in> set ups" by auto
    with Cons.prems(1) x have "v = u" by (auto simp: feeding_def)
    with \<open>(v, p) \<in> set ups\<close> Cons.prems(2) x show False by force
  qed
  with Cons x show ?case by (simp add: feeding_def)
qed simp

lemma feeding_store:
  assumes "feeding ups c" and "deref p c = Some a" and "ag_uuid a = Some u" and "fed a'" and "ag_uuid a' = Some u"
    and "\<And>q. deref q c' = (if q = p then Some a' else deref q c)" and "set vqs = set ups"
  shows "feeding vqs c'"
  unfolding feeding_def
proof safe
  fix v q assume "(v, q) \<in> set vqs"
  then obtain b where "deref q c = Some b" "fed b" "ag_uuid b = Some v" using assms(1,7) by (auto simp: feeding_def)
  with assms(2-6) show "\<exists>b. deref q c' = Some b \<and> fed b \<and> ag_uuid b = Some v"
    by (cases "q = p") auto
qed

lemma agents_loop_result:
  assumes "observing env" and "vt \<noteq> IGS_UNKNOWN_T" and "rname \<noteq> None"
    and "cx_model_locked c" and "cx_agents c = ups @ vqs" and "feeding (ups @ vqs) c" and "distinct (map fst (ups @ vqs))"
    and "\<forall>v q a. (v, q) \<in> set vqs \<longrightarrow> deref q c = Some a \<longrightarrow> served env vt data rname output a \<noteq> None"
  shows "\<exists>c'. agents_loop env rname output vt data us (map fst ups)
        (case vqs of [] \<Rightarrow> None | (v, q) # _ \<Rightarrow> Some q) c = Some c'
      \<and> same_model (c\<lparr> cx_store := cx_store c' \<rparr>) c'
      \<and> (\<forall>q. q \<notin> snd ` set vqs \<longrightarrow> deref q c' = deref q c)
      \<and> (\<forall>q \<in> snd ` set vqs. deref q c' = Option.bind (deref q c) (served env vt data rname output))"
  using assms(4-8)
proof (induction vqs arbitrary: ups c)
  case Nil
  then show ?case by (simp add: agents_loop.simps)
next
  case (Cons x vqs)
  obtain u p where x: "x = (u, p)" by (cases x)
  with Cons.prems(3) obtain a where a: "deref p c = Some a" "fed a" "ag_uuid a = Some u" by (auto simp: feeding_def)
  obtain m where m: "ag_mapping a = Some m" using a(2) by (auto simp: fed_def)
  have "served env vt data rname output a \<noteq> None" using Cons.prems(5) x a(1) by (metis list.set_intros(1))
  then obtain a' where a': "served env vt data rname output a = Some a'" by blast
  have fa': "fed a'" "ag_uuid a' = Some u" using served_frame [OF a' a(2)] a(3) by simp_all
  have look: "zh_lookup (cx_agents c) u \<noteq> None" using Cons.prems(2) x zh_lookup_None_iff [of "cx_agents c" u] by auto
  obtain c1 where c1: "entries_loop env p u rname output vt data us 0 c = Some c1" "same_model (store p a' c) c1"
    using entries_loop_result [OF assms(1,2) Cons.prems(1) a(1,2,3) m _ look assms(3), of "[]" "mg_map_elements m" data "output" a' us] a' m
    by (auto simp: served_def)
  have d1: "deref q c1 = (if q = p then Some a' else deref q c)" for q
    using same_model_deref [OF c1(2)] by simp
  have k1: "cx_model_locked c1" "cx_agents c1 = (ups @ [x]) @ vqs"
    using same_model_frame [OF c1(2)] Cons.prems(1,2) by (simp_all add: store_def)
  have dist: "distinct (map snd (ups @ x # vqs))" using feeding_distinct_addr Cons.prems(3,4) by blast
  have feed1: "feeding ((ups @ [x]) @ vqs) c1"
    by (rule feeding_store [OF Cons.prems(3)]) (use a(1,3) fa' x d1 in auto)
  have "\<forall>v q b. (v, q) \<in> set vqs \<longrightarrow> deref q c1 = Some b \<longrightarrow> served env vt data rname output b \<noteq> None"
  proof (intro allI impI)
    fix v q b assume b: "(v, q) \<in> set vqs" "deref q c1 = Some b"
    then have "q \<in> snd ` set vqs" by (force simp: image_iff)
    with dist x have "q \<noteq> p" by auto
    with b Cons.prems(5) d1 [of q] show "served env vt data rname output b \<noteq> None" by auto
  qed
  moreover have "distinct (map fst ((ups @ [x]) @ vqs))" using Cons.prems(4) by simp
  ultimately obtain c' where c': "agents_loop env rname output vt data us (map fst (ups @ [x]))
        (case vqs of [] \<Rightarrow> None | (v, q) # _ \<Rightarrow> Some q) c1 = Some c'"
      "same_model (c1\<lparr> cx_store := cx_store c' \<rparr>) c'"
      "\<forall>q. q \<notin> snd ` set vqs \<longrightarrow> deref q c' = deref q c1"
      "\<forall>q \<in> snd ` set vqs. deref q c' = Option.bind (deref q c1) (served env vt data rname output)"
    using Cons.IH [OF k1 feed1] by blast
  have n: "next_agent (map fst ups @ [u]) (map snd (cx_agents c1)) c1 = Some (case vqs of [] \<Rightarrow> None | (v, q) # _ \<Rightarrow> Some q)"
    unfolding k1(2) by (rule next_agent_skip [OF feed1]) (use Cons.prems(4) x in auto)
  have l: "agents_loop env rname output vt data us (map fst ups) (Some p) c = Some c'"
    using a(1,3) m c1(1) n c'(1) x by (subst agents_loop.simps) simp
  have sm: "same_model (c\<lparr> cx_store := cx_store c' \<rparr>) c'"
    using same_model_trans [OF _ c'(2), of "c\<lparr> cx_store := cx_store c' \<rparr>"] c1(2)
    by (cases c; cases c1) (auto simp: same_model_def store_def)
  have "p \<notin> snd ` set vqs" using dist x by auto
  then show ?case using l sm c'(3,4) a(1) a' d1 x
    by (intro exI [of _ c']) (auto split: if_splits)
qed

section \<open>From the frames of a publication to the agents\<close>

lemma cut_nul [simp]: "no_nul s \<Longrightarrow> takeWhile (\<lambda>ch. ch \<noteq> CHR 0x00) s = s"
  by (auto simp: no_nul_def takeWhile_eq_all_conv)

lemma ended_string_frame: "io_wf io \<Longrightarrow> value_frame io = Some v \<Longrightarrow> ended_string (io_value_type io) v = v"
  by (cases "io_value_type io")
    (auto simp: ended_string_def value_frame_def io_wf_def Let_def string_buffer_def copy_bytes_def split: option.splits)

text \<open>What \<open>s_handle_publication\<close> gets of the two frames written by \<open>publication_frames\<close>.\<close>

lemma publication_frames_read:
  assumes "publication_frames penv us io = Some frames" and "io_value_type io \<noteq> IGS_UNKNOWN_T"
    and "\<And>fs. zmsg_decode env (zmsg_encode penv fs) = Some fs" and "- (2 ^ 63) \<le> us" "us < 2 ^ 63"
  shows "\<exists>n x v ts. frames = [fmt_d n, x] \<and> 1 \<le> n \<and> n \<le> 12 \<and> value_frame io = Some v \<and> part_value env n x = Some (Some (v, ts))
    \<and> value_type_of (plain_code n) = Some (io_value_type io) \<and> (us \<noteq> INT64_MIN \<longrightarrow> ts = Some us)"
proof (cases "us = INT64_MIN")
  case True
  let ?n = "int (value_type_code (io_value_type io))"
  obtain v where v: "value_frame io = Some v" "frames = [fmt_d ?n, v]"
    using assms(1,2) True by (auto simp: publication_frames_def bind_some_eqs)
  have "1 \<le> ?n \<and> ?n \<le> 6" using assms(2) by (cases "io_value_type io") simp_all
  with v True show ?thesis
    by (intro exI [of _ ?n] exI [of _ v] exI [of _ None]) (auto simp: part_value_def plain_code_def)
next
  case False
  obtain v where v: "value_frame io = Some v" "frames = [fmt_d (timestamped_code (io_value_type io)), zmsg_encode penv [v, wr_int64 us]]"
    using assms(1,2) False by (auto simp: publication_frames_def bind_some_eqs)
  have n: "7 \<le> timestamped_code (io_value_type io) \<and> timestamped_code (io_value_type io) \<le> 12
      \<and> value_type_of (plain_code (timestamped_code (io_value_type io))) = Some (io_value_type io)"
    using assms(2) by (cases "io_value_type io") (auto simp: timestamped_code_def plain_code_def value_type_of_def)
  have "length (wr_int64 us) = 8" by (simp add: wr_int64_def)
  with n v assms(3) False rd_wr_int64 [OF assms(4,5)] show ?thesis
    by (auto simp: part_value_def)
qed

lemma publication_received:
  assumes "observing env" and "cx_model_locked c" and "\<not> cx_is_frozen c"
    and "feeding (cx_agents c) c" and "distinct (map fst (cx_agents c))"
    and "no_nul out" and "io_wf io" and "io_value_type io \<noteq> IGS_UNKNOWN_T" and "value_frame io = Some v"
    and "publication_frames penv us io = Some frames" and "\<And>fs. zmsg_decode env (zmsg_encode penv fs) = Some fs"
    and "- (2 ^ 63) \<le> us" "us < 2 ^ 63"
    and "\<forall>u q a. (u, q) \<in> set (cx_agents c) \<longrightarrow> deref q c = Some a \<longrightarrow> served env (io_value_type io) v (Some n) out a \<noteq> None"
  shows "\<exists>c'. s_handle_publication env ruuid (Some n) (out # frames) c = Some c'
      \<and> same_model (c\<lparr> cx_store := cx_store c' \<rparr>) c'
      \<and> (\<forall>q. deref q c' = (if q \<in> snd ` set (cx_agents c)
            then Option.bind (deref q c) (served env (io_value_type io) v (Some n) out) else deref q c))"
proof -
  obtain k x w ts where fr: "frames = [fmt_d k, x]" "1 \<le> k" "k \<le> 12" "value_frame io = Some w"
    "part_value env k x = Some (Some (w, ts))" "value_type_of (plain_code k) = Some (io_value_type io)"
    using publication_frames_read [OF assms(10,8,11-13)] by blast
  have w: "w = v" using fr(4) assms(9) by simp
  have code: "c_atoi (fmt_d k) = Some (word_of_int k)" "sint (word_of_int k :: i32) = k"
    using fr(2,3) by (simp_all add: atoi_fmt_d int_ok_def int_word_sint)
  let ?us = "case ts of None \<Rightarrow> INT64_MIN | Some t \<Rightarrow> t"
  have f: "first_agent c = (case cx_agents c of [] \<Rightarrow> None | (v, q) # _ \<Rightarrow> Some q)"
    by (simp add: first_agent_def)
  obtain c' where c': "agents_loop env (Some n) out (io_value_type io) v ?us [] (first_agent c) c = Some c'"
      "same_model (c\<lparr> cx_store := cx_store c' \<rparr>) c'"
      "\<forall>q. q \<notin> snd ` set (cx_agents c) \<longrightarrow> deref q c' = deref q c"
      "\<forall>q \<in> snd ` set (cx_agents c). deref q c' = Option.bind (deref q c) (served env (io_value_type io) v (Some n) out)"
    using agents_loop_result [OF assms(1,8) _ assms(2), of "Some n" "[]" "cx_agents c" v out ?us] assms(4,5,14)
    unfolding f by auto
  have "publication_parts env ruuid (Some n) INT64_MIN (out # frames) c = Some c'"
    using fr code w c'(1) assms(6,7,9) ended_string_frame [OF assms(7,9)] by simp
  then have "s_handle_publication env ruuid (Some n) (out # frames) c = Some c'"
    using assms(3) by (simp add: s_handle_publication_def)
  with c' show ?thesis by auto
qed

section \<open>The inputs of an agent that is served\<close>

definition written_input ::
    "app_env \<Rightarrow> igs_agent \<Rightarrow> igs_io_value_type \<Rightarrow> string \<Rightarrow> igs_io \<Rightarrow> (bool \<times> igs_io) option" where
  "written_input env a vt data io = write_io (igs_env.truncate env) (ag_enforce_constraints a) vt (Some data) (length data) io"

lemma take_entry_inputs:
  assumes "take_entry env vt data e a = Some a'"
  shows "ios_of IGS_INPUT_T a' k = (if k = mp_from_input e
      then Option.bind (ios_of IGS_INPUT_T a k) (\<lambda>io. map_option snd (written_input env a vt data io)) else ios_of IGS_INPUT_T a k)"
    and "t \<noteq> IGS_INPUT_T \<Longrightarrow> ios_of t a' = ios_of t a"
  using assms by (auto simp: take_entry_def written_input_def bind_some_eqs ios_of_on_io split: option.splits)

lemma take_entries_inputs:
  assumes "take_entries env vt data rname output es a = Some a'"
    and "distinct (map mp_from_input (filter (takes rname output) es))"
  shows "ios_of IGS_INPUT_T a' k = (if k \<in> mp_from_input ` set (filter (takes rname output) es)
      then Option.bind (ios_of IGS_INPUT_T a k) (\<lambda>io. map_option snd (written_input env a vt data io)) else ios_of IGS_INPUT_T a k)
      \<and> (\<forall>t. t \<noteq> IGS_INPUT_T \<longrightarrow> ios_of t a' = ios_of t a)"
  using assms
proof (induction es arbitrary: a)
  case (Cons e es)
  show ?case
  proof (cases "takes rname output e")
    case False
    with Cons show ?thesis by simp
  next
    case True
    with Cons.prems(1) obtain b where b: "take_entry env vt data e a = Some b"
      "take_entries env vt data rname output es b = Some a'" by (auto simp: bind_some_eqs)
    have en: "written_input env b vt data = written_input env a vt data"
      using take_entry_frame(3) [OF b(1)] by (simp add: written_input_def fun_eq_iff)
    have "distinct (map mp_from_input (filter (takes rname output) es))" using Cons.prems(2) True by simp
    from Cons.IH [OF b(2) this] take_entry_inputs [OF b(1)] True Cons.prems(2) en show ?thesis by auto
  qed
qed simp

text \<open>Identifiers tell the entries of a mapping apart, so no input takes a value twice.\<close>

lemma takers_distinct:
  assumes "agent_mapping_ok a" and "ag_mapping a = Some m"
  shows "distinct (map mp_from_input (filter (takes rname output) (mg_map_elements m)))"
proof -
  have ok: "distinct (map mp_id (mg_map_elements m))"
    "\<forall>e \<in> set (mg_map_elements m). mp_id e = entry_id (mp_from_input e) (mp_to_agent e) (mp_to_output e)"
    using assms by (auto simp: agent_mapping_ok_def mapping_wf_def keyed_def)
  have "inj_on mp_from_input (set (filter (takes rname output) (mg_map_elements m)))"
  proof (rule inj_onI)
    fix e f assume ef: "e \<in> set (filter (takes rname output) (mg_map_elements m))"
      "f \<in> set (filter (takes rname output) (mg_map_elements m))" "mp_from_input e = mp_from_input f"
    then have "mp_id e = mp_id f" using ok(2) by (auto simp: takes_def)
    with ok(1) ef(1,2) show "e = f" by (auto simp: distinct_map dest: inj_onD)
  qed
  moreover have "distinct (mg_map_elements m)" using ok(1) by (simp add: distinct_map)
  ultimately show ?thesis by (simp only: distinct_map distinct_filter simp_thms)
qed

lemma served_inputs:
  assumes "served env vt data (Some n) output a = Some a'" and "agent_mapping_ok a"
  shows "ios_of IGS_INPUT_T a' k = (if (k, n, output) \<in> links a
      then Option.bind (ios_of IGS_INPUT_T a k) (\<lambda>io. map_option snd (written_input env a vt data io)) else ios_of IGS_INPUT_T a k)
    \<and> (\<forall>t. t \<noteq> IGS_INPUT_T \<longrightarrow> ios_of t a' = ios_of t a)"
proof (cases "ag_mapping a")
  case None
  with assms(1) show ?thesis by (simp add: served_def links_def)
next
  case (Some m)
  have "(k, n, output) \<in> links a \<longleftrightarrow> k \<in> mp_from_input ` set (filter (takes (Some n) output) (mg_map_elements m))"
    using Some by (auto simp: links_def map_parts_def takes_def image_iff)
  with take_entries_inputs [OF _ takers_distinct [OF assms(2) Some], of env vt data "Some n" "output" a a' k] assms(1) Some
  show ?thesis by (simp add: served_def)
qed

text \<open>When the value can be written into every linked input, no agent is skipped.\<close>

lemma take_entries_defined:
  assumes "distinct (map mp_from_input (filter (takes rname output) es))"
    and "\<forall>e \<in> set es. takes rname output e \<longrightarrow>
      (\<forall>io. ios_of IGS_INPUT_T a (mp_from_input e) = Some io \<longrightarrow> written_input env a vt data io \<noteq> None)"
  shows "take_entries env vt data rname output es a \<noteq> None"
  using assms
proof (induction es arbitrary: a)
  case (Cons e es)
  show ?case
  proof (cases "takes rname output e")
    case False
    with Cons show ?thesis by simp
  next
    case True
    obtain b where b: "take_entry env vt data e a = Some b"
      using True Cons.prems(2) by (cases "ios_of IGS_INPUT_T a (mp_from_input e)") (auto simp: take_entry_def written_input_def)
    have en: "written_input env b vt data = written_input env a vt data"
      using take_entry_frame(3) [OF b] by (simp add: written_input_def fun_eq_iff)
    have "take_entries env vt data rname output es b \<noteq> None"
    proof (rule Cons.IH)
      show "distinct (map mp_from_input (filter (takes rname output) es))" using Cons.prems(1) True by simp
      show "\<forall>f \<in> set es. takes rname output f \<longrightarrow>
          (\<forall>io. ios_of IGS_INPUT_T b (mp_from_input f) = Some io \<longrightarrow> written_input env b vt data io \<noteq> None)"
      proof (intro ballI impI allI)
        fix f io assume f: "f \<in> set es" "takes rname output f" "ios_of IGS_INPUT_T b (mp_from_input f) = Some io"
        then have "mp_from_input f \<noteq> mp_from_input e" using Cons.prems(1) True by (auto simp: image_iff)
        with f Cons.prems(2) take_entry_inputs(1) [OF b] show "written_input env b vt data io \<noteq> None" by (simp add: en)
      qed
    qed
    with True b show ?thesis by simp
  qed
qed simp

lemma served_defined:
  assumes "agent_mapping_ok a"
    and "\<And>k io. (k, n, output) \<in> links a \<Longrightarrow> ios_of IGS_INPUT_T a k = Some io \<Longrightarrow> written_input env a vt data io \<noteq> None"
  shows "served env vt data (Some n) output a \<noteq> None"
proof (cases "ag_mapping a")
  case (Some m)
  have "take_entries env vt data (Some n) output (mg_map_elements m) a \<noteq> None"
  proof (rule take_entries_defined [OF takers_distinct [OF assms(1) Some]], intro ballI impI allI)
    fix e io assume "e \<in> set (mg_map_elements m)" "takes (Some n) output e" "ios_of IGS_INPUT_T a (mp_from_input e) = Some io"
    then show "written_input env a vt data io \<noteq> None"
      using Some by (intro assms(2)) (auto simp: links_def map_parts_def takes_def image_iff)
  qed
  with Some show ?thesis by (simp add: served_def)
qed (simp add: served_def)

section \<open>The early returns of the reception\<close>

lemma received_id_missing:
  assumes "\<not> cx_model_locked c" and "case popstr msg of None \<Rightarrow> True | Some (i, r) \<Rightarrow> length i < 32"
  shows "s_manage_received_publication env msg c = Some ((), c\<lparr> cx_model_locked := True \<rparr>)"
  using assms by (auto simp: s_manage_received_publication_def model_lock_def split: option.splits)

end
