(* ===== verification/Igs_Agent.thy ===== *)
theory Igs_Agent
  imports Igs_Subscribe_Laws
begin

text \<open>
  The life of an agent (src/src/igsagent.c) and its name, state, mute and elections
  (src/src/igs_network.c, from \<open>igsagent_set_name\<close> on): creation, activation with the events
  it sends to the agents of the process, deactivation, destruction. A pointer to an agent
  that a callback has destroyed is an absent entry of the store: its next use is \<open>None\<close>.

  The wrappers of callbacks are freed with their agent; the lists that are iterated hold
  copies of the pointers, so the agent must still be there when the next one is called.
\<close>

section \<open>Events to the agents of the process\<close>

text \<open>The callbacks of one agent, until it is no longer in the context.\<close>

fun event_observers ::
    "app_env \<Rightarrow> addr \<Rightarrow> string \<Rightarrow> igs_agent_event \<Rightarrow> string \<Rightarrow> string \<Rightarrow> string option \<Rightarrow> igs_wrapper list
     \<Rightarrow> igs_core \<Rightarrow> igs_core option" where
  "event_observers env p agent_uuid event uuid name event_data [] c = Some c"
| "event_observers env p agent_uuid event uuid name event_data (w # ws) c =
     do { a \<leftarrow> deref p c;
          if ag_uuid a = None then Some c
          else do { (_, c) \<leftarrow> unlocked (\<lambda>c.
                      do { c \<leftarrow> call_event env (wr_callback w) p event uuid name event_data (wr_my_data w) c; Some ((), c) }) c;
                    if zh_lookup (cx_agents c) agent_uuid = None then Some c
                    else event_observers env p agent_uuid event uuid name event_data ws c } }"

partial_function (option) propagate_loop ::
    "app_env \<Rightarrow> igs_agent_event \<Rightarrow> string \<Rightarrow> string \<Rightarrow> string option \<Rightarrow> string list \<Rightarrow> addr option
     \<Rightarrow> igs_core \<Rightarrow> igs_core option" where
  "propagate_loop env event uuid name event_data contacted cur c =
     (case cur of
        None \<Rightarrow> Some c
      | Some p \<Rightarrow>
          do { a \<leftarrow> deref p c;
               case ag_uuid a of
                 None \<Rightarrow> Some c
               | Some u \<Rightarrow>
                   do { c \<leftarrow> (if uuid = u then Some c
                             else event_observers env p u event uuid name event_data (ag_agent_event_callbacks a) c);
                        n \<leftarrow> next_agent (contacted @ [u]) (map snd (cx_agents c)) c;
                        propagate_loop env event uuid name event_data (contacted @ [u]) n c } })"

definition agent_LOCKED_propagate_agent_event ::
    "app_env \<Rightarrow> igs_agent_event \<Rightarrow> string option \<Rightarrow> string option \<Rightarrow> string option \<Rightarrow> unit core_op" where
  "agent_LOCKED_propagate_agent_event env event uuid name event_data c =
     (case (uuid, name) of
        (Some u, Some n) \<Rightarrow>
          locked (\<lambda>c. do { c \<leftarrow> propagate_loop env event u n event_data [] (first_agent c) c; Some ((), c) }) c
      | _ \<Rightarrow> Some ((), c))"

section \<open>Activation\<close>

text \<open>
  A local agent at \<open>q\<close> is announced to every observer of the agent at \<open>p\<close>. The strings of
  the local agent are copied before each call.
\<close>

fun local_entered ::
    "app_env \<Rightarrow> addr \<Rightarrow> addr \<Rightarrow> string \<Rightarrow> igs_wrapper list \<Rightarrow> igs_core \<Rightarrow> igs_core option" where
  "local_entered env p q local_agent_uuid [] c = Some c"
| "local_entered env p q local_agent_uuid (w # ws) c =
     do { l \<leftarrow> deref q c;
          u \<leftarrow> ag_uuid l;
          d \<leftarrow> ag_definition l;
          n \<leftarrow> df_name d;
          j \<leftarrow> df_json d;
          (_, c) \<leftarrow> unlocked (\<lambda>c.
            do { a \<leftarrow> deref p c;
                 c \<leftarrow> call_event env (wr_callback w) p IGS_AGENT_ENTERED u n (Some j) (wr_my_data w) c;
                 a \<leftarrow> deref p c;
                 c \<leftarrow> call_event env (wr_callback w) p IGS_AGENT_KNOWS_US u n None (wr_my_data w) c;
                 Some ((), c) }) c;
          if zh_lookup (cx_agents c) local_agent_uuid = None then Some c
          else local_entered env p q local_agent_uuid ws c }"

partial_function (option) activate_locals ::
    "app_env \<Rightarrow> addr \<Rightarrow> igs_wrapper list \<Rightarrow> string list \<Rightarrow> addr option \<Rightarrow> igs_core \<Rightarrow> igs_core option" where
  "activate_locals env p ws contacted cur c =
     (case cur of
        None \<Rightarrow> Some c
      | Some q \<Rightarrow>
          do { l \<leftarrow> deref q c;
               u \<leftarrow> ag_uuid l;
               a \<leftarrow> deref p c;
               c \<leftarrow> (if ag_uuid a \<noteq> None \<and> ag_uuid a \<noteq> Some u then local_entered env p q u ws c else Some c);
               n \<leftarrow> next_agent (contacted @ [u]) (map snd (cx_agents c)) c;
               activate_locals env p ws (contacted @ [u]) n c })"

text \<open>
  The loop over the observers for one remote agent ends after the first of them, unless an
  agent of the process has the uuid of the remote agent: it is looked up among the former.
\<close>

fun remote_entered ::
    "app_env \<Rightarrow> addr \<Rightarrow> string \<Rightarrow> igs_wrapper list \<Rightarrow> igs_core \<Rightarrow> igs_core option" where
  "remote_entered env p ruuid [] c = Some c"
| "remote_entered env p ruuid (w # ws) c =
     do { ra \<leftarrow> zh_lookup (cx_remote_agents c) ruuid;
          a \<leftarrow> deref p c;
          if ag_uuid a = None then Some c
          else do { (_, c) \<leftarrow> unlocked (\<lambda>c.
                      do { d \<leftarrow> ra_definition ra;
                           n \<leftarrow> df_name d;
                           c \<leftarrow> call_event env (wr_callback w) p IGS_AGENT_ENTERED ruuid n (df_json d) (wr_my_data w) c;
                           Some ((), c) }) c;
                    if zh_lookup (cx_agents c) ruuid = None then Some c
                    else remote_entered env p ruuid ws c } }"

definition next_remote :: "string list \<Rightarrow> igs_core \<Rightarrow> igs_remote_agent option" where
  "next_remote contacted c = find (\<lambda>ra. ra_uuid ra \<notin> set contacted) (map snd (cx_remote_agents c))"

partial_function (option) activate_remotes ::
    "app_env \<Rightarrow> addr \<Rightarrow> igs_wrapper list \<Rightarrow> string list \<Rightarrow> igs_remote_agent option \<Rightarrow> igs_core \<Rightarrow> igs_core option" where
  "activate_remotes env p ws contacted cur c =
     do { a \<leftarrow> deref p c;
          if ag_uuid a = None then Some c
          else (case cur of
                  None \<Rightarrow> Some c
                | Some ra \<Rightarrow>
                    do { c \<leftarrow> remote_entered env p (ra_uuid ra) ws c;
                         activate_remotes env p ws (contacted @ [ra_uuid ra]) (next_remote (contacted @ [ra_uuid ra]) c) c }) }"

text \<open>
  The part of \<open>igsagent_activate\<close> up to its first unlock, and the strings it then copies;
  \<open>None\<close> when the agent is in the context already.
\<close>

definition activate_enter :: "app_env \<Rightarrow> addr \<Rightarrow> (string \<times> string \<times> string) option core_op" where
  "activate_enter env p c =
     do { a \<leftarrow> deref p c;
          u \<leftarrow> ag_uuid a;
          let a = a\<lparr> ag_context := True,
                     ag_rt_timestamps_enabled := (ag_rt_timestamps_enabled a \<or> cx_rt_current_microseconds c \<noteq> INT64_MIN) \<rparr>;
          if zh_lookup (cx_agents c) u \<noteq> None then
            do { d \<leftarrow> ag_definition a; Some (None, store p a c) }
          else do {
            let a = a\<lparr> ag_need_definition_update := True, ag_activation_during_runtime := True \<rparr>;
            let c = (store p a c)\<lparr> cx_agents := zh_insert u p (cx_agents c) \<rparr>;
            c \<leftarrow> (if cx_node c then do { ch \<leftarrow> ag_igs_channel a; Some (emit (Zyre_Join ch) c) } else Some c);
            let ws = ag_agent_event_callbacks a;
            c \<leftarrow> activate_locals env p ws [] (first_agent c) c;
            c \<leftarrow> activate_remotes env p ws [] (next_remote [] c) c;
            a \<leftarrow> deref p c;
            u \<leftarrow> ag_uuid a;
            d \<leftarrow> ag_definition a;
            n \<leftarrow> df_name d;
            j \<leftarrow> df_json d;
            Some (Some (u, n, j), c) } }"

text \<open>The observers of activation and deactivation.\<close>

fun activation_observers :: "app_env \<Rightarrow> addr \<Rightarrow> bool \<Rightarrow> igs_wrapper list \<Rightarrow> igs_core \<Rightarrow> igs_core option" where
  "activation_observers env p b [] c = Some c"
| "activation_observers env p b (w # ws) c =
     do { a \<leftarrow> deref p c;
          if ag_uuid a = None then Some c
          else do { (_, c) \<leftarrow> unlocked (\<lambda>c.
                      do { c \<leftarrow> call_activate env (wr_callback w) p b (wr_my_data w) c; Some ((), c) }) c;
                    activation_observers env p b ws c } }"

text \<open>After the last observer of an activation the agent is read once more.\<close>

definition activate_callbacks :: "app_env \<Rightarrow> addr \<Rightarrow> unit core_op" where
  "activate_callbacks env p c =
     do { a \<leftarrow> deref p c;
          if ag_uuid a = None then Some ((), c)
          else do { c \<leftarrow> activation_observers env p True (ag_activate_callbacks a) c;
                    a \<leftarrow> deref p c;
                    Some ((), c) } }"

definition igsagent_activate :: "app_env \<Rightarrow> addr \<Rightarrow> igs_result core_op" where
  "igsagent_activate env p = with_agent p IGS_FAILURE (\<lambda>c.
     do { (r, c) \<leftarrow> locked (activate_enter env p) c;
          case r of
            None \<Rightarrow> Some (IGS_SUCCESS, c)
          | Some (u, n, j) \<Rightarrow>
              do { (_, c) \<leftarrow> agent_LOCKED_propagate_agent_event env IGS_AGENT_ENTERED (Some u) (Some n) (Some j) c;
                   (_, c) \<leftarrow> agent_LOCKED_propagate_agent_event env IGS_AGENT_KNOWS_US (Some u) (Some n) None c;
                   (_, c) \<leftarrow> locked (activate_callbacks env p) c;
                   Some (IGS_SUCCESS, c) } })"

section \<open>Deactivation and destruction\<close>

definition deactivate_body :: "app_env \<Rightarrow> addr \<Rightarrow> (string \<times> string) option core_op" where
  "deactivate_body env p c =
     do { a \<leftarrow> deref p c;
          u \<leftarrow> ag_uuid a;
          d \<leftarrow> ag_definition a;
          if zh_lookup (cx_agents c) u = None then Some (None, c)
          else do {
            n \<leftarrow> df_name d;
            c \<leftarrow> (if ag_context a \<and> cx_network_actor c \<and> cx_node c then
                   do { ch \<leftarrow> ag_igs_channel a;
                        Some (emit (Zyre_Leave ch) (emit (Zyre_Shout IGS_PRIVATE_CHANNEL [''REMOTE_AGENT_EXIT'', u, n]) c)) }
                 else Some c);
            let c = (store p (a\<lparr> ag_context := False \<rparr>) c)\<lparr> cx_agents := zh_delete u (cx_agents c) \<rparr>;
            c \<leftarrow> activation_observers env p False (ag_activate_callbacks a) c;
            Some (Some (u, n), c) } }"

definition igsagent_deactivate :: "app_env \<Rightarrow> addr \<Rightarrow> igs_result core_op" where
  "igsagent_deactivate env p = with_agent p IGS_FAILURE (\<lambda>c.
     do { (r, c) \<leftarrow> locked (deactivate_body env p) c;
          case r of
            None \<Rightarrow> Some (IGS_SUCCESS, c)
          | Some (u, n) \<Rightarrow>
              do { (_, c) \<leftarrow> agent_LOCKED_propagate_agent_event env IGS_AGENT_EXITED (Some u) (Some n) None c;
                   Some (IGS_SUCCESS, c) } })"

definition igsagent_is_activated :: "addr \<Rightarrow> bool core_op" where
  "igsagent_is_activated p = with_agent p False (locked (\<lambda>c.
     do { a \<leftarrow> deref p c; u \<leftarrow> ag_uuid a; Some (zh_lookup (cx_agents c) u \<noteq> None, c) }))"

text \<open>The agent leaves the table of created agents and is freed.\<close>

definition destroy_body :: "addr \<Rightarrow> unit core_op" where
  "destroy_body p c =
     do { a \<leftarrow> deref p c;
          u \<leftarrow> ag_uuid a;
          Some ((), c\<lparr> cx_created_agents := zh_delete u (cx_created_agents c), cx_store := (cx_store c)(p := None) \<rparr>) }"

definition igsagent_destroy :: "app_env \<Rightarrow> addr \<Rightarrow> unit core_op" where
  "igsagent_destroy env p c =
     do { (b, c) \<leftarrow> igsagent_is_activated p c;
          c \<leftarrow> (if b then do { (_, c) \<leftarrow> igsagent_deactivate env p c; Some c } else Some c);
          with_agent p () (locked (destroy_body p)) c }"

section \<open>Names\<close>

definition channel_of :: "string \<Rightarrow> string" where
  "channel_of name = name @ ''-IGS''"

text \<open>The class follows the name as long as nobody set it.\<close>

definition renamed :: "string \<Rightarrow> igs_definition \<Rightarrow> igs_definition" where
  "renamed n d = d\<lparr> df_name := Some n,
     df_my_class := (case df_my_class d of
        None \<Rightarrow> Some n
      | Some cl \<Rightarrow> if df_name d = Some cl \<and> \<not> df_class_set_explicitly d then Some n else Some cl) \<rparr>"

text \<open>\<open>streq\<close> reads the name of the definition, which must be there.\<close>

definition set_name_body :: "addr \<Rightarrow> string \<Rightarrow> unit core_op" where
  "set_name_body p name c =
     do { a \<leftarrow> deref p c;
          d \<leftarrow> ag_definition a;
          previous \<leftarrow> df_name d;
          if previous = name then
            Some ((), if ag_igs_channel a = None then store p (a\<lparr> ag_igs_channel := Some (channel_of previous) \<rparr>) c else c)
          else do {
            n \<leftarrow> strndup_str name IGS_MAX_AGENT_NAME_LENGTH;
            a \<leftarrow> definition_changed (a\<lparr> ag_definition := Some (renamed n d) \<rparr>);
            let c = store p (a\<lparr> ag_igs_channel := Some (channel_of n) \<rparr>) c;
            Some ((), if ag_context a \<and> cx_node c
                      then emit (Zyre_Join (channel_of n)) (emit (Zyre_Leave (channel_of previous)) c) else c) } }"

definition igsagent_set_name :: "addr \<Rightarrow> string \<Rightarrow> unit core_op" where
  "igsagent_set_name p name = with_agent p () (\<lambda>c.
     do { c_assert (name \<noteq> []); checked name IGS_MAX_AGENT_NAME_LENGTH; locked (set_name_body p name) c })"

definition igsagent_name :: "addr \<Rightarrow> string option core_op" where
  "igsagent_name p = with_agent p None (\<lambda>c.
     do { a \<leftarrow> deref p c;
          d \<leftarrow> ag_definition a;
          c_assert (df_name d \<noteq> None);
          locked (read_agent p (\<lambda>a. do { d \<leftarrow> ag_definition a; n \<leftarrow> df_name d; Some (Some n) })) c })"

definition igsagent_uuid :: "addr \<Rightarrow> string option core_op" where
  "igsagent_uuid p c =
     do { a \<leftarrow> deref p c;
          c_assert (ag_uuid a \<noteq> None);
          locked (read_agent p (\<lambda>a. Some (ag_uuid a))) c }"

section \<open>Creation\<close>

definition zeroed_agent :: igs_agent where
  "zeroed_agent = \<lparr> ag_uuid = None, ag_state = None, ag_is_virtual = False, ag_context = False, ag_igs_channel = None,
     ag_activate_callbacks = [], ag_agent_event_callbacks = [], ag_enforce_constraints = False, ag_definition_path = None,
     ag_definition = None, ag_mapping_path = None, ag_mapping = None, ag_rt_timestamps_enabled = False,
     ag_rt_current_timestamp = 0, ag_rt_synchronous_mode = False, ag_need_definition_update = False,
     ag_need_mapping_update = False, ag_request_outputs = False, ag_activation_during_runtime = False,
     ag_is_whole_agent_muted = False, ag_mute_callbacks = [], ag_elections = None \<rparr>"

definition new_agent_body :: "app_env \<Rightarrow> addr core_op" where
  "new_agent_body env c =
     (let p = zmalloc_agent env c;
          u = zuuid_new env c;
          a = zeroed_agent\<lparr> ag_uuid := Some u, ag_rt_current_timestamp := INT64_MIN \<rparr>
      in Some (p, (store p a c)\<lparr> cx_created_agents := zh_insert u p (cx_created_agents c) \<rparr>))"

text \<open>The context exists already (\<open>core_init_context\<close>).\<close>

definition igsagent_new :: "app_env \<Rightarrow> string \<Rightarrow> bool \<Rightarrow> addr core_op" where
  "igsagent_new env name activate_immediately c =
     do { (p, c) \<leftarrow> locked (new_agent_body env) c;
          (_, c) \<leftarrow> igsagent_clear_definition p c;
          (_, c) \<leftarrow> igsagent_set_name p name c;
          (_, c) \<leftarrow> igsagent_clear_mappings p c;
          c \<leftarrow> (if activate_immediately then do { (_, c) \<leftarrow> igsagent_activate env p c; Some c } else Some c);
          Some (p, c) }"

section \<open>State, mute, real time\<close>

text \<open>The comparison with the present state, and the arguments of the event, are read without the lock.\<close>

definition set_state_body :: "addr \<Rightarrow> string \<Rightarrow> unit core_op" where
  "set_state_body p state c =
     do { a \<leftarrow> deref p c;
          s \<leftarrow> strndup_str state IGS_MAX_STATE_LENGTH;
          let c = store p (a\<lparr> ag_state := Some s \<rparr>) c;
          if ag_context a \<and> cx_node c then
            do { u \<leftarrow> ag_uuid a; Some ((), emit (Zyre_Shout IGS_PRIVATE_CHANNEL [''STATE'', s, u]) c) }
          else Some ((), c) }"

definition igsagent_set_state :: "app_env \<Rightarrow> addr \<Rightarrow> string \<Rightarrow> unit core_op" where
  "igsagent_set_state env p state = with_agent p () (\<lambda>c.
     do { a \<leftarrow> deref p c;
          if ag_state a = Some state then Some ((), c)
          else do { (_, c) \<leftarrow> locked (set_state_body p state) c;
                    a \<leftarrow> deref p c;
                    d \<leftarrow> ag_definition a;
                    agent_LOCKED_propagate_agent_event env IGS_AGENT_CHANGED_STATE (ag_uuid a) (df_name d) (Some state) c } })"

definition igsagent_state :: "addr \<Rightarrow> string option core_op" where
  "igsagent_state p = read_io None (\<lambda>a. Some (ag_state a)) p"

fun mute_observers :: "app_env \<Rightarrow> addr \<Rightarrow> igs_wrapper list \<Rightarrow> igs_core \<Rightarrow> igs_core option" where
  "mute_observers env p [] c = Some c"
| "mute_observers env p (w # ws) c =
     do { a \<leftarrow> deref p c;
          if ag_uuid a = None then Some c
          else do { (_, c) \<leftarrow> unlocked (\<lambda>c.
                      do { c \<leftarrow> call_mute env (wr_callback w) p (ag_is_whole_agent_muted a) (wr_my_data w) c; Some ((), c) }) c;
                    mute_observers env p ws c } }"

text \<open>The observers are told whether or not the state of the agent changed.\<close>

definition mute_body :: "app_env \<Rightarrow> bool \<Rightarrow> addr \<Rightarrow> unit core_op" where
  "mute_body env b p c =
     do { a \<leftarrow> deref p c;
          c \<leftarrow> (if ag_is_whole_agent_muted a = b then Some c
               else (let c = store p (a\<lparr> ag_is_whole_agent_muted := b \<rparr>) c
                     in if ag_context a \<and> cx_network_actor c \<and> cx_node c then
                          do { u \<leftarrow> ag_uuid a;
                               Some (emit (Zyre_Shout IGS_PRIVATE_CHANNEL [''MUTED'', fmt_d (if b then 1 else 0), u]) c) }
                        else Some c));
          c \<leftarrow> mute_observers env p (ag_mute_callbacks a) c;
          Some ((), c) }"

definition igsagent_mute :: "app_env \<Rightarrow> addr \<Rightarrow> unit core_op" where
  "igsagent_mute env p = with_agent p () (locked (mute_body env True p))"

definition igsagent_unmute :: "app_env \<Rightarrow> addr \<Rightarrow> unit core_op" where
  "igsagent_unmute env p = with_agent p () (locked (mute_body env False p))"

definition igsagent_is_muted :: "addr \<Rightarrow> bool core_op" where
  "igsagent_is_muted p = read_io False (\<lambda>a. Some (ag_is_whole_agent_muted a)) p"

definition change_agent :: "addr \<Rightarrow> (igs_agent \<Rightarrow> igs_agent) \<Rightarrow> unit core_op" where
  "change_agent p f = on_agent p (\<lambda>a. Some ((), f a))"

definition igsagent_observe :: "addr \<Rightarrow> nat \<Rightarrow> nat \<Rightarrow> unit core_op" where
  "igsagent_observe p cb my_data = with_agent p () (locked (change_agent p
     (\<lambda>a. a\<lparr> ag_activate_callbacks := ag_activate_callbacks a @ [\<lparr> wr_callback = cb, wr_my_data = my_data \<rparr>] \<rparr>)))"

definition igsagent_observe_agent_events :: "addr \<Rightarrow> nat \<Rightarrow> nat \<Rightarrow> unit core_op" where
  "igsagent_observe_agent_events p cb my_data = with_agent p () (locked (change_agent p
     (\<lambda>a. a\<lparr> ag_agent_event_callbacks := ag_agent_event_callbacks a @ [\<lparr> wr_callback = cb, wr_my_data = my_data \<rparr>] \<rparr>)))"

definition igsagent_observe_mute :: "addr \<Rightarrow> nat \<Rightarrow> nat \<Rightarrow> unit core_op" where
  "igsagent_observe_mute p cb my_data = with_agent p () (locked (change_agent p
     (\<lambda>a. a\<lparr> ag_mute_callbacks := ag_mute_callbacks a @ [\<lparr> wr_callback = cb, wr_my_data = my_data \<rparr>] \<rparr>)))"

definition igsagent_mapping_set_outputs_request :: "addr \<Rightarrow> bool \<Rightarrow> unit core_op" where
  "igsagent_mapping_set_outputs_request p b = locked (change_agent p (\<lambda>a. a\<lparr> ag_request_outputs := b \<rparr>))"

definition igsagent_mapping_outputs_request :: "addr \<Rightarrow> bool core_op" where
  "igsagent_mapping_outputs_request p = read_agent p (\<lambda>a. Some (ag_request_outputs a))"

text \<open>The functions of real time do not lock.\<close>

definition igsagent_rt_get_current_timestamp :: "addr \<Rightarrow> int core_op" where
  "igsagent_rt_get_current_timestamp p = with_agent p 0 (read_agent p (\<lambda>a. Some (ag_rt_current_timestamp a)))"

definition igsagent_rt_set_timestamps :: "addr \<Rightarrow> bool \<Rightarrow> unit core_op" where
  "igsagent_rt_set_timestamps p b = with_agent p () (change_agent p (\<lambda>a. a\<lparr> ag_rt_timestamps_enabled := b \<rparr>))"

definition igsagent_rt_timestamps :: "addr \<Rightarrow> bool core_op" where
  "igsagent_rt_timestamps p = with_agent p False (read_agent p (\<lambda>a. Some (ag_rt_timestamps_enabled a)))"

definition igsagent_rt_set_synchronous_mode :: "addr \<Rightarrow> bool \<Rightarrow> unit core_op" where
  "igsagent_rt_set_synchronous_mode p b = with_agent p () (change_agent p (\<lambda>a. a\<lparr> ag_rt_synchronous_mode := b \<rparr>))"

definition igsagent_rt_synchronous_mode :: "addr \<Rightarrow> bool core_op" where
  "igsagent_rt_synchronous_mode p = with_agent p False (read_agent p (\<lambda>a. Some (ag_rt_synchronous_mode a)))"

section \<open>The default agent\<close>

definition set_network :: "(igs_network \<Rightarrow> igs_network) \<Rightarrow> igs_core \<Rightarrow> igs_core" where
  "set_network f c = c\<lparr> cx_network := f (cx_network c) \<rparr>"

text \<open>\<open>core_init_agent\<close>, with the agent it leaves in \<open>core_agent\<close>.\<close>

definition core_init_agent :: "app_env \<Rightarrow> addr core_op" where
  "core_init_agent env c =
     (case nt_core_agent (cx_network c) of
        Some p \<Rightarrow> Some (p, c)
      | None \<Rightarrow>
          do { (p, c) \<leftarrow> igsagent_new env IGS_DEFAULT_AGENT_NAME True c;
               a \<leftarrow> deref p c;
               Some (p, set_network (\<lambda>n. n\<lparr> nt_core_agent := Some p \<rparr>) (store p (a\<lparr> ag_context := True \<rparr>) c)) })"

definition with_core_agent :: "app_env \<Rightarrow> (addr \<Rightarrow> 'r core_op) \<Rightarrow> 'r core_op" where
  "with_core_agent env f c = do { (p, c) \<leftarrow> core_init_agent env c; f p c }"

section \<open>Freezing the whole process\<close>

fun shout_frozen :: "string \<Rightarrow> addr list \<Rightarrow> igs_core \<Rightarrow> igs_core option" where
  "shout_frozen b [] c = Some c"
| "shout_frozen b (p # ps) c =
     do { a \<leftarrow> deref p c;
          u \<leftarrow> ag_uuid a;
          shout_frozen b ps (emit (Zyre_Shout IGS_PRIVATE_CHANNEL [''FROZEN'', b, u]) c) }"

fun freeze_observers :: "app_env \<Rightarrow> bool \<Rightarrow> igs_wrapper list \<Rightarrow> igs_core \<Rightarrow> igs_core option" where
  "freeze_observers env b [] c = Some c"
| "freeze_observers env b (w # ws) c =
     do { (_, c) \<leftarrow> unlocked (\<lambda>c. do { c \<leftarrow> call_freeze env (wr_callback w) b (wr_my_data w) c; Some ((), c) }) c;
          freeze_observers env b ws c }"

definition freeze_to :: "app_env \<Rightarrow> bool \<Rightarrow> bool \<Rightarrow> unit core_op" where
  "freeze_to env b shouts = locked (\<lambda>c.
     if cx_is_frozen c = b then Some ((), c)
     else do { c \<leftarrow> (if shouts then shout_frozen (if b then ''1'' else ''0'') (map snd (cx_agents c)) c else Some c);
               let c = c\<lparr> cx_is_frozen := b \<rparr>;
               c \<leftarrow> freeze_observers env b (cx_freeze_callbacks c) c;
               Some ((), c) })"

definition igs_freeze :: "app_env \<Rightarrow> unit core_op" where
  "igs_freeze env = with_core_agent env (\<lambda>_ c. freeze_to env True (cx_node c) c)"

definition igs_unfreeze :: "app_env \<Rightarrow> unit core_op" where
  "igs_unfreeze env = with_core_agent env (\<lambda>_ c. freeze_to env False (cx_network_actor c \<and> cx_node c) c)"

definition igs_is_frozen :: "app_env \<Rightarrow> bool core_op" where
  "igs_is_frozen env = with_core_agent env (\<lambda>_ c. Some (cx_is_frozen c, c))"

definition igs_observe_freeze :: "app_env \<Rightarrow> nat \<Rightarrow> nat \<Rightarrow> unit core_op" where
  "igs_observe_freeze env cb my_data = with_core_agent env (\<lambda>_. locked (\<lambda>c.
     Some ((), c\<lparr> cx_freeze_callbacks := cx_freeze_callbacks c @ [\<lparr> wr_callback = cb, wr_my_data = my_data \<rparr>] \<rparr>)))"

section \<open>Elections\<close>

definition election_channel :: "string \<Rightarrow> string" where
  "election_channel name = [CHR 0x5C, CHR ''o'', CHR ''/'', CHR '' ''] @ name"

text \<open>The uuid of the agent is read without a check.\<close>

definition join_body :: "addr \<Rightarrow> string \<Rightarrow> igs_result core_op" where
  "join_body p el c =
     do { a \<leftarrow> deref p c;
          u \<leftarrow> ag_uuid a;
          let es = zh_lookup (cx_elections c) el;
          if es \<noteq> None \<and> u \<in> set (the es) then do { d \<leftarrow> ag_definition a; Some (IGS_FAILURE, c) }
          else do {
            let c = (if es = None \<and> cx_node c then emit (Zyre_Join el) (emit (Zyre_Contest el) c) else c);
            let c = c\<lparr> cx_elections := zh_update el (\<lambda>us. us @ [u]) (zh_insert el [] (cx_elections c)) \<rparr>;
            let mine = (case ag_elections a of None \<Rightarrow> [] | Some els \<Rightarrow> els);
            Some (IGS_SUCCESS, store p (a\<lparr> ag_elections := Some (mine @ [el]) \<rparr>) c) } }"

definition igsagent_election_join :: "addr \<Rightarrow> string \<Rightarrow> igs_result core_op" where
  "igsagent_election_join p name c =
     (if name = IGS_PRIVATE_CHANNEL then Some (IGS_FAILURE, c)
      else if length (election_channel name) > 255 then Some (IGS_FAILURE, c)
      else locked (join_body p (election_channel name)) c)"

definition leave_body :: "addr \<Rightarrow> string \<Rightarrow> igs_result core_op" where
  "leave_body p el c =
     (case zh_lookup (cx_elections c) el of
        None \<Rightarrow> Some (IGS_FAILURE, c)
      | Some us \<Rightarrow>
          do { a \<leftarrow> deref p c;
               u \<leftarrow> (if us = [] then Some [] else ag_uuid a);
               mine \<leftarrow> ag_elections a;
               let us = remove_first (\<lambda>x. x = u) us;
               let c = (if us = []
                        then (let c = c\<lparr> cx_elections := zh_delete el (cx_elections c) \<rparr>
                              in if cx_node c then emit (Zyre_Leave el) c else c)
                        else c\<lparr> cx_elections := zh_update el (\<lambda>_. us) (cx_elections c) \<rparr>);
               let mine = remove_first (\<lambda>x. x = el) mine;
               Some (IGS_SUCCESS, store p (a\<lparr> ag_elections := (if mine = [] then None else Some mine) \<rparr>) c) })"

definition igsagent_election_leave :: "addr \<Rightarrow> string \<Rightarrow> igs_result core_op" where
  "igsagent_election_leave p name c =
     do { a \<leftarrow> deref p c;
          if ag_elections a = None then do { d \<leftarrow> ag_definition a; Some (IGS_SUCCESS, c) }
          else if length (election_channel name) > 255 then Some (IGS_FAILURE, c)
          else locked (leave_body p (election_channel name)) c }"

end
