(* ===== verification/Igs_Context.thy ===== *)
theory Igs_Context
  imports Igs_Agent
begin

text \<open>
  The invariant of the context: both tables of agents have one entry per uuid, every
  active agent was created, and behind every entry of the table of created agents there
  is an agent with that uuid, a well-formed definition and a well-formed mapping. The
  functions on one agent keep it because they touch the definition only
  (\<open>definition_op\<close>) or the mapping only (\<open>mapping_op\<close>).
\<close>

definition good :: "string \<Rightarrow> igs_agent \<Rightarrow> bool" where
  "good u a \<longleftrightarrow> ag_uuid a = Some u \<and> agent_wf a \<and> agent_mapping_ok a \<and> ag_definition a \<noteq> None \<and> ag_mapping a \<noteq> None"

definition ctx_ok :: "igs_core \<Rightarrow> bool" where
  "ctx_ok c \<longleftrightarrow> zh_wf (cx_created_agents c) \<and> zh_wf (cx_agents c) \<and> set (cx_agents c) \<subseteq> set (cx_created_agents c)
     \<and> (\<forall>(u, p) \<in> set (cx_created_agents c). \<exists>a. deref p c = Some a \<and> good u a)"

lemma good_fed: "good u a \<Longrightarrow> fed a" by (simp add: good_def fed_def)

text \<open>What the handler of publications asks of the context.\<close>

lemma ctx_ok_feeding:
  assumes "ctx_ok c" shows "feeding (cx_agents c) c \<and> distinct (map fst (cx_agents c))"
proof -
  have "\<exists>a. deref p c = Some a \<and> fed a \<and> ag_uuid a = Some u" if "(u, p) \<in> set (cx_agents c)" for u p
  proof -
    have "(u, p) \<in> set (cx_created_agents c)" using assms that by (auto simp: ctx_ok_def)
    then obtain a where "deref p c = Some a" "good u a" using assms by (auto simp: ctx_ok_def)
    then show ?thesis using good_fed [of u a] by (auto simp: good_def)
  qed
  then show ?thesis using assms by (auto simp: feeding_def ctx_ok_def zh_wf_def)
qed

lemma ctx_ok_agent: "ctx_ok c \<Longrightarrow> (u, p) \<in> set (cx_created_agents c) \<Longrightarrow> deref p c = Some a \<Longrightarrow> good u a"
  by (auto simp: ctx_ok_def)

section \<open>Operations that keep a property of the context\<close>

named_theorems preserve_intros \<open>operations that keep the invariant of the context\<close>

definition preserves :: "(igs_core \<Rightarrow> bool) \<Rightarrow> 'r core_op \<Rightarrow> bool" where
  "preserves Q op \<longleftrightarrow> (\<forall>c r c'. Q c \<longrightarrow> op c = Some (r, c') \<longrightarrow> Q c')"

lemma preservesI: "(\<And>c r c'. Q c \<Longrightarrow> op c = Some (r, c') \<Longrightarrow> Q c') \<Longrightarrow> preserves Q op"
  by (auto simp: preserves_def)

lemma preservesD: "preserves Q op \<Longrightarrow> Q c \<Longrightarrow> op c = Some (r, c') \<Longrightarrow> Q c'"
  by (auto simp: preserves_def)

lemma preserves_pure [preserve_intros]: "preserves Q (\<lambda>c. Some (r, c))" "preserves Q (\<lambda>c. None)"
  by (simp_all add: preserves_def)

lemma preserves_bind [preserve_intros]:
  "preserves Q f \<Longrightarrow> (\<And>r. preserves Q (g r)) \<Longrightarrow> preserves Q (\<lambda>c. do { (r, c) \<leftarrow> f c; g r c })"
  by (rule preservesI) (auto simp: bind_some_eqs dest: preservesD)

lemma preserves_guard [preserve_intros]:
  assumes "\<And>x. preserves Q (g x)" shows "preserves Q (\<lambda>c. do { x \<leftarrow> h c; g x c })"
proof (rule preservesI)
  fix c r c' assume q: "Q c" and o: "(do { x \<leftarrow> h c; g x c }) = Some (r, c')"
  then obtain x where "g x c = Some (r, c')" by (auto simp only: bind_some_eqs)
  from preservesD [OF assms q this] show "Q c'" .
qed

lemma preserves_if [preserve_intros]: "preserves Q f \<Longrightarrow> preserves Q g \<Longrightarrow> preserves Q (\<lambda>c. if b c then f c else g c)"
  by (rule preservesI) (simp split: if_splits, (blast dest: preservesD)+)

lemma preserves_with_agent [preserve_intros]: "preserves Q op \<Longrightarrow> preserves Q (with_agent p dflt op)"
  by (rule preservesI) (auto simp: with_agent_iff dest: preservesD split: if_splits)

lemma preserves_read_agent [preserve_intros]: "preserves Q (read_agent p f)"
  by (auto simp: preserves_def read_agent_def bind_some_eqs)

text \<open>A property that does not look at the mutex nor at the events.\<close>

locale context_law =
  fixes Q :: "igs_core \<Rightarrow> bool"
  assumes lock: "Q (c\<lparr> cx_model_locked := b \<rparr>) = Q c"
    and frame: "cx_store c' = cx_store c \<Longrightarrow> cx_created_agents c' = cx_created_agents c \<Longrightarrow> cx_agents c' = cx_agents c \<Longrightarrow> Q c' = Q c"
begin

lemma preserves_locked:
  assumes "preserves Q op" shows "preserves Q (locked op)"
proof (rule preservesI)
  fix c r c' assume q: "Q c" and l: "locked op c = Some (r, c')"
  then obtain c1 where "op (c\<lparr> cx_model_locked := True \<rparr>) = Some (r, c1)" "c' = c1\<lparr> cx_model_locked := False \<rparr>"
    by (auto simp: locked_def model_lock_def model_unlock_def bind_some_eqs split: if_splits)
  with q preservesD [OF assms, of "c\<lparr> cx_model_locked := True \<rparr>" r c1] show "Q c'" by (simp add: lock)
qed

lemma preserves_unlocked:
  assumes "preserves Q op" shows "preserves Q (unlocked op)"
proof (rule preservesI)
  fix c r c' assume q: "Q c" and l: "unlocked op c = Some (r, c')"
  then obtain c1 where "op (c\<lparr> cx_model_locked := False \<rparr>) = Some (r, c1)" "c' = c1\<lparr> cx_model_locked := True \<rparr>"
    by (auto simp: unlocked_def model_lock_def model_unlock_def bind_some_eqs split: if_splits)
  with q preservesD [OF assms, of "c\<lparr> cx_model_locked := False \<rparr>" r c1] show "Q c'" by (simp add: lock)
qed

lemma preserves_same:
  "(\<And>c r c'. op c = Some (r, c') \<Longrightarrow> cx_store c' = cx_store c \<and> cx_created_agents c' = cx_created_agents c
      \<and> cx_agents c' = cx_agents c) \<Longrightarrow> preserves Q op"
  by (rule preservesI) (metis frame)

end

interpretation ctx: context_law ctx_ok
  by unfold_locales (simp_all add: ctx_ok_def deref_def)

lemmas [preserve_intros] = ctx.preserves_locked ctx.preserves_unlocked

lemma ctx_ok_simps [simp]:
  "ctx_ok (c\<lparr> cx_model_locked := b \<rparr>) = ctx_ok c" "ctx_ok (emit e c) = ctx_ok c"
  by (simp_all add: ctx_ok_def deref_def emit_def)

section \<open>Changes of one agent\<close>

lemma ctx_ok_store:
  assumes "ctx_ok c" and "deref p c = Some a" and "\<And>u. good u a \<Longrightarrow> good u a'"
  shows "ctx_ok (store p a' c)"
proof -
  have "\<exists>b. deref q (store p a' c) = Some b \<and> good u b" if "(u, q) \<in> set (cx_created_agents c)" for u q
  proof -
    obtain b where b: "deref q c = Some b" "good u b" using assms(1) \<open>(u, q) \<in> _\<close> by (auto simp: ctx_ok_def)
    then show ?thesis using assms(2,3) by (cases "q = p") auto
  qed
  then show ?thesis using assms(1) by (auto simp: ctx_ok_def store_def)
qed

lemma preserves_on_agent:
  assumes "\<And>u a r a'. good u a \<Longrightarrow> f a = Some (r, a') \<Longrightarrow> good u a'" shows "preserves ctx_ok (on_agent p f)"
  by (rule preservesI) (auto simp: on_agent_def bind_some_eqs intro: ctx_ok_store assms)

definition definition_side :: "igs_agent \<Rightarrow> igs_agent \<Rightarrow> bool" where
  "definition_side a a' \<longleftrightarrow> ag_uuid a' = ag_uuid a \<and> ag_mapping a' = ag_mapping a \<and> (ag_definition a \<noteq> None \<longrightarrow> ag_definition a' \<noteq> None)"

definition mapping_side :: "igs_agent \<Rightarrow> igs_agent \<Rightarrow> bool" where
  "mapping_side a a' \<longleftrightarrow> ag_uuid a' = ag_uuid a \<and> ag_definition a' = ag_definition a \<and> (ag_mapping a \<noteq> None \<longrightarrow> ag_mapping a' \<noteq> None)"

locale definition_op = agent_law agent_wf f for f :: "igs_agent \<Rightarrow> ('r \<times> igs_agent) option" +
  assumes side: "f a = Some (r, a') \<Longrightarrow> definition_side a a'"
begin

lemma keeps_good: "good u a \<Longrightarrow> f a = Some (r, a') \<Longrightarrow> good u a'"
  using side [of a r a'] keeps [of a r a'] by (auto simp: good_def definition_side_def agent_mapping_ok_def)

lemma preserves_ctx: "preserves ctx_ok (on_agent p f)"
  by (rule preserves_on_agent [OF keeps_good])

end

locale mapping_op = agent_law agent_mapping_ok f for f :: "igs_agent \<Rightarrow> ('r \<times> igs_agent) option" +
  assumes side: "f a = Some (r, a') \<Longrightarrow> mapping_side a a'"
begin

lemma keeps_good: "good u a \<Longrightarrow> f a = Some (r, a') \<Longrightarrow> good u a'"
  using side [of a r a'] keeps [of a r a'] by (auto simp: good_def mapping_side_def agent_wf_def)

lemma preserves_ctx: "preserves ctx_ok (on_agent p f)"
  by (rule preserves_on_agent [OF keeps_good])

end

section \<open>The sides of the functions\<close>

lemma definition_changed_side: "definition_changed a = Some a' \<Longrightarrow> definition_side a a'"
  by (auto simp: definition_changed_def definition_side_def bind_some_eqs need_definition_update_def)

lemma definition_side_refl [simp]: "definition_side a a"
  by (simp add: definition_side_def)

lemma definition_side_trans: "definition_side a b \<Longrightarrow> definition_side b c \<Longrightarrow> definition_side a c"
  by (simp add: definition_side_def)

lemma definition_side_frame [simp]:
  "definition_side a (on_io t k f a)" "definition_side a (on_service n g a)"
  "definition_side a (a\<lparr> ag_definition := Some d \<rparr>)"
  by (simp_all add: definition_side_def on_service_def)

lemma definition_changed_from:
  "definition_changed b = Some a' \<Longrightarrow> definition_side a b \<Longrightarrow> definition_side a a'"
  by (blast intro: definition_side_trans definition_changed_side)

lemma service_changed_side: "service_changed n g a = Some (r, a') \<Longrightarrow> definition_side a a'"
  by (auto simp: service_changed_def bind_some_eqs intro: definition_changed_from)

interpretation write_op: definition_op "\<lambda>a. model_write env a name t vt v sz" for env name t vt v sz
  by unfold_locales (auto simp: model_write_def bind_some_eqs split: option.splits if_splits)

interpretation add_constraint_op: definition_op "\<lambda>a. s_model_add_constraint env a t name s" for env t name s
  by unfold_locales (auto simp: s_model_add_constraint_def bind_some_eqs Let_def split: option.splits if_splits
      dest!: definition_changed_from [OF _ definition_side_frame(1)])

interpretation set_description_op: definition_op "\<lambda>a. s_model_set_description a t name s" for t name s
  by unfold_locales (auto simp: s_model_set_description_def bind_some_eqs split: option.splits if_splits intro: definition_changed_from)

interpretation set_detailed_type_op: definition_op "\<lambda>a. s_model_set_detailed_type a t name s s'" for t name s s'
  by unfold_locales (auto simp: s_model_set_detailed_type_def bind_some_eqs split: option.splits if_splits intro: definition_changed_from)

interpretation remove_op: definition_op "remove_body t name" for t name
  by unfold_locales (auto simp: remove_body_def bind_some_eqs split: option.splits if_splits intro: definition_changed_from)

lemma create_io_side:
  assumes "definition_create_io env a name t n v sz = Some (made, a')" shows "definition_side a a'"
proof -
  have w: "model_write env (a\<lparr> ag_definition := Some d \<rparr>) nm t vt v sz = Some (ok, a') \<Longrightarrow> definition_side a a'" for d nm vt ok
    using write_op.side definition_side_trans definition_side_frame(3) by blast
  obtain d where d: "ag_definition a = Some d" using assms by (auto simp: definition_create_io_def bind_some_eqs)
  show ?thesis
  proof (cases "value_type_of n")
    case None
    with assms d show ?thesis by (auto simp: definition_create_io_def bind_some_eqs)
  next
    case (Some vt)
    with assms d obtain nm where nm: "(let (r, d) = definition_add_io_to_definition (new_io nm t vt) t d
        in if r \<noteq> IGS_SUCCESS then Some (False, a)
           else do { (w, a) \<leftarrow> model_write env (a\<lparr> ag_definition := Some d \<rparr>) nm t vt v sz; Some (True, a) }) = Some (made, a')"
      by (auto simp: definition_create_io_def bind_some_eqs)
    obtain r d' where "definition_add_io_to_definition (new_io nm t vt) t d = (r, d')" by (meson surj_pair)
    with nm show ?thesis by (auto simp: bind_some_eqs split: if_splits elim: w)
  qed
qed

lemma create_body_side: "create_body env name t n v sz a = Some (r, a') \<Longrightarrow> definition_side a a'"
  by (auto simp: create_body_def bind_some_eqs split: if_splits dest!: create_io_side intro: definition_changed_from)

interpretation create_op: definition_op "create_body env name t n v sz" for env name t n v sz
  by unfold_locales (rule create_body_side)

interpretation service_remove_op: definition_op "service_remove_body name" for name
  by unfold_locales (auto simp: service_bodies bind_some_eqs elim!: with_service_cases intro: definition_changed_from)

interpretation service_describe_op: definition_op "service_describe_body name descr" for name descr
  by unfold_locales (auto simp: service_bodies bind_some_eqs elim!: with_service_cases service_changed_side split: option.splits if_splits)

interpretation arg_add_op: definition_op "arg_add_body name arg t" for name arg t
  by unfold_locales (auto simp: service_bodies bind_some_eqs elim!: with_service_cases service_changed_side split: option.splits if_splits)

interpretation arg_remove_op: definition_op "arg_remove_body name arg" for name arg
  by unfold_locales (auto simp: service_bodies bind_some_eqs elim!: with_service_cases service_changed_side split: option.splits if_splits)

interpretation arg_describe_op: definition_op "arg_describe_body name arg descr" for name arg descr
  by unfold_locales (auto simp: service_bodies bind_some_eqs elim!: with_service_cases service_changed_side split: option.splits if_splits)

interpretation reply_remove_op: definition_op "reply_remove_body name reply" for name reply
  by unfold_locales (auto simp: service_bodies bind_some_eqs elim!: with_reply_cases service_changed_side split: option.splits if_splits)

interpretation reply_describe_op: definition_op "reply_describe_body name reply descr" for name reply descr
  by unfold_locales (auto simp: service_bodies bind_some_eqs elim!: with_reply_cases service_changed_side split: option.splits if_splits)

interpretation reply_arg_add_op: definition_op "reply_arg_add_body name reply arg t" for name reply arg t
  by unfold_locales (auto simp: service_bodies bind_some_eqs elim!: with_reply_cases service_changed_side split: option.splits if_splits)

interpretation reply_arg_remove_op: definition_op "reply_arg_remove_body name reply arg" for name reply arg
  by unfold_locales (auto simp: service_bodies bind_some_eqs elim!: with_reply_cases service_changed_side split: option.splits if_splits)

interpretation reply_arg_describe_op: definition_op "reply_arg_describe_body name reply arg descr" for name reply arg descr
  by unfold_locales (auto simp: service_bodies bind_some_eqs elim!: with_reply_cases service_changed_side split: option.splits if_splits)

text \<open>A service and a reply are kept under the name as it was given, when that fits.\<close>

lemma service_init_good:
  assumes "strndup_str name IGS_MAX_SERVICE_NAME_LENGTH = Some name" and "good u a" and "service_init_body name cb d a = Some (r, a')"
  shows "good u a'"
proof -
  have "definition_side a a'"
    using assms(3) by (auto simp: service_init_body_def bind_some_eqs split: option.splits if_splits
        intro: definition_changed_from dest!: definition_changed_from [OF _ definition_side_frame(3)]
        intro: definition_side_trans [OF _ definition_side_frame(2)])
  with service_init_wf [OF _ assms(3,1)] assms(2) show ?thesis by (auto simp: good_def definition_side_def agent_mapping_ok_def)
qed

lemma reply_add_good:
  assumes "strndup_str name IGS_MAX_SERVICE_NAME_LENGTH = Some name" and "good u a" and "reply_add_body sname name a = Some (r, a')"
  shows "good u a'"
proof -
  have "definition_side a a'"
    using assms(3) by (auto simp: reply_add_body_def with_service_def bind_some_eqs split: option.splits dest: service_changed_side)
  with reply_add_wf [OF _ assms(3,1)] assms(2) show ?thesis by (auto simp: good_def definition_side_def agent_mapping_ok_def)
qed

lemma clear_definition_good: "good u a \<Longrightarrow> clear_definition a = Some a' \<Longrightarrow> good u a'"
  using clear_definition_wf [of a a'] definition_changed_from [OF _ definition_side_frame(3)]
  by (auto simp: clear_definition_def Let_def good_def definition_side_def agent_mapping_ok_def)

lemma change_body_good:
  assumes "\<And>v d. definition_wf d \<Longrightarrow> definition_wf (upd v d)" and "good u a" and "change_body s n upd a = Some (r, a')"
  shows "good u a'"
proof -
  have "definition_side a a'"
    using assms(3) definition_changed_from [OF _ definition_side_frame(3)] by (auto simp: change_body_def bind_some_eqs)
  moreover have "agent_wf a'"
    using assms by (auto simp: change_body_def bind_some_eqs good_def agent_wf_def dest!: definition_changed_wf)
  ultimately show ?thesis using assms(2) by (auto simp: good_def definition_side_def agent_mapping_ok_def)
qed

section \<open>Mappings\<close>

lemma mapping_changed_side: "mapping_changed a = Some a' \<Longrightarrow> mapping_side a a'"
  by (auto simp: mapping_changed_def mapping_side_def bind_some_eqs)

lemma mapping_side_refl [simp]: "mapping_side a a"
  by (simp add: mapping_side_def)

lemma mapping_changed_from:
  "mapping_changed b = Some a' \<Longrightarrow> mapping_side a b \<Longrightarrow> mapping_side a a'"
  using mapping_changed_side [of b a'] by (auto simp: mapping_side_def)

lemma mapping_side_frame [simp]:
  "mapping_side a (set_maps es a)" "mapping_side a (a\<lparr> ag_mapping := Some m \<rparr>)"
  by (simp_all add: mapping_side_def set_maps_def)

lemma drop_maps_side: "drop_maps P m a = Some a' \<Longrightarrow> mapping_side a a'"
  by (auto simp: drop_maps_def Let_def set_maps_def mapping_side_def mapping_changed_def bind_some_eqs split: if_splits)

interpretation load_mapping_op: mapping_op "load_mapping_body s cur" for s cur
  by unfold_locales (auto simp: load_mapping_body_def bind_some_eqs split: if_splits option.splits intro: mapping_changed_from)

interpretation load_mapping_file_op: mapping_op "load_mapping_file_body env s" for env s
  by unfold_locales (auto simp: load_mapping_file_body_def bind_some_eqs mapping_side_def split: option.splits dest!: mapping_changed_side)

interpretation clear_mappings_op: mapping_op clear_mappings_body
  by unfold_locales (auto simp: clear_mappings_body_def bind_some_eqs intro: mapping_changed_from)

interpretation clear_with_agent_op: mapping_op "clear_with_agent_body n" for n
  by unfold_locales (auto simp: clear_with_agent_body_def bind_some_eqs split: option.splits dest: drop_maps_side)

interpretation clear_for_input_op: mapping_op "clear_for_input_body n" for n
  by unfold_locales (auto simp: clear_for_input_body_def bind_some_eqs dest: drop_maps_side)

interpretation mapping_add_op: mapping_op "mapping_add_body i ag out" for i ag out
  by unfold_locales (auto simp: mapping_add_body_def bind_some_eqs Let_def split: if_splits intro: mapping_changed_from)

interpretation mapping_remove_op: mapping_op "mapping_remove_body k" for k
  by unfold_locales (auto simp: mapping_remove_body_def bind_some_eqs split: if_splits intro: mapping_changed_from)

lemmas op_preserves [preserve_intros] = write_op.preserves_ctx add_constraint_op.preserves_ctx set_description_op.preserves_ctx
  set_detailed_type_op.preserves_ctx create_op.preserves_ctx remove_op.preserves_ctx service_remove_op.preserves_ctx
  service_describe_op.preserves_ctx arg_add_op.preserves_ctx arg_remove_op.preserves_ctx arg_describe_op.preserves_ctx
  reply_remove_op.preserves_ctx reply_describe_op.preserves_ctx reply_arg_add_op.preserves_ctx
  reply_arg_remove_op.preserves_ctx reply_arg_describe_op.preserves_ctx load_mapping_op.preserves_ctx
  load_mapping_file_op.preserves_ctx clear_mappings_op.preserves_ctx clear_with_agent_op.preserves_ctx
  clear_for_input_op.preserves_ctx mapping_add_op.preserves_ctx mapping_remove_op.preserves_ctx

end
