(* ===== verification/Igs_Agent_Laws.thy ===== *)
theory Igs_Agent_Laws
  imports Igs_Context
begin

text \<open>
  The life of an agent keeps the invariant of the context, as long as the functions of
  the application do. The lemmas are stated for any property \<open>Q\<close> that does not look at
  the mutex and the events (\<open>context_law\<close>), because the destruction of an agent also needs
  that it does not come back while the others are told.
\<close>

section \<open>Callbacks\<close>

definition callbacks_preserve :: "app_env \<Rightarrow> (igs_core \<Rightarrow> bool) \<Rightarrow> bool" where
  "callbacks_preserve env Q \<longleftrightarrow>
     (\<forall>f p t n vt v sz d c c'. Q c \<longrightarrow> call_io env f p t n vt v sz d c = Some c' \<longrightarrow> Q c')
     \<and> (\<forall>f p n u s as k tok d c c'. Q c \<longrightarrow> call_service env f p n u s as k tok d c = Some c' \<longrightarrow> Q c')
     \<and> (\<forall>f p e u n x d c c'. Q c \<longrightarrow> call_event env f p e u n x d c = Some c' \<longrightarrow> Q c')
     \<and> (\<forall>f p b d c c'. Q c \<longrightarrow> call_activate env f p b d c = Some c' \<longrightarrow> Q c')
     \<and> (\<forall>f p b d c c'. Q c \<longrightarrow> call_mute env f p b d c = Some c' \<longrightarrow> Q c')
     \<and> (\<forall>f b d c c'. Q c \<longrightarrow> call_freeze env f b d c = Some c' \<longrightarrow> Q c')"

lemma callbacks_preserveD:
  assumes "callbacks_preserve env Q" and "Q c"
  shows "call_io env f p t n vt v sz d c = Some c' \<Longrightarrow> Q c'"
    and "call_service env f p n' u s as k tok d c = Some c' \<Longrightarrow> Q c'"
    and "call_event env f p e u s x d c = Some c' \<Longrightarrow> Q c'"
    and "call_activate env f p b d c = Some c' \<Longrightarrow> Q c'"
    and "call_mute env f p b d c = Some c' \<Longrightarrow> Q c'"
    and "call_freeze env f b d c = Some c' \<Longrightarrow> Q c'"
  using assms unfolding callbacks_preserve_def by metis+

lemma unlocked_call:
  assumes "context_law Q" and "\<And>c c'. Q c \<Longrightarrow> cb c = Some c' \<Longrightarrow> Q c'" and "Q c"
    and "unlocked (\<lambda>c. do { c \<leftarrow> cb c; Some ((), c) }) c = Some (r, c')"
  shows "Q c'"
proof (rule preservesD [OF context_law.preserves_unlocked [OF assms(1)] assms(3,4)])
  show "preserves Q (\<lambda>c. do { c \<leftarrow> cb c; Some ((), c) })"
    by (rule preservesI) (auto simp: bind_some_eqs dest: assms(2))
qed

section \<open>The loops over observers\<close>

lemma event_observers_preserve:
  assumes "context_law Q" and "callbacks_preserve env Q"
  shows "event_observers env p u e uuid name x ws c = Some c' \<Longrightarrow> Q c \<Longrightarrow> Q c'"
proof (induction ws arbitrary: c)
  case (Cons w ws)
  then obtain a where a: "deref p c = Some a" by (auto simp: bind_some_eqs)
  show ?case
  proof (cases "ag_uuid a = None")
    case False
    with Cons.prems(1) a obtain r c1 where c1: "unlocked (\<lambda>c.
        do { c \<leftarrow> call_event env (wr_callback w) p e uuid name x (wr_my_data w) c; Some ((), c) }) c = Some (r, c1)"
      "c' = c1 \<or> event_observers env p u e uuid name x ws c1 = Some c'"
      by (auto simp: bind_some_eqs split: if_splits)
    have "Q c1" by (rule unlocked_call [OF assms(1) _ Cons.prems(2) c1(1)]) (rule callbacks_preserveD(3) [OF assms(2)])
    with c1(2) Cons.IH show ?thesis by blast
  qed (use Cons.prems a in simp)
qed simp

lemma propagate_loop_preserve:
  assumes "context_law Q"
  shows "propagate_loop env e uuid name x us cur c = Some c' \<Longrightarrow> callbacks_preserve env Q \<longrightarrow> Q c \<longrightarrow> Q c'"
proof (induction rule: propagate_loop.raw_induct [rotated, consumes 1, case_names 1])
  case (1 loop env e uuid name x us cur c c')
  show ?case
  proof (intro impI)
    assume cb: "callbacks_preserve env Q" and q: "Q c"
    show "Q c'"
    proof (cases "\<exists>p a u. cur = Some p \<and> deref p c = Some a \<and> ag_uuid a = Some u")
      case True
      then obtain p a u where p: "cur = Some p" "deref p c = Some a" "ag_uuid a = Some u" by blast
      from 1(2) p obtain c1 n where c1: "(if uuid = u then Some c
            else event_observers env p u e uuid name x (ag_agent_event_callbacks a) c) = Some c1"
        "loop env e uuid name x (us @ [u]) n c1 = Some c'"
        by (auto simp only: option.simps bind_some_eqs)
      have "Q c1" using c1(1) q event_observers_preserve [OF assms cb] by (auto split: if_splits)
      with 1(1) [OF c1(2)] cb show ?thesis by blast
    next
      case False
      with 1(2) q show ?thesis by (auto simp: bind_some_eqs split: option.splits)
    qed
  qed
qed

lemma propagate_preserve:
  assumes "context_law Q" and "callbacks_preserve env Q"
  shows "preserves Q (agent_LOCKED_propagate_agent_event env e u n x)"
proof -
  have "preserves Q (agent_LOCKED_propagate_agent_event env e (Some u) (Some n) x)" for u n
    unfolding agent_LOCKED_propagate_agent_event_def prod.case option.case
    by (rule context_law.preserves_locked [OF assms(1)], rule preservesI)
      (use propagate_loop_preserve [OF assms(1)] assms(2) in \<open>auto simp: bind_some_eqs\<close>)
  then show ?thesis
    by (cases u; cases n) (simp_all add: agent_LOCKED_propagate_agent_event_def preserves_def)
qed

lemma activation_observers_preserve:
  assumes "context_law Q" and "callbacks_preserve env Q"
  shows "activation_observers env p b ws c = Some c' \<Longrightarrow> Q c \<Longrightarrow> Q c'"
proof (induction ws arbitrary: c)
  case (Cons w ws)
  then obtain a where a: "deref p c = Some a" by (auto simp: bind_some_eqs)
  show ?case
  proof (cases "ag_uuid a = None")
    case False
    with Cons.prems(1) a obtain r c1 where c1: "unlocked (\<lambda>c.
        do { c \<leftarrow> call_activate env (wr_callback w) p b (wr_my_data w) c; Some ((), c) }) c = Some (r, c1)"
      "activation_observers env p b ws c1 = Some c'"
      by (auto simp: bind_some_eqs)
    have "Q c1" by (rule unlocked_call [OF assms(1) _ Cons.prems(2) c1(1)]) (rule callbacks_preserveD(4) [OF assms(2)])
    with c1(2) Cons.IH show ?thesis by blast
  qed (use Cons.prems a in simp)
qed simp

lemma mute_observers_preserve:
  assumes "context_law Q" and "callbacks_preserve env Q"
  shows "mute_observers env p ws c = Some c' \<Longrightarrow> Q c \<Longrightarrow> Q c'"
proof (induction ws arbitrary: c)
  case (Cons w ws)
  then obtain a where a: "deref p c = Some a" by (auto simp: bind_some_eqs)
  show ?case
  proof (cases "ag_uuid a = None")
    case False
    with Cons.prems(1) a obtain r c1 where c1: "unlocked (\<lambda>c.
        do { c \<leftarrow> call_mute env (wr_callback w) p (ag_is_whole_agent_muted a) (wr_my_data w) c; Some ((), c) }) c = Some (r, c1)"
      "mute_observers env p ws c1 = Some c'"
      by (auto simp: bind_some_eqs)
    have "Q c1" by (rule unlocked_call [OF assms(1) _ Cons.prems(2) c1(1)]) (rule callbacks_preserveD(5) [OF assms(2)])
    with c1(2) Cons.IH show ?thesis by blast
  qed (use Cons.prems a in simp)
qed simp

lemma freeze_observers_preserve:
  assumes "context_law Q" and "callbacks_preserve env Q"
  shows "freeze_observers env b ws c = Some c' \<Longrightarrow> Q c \<Longrightarrow> Q c'"
proof (induction ws arbitrary: c)
  case (Cons w ws)
  then obtain r c1 where c1: "unlocked (\<lambda>c.
        do { c \<leftarrow> call_freeze env (wr_callback w) b (wr_my_data w) c; Some ((), c) }) c = Some (r, c1)"
      "freeze_observers env b ws c1 = Some c'"
    by (auto simp: bind_some_eqs)
  have "Q c1" by (rule unlocked_call [OF assms(1) _ Cons.prems(2) c1(1)]) (rule callbacks_preserveD(6) [OF assms(2)])
  with c1(2) Cons.IH show ?case by blast
qed simp

section \<open>Activation\<close>

lemma local_entered_preserve:
  assumes "context_law Q" and "callbacks_preserve env Q"
  shows "local_entered env p q u ws c = Some c' \<Longrightarrow> Q c \<Longrightarrow> Q c'"
proof (induction ws arbitrary: c)
  case (Cons w ws)
  then obtain u' n j r c1 where c1: "unlocked (\<lambda>c.
            do { a \<leftarrow> deref p c;
                 c \<leftarrow> call_event env (wr_callback w) p IGS_AGENT_ENTERED u' n (Some j) (wr_my_data w) c;
                 a \<leftarrow> deref p c;
                 c \<leftarrow> call_event env (wr_callback w) p IGS_AGENT_KNOWS_US u' n None (wr_my_data w) c;
                 Some ((), c) }) c = Some (r, c1)"
    "c' = c1 \<or> local_entered env p q u ws c1 = Some c'"
    by (auto simp: bind_some_eqs split: if_splits)
  have "Q c1"
    by (rule preservesD [OF context_law.preserves_unlocked [OF assms(1)] Cons.prems(2) c1(1)], rule preservesI)
      (auto simp: bind_some_eqs dest: callbacks_preserveD(3) [OF assms(2)])
  with c1(2) Cons.IH show ?case by blast
qed simp

lemma activate_locals_preserve:
  assumes "context_law Q"
  shows "activate_locals env p ws us cur c = Some c' \<Longrightarrow> callbacks_preserve env Q \<longrightarrow> Q c \<longrightarrow> Q c'"
proof (induction rule: activate_locals.raw_induct [rotated, consumes 1, case_names 1])
  case (1 loop env p ws us cur c c')
  show ?case
  proof (intro impI)
    assume cb: "callbacks_preserve env Q" and q: "Q c"
    show "Q c'"
    proof (cases cur)
      case None
      with 1(2) q show ?thesis by simp
    next
      case (Some l)
      with 1(2) obtain u b c1 n where c1: "(if b then local_entered env p l u ws c else Some c) = Some c1"
        "loop env p ws (us @ [u]) n c1 = Some c'"
        by (auto simp only: option.simps bind_some_eqs)
      have "Q c1" using c1(1) q local_entered_preserve [OF assms cb] by (auto split: if_splits)
      with 1(1) [OF c1(2)] cb show ?thesis by blast
    qed
  qed
qed

lemma remote_entered_preserve:
  assumes "context_law Q" and "callbacks_preserve env Q"
  shows "remote_entered env p u ws c = Some c' \<Longrightarrow> Q c \<Longrightarrow> Q c'"
proof (induction ws arbitrary: c)
  case (Cons w ws)
  then obtain ra a where a: "zh_lookup (cx_remote_agents c) u = Some ra" "deref p c = Some a" by (auto simp: bind_some_eqs)
  show ?case
  proof (cases "ag_uuid a = None")
    case False
    with Cons.prems(1) a obtain r c1 where c1: "unlocked (\<lambda>c.
          do { d \<leftarrow> ra_definition ra;
               n \<leftarrow> df_name d;
               c \<leftarrow> call_event env (wr_callback w) p IGS_AGENT_ENTERED u n (df_json d) (wr_my_data w) c;
               Some ((), c) }) c = Some (r, c1)"
      "c' = c1 \<or> remote_entered env p u ws c1 = Some c'"
      by (auto simp: bind_some_eqs split: if_splits)
    have "Q c1"
      by (rule preservesD [OF context_law.preserves_unlocked [OF assms(1)] Cons.prems(2) c1(1)], rule preservesI)
        (auto simp: bind_some_eqs dest: callbacks_preserveD(3) [OF assms(2)])
    with c1(2) Cons.IH show ?thesis by blast
  qed (use Cons.prems a in simp)
qed simp

lemma activate_remotes_preserve:
  assumes "context_law Q"
  shows "activate_remotes env p ws us cur c = Some c' \<Longrightarrow> callbacks_preserve env Q \<longrightarrow> Q c \<longrightarrow> Q c'"
proof (induction rule: activate_remotes.raw_induct [rotated, consumes 1, case_names 1])
  case (1 loop env p ws us cur c c')
  show ?case
  proof (intro impI)
    assume cb: "callbacks_preserve env Q" and q: "Q c"
    from 1(2) obtain a where a: "deref p c = Some a" by (auto simp: bind_some_eqs)
    show "Q c'"
    proof (cases "ag_uuid a = None \<or> cur = None")
      case True
      with 1(2) q a show ?thesis by (auto split: if_splits)
    next
      case False
      then obtain ra where "cur = Some ra" by blast
      with False 1(2) a obtain c1 n where c1: "remote_entered env p (ra_uuid ra) ws c = Some c1"
        "loop env p ws (us @ [ra_uuid ra]) n c1 = Some c'"
        by (auto simp: bind_some_eqs)
      with 1(1) [OF c1(2)] cb q remote_entered_preserve [OF assms cb c1(1)] show ?thesis by blast
    qed
  qed
qed

lemma ctx_ok_law: "context_law ctx_ok"
  by unfold_locales (simp_all add: ctx_ok_def deref_def)

definition created :: "addr \<Rightarrow> igs_core \<Rightarrow> bool" where
  "created p c \<longleftrightarrow> p \<in> snd ` set (cx_created_agents c)"

lemma created_frame [simp]: "created p (c\<lparr> cx_model_locked := b \<rparr>) = created p c" "created p (emit e c) = created p c"
  "created p (store q a c) = created p c"
  by (simp_all add: created_def emit_def store_def)

lemma created_good:
  assumes "ctx_ok c" and "created p c" and "deref p c = Some a"
  obtains u where "good u a" "(u, p) \<in> set (cx_created_agents c)" "ag_uuid a = Some u"
proof -
  obtain u where u: "(u, p) \<in> set (cx_created_agents c)" using assms(2) by (auto simp: created_def)
  have "good u a" using ctx_ok_agent [OF assms(1) u assms(3)] .
  with u that show thesis by (auto simp: good_def)
qed

lemma ctx_ok_activated:
  assumes "ctx_ok c" and "(u, p) \<in> set (cx_created_agents c)"
  shows "ctx_ok (c\<lparr> cx_agents := zh_insert u p (cx_agents c) \<rparr>)"
  using assms zh_wf_insert [of "cx_agents c"]
  by (auto simp: ctx_ok_def deref_def set_zh_insert split: if_splits)

lemma ctx_ok_deactivated: "ctx_ok c \<Longrightarrow> ctx_ok (c\<lparr> cx_agents := zh_delete u (cx_agents c) \<rparr>)"
  using zh_wf_delete [of "cx_agents c"] by (auto simp: ctx_ok_def deref_def zh_delete_def)

lemma good_frame [simp]:
  "good u (a\<lparr> ag_context := b \<rparr>) = good u a" "good u (a\<lparr> ag_rt_timestamps_enabled := b1 \<rparr>) = good u a"
  "good u (a\<lparr> ag_need_definition_update := b2 \<rparr>) = good u a" "good u (a\<lparr> ag_activation_during_runtime := b3 \<rparr>) = good u a"
  "good u (a\<lparr> ag_state := s \<rparr>) = good u a" "good u (a\<lparr> ag_is_whole_agent_muted := b4 \<rparr>) = good u a"
  "good u (a\<lparr> ag_elections := es \<rparr>) = good u a" "good u (a\<lparr> ag_activate_callbacks := ws \<rparr>) = good u a"
  "good u (a\<lparr> ag_agent_event_callbacks := ws1 \<rparr>) = good u a" "good u (a\<lparr> ag_mute_callbacks := ws2 \<rparr>) = good u a"
  "good u (a\<lparr> ag_request_outputs := b5 \<rparr>) = good u a" "good u (a\<lparr> ag_rt_synchronous_mode := b6 \<rparr>) = good u a"
  "good u (a\<lparr> ag_igs_channel := ch \<rparr>) = good u a" "good u (a\<lparr> ag_enforce_constraints := b7 \<rparr>) = good u a"
  by (simp_all add: good_def agent_wf_def agent_mapping_ok_def)

lemma activate_enter_ok:
  assumes "callbacks_preserve env ctx_ok" and "ctx_ok c" and "created p c" and "activate_enter env p c = Some (r, c')"
  shows "ctx_ok c'"
proof -
  obtain a where a: "deref p c = Some a" using assms(4) by (auto simp: activate_enter_def bind_some_eqs)
  obtain u where g: "good u a" "(u, p) \<in> set (cx_created_agents c)" "ag_uuid a = Some u"
    by (rule created_good [OF assms(2,3) a])
  let ?a = "a\<lparr> ag_context := True, ag_rt_timestamps_enabled := (ag_rt_timestamps_enabled a \<or> cx_rt_current_microseconds c \<noteq> INT64_MIN) \<rparr>"
  let ?b = "?a\<lparr> ag_need_definition_update := True, ag_activation_during_runtime := True \<rparr>"
  let ?c = "(store p ?b c)\<lparr> cx_agents := zh_insert u p (cx_agents c) \<rparr>"
  have s: "ctx_ok (store p ?a c)" "ctx_ok (store p ?b c)" using assms(2) a by (auto intro!: ctx_ok_store)
  show ?thesis
  proof (cases "zh_lookup (cx_agents c) u")
    case (Some q)
    with assms(4) a g(3) s(1) show ?thesis by (auto simp: activate_enter_def bind_some_eqs)
  next
    case None
    from ctx_ok_activated [OF s(2)] g(2) have ok: "ctx_ok ?c" by (simp add: store_def)
    from assms(4) a g(3) None obtain c1 c2 where
      "(if cx_node ?c then do { ch \<leftarrow> ag_igs_channel ?b; Some (emit (Zyre_Join ch) ?c) } else Some ?c) = Some c1"
      "activate_locals env p (ag_agent_event_callbacks a) [] (first_agent c1) c1 = Some c2"
      "activate_remotes env p (ag_agent_event_callbacks a) [] (next_remote [] c2) c2 = Some c'"
      by (auto simp: activate_enter_def Let_def bind_some_eqs)
    moreover from this(1) ok have "ctx_ok c1" by (auto simp: bind_some_eqs split: if_splits)
    ultimately show ?thesis
      using activate_locals_preserve [OF ctx_ok_law] activate_remotes_preserve [OF ctx_ok_law] assms(1) by blast
  qed
qed

lemma activate_callbacks_preserve:
  assumes "context_law Q" and "callbacks_preserve env Q" shows "preserves Q (activate_callbacks env p)"
  by (rule preservesI)
    (auto simp: activate_callbacks_def bind_some_eqs split: if_splits dest: activation_observers_preserve [OF assms])

text \<open>Under the lock a body sees the same tables.\<close>

lemma locked_cases:
  assumes "locked body c = Some (r, c')"
  obtains c1 where "\<not> cx_model_locked c" "body (c\<lparr> cx_model_locked := True \<rparr>) = Some (r, c1)"
    "cx_model_locked c1" "c' = c1\<lparr> cx_model_locked := False \<rparr>"
  using assms by (auto simp: locked_def model_lock_def model_unlock_def bind_some_eqs split: if_splits)

lemma igsagent_activate_ok:
  assumes "callbacks_preserve env ctx_ok" and "ctx_ok c" and "created p c" and "igsagent_activate env p c = Some (r, c')"
  shows "ctx_ok c'"
proof -
  obtain a where a: "deref p c = Some a" using assms(4) by (auto simp: igsagent_activate_def with_agent_def bind_some_eqs)
  obtain u where g: "ag_uuid a = Some u" by (rule created_good [OF assms(2,3) a])
  from assms(4) a g obtain e c1 where e: "locked (activate_enter env p) c = Some (e, c1)"
      and rest: "(case e of None \<Rightarrow> Some (IGS_SUCCESS, c1)
          | Some (u, n, j) \<Rightarrow>
              do { (_, c) \<leftarrow> agent_LOCKED_propagate_agent_event env IGS_AGENT_ENTERED (Some u) (Some n) (Some j) c1;
                   (_, c) \<leftarrow> agent_LOCKED_propagate_agent_event env IGS_AGENT_KNOWS_US (Some u) (Some n) None c;
                   (_, c) \<leftarrow> locked (activate_callbacks env p) c;
                   Some (IGS_SUCCESS, c) }) = Some (r, c')"
    by (auto simp: igsagent_activate_def with_agent_def bind_some_eqs)
  from e obtain c0 where "activate_enter env p (c\<lparr> cx_model_locked := True \<rparr>) = Some (e, c0)" "c1 = c0\<lparr> cx_model_locked := False \<rparr>"
    by (rule locked_cases)
  with activate_enter_ok [OF assms(1), of "c\<lparr> cx_model_locked := True \<rparr>" p e c0] assms(2,3) have ok: "ctx_ok c1" by simp
  show ?thesis
  proof (cases e)
    case (Some x)
    have pr: "preserves ctx_ok (\<lambda>c. do { (_, c) \<leftarrow> agent_LOCKED_propagate_agent_event env IGS_AGENT_ENTERED (Some u) (Some n) (Some j) c;
                   (_, c) \<leftarrow> agent_LOCKED_propagate_agent_event env IGS_AGENT_KNOWS_US (Some u) (Some n) None c;
                   (_, c) \<leftarrow> locked (activate_callbacks env p) c;
                   Some (IGS_SUCCESS, c) })" for u n j
      by (intro preserve_intros propagate_preserve activate_callbacks_preserve ctx_ok_law assms(1))
    obtain u n j where "x = (u, n, j)" by (cases x)
    with Some rest show ?thesis by (intro preservesD [OF pr ok, of u n j r c']) simp
  qed (use rest ok in simp)
qed

section \<open>Deactivation and destruction\<close>

text \<open>
  A property that survives the removal of an agent from the active ones is kept. For the
  destruction: the uuid is not active, and the agent at the pointer is still that one,
  and the callbacks have to respect both.
\<close>

definition leaving :: "addr \<Rightarrow> string \<Rightarrow> igs_core \<Rightarrow> bool" where
  "leaving p u c \<longleftrightarrow> ctx_ok c \<and> zh_lookup (cx_agents c) u = None \<and> (\<forall>a. deref p c = Some a \<longrightarrow> ag_uuid a = Some u)"

lemma leaving_law: "context_law (leaving p u)"
  by unfold_locales (simp_all add: leaving_def ctx_ok_def deref_def)

lemma deactivate_body_ok:
  assumes "context_law Q" and "callbacks_preserve env Q" and "deactivate_body env p c = Some (r, c')"
    and "deref p c = Some a" and "ag_uuid a = Some u" and "zh_lookup (cx_agents c) u = None \<Longrightarrow> Q c"
    and "\<And>c1. cx_store c1 = (cx_store c)(p := Some (a\<lparr> ag_context := False \<rparr>)) \<Longrightarrow>
           cx_created_agents c1 = cx_created_agents c \<Longrightarrow> cx_agents c1 = zh_delete u (cx_agents c) \<Longrightarrow> Q c1"
  shows "Q c'"
proof (cases "zh_lookup (cx_agents c) u = None")
  case True
  with assms(3-6) show ?thesis by (auto simp: deactivate_body_def bind_some_eqs)
next
  case False
  with assms(3-5) obtain n c0 where c0: "(if ag_context a \<and> cx_network_actor c \<and> cx_node c then
                   do { ch \<leftarrow> ag_igs_channel a;
                        Some (emit (Zyre_Leave ch) (emit (Zyre_Shout IGS_PRIVATE_CHANNEL [''REMOTE_AGENT_EXIT'', u, n]) c)) }
                 else Some c) = Some c0"
    "activation_observers env p False (ag_activate_callbacks a)
       ((store p (a\<lparr> ag_context := False \<rparr>) c0)\<lparr> cx_agents := zh_delete u (cx_agents c0) \<rparr>) = Some c'"
    by (auto simp: deactivate_body_def Let_def bind_some_eqs)
  from c0(1) have "cx_store c0 = cx_store c \<and> cx_created_agents c0 = cx_created_agents c \<and> cx_agents c0 = cx_agents c"
    by (auto simp: bind_some_eqs emit_def split: if_splits)
  then have "Q ((store p (a\<lparr> ag_context := False \<rparr>) c0)\<lparr> cx_agents := zh_delete u (cx_agents c0) \<rparr>)"
    by (intro assms(7)) (simp_all add: store_def)
  with activation_observers_preserve [OF assms(1,2) c0(2)] show ?thesis by simp
qed

lemma igsagent_deactivate_ok:
  assumes law: "context_law Q" and cb: "callbacks_preserve env Q" and "igsagent_deactivate env p c = Some (r, c')"
    and "deref p c = Some a" and "ag_uuid a = Some u" and "zh_lookup (cx_agents c) u = None \<Longrightarrow> Q c"
    and after: "\<And>c1. cx_store c1 = (cx_store c)(p := Some (a\<lparr> ag_context := False \<rparr>)) \<Longrightarrow>
           cx_created_agents c1 = cx_created_agents c \<Longrightarrow> cx_agents c1 = zh_delete u (cx_agents c) \<Longrightarrow> Q c1"
  shows "Q c'"
proof -
  from assms(3-5) obtain e c1 where e: "locked (deactivate_body env p) c = Some (e, c1)"
    and rest: "(case e of None \<Rightarrow> Some (IGS_SUCCESS, c1)
          | Some (u, n) \<Rightarrow>
              do { (_, c) \<leftarrow> agent_LOCKED_propagate_agent_event env IGS_AGENT_EXITED (Some u) (Some n) None c1;
                   Some (IGS_SUCCESS, c) }) = Some (r, c')"
    by (auto simp: igsagent_deactivate_def with_agent_def bind_some_eqs)
  from e obtain c0 where c0: "deactivate_body env p (c\<lparr> cx_model_locked := True \<rparr>) = Some (e, c0)" "c1 = c0\<lparr> cx_model_locked := False \<rparr>"
    by (rule locked_cases)
  have "Q c0"
    by (rule deactivate_body_ok [OF law cb c0(1)])
      (use assms(4-6) context_law.lock [OF law] in \<open>auto intro: after\<close>)
  then have ok: "Q c1" by (simp add: c0(2) context_law.lock [OF law])
  show ?thesis
  proof (cases e)
    case (Some x)
    with rest ok preservesD [OF propagate_preserve [OF law cb]] show ?thesis by (cases x) (auto simp: bind_some_eqs)
  qed (use rest ok in simp)
qed

lemma ctx_ok_leaves:
  assumes "ctx_ok c" and "deref p c = Some a" and "ag_uuid a = Some u" and "cx_store c1 = (cx_store c)(p := Some (a\<lparr> ag_context := False \<rparr>))"
    and "cx_created_agents c1 = cx_created_agents c" and "cx_agents c1 = zh_delete u (cx_agents c)"
  shows "leaving p u c1"
proof -
  let ?c = "(store p (a\<lparr> ag_context := False \<rparr>) c)\<lparr> cx_agents := zh_delete u (cx_agents c) \<rparr>"
  have "ctx_ok (store p (a\<lparr> ag_context := False \<rparr>) c)" using assms(1,2) by (auto intro!: ctx_ok_store)
  from ctx_ok_deactivated [OF this, of u] have "ctx_ok ?c" by (simp add: store_def)
  moreover have "ctx_ok c1 = ctx_ok ?c"
    by (rule context_law.frame [OF ctx_ok_law]) (simp_all add: assms(4-6) store_def)
  ultimately show ?thesis using assms(3,4,6) by (simp add: leaving_def table_simps deref_def)
qed

lemma deactivate_ctx_ok:
  assumes "callbacks_preserve env ctx_ok" and "ctx_ok c" and "igsagent_deactivate env p c = Some (r, c')"
  shows "ctx_ok c'"
proof -
  obtain a where a: "deref p c = Some a" using assms(3) by (auto simp: igsagent_deactivate_def with_agent_def bind_some_eqs)
  show ?thesis
  proof (cases "ag_uuid a")
    case None
    with a assms(2,3) show ?thesis by (simp add: igsagent_deactivate_def with_agent_def)
  next
    case (Some u)
    show ?thesis
      by (rule igsagent_deactivate_ok [OF ctx_ok_law assms(1,3) a Some assms(2)])
        (use ctx_ok_leaves [OF assms(2) a Some] in \<open>auto simp: leaving_def\<close>)
  qed
qed

text \<open>The agent is freed once its uuid is not active any more.\<close>

lemma destroy_body_ok:
  assumes "leaving p u c" and "deref p c = Some a" and "destroy_body p c = Some (r, c')"
  shows "ctx_ok c'"
proof -
  have c': "c' = c\<lparr> cx_created_agents := zh_delete u (cx_created_agents c), cx_store := (cx_store c)(p := None) \<rparr>"
    using assms by (simp add: destroy_body_def leaving_def)
  have ok: "ctx_ok c" and gone: "u \<notin> fst ` set (cx_agents c)" and u: "ag_uuid a = Some u"
    using assms(1,2) by (auto simp: leaving_def zh_lookup_None_iff)
  have other: "q \<noteq> p" if "(w, q) \<in> set (cx_created_agents c)" "w \<noteq> u" for w q
  proof
    assume "q = p"
    with ctx_ok_agent [OF ok that(1)] assms(2) u that(2) show False by (simp add: good_def)
  qed
  have "\<exists>b. deref q c' = Some b \<and> good w b" if "(w, q) \<in> set (cx_created_agents c')" for w q
    using that other [of w q] ok by (auto simp: c' zh_delete_def ctx_ok_def deref_def)
  moreover have "set (cx_agents c) \<subseteq> set (zh_delete u (cx_created_agents c))"
    using gone ok by (force simp: zh_delete_def ctx_ok_def)
  ultimately show ?thesis using ok zh_wf_delete [of "cx_created_agents c"]
    by (auto simp: ctx_ok_def c')
qed

lemma igsagent_destroy_ok:
  assumes cb: "callbacks_preserve env (leaving p u)" and "ctx_ok c" and "deref p c = Some a" and u: "ag_uuid a = Some u"
    and d: "igsagent_destroy env p c = Some (r, c')"
  shows "ctx_ok c'"
proof -
  obtain b c1 c2 where c1: "igsagent_is_activated p c = Some (b, c1)"
    "(if b then do { (_, c) \<leftarrow> igsagent_deactivate env p c1; Some c } else Some c1) = Some c2"
    "with_agent p () (locked (destroy_body p)) c2 = Some (r, c')"
    using d by (auto simp: igsagent_destroy_def bind_some_eqs)
  have c: "c1 = c" "b = (zh_lookup (cx_agents c) u \<noteq> None)"
    using c1(1) assms(3) u by (auto simp: igsagent_is_activated_def with_agent_def locked_def model_lock_def model_unlock_def
        bind_some_eqs split: if_splits)
  have l: "leaving p u c2"
  proof (cases b)
    case False
    with c c1(2) assms(2,3) u show ?thesis by (simp add: leaving_def)
  next
    case True
    with c1(2) c obtain r' where dd: "igsagent_deactivate env p c = Some (r', c2)" by (auto simp: bind_some_eqs)
    show ?thesis
      by (rule igsagent_deactivate_ok [OF leaving_law cb dd assms(3) u])
        (use ctx_ok_leaves [OF assms(2,3) u] assms(2,3) u in \<open>auto simp: leaving_def\<close>)
  qed
  then obtain a' where a': "deref p c2 = Some a'" "ag_uuid a' = Some u"
    using c1(3) by (auto simp: with_agent_def leaving_def bind_some_eqs)
  with c1(3) have "locked (destroy_body p) c2 = Some (r, c')" by (simp add: with_agent_def)
  then obtain c3 where c3: "destroy_body p (c2\<lparr> cx_model_locked := True \<rparr>) = Some (r, c3)" "c' = c3\<lparr> cx_model_locked := False \<rparr>"
    by (rule locked_cases)
  have "leaving p u (c2\<lparr> cx_model_locked := True \<rparr>)" using l by (simp add: context_law.lock [OF leaving_law])
  from destroy_body_ok [OF this _ c3(1)] a' c3(2) show ?thesis by simp
qed

section \<open>Names and creation\<close>

text \<open>
  While it is created, an agent has no mapping yet: \<open>ready m\<close> asks for the mapping only
  when \<open>m\<close> holds, and \<open>ctx_ok_but p m\<close> asks only this much of the agent at \<open>p\<close>.
\<close>

definition ready :: "bool \<Rightarrow> string \<Rightarrow> igs_agent \<Rightarrow> bool" where
  "ready m u a \<longleftrightarrow> ag_uuid a = Some u \<and> agent_wf a \<and> agent_mapping_ok a \<and> ag_definition a \<noteq> None \<and> (m \<longrightarrow> ag_mapping a \<noteq> None)"

definition entry_ok :: "addr \<Rightarrow> (string \<Rightarrow> igs_agent \<Rightarrow> bool) \<Rightarrow> igs_core \<Rightarrow> string \<times> addr \<Rightarrow> bool" where
  "entry_ok p P c e \<longleftrightarrow> (\<exists>a. deref (snd e) c = Some a \<and> (if snd e = p then P (fst e) a else good (fst e) a))"

definition ctx_ok_but :: "addr \<Rightarrow> (string \<Rightarrow> igs_agent \<Rightarrow> bool) \<Rightarrow> igs_core \<Rightarrow> bool" where
  "ctx_ok_but p P c \<longleftrightarrow> zh_wf (cx_created_agents c) \<and> zh_wf (cx_agents c) \<and> set (cx_agents c) \<subseteq> set (cx_created_agents c)
     \<and> (\<forall>e \<in> set (cx_created_agents c). entry_ok p P c e)"

lemma good_ready: "good = ready True"
  by (auto simp: good_def ready_def fun_eq_iff)

lemma ctx_ok_all: "ctx_ok_but p good = ctx_ok"
  by (simp add: ctx_ok_but_def ctx_ok_def entry_ok_def fun_eq_iff case_prod_beta)

lemma ctx_ok_but_law: "context_law (ctx_ok_but p P)"
  by unfold_locales (simp_all add: ctx_ok_but_def entry_ok_def deref_def)

lemma ctx_ok_but_store:
  assumes "ctx_ok_but p P c" and "deref p c = Some a" and "\<And>u. P u a \<Longrightarrow> P' u a'"
  shows "ctx_ok_but p P' (store p a' c)"
proof -
  have "entry_ok p P' (store p a' c) e" if "entry_ok p P c e" for e
    using that assms(2,3) by (cases "snd e = p") (auto simp: entry_ok_def)
  then show ?thesis using assms(1) by (simp add: ctx_ok_but_def store_def)
qed

lemma ctx_ok_but_emit [simp]: "ctx_ok_but p P (emit e c) = ctx_ok_but p P c"
  by (rule context_law.frame [OF ctx_ok_but_law]) (simp_all add: emit_def)

text \<open>A function on the agent at \<open>p\<close> takes one demand on it to another.\<close>

definition leads :: "(igs_core \<Rightarrow> bool) \<Rightarrow> 'r core_op \<Rightarrow> (igs_core \<Rightarrow> bool) \<Rightarrow> bool" where
  "leads Q op Q' \<longleftrightarrow> (\<forall>c r c'. Q c \<longrightarrow> op c = Some (r, c') \<longrightarrow> Q' c')"

lemma leadsD: "leads Q op Q' \<Longrightarrow> Q c \<Longrightarrow> op c = Some (r, c') \<Longrightarrow> Q' c'"
  by (auto simp: leads_def)

lemma leads_locked:
  assumes "leads Q op Q'" and "context_law Q" and "context_law Q'" shows "leads Q (locked op) Q'"
  unfolding leads_def
proof (intro allI impI)
  fix c r c' assume q: "Q c" and "locked op c = Some (r, c')"
  then obtain c1 where "op (c\<lparr> cx_model_locked := True \<rparr>) = Some (r, c1)" "c' = c1\<lparr> cx_model_locked := False \<rparr>"
    by (auto elim: locked_cases)
  with q leadsD [OF assms(1), of "c\<lparr> cx_model_locked := True \<rparr>" r c1] show "Q' c'"
    by (simp add: context_law.lock [OF assms(2)] context_law.lock [OF assms(3)])
qed

lemma leads_on_agent:
  assumes "\<And>u a r a'. P u a \<Longrightarrow> f a = Some (r, a') \<Longrightarrow> P' u a'"
  shows "leads (ctx_ok_but p P) (on_agent p f) (ctx_ok_but p P')"
  unfolding leads_def by (auto simp: on_agent_def bind_some_eqs intro: ctx_ok_but_store assms)

lemma renamed_wf: "definition_wf d \<Longrightarrow> definition_wf (renamed n d)"
  by (cases d) (simp add: renamed_def definition_wf_def ios_ok_def io_names_def io_table_def services_ok_def split: igs_io_type.splits)

lemma set_name_body_ok:
  assumes "ctx_ok_but p (ready m) c" and "set_name_body p name c = Some (r, c')"
  shows "ctx_ok_but p (ready m) c'"
proof -
  obtain a d q where a: "deref p c = Some a" "ag_definition a = Some d" "df_name d = Some q"
    using assms(2) by (auto simp: set_name_body_def bind_some_eqs)
  have chan: "ready m u a \<Longrightarrow> ready m u (a\<lparr> ag_igs_channel := ch \<rparr>)" for u ch a
    by (simp add: ready_def agent_wf_def agent_mapping_ok_def)
  show ?thesis
  proof (cases "q = name")
    case True
    have "ctx_ok_but p (ready m) (store p (a\<lparr> ag_igs_channel := ch \<rparr>) c)" for ch
      by (rule ctx_ok_but_store [OF assms(1) a(1)]) (rule chan)
    with True assms a show ?thesis by (auto simp: set_name_body_def split: if_splits)
  next
    case False
    with assms(2) a obtain n b where n: "definition_changed (a\<lparr> ag_definition := Some (renamed n d) \<rparr>) = Some b"
      "c' = (let c = store p (b\<lparr> ag_igs_channel := Some (channel_of n) \<rparr>) c in if ag_context b \<and> cx_node c
         then emit (Zyre_Join (channel_of n)) (emit (Zyre_Leave (channel_of q)) c) else c)"
      by (auto simp: set_name_body_def bind_some_eqs Let_def)
    have r: "ready m u (b\<lparr> ag_igs_channel := Some (channel_of n) \<rparr>)" if "ready m u a" for u
    proof -
      have "agent_wf (a\<lparr> ag_definition := Some (renamed n d) \<rparr>)" using that a(2) by (simp add: ready_def agent_wf_def renamed_wf)
      then have "agent_wf b" by (rule definition_changed_wf [OF n(1)])
      moreover have "definition_side a b" by (rule definition_changed_from [OF n(1)]) simp
      ultimately show ?thesis using that by (simp add: ready_def definition_side_def agent_mapping_ok_def agent_wf_def)
    qed
    have "ctx_ok_but p (ready m) (store p (b\<lparr> ag_igs_channel := Some (channel_of n) \<rparr>) c)"
      by (rule ctx_ok_but_store [OF assms(1) a(1)]) (rule r)
    with n(2) show ?thesis by (simp add: Let_def)
  qed
qed

lemma igsagent_set_name_leads: "leads (ctx_ok_but p (ready m)) (igsagent_set_name p name) (ctx_ok_but p (ready m))"
proof -
  have "preserves (ctx_ok_but p (ready m)) (igsagent_set_name p name)"
    unfolding igsagent_set_name_def
    by (intro preserves_with_agent preserves_guard context_law.preserves_locked [OF ctx_ok_but_law])
      (rule preservesI, rule set_name_body_ok)
  then show ?thesis by (simp add: leads_def preserves_def)
qed

lemma set_name_ctx_ok: "ctx_ok c \<Longrightarrow> igsagent_set_name p name c = Some (r, c') \<Longrightarrow> ctx_ok c'"
  using leadsD [OF igsagent_set_name_leads [of p True name]] by (simp add: ctx_ok_all flip: good_ready)

text \<open>The new agent is the first of its uuid, in memory that no other agent has.\<close>

definition fresh_agent :: "app_env \<Rightarrow> igs_core \<Rightarrow> bool" where
  "fresh_agent env c \<longleftrightarrow> zh_lookup (cx_created_agents c) (zuuid_new env c) = None \<and> deref (zmalloc_agent env c) c = None"

definition bare :: "string \<Rightarrow> igs_agent \<Rightarrow> bool" where
  "bare u a \<longleftrightarrow> ag_uuid a = Some u \<and> ag_mapping a = None"

lemma ctx_ok_new:
  assumes "ctx_ok c" and "fresh_agent env c" and "new_agent_body env c = Some (p, c')"
  shows "ctx_ok_but p bare c' \<and> created p c'"
proof -
  let ?u = "zuuid_new env c"
  have p: "p = zmalloc_agent env c" and none: "deref p c = None" and u: "map_of (cx_created_agents c) ?u = None"
    using assms(2,3) by (auto simp: fresh_agent_def new_agent_body_def Let_def zh_lookup_def)
  obtain a where a: "bare ?u a" and c': "c' = (store p a c)\<lparr> cx_created_agents := zh_insert ?u p (cx_created_agents c) \<rparr>"
  proof (rule that)
    show "bare ?u (zeroed_agent\<lparr> ag_uuid := Some ?u, ag_rt_current_timestamp := INT64_MIN \<rparr>)"
      by (simp add: bare_def zeroed_agent_def)
  qed (use assms(3) p in \<open>simp add: new_agent_body_def Let_def store_def\<close>)
  have new: "entry_ok p bare c' (?u, p)" using a by (simp add: c' entry_ok_def deref_def store_def)
  have other: "entry_ok p bare c' (w, q)" if old: "(w, q) \<in> set (cx_created_agents c)" for w q
  proof -
    obtain b where b: "deref q c = Some b" "good w b" using assms(1) old by (auto simp: ctx_ok_def)
    with none have "q \<noteq> p" by auto
    with b show ?thesis by (simp add: c' entry_ok_def deref_def store_def)
  qed
  have "zh_wf (cx_created_agents c')"
    using assms(1) zh_wf_insert [of "cx_created_agents c" ?u p] by (simp add: ctx_ok_def c')
  moreover have "set (cx_created_agents c') = insert (?u, p) (set (cx_created_agents c))"
    using u by (simp add: c' set_zh_insert zh_lookup_def)
  ultimately show ?thesis using assms(1) new other
    by (auto simp: ctx_ok_but_def created_def ctx_ok_def c' store_def)
qed

lemma clear_definition_ready: "bare u a \<Longrightarrow> clear_definition a = Some a' \<Longrightarrow> ready False u a'"
  using clear_definition_wf [of a a']
  by (auto simp: clear_definition_def Let_def bare_def ready_def definition_side_def agent_mapping_ok_def definition_changed_def bind_some_eqs need_definition_update_def)

lemma clear_mappings_ready: "ready False u a \<Longrightarrow> clear_mappings_body a = Some (r, a') \<Longrightarrow> good u a'"
  using clear_mappings_law.keeps [of a r a'] clear_mappings_op.side [of a r a']
  by (auto simp: ready_def good_def mapping_side_def agent_wf_def clear_mappings_body_def mapping_changed_def bind_some_eqs)

lemma created_law: "context_law (created p)"
  by unfold_locales (simp_all add: created_def)

lemma created_on_agent: "preserves (created p) (on_agent q f)"
  by (rule preservesI) (auto simp: on_agent_def bind_some_eqs)

lemma created_set_name: "preserves (created p) (igsagent_set_name q name)"
proof -
  have "preserves (created p) (set_name_body q name)"
    by (rule preservesI) (auto simp: set_name_body_def Let_def bind_some_eqs split: if_splits)
  then show ?thesis unfolding igsagent_set_name_def
    by (intro preserves_with_agent preserves_guard context_law.preserves_locked [OF created_law])
qed

lemma new_agent_ok:
  assumes "callbacks_preserve env ctx_ok" and "ctx_ok c" and "fresh_agent env (c\<lparr> cx_model_locked := True \<rparr>)"
    and "igsagent_new env name b c = Some (p, c')"
  shows "ctx_ok c'"
proof -
  obtain c1 r2 c2 r3 c3 r4 c4 where s: "locked (new_agent_body env) c = Some (p, c1)"
    "igsagent_clear_definition p c1 = Some (r2, c2)" "igsagent_set_name p name c2 = Some (r3, c3)"
    "igsagent_clear_mappings p c3 = Some (r4, c4)"
    "(if b then do { (_, c) \<leftarrow> igsagent_activate env p c4; Some c } else Some c4) = Some c'"
    using assms(4) by (auto simp: igsagent_new_def bind_some_eqs)
  obtain c0 where c0: "new_agent_body env (c\<lparr> cx_model_locked := True \<rparr>) = Some (p, c0)" "c1 = c0\<lparr> cx_model_locked := False \<rparr>"
    using s(1) by (rule locked_cases)
  have "ctx_ok_but p bare c0 \<and> created p c0" using ctx_ok_new [OF _ assms(3) c0(1)] assms(2) by simp
  then have 1: "ctx_ok_but p bare c1" "created p c1"
    using c0(2) context_law.lock [OF ctx_ok_but_law] by auto
  obtain a where "deref p c1 = Some a" "ag_uuid a \<noteq> None"
    using 1 by (fastforce simp: created_def ctx_ok_but_def entry_ok_def bare_def)
  with s(2) have l: "locked (on_agent p (\<lambda>a. do { a \<leftarrow> clear_definition a; Some ((), a) })) c1 = Some (r2, c2)"
    by (simp add: igsagent_clear_definition_def with_agent_def)
  have 2: "ctx_ok_but p (ready False) c2"
    by (rule leadsD [OF leads_locked [OF leads_on_agent ctx_ok_but_law ctx_ok_but_law] 1(1) l])
      (auto simp: bind_some_eqs intro: clear_definition_ready)
  have made2: "created p c2"
    by (rule preservesD [OF context_law.preserves_locked [OF created_law created_on_agent] 1(2) l])
  have 3: "ctx_ok_but p (ready False) c3" by (rule leadsD [OF igsagent_set_name_leads 2 s(3)])
  have made3: "created p c3" by (rule preservesD [OF created_set_name made2 s(3)])
  obtain a where "deref p c3 = Some a" "ag_uuid a \<noteq> None"
    using 3 made3 by (fastforce simp: created_def ctx_ok_but_def entry_ok_def ready_def)
  with s(4) have l: "locked (on_agent p clear_mappings_body) c3 = Some (r4, c4)"
    by (simp add: igsagent_clear_mappings_def with_agent_def)
  have "ctx_ok_but p good c4"
    by (rule leadsD [OF leads_locked [OF leads_on_agent ctx_ok_but_law ctx_ok_but_law] 3 l]) (rule clear_mappings_ready)
  moreover have "created p c4"
    by (rule preservesD [OF context_law.preserves_locked [OF created_law created_on_agent] made3 l])
  ultimately show ?thesis
    using s(5) igsagent_activate_ok [OF assms(1)] by (auto simp: ctx_ok_all bind_some_eqs split: if_splits)
qed

section \<open>State, mute, freeze, elections\<close>

lemma set_state_preserves: "preserves ctx_ok (set_state_body p s)"
  by (rule preservesI) (auto simp: set_state_body_def Let_def bind_some_eqs split: if_splits intro!: ctx_ok_store)

lemma igsagent_set_state_preserves:
  assumes "callbacks_preserve env ctx_ok" shows "preserves ctx_ok (igsagent_set_state env p s)"
proof (rule preservesI)
  fix c r c' assume ok: "ctx_ok c" and op: "igsagent_set_state env p s c = Some (r, c')"
  show "ctx_ok c'"
  proof (cases "c' = c")
    case False
    with op obtain r1 c1 u n where c1: "locked (set_state_body p s) c = Some (r1, c1)"
      "agent_LOCKED_propagate_agent_event env IGS_AGENT_CHANGED_STATE u n (Some s) c1 = Some (r, c')"
      by (auto simp: igsagent_set_state_def with_agent_def bind_some_eqs split: if_splits)
    have "ctx_ok c1" by (rule preservesD [OF ctx.preserves_locked [OF set_state_preserves] ok c1(1)])
    with preservesD [OF propagate_preserve [OF ctx_ok_law assms] _ c1(2)] show ?thesis by simp
  qed (use ok in simp)
qed

lemma mute_body_preserves:
  assumes "callbacks_preserve env ctx_ok" shows "preserves ctx_ok (mute_body env b p)"
proof (rule preservesI)
  fix c r c' assume ok: "ctx_ok c" and op: "mute_body env b p c = Some (r, c')"
  then obtain a c1 where a: "deref p c = Some a" and c1:
    "(if ag_is_whole_agent_muted a = b then Some c
               else (let c = store p (a\<lparr> ag_is_whole_agent_muted := b \<rparr>) c
                     in if ag_context a \<and> cx_network_actor c \<and> cx_node c then
                          do { u \<leftarrow> ag_uuid a;
                               Some (emit (Zyre_Shout IGS_PRIVATE_CHANNEL [''MUTED'', fmt_d (if b then 1 else 0), u]) c) }
                        else Some c)) = Some c1"
    "mute_observers env p (ag_mute_callbacks a) c1 = Some c'"
    by (auto simp only: mute_body_def bind_some_eqs)
  have "ctx_ok (store p (a\<lparr> ag_is_whole_agent_muted := b \<rparr>) c)" using ok a by (auto intro!: ctx_ok_store)
  with c1(1) ok have "ctx_ok c1" by (auto simp: Let_def bind_some_eqs split: if_splits)
  with mute_observers_preserve [OF ctx_ok_law assms c1(2)] show "ctx_ok c'" by simp
qed

lemma change_agent_preserves: "(\<And>u a. good u a \<Longrightarrow> good u (f a)) \<Longrightarrow> preserves ctx_ok (change_agent p f)"
  unfolding change_agent_def by (rule preserves_on_agent) auto

lemma shout_frozen_ok: "shout_frozen b ps c = Some c' \<Longrightarrow> ctx_ok c \<Longrightarrow> ctx_ok c'"
  by (induction ps arbitrary: c) (auto simp: bind_some_eqs)

text \<open>Functions that make sure of the default agent: it is there, or can be created.\<close>

definition core_ready :: "app_env \<Rightarrow> igs_core \<Rightarrow> bool" where
  "core_ready env c \<longleftrightarrow> nt_core_agent (cx_network c) \<noteq> None \<or> fresh_agent env (c\<lparr> cx_model_locked := True \<rparr>)"

lemma core_init_ok:
  assumes "callbacks_preserve env ctx_ok" and "ctx_ok c" and "core_ready env c" and "core_init_agent env c = Some (p, c')"
  shows "ctx_ok c'"
proof (cases "nt_core_agent (cx_network c)")
  case None
  with assms(3) have "fresh_agent env (c\<lparr> cx_model_locked := True \<rparr>)" by (simp add: core_ready_def)
  from assms(4) None obtain c1 a where n: "igsagent_new env IGS_DEFAULT_AGENT_NAME True c = Some (p, c1)"
    and a: "deref p c1 = Some a"
    and c': "c' = set_network (\<lambda>n. n\<lparr> nt_core_agent := Some p \<rparr>) (store p (a\<lparr> ag_context := True \<rparr>) c1)"
    by (auto simp: core_init_agent_def bind_some_eqs)
  have "ctx_ok c1" by (rule new_agent_ok [OF assms(1,2) _ n]) fact
  then have "ctx_ok (store p (a\<lparr> ag_context := True \<rparr>) c1)"
    using a by (rule ctx_ok_store) (simp add: good_def agent_wf_def agent_mapping_ok_def)
  moreover have "ctx_ok c' = ctx_ok (store p (a\<lparr> ag_context := True \<rparr>) c1)"
    unfolding c' by (rule ctx.frame) (simp_all add: set_network_def)
  ultimately show ?thesis by simp
qed (use assms(2,4) in \<open>simp add: core_init_agent_def\<close>)

lemma with_core_agent_ok:
  assumes "callbacks_preserve env ctx_ok" and "ctx_ok c" and "core_ready env c"
    and "with_core_agent env f c = Some (r, c')" and "\<And>p. preserves ctx_ok (f p)"
  shows "ctx_ok c'"
proof -
  obtain p c1 where i: "core_init_agent env c = Some (p, c1)" and f: "f p c1 = Some (r, c')"
    using assms(4) by (auto simp: with_core_agent_def bind_some_eqs)
  show ?thesis by (rule preservesD [OF assms(5) core_init_ok [OF assms(1-3) i] f])
qed

lemma freeze_to_preserves:
  assumes "callbacks_preserve env ctx_ok" shows "preserves ctx_ok (freeze_to env b shouts)"
proof -
  have f: "ctx_ok (c\<lparr> cx_is_frozen := b' \<rparr>) = ctx_ok c" for c b'
    by (rule ctx.frame) simp_all
  show ?thesis unfolding freeze_to_def
    by (rule ctx.preserves_locked, rule preservesI)
      (auto simp: bind_some_eqs Let_def f split: if_splits dest!: freeze_observers_preserve [OF ctx_ok_law assms] dest: shout_frozen_ok)
qed

lemma deref_frame [simp]: "deref p (emit e c) = deref p c" "deref p (c\<lparr> cx_elections := es \<rparr>) = deref p c"
  by (simp_all add: deref_def emit_def)

lemma ctx_ok_elections [simp]: "ctx_ok (c\<lparr> cx_elections := es \<rparr>) = ctx_ok c"
  by (rule ctx.frame) simp_all

lemma join_body_preserves: "preserves ctx_ok (join_body p el)"
  by (rule preservesI) (auto simp: join_body_def Let_def bind_some_eqs split: if_splits intro!: ctx_ok_store)

lemma leave_body_preserves: "preserves ctx_ok (leave_body p el)"
  by (rule preservesI) (auto simp: leave_body_def Let_def bind_some_eqs split: if_splits option.splits intro!: ctx_ok_store)

end
