(* ===== verification/Igs_Preserve.thy ===== *)
theory Igs_Preserve
  imports Igs_Agent_Laws
begin

text \<open>
  Writes with their observers, publications and calls received from the network: they keep
  the invariant of the context as long as the functions of the application do.
\<close>

section \<open>Writes, with their observers\<close>

lemma update_op_good:
  assumes "good u a" and "model_write e a name t vt v sz = Some (r, a')" shows "good u a'"
  by (rule write_op.keeps_good [OF assms])

lemma call_observer_preserve:
  assumes "context_law Q" and "callbacks_preserve env Q"
  shows "call_observer env p t name vt cb c = Some c' \<Longrightarrow> Q c \<Longrightarrow> Q c'"
proof -
  assume q: "Q c" and o: "call_observer env p t name vt cb c = Some c'"
  obtain a io where a: "deref p c = Some a" "model_find_io_by_name a name t = Some io"
    using o by (auto simp: call_observer_def bind_some_eqs)
  show "Q c'"
  proof (cases "io_value_type io = IGS_UNKNOWN_T")
    case False
    with o a obtain r where u: "unlocked (\<lambda>c.
                      if ag_uuid a = None then Some ((), c)
                      else do { c \<leftarrow> (if io_value_type io = IGS_IMPULSION_T
                                       then call_io env (cb_ptr cb) p t name vt None 0 (cb_my_data cb) c
                                       else call_io env (cb_ptr cb) p t name vt (io_memory io) (io_value_size io) (cb_my_data cb) c);
                                Some ((), c) }) c = Some (r, c')"
      by (auto simp: call_observer_def bind_some_eqs)
    show ?thesis
      by (rule preservesD [OF context_law.preserves_unlocked [OF assms(1)] q u], rule preservesI)
        (auto simp: bind_some_eqs dest: callbacks_preserveD(1) [OF assms(2)] split: if_splits)
  qed (use o a q in \<open>simp add: call_observer_def\<close>)
qed

lemma observers_loop_preserve:
  assumes "context_law Q" and "callbacks_preserve env Q"
  shows "observers_loop env p t name vt cbs c = Some c' \<Longrightarrow> Q c \<Longrightarrow> Q c'"
  by (induction cbs arbitrary: c) (auto simp: bind_some_eqs dest: call_observer_preserve [OF assms])

lemma handle_io_callbacks_preserve:
  assumes "context_law Q" and "callbacks_preserve env Q" shows "preserves Q (model_LOCKED_handle_io_callbacks env p t name)"
  unfolding model_LOCKED_handle_io_callbacks_def
  by (rule context_law.preserves_locked [OF assms(1)], rule preservesI)
    (auto simp: bind_some_eqs split: if_splits dest: observers_loop_preserve [OF assms])

lemma publish_preserve:
  assumes "network_publish_output env a io c = Some (r, c')" and "ctx_ok c" shows "ctx_ok c'"
proof -
  obtain es where e: "c' = c\<lparr> cx_splitters := cx_splitters c', cx_events := cx_events c @ es \<rparr>"
    using publish_frame [OF assms(1)] by (auto simp: same_but_splitters_def same_model_def)
  have "cx_store c' = cx_store c" "cx_created_agents c' = cx_created_agents c" "cx_agents c' = cx_agents c"
    by (subst e, simp)+
  with assms(2) ctx.frame [of c' c] show ?thesis by simp
qed

lemma write_and_publish_preserves: "preserves ctx_ok (write_and_publish t env p name vt v sz)"
proof (rule preservesI)
  fix c r c' assume ok: "ctx_ok c" and o: "write_and_publish t env p name vt v sz c = Some (r, c')"
  then obtain w c1 where w: "on_agent p (\<lambda>a. model_write (igs_env.truncate env) a name t vt v sz) c = Some (w, c1)"
    and "c' = c1 \<or> (\<exists>a io r'. network_publish_output (pub_env.truncate env) a io c1 = Some (r', c'))"
    by (auto simp: write_and_publish_def bind_some_eqs split: if_splits)
  moreover have "ctx_ok c1" by (rule preservesD [OF write_op.preserves_ctx ok w])
  ultimately show "ctx_ok c'" by (auto dest: publish_preserve)
qed

lemma set_io_preserves:
  assumes "callbacks_preserve env ctx_ok" shows "preserves ctx_ok (set_io t env p name vt v sz)"
  unfolding set_io_def
proof (rule preserves_with_agent, rule preservesI)
  fix c r c' assume ok: "ctx_ok c" and "(do { (w, c) \<leftarrow> locked (write_and_publish t env p name vt v sz) c;
          if w then do { (_, c) \<leftarrow> model_LOCKED_handle_io_callbacks env p t name c; Some (IGS_SUCCESS, c) }
          else Some (IGS_FAILURE, c) }) = Some (r, c')"
  then obtain w c1 where w: "locked (write_and_publish t env p name vt v sz) c = Some (w, c1)"
    and "c' = c1 \<or> (\<exists>r'. model_LOCKED_handle_io_callbacks env p t name c1 = Some (r', c'))"
    by (auto simp: bind_some_eqs split: if_splits)
  moreover have "ctx_ok c1" by (rule preservesD [OF ctx.preserves_locked [OF write_and_publish_preserves] ok w])
  ultimately show "ctx_ok c'"
    using preservesD [OF handle_io_callbacks_preserve [OF ctx_ok_law assms]] by blast
qed

section \<open>Publications received\<close>

lemma put_timestamp_ok: "put_timestamp p us c = Some c' \<Longrightarrow> ctx_ok c \<Longrightarrow> ctx_ok c'"
  by (auto simp: put_timestamp_def bind_some_eqs good_def agent_wf_def agent_mapping_ok_def intro!: ctx_ok_store)

lemma write_entry_preserve:
  assumes "callbacks_preserve env ctx_ok" shows "preserves ctx_ok (write_entry env p u i e vt data us)"
proof (rule preservesI)
  fix c r c' assume ok: "ctx_ok c" and o: "write_entry env p u i e vt data us c = Some (r, c')"
  obtain a d where a: "deref p c = Some a" "ag_definition a = Some d" using o by (auto simp: write_entry_def bind_some_eqs)
  show "ctx_ok c'"
  proof (cases "zh_lookup (df_inputs d) (mp_from_input e)")
    case None
    with o a ok show ?thesis by (simp add: write_entry_def)
  next
    case (Some io)
    with o a obtain c1 w c2 c3 where s: "put_timestamp p us c = Some c1"
      "on_agent p (\<lambda>a. model_write (igs_env.truncate env) a (io_name io) IGS_INPUT_T vt (Some data) (length data)) c1 = Some (w, c2)"
      "c3 = c2 \<or> (\<exists>r'. unlocked (model_LOCKED_handle_io_callbacks env p IGS_INPUT_T (io_name io)) c2 = Some (r', c3))"
      "c' = c3 \<or> put_timestamp p INT64_MIN c3 = Some c'"
      by (auto simp: write_entry_def bind_some_eqs split: if_splits)
    have "ctx_ok c1" by (rule put_timestamp_ok [OF s(1) ok])
    then have "ctx_ok c2" by (rule preservesD [OF write_op.preserves_ctx _ s(2)])
    then have "ctx_ok c3"
      using s(3) preservesD [OF ctx.preserves_unlocked [OF handle_io_callbacks_preserve [OF ctx_ok_law assms]]] by blast
    with s(4) put_timestamp_ok show ?thesis by blast
  qed
qed

lemma entries_loop_preserve:
  "entries_loop env p u rname x vt data us i c = Some c' \<Longrightarrow> callbacks_preserve env ctx_ok \<longrightarrow> ctx_ok c \<longrightarrow> ctx_ok c'"
proof (induction rule: entries_loop.raw_induct [rotated, consumes 1, case_names 1])
  case (1 loop env p u rname x vt data us i c c')
  show ?case
  proof (intro impI)
    assume cb: "callbacks_preserve env ctx_ok" and ok: "ctx_ok c"
    from 1(2) have "c' = c \<or> (\<exists>j. loop env p u rname x vt data us j c = Some c')
      \<or> (\<exists>e r c1. write_entry env p u i e vt data us c = Some (r, c1)
          \<and> (c' = c1 \<or> (\<exists>j. loop env p u rname x vt data us j c1 = Some c')))"
      by (auto simp: Let_def bind_some_eqs split: if_splits option.splits)
    with 1(1) cb ok preservesD [OF write_entry_preserve [OF cb] ok] show "ctx_ok c'" by blast
  qed
qed

lemma agents_loop_preserve:
  "agents_loop env rname x vt data us seen cur c = Some c' \<Longrightarrow> callbacks_preserve env ctx_ok \<longrightarrow> ctx_ok c \<longrightarrow> ctx_ok c'"
proof (induction rule: agents_loop.raw_induct [rotated, consumes 1, case_names 1])
  case (1 loop env rname x vt data us seen cur c c')
  show ?case
  proof (intro impI)
    assume cb: "callbacks_preserve env ctx_ok" and ok: "ctx_ok c"
    from 1(2) consider "c' = c" | p u c1 n where "entries_loop env p u rname x vt data us 0 c = Some c1"
        "loop env rname x vt data us (seen @ [u]) n c1 = Some c'"
      by (auto simp: bind_some_eqs split: option.splits)
    then show "ctx_ok c'"
    proof cases
      case 2
      with entries_loop_preserve [OF 2(1)] cb ok 1(1) [OF 2(2)] show ?thesis by blast
    qed (use ok in simp)
  qed
qed

lemma publication_parts_preserve:
  assumes cb: "callbacks_preserve env ctx_ok"
  shows "publication_parts env ru rn us fs c = Some c' \<Longrightarrow> ctx_ok c \<Longrightarrow> ctx_ok c'"
proof (induction fs arbitrary: us c rule: length_induct)
  case (1 fs)
  consider (three) f1 f2 f3 rest where "fs = f1 # f2 # f3 # rest" | (two) f1 f2 where "fs = [f1, f2]"
    | (less) "fs = [] \<or> (\<exists>f1. fs = [f1])"
    by (metis neq_Nil_conv)
  then show ?case
  proof cases
    case three
    from 1(2) obtain code where code: "c_atoi (takeWhile (\<lambda>ch. ch \<noteq> CHR 0x00) f2) = Some code"
      unfolding three by (auto simp: bind_some_eqs)
    show ?thesis
    proof (cases "sint code < 1 \<or> 12 < sint code")
      case False
      with 1(2) code obtain v where v: "part_value env (sint code) f3 = Some v"
        unfolding three by (auto simp: bind_some_eqs)
      show ?thesis
      proof (cases v)
        case None
        with False 1(2,3) code v show ?thesis unfolding three by simp
      next
        case (Some w)
        obtain x ts where w: "w = (x, ts)" by (cases w)
        from False 1(2) code v Some w obtain vt us' c1 where
          c1: "agents_loop env rn (takeWhile (\<lambda>ch. ch \<noteq> CHR 0x00) f1) vt (ended_string vt x) us' [] (first_agent c) c = Some c1"
            "c' = c1 \<or> publication_parts env ru rn us' rest c1 = Some c'"
          unfolding three by (auto simp: bind_some_eqs Let_def split: if_splits)
        have "ctx_ok c1" using agents_loop_preserve [OF c1(1)] cb 1(3) by simp
        moreover have "length rest < length fs" by (simp add: three)
        ultimately show ?thesis using 1(1) c1(2) by blast
      qed
    qed (use 1(2,3) code in \<open>simp add: three\<close>)
  next
    case two
    with 1(2,3) show ?thesis by (auto simp: bind_some_eqs)
  next
    case less
    with 1(2,3) show ?thesis by auto
  qed
qed

lemma s_handle_publication_preserve:
  "callbacks_preserve env ctx_ok \<Longrightarrow> s_handle_publication env ru rn msg c = Some c' \<Longrightarrow> ctx_ok c \<Longrightarrow> ctx_ok c'"
  using publication_parts_preserve by (auto simp: s_handle_publication_def split: if_splits)

lemma received_publication_preserves:
  assumes cb: "callbacks_preserve env ctx_ok" shows "preserves ctx_ok (s_manage_received_publication env msg)"
  by (rule preservesI)
    (auto simp: s_manage_received_publication_def model_lock_def model_unlock_def bind_some_eqs
      split: if_splits option.splits dest!: s_handle_publication_preserve [OF cb])

lemma publication_command_preserves:
  assumes cb: "callbacks_preserve env ctx_ok" shows "preserves ctx_ok (handle_publication_command env msg)"
  unfolding handle_publication_command_def
  by (rule ctx.preserves_locked, rule preservesI)
    (auto simp: bind_some_eqs dest: s_handle_publication_preserve [OF cb])

section \<open>Calls of services\<close>

lemma call_remotes_ok: "call_remotes a tg s args tok us ras b c = Some (r, c') \<Longrightarrow> ctx_ok c \<Longrightarrow> ctx_ok c'"
  by (induction ras arbitrary: b c) (auto simp: bind_some_eqs split: if_splits)

text \<open>The parts that return a context and no value.\<close>

definition runs :: "(igs_core \<Rightarrow> igs_core option) \<Rightarrow> bool" where
  "runs f \<longleftrightarrow> (\<forall>c c'. ctx_ok c \<longrightarrow> f c = Some c' \<longrightarrow> ctx_ok c')"

lemma runsD: "runs f \<Longrightarrow> ctx_ok c \<Longrightarrow> f c = Some c' \<Longrightarrow> ctx_ok c'"
  by (auto simp: runs_def)

lemma runs_bind:
  assumes "runs f" and "runs g" shows "runs (\<lambda>c. do { c \<leftarrow> f c; g c })"
  unfolding runs_def
proof (intro allI impI)
  fix c c' assume ok: "ctx_ok c" and "(do { c \<leftarrow> f c; g c }) = Some c'"
  then obtain c1 where c1: "f c = Some c1" "g c1 = Some c'" by (auto simp: bind_some_eqs)
  show "ctx_ok c'" by (rule runsD [OF assms(2) runsD [OF assms(1) ok c1(1)] c1(2)])
qed

lemma runs_guard:
  assumes "\<And>x. runs (g x)" shows "runs (\<lambda>c. do { x \<leftarrow> h c; g x c })"
  unfolding runs_def
proof (intro allI impI)
  fix c c' assume ok: "ctx_ok c" and "(do { x \<leftarrow> h c; g x c }) = Some c'"
  then obtain x where "g x c = Some c'" by (auto simp only: bind_some_eqs)
  with runsD [OF assms ok] show "ctx_ok c'" .
qed

lemma runs_op:
  assumes "preserves ctx_ok op" and "\<And>r. runs (g r)" shows "runs (\<lambda>c. do { (r, c) \<leftarrow> op c; g r c })"
  unfolding runs_def
proof (intro allI impI)
  fix c c' assume ok: "ctx_ok c" and "(do { (r, c) \<leftarrow> op c; g r c }) = Some c'"
  then obtain r c1 where c1: "op c = Some (r, c1)" "g r c1 = Some c'" by (auto simp: bind_some_eqs)
  show "ctx_ok c'" by (rule runsD [OF assms(2) preservesD [OF assms(1) ok c1(1)] c1(2)])
qed

lemma runs_timestamp: "runs (put_timestamp p us)"
  using put_timestamp_ok by (auto simp: runs_def)

lemma call_local_preserve:
  assumes cb: "callbacks_preserve env ctx_ok" shows "runs (call_local env p q n args tok us s)"
  unfolding call_local_def [abs_def]
proof (rule runs_bind [OF runs_timestamp], rule runs_guard, rule runs_guard, rule runs_guard, rule runs_bind)
  fix a la lu
  show "runs (\<lambda>c. if cx_node c then do { e \<leftarrow> call_shout a (ag_definition la) lu n; Some (emit e c) } else Some c)"
    by (auto simp: runs_def bind_some_eqs split: if_splits)
  have "preserves ctx_ok (unlocked (\<lambda>c. case (ag_uuid a, sv_cb s) of
            (Some u, Some cb) \<Rightarrow>
              do { d \<leftarrow> ag_definition a;
                   c \<leftarrow> call_service env cb q (df_name d) u n args (length args) tok (sv_cb_data s) c;
                   Some ((), c) }
          | _ \<Rightarrow> Some ((), c)))"
    by (rule ctx.preserves_unlocked, rule preservesI)
      (auto simp: bind_some_eqs split: option.splits dest: callbacks_preserveD(2) [OF cb])
  then show "runs (\<lambda>c. do { (_, c) \<leftarrow> unlocked (\<lambda>c.
            case (ag_uuid a, sv_cb s) of
              (Some u, Some cb) \<Rightarrow>
                do { d \<leftarrow> ag_definition a;
                     c \<leftarrow> call_service env cb q (df_name d) u n args (length args) tok (sv_cb_data s) c;
                     Some ((), c) }
            | _ \<Rightarrow> Some ((), c)) c; put_timestamp p INT64_MIN c })"
    by (rule runs_op) (rule runs_timestamp)
qed

lemma call_locals_preserve:
  assumes cb: "callbacks_preserve env ctx_ok"
  shows "call_locals env p tg n args tok us qs b c = Some (r, c') \<Longrightarrow> ctx_ok c \<Longrightarrow> ctx_ok c'"
proof (induction qs arbitrary: b c)
  case (Cons q qs)
  then obtain la where la: "deref q c = Some la" by (auto simp: bind_some_eqs)
  show ?case
  proof (cases "ag_uuid la")
    case None
    with Cons.prems la show ?thesis by simp
  next
    case (Some lu)
    with Cons.prems(1) la obtain d dn where d: "ag_definition la = Some d" "df_name d = Some dn" by (auto simp: bind_some_eqs)
    show ?thesis
    proof (cases "dn = tg \<or> lu = tg")
      case True
      from Cons.prems(1) la Some d True obtain c1 where c1:
        "(case zh_lookup (df_services d) n of None \<Rightarrow> Some c | Some s \<Rightarrow> if length args \<noteq> length (sv_arguments s) then Some c
            else call_local env p q n args tok us s c) = Some c1"
        "call_locals env p tg n args tok us qs True c1 = Some (r, c')"
        by (auto simp: bind_some_eqs)
      have "ctx_ok c1" using c1(1) Cons.prems(2) runsD [OF call_local_preserve [OF cb]]
        by (auto split: option.splits if_splits)
      with Cons.IH c1(2) show ?thesis by blast
    next
      case False
      with Cons.prems la Some d Cons.IH show ?thesis by simp
    qed
  qed
qed simp

lemma service_call_preserves:
  assumes cb: "callbacks_preserve env ctx_ok" shows "preserves ctx_ok (igsagent_service_call env p tg n args tok)"
proof -
  have "preserves ctx_ok (service_call_body env p tg n as tok)" for as
  proof (rule preservesI)
    fix c r c' assume ok: "ctx_ok c" and o: "service_call_body env p tg n as tok c = Some (r, c')"
    then obtain a us f1 c1 f2 where
      "(if ag_context a \<and> cx_node c
             then call_remotes a tg n as tok us (map snd (cx_remote_agents c)) False c
             else Some (False, c)) = Some (f1, c1)"
      "(if ag_context a \<and> ag_uuid a \<noteq> None \<and> \<not> ag_is_virtual a
             then call_locals env p tg n as tok us (map snd (cx_agents c1)) f1 c1
             else Some (f1, c1)) = Some (f2, c')"
      by (auto simp: service_call_body_def Let_def bind_some_eqs)
    with ok show "ctx_ok c'"
      by (auto split: if_splits dest!: call_remotes_ok call_locals_preserve [OF cb])
  qed
  then show ?thesis unfolding igsagent_service_call_def
    by (intro preserves_with_agent preserves_guard ctx.preserves_locked)
qed

lemma deliver_call_preserve:
  assumes cb: "callbacks_preserve env ctx_ok" shows "runs (deliver_call env q cn cu n tok s args rest)"
  unfolding deliver_call_def [abs_def]
proof (rule runs_bind [OF runs_timestamp], rule runs_bind)
  have "runs (\<lambda>c. do { c \<leftarrow> put_timestamp q us c;
                        la \<leftarrow> deref q c;
                        (_, c) \<leftarrow> unlocked (\<lambda>c.
                          case (ag_uuid la, sv_cb s) of
                            (Some u, Some cb) \<Rightarrow>
                              do { c \<leftarrow> call_service env cb q (Some cn) cu n args
                                         (length (sv_arguments s)) (Some tok) (sv_cb_data s) c;
                                   Some ((), c) }
                          | _ \<Rightarrow> Some ((), c)) c;
                        Some c })" for us
  proof (rule runs_bind [OF runs_timestamp], rule runs_guard, rule runs_op, rule ctx.preserves_unlocked, rule preservesI)
  qed (auto simp: runs_def bind_some_eqs split: option.splits dest: callbacks_preserveD(2) [OF cb])
  then show "runs (\<lambda>c. case trailing_timestamp rest of
                 None \<Rightarrow> Some c
               | Some us \<Rightarrow>
                   do { c \<leftarrow> put_timestamp q us c;
                        la \<leftarrow> deref q c;
                        (_, c) \<leftarrow> unlocked (\<lambda>c.
                          case (ag_uuid la, sv_cb s) of
                            (Some u, Some cb) \<Rightarrow>
                              do { c \<leftarrow> call_service env cb q (Some cn) cu n args
                                         (length (sv_arguments s)) (Some tok) (sv_cb_data s) c;
                                   Some ((), c) }
                          | _ \<Rightarrow> Some ((), c)) c;
                        Some c })"
    by (cases "trailing_timestamp rest") (simp_all add: runs_def)
  show "runs (\<lambda>c. do { la \<leftarrow> deref q c; if ag_uuid la = None then Some c else put_timestamp q INT64_MIN c })"
    using runsD [OF runs_timestamp] by (auto simp: runs_def bind_some_eqs split: if_splits)
qed

lemma service_to_callee_preserve:
  assumes cb: "callbacks_preserve env ctx_ok" shows "runs (service_to_callee env msg q cn cu sn tok rest)"
  unfolding service_to_callee_def [abs_def]
proof (rule runs_guard)
  fix la
  have arguments: "runs (\<lambda>c. do { (r, args, rest') \<leftarrow> service_make_values_to_arguments_from_message s rest;
                                  if r = IGS_SUCCESS then deliver_call env q cn cu sn tok s args rest' c else Some c })" for s
  proof (rule runs_guard)
    fix x show "runs (\<lambda>c. case x of (r, args, rest') \<Rightarrow> if r = IGS_SUCCESS
        then deliver_call env q cn cu sn tok s args rest' c else Some c)"
      using runsD [OF deliver_call_preserve [OF cb]] by (cases x) (simp add: runs_def)
  qed
  show "runs (\<lambda>c. case ag_definition la of
            None \<Rightarrow> Some c
          | Some d \<Rightarrow>
              (case zh_lookup (df_services d) sn of
                 None \<Rightarrow> Some c
               | Some s \<Rightarrow>
                   do { ch \<leftarrow> ag_igs_channel la;
                        let c = emit (callee_shout ch sn cn cu) c;
                        if length msg < length (sv_arguments s) then Some c
                        else do { (r, args, rest') \<leftarrow> service_make_values_to_arguments_from_message s rest;
                                  if r = IGS_SUCCESS then deliver_call env q cn cu sn tok s args rest' c
                                  else Some c } }))"
  proof (cases "ag_definition la")
    case (Some d)
    show ?thesis
    proof (cases "zh_lookup (df_services d) sn")
      case (Some s)
      show ?thesis unfolding runs_def
      proof (intro allI impI)
        fix c c' assume ok: "ctx_ok c" and o: "(case ag_definition la of
            None \<Rightarrow> Some c
          | Some d \<Rightarrow>
              (case zh_lookup (df_services d) sn of
                 None \<Rightarrow> Some c
               | Some s \<Rightarrow>
                   do { ch \<leftarrow> ag_igs_channel la;
                        let c = emit (callee_shout ch sn cn cu) c;
                        if length msg < length (sv_arguments s) then Some c
                        else do { (r, args, rest') \<leftarrow> service_make_values_to_arguments_from_message s rest;
                                  if r = IGS_SUCCESS then deliver_call env q cn cu sn tok s args rest' c
                                  else Some c } })) = Some c'"
        then obtain ch where ch: "ag_igs_channel la = Some ch" using \<open>ag_definition la = Some d\<close> Some
          by (auto simp: bind_some_eqs)
        with o \<open>ag_definition la = Some d\<close> Some runsD [OF arguments, of "emit (callee_shout ch sn cn cu) c" s c'] ok
        show "ctx_ok c'" by (auto simp: Let_def split: if_splits)
      qed
    qed (simp add: runs_def Some)
  qed (simp add: runs_def)
qed

lemma handle_call_preserves:
  assumes cb: "callbacks_preserve env ctx_ok" shows "preserves ctx_ok (handle_call_service env peer msg)"
proof (rule preservesI)
  fix c r c' assume ok: "ctx_ok c" and o: "handle_call_service env peer msg c = Some (r, c')"
  show "ctx_ok c'"
  proof (cases "c' = c")
    case False
    with o obtain cu ce f where l: "locked (\<lambda>c.
            do { caller_name \<leftarrow> caller_name_of peer cu c;
                 case zh_lookup (cx_agents c) ce of
                   None \<Rightarrow> Some ((), c)
                 | Some q \<Rightarrow>
                (case popstr f of
                   None \<Rightarrow> Some ((), c)
                 | Some (service_name, r) \<Rightarrow>
                (case popstr r of
                   None \<Rightarrow> Some ((), c)
                 | Some (token, r) \<Rightarrow>
                     do { c \<leftarrow> service_to_callee env msg q caller_name cu service_name token r c;
                          Some ((), c) })) }) c = Some (r, c')"
      by (auto simp: handle_call_service_def split: option.splits)
    show ?thesis
    proof (rule preservesD [OF ctx.preserves_locked ok l], rule preservesI)
      fix c :: igs_core and r c' assume ok: "ctx_ok c" and o: "(do { caller_name \<leftarrow> caller_name_of peer cu c;
                 case zh_lookup (cx_agents c) ce of
                   None \<Rightarrow> Some ((), c)
                 | Some q \<Rightarrow>
                (case popstr f of
                   None \<Rightarrow> Some ((), c)
                 | Some (service_name, r) \<Rightarrow>
                (case popstr r of
                   None \<Rightarrow> Some ((), c)
                 | Some (token, r) \<Rightarrow>
                     do { c \<leftarrow> service_to_callee env msg q caller_name cu service_name token r c;
                          Some ((), c) })) }) = Some (r, c')"
      then obtain cn where cn: "caller_name_of peer cu c = Some cn" by (cases "caller_name_of peer cu c") auto
      show "ctx_ok c'"
      proof (cases "zh_lookup (cx_agents c) ce = None \<or> popstr f = None")
        case True
        with o cn ok show ?thesis by (cases "zh_lookup (cx_agents c) ce") auto
      next
        case False
        then obtain q n f2 where q: "zh_lookup (cx_agents c) ce = Some q" "popstr f = Some (n, f2)" by auto
        show ?thesis
        proof (cases "popstr f2")
          case None
          with o cn q ok show ?thesis by simp
        next
          case (Some tf)
          obtain tok f3 where "tf = (tok, f3)" by (cases tf)
          with o cn q Some have "service_to_callee env msg q cn cu n tok f3 c = Some c'" by (auto simp: bind_some_eqs)
          then show ?thesis by (rule runsD [OF service_to_callee_preserve [OF cb] ok])
        qed
      qed
    qed
  qed (use ok in simp)
qed

end
