(* ===== verification/Igs_Reach.thy ===== *)
theory Igs_Reach
  imports Igs_Preserve
begin

text \<open>
  What an application and the messages of other agents can do to a context, as a step relation
  with one rule per operation, and the invariant that each of them keeps. The strings of the application are C strings: they hold no NUL. An agent is
  activated through a pointer that \<open>igsagent_new\<close> returned and \<open>igsagent_destroy\<close> did not
  free; a destroyed agent is not reached by any other operation either, as its entry of the
  store is absent.
\<close>

section \<open>The operations on one agent\<close>

lemma io_create_preserves: "preserves ctx_ok (io_create t e p n vt v sz)"
  unfolding io_create_def by (intro preserve_intros)

lemma io_remove_preserves: "preserves ctx_ok (io_remove t p n)"
  unfolding io_remove_def by (intro preserve_intros)

lemma clear_definition_preserves: "preserves ctx_ok (igsagent_clear_definition p)"
  unfolding igsagent_clear_definition_def
  by (intro preserves_with_agent ctx.preserves_locked preserves_on_agent) (auto simp: bind_some_eqs intro: clear_definition_good)

text \<open>A function that changes the definition only and keeps the invariant of agents keeps all.\<close>

lemma good_side: "good u a \<Longrightarrow> definition_side a a' \<Longrightarrow> agent_wf a' \<Longrightarrow> good u a'"
  by (auto simp: good_def definition_side_def agent_mapping_ok_def)

lemma change_preserves:
  assumes "\<And>a. definition_side a (f a)" and "\<And>a. agent_wf a \<Longrightarrow> agent_wf (f a)"
  shows "preserves ctx_ok (on_agent p (\<lambda>a. Some (r, f a)))"
proof (rule preserves_on_agent)
  fix u a r' a' assume g: "good u a" and "Some (r, f a) = Some (r', a')"
  then have "a' = f a" by simp
  moreover have "agent_wf a" using g by (simp add: good_def)
  ultimately show "good u a'" using good_side [OF g assms(1)] assms(2) by simp
qed

lemma io_clear_preserves: "preserves ctx_ok (io_clear t p n)"
  unfolding io_clear_def
  by (intro preserves_with_agent ctx.preserves_locked change_preserves)
    (simp_all add: s_model_clear_io_def clear_io_law [unfolded s_model_clear_io_def] split: option.split)

lemma io_observe_preserves: "preserves ctx_ok (io_observe t p n cb d)"
  unfolding io_observe_def
  by (intro preserves_with_agent ctx.preserves_locked change_preserves)
    (simp_all add: s_model_observe_def observe_wf [unfolded s_model_observe_def] split: option.split)

lemma change_io_preserves: "preserves ctx_ok (on_agent p f) \<Longrightarrow> preserves ctx_ok (change_io p f)"
  unfolding change_io_def by (intro preserve_intros)

lemma enforce_preserves: "preserves ctx_ok (igsagent_constraints_enforce p b)"
  unfolding igsagent_constraints_enforce_def
  by (intro preserves_with_agent change_preserves) (simp_all add: definition_side_def agent_wf_def)

lemma set_muted_preserves: "preserves ctx_ok (set_muted m b p n)"
  unfolding set_muted_def
proof (intro preserves_with_agent ctx.preserves_locked, rule preservesI)
  fix c r c' assume ok: "ctx_ok c" and o: "(do { a \<leftarrow> deref p c; u \<leftarrow> ag_uuid a;
          case model_find_io_by_name a n IGS_OUTPUT_T of
            None \<Rightarrow> Some ((), c)
          | Some io \<Rightarrow>
              if io_type io \<noteq> IGS_OUTPUT_T then Some ((), c)
              else (let c = store p (on_io IGS_OUTPUT_T n (\<lambda>io. io\<lparr> io_is_muted := b \<rparr>) a) c
                    in Some ((), if cx_node c then emit (Zyre_Shout IGS_PRIVATE_CHANNEL [m, n, u]) c else c)) }) = Some (r, c')"
  then obtain a where a: "deref p c = Some a" by (auto simp: bind_some_eqs)
  have "ctx_ok (store p (on_io IGS_OUTPUT_T n (\<lambda>io. io\<lparr> io_is_muted := b \<rparr>) a) c)"
    by (rule ctx_ok_store [OF ok a], rule good_side) (auto simp: good_def intro: on_io_meta_wf)
  with o ok a show "ctx_ok c'" by (auto simp: Let_def bind_some_eqs split: option.splits if_splits)
qed

lemma change_definition_preserves:
  assumes "\<And>v d. definition_wf d \<Longrightarrow> definition_wf (upd v d)" shows "preserves ctx_ok (change_definition p s n upd)"
  unfolding change_definition_def
  by (intro ctx.preserves_locked preserves_on_agent) (rule change_body_good [OF assms])

lemma description_wf [simp]:
  "definition_wf (d\<lparr> df_family := x \<rparr>) = definition_wf d" "definition_wf (d\<lparr> df_package := x1 \<rparr>) = definition_wf d"
  "definition_wf (d\<lparr> df_my_class := x2 \<rparr>) = definition_wf d" "definition_wf (d\<lparr> df_class_set_explicitly := b \<rparr>) = definition_wf d"
  "definition_wf (d\<lparr> df_description := x3 \<rparr>) = definition_wf d" "definition_wf (d\<lparr> df_version := x4 \<rparr>) = definition_wf d"
  by (auto simp: definition_wf_def ios_ok_def io_names_def io_table_def services_ok_def split: igs_io_type.splits)

lemma definition_texts_preserve:
  "preserves ctx_ok (igsagent_set_family p s)" "preserves ctx_ok (igsagent_definition_set_package p s)"
  "preserves ctx_ok (igsagent_definition_set_class p s)" "preserves ctx_ok (igsagent_definition_set_description p s)"
  "preserves ctx_ok (igsagent_definition_set_version p s)"
  unfolding igsagent_set_family_def igsagent_definition_set_package_def igsagent_definition_set_class_def
    igsagent_definition_set_description_def igsagent_definition_set_version_def
  by (intro preserves_with_agent preserves_guard preserves_if preserves_pure change_definition_preserves; simp)+

lemma set_path_preserves: 
  assumes "\<And>u v a. good u a \<Longrightarrow> good u (upd v a)" shows "preserves ctx_ok (set_path m upd p s)"
  unfolding set_path_def
  by (intro preserves_with_agent ctx.preserves_locked, rule preservesI)
    (auto simp: Let_def bind_some_eqs split: if_splits intro!: ctx_ok_store assms)

section \<open>Services and mappings\<close>

lemma checked_fits: "no_nul s \<Longrightarrow> 0 < n \<Longrightarrow> checked s n = Some () \<Longrightarrow> strndup_str s n = Some s"
  by (auto simp: checked_def check_string_result c_assert_def max_of_def split: if_splits)

lemma service_init_preserves:
  assumes "no_nul name" shows "preserves ctx_ok (igsagent_service_init p name cb d)"
proof (cases "checked name IGS_MAX_SERVICE_NAME_LENGTH")
  case (Some x)
  then have "strndup_str name IGS_MAX_SERVICE_NAME_LENGTH = Some name" using checked_fits [OF assms] by (simp add: IGS_MAX_SERVICE_NAME_LENGTH_def)
  then show ?thesis unfolding igsagent_service_init_def
    by (intro preserves_with_agent preserves_guard ctx.preserves_locked preserves_on_agent) (rule service_init_good)
next
  case None
  then show ?thesis by (auto simp: preserves_def igsagent_service_init_def with_agent_iff bind_some_eqs)
qed

lemma reply_add_preserves:
  assumes "no_nul name" shows "preserves ctx_ok (igsagent_service_reply_add p sname name)"
proof (cases "checked name IGS_MAX_SERVICE_NAME_LENGTH")
  case (Some x)
  then have "strndup_str name IGS_MAX_SERVICE_NAME_LENGTH = Some name" using checked_fits [OF assms] by (simp add: IGS_MAX_SERVICE_NAME_LENGTH_def)
  then show ?thesis unfolding igsagent_service_reply_add_def checked_op_def
    by (intro preserves_with_agent preserves_guard ctx.preserves_locked preserves_on_agent) (rule reply_add_good)
next
  case None
  then show ?thesis by (auto simp: preserves_def igsagent_service_reply_add_def checked_op_def with_agent_iff bind_some_eqs)
qed

lemma services_preserve:
  "preserves ctx_ok (igsagent_service_remove p n)" "preserves ctx_ok (igsagent_service_set_description p n s)"
  "preserves ctx_ok (igsagent_service_arg_add p n x t)" "preserves ctx_ok (igsagent_service_arg_remove p n x)"
  "preserves ctx_ok (igsagent_service_arg_set_description p n x s)" "preserves ctx_ok (igsagent_service_reply_remove p n k)"
  "preserves ctx_ok (igsagent_service_reply_set_description p n k s)" "preserves ctx_ok (igsagent_service_reply_arg_add p n k x t)"
  "preserves ctx_ok (igsagent_service_reply_arg_remove p n k x)"
  "preserves ctx_ok (igsagent_service_reply_arg_set_description p n k x s)"
  unfolding igsagent_service_remove_def igsagent_service_set_description_def igsagent_service_arg_add_def
    igsagent_service_arg_remove_def igsagent_service_arg_set_description_def igsagent_service_reply_remove_def
    igsagent_service_reply_set_description_def igsagent_service_reply_arg_add_def igsagent_service_reply_arg_remove_def
    igsagent_service_reply_arg_set_description_def service_op_def checked_op_def
  by (intro preserves_with_agent preserves_guard preserves_if preserves_pure ctx.preserves_locked op_preserves)+

lemma mappings_preserve:
  "preserves ctx_ok (igsagent_mapping_load_file pe p s)" "preserves ctx_ok (igsagent_clear_mappings p)"
  "preserves ctx_ok (igsagent_clear_mappings_with_agent p n)" "preserves ctx_ok (igsagent_clear_mappings_for_input p n)"
  "preserves ctx_ok (igsagent_mapping_add p i ag x)" "preserves ctx_ok (igsagent_mapping_remove_with_id p k)"
  "preserves ctx_ok (igsagent_mapping_remove_with_name p i ag x)"
  unfolding igsagent_mapping_load_file_def igsagent_clear_mappings_def igsagent_clear_mappings_with_agent_def
    igsagent_clear_mappings_for_input_def igsagent_mapping_add_def igsagent_mapping_remove_with_id_def
    igsagent_mapping_remove_with_name_def
  by (intro preserves_with_agent preserves_guard ctx.preserves_locked op_preserves)+

lemma mapping_load_preserves: "preserves ctx_ok (igsagent_mapping_load_str p s)"
  unfolding igsagent_mapping_load_str_def igsagent_mapping_json_def
  by (rule preserves_with_agent, rule preserves_bind) (intro preserve_intros)+

section \<open>The step relation\<close>

inductive api_step :: "app_env \<Rightarrow> parse_env \<Rightarrow> igs_core \<Rightarrow> igs_core \<Rightarrow> bool" for env pe where
  new: "fresh_agent env (c\<lparr> cx_model_locked := True \<rparr>) \<Longrightarrow> igsagent_new env name b c = Some (p, c') \<Longrightarrow> api_step env pe c c'"
| destroy: "igsagent_destroy env p c = Some (r, c') \<Longrightarrow> api_step env pe c c'"
| activate: "created p c \<Longrightarrow> igsagent_activate env p c = Some (r1, c') \<Longrightarrow> api_step env pe c c'"
| deactivate: "igsagent_deactivate env p c = Some (r2, c') \<Longrightarrow> api_step env pe c c'"
| rename: "igsagent_set_name p name c = Some (r3, c') \<Longrightarrow> api_step env pe c c'"
| set_state: "igsagent_set_state env p s c = Some (r, c') \<Longrightarrow> api_step env pe c c'"
| mute: "igsagent_mute env p c = Some (r, c') \<Longrightarrow> api_step env pe c c'"
| unmute: "igsagent_unmute env p c = Some (r, c') \<Longrightarrow> api_step env pe c c'"
| freeze: "core_ready env c \<Longrightarrow> igs_freeze env c = Some (r, c') \<Longrightarrow> api_step env pe c c'"
| unfreeze: "core_ready env c \<Longrightarrow> igs_unfreeze env c = Some (r, c') \<Longrightarrow> api_step env pe c c'"
| election_join: "igsagent_election_join p name c = Some (r4, c') \<Longrightarrow> api_step env pe c c'"
| election_leave: "igsagent_election_leave p name c = Some (r5, c') \<Longrightarrow> api_step env pe c c'"
| io_write: "set_io t env p name vt v sz c = Some (r6, c') \<Longrightarrow> api_step env pe c c'"
| create_io: "io_create t (igs_env.truncate env) p name n v sz c = Some (r7, c') \<Longrightarrow> api_step env pe c c'"
| remove_io: "io_remove t p name c = Some (r8, c') \<Longrightarrow> api_step env pe c c'"
| clear_io: "io_clear t p name c = Some (r, c') \<Longrightarrow> api_step env pe c c'"
| constrain_io: "io_add_constraint t (igs_env.truncate env) p name s c = Some (r9, c') \<Longrightarrow> api_step env pe c c'"
| describe_io: "io_set_description t p name s c = Some (r10, c') \<Longrightarrow> api_step env pe c c'"
| detail_io: "io_set_detailed_type t p name s s' c = Some (r11, c') \<Longrightarrow> api_step env pe c c'"
| observe_io: "io_observe t p name cb d c = Some (r, c') \<Longrightarrow> api_step env pe c c'"
| mute_output: "set_muted m b p name c = Some (r, c') \<Longrightarrow> api_step env pe c c'"
| enforce: "igsagent_constraints_enforce p b c = Some (r, c') \<Longrightarrow> api_step env pe c c'"
| observe_agent: "igsagent_observe p cb d c = Some (r, c') \<Longrightarrow> api_step env pe c c'"
| observe_events: "igsagent_observe_agent_events p cb d c = Some (r, c') \<Longrightarrow> api_step env pe c c'"
| observe_mute: "igsagent_observe_mute p cb d c = Some (r, c') \<Longrightarrow> api_step env pe c c'"
| observe_freeze: "core_ready env c \<Longrightarrow> igs_observe_freeze env cb d c = Some (r, c') \<Longrightarrow> api_step env pe c c'"
| clear_definition: "igsagent_clear_definition p c = Some (r, c') \<Longrightarrow> api_step env pe c c'"
| set_family: "igsagent_set_family p s c = Some (r, c') \<Longrightarrow> api_step env pe c c'"
| set_package: "igsagent_definition_set_package p s c = Some (r, c') \<Longrightarrow> api_step env pe c c'"
| set_class: "igsagent_definition_set_class p s c = Some (r, c') \<Longrightarrow> api_step env pe c c'"
| set_description: "igsagent_definition_set_description p s c = Some (r, c') \<Longrightarrow> api_step env pe c c'"
| set_version: "igsagent_definition_set_version p s c = Some (r, c') \<Longrightarrow> api_step env pe c c'"
| set_definition_path: "igsagent_definition_set_path p s c = Some (r, c') \<Longrightarrow> api_step env pe c c'"
| set_mapping_path: "igsagent_mapping_set_path p s c = Some (r, c') \<Longrightarrow> api_step env pe c c'"
| service_init: "no_nul name \<Longrightarrow> igsagent_service_init p name cb d c = Some (r12, c') \<Longrightarrow> api_step env pe c c'"
| service_remove: "igsagent_service_remove p name c = Some (r13, c') \<Longrightarrow> api_step env pe c c'"
| service_describe: "igsagent_service_set_description p name s c = Some (r14, c') \<Longrightarrow> api_step env pe c c'"
| arg_add: "igsagent_service_arg_add p name x vt c = Some (r15, c') \<Longrightarrow> api_step env pe c c'"
| arg_remove: "igsagent_service_arg_remove p name x c = Some (r16, c') \<Longrightarrow> api_step env pe c c'"
| arg_describe: "igsagent_service_arg_set_description p name x s c = Some (r17, c') \<Longrightarrow> api_step env pe c c'"
| reply_add: "no_nul k \<Longrightarrow> igsagent_service_reply_add p name k c = Some (r18, c') \<Longrightarrow> api_step env pe c c'"
| reply_remove: "igsagent_service_reply_remove p name k c = Some (r19, c') \<Longrightarrow> api_step env pe c c'"
| reply_describe: "igsagent_service_reply_set_description p name k s c = Some (r20, c') \<Longrightarrow> api_step env pe c c'"
| reply_arg_add: "igsagent_service_reply_arg_add p name k x vt c = Some (r21, c') \<Longrightarrow> api_step env pe c c'"
| reply_arg_remove: "igsagent_service_reply_arg_remove p name k x c = Some (r22, c') \<Longrightarrow> api_step env pe c c'"
| reply_arg_describe: "igsagent_service_reply_arg_set_description p name k x s c = Some (r23, c') \<Longrightarrow> api_step env pe c c'"
| call: "igsagent_service_call env p target name args tok c = Some (r24, c') \<Longrightarrow> api_step env pe c c'"
| load_mapping: "igsagent_mapping_load_str p s c = Some (r25, c') \<Longrightarrow> api_step env pe c c'"
| load_mapping_file: "igsagent_mapping_load_file pe p s c = Some (r26, c') \<Longrightarrow> api_step env pe c c'"
| clear_mappings: "igsagent_clear_mappings p c = Some (r, c') \<Longrightarrow> api_step env pe c c'"
| clear_with_agent: "igsagent_clear_mappings_with_agent p name c = Some (r, c') \<Longrightarrow> api_step env pe c c'"
| clear_for_input: "igsagent_clear_mappings_for_input p name c = Some (r, c') \<Longrightarrow> api_step env pe c c'"
| mapping_add: "igsagent_mapping_add p i ag x c = Some (r27, c') \<Longrightarrow> api_step env pe c c'"
| mapping_remove: "igsagent_mapping_remove_with_id p key c = Some (r28, c') \<Longrightarrow> api_step env pe c c'"
| mapping_remove_name: "igsagent_mapping_remove_with_name p i ag x c = Some (r29, c') \<Longrightarrow> api_step env pe c c'"
| outputs_request: "igsagent_mapping_set_outputs_request p b c = Some (r, c') \<Longrightarrow> api_step env pe c c'"
| timestamps: "igsagent_rt_set_timestamps p b c = Some (r, c') \<Longrightarrow> api_step env pe c c'"
| synchronous: "igsagent_rt_set_synchronous_mode p b c = Some (r, c') \<Longrightarrow> api_step env pe c c'"
| publication: "s_manage_received_publication env msg c = Some (r, c') \<Longrightarrow> api_step env pe c c'"
| publication_command: "handle_publication_command env msg c = Some (r, c') \<Longrightarrow> api_step env pe c c'"
| call_received: "handle_call_service env peer msg c = Some (r, c') \<Longrightarrow> api_step env pe c c'"

text \<open>What is asked of the functions of the application: to keep the invariant, and not to bring a leaving agent back.\<close>

definition callbacks_sound :: "app_env \<Rightarrow> bool" where
  "callbacks_sound env \<longleftrightarrow> callbacks_preserve env ctx_ok \<and> (\<forall>p u. callbacks_preserve env (leaving p u))"

lemma destroy_preserves:
  assumes "callbacks_sound env" shows "preserves ctx_ok (igsagent_destroy env p)"
proof (rule preservesI)
  fix c r c' assume ok: "ctx_ok c" and o: "igsagent_destroy env p c = Some (r, c')"
  then obtain a where a: "deref p c = Some a"
    by (auto simp: igsagent_destroy_def igsagent_is_activated_def with_agent_def bind_some_eqs)
  show "ctx_ok c'"
  proof (cases "ag_uuid a")
    case None
    with o a ok show ?thesis by (simp add: igsagent_destroy_def igsagent_is_activated_def with_agent_def)
  next
    case (Some u)
    from assms have "callbacks_preserve env (leaving p u)" by (simp add: callbacks_sound_def)
    then show ?thesis by (rule igsagent_destroy_ok [OF _ ok a Some o])
  qed
qed

lemma election_preserves:
  "preserves ctx_ok (igsagent_election_join p name)" "preserves ctx_ok (igsagent_election_leave p name)"
  unfolding igsagent_election_join_def igsagent_election_leave_def
  by (intro preserves_guard preserves_if preserves_pure ctx.preserves_locked join_body_preserves leave_body_preserves)+

lemma flags_preserve:
  "preserves ctx_ok (igsagent_observe p cb d)" "preserves ctx_ok (igsagent_observe_agent_events p cb d)"
  "preserves ctx_ok (igsagent_observe_mute p cb d)" "preserves ctx_ok (igsagent_mapping_set_outputs_request p b)"
  "preserves ctx_ok (igsagent_rt_set_timestamps p b)" "preserves ctx_ok (igsagent_rt_set_synchronous_mode p b)"
  unfolding igsagent_observe_def igsagent_observe_agent_events_def igsagent_observe_mute_def
    igsagent_mapping_set_outputs_request_def igsagent_rt_set_timestamps_def igsagent_rt_set_synchronous_mode_def
  by (intro preserves_with_agent ctx.preserves_locked change_agent_preserves; simp)+

lemma freezing_preserves:
  assumes cb: "callbacks_preserve env ctx_ok" and "ctx_ok c" and "core_ready env c"
  shows "igs_freeze env c = Some (r, c') \<Longrightarrow> ctx_ok c'" "igs_unfreeze env c = Some (r, c') \<Longrightarrow> ctx_ok c'"
    "igs_observe_freeze env f d c = Some (r, c') \<Longrightarrow> ctx_ok c'"
proof -
  have "preserves ctx_ok (\<lambda>c. freeze_to env True (cx_node c) c)"
    "preserves ctx_ok (\<lambda>c. freeze_to env False (cx_network_actor c \<and> cx_node c) c)"
    using preservesD [OF freeze_to_preserves [OF cb]] by (auto simp: preserves_def)
  moreover have "preserves ctx_ok (locked (\<lambda>c.
     Some ((), c\<lparr> cx_freeze_callbacks := cx_freeze_callbacks c @ [\<lparr> wr_callback = f, wr_my_data = d \<rparr>] \<rparr>)))"
    by (intro ctx.preserves_locked preservesI) (auto intro: ctx.frame [THEN iffD2])
  ultimately show "igs_freeze env c = Some (r, c') \<Longrightarrow> ctx_ok c'" "igs_unfreeze env c = Some (r, c') \<Longrightarrow> ctx_ok c'"
    "igs_observe_freeze env f d c = Some (r, c') \<Longrightarrow> ctx_ok c'"
    using with_core_agent_ok [OF assms] by (auto simp: igs_freeze_def igs_unfreeze_def igs_observe_freeze_def)
qed

lemma paths_preserve: "preserves ctx_ok (igsagent_definition_set_path p s)" "preserves ctx_ok (igsagent_mapping_set_path p s)"
  unfolding igsagent_definition_set_path_def igsagent_mapping_set_path_def
  by (rule set_path_preserves, simp add: good_def agent_wf_def agent_mapping_ok_def)+

lemma io_texts_preserve:
  "preserves ctx_ok (io_add_constraint t e p n s)" "preserves ctx_ok (io_set_description t p n s)"
  "preserves ctx_ok (io_set_detailed_type t p n s s')"
  unfolding io_add_constraint_def io_set_description_def io_set_detailed_type_def
  by (intro change_io_preserves op_preserves)+

lemma mute_preserves:
  assumes "callbacks_sound env" shows "preserves ctx_ok (igsagent_mute env p)" "preserves ctx_ok (igsagent_unmute env p)"
    "preserves ctx_ok (igsagent_set_state env p s)"
proof -
  have cb: "callbacks_preserve env ctx_ok" using assms by (simp add: callbacks_sound_def)
  show "preserves ctx_ok (igsagent_mute env p)" "preserves ctx_ok (igsagent_unmute env p)"
    unfolding igsagent_mute_def igsagent_unmute_def
    by (intro preserves_with_agent ctx.preserves_locked mute_body_preserves cb)+
  show "preserves ctx_ok (igsagent_set_state env p s)" by (rule igsagent_set_state_preserves [OF cb])
qed

lemmas plain_preserves = io_create_preserves io_remove_preserves clear_definition_preserves io_clear_preserves
  io_observe_preserves enforce_preserves set_muted_preserves definition_texts_preserve services_preserve mappings_preserve
  mapping_load_preserves election_preserves flags_preserve paths_preserve io_texts_preserve

lemma kept: "op c = Some (r, c') \<Longrightarrow> ctx_ok c \<Longrightarrow> preserves ctx_ok op \<Longrightarrow> ctx_ok c'"
  by (rule preservesD)

lemma step_preserves:
  assumes sound: "callbacks_sound env" and "api_step env pe c c'" and ok: "ctx_ok c" shows "ctx_ok c'"
proof -
  have cb: "callbacks_preserve env ctx_ok" using sound by (simp add: callbacks_sound_def)
  from assms(2) show ?thesis
  proof cases
    case new then show ?thesis using new_agent_ok [OF cb ok] by blast
  next
    case activate then show ?thesis using igsagent_activate_ok [OF cb ok] by blast
  next
    case deactivate then show ?thesis using deactivate_ctx_ok [OF cb ok] by blast
  next
    case freeze then show ?thesis using freezing_preserves(1) [OF cb ok] by blast
  next
    case unfreeze then show ?thesis using freezing_preserves(2) [OF cb ok] by blast
  next
    case observe_freeze then show ?thesis using freezing_preserves(3) [OF cb ok] by blast
  next
    case rename then show ?thesis using set_name_ctx_ok [OF ok] by blast
  next
    case service_init then show ?thesis using preservesD [OF service_init_preserves ok] by blast
  next
    case reply_add then show ?thesis using preservesD [OF reply_add_preserves ok] by blast
  qed ((erule kept, rule ok, rule plain_preserves destroy_preserves [OF sound] mute_preserves [OF sound] set_io_preserves [OF cb]
      service_call_preserves [OF cb] received_publication_preserves [OF cb] publication_command_preserves [OF cb]
      handle_call_preserves [OF cb])+)
qed

end
