(* ===== verification/Igs_Life.thy ===== *)
theory Igs_Life
  imports Igs_Reach
begin

text \<open>
  What the life of an agent looks like when the functions of the application return and
  only record what they are told: the events of an agent reach every function that every
  other active agent registered, once and in order; activation returns with the agent in
  the context; a destroyed agent is gone.
\<close>

section \<open>Functions that are told of events\<close>

definition telling :: "app_env \<Rightarrow> bool" where
  "telling env \<longleftrightarrow> (\<forall>f p e u n x d c. \<exists>c'. call_event env f p e u n x d c = Some c' \<and> same_model c c')
     \<and> (\<forall>f p b d c. \<exists>c'. call_activate env f p b d c = Some c' \<and> same_model c c')"

definition tell ::
    "app_env \<Rightarrow> igs_agent_event \<Rightarrow> string \<Rightarrow> string \<Rightarrow> string option \<Rightarrow> addr \<times> igs_wrapper \<Rightarrow> igs_core \<Rightarrow> igs_core option" where
  "tell env e u n x l = call_event env (wr_callback (snd l)) (fst l) e u n x (wr_my_data (snd l))"

text \<open>Who is told of an event of the agent \<open>u\<close>: the functions of the other agents, agent by agent.\<close>

definition listeners_at :: "string \<Rightarrow> igs_core \<Rightarrow> string \<times> addr \<Rightarrow> (addr \<times> igs_wrapper) list" where
  "listeners_at u c e = (if fst e = u then [] else case deref (snd e) c of None \<Rightarrow> []
     | Some a \<Rightarrow> map (Pair (snd e)) (ag_agent_event_callbacks a))"

definition listeners :: "string \<Rightarrow> (string \<times> addr) list \<Rightarrow> igs_core \<Rightarrow> (addr \<times> igs_wrapper) list" where
  "listeners u t c = concat (map (listeners_at u c) t)"

lemma tell_returns: "telling env \<Longrightarrow> \<exists>c'. tell env e u n x l c = Some c' \<and> same_model c c'"
  unfolding telling_def tell_def by blast

lemma in_turn_append: "in_turn f (xs @ ys) c = Option.bind (in_turn f xs c) (in_turn f ys)"
proof (induction xs arbitrary: c)
  case (Cons y xs)
  then show ?case by (cases "f y c") auto
qed simp

lemma in_turn_returns:
  "(\<And>x c. \<exists>c'. f x c = Some c' \<and> same_model c c') \<Longrightarrow> \<exists>c'. in_turn f xs c = Some c' \<and> same_model c c'"
proof (induction xs arbitrary: c)
  case (Cons y xs)
  obtain c1 where c1: "f y c = Some c1" "same_model c c1" using Cons.prems by blast
  obtain c' where "in_turn f xs c1 = Some c'" "same_model c1 c'" using Cons by blast
  with c1 show ?case by (auto intro: same_model_trans)
qed simp

lemma same_model_agents: "same_model c c' \<Longrightarrow> cx_agents c' = cx_agents c \<and> cx_store c' = cx_store c \<and> cx_model_locked c' = cx_model_locked c
    \<and> cx_remote_agents c' = cx_remote_agents c \<and> cx_created_agents c' = cx_created_agents c \<and> cx_elections c' = cx_elections c \<and> cx_node c' = cx_node c"
  by (auto simp: same_model_def)

text \<open>A call with the mutex free, from where it is held.\<close>

lemma unlocked_tell:
  assumes "\<not> cx_model_locked c" and "f c = Some c'" and "same_model c c'"
  shows "unlocked (\<lambda>c. do { c \<leftarrow> f c; Some ((), c) }) (c\<lparr> cx_model_locked := True \<rparr>) = Some ((), c'\<lparr> cx_model_locked := True \<rparr>)"
proof -
  have "c\<lparr> cx_model_locked := False \<rparr> = c" using assms(1) by (cases c) simp
  then have "f (c\<lparr> cx_model_locked := False \<rparr>) = Some c'" using assms(2) by (simp only:)
  then show ?thesis using same_model_agents [OF assms(3)] assms(1)
    by (simp add: unlocked_def model_unlock_def model_lock_def)
qed

lemma event_observers_result:
  assumes "telling env"
  shows "\<not> cx_model_locked c \<Longrightarrow> deref p c = Some a \<Longrightarrow> ag_uuid a \<noteq> None \<Longrightarrow> zh_lookup (cx_agents c) v \<noteq> None \<Longrightarrow>
    event_observers env p v e u n x ws (c\<lparr> cx_model_locked := True \<rparr>)
      = map_option (\<lambda>c. c\<lparr> cx_model_locked := True \<rparr>) (in_turn (tell env e u n x) (map (Pair p) ws) c)"
proof (induction ws arbitrary: c)
  case (Cons w ws)
  obtain c1 where c1: "tell env e u n x (p, w) c = Some c1" "same_model c c1" using tell_returns [OF assms] by blast
  have s: "unlocked (\<lambda>c. do { c \<leftarrow> call_event env (wr_callback w) p e u n x (wr_my_data w) c; Some ((), c) })
      (c\<lparr> cx_model_locked := True \<rparr>) = Some ((), c1\<lparr> cx_model_locked := True \<rparr>)"
    by (rule unlocked_tell [OF Cons.prems(1) _ c1(2)]) (use c1(1) in \<open>simp add: tell_def\<close>)
  note k = same_model_agents [OF c1(2)]
  have "event_observers env p v e u n x ws (c1\<lparr> cx_model_locked := True \<rparr>)
      = map_option (\<lambda>c. c\<lparr> cx_model_locked := True \<rparr>) (in_turn (tell env e u n x) (map (Pair p) ws) c1)"
    by (rule Cons.IH) (use k Cons.prems in \<open>auto simp: deref_def\<close>)
  with s c1(1) k Cons.prems show ?case by auto
qed simp

lemma listeners_same: "cx_store c' = cx_store c \<Longrightarrow> listeners u t c' = listeners u t c"
  by (simp add: listeners_def listeners_at_def [abs_def] deref_def cong: if_cong)

definition standing :: "(string \<times> addr) list \<Rightarrow> igs_core \<Rightarrow> bool" where
  "standing t c \<longleftrightarrow> (\<forall>(u, p) \<in> set t. \<exists>a. deref p c = Some a \<and> ag_uuid a = Some u)"

lemma next_agent_standing:
  "standing (ups @ vqs) c \<Longrightarrow> set (map fst ups) \<subseteq> set us \<Longrightarrow> set (map fst vqs) \<inter> set us = {} \<Longrightarrow>
     next_agent us (map snd (ups @ vqs)) c = Some (case vqs of [] \<Rightarrow> None | (v, q) # _ \<Rightarrow> Some q)"
proof (induction ups)
  case Nil
  then show ?case by (cases vqs) (auto simp: standing_def)
next
  case (Cons y ups)
  then show ?case by (cases y) (auto simp: standing_def)
qed

lemma ctx_ok_standing: "ctx_ok c \<Longrightarrow> standing (cx_agents c) c \<and> distinct (map fst (cx_agents c))"
  using ctx_ok_feeding [of c] by (fastforce simp: standing_def feeding_def)

lemma standing_same: "cx_store c' = cx_store c \<Longrightarrow> standing t c' = standing t c"
  by (simp add: standing_def deref_def)

lemma propagate_loop_result:
  assumes "telling env" and "distinct (map fst (ups @ vqs))"
  shows "\<not> cx_model_locked c \<Longrightarrow> cx_agents c = ups @ vqs \<Longrightarrow> standing (ups @ vqs) c \<Longrightarrow>
    propagate_loop env e u n x (map fst ups) (case vqs of [] \<Rightarrow> None | (v, q) # _ \<Rightarrow> Some q) (c\<lparr> cx_model_locked := True \<rparr>)
      = map_option (\<lambda>c. c\<lparr> cx_model_locked := True \<rparr>) (in_turn (tell env e u n x) (listeners u vqs c) c)"
  using assms(2)
proof (induction vqs arbitrary: ups c)
  case Nil
  then show ?case by (simp add: propagate_loop.simps listeners_def)
next
  case (Cons y vqs)
  obtain v q where y: "y = (v, q)" by (cases y)
  obtain b where b: "deref q c = Some b" "ag_uuid b = Some v" using Cons.prems(3) y by (auto simp: standing_def)
  have act: "zh_lookup (cx_agents c) v \<noteq> None" using Cons.prems(2) y by (auto simp: zh_lookup_None_iff)
  let ?ls = "listeners_at u c y"
  obtain c1 where c1: "in_turn (tell env e u n x) ?ls c = Some c1" "same_model c c1"
    using in_turn_returns [of "tell env e u n x" ?ls c] tell_returns [OF assms(1)] by blast
  note k = same_model_agents [OF c1(2)]
  have step: "(if u = v then Some (c\<lparr> cx_model_locked := True \<rparr>)
      else event_observers env q v e u n x (ag_agent_event_callbacks b) (c\<lparr> cx_model_locked := True \<rparr>))
      = Some (c1\<lparr> cx_model_locked := True \<rparr>)"
  proof (cases "u = v")
    case True
    with c1(1) y show ?thesis by (simp add: listeners_at_def)
  next
    case False
    have "ag_uuid b \<noteq> None" using b(2) by simp
    from event_observers_result [OF assms(1) Cons.prems(1) b(1) this act, of e u n x "ag_agent_event_callbacks b"]
    show ?thesis using False c1(1) b(1) y by (simp add: listeners_at_def)
  qed
  have st1: "standing ((ups @ [y]) @ vqs) c1" using Cons.prems(3) k standing_same [of c1 c] by simp
  have nx: "next_agent (map fst ups @ [v]) (map snd (cx_agents (c1\<lparr> cx_model_locked := True \<rparr>))) (c1\<lparr> cx_model_locked := True \<rparr>)
      = Some (case vqs of [] \<Rightarrow> None | (v, q) # _ \<Rightarrow> Some q)"
  proof -
    have s: "standing ((ups @ [y]) @ vqs) (c1\<lparr> cx_model_locked := True \<rparr>)" using st1 by (simp add: standing_def)
    have "set (map fst (ups @ [y])) \<subseteq> set (map fst ups @ [v])" "set (map fst vqs) \<inter> set (map fst ups @ [v]) = {}"
      using y Cons.prems(4) by auto
    note n = next_agent_standing [OF s this]
    have "cx_agents (c1\<lparr> cx_model_locked := True \<rparr>) = (ups @ [y]) @ vqs" using k Cons.prems(2) by simp
    then show ?thesis by (simp only: n)
  qed
  have rest: "propagate_loop env e u n x (map fst ups @ [v]) (case vqs of [] \<Rightarrow> None | (v, q) # _ \<Rightarrow> Some q) (c1\<lparr> cx_model_locked := True \<rparr>)
      = map_option (\<lambda>c. c\<lparr> cx_model_locked := True \<rparr>) (in_turn (tell env e u n x) (listeners u vqs c1) c1)"
    using Cons.IH [of c1 "ups @ [y]"] Cons.prems k st1 y by simp
  have "listeners u (y # vqs) c = ?ls @ listeners u vqs c1" using k by (simp add: listeners_same [of c1 c]) (simp add: listeners_def)
  then show ?case
    using b step nx rest c1(1) y by (subst propagate_loop.simps) (simp add: in_turn_append)
qed

lemma propagate_result:
  assumes "telling env" and "\<not> cx_model_locked c" and "standing (cx_agents c) c" and "distinct (map fst (cx_agents c))"
  shows "agent_LOCKED_propagate_agent_event env e (Some u) (Some n) x c
    = map_option (Pair ()) (in_turn (tell env e u n x) (listeners u (cx_agents c) c) c)"
proof -
  obtain c' where c': "in_turn (tell env e u n x) (listeners u (cx_agents c) c) c = Some c'" "same_model c c'"
    using in_turn_returns [of "tell env e u n x"] tell_returns [OF assms(1)] by blast
  have "propagate_loop env e u n x [] (first_agent (c\<lparr> cx_model_locked := True \<rparr>)) (c\<lparr> cx_model_locked := True \<rparr>)
      = Some (c'\<lparr> cx_model_locked := True \<rparr>)"
    using propagate_loop_result [of env "[]" "cx_agents c" c e u n x] assms c'(1) by (simp add: first_agent_def)
  moreover have "c'\<lparr> cx_model_locked := False \<rparr> = c'" using same_model_agents [OF c'(2)] assms(2) by (cases c') simp
  ultimately show ?thesis using assms(2) c'(1)
    by (simp add: agent_LOCKED_propagate_agent_event_def locked_def model_lock_def model_unlock_def)
qed

section \<open>Activation\<close>

text \<open>What the code reads of a definition that it announces.\<close>

definition named :: "igs_definition option \<Rightarrow> bool" where
  "named d \<longleftrightarrow> (case d of None \<Rightarrow> False | Some d \<Rightarrow> df_name d \<noteq> None \<and> df_json d \<noteq> None)"

lemma namedE:
  assumes "named d" obtains e n j where "d = Some e" "df_name e = Some n" "df_json e = Some j"
  using assms by (auto simp: named_def split: option.splits)

text \<open>A call under the lock that changes nothing but the events.\<close>

lemma unlocked_returns:
  assumes "cx_model_locked c" and "f (c\<lparr> cx_model_locked := False \<rparr>) = Some ((), c1)" and "same_model (c\<lparr> cx_model_locked := False \<rparr>) c1"
  obtains c' where "unlocked f c = Some ((), c')" "same_model c c'"
proof (rule that)
  show "unlocked f c = Some ((), c1\<lparr> cx_model_locked := True \<rparr>)"
    using assms(1,2) same_model_agents [OF assms(3)] by (simp add: unlocked_def model_lock_def model_unlock_def)
  show "same_model c (c1\<lparr> cx_model_locked := True \<rparr>)" using same_model_lock [OF assms(3), of True] assms(1) by simp
qed

lemma tellingD:
  assumes "telling env"
  obtains c' where "call_event env f p e u n x d c = Some c'" "same_model c c'"
  using assms unfolding telling_def by blast

lemma tellingD2:
  assumes "telling env"
  obtains c' where "call_activate env f p b d c = Some c'" "same_model c c'"
  using assms unfolding telling_def by blast

lemma same_model_keep: "same_model c c' \<Longrightarrow> deref p c' = deref p c" "same_model c c' \<Longrightarrow> cx_agents c' = cx_agents c"
  "same_model c c' \<Longrightarrow> cx_model_locked c' = cx_model_locked c" "same_model c c' \<Longrightarrow> cx_remote_agents c' = cx_remote_agents c"
  by (auto simp: same_model_def deref_def)

lemma local_entered_returns:
  assumes "telling env" and "ag_uuid l = Some u" and "named (ag_definition l)"
  shows "cx_model_locked c \<Longrightarrow> deref q c = Some l \<Longrightarrow> deref p c \<noteq> None \<Longrightarrow> zh_lookup (cx_agents c) u \<noteq> None \<Longrightarrow>
    \<exists>c'. local_entered env p q u ws c = Some c' \<and> same_model c c'"
proof (induction ws arbitrary: c)
  case (Cons w ws)
  obtain d n j where d: "ag_definition l = Some d" "df_name d = Some n" "df_json d = Some j" using assms(3) by (rule namedE)
  obtain a where a: "deref p c = Some a" using Cons.prems(3) by blast
  let ?f = "\<lambda>c. do { a \<leftarrow> deref p c;
                 c \<leftarrow> call_event env (wr_callback w) p IGS_AGENT_ENTERED u n (Some j) (wr_my_data w) c;
                 a \<leftarrow> deref p c;
                 c \<leftarrow> call_event env (wr_callback w) p IGS_AGENT_KNOWS_US u n None (wr_my_data w) c;
                 Some ((), c) }"
  let ?c = "c\<lparr> cx_model_locked := False \<rparr>"
  obtain c1 where c1: "call_event env (wr_callback w) p IGS_AGENT_ENTERED u n (Some j) (wr_my_data w) ?c = Some c1" "same_model ?c c1"
    by (rule tellingD [OF assms(1)])
  obtain c2 where c2: "call_event env (wr_callback w) p IGS_AGENT_KNOWS_US u n None (wr_my_data w) c1 = Some c2" "same_model c1 c2"
    by (rule tellingD [OF assms(1)])
  have m: "same_model ?c c2" using same_model_trans [OF c1(2) c2(2)] .
  have f: "?f ?c = Some ((), c2)" using a c1 c2(1) same_model_keep(1) [OF c1(2), of p] by simp
  obtain c2 where call: "unlocked ?f c = Some ((), c2)" and s: "same_model c c2"
    by (rule unlocked_returns [where f = ?f, OF Cons.prems(1) f m])
  note k = same_model_keep [OF s]
  have "cx_model_locked c2" "deref q c2 = Some l" "deref p c2 \<noteq> None" "zh_lookup (cx_agents c2) u \<noteq> None"
    using k Cons.prems by simp_all
  from Cons.IH [OF this] obtain c3 where c3: "local_entered env p q u ws c2 = Some c3" "same_model c2 c3" by blast
  obtain r0 where r0: "zh_lookup (cx_agents c) u = Some r0" using Cons.prems(4) by blast
  have "local_entered env p q u (w # ws) c = Some c3"
    using call c3(1) Cons.prems(2) r0 assms(2) d k(2) by simp
  with same_model_trans [OF s c3(2)] show ?case by blast
qed simp

lemma activate_locals_returns:
  assumes "telling env" and "distinct (map fst (ups @ vqs))"
  shows "cx_model_locked c \<Longrightarrow> cx_agents c = ups @ vqs \<Longrightarrow> standing (ups @ vqs) c \<Longrightarrow> deref p c = Some a \<Longrightarrow>
    \<forall>(v, q) \<in> set vqs. \<forall>l. deref q c = Some l \<longrightarrow> named (ag_definition l) \<Longrightarrow>
    \<exists>c'. activate_locals env p ws (map fst ups) (case vqs of [] \<Rightarrow> None | (v, q) # _ \<Rightarrow> Some q) c = Some c' \<and> same_model c c'"
  using assms(2)
proof (induction vqs arbitrary: ups c)
  case Nil
  then show ?case by (simp add: activate_locals.simps)
next
  case (Cons y vqs)
  obtain v q where y: "y = (v, q)" by (cases y)
  obtain l where l: "deref q c = Some l" "ag_uuid l = Some v" using Cons.prems(3) y by (auto simp: standing_def)
  have n: "named (ag_definition l)" using Cons.prems(5) l y by simp
  have act: "zh_lookup (cx_agents c) v \<noteq> None" using Cons.prems(2) y by (auto simp: zh_lookup_None_iff)
  have p: "deref p c \<noteq> None" using Cons.prems(4) by simp
  obtain c1 where c1: "(if ag_uuid a \<noteq> None \<and> ag_uuid a \<noteq> Some v then local_entered env p q v ws c else Some c) = Some c1" "same_model c c1"
    using local_entered_returns [OF assms(1) l(2) n Cons.prems(1) l(1) p act] by (cases "ag_uuid a \<noteq> None \<and> ag_uuid a \<noteq> Some v") auto
  note k = same_model_keep [OF c1(2)]
  have st: "standing ((ups @ [y]) @ vqs) c1" using Cons.prems(3) same_model_agents [OF c1(2)] standing_same [of c1 c] by simp
  have "set (map fst (ups @ [y])) \<subseteq> set (map fst ups @ [v])" "set (map fst vqs) \<inter> set (map fst ups @ [v]) = {}"
    using y Cons.prems(6) by auto
  note nx = next_agent_standing [OF st this]
  have ag: "cx_agents c1 = (ups @ [y]) @ vqs" using k(2) Cons.prems(2) by simp
  have "\<forall>(v, q) \<in> set vqs. \<forall>l. deref q c1 = Some l \<longrightarrow> named (ag_definition l)" using Cons.prems(5) k(1) by auto
  moreover have "distinct (map fst ((ups @ [y]) @ vqs))" using Cons.prems(6) by simp
  ultimately obtain c' where c': "activate_locals env p ws (map fst (ups @ [y])) (case vqs of [] \<Rightarrow> None | (v, q) # _ \<Rightarrow> Some q) c1 = Some c'"
    "same_model c1 c'"
    using Cons.IH [of c1 "ups @ [y]"] Cons.prems(1,4) k(1,3) ag st by auto
  have "activate_locals env p ws (map fst ups) (Some q) c = Some c'"
    using l c1(1) nx ag c'(1) Cons.prems(4) y by (subst activate_locals.simps) simp
  with same_model_trans [OF c1(2) c'(2)] y show ?case by auto
qed

lemma remote_entered_returns:
  assumes "telling env" and "ag_uuid a = Some v"
  shows "cx_model_locked c \<Longrightarrow> deref p c = Some a \<Longrightarrow> zh_lookup (cx_remote_agents c) u = Some ra \<Longrightarrow> named (ra_definition ra) \<Longrightarrow>
    \<exists>c'. remote_entered env p u ws c = Some c' \<and> same_model c c'"
proof (induction ws arbitrary: c)
  case (Cons w ws)
  obtain d n j where d: "ra_definition ra = Some d" "df_name d = Some n" "df_json d = Some j" using Cons.prems(4) by (rule namedE)
  let ?f = "\<lambda>c. do { d \<leftarrow> ra_definition ra;
                           n \<leftarrow> df_name d;
                           c \<leftarrow> call_event env (wr_callback w) p IGS_AGENT_ENTERED u n (df_json d) (wr_my_data w) c;
                           Some ((), c) }"
  let ?c = "c\<lparr> cx_model_locked := False \<rparr>"
  obtain c0 where c0: "call_event env (wr_callback w) p IGS_AGENT_ENTERED u n (df_json d) (wr_my_data w) ?c = Some c0" "same_model ?c c0"
    by (rule tellingD [OF assms(1)])
  have f: "?f ?c = Some ((), c0)" using c0(1) d by simp
  obtain c1 where c1: "unlocked ?f c = Some ((), c1)" "same_model c c1" by (rule unlocked_returns [where f = ?f, OF Cons.prems(1) f c0(2)])
  note k = same_model_keep [OF c1(2)]
  obtain c2 where c2: "remote_entered env p u ws c1 = Some c2" "same_model c1 c2"
    using Cons.IH [of c1] Cons.prems k by (metis (no_types, lifting))
  show ?case
  proof (cases "zh_lookup (cx_agents c1) u = None")
    case True
    with c1 Cons.prems(2,3) assms(2) show ?thesis by auto
  next
    case False
    with c1 c2 Cons.prems(2,3) assms(2) show ?thesis using same_model_trans by auto
  qed
qed simp

text \<open>The remote agents are visited in the order of the table, whose keys are their uuids.\<close>

definition remotes_ok :: "igs_core \<Rightarrow> bool" where
  "remotes_ok c \<longleftrightarrow> zh_wf (cx_remote_agents c)
     \<and> (\<forall>(u, ra) \<in> set (cx_remote_agents c). ra_uuid ra = u \<and> named (ra_definition ra))"

lemma next_remote_skip:
  assumes "remotes_ok c" and "cx_remote_agents c = xs @ ys"
  shows "next_remote (map fst xs) c = (case ys of [] \<Rightarrow> None | (u, ra) # _ \<Rightarrow> Some ra)"
proof -
  have "ra_uuid ra \<in> set (map fst xs)" if r: "ra \<in> set (map snd xs)" for ra
  proof -
    obtain u where u: "(u, ra) \<in> set xs" using r by auto
    then have "ra_uuid ra = u" using assms by (auto simp: remotes_ok_def)
    then show ?thesis using u by (auto simp: image_iff intro: bexI [of _ "(u, ra)"])
  qed
  then have "find (\<lambda>ra. ra_uuid ra \<notin> set (map fst xs)) (map snd xs) = None" by (simp only: find_None_iff) blast
  moreover have "ys = (u, ra) # zs \<Longrightarrow> ra_uuid ra \<notin> set (map fst xs)" for u ra zs
    using assms by (auto simp: remotes_ok_def zh_wf_def)
  ultimately show ?thesis unfolding next_remote_def assms(2)
    by (cases ys) (auto simp: find_append simp del: set_map)
qed

lemma activate_remotes_returns:
  assumes "telling env" and "ag_uuid a = Some v"
  shows "cx_model_locked c \<Longrightarrow> deref p c = Some a \<Longrightarrow> remotes_ok c \<Longrightarrow> cx_remote_agents c = xs @ ys \<Longrightarrow>
    \<exists>c'. activate_remotes env p ws (map fst xs) (case ys of [] \<Rightarrow> None | (u, ra) # _ \<Rightarrow> Some ra) c = Some c' \<and> same_model c c'"
proof (induction ys arbitrary: xs c)
  case Nil
  then show ?case using assms(2) by (simp add: activate_remotes.simps)
next
  case (Cons y ys)
  obtain u ra where y: "y = (u, ra)" by (cases y)
  have ra: "ra_uuid ra = u" "named (ra_definition ra)" "zh_lookup (cx_remote_agents c) u = Some ra"
    using Cons.prems(3,4) y zh_lookup_wf [of "cx_remote_agents c" u ra] by (auto simp: remotes_ok_def)
  obtain c1 where c1: "remote_entered env p u ws c = Some c1" "same_model c c1"
    using remote_entered_returns [OF assms Cons.prems(1,2) ra(3,2)] by blast
  note k = same_model_keep [OF c1(2)]
  have ok1: "remotes_ok c1" using Cons.prems(3) k(4) by (simp add: remotes_ok_def)
  have r1: "cx_remote_agents c1 = (xs @ [y]) @ ys" using Cons.prems(4) k(4) by simp
  obtain c' where c': "activate_remotes env p ws (map fst (xs @ [y])) (case ys of [] \<Rightarrow> None | (u, ra) # _ \<Rightarrow> Some ra) c1 = Some c'"
    "same_model c1 c'"
    using Cons.IH [OF _ _ ok1 r1] Cons.prems(1,2) k(1,3) by auto
  have "activate_remotes env p ws (map fst xs) (Some ra) c = Some c'"
    using Cons.prems(2) assms(2) c1(1) ra(1) c'(1) next_remote_skip [OF ok1 r1] y
    by (subst activate_remotes.simps) simp
  with same_model_trans [OF c1(2) c'(2)] y show ?case by auto
qed

lemma activation_observers_returns:
  assumes "telling env"
  shows "cx_model_locked c \<Longrightarrow> deref p c = Some a \<Longrightarrow>
    \<exists>c'. activation_observers env p b ws c = Some c' \<and> same_model c c'"
proof (induction ws arbitrary: c)
  case (Cons w ws)
  show ?case
  proof (cases "ag_uuid a = None")
    case True
    with Cons.prems(2) show ?thesis by auto
  next
    case False
    then obtain v where v: "ag_uuid a = Some v" by blast
    let ?f = "\<lambda>c. do { c \<leftarrow> call_activate env (wr_callback w) p b (wr_my_data w) c; Some ((), c) }"
    let ?c = "c\<lparr> cx_model_locked := False \<rparr>"
    obtain c0 where c0: "call_activate env (wr_callback w) p b (wr_my_data w) ?c = Some c0" "same_model ?c c0"
      by (rule tellingD2 [OF assms])
    have f: "?f ?c = Some ((), c0)" using c0(1) by simp
    obtain c1 where c1: "unlocked ?f c = Some ((), c1)" "same_model c c1"
      by (rule unlocked_returns [where f = ?f, OF Cons.prems(1) f c0(2)])
    obtain c2 where c2: "activation_observers env p b ws c1 = Some c2" "same_model c1 c2"
      using Cons.IH [of c1] Cons.prems same_model_keep(1,3) [OF c1(2)] by auto
    have "activation_observers env p b (w # ws) c = Some c2" using Cons.prems(2) v c1(1) c2(1) by simp
    with same_model_trans [OF c1(2) c2(2)] show ?thesis by blast
  qed
qed simp

text \<open>An agent as activation leaves it.\<close>

definition activated :: "igs_core \<Rightarrow> igs_agent \<Rightarrow> igs_agent" where
  "activated c a = a\<lparr> ag_context := True,
     ag_rt_timestamps_enabled := (ag_rt_timestamps_enabled a \<or> cx_rt_current_microseconds c \<noteq> INT64_MIN),
     ag_need_definition_update := True, ag_activation_during_runtime := True \<rparr>"

definition announced :: "igs_core \<Rightarrow> bool" where
  "announced c \<longleftrightarrow> (\<forall>(u, p) \<in> set (cx_agents c). \<forall>a. deref p c = Some a \<longrightarrow> named (ag_definition a))"

lemma locked_returns:
  assumes "\<not> cx_model_locked c" and "body (c\<lparr> cx_model_locked := True \<rparr>) = Some (r, c1)" and "same_model (d\<lparr> cx_model_locked := True \<rparr>) c1"
    and "\<not> cx_model_locked d"
  obtains c' where "locked body c = Some (r, c')" "same_model d c'"
proof (rule that)
  have "cx_model_locked c1" using same_model_agents [OF assms(3)] by simp
  then show "locked body c = Some (r, c1\<lparr> cx_model_locked := False \<rparr>)" using assms(1,2) by (rule locked_free [rotated 2])
  have "(d\<lparr> cx_model_locked := True \<rparr>)\<lparr> cx_model_locked := False \<rparr> = d" using assms(4) by (cases d) simp
  then show "same_model d (c1\<lparr> cx_model_locked := False \<rparr>)" using same_model_lock [OF assms(3), of False] by (simp only:)
qed

text \<open>The context with the agent in it, and the channel it joined.\<close>

definition entered :: "addr \<Rightarrow> igs_agent \<Rightarrow> string \<Rightarrow> igs_core \<Rightarrow> igs_core" where
  "entered p a u c = (let d = (store p (activated c a) c)\<lparr> cx_agents := zh_insert u p (cx_agents c) \<rparr>
     in if cx_node c then emit (Zyre_Join (the (ag_igs_channel a))) d else d)"

lemma entered_frame [simp]:
  "cx_agents (entered p a u c) = zh_insert u p (cx_agents c)" "cx_model_locked (entered p a u c) = cx_model_locked c"
  "deref q (entered p a u c) = (if q = p then Some (activated c a) else deref q c)"
  "cx_remote_agents (entered p a u c) = cx_remote_agents c" "cx_created_agents (entered p a u c) = cx_created_agents c"
  by (simp_all add: entered_def Let_def emit_def store_def deref_def)

lemma entered_locked: "(entered p a u c)\<lparr> cx_model_locked := b \<rparr> = entered p a u (c\<lparr> cx_model_locked := b \<rparr>)"
  by (cases c) (simp add: entered_def Let_def emit_def store_def activated_def)

lemma activated_frame [simp]: "ag_uuid (activated c a) = ag_uuid a" "ag_definition (activated c a) = ag_definition a"
  "ag_agent_event_callbacks (activated c a) = ag_agent_event_callbacks a" "ag_context (activated c a)"
  "ag_igs_channel (activated c a) = ag_igs_channel a" "ag_activate_callbacks (activated c a) = ag_activate_callbacks a"
  by (simp_all add: activated_def)

lemma entered_ok:
  assumes "ctx_ok c" and "created p c" and "deref p c = Some a" and "ag_uuid a = Some u" shows "ctx_ok (entered p a u c)"
proof -
  obtain w where w: "good w a" "(w, p) \<in> set (cx_created_agents c)" "ag_uuid a = Some w" by (rule created_good [OF assms(1-3)])
  have "ctx_ok (store p (activated c a) c)" by (rule ctx_ok_store [OF assms(1,3)]) (simp add: activated_def)
  from ctx_ok_activated [OF this, of u p] have "ctx_ok ((store p (activated c a) c)\<lparr> cx_agents := zh_insert u p (cx_agents c) \<rparr>)"
    using w assms(4) by (simp add: store_def)
  then show ?thesis by (simp add: entered_def Let_def)
qed

lemma activate_enter_returns:
  assumes "telling env" and ok: "ctx_ok c" and "created p c" and a: "deref p c = Some a" and u: "ag_uuid a = Some u"
    and "cx_model_locked c" and nm: "named (ag_definition a)" and "announced c" and rem: "remotes_ok c"
    and new: "zh_lookup (cx_agents c) u = None" and ch: "cx_node c \<longrightarrow> ag_igs_channel a \<noteq> None"
  obtains n j c' where "activate_enter env p c = Some (Some (u, n, j), c')" "same_model (entered p a u c) c'"
proof -
  let ?e = "entered p a u c"
  obtain d n j where d: "ag_definition a = Some d" "df_name d = Some n" "df_json d = Some j" using nm by (rule namedE)
  have st: "standing (cx_agents ?e) ?e" "distinct (map fst (cx_agents ?e))"
    using ctx_ok_standing [OF entered_ok [OF ok assms(3) a u]] by auto
  have names: "\<forall>(v, q) \<in> set (cx_agents ?e). \<forall>l. deref q ?e = Some l \<longrightarrow> named (ag_definition l)"
  proof (intro ballI, clarify)
    fix v q l assume v: "(v, q) \<in> set (cx_agents ?e)" and l: "deref q ?e = Some l"
    show "named (ag_definition l)"
    proof (cases "q = p")
      case True
      with l have "l = activated c a" by simp
      with nm show ?thesis by simp
    next
      case False
      with v new have "(v, q) \<in> set (cx_agents c)" by (simp add: set_zh_insert)
      with False l assms(8) show ?thesis by (auto simp: announced_def)
    qed
  qed
  have "cx_model_locked ?e" "deref p ?e = Some (activated c a)" using assms(6) by simp_all
  then obtain c2 where c2: "activate_locals env p (ag_agent_event_callbacks a) [] (first_agent ?e) ?e = Some c2" "same_model ?e c2"
    using activate_locals_returns [OF assms(1), of "[]" "cx_agents ?e" ?e p "activated c a" "ag_agent_event_callbacks a"] st names
    by (auto simp: first_agent_def)
  note k2 = same_model_keep [OF c2(2)]
  have r2: "remotes_ok c2" using rem k2(4) by (simp add: remotes_ok_def)
  have "cx_model_locked c2" "deref p c2 = Some (activated c a)" using k2 assms(6) by simp_all
  then obtain c3 where c3: "activate_remotes env p (ag_agent_event_callbacks a) [] (next_remote [] c2) c2 = Some c3" "same_model c2 c3"
    using activate_remotes_returns [OF assms(1), of "activated c a" u c2 p "[]" "cx_remote_agents c2" "ag_agent_event_callbacks a"]
      next_remote_skip [OF r2, of "[]" "cx_remote_agents c2"] r2 u by auto
  have m: "same_model ?e c3" using same_model_trans [OF c2(2) c3(2)] .
  have d3: "deref p c3 = Some (activated c a)" using same_model_keep(1) [OF m, of p] by simp
  have "activate_enter env p c = Some (Some (u, n, j), c3)"
  proof (cases "cx_node c")
    case True
    then obtain chan where "ag_igs_channel a = Some chan" using ch by blast
    with True a u new d c2(1) c3(1) d3 show ?thesis
      by (simp add: activate_enter_def Let_def entered_def activated_def store_def)
  next
    case False
    with a u new d c2(1) c3(1) d3 show ?thesis
      by (simp add: activate_enter_def Let_def entered_def activated_def store_def)
  qed
  with m show thesis by (rule that [rotated])
qed

lemma activation_returns:
  assumes tl: "telling env" and ok: "ctx_ok c" and cr: "created p c" and a: "deref p c = Some a" and u: "ag_uuid a = Some u"
    and fr: "\<not> cx_model_locked c" and nm: "named (ag_definition a)" and an: "announced c" and rem: "remotes_ok c"
    and new: "zh_lookup (cx_agents c) u = None" and ch: "cx_node c \<longrightarrow> ag_igs_channel a \<noteq> None"
  shows "\<exists>c'. igsagent_activate env p c = Some (IGS_SUCCESS, c') \<and> same_model (entered p a u c) c'"
proof -
  let ?l = "c\<lparr> cx_model_locked := True \<rparr>" and ?e = "entered p a u c"
  have "created p ?l" "ctx_ok ?l" "announced ?l" "remotes_ok ?l" using ok cr an rem
    by (simp_all add: announced_def remotes_ok_def)
  then obtain n j c0 where c0: "activate_enter env p ?l = Some (Some (u, n, j), c0)" "same_model (entered p a u ?l) c0"
    using activate_enter_returns [OF tl _ _ _ u, of ?l p] a nm new ch by auto
  obtain c1 where c1: "locked (activate_enter env p) c = Some (Some (u, n, j), c1)" "same_model ?e c1"
    by (rule locked_returns [where body = "activate_enter env p" and d = ?e, OF fr c0(1)]) (use c0(2) fr in \<open>simp_all add: entered_locked\<close>)
  have st: "standing (cx_agents ?e) ?e" "distinct (map fst (cx_agents ?e))"
    using ctx_ok_standing [OF entered_ok [OF ok cr a u]] by auto
  have spread: "\<exists>c3. agent_LOCKED_propagate_agent_event env e (Some u) (Some n) x c2 = Some ((), c3) \<and> same_model ?e c3"
    if m: "same_model ?e c2" for e x c2
  proof -
    note k = same_model_agents [OF m]
    have "standing (cx_agents c2) c2" using st(1) k standing_same [of c2 ?e] by simp
    then have "agent_LOCKED_propagate_agent_event env e (Some u) (Some n) x c2
      = map_option (Pair ()) (in_turn (tell env e u n x) (listeners u (cx_agents c2) c2) c2)"
      using propagate_result [OF tl, of c2 e u n x] k fr st(2) by simp
    moreover obtain c3 where "in_turn (tell env e u n x) (listeners u (cx_agents c2) c2) c2 = Some c3" "same_model c2 c3"
      using in_turn_returns [of "tell env e u n x"] tell_returns [OF tl] by blast
    ultimately show ?thesis using same_model_trans [OF m] by auto
  qed
  obtain c2 where c2: "agent_LOCKED_propagate_agent_event env IGS_AGENT_ENTERED (Some u) (Some n) (Some j) c1 = Some ((), c2)" "same_model ?e c2"
    using spread [OF c1(2)] by blast
  obtain c3 where c3: "agent_LOCKED_propagate_agent_event env IGS_AGENT_KNOWS_US (Some u) (Some n) None c2 = Some ((), c3)" "same_model ?e c3"
    using spread [OF c2(2)] by blast
  have f3: "\<not> cx_model_locked c3" and d3: "deref p c3 = Some (activated c a)"
    using same_model_keep [OF c3(2)] fr by auto
  obtain c4 where c4: "activation_observers env p True (ag_activate_callbacks a) (c3\<lparr> cx_model_locked := True \<rparr>) = Some c4"
    "same_model (c3\<lparr> cx_model_locked := True \<rparr>) c4"
    using activation_observers_returns [OF tl, of "c3\<lparr> cx_model_locked := True \<rparr>" p "activated c a"] d3 by auto
  have d4: "deref p c4 = Some (activated c a)" using same_model_keep(1) [OF c4(2), of p] d3 by simp
  have b: "activate_callbacks env p (c3\<lparr> cx_model_locked := True \<rparr>) = Some ((), c4)"
    using d3 d4 u c4(1) by (simp add: activate_callbacks_def)
  obtain c5 where c5: "locked (activate_callbacks env p) c3 = Some ((), c5)" "same_model c3 c5"
    by (rule locked_returns [where body = "activate_callbacks env p", OF f3 b c4(2) f3])
  have "igsagent_activate env p c = Some (IGS_SUCCESS, c5)"
    using a u c1(1) c2(1) c3(1) c5(1) by (simp add: igsagent_activate_def with_agent_def)
  with same_model_trans [OF c3(2) c5(2)] show ?thesis by blast
qed

section \<open>Destruction\<close>

definition left :: "addr \<Rightarrow> igs_agent \<Rightarrow> string \<Rightarrow> igs_core \<Rightarrow> igs_core" where
  "left p a u c = (store p (a\<lparr> ag_context := False \<rparr>) c)\<lparr> cx_agents := zh_delete u (cx_agents c) \<rparr>"

lemma left_frame [simp]:
  "cx_agents (left p a u c) = zh_delete u (cx_agents c)" "cx_model_locked (left p a u c) = cx_model_locked c"
  "deref q (left p a u c) = (if q = p then Some (a\<lparr> ag_context := False \<rparr>) else deref q c)"
  "cx_created_agents (left p a u c) = cx_created_agents c" "cx_elections (left p a u c) = cx_elections c"
  by (simp_all add: left_def store_def deref_def)

lemma left_ok: "ctx_ok c \<Longrightarrow> deref p c = Some a \<Longrightarrow> ag_uuid a = Some u \<Longrightarrow> ctx_ok (left p a u c)"
  using ctx_ok_leaves [of c p a u "left p a u c"] by (simp add: leaving_def left_def store_def)

lemma same_modelI: "c' = c\<lparr> cx_events := cx_events c @ es \<rparr> \<Longrightarrow> same_model c c'"
  unfolding same_model_def by blast

lemma deactivation_returns:
  assumes tl: "telling env" and ok: "ctx_ok c" and a: "deref p c = Some a" and u: "ag_uuid a = Some u"
    and fr: "\<not> cx_model_locked c" and act: "zh_lookup (cx_agents c) u \<noteq> None" and nm: "named (ag_definition a)"
    and ch: "ag_igs_channel a \<noteq> None"
  shows "\<exists>c'. igsagent_deactivate env p c = Some (IGS_SUCCESS, c') \<and> same_model (left p a u c) c'"
proof -
  let ?l = "c\<lparr> cx_model_locked := True \<rparr>" and ?e = "left p a u c"
  obtain chan where chan: "ag_igs_channel a = Some chan" using ch by blast
  obtain d n j where d: "ag_definition a = Some d" "df_name d = Some n" using nm by (rule namedE)
  let ?b = "ag_context a \<and> cx_network_actor c \<and> cx_node c"
  define c1 where "c1 = (if ?b
    then emit (Zyre_Leave chan) (emit (Zyre_Shout IGS_PRIVATE_CHANNEL [''REMOTE_AGENT_EXIT'', u, n]) ?l) else ?l)"
  define c2 where "c2 = (store p (a\<lparr> ag_context := False \<rparr>) c1)\<lparr> cx_agents := zh_delete u (cx_agents c1) \<rparr>"
  have "c2 = (?e\<lparr> cx_model_locked := True \<rparr>)\<lparr> cx_events := cx_events (?e\<lparr> cx_model_locked := True \<rparr>)
      @ (if ?b then [Zyre_Shout IGS_PRIVATE_CHANNEL [''REMOTE_AGENT_EXIT'', u, n], Zyre_Leave chan] else []) \<rparr>"
    by (simp add: c2_def c1_def left_def emit_def store_def)
  then have m2: "same_model (?e\<lparr> cx_model_locked := True \<rparr>) c2" by (rule same_modelI)
  note k2 = same_model_keep [OF m2]
  obtain c3 where c3: "activation_observers env p False (ag_activate_callbacks a) c2 = Some c3" "same_model c2 c3"
    using activation_observers_returns [OF tl, of c2 p "a\<lparr> ag_context := False \<rparr>" False "ag_activate_callbacks a"] k2 by auto
  obtain r where r: "zh_lookup (cx_agents c) u = Some r" using act by blast
  have b: "deactivate_body env p ?l = Some (Some (u, n), c3)"
    using a u d chan r c3(1) unfolding c2_def c1_def
    by (cases "ag_context a"; cases "cx_network_actor c"; cases "cx_node c") (simp_all add: deactivate_body_def Let_def store_def)
  obtain c4 where c4: "locked (deactivate_body env p) c = Some (Some (u, n), c4)" "same_model ?e c4"
    by (rule locked_returns [where body = "deactivate_body env p" and d = ?e, OF fr b same_model_trans [OF m2 c3(2)]])
      (use fr in simp)
  note k4 = same_model_agents [OF c4(2)]
  have st: "standing (cx_agents ?e) ?e" "distinct (map fst (cx_agents ?e))"
    using ctx_ok_standing [OF left_ok [OF ok a u]] by auto
  have "standing (cx_agents c4) c4" using st(1) k4 standing_same [of c4 ?e] by simp
  then have "agent_LOCKED_propagate_agent_event env IGS_AGENT_EXITED (Some u) (Some n) None c4
    = map_option (Pair ()) (in_turn (tell env IGS_AGENT_EXITED u n None) (listeners u (cx_agents c4) c4) c4)"
    using propagate_result [OF tl, of c4 IGS_AGENT_EXITED u n None] k4 fr st(2) by simp
  moreover obtain c5 where c5: "in_turn (tell env IGS_AGENT_EXITED u n None) (listeners u (cx_agents c4) c4) c4 = Some c5" "same_model c4 c5"
    using in_turn_returns [of "tell env IGS_AGENT_EXITED u n None"] tell_returns [OF tl] by blast
  ultimately have "igsagent_deactivate env p c = Some (IGS_SUCCESS, c5)"
    using a u c4(1) by (simp add: igsagent_deactivate_def with_agent_def)
  with same_model_trans [OF c4(2) c5(2)] show ?thesis by blast
qed

lemma is_activated_result:
  "deref p c = Some a \<Longrightarrow> ag_uuid a = Some u \<Longrightarrow> \<not> cx_model_locked c \<Longrightarrow>
     igsagent_is_activated p c = Some (zh_lookup (cx_agents c) u \<noteq> None, c)"
  by (cases c) (simp add: igsagent_is_activated_def with_agent_def locked_def model_lock_def model_unlock_def deref_def)

lemma destruction_returns:
  assumes tl: "telling env" and ok: "ctx_ok c" and a: "deref p c = Some a" and u: "ag_uuid a = Some u"
    and fr: "\<not> cx_model_locked c" and nm: "named (ag_definition a)" and ch: "ag_igs_channel a \<noteq> None"
  shows "\<exists>c'. igsagent_destroy env p c = Some ((), c') \<and> deref p c' = None \<and> (\<forall>q. q \<noteq> p \<longrightarrow> deref q c' = deref q c)
    \<and> cx_agents c' = zh_delete u (cx_agents c) \<and> cx_created_agents c' = zh_delete u (cx_created_agents c)
    \<and> cx_elections c' = cx_elections c \<and> \<not> cx_model_locked c'"
proof -
  define b where "b = (zh_lookup (cx_agents c) u \<noteq> None)"
  obtain c1 a1 where c1: "(if b then do { (_, c) \<leftarrow> igsagent_deactivate env p c; Some c } else Some c) = Some c1"
    and k: "cx_agents c1 = zh_delete u (cx_agents c)" "cx_created_agents c1 = cx_created_agents c" "cx_elections c1 = cx_elections c"
      "\<not> cx_model_locked c1" "deref p c1 = Some a1" "ag_uuid a1 = Some u" "\<forall>q. q \<noteq> p \<longrightarrow> deref q c1 = deref q c"
  proof (cases b)
    case True
    then obtain c' where c': "igsagent_deactivate env p c = Some (IGS_SUCCESS, c')" "same_model (left p a u c) c'"
      using deactivation_returns [OF tl ok a u fr _ nm ch] by (auto simp: b_def)
    note k = same_model_agents [OF c'(2)] same_model_keep [OF c'(2)]
    show thesis by (rule that [of c' "a\<lparr> ag_context := False \<rparr>"]) (use True c'(1) k u fr in auto)
  next
    case False
    then have "zh_delete u (cx_agents c) = cx_agents c"
      by (auto simp: b_def zh_delete_def zh_lookup_None_iff filter_id_conv image_iff)
    show thesis by (rule that [of c a]) (use False a u fr \<open>zh_delete u (cx_agents c) = cx_agents c\<close> in auto)
  qed
  have "igsagent_destroy env p c = with_agent p () (locked (destroy_body p)) c1"
    by (simp only: igsagent_destroy_def is_activated_result [OF a u fr, folded b_def] Option.bind.bind_lunit prod.case c1)
  then have "igsagent_destroy env p c = Some ((), c1\<lparr> cx_created_agents := zh_delete u (cx_created_agents c1),
      cx_store := (cx_store c1)(p := None) \<rparr>)"
    using k(4-6) by (cases c1) (simp add: with_agent_def locked_def model_lock_def model_unlock_def destroy_body_def deref_def)
  with k show ?thesis by (simp add: deref_def)
qed

section \<open>Renaming\<close>

lemma set_name_result:
  assumes a: "deref p c = Some a" "ag_uuid a \<noteq> None" "agent_wf a" "ag_definition a = Some d" "df_name d = Some old"
    and fr: "\<not> cx_model_locked c" and nm: "no_nul name" "name \<noteq> []" "length name \<le> IGS_MAX_AGENT_NAME_LENGTH" "\<forall>ch \<in> set name. \<not> is_ctl ch"
    and other: "old \<noteq> name"
  shows "igsagent_set_name p name c = Some ((),
    (let c = store p (a\<lparr> ag_definition := Some (refreshed (renamed name d)), ag_need_definition_update := True,
                         ag_igs_channel := Some (channel_of name) \<rparr>) c
     in if ag_context a \<and> cx_node c then emit (Zyre_Join (channel_of name)) (emit (Zyre_Leave (channel_of old)) c) else c))"
proof -
  have wf: "definition_wf (renamed name d)" using a(3,4) by (simp add: agent_wf_def renamed_wf)
  have ch: "definition_changed (a\<lparr> ag_definition := Some (renamed name d) \<rparr>)
      = Some (a\<lparr> ag_definition := Some (refreshed (renamed name d)), ag_need_definition_update := True \<rparr>)"
    using definition_changed_result [of "a\<lparr> ag_definition := Some (renamed name d) \<rparr>" "renamed name d"] wf by simp
  have ok: "checked name IGS_MAX_AGENT_NAME_LENGTH = Some ()"
    using nm by (simp add: checked_def check_string_result max_of_def IGS_MAX_AGENT_NAME_LENGTH_def)
  obtain u where "ag_uuid a = Some u" using a(2) by blast
  with a fr nm other ok ch show ?thesis
    by (cases c) (simp add: igsagent_set_name_def with_agent_def set_name_body_def locked_def model_lock_def model_unlock_def
        Let_def store_def emit_def deref_def)
qed

lemma igsagent_name_result:
  "deref p c = Some a \<Longrightarrow> ag_uuid a = Some u \<Longrightarrow> \<not> cx_model_locked c \<Longrightarrow> ag_definition a = Some d \<Longrightarrow> df_name d = Some n \<Longrightarrow>
     igsagent_name p c = Some (Some n, c)"
  by (cases c) (simp add: igsagent_name_def with_agent_def read_agent_def locked_def model_lock_def model_unlock_def deref_def)

section \<open>Creation\<close>

text \<open>The definition of a new agent: nothing but its name.\<close>

definition first_definition :: igs_definition where
  "first_definition = refreshed (empty_definition\<lparr> df_name := Some IGS_DEFAULT_AGENT_NAME \<rparr>)"

definition new_definition :: "string \<Rightarrow> igs_definition" where
  "new_definition name = (if name = IGS_DEFAULT_AGENT_NAME then first_definition else refreshed (renamed name first_definition))"

definition new_agent :: "string \<Rightarrow> string \<Rightarrow> igs_agent" where
  "new_agent u name = zeroed_agent\<lparr> ag_uuid := Some u, ag_rt_current_timestamp := INT64_MIN,
     ag_definition := Some (new_definition name), ag_need_definition_update := True, ag_igs_channel := Some (channel_of name),
     ag_mapping := Some (refreshed_mapping empty_mapping), ag_need_mapping_update := True \<rparr>"

lemma first_definition_wf: "definition_wf (empty_definition\<lparr> df_name := Some n \<rparr>)"
  by (auto simp: empty_definition_def definition_wf_def ios_ok_def services_ok_def io_names_def io_table_def registered_def split: igs_io_type.splits)

lemma refreshed_names [simp]: "df_name (refreshed d) = df_name d" "df_name (renamed n d) = Some n"
  by (simp_all add: refreshed_def renamed_def)

lemma new_agent_result:
  assumes fr: "\<not> cx_model_locked c" and fresh: "fresh_agent env (c\<lparr> cx_model_locked := True \<rparr>)"
    and nm: "no_nul name" "name \<noteq> []" "length name \<le> IGS_MAX_AGENT_NAME_LENGTH" "\<forall>ch \<in> set name. \<not> is_ctl ch"
    and u: "u = zuuid_new env (c\<lparr> cx_model_locked := True \<rparr>)" and p: "p = zmalloc_agent env (c\<lparr> cx_model_locked := True \<rparr>)"
  shows "igsagent_new env name False c
    = Some (p, (store p (new_agent u name) c)\<lparr> cx_created_agents := zh_insert u p (cx_created_agents c) \<rparr>)"
proof -
  define a0 where "a0 = zeroed_agent\<lparr> ag_uuid := Some u, ag_rt_current_timestamp := INT64_MIN \<rparr>"
  define a1 where "a1 = a0\<lparr> ag_definition := Some first_definition, ag_need_definition_update := True \<rparr>"
  define a2 where "a2 = a1\<lparr> ag_definition := Some (new_definition name), ag_igs_channel := Some (channel_of name) \<rparr>"
  define C where "C a = (store p a c)\<lparr> cx_created_agents := zh_insert u p (cx_created_agents c) \<rparr>" for a
  have un: "\<not> cx_model_locked (C a)" "deref p (C a) = Some a" "store p b (C a) = C b" for a b
    using fr by (simp_all add: C_def store_def deref_def)
  have lk: "locked (on_agent p f) (C a) = map_option (\<lambda>(r, a). (r, C a)) (f a)" for f :: "igs_agent \<Rightarrow> (unit \<times> igs_agent) option" and a
    using fr by (cases "f a") (auto simp: C_def store_def deref_def on_agent_def locked_def model_lock_def model_unlock_def; cases c; simp)+
  have 0: "locked (new_agent_body env) c = Some (p, C a0)"
    using fr u p by (cases c) (simp add: locked_def model_lock_def model_unlock_def new_agent_body_def Let_def store_def a0_def C_def)
  have d0: "ag_definition a0 = None" "ag_uuid a0 = Some u" "ag_context a0 = False" by (simp_all add: a0_def zeroed_agent_def)
  have "clear_definition a0 = Some a1"
    using definition_changed_result [of "a0\<lparr> ag_definition := Some (empty_definition\<lparr> df_name := Some IGS_DEFAULT_AGENT_NAME \<rparr>) \<rparr>"] d0
      first_definition_wf by (simp add: clear_definition_def a1_def first_definition_def)
  then have 1: "igsagent_clear_definition p (C a0) = Some ((), C a1)"
    using un d0 lk [of "\<lambda>a. do { a \<leftarrow> clear_definition a; Some ((), a) }" a0] by (simp add: igsagent_clear_definition_def with_agent_def)
  have a1: "ag_uuid a1 = Some u" "ag_definition a1 = Some first_definition" "\<not> ag_context a1" "ag_igs_channel a1 = None"
    "df_name first_definition = Some IGS_DEFAULT_AGENT_NAME" "agent_wf a1"
    using first_definition_wf by (simp_all add: a1_def a0_def zeroed_agent_def first_definition_def agent_wf_def)
  have ok: "checked name IGS_MAX_AGENT_NAME_LENGTH = Some ()"
    using nm by (simp add: checked_def check_string_result max_of_def IGS_MAX_AGENT_NAME_LENGTH_def)
  have 2: "igsagent_set_name p name (C a1) = Some ((), C a2)"
  proof (cases "name = IGS_DEFAULT_AGENT_NAME")
    case True
    then have "a1\<lparr> ag_igs_channel := Some (channel_of name) \<rparr> = a2" using a1 by (simp add: a2_def a1_def new_definition_def)
    moreover have "set_name_body p name ((C a1)\<lparr> cx_model_locked := True \<rparr>)
      = Some ((), store p (a1\<lparr> ag_igs_channel := Some (channel_of name) \<rparr>) ((C a1)\<lparr> cx_model_locked := True \<rparr>))"
      using un(2) [of a1] a1 True by (simp add: set_name_body_def)
    ultimately show ?thesis using un [of a1] a1(1) ok nm(2) fr
      by (cases c) (simp add: igsagent_set_name_def with_agent_def locked_def model_lock_def model_unlock_def C_def store_def deref_def)
  next
    case False
    have "ag_uuid a1 \<noteq> None" using a1(1) by simp
    from set_name_result [OF un(2) this a1(6,2,5) un(1) nm] False a1(3) show ?thesis
      by (simp add: un(3) Let_def a2_def new_definition_def a1_def a0_def zeroed_agent_def)
  qed
  have "clear_mappings_body a2 = Some ((), new_agent u name)"
    using mapping_changed_result [of "a2\<lparr> ag_mapping := Some empty_mapping \<rparr>"]
    by (simp add: clear_mappings_body_def a2_def a1_def a0_def new_agent_def zeroed_agent_def)
  then have 3: "igsagent_clear_mappings p (C a2) = Some ((), C (new_agent u name))"
    using un [of a2] lk [of clear_mappings_body a2] by (simp add: igsagent_clear_mappings_def with_agent_def a2_def a1_def d0)
  from 0 1 2 3 show ?thesis by (simp add: igsagent_new_def C_def)
qed

lemma new_agent_simps [simp]:
  "ag_uuid (new_agent u n) = Some u" "ag_definition (new_agent u n) = Some (new_definition n)"
  "ag_igs_channel (new_agent u n) = Some (channel_of n)" "\<not> ag_context (new_agent u n)"
  "df_name (new_definition n) = Some n" "named (Some (new_definition n))"
  by (simp_all add: new_agent_def zeroed_agent_def new_definition_def first_definition_def named_def)
    (simp_all add: refreshed_def)

end
