(* ===== verification/Yajl_Scan.thy ===== *)
theory Yajl_Scan
  imports Yajl_Lex
begin

text \<open>
  The reference lexer: the same tokens, on a list of characters, without
  offsets, chunks, buffer or characters that are put back. \<open>Yajl_Lex_Laws\<close> shows
  that the lexer of the source refines it.

  A scan ends at the end of the text, at an error, or with a result and the rest.
\<close>

datatype 'a scan = Eof | Bad igsyajl_lex_error | Done 'a string

definition scan_then :: "'a scan \<Rightarrow> ('a \<Rightarrow> string \<Rightarrow> 'b scan) \<Rightarrow> 'b scan" where
  "scan_then m f = (case m of Eof \<Rightarrow> Eof | Bad e \<Rightarrow> Bad e | Done x r \<Rightarrow> f x r)"

lemma scan_then_cong [fundef_cong]:
  "m = m' \<Longrightarrow> (\<And>x r. m' = Done x r \<Longrightarrow> f x r = f' x r) \<Longrightarrow> scan_then m f = scan_then m' f'"
  by (cases m') (auto simp: scan_then_def)

lemma scan_then_simps [simp]: "scan_then Eof f = Eof" "scan_then (Bad e) f = Bad e"
  "scan_then (Done x r) f = f x r"
  by (simp_all add: scan_then_def)

lemma scan_then_Done: "scan_then m f = Done y t \<longleftrightarrow> (\<exists>x r. m = Done x r \<and> f x r = Done y t)"
  by (cases m) simp_all

definition scan_peek :: "string \<Rightarrow> (char \<Rightarrow> string \<Rightarrow> 'a scan) \<Rightarrow> 'a scan" where
  "scan_peek s f = (case s of [] \<Rightarrow> Eof | c # r \<Rightarrow> f c r)"

lemma scan_peek_cong [fundef_cong]:
  "s = s' \<Longrightarrow> (\<And>c r. s' = c # r \<Longrightarrow> f c r = f' c r) \<Longrightarrow> scan_peek s f = scan_peek s' f'"
  by (cases s') (auto simp: scan_peek_def)

lemma scan_peek_simps [simp]: "scan_peek [] f = Eof" "scan_peek (c # r) f = f c r"
  by (simp_all add: scan_peek_def)

lemma scan_peek_Done: "scan_peek s f = Done y t \<longleftrightarrow> (\<exists>c r. s = c # r \<and> f c r = Done y t)"
  by (cases s) simp_all

section \<open>Strings\<close>

fun scan_conts :: "nat \<Rightarrow> string \<Rightarrow> unit scan" where
  "scan_conts 0 s = Done () s"
| "scan_conts (Suc n) s =
     scan_peek s (\<lambda>c r. if is_cont c then scan_conts n r else Bad lex_string_invalid_utf8)"

fun scan_hex :: "nat \<Rightarrow> string \<Rightarrow> unit scan" where
  "scan_hex 0 s = Done () s"
| "scan_hex (Suc n) s =
     scan_peek s (\<lambda>c r. if char_is VHC c then scan_hex n r else Bad lex_string_invalid_hex_char)"

definition scan_escape :: "string \<Rightarrow> unit scan" where
  "scan_escape s =
     scan_peek s (\<lambda>c r. if c = CHR ''u'' then scan_hex 4 r
       else if \<not> char_is VEC c then Bad lex_string_invalid_escaped_char else Done () r)"

definition scan_inside :: "bool \<Rightarrow> char \<Rightarrow> string \<Rightarrow> unit scan" where
  "scan_inside utf8 c r =
     (if char_is IJC c then Bad lex_string_invalid_json_char
      else if utf8 then
        (case lead_len c of None \<Rightarrow> Bad lex_string_invalid_utf8 | Some n \<Rightarrow> scan_conts n r)
      else Done () r)"

lemma scan_conts_length: "scan_conts n s = Done x r \<Longrightarrow> length r \<le> length s"
  by (induction n arbitrary: s) (fastforce simp: scan_peek_Done split: if_splits)+

lemma scan_hex_length: "scan_hex n s = Done x r \<Longrightarrow> length r \<le> length s"
  by (induction n arbitrary: s) (fastforce simp: scan_peek_Done split: if_splits)+

lemma scan_escape_length: "scan_escape s = Done x r \<Longrightarrow> length r \<le> length s"
  by (auto simp: scan_escape_def scan_peek_Done dest: scan_hex_length split: if_splits)

lemma scan_inside_length: "scan_inside utf8 c s = Done x r \<Longrightarrow> length r \<le> length s"
  by (auto simp: scan_inside_def dest: scan_conts_length split: if_splits option.splits)

text \<open>The body of a string, to its closing quote: whether it has escapes.\<close>

function scan_string :: "bool \<Rightarrow> bool \<Rightarrow> string \<Rightarrow> igsyajl_tok scan" where
  "scan_string utf8 hasEscapes s =
     scan_peek s (\<lambda>c r.
       if c = CHR 0x22 then Done (if hasEscapes then tok_string_with_escapes else tok_string) r
       else if c = CHR 0x5C then scan_then (scan_escape r) (\<lambda>_ t. scan_string utf8 True t)
       else scan_then (scan_inside utf8 c r) (\<lambda>_ t. scan_string utf8 hasEscapes t))"
  by pat_completeness auto
termination
  by (relation "measure (\<lambda>(_, _, s). length s)")
    (auto dest: scan_escape_length scan_inside_length simp: le_imp_less_Suc)

declare scan_string.simps [simp del]

section \<open>Numbers\<close>

fun scan_digits :: "string \<Rightarrow> unit scan" where
  "scan_digits [] = Eof"
| "scan_digits (c # r) = (if is_digit_char c then scan_digits r else Done () (c # r))"

definition scan_int :: "string \<Rightarrow> unit scan" where
  "scan_int s =
     scan_peek s (\<lambda>c r.
       if c = CHR ''0'' then scan_peek r (\<lambda>_ _. Done () r)
       else if is_digit_char c then scan_digits r
       else Bad lex_missing_integer_after_minus)"

definition scan_frac :: "string \<Rightarrow> igsyajl_tok scan" where
  "scan_frac s =
     scan_peek s (\<lambda>c r.
       if c = CHR ''.'' then
         scan_peek r (\<lambda>d t.
           if is_digit_char d then scan_then (scan_digits t) (\<lambda>_ u. Done tok_double u)
           else Bad lex_missing_integer_after_decimal)
       else Done tok_integer s)"

definition scan_exp_digits :: "char \<Rightarrow> string \<Rightarrow> igsyajl_tok scan" where
  "scan_exp_digits d t =
     (if is_digit_char d then scan_then (scan_digits t) (\<lambda>_ u. Done tok_double u)
      else Bad lex_missing_integer_after_exponent)"

definition scan_exp :: "igsyajl_tok \<Rightarrow> string \<Rightarrow> igsyajl_tok scan" where
  "scan_exp tok s =
     scan_peek s (\<lambda>c r.
       if c = CHR ''e'' \<or> c = CHR ''E'' then
         scan_peek r (\<lambda>d t.
           if d = CHR ''+'' \<or> d = CHR ''-'' then scan_peek t scan_exp_digits else scan_exp_digits d t)
       else Done tok s)"

definition scan_number :: "string \<Rightarrow> igsyajl_tok scan" where
  "scan_number s =
     scan_peek s (\<lambda>c r.
       scan_then (scan_int (if c = CHR ''-'' then r else s)) (\<lambda>_ t.
       scan_then (scan_frac t) scan_exp))"

section \<open>Comments, words and tokens\<close>

fun scan_line_comment :: "string \<Rightarrow> unit scan" where
  "scan_line_comment [] = Eof"
| "scan_line_comment (c # r) = (if c = CHR 0x0A then Done () r else scan_line_comment r)"

fun scan_block_comment :: "string \<Rightarrow> unit scan" where
  "scan_block_comment [] = Eof"
| "scan_block_comment (c # r) =
     (if c = CHR ''*'' then
        scan_peek r (\<lambda>d t. if d = CHR ''/'' then Done () t else scan_block_comment r)
      else scan_block_comment r)"

definition scan_comment :: "string \<Rightarrow> unit scan" where
  "scan_comment s =
     scan_peek s (\<lambda>c r.
       if c = CHR ''/'' then scan_line_comment r
       else if c = CHR ''*'' then scan_block_comment r
       else Bad lex_invalid_char)"

fun scan_want :: "string \<Rightarrow> igsyajl_tok \<Rightarrow> string \<Rightarrow> igsyajl_tok scan" where
  "scan_want [] tok s = Done tok s"
| "scan_want (w # want) tok s =
     scan_peek s (\<lambda>c r. if c \<noteq> w then Bad lex_invalid_string else scan_want want tok r)"

definition scan_token :: "bool \<Rightarrow> char \<Rightarrow> string \<Rightarrow> igsyajl_tok scan" where
  "scan_token utf8 c r =
     (if c = CHR ''{'' then Done tok_left_bracket r
      else if c = CHR ''}'' then Done tok_right_bracket r
      else if c = CHR ''['' then Done tok_left_brace r
      else if c = CHR '']'' then Done tok_right_brace r
      else if c = CHR '','' then Done tok_comma r
      else if c = CHR '':'' then Done tok_colon r
      else if c = CHR ''t'' then scan_want ''rue'' tok_bool r
      else if c = CHR ''f'' then scan_want ''alse'' tok_bool r
      else if c = CHR ''n'' then scan_want ''ull'' tok_null r
      else if c = CHR 0x22 then scan_string utf8 False r
      else if c = CHR ''-'' \<or> is_digit_char c then scan_number (c # r)
      else Bad lex_invalid_char)"

text \<open>
  The next token: its text without the quotes of a string, and the rest; or the
  text from the start of the token or comment that the end cuts; or an error.
\<close>

datatype lexeme = Unfinished string | Wrong igsyajl_lex_error | Token igsyajl_tok string string

definition token_text :: "igsyajl_tok \<Rightarrow> string \<Rightarrow> string" where
  "token_text tok s =
     (if tok = tok_string \<or> tok = tok_string_with_escapes then butlast (tl s) else s)"

definition consumed :: "string \<Rightarrow> string \<Rightarrow> string" where
  "consumed s r = take (length s - length r) s"

lemma scan_line_length: "scan_line_comment s = Done x r \<Longrightarrow> length r \<le> length s"
  by (induction s) (auto split: if_splits)

lemma scan_block_length: "scan_block_comment s = Done x r \<Longrightarrow> length r \<le> length s"
  by (induction s) (auto simp: scan_peek_Done split: if_splits)

lemma scan_comment_length: "scan_comment s = Done x r \<Longrightarrow> length r \<le> length s"
  by (auto simp: scan_comment_def scan_peek_Done dest: scan_line_length scan_block_length split: if_splits)

function scan_lex :: "bool \<Rightarrow> bool \<Rightarrow> string \<Rightarrow> lexeme" where
  "scan_lex utf8 comments [] = Unfinished []"
| "scan_lex utf8 comments (c # r) =
     (if lex_space c then scan_lex utf8 comments r
      else if c = CHR ''/'' then
        (if \<not> comments then Wrong lex_unallowed_comment
         else case scan_comment r of
           Eof \<Rightarrow> Unfinished (c # r)
         | Bad e \<Rightarrow> Wrong e
         | Done _ t \<Rightarrow> scan_lex utf8 comments t)
      else case scan_token utf8 c r of
           Eof \<Rightarrow> Unfinished (c # r)
         | Bad e \<Rightarrow> Wrong e
         | Done tok t \<Rightarrow> Token tok (token_text tok (consumed (c # r) t)) t)"
  by pat_completeness auto
termination
  by (relation "measure (\<lambda>(_, _, s). length s)") (auto dest: scan_comment_length simp: le_imp_less_Suc)

end
