(* ===== verification/Yajl_Scan_Laws.thy ===== *)
theory Yajl_Scan_Laws
  imports Yajl_Scan
begin

text \<open>
  Streaming: what the reference lexer makes of a text that continues. A token
  that is complete stays, an error stays, and a token that the end cuts is lexed
  again from its start, past the end of the first part.
\<close>

section \<open>Results of a text and of its continuation\<close>

lemma consumed_append: "consumed (s @ t) (r @ t) = consumed s r"
  by (simp add: consumed_def)

definition shrinks :: "string \<Rightarrow> 'a scan \<Rightarrow> bool" where
  "shrinks t m \<longleftrightarrow> (\<forall>x r. m = Done x r \<longrightarrow> length r \<le> length t)"

definition continues :: "string \<Rightarrow> 'a scan \<Rightarrow> 'a scan \<Rightarrow> bool" where
  "continues t m m' \<longleftrightarrow>
     (case m of Eof \<Rightarrow> shrinks t m' | Bad e \<Rightarrow> m' = Bad e | Done x r \<Rightarrow> m' = Done x (r @ t))"

lemma shrinks_simps [simp]: "shrinks t Eof" "shrinks t (Bad e)" "shrinks t (Done x r) \<longleftrightarrow> length r \<le> length t"
  by (auto simp: shrinks_def)

lemma shrinks_peek: "(\<And>c r. s = c # r \<Longrightarrow> shrinks t (f c r)) \<Longrightarrow> shrinks t (scan_peek s f)"
  by (cases s) simp_all

lemma shrinks_then: "shrinks t m \<Longrightarrow> (\<And>x r. length r \<le> length t \<Longrightarrow> shrinks t (f x r)) \<Longrightarrow> shrinks t (scan_then m f)"
  by (cases m) simp_all

lemma shrinks_mono: "shrinks s m \<Longrightarrow> length s \<le> length t \<Longrightarrow> shrinks t m"
  by (auto simp: shrinks_def intro: order_trans)

lemma continues_simps [simp]: "continues t (Bad e) (Bad e)" "continues t (Done x r) (Done x (r @ t))"
  "continues t Eof m \<longleftrightarrow> shrinks t m"
  by (simp_all add: continues_def)

lemma continues_Done: "continues t (Done x r) (Done x u) \<longleftrightarrow> u = r @ t"
  by (auto simp: continues_def)

lemma continues_peek:
  assumes "\<And>c r. s = c # r \<Longrightarrow> continues t (f c r) (f' c (r @ t))"
    and "s = [] \<Longrightarrow> shrinks t (scan_peek t f')"
  shows "continues t (scan_peek s f) (scan_peek (s @ t) f')"
  using assms by (cases s) simp_all

lemma continues_then:
  assumes "continues t m m'" and "\<And>x r. continues t (f x r) (f x (r @ t))"
    and "\<And>x r. length r \<le> length t \<Longrightarrow> shrinks t (f x r)"
  shows "continues t (scan_then m f) (scan_then m' f)"
  using assms by (cases m) (auto simp: continues_def intro: shrinks_then)

lemma shrinks_if: "(P \<Longrightarrow> shrinks t a) \<Longrightarrow> (\<not> P \<Longrightarrow> shrinks t b) \<Longrightarrow> shrinks t (if P then a else b)"
  by simp

lemma continues_if: "(P \<Longrightarrow> continues t a a') \<Longrightarrow> (\<not> P \<Longrightarrow> continues t b b') \<Longrightarrow> continues t (if P then a else b) (if P then a' else b')"
  by simp

named_theorems scan_rules

declare scan_want.simps [simp del]

section \<open>The scans shrink\<close>

lemma shrinks_conts [scan_rules]: "length s \<le> length t \<Longrightarrow> shrinks t (scan_conts n s)"
  and shrinks_hex [scan_rules]: "length s \<le> length t \<Longrightarrow> shrinks t (scan_hex n s)"
  and shrinks_escape [scan_rules]: "length s \<le> length t \<Longrightarrow> shrinks t (scan_escape s)"
  and shrinks_inside [scan_rules]: "length s \<le> length t \<Longrightarrow> shrinks t (scan_inside utf8 c s)"
  by (auto simp: shrinks_def dest!: scan_conts_length scan_hex_length scan_escape_length scan_inside_length)

lemma shrinks_string [scan_rules]: "length s \<le> length t \<Longrightarrow> shrinks t (scan_string utf8 esc s)"
proof (induction "length s" arbitrary: s esc rule: less_induct)
  case less
  have ih: "shrinks t (scan_string utf8 e r)" if "length r < length s" for e r
    using less.hyps [of r e] less.prems that by simp
  show ?case
  proof (cases s)
    case (Cons c r)
    have "shrinks t (scan_then m (\<lambda>_ t. scan_string utf8 e t))" if "shrinks r m" for m :: "unit scan" and e
      using that Cons ih by (cases m) (auto simp: le_imp_less_Suc)
    then show ?thesis
      using Cons less.prems by (subst scan_string.simps) (auto intro: scan_rules)
  qed (simp add: scan_string.simps)
qed

lemma shrinks_digits [scan_rules]: "length s \<le> length t \<Longrightarrow> shrinks t (scan_digits s)"
  by (induction s) auto

lemma shrinks_int [scan_rules]: "length s \<le> length t \<Longrightarrow> shrinks t (scan_int s)"
  unfolding scan_int_def by (auto intro!: shrinks_peek scan_rules)

lemma shrinks_frac [scan_rules]: "length s \<le> length t \<Longrightarrow> shrinks t (scan_frac s)"
  unfolding scan_frac_def by (auto intro!: shrinks_peek shrinks_then scan_rules)

lemma shrinks_exp_digits [scan_rules]: "length s \<le> length t \<Longrightarrow> shrinks t (scan_exp_digits d s)"
  unfolding scan_exp_digits_def by (auto intro!: shrinks_then scan_rules)

lemma shrinks_exp [scan_rules]: "length s \<le> length t \<Longrightarrow> shrinks t (scan_exp tok s)"
  unfolding scan_exp_def by (auto intro!: shrinks_peek scan_rules)

lemma shrinks_number [scan_rules]: "length s \<le> length t \<Longrightarrow> shrinks t (scan_number s)"
  unfolding scan_number_def by (auto intro!: shrinks_peek shrinks_then scan_rules)

lemma shrinks_want [scan_rules]: "length s \<le> length t \<Longrightarrow> shrinks t (scan_want want tok s)"
  by (induction want arbitrary: s) (auto simp: scan_want.simps intro!: shrinks_peek)

lemma shrinks_block [scan_rules]: "length s \<le> length t \<Longrightarrow> shrinks t (scan_block_comment s)"
  and shrinks_line [scan_rules]: "length s \<le> length t \<Longrightarrow> shrinks t (scan_line_comment s)"
  by (auto simp: shrinks_def dest!: scan_line_length scan_block_length)

lemma shrinks_comment [scan_rules]: "length s \<le> length t \<Longrightarrow> shrinks t (scan_comment s)"
  by (auto simp: shrinks_def dest!: scan_comment_length)

lemma shrinks_number_first:
  assumes "length s \<le> length t" and "c = CHR ''-'' \<or> is_digit_char c"
  shows "shrinks t (scan_number (c # s))"
proof -
  have "shrinks t (scan_int (if c = CHR ''-'' then s else c # s))"
  proof (cases "c = CHR ''-''")
    case False
    then have "(if c = CHR ''-'' then s else c # s) = c # s" by simp
    then show ?thesis
      using assms(1) unfolding scan_int_def
      by (simp only: scan_peek_simps) (intro shrinks_if shrinks_peek scan_rules; simp)
  qed (simp add: shrinks_int assms)
  then show ?thesis
    unfolding scan_number_def scan_peek_simps by (rule shrinks_then) (intro shrinks_then scan_rules)
qed

lemma shrinks_token [scan_rules]: "length s \<le> length t \<Longrightarrow> shrinks t (scan_token utf8 c s)"
  unfolding scan_token_def by (intro shrinks_if shrinks_number_first scan_rules) simp_all

section \<open>The scans continue\<close>

lemma continues_conts [scan_rules]: "continues t (scan_conts n s) (scan_conts n (s @ t))"
  by (induction n arbitrary: s) (auto intro!: continues_peek shrinks_peek scan_rules)

lemma continues_hex [scan_rules]: "continues t (scan_hex n s) (scan_hex n (s @ t))"
  by (induction n arbitrary: s) (auto intro!: continues_peek shrinks_peek scan_rules)

lemma continues_escape [scan_rules]: "continues t (scan_escape s) (scan_escape (s @ t))"
  unfolding scan_escape_def by (auto intro!: continues_peek shrinks_peek scan_rules)

lemma continues_inside [scan_rules]: "continues t (scan_inside utf8 c s) (scan_inside utf8 c (s @ t))"
  by (auto simp: scan_inside_def intro!: scan_rules split: option.splits)

lemma continues_string [scan_rules]: "continues t (scan_string utf8 esc s) (scan_string utf8 esc (s @ t))"
proof (induction utf8 esc s rule: scan_string.induct)
  case (1 utf8 esc s)
  show ?case
  proof (cases s)
    case Nil
    then show ?thesis
      by (subst scan_string.simps) (auto intro!: scan_rules)
  next
    case (Cons c r)
    have step: "continues t (scan_then m (\<lambda>_ t. scan_string utf8 e t)) (scan_then m' (\<lambda>_ t. scan_string utf8 e t))"
      if "continues t m m'" "\<And>x u. m = Done x u \<Longrightarrow> continues t (scan_string utf8 e u) (scan_string utf8 e (u @ t))"
      for m m' :: "unit scan" and e
      using that by (cases m) (auto simp: continues_def intro!: shrinks_then scan_rules)
    have "scan_string utf8 e (c # v) =
       (if c = CHR 0x22 then Done (if e then tok_string_with_escapes else tok_string) v
        else if c = CHR 0x5C then scan_then (scan_escape v) (\<lambda>_ t. scan_string utf8 True t)
        else scan_then (scan_inside utf8 c v) (\<lambda>_ t. scan_string utf8 e t))" for e v
      by (subst scan_string.simps) simp
    then show ?thesis
      unfolding Cons append_Cons using 1 [OF Cons]
      by (simp only:) (intro continues_if step scan_rules, auto)
  qed
qed

lemma continues_digits [scan_rules]: "continues t (scan_digits s) (scan_digits (s @ t))"
  by (induction s) (auto simp: continues_Done intro!: scan_rules)

lemma continues_int [scan_rules]: "continues t (scan_int s) (scan_int (s @ t))"
  unfolding scan_int_def by (auto intro!: continues_peek shrinks_peek scan_rules simp: continues_Done)

lemma continues_frac [scan_rules]: "continues t (scan_frac s) (scan_frac (s @ t))"
  unfolding scan_frac_def
  by (auto intro!: continues_peek continues_then shrinks_peek shrinks_then scan_rules simp: continues_Done)

lemma continues_exp_digits [scan_rules]: "continues t (scan_exp_digits d s) (scan_exp_digits d (s @ t))"
  unfolding scan_exp_digits_def by (auto intro!: continues_then scan_rules)

lemma continues_exp [scan_rules]: "continues t (scan_exp tok s) (scan_exp tok (s @ t))"
  unfolding scan_exp_def by (auto intro!: continues_peek shrinks_peek scan_rules simp: continues_Done)

lemma continues_number [scan_rules]: "continues t (scan_number s) (scan_number (s @ t))"
proof (cases s)
  case Nil
  then show ?thesis using shrinks_number [of t t] by (simp add: scan_number_def)
next
  case (Cons c r)
  have "continues t (scan_then (scan_int u) (\<lambda>_ t. scan_then (scan_frac t) scan_exp))
      (scan_then (scan_int (u @ t)) (\<lambda>_ t. scan_then (scan_frac t) scan_exp))" for u
    by (auto intro!: continues_then shrinks_then scan_rules)
  from this [of r] this [of s] show ?thesis by (simp add: scan_number_def Cons)
qed

lemma continues_want [scan_rules]: "continues t (scan_want want tok s) (scan_want want tok (s @ t))"
  by (induction want arbitrary: s) (auto simp: scan_want.simps intro!: continues_peek shrinks_peek scan_rules)

lemma continues_line [scan_rules]: "continues t (scan_line_comment s) (scan_line_comment (s @ t))"
  by (induction s) (auto intro!: scan_rules)

lemma continues_block [scan_rules]: "continues t (scan_block_comment s) (scan_block_comment (s @ t))"
proof (induction s)
  case (Cons c r)
  have "continues t (scan_peek r (\<lambda>d t. if d = CHR ''/'' then Done () t else scan_block_comment r))
     (scan_peek (r @ t) (\<lambda>d u. if d = CHR ''/'' then Done () u else scan_block_comment (r @ t)))"
  proof (rule continues_peek)
    show "r = [] \<Longrightarrow> shrinks t (scan_peek t (\<lambda>d u. if d = CHR ''/'' then Done () u else scan_block_comment (r @ t)))"
      by (intro shrinks_peek shrinks_if shrinks_block) simp_all
  next
    fix d v assume "r = d # v"
    with Cons show "continues t (if d = CHR ''/'' then Done () v else scan_block_comment r)
      (if d = CHR ''/'' then Done () (v @ t) else scan_block_comment (r @ t))" by (cases "d = CHR ''/''") simp_all
  qed
  with Cons show ?case by simp
qed (auto intro!: scan_rules)

lemma continues_comment [scan_rules]: "continues t (scan_comment s) (scan_comment (s @ t))"
  unfolding scan_comment_def by (auto intro!: continues_peek shrinks_peek scan_rules)

lemma continues_token [scan_rules]: "continues t (scan_token utf8 c s) (scan_token utf8 c (s @ t))"
proof -
  have "continues t (scan_number (c # s)) (scan_number (c # s @ t))"
    using continues_number [of t "c # s"] by simp
  then show ?thesis
    unfolding scan_token_def by - (intro continues_if continues_simps(2) scan_rules; simp)
qed

section \<open>Tokens\<close>

lemma scan_lex_append:
  "case scan_lex utf8 cm s of
     Unfinished u \<Rightarrow> scan_lex utf8 cm (s @ t) = scan_lex utf8 cm (u @ t) \<and> scan_lex utf8 cm u = Unfinished u
   | Wrong e \<Rightarrow> scan_lex utf8 cm (s @ t) = Wrong e
   | Token tok x r \<Rightarrow> scan_lex utf8 cm (s @ t) = Token tok x (r @ t)"
proof (induction utf8 cm s rule: scan_lex.induct)
  case (2 utf8 cm c r)
  show ?case
  proof (cases "lex_space c")
    case True
    with 2(1) show ?thesis by (simp split: lexeme.splits)
  next
    case ns: False
    show ?thesis
    proof (cases "c = CHR ''/''")
      case True
      show ?thesis
      proof (cases "cm \<and> (\<exists>x u. scan_comment r = Done x u)")
        case False
        with True ns continues_comment [of t r] show ?thesis
          by (cases "scan_comment r") (auto simp: continues_def)
      next
        case d: True
        then obtain u where u: "scan_comment r = Done () u" by auto
        with continues_comment [of t r] have "scan_comment (r @ t) = Done () (u @ t)" by (simp add: continues_def)
        with 2(2) [OF ns True _ u] d u ns True show ?thesis by (simp split: lexeme.splits)
      qed
    next
      case False
      with ns continues_token [of t utf8 c r] show ?thesis
        using consumed_append [of "c # r" t]
        by (cases "scan_token utf8 c r") (auto simp: continues_def)
    qed
  qed
qed simp

lemma scan_lex_shorter: "scan_lex utf8 cm s = Unfinished u \<Longrightarrow> length u \<le> length s"
proof (induction utf8 cm s rule: scan_lex.induct)
  case (2 utf8 cm c r)
  then show ?case
    by (auto split: if_splits scan.splits dest!: scan_comment_length)
qed simp

lemma scan_lex_rest: "scan_lex utf8 cm s = Token tok x r \<Longrightarrow> length r < length s"
proof (induction utf8 cm s rule: scan_lex.induct)
  case (2 utf8 cm c r)
  have "length t \<le> length r" if "scan_token utf8 c r = Done tk t" for tk t
    using shrinks_token [of r r utf8 c] that by (simp add: shrinks_def)
  with 2 show ?case
    by (fastforce split: if_splits scan.splits dest!: scan_comment_length)
qed simp

lemma unfinished_again: "scan_lex utf8 cm s = Unfinished u \<Longrightarrow> scan_lex utf8 cm u = Unfinished u"
  using scan_lex_append [of utf8 cm s "[]"] by (simp only: lexeme.case)

lemma streaming:
  "scan_lex utf8 cm s = Unfinished u \<Longrightarrow> scan_lex utf8 cm (s @ t) = scan_lex utf8 cm (u @ t)"
  "scan_lex utf8 cm s = Wrong e \<Longrightarrow> scan_lex utf8 cm (s @ t) = Wrong e"
  "scan_lex utf8 cm s = Token tok x r \<Longrightarrow> scan_lex utf8 cm (s @ t) = Token tok x (r @ t)"
  using scan_lex_append [of utf8 cm s t] by (simp_all only: lexeme.case)

text \<open>The tokens that are returned.\<close>

definition among :: "igsyajl_tok set \<Rightarrow> igsyajl_tok scan \<Rightarrow> bool" where
  "among T m \<longleftrightarrow> (\<forall>tok r. m = Done tok r \<longrightarrow> tok \<in> T)"

lemma among_simps [simp]: "among T Eof" "among T (Bad e)" "among T (Done tok r) \<longleftrightarrow> tok \<in> T"
  by (simp_all add: among_def)

lemma among_then: "(\<And>x r. m = Done x r \<Longrightarrow> among T (f x r)) \<Longrightarrow> among T (scan_then m f)"
  by (cases m) simp_all

lemma among_peek: "(\<And>c r. among T (f c r)) \<Longrightarrow> among T (scan_peek s f)"
  by (cases s) simp_all

lemma scan_string_tok: "among {tok_string, tok_string_with_escapes} (scan_string utf8 esc s)"
proof (induction utf8 esc s rule: scan_string.induct)
  case (1 utf8 esc s)
  show ?case
  proof (cases s)
    case (Cons c r)
    note ih = 1 [OF Cons]
    consider "c = CHR 0x22" | "c = CHR 0x5C" | "c \<noteq> CHR 0x22" "c \<noteq> CHR 0x5C" by blast
    then show ?thesis
    proof cases
      case 2
      then have "among {tok_string, tok_string_with_escapes} (scan_then (scan_escape r) (\<lambda>_. scan_string utf8 True))"
        using ih(1) by (intro among_then) simp
      with 2 Cons show ?thesis by (subst scan_string.simps) simp
    next
      case 3
      then have "among {tok_string, tok_string_with_escapes} (scan_then (scan_inside utf8 c r) (\<lambda>_. scan_string utf8 esc))"
        using ih(2) by (intro among_then) simp
      with 3 Cons show ?thesis by (subst scan_string.simps) simp
    qed (simp add: Cons scan_string.simps)
  qed (simp add: scan_string.simps)
qed

lemma scan_frac_tok: "scan_frac s = Done tok r \<Longrightarrow> tok = tok_integer \<or> tok = tok_double"
  by (auto simp: scan_frac_def scan_peek_Done scan_then_Done split: if_splits)

lemma scan_exp_tok: "tok \<in> {tok_integer, tok_double} \<Longrightarrow> among {tok_integer, tok_double} (scan_exp tok s)"
  by (auto simp: scan_exp_def scan_exp_digits_def intro!: among_peek among_then)

lemma scan_number_tok: "among {tok_integer, tok_double} (scan_number s)"
  unfolding scan_number_def
  by (intro among_peek among_then scan_exp_tok) (auto dest: scan_frac_tok)

lemma scan_want_tok: "among {tok} (scan_want want tok s)"
  by (induction want arbitrary: s) (auto simp: scan_want.simps intro!: among_peek)

definition real_toks :: "igsyajl_tok set" where
  "real_toks = - {tok_eof, tok_error, tok_comment}"

lemma among_mono: "among T m \<Longrightarrow> T \<subseteq> U \<Longrightarrow> among U m"
  by (auto simp: among_def)

lemma scan_token_real: "among real_toks (scan_token utf8 c s)"
proof -
  have a: "among real_toks (if P then m else m')" if "among real_toks m" "among real_toks m'" for P m m'
    using that by simp
  show ?thesis
    unfolding scan_token_def
    by (intro a among_mono [OF scan_want_tok] among_mono [OF scan_string_tok] among_mono [OF scan_number_tok])
      (auto simp: real_toks_def)
qed

lemma scan_token_tok: "scan_token utf8 c s = Done tok r \<Longrightarrow> tok \<in> real_toks"
  using scan_token_real [of utf8 c s] by (simp add: among_def)

lemma real_toksD [dest]: "tok \<in> real_toks \<Longrightarrow> tok \<noteq> tok_eof \<and> tok \<noteq> tok_error \<and> tok \<noteq> tok_comment"
  by (simp add: real_toks_def)

text \<open>What a scan has taken is in front of the rest.\<close>

definition splits :: "string \<Rightarrow> 'a scan \<Rightarrow> bool" where
  "splits s m \<longleftrightarrow> (\<forall>x r. m = Done x r \<longrightarrow> (\<exists>t. s = t @ r))"

lemma splits_simps [simp]: "splits s Eof" "splits s (Bad e)" "splits s (Done x r) \<longleftrightarrow> (\<exists>t. s = t @ r)"
  by (auto simp: splits_def)

lemma splits_conts: "splits s (scan_conts n s)"
proof (induction n arbitrary: s)
  case (Suc n)
  show ?case
  proof (cases s)
    case (Cons c r)
    with Suc [of r] show ?thesis by (fastforce simp: splits_def)
  qed simp
qed simp

lemma splits_hex: "splits s (scan_hex n s)"
proof (induction n arbitrary: s)
  case (Suc n)
  show ?case
  proof (cases s)
    case (Cons c r)
    with Suc [of r] show ?thesis by (fastforce simp: splits_def)
  qed simp
qed simp

lemma splits_escape: "splits s (scan_escape s)"
proof (cases s)
  case (Cons c r)
  with splits_hex [of r 4] show ?thesis by (fastforce simp: scan_escape_def splits_def)
qed (simp add: scan_escape_def)

lemma splits_inside: "splits s (scan_inside utf8 c s)"
  using splits_conts by (auto simp: scan_inside_def split: option.splits)

lemma scan_string_quote: "scan_string utf8 esc s = Done tok r \<Longrightarrow> \<exists>body. s = body @ CHR 0x22 # r"
proof (induction utf8 esc s rule: scan_string.induct)
  case (1 utf8 esc s)
  from 1(3) obtain c t where s: "s = c # t" by (cases s) (simp_all add: scan_string.simps)
  consider "c = CHR 0x22" | "c = CHR 0x5C" | "c \<noteq> CHR 0x22" "c \<noteq> CHR 0x5C" by blast
  then show ?case
  proof cases
    case 1
    with \<open>scan_string utf8 esc s = Done tok r\<close> s have "t = r" by (simp add: scan_string.simps)
    with s 1 have "s = [] @ CHR 0x22 # r" by simp
    then show ?thesis by blast
  next
    case 2
    then obtain u where u: "scan_escape t = Done () u" "scan_string utf8 True u = Done tok r"
      using 1(3) s by (subst (asm) scan_string.simps) (auto simp: scan_then_Done)
    with 1(1) [OF s _ 2] 2 obtain body where "u = body @ CHR 0x22 # r" by auto
    moreover obtain e where "t = e @ u" using splits_escape [of t] u(1) by auto
    ultimately show ?thesis using s by (metis append.assoc append_Cons)
  next
    case 3
    then obtain u where u: "scan_inside utf8 c t = Done () u" "scan_string utf8 esc u = Done tok r"
      using 1(3) s by (subst (asm) scan_string.simps) (auto simp: scan_then_Done)
    with 1(2) [OF s 3(1) 3(2)] obtain body where "u = body @ CHR 0x22 # r" by auto
    moreover obtain e where "t = e @ u" using splits_inside [of t utf8 c] u(1) by auto
    ultimately show ?thesis using s by (metis append.assoc append_Cons)
  qed
qed

lemma scan_token_string:
  assumes "scan_token utf8 c s = Done tok r" and "tok = tok_string \<or> tok = tok_string_with_escapes"
  shows "c = CHR 0x22 \<and> scan_string utf8 False s = Done tok r"
  using assms scan_want_tok [of tok_bool "''rue''" s] scan_want_tok [of tok_bool "''alse''" s]
    scan_want_tok [of tok_null "''ull''" s] scan_number_tok [of "c # s"]
  by (auto simp: scan_token_def among_def split: if_splits)

lemma scan_lex_real: "scan_lex utf8 cm s = Token tok x r \<Longrightarrow> tok \<in> real_toks"
proof (induction utf8 cm s rule: scan_lex.induct)
  case (2 utf8 cm c r)
  then show ?case by (fastforce split: if_splits scan.splits dest: scan_token_tok)
qed simp

end
