(* ===== verification/Yajl_Machine.thy ===== *)
theory Yajl_Machine
  imports Yajl_Tree Yajl_Scan_Laws
begin

text \<open>
  The reference parser: from a text to a tree by the tokens of the reference
  lexer, with the stack of states and the open objects and arrays, but without
  chunks, handles, callbacks and results that may be missing. \<open>Yajl_Parser_Laws\<close>
  shows that the parser of the source, with the callbacks that build trees,
  computes it.
\<close>

section \<open>Trees under construction\<close>

definition put_value :: "igs_json_node \<Rightarrow> tree_context \<Rightarrow> tree_context" where
  "put_value v c =
     (case tc_stack c of
        [] \<Rightarrow> c\<lparr> tc_root := Some v \<rparr>
      | (None, JMap es) # st \<Rightarrow>
          (case v of JString s \<Rightarrow> c\<lparr> tc_stack := (Some s, JMap es) # st \<rparr> | _ \<Rightarrow> c)
      | (Some k, JMap es) # st \<Rightarrow> c\<lparr> tc_stack := (None, JMap (es @ [(k, v)])) # st \<rparr>
      | (k, JArray vs) # st \<Rightarrow> c\<lparr> tc_stack := (k, JArray (vs @ [v])) # st \<rparr>
      | _ \<Rightarrow> c)"

definition open_node :: "igs_json_node \<Rightarrow> tree_context \<Rightarrow> tree_context" where
  "open_node v c = c\<lparr> tc_stack := (None, v) # tc_stack c \<rparr>"

definition close_node :: "tree_context \<Rightarrow> tree_context" where
  "close_node c = put_value (snd (hd (tc_stack c))) (c\<lparr> tc_stack := tl (tc_stack c) \<rparr>)"

definition nul_cut :: "string \<Rightarrow> string" where
  "nul_cut s = takeWhile (\<lambda>c. c \<noteq> CHR 0x00) s"

definition unescaped :: "string \<Rightarrow> string" where
  "unescaped s = (case decode_list [] [] s of Some t \<Rightarrow> t | None \<Rightarrow> [])"

section \<open>States\<close>

definition value_states :: "igsyajl_state set" where
  "value_states = {state_start, state_got_value, state_map_need_val, state_array_need_val, state_array_start}"

definition error_states :: "igsyajl_state set" where
  "error_states = {state_parse_error, state_lexical_error}"

definition scalar_of :: "igsyajl_tok \<Rightarrow> string \<Rightarrow> igs_json_node option" where
  "scalar_of tok x =
     (case tok of
        tok_string \<Rightarrow> Some (JString (nul_cut x))
      | tok_string_with_escapes \<Rightarrow> Some (JString (nul_cut (unescaped x)))
      | tok_bool \<Rightarrow> Some (if hd x = CHR ''t'' then JTrue else JFalse)
      | tok_null \<Rightarrow> Some JNull
      | tok_integer \<Rightarrow> number_node x
      | tok_double \<Rightarrow> number_node x
      | _ \<Rightarrow> None)"

text \<open>A number where a value is expected, the reading of which is undefined.\<close>

definition overflows :: "igsyajl_state \<Rightarrow> igsyajl_tok \<Rightarrow> string \<Rightarrow> bool" where
  "overflows st tok x \<longleftrightarrow> st \<in> value_states \<and> tok \<in> {tok_integer, tok_double} \<and> number_node x = None"

text \<open>What a token does in a state \<open>st\<close> above the states \<open>sts\<close>; \<open>None\<close> for a token that is not allowed.\<close>

definition token_effect ::
    "igsyajl_state \<Rightarrow> igsyajl_state list \<Rightarrow> igsyajl_tok \<Rightarrow> string \<Rightarrow> tree_context
       \<Rightarrow> (igsyajl_state list \<times> tree_context) option" where
  "token_effect st sts tok x c =
     (if st \<in> value_states then
        (case scalar_of tok x of
           Some v \<Rightarrow> Some (got_value_state st # sts, put_value v c)
         | None \<Rightarrow>
             if tok = tok_left_bracket then
               Some (state_map_start # got_value_state st # sts, open_node (JMap []) c)
             else if tok = tok_left_brace then
               Some (state_array_start # got_value_state st # sts, open_node (JArray []) c)
             else if tok = tok_right_brace \<and> st = state_array_start then Some (sts, close_node c)
             else None)
      else if st = state_map_start \<or> st = state_map_need_key then
        (if tok = tok_string then Some (state_map_sep # sts, put_value (JString (nul_cut x)) c)
         else if tok = tok_string_with_escapes then
           Some (state_map_sep # sts, put_value (JString (nul_cut (unescaped x))) c)
         else if tok = tok_right_bracket \<and> st = state_map_start then Some (sts, close_node c)
         else None)
      else if st = state_map_sep then
        (if tok = tok_colon then Some (state_map_need_val # sts, c) else None)
      else if st = state_map_got_val then
        (if tok = tok_right_bracket then Some (sts, close_node c)
         else if tok = tok_comma then Some (state_map_need_key # sts, c) else None)
      else if st = state_array_got_val then
        (if tok = tok_right_brace then Some (sts, close_node c)
         else if tok = tok_comma then Some (state_array_need_val # sts, c) else None)
      else None)"

lemma effect_defined: "token_effect st sts tok x c = Some y \<Longrightarrow> \<not> overflows st tok x"
  by (auto simp: overflows_def token_effect_def scalar_of_def)

section \<open>The run\<close>

datatype tree_result = Accepted tree_context | Rejected | Stuck | Paused "igsyajl_state list" tree_context string

text \<open>
  \<open>Stuck\<close> is a number that \<open>overflows\<close>; \<open>Paused\<close> keeps the unfinished token that the
  next chunk continues.
\<close>

function tree_run :: "igsyajl_state list \<Rightarrow> tree_context \<Rightarrow> string \<Rightarrow> tree_result" where
  "tree_run [] c s = Rejected"
| "tree_run (st # sts) c s =
     (if st = state_parse_complete then Accepted c
      else if st \<in> error_states then Rejected
      else case scan_lex True True s of
        Unfinished u \<Rightarrow> Paused (st # sts) c u
      | Wrong e \<Rightarrow> Rejected
      | Token tok x r \<Rightarrow>
          if overflows st tok x then Stuck
          else (case token_effect st sts tok x c of
             None \<Rightarrow> Rejected
           | Some (sts', c') \<Rightarrow> tree_run sts' c' r))"
  by pat_completeness auto
termination
  by (relation "measure (\<lambda>(_, _, s). length s)") (auto dest: scan_lex_rest)

declare tree_run.simps [simp del]

definition empty_tree :: "nat option \<Rightarrow> tree_context" where
  "empty_tree error_buffer =
     \<lparr> tc_stack = [], tc_root = None, tc_errbuf = map_option (\<lambda>_. []) error_buffer,
       tc_errbuf_size = (case error_buffer of None \<Rightarrow> 0 | Some n \<Rightarrow> n) \<rparr>"

text \<open>
  The tree of a text, which the parser closes with a blank: \<open>Some None\<close> for a text that is
  refused, \<open>None\<close> where the parse is undefined.
\<close>

definition tree_of_result :: "tree_result \<Rightarrow> igs_json_node option option" where
  "tree_of_result r =
     (case r of Accepted c \<Rightarrow> Some (tc_root c) | Rejected \<Rightarrow> Some None | Stuck \<Rightarrow> None | Paused _ _ _ \<Rightarrow> Some None)"

definition tree_of_text :: "string \<Rightarrow> igs_json_node option option" where
  "tree_of_text s = tree_of_result (tree_run [state_start] (empty_tree None) (s @ '' ''))"

section \<open>A text in two chunks\<close>

lemma tree_run_append:
  "tree_run sts c (s @ t) =
     (case tree_run sts c s of
        Accepted c' \<Rightarrow> Accepted c' | Rejected \<Rightarrow> Rejected | Stuck \<Rightarrow> Stuck | Paused sts' c' u \<Rightarrow> tree_run sts' c' (u @ t))"
proof (induction sts c s rule: tree_run.induct)
  case (1 c s)
  show ?case by (simp add: tree_run.simps)
next
  case (2 st sts c s)
  show ?case
  proof (cases "st = state_parse_complete \<or> st \<in> error_states")
    case True
    then show ?thesis by (auto simp: tree_run.simps)
  next
    case False
    then have f: "st \<noteq> state_parse_complete" "st \<notin> error_states" by auto
    show ?thesis
    proof (cases "scan_lex True True s")
      case (Unfinished u)
      with f show ?thesis
        using streaming(1) [OF Unfinished, of t] by (simp add: tree_run.simps)
    next
      case (Wrong e)
      with f show ?thesis using streaming(2) [OF Wrong, of t] by (simp add: tree_run.simps)
    next
      case (Token tok x r)
      have step: "tree_run (st # sts) c (w @ v) = (if overflows st tok x then Stuck else case token_effect st sts tok x c of
             None \<Rightarrow> Rejected | Some (sts', c') \<Rightarrow> tree_run sts' c' (r @ v))"
        if "w = s" for v w
        using that f streaming(3) [OF Token, of v] by (simp add: tree_run.simps)
      show ?thesis
      proof (cases "overflows st tok x \<or> token_effect st sts tok x c = None")
        case True
        with step [OF refl, of t] step [OF refl, of "[]"] show ?thesis by auto
      next
        case False
        then obtain sts' c' where y: "token_effect st sts tok x c = Some (sts', c')" "\<not> overflows st tok x" by auto
        show ?thesis
          using 2 [OF f Token y(2) y(1) refl] step [OF refl, of t] step [OF refl, of "[]"] y by simp
      qed
    qed
  qed
qed

section \<open>States and open nodes agree\<close>

text \<open>
  The invariant of a run: every open object or array has a state, the innermost
  one of those between its brackets, an outer one that of a value just read, and
  an object keeps its key exactly while the value of the key is missing. The
  outermost state is complete as soon as the first bracket opens.
\<close>

fun inner_ok :: "igsyajl_state \<Rightarrow> string option \<times> igs_json_node \<Rightarrow> bool" where
  "inner_ok st (k, JMap es) \<longleftrightarrow>
     (if k = None then st = state_map_start \<or> st = state_map_got_val \<or> st = state_map_need_key
      else st = state_map_sep \<or> st = state_map_need_val)"
| "inner_ok st (k, JArray vs) \<longleftrightarrow> st = state_array_start \<or> st = state_array_got_val \<or> st = state_array_need_val"
| "inner_ok st _ \<longleftrightarrow> False"

fun outer_ok :: "igsyajl_state list \<Rightarrow> (string option \<times> igs_json_node) list \<Rightarrow> bool" where
  "outer_ok [st] [] \<longleftrightarrow> st = state_parse_complete"
| "outer_ok (st # sts) ((k, JMap es) # st') \<longleftrightarrow> st = state_map_got_val \<and> k \<noteq> None \<and> outer_ok sts st'"
| "outer_ok (st # sts) ((k, JArray vs) # st') \<longleftrightarrow> st = state_array_got_val \<and> outer_ok sts st'"
| "outer_ok _ _ \<longleftrightarrow> False"

lemma outer_ok_Nil: "outer_ok sts [] \<longleftrightarrow> sts = [state_parse_complete]"
  by (cases sts; cases "tl sts") auto

definition synced :: "igsyajl_state list \<Rightarrow> tree_context \<Rightarrow> bool" where
  "synced sts c \<longleftrightarrow>
     (case sts of
        [] \<Rightarrow> False
      | st # sts' \<Rightarrow>
          (case tc_stack c of
             [] \<Rightarrow> sts' = [] \<and> (st = state_start \<and> tc_root c = None \<or> st = state_parse_complete \<and> tc_root c \<noteq> None)
           | e # es \<Rightarrow> inner_ok st e \<and> outer_ok sts' es \<and> tc_root c = None))"

lemma empty_synced: "synced [state_start] (empty_tree b)"
  by (simp add: synced_def empty_tree_def)

text \<open>A value may be put where a value is expected; it takes a key away and leaves the outer states.\<close>

lemma put_outer:
  assumes "outer_ok sts (tc_stack c)" and "tc_root c = None"
  shows "synced sts (put_value v c)" and "context_add_value v c = Some (0, put_value v c)"
proof -
  have "synced sts (put_value v c) \<and> context_add_value v c = Some (0, put_value v c)"
  proof (cases "tc_stack c")
    case Nil
    with assms show ?thesis by (simp add: outer_ok_Nil synced_def put_value_def context_add_value_def)
  next
    case (Cons e es)
    obtain k w where e: "e = (k, w)" by (cases e)
    obtain st sts' where sts: "sts = st # sts'" using assms Cons by (cases sts) simp_all
    from Cons assms show ?thesis
      by (cases w; cases k) (auto simp: e sts synced_def put_value_def context_add_value_def)
  qed
  then show "synced sts (put_value v c)" "context_add_value v c = Some (0, put_value v c)" by simp_all
qed

lemma put_synced:
  assumes "synced (st # sts) c" and "st \<in> value_states"
  shows "synced (got_value_state st # sts) (put_value v c)" and "context_add_value v c = Some (0, put_value v c)"
proof -
  show "synced (got_value_state st # sts) (put_value v c)"
  proof (cases "tc_stack c")
    case Nil
    with assms show ?thesis by (auto simp: synced_def value_states_def got_value_state_def put_value_def)
  next
    case (Cons e es)
    obtain k w where e: "e = (k, w)" by (cases e)
    from Cons assms show ?thesis
      by (cases w; cases k) (auto simp: e synced_def value_states_def got_value_state_def put_value_def)
  qed
  show "context_add_value v c = Some (0, put_value v c)"
  proof (cases "tc_stack c")
    case Nil
    with assms show ?thesis by (auto simp: synced_def value_states_def put_value_def context_add_value_def)
  next
    case (Cons e es)
    obtain k w where e: "e = (k, w)" by (cases e)
    from Cons assms show ?thesis
      by (cases w; cases k) (auto simp: e synced_def value_states_def put_value_def context_add_value_def)
  qed
qed

lemma open_synced:
  assumes "synced (st # sts) c" and "st \<in> value_states"
  shows "synced (state_map_start # got_value_state st # sts) (open_node (JMap []) c)"
    and "synced (state_array_start # got_value_state st # sts) (open_node (JArray []) c)"
proof -
  have "outer_ok (got_value_state st # sts) (tc_stack c) \<and> tc_root c = None"
  proof (cases "tc_stack c")
    case Nil
    with assms show ?thesis by (auto simp: synced_def value_states_def got_value_state_def)
  next
    case (Cons e es)
    obtain k w where e: "e = (k, w)" by (cases e)
    from Cons assms show ?thesis
      by (cases w; cases k) (auto simp: e synced_def value_states_def got_value_state_def)
  qed
  then show "synced (state_map_start # got_value_state st # sts) (open_node (JMap []) c)"
    "synced (state_array_start # got_value_state st # sts) (open_node (JArray []) c)"
    by (simp_all add: synced_def open_node_def)
qed

lemma close_synced:
  assumes "synced (st # sts) c"
    and "st = state_map_start \<or> st = state_map_got_val \<or> st = state_array_start \<or> st = state_array_got_val"
  shows "synced sts (close_node c)"
    and "(case context_pop c of (None, c) \<Rightarrow> Some (False, c) | (Some v, c) \<Rightarrow> added (context_add_value v c))
      = Some (True, close_node c)"
proof -
  obtain k w es where st: "tc_stack c = (k, w) # es"
    using assms by (cases "tc_stack c") (auto simp: synced_def)
  with assms have o: "outer_ok sts (tc_stack (c\<lparr> tc_stack := es \<rparr>))" "tc_root (c\<lparr> tc_stack := es \<rparr>) = None"
    by (auto simp: synced_def)
  show "synced sts (close_node c)" using put_outer(1) [OF o] st by (simp add: close_node_def)
  show "(case context_pop c of (None, c) \<Rightarrow> Some (False, c) | (Some v, c) \<Rightarrow> added (context_add_value v c))
      = Some (True, close_node c)"
    using put_outer(2) [OF o] st by (simp add: close_node_def context_pop_def added_def)
qed

lemma key_synced:
  assumes "synced (st # sts) c" and "st = state_map_start \<or> st = state_map_need_key"
  shows "synced (state_map_sep # sts) (put_value (JString k) c)"
    and "context_add_value (JString k) c = Some (0, put_value (JString k) c)"
proof -
  obtain es rest where st: "tc_stack c = (None, JMap es) # rest"
  proof (cases "tc_stack c")
    case Nil
    with assms show ?thesis by (auto simp: synced_def)
  next
    case (Cons e es)
    obtain k w where e: "e = (k, w)" by (cases e)
    from Cons assms that show ?thesis
      by (cases w; cases k) (auto simp: e synced_def)
  qed
  then show "synced (state_map_sep # sts) (put_value (JString k) c)"
    "context_add_value (JString k) c = Some (0, put_value (JString k) c)"
    using assms by (auto simp: synced_def put_value_def context_add_value_def)
qed

end
