(* ===== verification/Yajl_Lex_Laws.thy ===== *)
theory Yajl_Lex_Laws
  imports Yajl_Scan_Laws
begin

text \<open>
  The lexer refines the reference lexer. A position stands for the text that is
  still to be read, \<open>rem\<close>: what is left of the buffer, and then what is left of
  the chunk. \<open>at_ok\<close> is the invariant of positions: the buffer is read before
  the chunk is touched, and no offset leaves its text.

  \<open>matches\<close> relates the result of a routine to that of its reference: no read
  leaves the text and no assertion fails, whatever the text.
\<close>

section \<open>Positions\<close>

fun rem :: "string \<Rightarrow> lex_at \<Rightarrow> string" where
  "rem js (lx, off) = (if lx_bufInUse lx then drop (lx_bufOff lx) (lx_buf lx) else []) @ drop off js"

fun at_ok :: "string \<Rightarrow> lex_at \<Rightarrow> bool" where
  "at_ok js (lx, off) \<longleftrightarrow> off \<le> length js \<and>
     (lx_bufInUse lx \<longrightarrow> lx_bufOff lx \<le> length (lx_buf lx) \<and>
        (lx_bufOff lx < length (lx_buf lx) \<longrightarrow> off = 0 \<and> js \<noteq> []))"

text \<open>What reading leaves alone.\<close>

definition same_lexer :: "lex_at \<Rightarrow> lex_at \<Rightarrow> bool" where
  "same_lexer p q \<longleftrightarrow> lx_buf (fst q) = lx_buf (fst p) \<and> lx_bufInUse (fst q) = lx_bufInUse (fst p)
     \<and> lx_allowComments (fst q) = lx_allowComments (fst p) \<and> lx_validateUTF8 (fst q) = lx_validateUTF8 (fst p)"

lemma same_lexer_refl [simp]: "same_lexer p p"
  by (simp add: same_lexer_def)

lemma same_lexer_trans: "same_lexer p q \<Longrightarrow> same_lexer q r \<Longrightarrow> same_lexer p r"
  by (simp add: same_lexer_def)

definition reaches :: "string \<Rightarrow> lex_at \<Rightarrow> string \<Rightarrow> lex_at \<Rightarrow> bool" where
  "reaches js p r q \<longleftrightarrow> at_ok js q \<and> same_lexer p q \<and> rem js q = r \<and> length r \<le> length (rem js p)"

lemma reaches_refl: "at_ok js p \<Longrightarrow> reaches js p (rem js p) p"
  by (simp add: reaches_def)

lemma reaches_trans: "reaches js p r q \<Longrightarrow> reaches js q t u \<Longrightarrow> reaches js p t u"
  unfolding reaches_def using same_lexer_trans order_trans by blast

lemma reaches_error: "reaches js p r q \<Longrightarrow> reaches js p r (snd (with_error e q))"
  by (cases q) (auto simp: reaches_def with_error_def same_lexer_def)

text \<open>A character that was just read and can be put back.\<close>

definition just_read :: "string \<Rightarrow> lex_at \<Rightarrow> string \<Rightarrow> char \<times> lex_at \<Rightarrow> bool" where
  "just_read js p s x \<longleftrightarrow>
     (\<exists>r q. s = fst x # r \<and> reaches js p r (snd x) \<and> unreadChar (snd x) = Some q \<and> reaches js p s q)"

lemma readChar_ok:
  assumes "at_ok js p" and "rem js p = c # r"
  shows "snd p < length js \<and> (\<exists>q. readChar js p = Some (c, q) \<and> just_read js p (c # r) (c, q))"
proof (cases p)
  case (Pair lx off)
  show ?thesis
  proof (cases "from_buf lx")
    case True
    then have "drop (lx_bufOff lx) (lx_buf lx) = lx_buf lx ! lx_bufOff lx # drop (Suc (lx_bufOff lx)) (lx_buf lx)"
      by (simp add: from_buf_def Cons_nth_drop_Suc)
    with True assms Pair show ?thesis
      by (auto simp: from_buf_def just_read_def reaches_def same_lexer_def)
  next
    case False
    with assms Pair have d: "drop off js = c # r"
      by (auto simp: from_buf_def split: if_splits)
    then have l: "off < length js" by (metis drop_all leI list.distinct(1))
    with d have "js ! off = c" "drop (Suc off) js = r"
      by (simp_all add: Cons_nth_drop_Suc [symmetric])
    with False l d assms Pair show ?thesis
      by (auto simp: from_buf_def just_read_def reaches_def same_lexer_def)
  qed
qed

section \<open>Results\<close>

definition matches :: "string \<Rightarrow> lex_at \<Rightarrow> (lexed + 'y) option \<Rightarrow> 'a scan \<Rightarrow> ('a \<Rightarrow> string \<Rightarrow> 'y \<Rightarrow> bool) \<Rightarrow> bool" where
  "matches js p m s D \<longleftrightarrow>
     (case s of
        Eof \<Rightarrow> \<exists>q. m = Some (Inl (tok_eof, q)) \<and> reaches js p [] q
      | Bad e \<Rightarrow> \<exists>q r. m = Some (Inl (tok_error, q)) \<and> reaches js p r q \<and> lx_error (fst q) = e
      | Done x r \<Rightarrow> \<exists>y. m = Some (Inr y) \<and> D x r y)"

lemma matches_then:
  assumes "matches js p m s D" and "\<And>x r y. s = Done x r \<Longrightarrow> D x r y \<Longrightarrow> matches js p (f y) (g x r) D'"
  shows "matches js p (andthen m f) (scan_then s g) D'"
proof (cases s)
  case (Done x r)
  with assms(1) obtain y where "m = Some (Inr y)" "D x r y" by (auto simp: matches_def)
  with assms(2) Done show ?thesis by simp
qed (use assms(1) in \<open>auto simp: matches_def\<close>)

lemma matches_mono:
  assumes "matches js p m s D" and "\<And>x r y. D x r y \<Longrightarrow> D' x r y"
  shows "matches js p m s D'"
  using assms by (cases s) (auto simp: matches_def)

lemma matches_go: "D x r y \<Longrightarrow> matches js p (go y) (Done x r) D"
  by (simp add: matches_def go_def)

lemma matches_offended:
  "just_read js p s (c, q) \<Longrightarrow> matches js p (offended e q) (Bad e) D"
  using reaches_error [of js p s] by (fastforce simp: matches_def offended_def just_read_def stop_def with_error_def)

lemma just_readD: "just_read js p (c # r) (c', q) \<Longrightarrow> c' = c \<and> reaches js p r q"
  by (auto simp: just_read_def)

definition rests :: "string \<Rightarrow> lex_at \<Rightarrow> 'a \<Rightarrow> string \<Rightarrow> lex_at \<Rightarrow> bool" where
  "rests js p x r q \<longleftrightarrow> reaches js p r q"

lemma reaches_ok: "reaches js p r q \<Longrightarrow> at_ok js q" "reaches js p r q \<Longrightarrow> rem js q = r"
  by (simp_all add: reaches_def)

text \<open>One more character from a position that was reached.\<close>

lemma next_char_eof_at: "reaches js p [] q \<Longrightarrow> next_char js q = Some (Inl (tok_eof, q))"
  by (cases q) (auto simp: reaches_def next_char_def stop_def)

lemma next_char_at:
  assumes "reaches js p (c # r) p'"
  obtains q where "next_char js p' = Some (Inr (c, q))" "just_read js p (c # r) (c, q)" "reaches js p r q"
proof -
  obtain q where q: "snd p' < length js" "readChar js p' = Some (c, q)" "just_read js p' (c # r) (c, q)"
    using readChar_ok [of js p' c r] assms by (auto simp: reaches_def)
  have j: "just_read js p (c # r) (c, q)"
    using q(3) reaches_trans [OF assms] unfolding just_read_def by blast
  show thesis
    by (rule that [of q]) (use q j in \<open>auto simp: next_char_def go_def just_read_def\<close>)
qed

lemma matches_next:
  assumes p': "reaches js p s p'"
    and f: "\<And>c r q. s = c # r \<Longrightarrow> just_read js p s (c, q) \<Longrightarrow> reaches js p r q \<Longrightarrow> matches js p (f (c, q)) (g c r) D"
  shows "matches js p (andthen (next_char js p') f) (scan_peek s g) D"
proof (cases s)
  case Nil
  with p' next_char_eof_at [of js p p'] show ?thesis by (auto simp: matches_def)
next
  case (Cons c r)
  with p' obtain q where "next_char js p' = Some (Inr (c, q))" "just_read js p s (c, q)" "reaches js p r q"
    by (auto elim: next_char_at)
  with f [OF Cons] Cons show ?thesis by simp
qed

lemma unread_just_read:
  assumes "just_read js p s (c, q)"
  obtains q' where "unreadChar q = Some q'" "reaches js p s q'"
  using assms by (auto simp: just_read_def)

section \<open>The parts of a string\<close>

lemma utf8_conts_ok:
  "reaches js p s p' \<Longrightarrow>
     (case scan_conts n s of
        Eof \<Rightarrow> \<exists>q. utf8_conts n js p' = Some (tok_eof, q) \<and> reaches js p [] q
      | Bad e \<Rightarrow> e = lex_string_invalid_utf8 \<and> (\<exists>q r. utf8_conts n js p' = Some (tok_error, q) \<and> reaches js p r q)
      | Done x r \<Rightarrow> \<exists>q. utf8_conts n js p' = Some (tok_string, q) \<and> reaches js p r q)"
proof (induction n arbitrary: s p')
  case (Suc n)
  show ?case
  proof (cases s)
    case Nil
    with Suc.prems next_char_eof_at [of js p p'] show ?thesis by auto
  next
    case (Cons c r)
    with Suc.prems obtain q where q: "next_char js p' = Some (Inr (c, q))" "reaches js p r q"
      by (auto elim: next_char_at)
    show ?thesis
    proof (cases "is_cont c")
      case True
      with q Cons Suc.IH [OF q(2)] show ?thesis
        by (cases "scan_conts n r") auto
    next
      case False
      with q Cons show ?thesis by (auto simp: stop_def)
    qed
  qed
qed simp

lemma lex_hex_ok: "reaches js p s p' \<Longrightarrow> matches js p (lex_hex n js p') (scan_hex n s) (rests js p)"
proof (induction n arbitrary: s p')
  case 0
  then show ?case by (simp add: matches_go rests_def)
next
  case (Suc n)
  show ?case
    unfolding lex_hex.simps scan_hex.simps
    by (rule matches_next [OF Suc.prems]) (auto intro: Suc.IH matches_offended)
qed

lemma lex_escape_ok: "reaches js p s p' \<Longrightarrow> matches js p (lex_escape js p') (scan_escape s) (rests js p)"
  unfolding lex_escape_def scan_escape_def
  by (rule matches_next) (auto intro: lex_hex_ok matches_offended matches_go simp: rests_def)

lemma lex_inside_ok:
  assumes c: "just_read js p s (c, p')" and p': "reaches js p r p'"
  shows "matches js p (lex_inside js c p') (scan_inside (lx_validateUTF8 (fst p)) c r) (rests js p)"
proof -
  have v: "lx_validateUTF8 (fst p') = lx_validateUTF8 (fst p)"
    using p' by (simp add: reaches_def same_lexer_def)
  consider "char_is IJC c" | "\<not> char_is IJC c" "\<not> lx_validateUTF8 (fst p)"
    | "\<not> char_is IJC c" "lx_validateUTF8 (fst p)" "lead_len c = None"
    | n where "\<not> char_is IJC c" "lx_validateUTF8 (fst p)" "lead_len c = Some n" by blast
  then show ?thesis
  proof cases
    case 1
    with matches_offended [OF c] show ?thesis by (simp add: lex_inside_def scan_inside_def)
  next
    case 2
    with p' v show ?thesis by (simp add: lex_inside_def scan_inside_def matches_go rests_def)
  next
    case 3
    have "matches js p (stop (with_error lex_string_invalid_utf8 p')) (Bad lex_string_invalid_utf8) (rests js p)"
      using reaches_error [OF p'] by (fastforce simp: matches_def stop_def with_error_def)
    with 3 v show ?thesis by (simp add: lex_inside_def scan_inside_def igsyajl_lex_utf8_char_def)
  next
    case 4
    then have e: "lex_inside js c p' = (case utf8_conts n js p' of
           None \<Rightarrow> None
         | Some (t, p) \<Rightarrow>
             if t = tok_eof then stop (tok_eof, p)
             else if t = tok_error then stop (with_error lex_string_invalid_utf8 p)
             else go p)" "scan_inside (lx_validateUTF8 (fst p)) c r = scan_conts n r"
      using v by (simp_all add: lex_inside_def scan_inside_def igsyajl_lex_utf8_char_def)
    show ?thesis
    proof (cases "scan_conts n r")
      case Eof
      with utf8_conts_ok [OF p', of n] show ?thesis by (auto simp: e matches_def stop_def)
    next
      case (Bad x)
      with utf8_conts_ok [OF p', of n] obtain q t where q: "utf8_conts n js p' = Some (tok_error, q)" "reaches js p t q"
        and x: "x = lex_string_invalid_utf8" by auto
      show ?thesis
        using reaches_error [OF q(2)] by (fastforce simp: e Bad x q(1) matches_def stop_def with_error_def)
    next
      case (Done x t)
      with utf8_conts_ok [OF p', of n] show ?thesis by (auto simp: e matches_def go_def rests_def)
    qed
  qed
qed

section \<open>Strings\<close>

text \<open>The table by ranges.\<close>

definition char_bits :: "nat \<Rightarrow> 8 word" where
  "char_bits n =
     (if n < 32 then IJC
      else if n = 34 \<or> n = 92 then NFP OR VEC OR IJC
      else if n = 47 \<or> n = 110 \<or> n = 114 \<or> n = 116 then VEC
      else if n = 98 \<or> n = 102 then VEC OR VHC
      else if 48 \<le> n \<and> n \<le> 57 \<or> 65 \<le> n \<and> n \<le> 70 \<or> 97 \<le> n \<and> n \<le> 102 then VHC
      else if n < 128 then 0
      else NUC)"

lemma lookup: "charLookupTable = map char_bits [0..<256]"
proof -
  have s: "[0..<256] = [0..<32] @ [32..<128] @ [128..<256::nat]"
    using upt_add_eq_append [of 0 32 224] upt_add_eq_append [of 32 128 128] by simp
  have c: "map f xs = replicate (length xs) x" if "\<forall>n \<in> set xs. f n = x" for f :: "nat \<Rightarrow> 8 word" and xs x
    using that by (induction xs) auto
  have a: "map char_bits [0..<32] = replicate 32 IJC"
    by (subst c [of _ _ IJC]) (auto simp: char_bits_def simp del: upt_rec_numeral)
  have b: "map char_bits [128..<256] = replicate 128 NUC"
    by (subst c [of _ _ NUC]) (auto simp: char_bits_def simp del: upt_rec_numeral)
  show ?thesis unfolding s map_append a b charLookupTable_def
    by (simp add: char_bits_def)
qed
lemma char_is_bits: "char_is bits c \<longleftrightarrow> char_bits (of_char c) AND bits \<noteq> 0"
proof -
  have "(of_char c :: nat) < 256" using of_char_mod_256 [of c, where 'a = nat] by (metis mod_less_divisor zero_less_numeral)
  then show ?thesis by (simp add: char_is_def lookup)
qed

lemmas char_flags = char_is_bits char_bits_def IJC_def NFP_def NUC_def VEC_def VHC_def

lemma char_is_IJC:
  "char_is IJC c \<longleftrightarrow> (of_char c :: nat) < 32 \<or> of_char c = (34 :: nat) \<or> of_char c = (92 :: nat)"
  by (simp add: char_flags)

lemma char_is_VHC:
  "char_is VHC c \<longleftrightarrow> 48 \<le> (of_char c :: nat) \<and> (of_char c :: nat) \<le> 57
     \<or> 65 \<le> (of_char c :: nat) \<and> (of_char c :: nat) \<le> 70 \<or> 97 \<le> (of_char c :: nat) \<and> (of_char c :: nat) \<le> 102"
  by (simp add: char_flags)

lemma char_is_VEC: "char_is VEC c \<longleftrightarrow> (of_char c :: nat) \<in> {34, 47, 92, 98, 102, 110, 114, 116}"
  by (auto simp: char_flags)

lemma char_is_plain:
  "char_is (IJC OR NFP OR (if utf8 then NUC else 0)) c \<longleftrightarrow>
     (of_char c :: nat) < 32 \<or> of_char c = (34 :: nat) \<or> of_char c = (92 :: nat) \<or> utf8 \<and> 128 \<le> (of_char c :: nat)"
  by (auto simp: char_flags)

text \<open>What the fast scan skips is what the slow one accepts in one step.\<close>

lemma plain_char:
  "\<not> char_is (IJC OR NFP OR (if utf8 then NUC else 0)) c \<Longrightarrow>
     c \<noteq> CHR 0x22 \<and> c \<noteq> CHR 0x5C \<and> \<not> char_is IJC c \<and> (utf8 \<longrightarrow> lead_len c = Some 0)"
  by (auto simp: char_is_plain char_is_IJC lead_len_def)
lemma scan_string_plain:
  "\<not> char_is (IJC OR NFP OR (if utf8 then NUC else 0)) c \<Longrightarrow>
     scan_string utf8 esc (c # s) = scan_string utf8 esc s"
  using plain_char [of utf8 c] by (subst scan_string.simps) (simp add: scan_inside_def)

lemma scan_string_skip:
  "scan_string utf8 esc (drop (igsyajl_string_scan s utf8) s @ t) = scan_string utf8 esc (s @ t)"
  by (induction s) (simp_all add: igsyajl_string_scan_def scan_string_plain)

lemma string_scan_le: "igsyajl_string_scan s utf8 \<le> length s"
  by (simp add: igsyajl_string_scan_def length_takeWhile_le)

lemma left_rem: "left js p = length (rem js p)"
  by (cases p) (simp add: left.simps)

lemma skip_scanned_ok:
  assumes "reaches js p s p'"
  obtains t where "reaches js p t (skip_scanned js p')"
    "scan_string (lx_validateUTF8 (fst p)) esc t = scan_string (lx_validateUTF8 (fst p)) esc s"
proof (cases p')
  case (Pair lx off)
  have v: "lx_validateUTF8 lx = lx_validateUTF8 (fst p)"
    using assms Pair by (simp add: reaches_def same_lexer_def)
  show thesis
  proof (cases "from_buf lx")
    case True
    let ?n = "igsyajl_string_scan (drop (lx_bufOff lx) (lx_buf lx)) (lx_validateUTF8 lx)"
    have le: "lx_bufOff lx + ?n \<le> length (lx_buf lx)"
      using string_scan_le [of "drop (lx_bufOff lx) (lx_buf lx)"] True
      by (simp add: from_buf_def le_diff_conv2 add.commute)
    have s: "s = drop (lx_bufOff lx) (lx_buf lx) @ js"
      using True assms Pair by (auto simp: from_buf_def reaches_def)
    have "reaches js p (drop ?n (drop (lx_bufOff lx) (lx_buf lx)) @ js) (skip_scanned js p')"
      using True assms Pair le by (auto simp: from_buf_def reaches_def same_lexer_def add.commute)
    then show thesis by (rule that) (simp only: s v [symmetric] scan_string_skip)
  next
    case False
    let ?n = "igsyajl_string_scan (drop off js) (lx_validateUTF8 lx)"
    have s: "s = drop off js @ []" and o: "off \<le> length js"
      using False assms Pair by (auto simp: from_buf_def reaches_def)
    have "off + ?n \<le> length js"
      using string_scan_le [of "drop off js" "lx_validateUTF8 lx"] o by simp
    then have "reaches js p (drop ?n (drop off js) @ []) (skip_scanned js p')"
      using False assms Pair by (auto simp: from_buf_def reaches_def same_lexer_def add.commute)
    then show thesis by (rule that) (simp only: s v [symmetric] scan_string_skip)
  qed
qed

text \<open>The loop ends a string by returning, so that no result is a value to go on with.\<close>

definition returns :: "string \<Rightarrow> lex_at \<Rightarrow> lexed option \<Rightarrow> igsyajl_tok scan \<Rightarrow> bool" where
  "returns js p m s \<longleftrightarrow>
     (case s of
        Eof \<Rightarrow> \<exists>q. m = Some (tok_eof, q) \<and> reaches js p [] q
      | Bad e \<Rightarrow> \<exists>q r. m = Some (tok_error, q) \<and> reaches js p r q \<and> lx_error (fst q) = e
      | Done tok r \<Rightarrow> \<exists>q. m = Some (tok, q) \<and> reaches js p r q)"

lemma matches_returned:
  assumes "matches js p m s D" and "\<And>x r y. s = Done x r \<Longrightarrow> D x r y \<Longrightarrow> returns js p (returned (f y)) (g x r)"
  shows "returns js p (returned (andthen m f)) (scan_then s g)"
proof (cases s)
  case (Done x r)
  with assms(1) obtain y where "m = Some (Inr y)" "D x r y" by (auto simp: matches_def)
  with assms(2) Done show ?thesis by simp
qed (use assms(1) in \<open>auto simp: matches_def returns_def\<close>)

lemma next_returned:
  assumes "reaches js p s p'"
    and "\<And>c r q. s = c # r \<Longrightarrow> just_read js p s (c, q) \<Longrightarrow> reaches js p r q \<Longrightarrow> returns js p (returned (f (c, q))) (g c r)"
  shows "returns js p (returned (andthen (next_char js p') f)) (scan_peek s g)"
proof (cases s)
  case Nil
  with assms(1) next_char_eof_at [of js p p'] show ?thesis by (auto simp: returns_def)
next
  case (Cons c r)
  with assms(1) obtain q where "next_char js p' = Some (Inr (c, q))" "just_read js p s (c, q)" "reaches js p r q"
    by (auto elim: next_char_at)
  with assms(2) [OF Cons] Cons show ?thesis by simp
qed

lemma lex_string_loop_ok:
  "reaches js p s p' \<Longrightarrow>
     returns js p (returned (lex_string_loop esc js p')) (scan_string (lx_validateUTF8 (fst p)) esc s)"
proof (induction "length s" arbitrary: s p' esc rule: less_induct)
  case less
  obtain t where t: "reaches js p t (skip_scanned js p')"
    "scan_string (lx_validateUTF8 (fst p)) esc t = scan_string (lx_validateUTF8 (fst p)) esc s"
    using skip_scanned_ok [OF less.prems] .
  have "length t \<le> length s"
    using skip_scanned_left [of js p'] t(1) less.prems by (simp add: left_rem reaches_def)
  then have ih: "returns js p (returned (lex_string_loop esc js q)) (scan_string (lx_validateUTF8 (fst p)) esc r)"
    if "reaches js p r q" "length r < length t" for esc r q
    using less.hyps [of r q esc] that by simp
  have "returns js p (returned (lex_string_loop esc js p')) (scan_string (lx_validateUTF8 (fst p)) esc t)"
    unfolding lex_string_loop.simps [of esc js p'] scan_string.simps [of _ esc t]
  proof (rule next_returned [OF t(1)], goal_cases)
    case (1 c r q)
    consider "c = CHR 0x22" | "c = CHR 0x5C" | "c \<noteq> CHR 0x22" "c \<noteq> CHR 0x5C" by blast
    then show ?case
    proof cases
      case 1
      with \<open>reaches js p r q\<close> show ?thesis by (simp add: returns_def)
    next
      case 2
      have "returns js p (returned (andthen (lex_escape js q) (\<lambda>p. lex_string_loop True js p)))
        (scan_then (scan_escape r) (\<lambda>_ t. scan_string (lx_validateUTF8 (fst p)) True t))"
        by (rule matches_returned [OF lex_escape_ok [OF \<open>reaches js p r q\<close>]])
          (use \<open>t = c # r\<close> in \<open>auto simp: rests_def le_imp_less_Suc dest: scan_escape_length intro!: ih\<close>)
      with 2 show ?thesis by simp
    next
      case 3
      have "returns js p (returned (andthen (lex_inside js c q) (\<lambda>p. lex_string_loop esc js p)))
        (scan_then (scan_inside (lx_validateUTF8 (fst p)) c r) (\<lambda>_ t. scan_string (lx_validateUTF8 (fst p)) esc t))"
        by (rule matches_returned [OF lex_inside_ok [OF \<open>just_read js p t (c, q)\<close> \<open>reaches js p r q\<close>]])
          (use \<open>t = c # r\<close> in \<open>auto simp: rests_def le_imp_less_Suc dest: scan_inside_length intro!: ih\<close>)
      with 3 show ?thesis by simp
    qed
  qed
  with t(2) show ?case by simp
qed

section \<open>Numbers\<close>

text \<open>A routine that reads one character too far.\<close>

definition holds :: "string \<Rightarrow> lex_at \<Rightarrow> 'a \<Rightarrow> string \<Rightarrow> char \<times> lex_at \<Rightarrow> bool" where
  "holds js p x s y \<longleftrightarrow> just_read js p s y"

lemma holdsI: "just_read js p s y \<Longrightarrow> holds js p x s y"
  by (simp add: holds_def)

lemma just_read_reaches: "just_read js p s (c, q) \<Longrightarrow> \<exists>r. s = c # r \<and> reaches js p r q"
  by (auto simp: just_read_def)

lemma lex_digits_ok: "reaches js p s p' \<Longrightarrow> matches js p (lex_digits js p') (scan_digits s) (holds js p)"
proof (induction s arbitrary: p')
  case Nil
  with next_char_eof_at [of js p p'] show ?case by (subst lex_digits.simps) (auto simp: matches_def)
next
  case (Cons c r)
  then obtain q where q: "next_char js p' = Some (Inr (c, q))" "just_read js p (c # r) (c, q)" "reaches js p r q"
    by (auto elim: next_char_at)
  show ?case
    using q(2) Cons.IH [OF q(3)]
    by (subst lex_digits.simps) (simp add: q(1) holdsI matches_go)
qed

lemma scan_then_peek: "scan_then (scan_peek s f) g = scan_peek s (\<lambda>c r. scan_then (f c r) g)"
  by (cases s) simp_all

lemma held_next:
  assumes "reaches js p s p'"
  shows "matches js p (next_char js p') (scan_peek s (\<lambda>_ _. Done () s)) (holds js p)"
proof (cases s)
  case Nil
  with assms next_char_eof_at [of js p p'] show ?thesis by (auto simp: matches_def)
next
  case (Cons c r)
  with assms obtain q where "next_char js p' = Some (Inr (c, q))" "just_read js p s (c, q)"
    by (auto elim: next_char_at)
  with Cons show ?thesis by (simp add: matches_def holds_def)
qed

text \<open>An optional sign is skipped by one more character.\<close>

lemma maybe_next:
  assumes h: "just_read js p (c # r) (c, q)" "reaches js p r q"
    and f: "\<And>d t q'. just_read js p (d # t) (d, q') \<Longrightarrow> reaches js p t q' \<Longrightarrow> matches js p (f (d, q')) (g d t) D"
  shows "matches js p (andthen (if b then next_char js q else go (c, q)) f) (scan_peek (if b then r else c # r) g) D"
proof (cases b)
  case True
  have "matches js p (andthen (next_char js q) f) (scan_peek r g) D"
    by (rule matches_next [OF h(2)]) (simp add: f)
  with True show ?thesis by simp
next
  case False
  with f [OF h] show ?thesis by simp
qed

lemma matches_digits:
  assumes "just_read js p (c # r) (c, q)" "reaches js p r q"
  shows "matches js p (if is_digit_char c then lex_digits js q else offended e q)
    (if is_digit_char c then scan_digits r else Bad e) (holds js p)"
  by (cases "is_digit_char c") (simp_all add: lex_digits_ok [OF assms(2)] matches_offended [OF assms(1)])

lemma lex_int_ok:
  assumes "just_read js p (c # r) (c, q)" "reaches js p r q"
  shows "matches js p (lex_int js (c, q)) (scan_int (c # r)) (holds js p)"
  using held_next [OF assms(2)] matches_digits [OF assms] by (simp add: scan_int_def)

definition held_token :: "string \<Rightarrow> lex_at \<Rightarrow> igsyajl_tok \<Rightarrow> string \<Rightarrow> igsyajl_tok \<times> char \<times> lex_at \<Rightarrow> bool" where
  "held_token js p tok s y \<longleftrightarrow> fst y = tok \<and> just_read js p s (snd y)"

lemma lex_frac_ok:
  assumes "just_read js p s (c, q)"
  shows "matches js p (lex_frac js (c, q)) (scan_frac s) (held_token js p)"
proof -
  obtain r where r: "s = c # r" "reaches js p r q" using just_read_reaches [OF assms] by blast
  have d: "matches js p
      (andthen (if is_digit_char d then lex_digits js q' else offended lex_missing_integer_after_decimal q')
         (\<lambda>(c, p). go (tok_double, c, p)))
      (scan_then (if is_digit_char d then scan_digits t else Bad lex_missing_integer_after_decimal)
         (\<lambda>_ u. Done tok_double u)) (held_token js p)"
    if "just_read js p (d # t) (d, q')" "reaches js p t q'" for d t q'
    by (rule matches_then [OF matches_digits [OF that]])
      (auto intro!: matches_go simp: holds_def held_token_def split: prod.splits)
  have e: "scan_then (if b then m else Bad x) f = (if b then scan_then m f else Bad x)" for b m x and f :: "unit \<Rightarrow> string \<Rightarrow> igsyajl_tok scan"
    by simp
  show ?thesis
  proof (cases "c = CHR ''.''")
    case True
    have "matches js p
       (andthen (next_char js q) (\<lambda>(c, p).
       andthen (if is_digit_char c then lex_digits js p
                else offended lex_missing_integer_after_decimal p) (\<lambda>(c, p).
       go (tok_double, c, p))))
      (scan_peek r (\<lambda>d t. if is_digit_char d then scan_then (scan_digits t) (\<lambda>_ u. Done tok_double u)
           else Bad lex_missing_integer_after_decimal)) (held_token js p)"
      by (rule matches_next [OF r(2)]) (use d in \<open>simp add: e\<close>)
    with True r show ?thesis by (simp add: scan_frac_def)
  next
    case False
    with assms r show ?thesis by (simp add: scan_frac_def matches_go held_token_def)
  qed
qed

definition kept_token :: "string \<Rightarrow> lex_at \<Rightarrow> igsyajl_tok \<Rightarrow> string \<Rightarrow> igsyajl_tok \<times> lex_at \<Rightarrow> bool" where
  "kept_token js p tok s y \<longleftrightarrow> fst y = tok \<and> (\<exists>c. just_read js p s (c, snd y))"

lemma lex_exp_ok:
  assumes "just_read js p s (c, q)"
  shows "matches js p (lex_exp js (tok, c, q)) (scan_exp tok s) (kept_token js p)"
proof -
  obtain r where r: "s = c # r" "reaches js p r q" using just_read_reaches [OF assms] by blast
  have d: "matches js p
      (andthen (if is_digit_char d then lex_digits js q' else offended lex_missing_integer_after_exponent q')
         (\<lambda>(c, p). go (tok_double, p)))
      (scan_exp_digits d t) (kept_token js p)"
    if "just_read js p (d # t) (d, q')" "reaches js p t q'" for d t q'
  proof -
    have "scan_exp_digits d t = scan_then (if is_digit_char d then scan_digits t else Bad lex_missing_integer_after_exponent)
         (\<lambda>_ u. Done tok_double u)" by (simp add: scan_exp_digits_def)
    then show ?thesis
      by (simp only:) (rule matches_then [OF matches_digits [OF that]],
        auto intro!: matches_go simp: holds_def kept_token_def split: prod.splits)
  qed
  show ?thesis
  proof (cases "c = CHR ''e'' \<or> c = CHR ''E''")
    case True
    have "matches js p
       (andthen (next_char js q) (\<lambda>(c, p).
       andthen (if c = CHR ''+'' \<or> c = CHR ''-'' then next_char js p else go (c, p)) (\<lambda>(c, p).
       andthen (if is_digit_char c then lex_digits js p
                else offended lex_missing_integer_after_exponent p) (\<lambda>(c, p).
       go (tok_double, p)))))
      (scan_peek r (\<lambda>d t. scan_peek (if d = CHR ''+'' \<or> d = CHR ''-'' then t else d # t) scan_exp_digits))
      (kept_token js p)"
      by (rule matches_next [OF r(2)], simp only: prod.case, rule maybe_next) (use d in auto)
    moreover have "scan_peek r (\<lambda>d t. scan_peek (if d = CHR ''+'' \<or> d = CHR ''-'' then t else d # t) scan_exp_digits)
      = scan_peek r (\<lambda>d t. if d = CHR ''+'' \<or> d = CHR ''-'' then scan_peek t scan_exp_digits else scan_exp_digits d t)"
      by (cases r) simp_all
    ultimately show ?thesis using True r by (simp add: scan_exp_def)
  next
    case False
    with assms r have "kept_token js p tok s (tok, q)" by (auto simp: kept_token_def)
    with False r show ?thesis by (simp add: scan_exp_def matches_go)
  qed
qed

lemma igsyajl_lex_number_ok:
  assumes "reaches js p s p'"
  shows "returns js p (igsyajl_lex_number js p') (scan_number s)"
proof -
  let ?last = "\<lambda>(tok, p). case unreadChar p of None \<Rightarrow> None | Some p \<Rightarrow> (stop (tok, p) :: (lexed + lexed) option)"
  have last: "returns js p (returned (?last y)) (Done tok t)" if "kept_token js p tok t y" for tok t y
    using that by (auto simp: kept_token_def just_read_def returns_def split: prod.splits)
  have e: "returns js p (returned (andthen (lex_exp js x) ?last)) (scan_exp tok t)" if h: "held_token js p tok t x" for x tok t
  proof -
    obtain c q where x: "x = (tok, c, q)" "just_read js p t (c, q)"
      using h by (cases x) (auto simp: held_token_def)
    have "returns js p (returned (andthen (lex_exp js x) ?last)) (scan_then (scan_exp tok t) Done)"
      unfolding x(1) by (rule matches_returned [OF lex_exp_ok [OF x(2)]]) (rule last)
    then show ?thesis by (cases "scan_exp tok t") simp_all
  qed
  have f: "returns js p (returned (andthen (lex_frac js x) (\<lambda>x. andthen (lex_exp js x) ?last)))
      (scan_then (scan_frac t) scan_exp)" if h: "holds js p y t x" for x t and y :: unit
  proof -
    obtain c q where x: "x = (c, q)" "just_read js p t (c, q)" using h by (cases x) (simp add: holds_def)
    show ?thesis unfolding x(1) by (rule matches_returned [OF lex_frac_ok [OF x(2)]]) (rule e)
  qed
  let ?int = "\<lambda>x. andthen (lex_int js x) (\<lambda>x. andthen (lex_frac js x) (\<lambda>x. andthen (lex_exp js x) ?last))"
  have i: "returns js p (returned (?int (d, q)))
      (scan_then (scan_int (d # t)) (\<lambda>_ t. scan_then (scan_frac t) scan_exp))"
    if "just_read js p (d # t) (d, q)" "reaches js p t q" for d t q
    by (rule matches_returned [OF lex_int_ok [OF that]]) (rule f)
  show ?thesis
    unfolding igsyajl_lex_number_def scan_number_def
  proof (rule next_returned [OF assms], goal_cases)
    case (1 c r q)
    show ?case
    proof (cases "c = CHR ''-''")
      case False
      with 1 i show ?thesis by simp
    next
      case True
      have "scan_then (scan_int r) g = scan_peek r (\<lambda>d t. scan_then (scan_int (d # t)) g)" for g :: "unit \<Rightarrow> string \<Rightarrow> igsyajl_tok scan"
        by (cases r) (simp_all add: scan_int_def)
      moreover have "returns js p (returned (andthen (next_char js q) ?int))
          (scan_peek r (\<lambda>d t. scan_then (scan_int (d # t)) (\<lambda>_ t. scan_then (scan_frac t) scan_exp)))"
        by (rule next_returned [OF 1(3)]) (use i in auto)
      ultimately show ?thesis using True by simp
    qed
  qed
qed

section \<open>Comments and words\<close>

definition commented :: "string \<Rightarrow> lex_at \<Rightarrow> 'a \<Rightarrow> string \<Rightarrow> lexed \<Rightarrow> bool" where
  "commented js p x r y \<longleftrightarrow> fst y = tok_comment \<and> reaches js p r (snd y)"

lemma commentedI: "reaches js p r q \<Longrightarrow> commented js p x r (tok_comment, q)"
  by (simp add: commented_def)

lemma line_comment_ok:
  "reaches js p s p' \<Longrightarrow> matches js p (lex_line_comment js p') (scan_line_comment s) (commented js p)"
proof (induction s arbitrary: p')
  case Nil
  with next_char_eof_at [of js p p'] show ?case by (subst lex_line_comment.simps) (auto simp: matches_def)
next
  case (Cons c r)
  then obtain q where q: "next_char js p' = Some (Inr (c, q))" "reaches js p r q"
    by (auto elim: next_char_at)
  show ?case
    using Cons.IH [OF q(2)] q(2)
    by (subst lex_line_comment.simps) (simp add: q(1) matches_go commentedI)
qed

lemma block_comment_ok:
  "reaches js p s p' \<Longrightarrow> matches js p (lex_block_comment js p') (scan_block_comment s) (commented js p)"
proof (induction s arbitrary: p')
  case Nil
  with next_char_eof_at [of js p p'] show ?case by (subst lex_block_comment.simps) (auto simp: matches_def)
next
  case (Cons c r)
  then obtain q where q: "next_char js p' = Some (Inr (c, q))" "reaches js p r q"
    by (auto elim: next_char_at)
  have star: "matches js p
      (andthen (next_char js q) (\<lambda>(c, p).
           if c = CHR ''/'' then go (tok_comment, p)
           else case unreadChar p of None \<Rightarrow> None | Some p \<Rightarrow> lex_block_comment js p))
      (scan_peek r (\<lambda>d t. if d = CHR ''/'' then Done () t else scan_block_comment r)) (commented js p)"
  proof (rule matches_next [OF q(2)], goal_cases)
    case (1 d t q2)
    obtain q3 where "unreadChar q2 = Some q3" "reaches js p r q3"
      using unread_just_read [OF 1(2)] .
    with 1(3) Cons.IH [of q3] show ?case
      by (cases "d = CHR ''/''") (simp_all add: matches_go commentedI)
  qed
  show ?case
    using Cons.IH [OF q(2)] star by (subst lex_block_comment.simps) (simp add: q(1))
qed

lemma igsyajl_lex_comment_ok:
  assumes "reaches js p s p'"
  shows "returns js p (igsyajl_lex_comment js p') (scan_then (scan_comment s) (\<lambda>_ t. Done tok_comment t))"
proof -
  have r: "returns js p (returned m) (scan_then sc (\<lambda>_ t. Done tok_comment t))"
    if "matches js p m sc (commented js p)" for m and sc :: "unit scan"
    using that by (cases sc) (auto simp: matches_def returns_def commented_def)
  show ?thesis
    unfolding igsyajl_lex_comment_def scan_comment_def scan_then_peek
  proof (rule next_returned [OF assms], goal_cases)
    case (1 c r q)
    have "returns js p (returned (stop (with_error lex_invalid_char q) :: (lexed + lexed) option)) (Bad lex_invalid_char)"
      using reaches_error [OF 1(3)] by (fastforce simp: returns_def with_error_def)
    with r [OF line_comment_ok [OF 1(3)]] r [OF block_comment_ok [OF 1(3)]] show ?case by simp
  qed
qed

lemma lex_word_ok: "reaches js p s p' \<Longrightarrow> returns js p (lex_word want tok js p') (scan_want want tok s)"
  unfolding lex_word_def
proof (induction want arbitrary: s p')
  case Nil
  then show ?case by (simp add: returns_def scan_want.simps)
next
  case (Cons w want)
  have a: "andthen (andthen m f) g = andthen m (\<lambda>x. andthen (f x) g)"
    for m :: "(lexed + char \<times> lex_at) option" and f and g :: "lex_at \<Rightarrow> (lexed + lexed) option"
    unfolding andthen_def by (simp split: option.split sum.split)
  show ?case
    unfolding lex_want.simps scan_want.simps a
  proof (rule next_returned [OF Cons.prems], goal_cases)
    case (1 c r q)
    have "returns js p (returned (andthen (offended e q) f)) (Bad e)" for e and f :: "lex_at \<Rightarrow> (lexed + lexed) option"
      using matches_offended [OF 1(2), of e "\<lambda>(_ :: unit) _ (_ :: lex_at). False"] by (auto simp: matches_def returns_def)
    with Cons.IH [OF 1(3)] show ?case by simp
  qed
qed

lemma returns_if: "returns js p a a' \<Longrightarrow> returns js p b b' \<Longrightarrow> returns js p (if P then a else b) (if P then a' else b')"
  by simp

lemma lex_token_ok:
  assumes "just_read js p (c # r) (c, q)" "reaches js p r q"
  shows "returns js p (lex_token js c q) (scan_token (lx_validateUTF8 (fst p)) c r)"
proof -
  have d: "returns js p (Some (tok, q)) (Done tok r)" for tok
    using assms(2) by (simp add: returns_def)
  have s: "returns js p (igsyajl_lex_string js q) (scan_string (lx_validateUTF8 (fst p)) False r)"
    unfolding igsyajl_lex_string_def by (rule lex_string_loop_ok [OF assms(2)])
  have e: "returns js p (Some (with_error lex_invalid_char q)) (Bad lex_invalid_char)"
    using reaches_error [OF assms(2)] by (fastforce simp: returns_def with_error_def)
  obtain q' where "unreadChar q = Some q'" "reaches js p (c # r) q'"
    using unread_just_read [OF assms(1)] .
  with igsyajl_lex_number_ok [of js p "c # r" q']
  have n: "returns js p (case unreadChar q of None \<Rightarrow> None | Some p \<Rightarrow> igsyajl_lex_number js p) (scan_number (c # r))"
    by simp
  show ?thesis
    unfolding lex_token_def scan_token_def
    by (intro returns_if d s e n lex_word_ok [OF assms(2)])
qed

section \<open>A token of a chunk\<close>

text \<open>
  \<open>pending lx\<close> is the text that the buffer holds, which the lexer left as an
  unfinished token. \<open>starts\<close> says what \<open>startOffset\<close> is when a token may begin:
  either nothing is left of the buffer and it is the offset, or the whole buffer
  is left and it is zero.
\<close>

definition pending :: "igsyajl_lexer \<Rightarrow> string" where
  "pending lx = (if lx_bufInUse lx then lx_buf lx else [])"

definition scans :: "igsyajl_lexer \<Rightarrow> string \<Rightarrow> lexeme" where
  "scans lx s = scan_lex (lx_validateUTF8 lx) (lx_allowComments lx) s"

definition lexer_ready :: "igsyajl_lexer \<Rightarrow> bool" where
  "lexer_ready lx \<longleftrightarrow> lx_bufInUse lx \<longrightarrow> lx_bufOff lx = 0 \<and> scans lx (lx_buf lx) = Unfinished (lx_buf lx)"

definition starts :: "string \<Rightarrow> nat \<Rightarrow> lex_at \<Rightarrow> bool" where
  "starts js start p \<longleftrightarrow> at_ok js p \<and>
     (if pending (fst p) = [] then start = snd p
      else start = 0 \<and> snd p = 0 \<and> lexer_ready (fst p))"

definition same_flags :: "lex_at \<Rightarrow> lex_at \<Rightarrow> bool" where
  "same_flags p q \<longleftrightarrow> lx_allowComments (fst q) = lx_allowComments (fst p)
     \<and> lx_validateUTF8 (fst q) = lx_validateUTF8 (fst p)"

text \<open>What the loop leaves for the end of \<open>igsyajl_lex_lex\<close>.\<close>

definition taken :: "string \<Rightarrow> nat \<Rightarrow> lex_at \<Rightarrow> string" where
  "taken js start q = pending (fst q) @ take (snd q - start) (drop start js)"

definition loops :: "string \<Rightarrow> lex_at \<Rightarrow> (nat \<times> lexed) option \<Rightarrow> lexeme \<Rightarrow> bool" where
  "loops js p m l \<longleftrightarrow>
     (\<exists>start tok q. m = Some (start, tok, q) \<and> start \<le> snd q \<and> snd q \<le> length js \<and> same_flags p q \<and>
        (case l of
           Unfinished u \<Rightarrow> tok = tok_eof \<and> snd q = length js \<and> taken js start q = u
         | Wrong e \<Rightarrow> tok = tok_error \<and> lx_error (fst q) = e
         | Token tk x r \<Rightarrow> tok = tk \<and> tk \<noteq> tok_eof \<and> tk \<noteq> tok_error \<and> drop (snd q) js = r
             \<and> x = token_text tk (taken js start q)
             \<and> taken js start q \<noteq> []
             \<and> (tk = tok_string \<or> tk = tok_string_with_escapes \<longrightarrow>
                  (\<exists>body. taken js start q = CHR 0x22 # body @ [CHR 0x22]))))"

lemma rem_start:
  assumes "starts js start p"
  shows "rem js p = pending (fst p) @ drop start js" and "start \<le> length js" and "snd p = start"
  using assms by (cases p; auto simp: starts_def pending_def lexer_ready_def split: if_splits)+

lemma rem_pending: "rem js (lx, off) = drop (lx_bufOff lx) (pending lx) @ drop off js"
  by (simp add: pending_def)

lemma at_ok_pending: "at_ok js (lx, off) \<Longrightarrow> lx_bufOff lx < length (pending lx) \<Longrightarrow> off = 0"
  by (auto simp: pending_def split: if_splits)

declare rem.simps [simp del] at_ok.simps [simp del]

text \<open>The text between the start of a token and a position that was reached past the buffer.\<close>

lemma taken_consumed:
  assumes s: "starts js start p" and r: "reaches js p r q" and l: "length r \<le> length js"
  shows "start \<le> snd q" and "snd q \<le> length js" and "drop (snd q) js = r"
    and "taken js start q = consumed (rem js p) r"
proof -
  obtain lx off where q: "q = (lx, off)" by (cases q)
  have "pending lx = pending (fst p)"
    using r q by (simp add: reaches_def same_lexer_def pending_def)
  then have ok: "at_ok js (lx, off)" "drop (lx_bufOff lx) (pending lx) @ drop off js = r"
    "length r \<le> length (rem js p)" "pending lx = pending (fst p)"
    using r rem_pending [of js lx off] by (simp_all add: q reaches_def)
  have o: "off \<le> length js" using ok(1) by (simp add: at_ok.simps)
  have e: "drop (lx_bufOff lx) (pending lx) = []"
  proof (rule ccontr)
    assume n: "drop (lx_bufOff lx) (pending lx) \<noteq> []"
    then have "off = 0" using at_ok_pending [OF ok(1)] by simp
    with ok(2) l n show False by auto
  qed
  with ok(2) have d: "drop off js = r" by simp
  have le: "start \<le> off"
  proof (cases "pending (fst p) = []")
    case True
    with ok(3) d rem_start [OF s] o show ?thesis by auto
  next
    case False
    with s show ?thesis by (simp add: starts_def)
  qed
  have "length (rem js p) - length r = length (pending lx) + (off - start)"
    using le o d rem_start [OF s] ok(4) by auto
  then have "consumed (rem js p) r = pending lx @ take (off - start) (drop start js)"
    using rem_start [OF s] ok(4) by (simp add: consumed_def)
  then show "taken js start q = consumed (rem js p) r" by (simp add: taken_def q)
  show "start \<le> snd q" "snd q \<le> length js" "drop (snd q) js = r" using le o d by (simp_all add: q)
qed

lemma starts_bound:
  assumes s: "starts js start p" and r: "reaches js p r q"
  shows "start \<le> snd q" and "snd q \<le> length js"
proof -
  obtain lx off where q: "q = (lx, off)" by (cases q)
  have "pending lx = pending (fst p)"
    using r q by (simp add: reaches_def same_lexer_def pending_def)
  then have ok: "at_ok js (lx, off)" "drop (lx_bufOff lx) (pending lx) @ drop off js = r"
    "length r \<le> length (rem js p)" "pending lx = pending (fst p)"
    using r rem_pending [of js lx off] by (simp_all add: q reaches_def)
  show "snd q \<le> length js" using ok(1) q by (simp add: at_ok.simps)
  show "start \<le> snd q"
  proof (cases "pending (fst p) = []")
    case True
    with ok rem_start [OF s] q show ?thesis by auto
  next
    case False
    with s show ?thesis by (simp add: starts_def)
  qed
qed

text \<open>What is complete in the chunk was not complete in the buffer.\<close>

lemma past_buffer:
  assumes s: "starts js start p" and c: "rem js p = c # r" and sp: "\<not> lex_space c"
  shows "c = CHR ''/'' \<Longrightarrow> lx_allowComments (fst p) \<Longrightarrow> scan_comment r = Done x t \<Longrightarrow> length t \<le> length js"
    and "c \<noteq> CHR ''/'' \<Longrightarrow> scan_token (lx_validateUTF8 (fst p)) c r = Done tok t \<Longrightarrow> length t \<le> length js"
proof -
  have short: "length r \<le> length js" if "pending (fst p) = []"
    using that c rem_start [OF s] by (metis append_Nil diff_le_self length_drop Suc_leD length_Cons)
  have buf: "scans (fst p) (pending (fst p)) = Unfinished (pending (fst p))" "r = tl (pending (fst p)) @ js"
    "pending (fst p) = c # tl (pending (fst p))" if "pending (fst p) \<noteq> []"
    using that s c rem_start [OF s]
    by (cases "pending (fst p)"; auto simp: starts_def lexer_ready_def pending_def split: if_splits)+
  show "length t \<le> length js"
    if "c = CHR ''/''" "lx_allowComments (fst p)" "scan_comment r = Done x t"
  proof (cases "pending (fst p) = []")
    case True
    with short that(3) scan_comment_length [of r x t] show ?thesis by simp
  next
    case False
    let ?b = "tl (pending (fst p))"
    have "scans (fst p) (c # ?b) = Unfinished (c # ?b)" using buf [OF False] by simp
    then have "scan_comment ?b = Eof"
      using that sp by (auto simp: scans_def split: scan.splits dest!: scan_lex_shorter scan_comment_length)
    with continues_comment [of js ?b] that(3) buf(2) [OF False] show ?thesis by (simp add: shrinks_def)
  qed
  show "length t \<le> length js"
    if "c \<noteq> CHR ''/''" "scan_token (lx_validateUTF8 (fst p)) c r = Done tok t"
  proof (cases "pending (fst p) = []")
    case True
    have "shrinks r (scan_token (lx_validateUTF8 (fst p)) c r)" by (rule shrinks_token) simp
    with that(2) short [OF True] show ?thesis by (simp add: shrinks_def)
  next
    case False
    let ?b = "tl (pending (fst p))"
    have "scans (fst p) (c # ?b) = Unfinished (c # ?b)" using buf [OF False] by simp
    then have "scan_token (lx_validateUTF8 (fst p)) c ?b = Eof"
      using that sp by (auto simp: scans_def split: scan.splits)
    with continues_token [of js "lx_validateUTF8 (fst p)" c ?b] that(2) buf(2) [OF False] show ?thesis by (simp add: shrinks_def)
  qed
qed

text \<open>The loop: whitespace and comments are skipped, and the token is that of the reference.\<close>

lemma loops_flags: "loops js q m l \<Longrightarrow> same_flags p q \<Longrightarrow> loops js p m l"
  by (fastforce simp: loops_def same_flags_def)

lemma loops_unfinished:
  assumes "starts js start p" and "reaches js p [] q"
  shows "loops js p (Some (start, tok_eof, q)) (Unfinished (rem js p))"
  using taken_consumed [OF assms] assms(2)
  by (auto simp: loops_def consumed_def reaches_def same_lexer_def same_flags_def)

lemma loops_wrong:
  assumes "starts js start p" and "reaches js p r q" and "lx_error (fst q) = e"
  shows "loops js p (Some (start, tok_error, q)) (Wrong e)"
  using starts_bound [OF assms(1,2)] assms(2,3)
  by (auto simp: loops_def reaches_def same_lexer_def same_flags_def)

lemma scans_flags: "same_flags p q \<Longrightarrow> scans (fst q) = scans (fst p)"
  by (rule ext) (simp add: scans_def same_flags_def)

lemma reaches_flags: "reaches js p r q \<Longrightarrow> same_flags p q"
  by (simp add: reaches_def same_lexer_def same_flags_def)

lemma reaches_pending: "reaches js p r q \<Longrightarrow> pending (fst q) = pending (fst p)"
  by (simp add: reaches_def same_lexer_def pending_def)

lemma no_space_in_buffer:
  assumes s: "starts js start p" and c: "rem js p = c # r" and sp: "lex_space c"
  shows "pending (fst p) = []"
proof (rule ccontr)
  assume n: "pending (fst p) \<noteq> []"
  then obtain b where b: "pending (fst p) = c # b"
    using c rem_start [OF s] by (cases "pending (fst p)") auto
  from n s have "scans (fst p) (pending (fst p)) = Unfinished (pending (fst p))"
    by (auto simp: starts_def lexer_ready_def pending_def split: if_splits)
  with b sp have "scan_lex (lx_validateUTF8 (fst p)) (lx_allowComments (fst p)) b = Unfinished (c # b)"
    by (simp add: scans_def)
  then show False using scan_lex_shorter by fastforce
qed

lemma lex_lex_loop_ok:
  "starts js start p \<Longrightarrow> loops js p (lex_lex_loop js start p) (scans (fst p) (rem js p))"
proof (induction "length (rem js p)" arbitrary: start p rule: less_induct)
  case less
  note s = less.prems
  note rs = rem_start [OF s]
  have ok: "at_ok js p" using s by (simp add: starts_def)
  have sp: "snd p \<le> length js" using rs by simp
  show ?case
  proof (cases "rem js p")
    case Nil
    with rs have "length js \<le> snd p" by simp
    with Nil rs show ?thesis
      by (subst lex_lex_loop.simps) (simp add: loops_def scans_def taken_def same_flags_def)
  next
    case (Cons c r)
    obtain q where l: "snd p < length js" and q: "readChar js p = Some (c, q)" "just_read js p (c # r) (c, q)"
      using readChar_ok [OF ok Cons] by blast
    have r: "reaches js p r q" using just_readD [OF q(2)] by simp
    have flags: "lx_allowComments (fst q) = lx_allowComments (fst p)" using reaches_flags [OF r] by (simp add: same_flags_def)
    have eq: "lex_lex_loop js start p =
       (if lex_space c then lex_lex_loop js (start + 1) q
        else if c = CHR ''/'' then
          (if \<not> lx_allowComments (fst p) then
             (case unreadChar q of None \<Rightarrow> None
              | Some p \<Rightarrow> Some (start, with_error lex_unallowed_comment p))
           else case igsyajl_lex_comment js q of
             None \<Rightarrow> None
           | Some (tok, p) \<Rightarrow>
               if tok = tok_comment then lex_lex_loop js (snd p) (drop_buf p)
               else Some (start, tok, p))
        else map_option (Pair start) (lex_token js c q))"
      using l q(1) flags by (subst lex_lex_loop.simps) simp
    show ?thesis
    proof (cases "lex_space c")
      case True
      have pn: "pending (fst p) = []" by (rule no_space_in_buffer [OF s Cons True])
      have d: "drop start js = c # r" using pn rs Cons by simp
      then have "length r \<le> length js" by (metis Suc_leD diff_le_self length_Cons length_drop)
      note t = taken_consumed [OF s r this]
      have "length (drop start js) = Suc (length (drop (snd q) js))" using d t(3) by simp
      then have "snd q = start + 1" using t(2) rs(2) by simp
      moreover have "pending (fst q) = []"
        using pn reaches_pending [OF r] by simp
      ultimately have "starts js (start + 1) q" using r by (simp add: starts_def reaches_def)
      then have "loops js q (lex_lex_loop js (start + 1) q) (scans (fst q) (rem js q))"
        using less.hyps [of q "start + 1"] r Cons by (simp add: reaches_def)
      then have "loops js p (lex_lex_loop js (start + 1) q) (scans (fst p) r)"
        using loops_flags [OF _ reaches_flags [OF r]] scans_flags [OF reaches_flags [OF r]] r by (simp add: reaches_def)
      then show ?thesis using True Cons eq by (simp add: scans_def)
    next
      case ns: False
      show ?thesis
      proof (cases "c = CHR ''/''")
        case False
        have t: "returns js p (lex_token js c q) (scan_token (lx_validateUTF8 (fst p)) c r)"
          by (rule lex_token_ok [OF q(2) r])
        show ?thesis
        proof (cases "scan_token (lx_validateUTF8 (fst p)) c r")
          case Eof
          with t loops_unfinished [OF s] ns False Cons eq show ?thesis by (auto simp: returns_def scans_def)
        next
          case (Bad e)
          with t loops_wrong [OF s] ns False Cons eq show ?thesis by (auto simp: returns_def scans_def)
        next
          case (Done tok t')
          with t obtain q' where q': "lex_token js c q = Some (tok, q')" "reaches js p t' q'"
            by (auto simp: returns_def)
          note c = taken_consumed [OF s q'(2) past_buffer(2) [OF s Cons ns False Done]]
          have "tok \<noteq> tok_eof \<and> tok \<noteq> tok_error" using scan_token_tok [OF Done] by auto
          moreover have "consumed (c # r) t' \<noteq> []"
            using shrinks_token [of r r "lx_validateUTF8 (fst p)" c] Done by (simp add: consumed_def shrinks_def)
          moreover have "\<exists>body. consumed (c # r) t' = CHR 0x22 # body @ [CHR 0x22]"
            if "tok = tok_string \<or> tok = tok_string_with_escapes"
            using scan_token_string [OF Done that] scan_string_quote [of "lx_validateUTF8 (fst p)" False r tok t']
            by (auto simp: consumed_def)
          ultimately have "loops js p (Some (start, tok, q')) (Token tok (token_text tok (consumed (c # r) t')) t')"
            using c reaches_flags [OF q'(2)] Cons by (simp add: loops_def)
          with ns False Done Cons eq q'(1) show ?thesis by (simp add: scans_def)
        qed
      next
        case slash: True
        show ?thesis
        proof (cases "lx_allowComments (fst p)")
          case False
          obtain q' where u: "unreadChar q = Some q'" "reaches js p (c # r) q'"
            using unread_just_read [OF q(2)] .
          have "loops js p (Some (start, with_error lex_unallowed_comment q')) (Wrong lex_unallowed_comment)"
            using loops_wrong [OF s reaches_error [OF u(2)], of lex_unallowed_comment lex_unallowed_comment]
            by (simp add: with_error_def)
          with False slash ns Cons eq u(1) show ?thesis by (simp add: scans_def)
        next
          case True
          have t: "returns js p (igsyajl_lex_comment js q) (scan_then (scan_comment r) (\<lambda>_ t. Done tok_comment t))"
            by (rule igsyajl_lex_comment_ok [OF r])
          show ?thesis
          proof (cases "scan_comment r")
            case Eof
            with t loops_unfinished [OF s] ns slash True Cons eq show ?thesis by (auto simp: returns_def scans_def)
          next
            case (Bad e)
            with t loops_wrong [OF s] ns slash True Cons eq show ?thesis by (auto simp: returns_def scans_def)
          next
            case (Done x t')
            with t obtain q' where q': "igsyajl_lex_comment js q = Some (tok_comment, q')" "reaches js p t' q'"
              by (auto simp: returns_def)
            note c = taken_consumed [OF s q'(2) past_buffer(1) [OF s Cons ns slash True Done]]
            have "starts js (snd q') (drop_buf q')" "rem js (drop_buf q') = t'" "same_flags p (drop_buf q')"
              using c(2,3) reaches_flags [OF q'(2)]
              by (cases q'; simp add: starts_def pending_def at_ok.simps rem.simps same_flags_def)+
            moreover have "length t' < length (rem js p)"
              using scan_comment_length [OF Done] Cons by simp
            ultimately have "loops js p (lex_lex_loop js (snd q') (drop_buf q')) (scans (fst p) t')"
              using less.hyps [of "drop_buf q'" "snd q'"] loops_flags [of js "drop_buf q'" _ _ p]
                scans_flags [of p "drop_buf q'"] by simp
            with True Done slash ns Cons eq q'(1) show ?thesis by (simp add: scans_def)
          qed
        qed
      qed
    qed
  qed
qed

section \<open>The lexer\<close>

definition chunk_ok :: "string \<Rightarrow> lex_at \<Rightarrow> bool" where
  "chunk_ok js p \<longleftrightarrow> snd p \<le> length js \<and> lexer_ready (fst p)
     \<and> (pending (fst p) \<noteq> [] \<longrightarrow> snd p = 0 \<and> js \<noteq> [])"

text \<open>
  A call returns, whatever the text: the offset stays in the chunk, the lexer is
  ready for the next call or the next chunk, and the token, its text and the rest
  are those of the reference on what was pending and what is left of the chunk.
\<close>

definition out_follows :: "igsyajl_tok \<Rightarrow> out_text \<Rightarrow> bool" where
  "out_follows tk out \<longleftrightarrow> snd out \<le> length (fst out)
     \<and> (if tk = tok_string \<or> tk = tok_string_with_escapes then \<exists>r. drop (snd out) (fst out) = CHR 0x22 # r
        else 0 < snd out)"

definition lexes :: "string \<Rightarrow> lex_at \<Rightarrow> (out_text \<times> lexed) option \<Rightarrow> bool" where
  "lexes js p m \<longleftrightarrow>
     (\<exists>out tok q. m = Some (out, tok, q) \<and> lexer_ready (fst q) \<and> same_flags p q \<and> snd q \<le> length js \<and>
        (case scans (fst p) (pending (fst p) @ drop (snd p) js) of
           Unfinished u \<Rightarrow> tok = tok_eof \<and> snd q = length js \<and> pending (fst q) = u
         | Wrong e \<Rightarrow> tok = tok_error \<and> lx_error (fst q) = e \<and> pending (fst q) = []
         | Token tk x r \<Rightarrow> tok = tk \<and> out_string out = x \<and> out_follows tk out \<and> pending (fst q) = [] \<and> drop (snd q) js = r))"

lemma scans_update [simp]: "scans (lx\<lparr> lx_buf := b \<rparr>) = scans lx" "scans (lx\<lparr> lx_bufOff := o' \<rparr>) = scans lx"
  "scans (lx\<lparr> lx_bufInUse := u \<rparr>) = scans lx"
  by (rule ext; simp add: scans_def)+

definition finish_out :: "string \<Rightarrow> nat \<Rightarrow> lex_at \<Rightarrow> out_text" where
  "finish_out js start q =
     (if lx_bufInUse (fst q) then
        (lx_buf (fst q) @ take (snd q - start) (drop start js) @ [CHR 0x00],
         length (lx_buf (fst q)) + (snd q - start))
      else (drop start js, snd q - start))"

definition finish_lexer :: "string \<Rightarrow> nat \<Rightarrow> lex_at \<Rightarrow> igsyajl_lexer" where
  "finish_lexer js start q =
     (if lx_bufInUse (fst q) then
        (fst q)\<lparr> lx_bufInUse := False, lx_bufOff := 0,
                 lx_buf := lx_buf (fst q) @ take (snd q - start) (drop start js) \<rparr>
      else fst q)"

lemma lex_finish_token:
  assumes "start \<le> snd q" and "snd q \<le> length js" and "tok \<noteq> tok_eof" and "tok \<noteq> tok_error"
  shows "lex_finish js (start, tok, q) =
    (if tok = tok_string \<or> tok = tok_string_with_escapes then
       (if 2 \<le> snd (finish_out js start q)
        then Some ((tl (fst (finish_out js start q)), snd (finish_out js start q) - 2), tok, finish_lexer js start q, snd q)
        else None)
     else Some (finish_out js start q, tok, finish_lexer js start q, snd q))"
proof (cases q)
  case (Pair lx off)
  with assms show ?thesis
    by (cases "lx_bufInUse lx") (simp_all add: finish_out_def finish_lexer_def Let_def)
qed

lemma igsyajl_lex_lex_ok:
  assumes "chunk_ok js p"
  shows "lexes js p (igsyajl_lex_lex js p)"
proof -
  obtain lx off where p: "p = (lx, off)" by (cases p)
  have s: "starts js off p"
    using assms by (auto simp: p starts_def chunk_ok_def lexer_ready_def at_ok.simps pending_def split: if_splits)
  note rs = rem_start [OF s]
  have "loops js p (lex_lex_loop js off p) (scans lx (pending lx @ drop off js))"
    using lex_lex_loop_ok [OF s] rs by (simp add: p)
  then obtain start tok q where m: "lex_lex_loop js off p = Some (start, tok, q)"
    and le: "start \<le> snd q" "snd q \<le> length js" and fl: "same_flags p q"
    and l: "case scans lx (pending lx @ drop off js) of
           Unfinished u \<Rightarrow> tok = tok_eof \<and> snd q = length js \<and> taken js start q = u
         | Wrong e \<Rightarrow> tok = tok_error \<and> lx_error (fst q) = e
         | Token tk x r \<Rightarrow> tok = tk \<and> tk \<noteq> tok_eof \<and> tk \<noteq> tok_error \<and> drop (snd q) js = r
             \<and> x = token_text tk (taken js start q)
             \<and> taken js start q \<noteq> []
             \<and> (tk = tok_string \<or> tk = tok_string_with_escapes \<longrightarrow>
                  (\<exists>body. taken js start q = CHR 0x22 # body @ [CHR 0x22]))"
    unfolding loops_def by - (elim exE conjE, rule that)
  obtain lx' off' where q: "q = (lx', off')" by (cases q)
  have e: "igsyajl_lex_lex js p = lex_finish js (start, tok, lx', off')"
    using m by (simp add: igsyajl_lex_lex_def p q)
  show ?thesis
  proof (cases "scans lx (pending lx @ drop off js)")
    case (Unfinished u)
    have "scans lx u = Unfinished u"
      using Unfinished unfinished_again unfolding scans_def by blast
    then have "scans lx' u = Unfinished u" using scans_flags [OF fl] by (simp add: p q)
    with Unfinished l le fl show ?thesis
      unfolding lexes_def e by (auto simp: p q lexer_ready_def taken_def pending_def same_flags_def)
  next
    case (Wrong e')
    with l le fl show ?thesis
      unfolding lexes_def e
      by (cases "lx_bufInUse lx'") (simp_all add: p q lexer_ready_def pending_def same_flags_def)
  next
    case (Token tk x r)
    note l' = l [unfolded Token lexeme.case]
    let ?out = "finish_out js start q"
    have len: "snd q - start \<le> length (drop start js)" using le by simp
    have out: "out_string ?out = taken js start q" "snd ?out \<le> length (fst ?out)"
      using len by (auto simp: out_string_def taken_def finish_out_def pending_def)
    then have mem: "fst ?out = taken js start q @ drop (snd ?out) (fst ?out)"
      by (metis append_take_drop_id out_string_def)
    have "snd ?out = length (taken js start q)" using out by (metis length_take min.absorb2 out_string_def)
    then have ne: "tok \<noteq> tok_eof" "tok \<noteq> tok_error" "0 < snd ?out" using l' by auto
    have lx: "lexer_ready (finish_lexer js start q)" "pending (finish_lexer js start q) = []"
      "same_flags p (finish_lexer js start q, snd q)"
      using fl by (auto simp: lexer_ready_def pending_def same_flags_def finish_lexer_def)
    show ?thesis
    proof (cases "tk = tok_string \<or> tk = tok_string_with_escapes")
      case True
      with l' obtain body where b: "taken js start q = CHR 0x22 # body @ [CHR 0x22]" by blast
      moreover have "snd ?out = length (taken js start q)" using out by (metis length_take min.absorb2 out_string_def)
      ultimately have n: "snd ?out = length body + 2" by simp
      have "fst ?out = CHR 0x22 # body @ CHR 0x22 # drop (snd ?out) (fst ?out)" using mem b by simp
      then have t: "tl (fst ?out) = body @ CHR 0x22 # drop (snd ?out) (fst ?out)" by (metis list.sel(3))
      have "out_string (tl (fst ?out), snd ?out - 2) = x" "out_follows tk (tl (fst ?out), snd ?out - 2)"
        using True l' n b t by (auto simp: out_string_def out_follows_def token_text_def)
      then show ?thesis
        using lex_finish_token [OF le ne(1,2)] True l' n lx le Token
        unfolding lexes_def e q by (simp add: p)
    next
      case False
      have "out_string ?out = x" "out_follows tk ?out"
        using False l' out ne by (auto simp: token_text_def out_follows_def)
      then show ?thesis
        using lex_finish_token [OF le ne(1,2)] False l' lx le Token
        unfolding lexes_def e q by (simp add: p)
    qed
  qed
qed

end
