(* ===== verification/Yajl_Parser_Laws.thy ===== *)
theory Yajl_Parser_Laws
  imports Yajl_Machine Yajl_Lex_Laws
begin

text \<open>
  The parser of the source, with the callbacks that build trees, computes the
  reference parser: every pass is a step of the reference, the loop ends, no
  callback fails and no assertion is violated, in one chunk or in two.

  The only condition is on the escapes of the strings: \<open>igsyajl_string_decode\<close>
  stops the process on some of them. It is the interface \<open>decodable\<close>.
\<close>

section \<open>Tokens of a handle\<close>

definition rest_of :: "string \<Rightarrow> 'c igsyajl_handle \<Rightarrow> string" where
  "rest_of js h = (case hn_lexer h of None \<Rightarrow> [] | Some lx \<Rightarrow> pending lx @ drop (hn_bytesConsumed h) js)"

definition tree_flags :: "igsyajl_lexer \<Rightarrow> bool" where
  "tree_flags lx \<longleftrightarrow> lx_validateUTF8 lx \<and> lx_allowComments lx"

definition lexer_ok :: "string \<Rightarrow> 'c igsyajl_handle \<Rightarrow> bool" where
  "lexer_ok js h \<longleftrightarrow> (\<exists>lx. hn_lexer h = Some lx \<and> tree_flags lx \<and> chunk_ok js (lx, hn_bytesConsumed h))"

definition with_lex :: "igsyajl_lexer \<Rightarrow> nat \<Rightarrow> 'c igsyajl_handle \<Rightarrow> 'c igsyajl_handle" where
  "with_lex lx off h = h\<lparr> hn_lexer := Some lx, hn_bytesConsumed := off \<rparr>"

lemma with_lex_simps [simp]: "hn_stateStack (with_lex lx off h) = hn_stateStack h"
  "hn_ctx (with_lex lx off h) = hn_ctx h" "hn_callbacks (with_lex lx off h) = hn_callbacks h"
  "hn_flags (with_lex lx off h) = hn_flags h" "hn_lexer (with_lex lx off h) = Some lx"
  "hn_bytesConsumed (with_lex lx off h) = off"
  by (simp_all add: with_lex_def)

lemma lex_next_ok:
  assumes "lexer_ok js h"
  obtains tok out lx off where "lex_next js h = Some (tok, out, with_lex lx off h)" and "tree_flags lx"
    and "lexer_ready lx" and "off \<le> length js"
    and "case scan_lex True True (rest_of js h) of
        Unfinished u \<Rightarrow> tok = tok_eof \<and> pending lx = u
      | Wrong e \<Rightarrow> tok = tok_error
      | Token tk x r \<Rightarrow> tok = tk \<and> tk \<in> real_toks \<and> out_string out = x \<and> out_follows tk out
          \<and> lexer_ok js (with_lex lx off h) \<and> rest_of js (with_lex lx off h) = r"
proof -
  obtain lx0 where l: "hn_lexer h = Some lx0" "tree_flags lx0" "chunk_ok js (lx0, hn_bytesConsumed h)"
    using assms by (auto simp: lexer_ok_def)
  have s: "scans lx0 (pending lx0 @ drop (hn_bytesConsumed h) js) = scan_lex True True (rest_of js h)"
    using l by (simp add: scans_def tree_flags_def rest_of_def)
  from igsyajl_lex_lex_ok [OF l(3)] obtain out tok q where q: "igsyajl_lex_lex js (lx0, hn_bytesConsumed h) = Some (out, tok, q)"
    "lexer_ready (fst q)" "same_flags (lx0, hn_bytesConsumed h) q" "snd q \<le> length js"
    and c: "case scan_lex True True (rest_of js h) of
           Unfinished u \<Rightarrow> tok = tok_eof \<and> snd q = length js \<and> pending (fst q) = u
         | Wrong e \<Rightarrow> tok = tok_error \<and> lx_error (fst q) = e \<and> pending (fst q) = []
         | Token tk x r \<Rightarrow> tok = tk \<and> out_string out = x \<and> out_follows tk out \<and> pending (fst q) = [] \<and> drop (snd q) js = r"
    unfolding lexes_def fst_conv snd_conv s by (elim exE conjE) (rule that)
  obtain lx off where qq: "q = (lx, off)" by (cases q)
  have f: "tree_flags lx" using q(3) l(2) by (simp add: qq same_flags_def tree_flags_def)
  show thesis
  proof (rule that [of tok out lx off])
    show "lex_next js h = Some (tok, out, with_lex lx off h)"
      using l q by (simp add: lex_next_def with_lex_def qq)
    show "tree_flags lx" "lexer_ready lx" "off \<le> length js" using f q by (simp_all add: qq)
    show "case scan_lex True True (rest_of js h) of
        Unfinished u \<Rightarrow> tok = tok_eof \<and> pending lx = u
      | Wrong e \<Rightarrow> tok = tok_error
      | Token tk x r \<Rightarrow> tok = tk \<and> tk \<in> real_toks \<and> out_string out = x \<and> out_follows tk out
          \<and> lexer_ok js (with_lex lx off h) \<and> rest_of js (with_lex lx off h) = r"
    proof (cases "scan_lex True True (rest_of js h)")
      case (Token tk x r)
      with c f q scan_lex_real [OF Token] show ?thesis
        by (simp add: qq lexer_ok_def rest_of_def chunk_ok_def)
    qed (use c in \<open>simp_all add: qq\<close>)
  qed
qed

section \<open>The callbacks\<close>

definition tree_config :: "tree_context igsyajl_handle \<Rightarrow> bool" where
  "tree_config h \<longleftrightarrow> hn_callbacks h = Some tree_callbacks \<and> flag h igsyajl_allow_trailing_garbage
     \<and> \<not> flag h igsyajl_allow_multiple_values \<and> \<not> flag h igsyajl_allow_partial_values"

lemma callback_of_tree [simp]:
  assumes "hn_callbacks h = Some tree_callbacks"
  shows "callback_of igsyajl_null h = Some handle_null" "callback_of igsyajl_boolean h = Some handle_boolean"
    "callback_of igsyajl_number h = Some handle_number" "callback_of igsyajl_string h = Some handle_string"
    "callback_of igsyajl_start_map h = Some handle_start_map" "callback_of igsyajl_map_key h = Some handle_string"
    "callback_of igsyajl_end_map h = Some handle_end_map" "callback_of igsyajl_start_array h = Some handle_start_array"
    "callback_of igsyajl_end_array h = Some handle_end_array"
  using assms by (simp_all add: callback_of_def tree_callbacks_def)

lemma cc_chk_ok: "f (hn_ctx h) = Some (True, c) \<Longrightarrow> cc_chk (Some f) h = go (h\<lparr> hn_ctx := c \<rparr>)"
  by (simp add: cc_chk_def)

lemma effect_synced:
  assumes "synced (st # sts) c" and "token_effect st sts tok x c = Some (sts', c')"
  shows "synced sts' c'"
proof (cases "st \<in> value_states")
  case True
  have "st = state_array_start \<Longrightarrow> synced sts (close_node c)" using close_synced(1) [OF assms(1)] by simp
  with True assms(2) put_synced(1) [OF assms(1) True] open_synced [OF assms(1) True] show ?thesis
    by (auto simp: token_effect_def split: option.splits if_splits)
next
  case False
  have "st = state_map_start \<or> st = state_map_got_val \<or> st = state_array_got_val \<Longrightarrow> synced sts (close_node c)"
    using close_synced(1) [OF assms(1)] by auto
  moreover have "st = state_map_start \<or> st = state_map_need_key \<Longrightarrow> synced (state_map_sep # sts) (put_value (JString k) c)" for k
    using key_synced(1) [OF assms(1)] by auto
  moreover have "synced (st' # sts) c"
    if "st = state_map_sep \<and> st' = state_map_need_val \<or> st = state_map_got_val \<and> st' = state_map_need_key
      \<or> st = state_array_got_val \<and> st' = state_array_need_val" for st'
  proof (cases "tc_stack c")
    case Nil
    with assms(1) that show ?thesis by (auto simp: synced_def)
  next
    case (Cons e es)
    obtain k w where e: "e = (k, w)" by (cases e)
    from Cons assms(1) that show ?thesis by (cases w; cases k) (auto simp: e synced_def)
  qed
  ultimately show ?thesis
    using False assms(2) by (auto simp: token_effect_def split: if_splits)
qed

section \<open>A token in a pass\<close>

text \<open>\<open>like h sts c h'\<close>: as \<open>h\<close>, with other states and another tree; the text decoded last may differ.\<close>

definition like :: "tree_context igsyajl_handle \<Rightarrow> igsyajl_state list \<Rightarrow> tree_context \<Rightarrow> tree_context igsyajl_handle \<Rightarrow> bool" where
  "like h sts c h' \<longleftrightarrow> hn_stateStack h' = sts \<and> hn_ctx h' = c \<and> hn_callbacks h' = hn_callbacks h
     \<and> hn_flags h' = hn_flags h \<and> hn_lexer h' = hn_lexer h \<and> hn_bytesConsumed h' = hn_bytesConsumed h"

definition failed :: "tree_context igsyajl_handle \<Rightarrow> bool" where
  "failed h \<longleftrightarrow>
     (\<exists>st sts. hn_stateStack h = st # sts \<and>
        (st = state_parse_error \<and> hn_parseError h \<noteq> None \<or> st = state_lexical_error \<and> hn_lexer h \<noteq> None))"

lemma failed_simps [simp]: "hn_lexer h \<noteq> None \<Longrightarrow> failed (bs_set state_lexical_error h)" "failed (parse_error t h)"
  "failed (restore_offset b h) = failed h"
  by (simp_all add: failed_def bs_set_def parse_error_def error_states_def restore_offset_def)

definition decodes :: "igsyajl_tok \<Rightarrow> string \<Rightarrow> bool" where
  "decodes tok x \<longleftrightarrow> (tok = tok_string_with_escapes \<longrightarrow> decode_list [] [] x \<noteq> None)"

lemma decoded_ok:
  assumes "out_string out = x" "out_follows tok_string_with_escapes out" "decodes tok_string_with_escapes x"
  shows "decoded out h = Some (unescaped x, h\<lparr> hn_decodeBuf := unescaped x \<rparr>)"
proof -
  obtain t where t: "decode_list [] [] x = Some t" using assms(3) by (auto simp: decodes_def)
  have "fst out = x @ drop (snd out) (fst out)" "length x = snd out"
    using assms(1,2) append_take_drop_id [of "snd out" "fst out"]
    by (auto simp: out_string_def out_follows_def)
  then have "igsyajl_string_decode (fst out) (snd out) = Some t"
    using decode_list_memory [OF t, of "drop (snd out) (fst out)"] by (simp add: igsyajl_string_decode_def)
  then show ?thesis by (simp add: decoded_def unescaped_def t)
qed

lemma put_callback:
  assumes "context_add_value v c = Some (0, put_value v c)"
  shows "v = JString (nul_cut s) \<Longrightarrow> handle_string s c = Some (True, put_value v c)"
    and "number_node s = Some v \<Longrightarrow> handle_number s c = Some (True, put_value v c)"
    and "v = (if b then JTrue else JFalse) \<Longrightarrow> handle_boolean b c = Some (True, put_value v c)"
    and "v = JNull \<Longrightarrow> handle_null c = Some (True, put_value v c)"
  using assms by (simp_all add: handle_string_def handle_number_def handle_boolean_def handle_null_def
      added_def nul_cut_def)

lemma value_token_scalar:
  assumes v: "scalar_of tok x = Some v" and add: "context_add_value v (hn_ctx h) = Some (0, put_value v (hn_ctx h))"
    and h: "hn_callbacks h = Some tree_callbacks"
    and out: "out_string out = x" "out_follows tok out" "decodes tok x"
  shows "\<exists>h'. value_token tok out h = go (state_start, h') \<and> like h (hn_stateStack h) (put_value v (hn_ctx h)) h'"
proof -
  note cb = put_callback [OF add]
  have hd: "fst out \<noteq> [] \<and> hd (fst out) = hd x" if "tok = tok_bool"
    using out that by (cases "fst out"; cases "snd out") (auto simp: out_string_def out_follows_def)
  have l: "like h (hn_stateStack h) (put_value v (hn_ctx h)) (h\<lparr> hn_ctx := put_value v (hn_ctx h) \<rparr>)"
    "like h (hn_stateStack h) (put_value v (hn_ctx h)) (h\<lparr> hn_decodeBuf := d, hn_ctx := put_value v (hn_ctx h) \<rparr>)" for d
    by (simp_all add: like_def)
  show ?thesis
  proof (cases tok)
    case tok_string
    with v l(1) show ?thesis
      by (simp add: scalar_of_def value_token_def pass_string_def applied_def h out(1) cc_chk_ok cb(1))
  next
    case tok_string_with_escapes
    have "decoded out h = Some (unescaped x, h\<lparr> hn_decodeBuf := unescaped x \<rparr>)"
      using decoded_ok [OF out(1)] out(2,3) tok_string_with_escapes by simp
    with v l(2) tok_string_with_escapes show ?thesis
      by (simp add: scalar_of_def value_token_def pass_string_def applied_def h cc_chk_ok cb(1))
  next
    case tok_bool
    with v l(1) hd show ?thesis
      by (simp add: scalar_of_def value_token_def applied_def h cc_chk_ok cb(3))
  next
    case tok_null
    with v l(1) show ?thesis by (simp add: scalar_of_def value_token_def h cc_chk_ok cb(4))
  next
    case tok_integer
    with v l(1) show ?thesis
      by (simp add: scalar_of_def value_token_def pass_integer_def h out(1) cc_chk_ok cb(2))
  next
    case tok_double
    with v l(1) show ?thesis
      by (simp add: scalar_of_def value_token_def pass_double_def h out(1) cc_chk_ok cb(2))
  qed (use v in \<open>simp_all add: scalar_of_def\<close>)
qed

lemma open_callback:
  "handle_start_map c = Some (True, open_node (JMap []) c)" "handle_start_array c = Some (True, open_node (JArray []) c)"
  by (simp_all add: handle_start_map_def handle_start_array_def context_push_def node_type_def open_node_def)

lemma close_callback:
  assumes "synced (st # sts) c"
    and "st = state_map_start \<or> st = state_map_got_val \<or> st = state_array_start \<or> st = state_array_got_val"
  shows "handle_end_map c = Some (True, close_node c)" "handle_end_array c = Some (True, close_node c)"
  using close_synced(2) [OF assms] by (simp_all add: handle_end_map_def handle_end_array_def)

text \<open>What a pass does with a token, against its effect in the reference.\<close>

definition pass_ok :: "tree_context igsyajl_handle \<Rightarrow> (igsyajl_state list \<times> tree_context) option
    \<Rightarrow> tree_context parsed option \<Rightarrow> bool" where
  "pass_ok h e p \<longleftrightarrow>
     (case e of
        None \<Rightarrow> \<exists>h'. p = Some (Again h') \<and> failed h'
      | Some (sts, c) \<Rightarrow> \<exists>h'. p = Some (Again h') \<and> like h sts c h')"

lemma like_bs [simp]:
  "like h sts c h' \<Longrightarrow> like h (s # tl sts) c (bs_set s h')"
  "like h sts c h' \<Longrightarrow> like h (s # sts) c (bs_push s h')"
  "like h sts c h' \<Longrightarrow> like h (tl sts) c (bs_pop h')"
  by (auto simp: like_def bs_set_def bs_push_def bs_pop_def)

lemma like_ctx: "like h (hn_stateStack h) c (h\<lparr> hn_ctx := c \<rparr>)"
  by (simp add: like_def)

lemma like_current: "like h (st # sts) c h' \<Longrightarrow> bs_current h' = Some st"
  by (simp add: like_def bs_current_def)

lemma pass_overflow:
  assumes "overflows st tok x" and "hn_callbacks h = Some tree_callbacks" and "out_string out = x"
  shows "value_token tok out h = None"
  using assms
  by (auto simp: overflows_def value_token_def pass_integer_def pass_double_def cc_chk_def handle_number_def)

lemma pass_value:
  assumes s: "synced (st # sts) (hn_ctx h)" and st: "hn_stateStack h = st # sts" "st \<in> value_states"
    and h: "hn_callbacks h = Some tree_callbacks"
    and out: "out_string out = x" "out_follows tok out" "decodes tok x" and tok: "tok \<in> real_toks"
    and ov: "\<not> overflows st tok x"
  shows "pass_ok h (token_effect st sts tok x (hn_ctx h)) (returned (andthen (value_token tok out h)
     (\<lambda>(stateToPush, h). case bs_current h of
              None \<Rightarrow> None
            | Some s \<Rightarrow>
                let h = bs_set (got_value_state s) h
                in stop (Again (if stateToPush \<noteq> state_start then bs_push stateToPush h else h)))))"
    (is "pass_ok h _ (returned (andthen _ ?next))")
proof -
  have nxt: "returned (?next (push, h')) = Some (Again (if push \<noteq> state_start then bs_push push (bs_set (got_value_state st) h')
      else bs_set (got_value_state st) h'))" if "like h (st # sts) c h'" for push c h'
    using like_current [OF that] by (simp add: Let_def)
  have cur: "bs_current h = Some st" using st by (simp add: bs_current_def)
  have add: "context_add_value v (hn_ctx h) = Some (0, put_value v (hn_ctx h))" for v
    by (rule put_synced(2) [OF s st(2)])
  have err: "pass_ok h None (returned (andthen (stop (Again (parse_error t h))) ?next))" for t
    by (simp add: pass_ok_def)
  have opened: "pass_ok h (Some (push # got_value_state st # sts, c))
      (returned (andthen (andthen (cc_chk (Some f) h) (\<lambda>h. go (push, h))) ?next))"
    if "f (hn_ctx h) = Some (True, c)" "push \<noteq> state_start" for f c push
    using nxt [of c "h\<lparr> hn_ctx := c \<rparr>" push] like_ctx [of h c] st that
      like_bs(2) [OF like_bs(1) [OF like_ctx [of h c]], of push "got_value_state st"]
    by (auto simp: cc_chk_ok pass_ok_def Let_def bs_current_def)
  show ?thesis
  proof (cases "scalar_of tok x")
    case (Some v)
    obtain h' where h': "value_token tok out h = go (state_start, h')" "like h (st # sts) (put_value v (hn_ctx h)) h'"
      using value_token_scalar [OF Some add h out] st by auto
    then show ?thesis
      using Some st(2) nxt [OF h'(2), of state_start] like_bs(1) [OF h'(2), of "got_value_state st"]
      by (auto simp: token_effect_def pass_ok_def)
  next
    case None
    show ?thesis
    proof (cases tok)
      case tok_left_bracket
      with None st(2) opened [OF open_callback(1), of state_map_start] h show ?thesis
        by (simp add: token_effect_def value_token_def)
    next
      case tok_left_brace
      with None st(2) opened [OF open_callback(2), of state_array_start] h show ?thesis
        by (simp add: token_effect_def value_token_def)
    next
      case tok_right_brace
      show ?thesis
      proof (cases "st = state_array_start")
        case True
        have "handle_end_array (hn_ctx h) = Some (True, close_node (hn_ctx h))"
          using close_callback(2) [OF s] True by simp
        with tok_right_brace None st True h cur like_ctx [of h "close_node (hn_ctx h)"] show ?thesis
          using like_bs(3) [OF like_ctx [of h "close_node (hn_ctx h)"]]
          by (auto simp: token_effect_def value_token_def cc_chk_ok pass_ok_def)
      next
        case False
        with tok_right_brace None st(2) cur err show ?thesis by (simp add: token_effect_def value_token_def)
      qed
    qed (use None st(2) err tok ov in \<open>simp_all add: token_effect_def value_token_def scalar_of_def real_toks_def overflows_def\<close>)
  qed
qed

lemma close_pass:
  assumes "f (hn_ctx h) = Some (True, c)" and "hn_stateStack h = st # sts"
  shows "pass_ok h (Some (sts, c)) (returned (andthen (cc_chk (Some f) h) (\<lambda>h. stop (Again (bs_pop h)))))"
  using assms like_bs(3) [OF like_ctx [of h c]] by (auto simp: cc_chk_ok pass_ok_def)

lemma key_pass:
  assumes "context_add_value (JString (nul_cut x)) (hn_ctx h) = Some (0, put_value (JString (nul_cut x)) (hn_ctx h))"
    and "hn_stateStack h = st # sts" and "hn_callbacks h' = Some tree_callbacks" and "like h (st # sts) (hn_ctx h) h'"
  shows "pass_ok h (Some (state_map_sep # sts, put_value (JString (nul_cut x)) (hn_ctx h))) (returned (pass_key x h'))"
proof -
  have c: "hn_ctx h' = hn_ctx h" using assms(4) by (simp add: like_def)
  have "like h (state_map_sep # sts) (put_value (JString (nul_cut x)) (hn_ctx h))
      (bs_set state_map_sep (h'\<lparr> hn_ctx := put_value (JString (nul_cut x)) (hn_ctx h) \<rparr>))"
    using assms(4) by (auto simp: like_def bs_set_def)
  then show ?thesis
    using put_callback(1) [OF assms(1) refl] assms(3)
    by (auto simp: pass_key_def applied_def cc_chk_ok c pass_ok_def)
qed

lemma set_pass:
  assumes "hn_stateStack h = st # sts"
  shows "pass_ok h (Some (s # sts, hn_ctx h)) (returned (stop (Again (bs_set s h))))"
  using assms like_bs(1) [of h "st # sts" "hn_ctx h" h s] by (auto simp: pass_ok_def like_def)

lemma error_pass [simp]: "pass_ok h None (Some (Again (parse_error t h')))"
  "pass_ok h None (Some (Again (restore_offset b (parse_error t h'))))"
  by (simp_all add: pass_ok_def)

text \<open>The pass of a state, after the token was read: \<open>h\<close> is the handle with the lexer as it then is.\<close>

lemma around_token:
  assumes lx: "lex_next js h0 = Some (tok, out, h)" and tok: "tok \<in> real_toks"
    and like: "like h (hn_stateStack h0) (hn_ctx h0) h"
    and s: "synced (st # sts) (hn_ctx h)" and st: "hn_stateStack h = st # sts"
    and h: "hn_callbacks h = Some tree_callbacks"
    and out: "out_string out = x" "out_follows tok out" "decodes tok x"
    and ns: "st \<noteq> state_parse_complete" "st \<notin> error_states"
  shows "if overflows st tok x then around_again js h0 = None
    else pass_ok h (token_effect st sts tok x (hn_ctx h)) (around_again js h0)"
proof (cases "overflows st tok x")
  case True
  have "bs_current h0 = Some st"
    using st st [symmetric] like by (auto simp: like_def bs_current_def split: list.splits)
  with True have "around_again js h0 = returned (parse_value js h0)"
    by (auto simp: around_again_def value_states_def overflows_def)
  then show ?thesis using True pass_overflow [OF True h out(1)] by (simp add: parse_value_def lx returned_def andthen_def)
next
  case ov: False
  have "pass_ok h (token_effect st sts tok x (hn_ctx h)) (around_again js h0)"
  proof -
  have st0: "bs_current h0 = Some st" "bs_current h = Some st"
    using st st [symmetric] like by (auto simp: like_def bs_current_def split: list.splits)
  have t: "tok \<noteq> tok_eof" "tok \<noteq> tok_error" using tok by auto
  have closed:
    "pass_ok h (Some (sts, close_node (hn_ctx h))) (returned (andthen (cc_chk (Some handle_end_map) h) (\<lambda>h. stop (Again (bs_pop h)))))"
    "pass_ok h (Some (sts, close_node (hn_ctx h))) (returned (andthen (cc_chk (Some handle_end_array) h) (\<lambda>h. stop (Again (bs_pop h)))))"
    if "st = state_map_start \<or> st = state_map_got_val \<or> st = state_array_start \<or> st = state_array_got_val"
    using close_pass [of handle_end_map h "close_node (hn_ctx h)" st sts]
      close_pass [of handle_end_array h "close_node (hn_ctx h)" st sts] close_callback [OF s that] st by simp_all
  consider "st \<in> value_states" | "st = state_map_start \<or> st = state_map_need_key" | "st = state_map_sep"
    | "st = state_map_got_val" | "st = state_array_got_val"
    using ns by (cases st) (auto simp: value_states_def error_states_def)
  then show ?thesis
  proof cases
    case 1
    have "around_again js h0 = returned (parse_value js h0)"
      using 1 st0 by (auto simp: around_again_def value_states_def)
    then show ?thesis using pass_value [OF s st 1 h out tok ov] by (simp add: parse_value_def lx)
  next
    case 2
    have a: "around_again js h0 = returned (parse_key js h0)" using 2 st0 by (auto simp: around_again_def)
    have nv: "st \<notin> value_states" using 2 by (auto simp: value_states_def)
    note k = key_pass [OF key_synced(2) [OF s 2] st]
    have l: "like h (st # sts) (hn_ctx h) h" "like h (st # sts) (hn_ctx h) (h\<lparr> hn_decodeBuf := unescaped x \<rparr>)"
      using st by (simp_all add: like_def)
    consider "tok = tok_string" | "tok = tok_string_with_escapes" | "tok = tok_right_bracket \<and> st = state_map_start"
      | "tok \<noteq> tok_string" "tok \<noteq> tok_string_with_escapes" "\<not> (tok = tok_right_bracket \<and> st = state_map_start)" by blast
    then show ?thesis
    proof cases
      case 1
      with a nv 2 k [OF h l(1), of x] lx t out(1) h show ?thesis
        by (simp add: parse_key_def token_effect_def)
    next
      case 2
      have "decoded out h = Some (unescaped x, h\<lparr> hn_decodeBuf := unescaped x \<rparr>)"
        using decoded_ok [OF out(1)] out(2,3) 2 by simp
      with a nv 2 \<open>st = _ \<or> _\<close> k [of "h\<lparr> hn_decodeBuf := unescaped x \<rparr>" "unescaped x"] l(2) lx t h show ?thesis
        by (simp add: parse_key_def token_effect_def)
    next
      case 3
      with a nv lx t h st0 closed(1) show ?thesis
        by (simp add: parse_key_def token_effect_def)
    next
      case 4
      with a nv lx t st0 \<open>st = _ \<or> _\<close> show ?thesis
        by (auto simp: parse_key_def token_effect_def)
    qed
  next
    case 3
    with st0 lx t set_pass [OF st, of state_map_need_val] show ?thesis
      by (simp add: around_again_def parse_sep_def token_effect_def value_states_def)
  next
    case 4
    with st0 lx t h set_pass [OF st, of state_map_need_key] closed(1) show ?thesis
      by (simp add: around_again_def parse_map_next_def token_effect_def value_states_def)
  next
    case 5
    with st0 lx t h set_pass [OF st, of state_array_need_val] closed(2) show ?thesis
      by (simp add: around_again_def parse_array_next_def token_effect_def value_states_def)
  qed
  qed
  with ov show ?thesis by simp
qed

text \<open>At the end of the chunk the pass returns, on a lexical error it enters the error state.\<close>

lemma around_early:
  assumes lx: "lex_next js h0 = Some (tok, out, h)" and st: "bs_current h0 = Some st"
    and ns: "st \<noteq> state_parse_complete" "st \<notin> error_states"
  shows "tok = tok_eof \<Longrightarrow> around_again js h0 = Some (Returned status_ok h)"
    and "tok = tok_error \<Longrightarrow> around_again js h0 = Some (Again (bs_set state_lexical_error h))"
  using assms
  by (cases st; simp add: around_again_def error_states_def parse_value_def value_token_def parse_key_def
      parse_sep_def parse_map_next_def parse_array_next_def)+

lemma loop_failed:
  assumes "failed h"
  shows "parse_loop js h = Some (status_error, h)"
  using assms by (subst parse_loop.simps) (auto simp: failed_def around_again_def bs_current_def)

lemma loop_complete:
  assumes "tree_config h" and "hn_stateStack h = state_parse_complete # sts"
  shows "parse_loop js h = Some (status_ok, h)"
  using assms
  by (subst parse_loop.simps)
    (simp add: around_again_def bs_current_def parse_complete_def tree_config_def)

lemma synced_alive: "synced (st # sts) c \<Longrightarrow> st \<notin> error_states \<and> st \<noteq> state_got_value"
  by (cases "tc_stack c"; cases "snd (hd (tc_stack c))"; cases "hd (tc_stack c)")
    (auto simp: synced_def error_states_def split: if_splits)

lemma tree_run_paused: "tree_run sts c s = Paused sts' c' u \<Longrightarrow> \<exists>st ts. sts' = st # ts \<and> st \<noteq> state_parse_complete"
proof (induction sts c s rule: tree_run.induct)
  case (2 st sts c s)
  then show ?case
    unfolding tree_run.simps(2) [of st sts c s] by (auto split: if_splits lexeme.splits option.splits)
qed (simp add: tree_run.simps)

text \<open>The buffer for errors has no influence on the run.\<close>

definition with_buf :: "tree_context \<Rightarrow> tree_context \<Rightarrow> tree_context" where
  "with_buf b c = c\<lparr> tc_errbuf := tc_errbuf b, tc_errbuf_size := tc_errbuf_size b \<rparr>"

lemma with_buf_simps [simp]: "tc_stack (with_buf b c) = tc_stack c" "tc_root (with_buf b c) = tc_root c"
  "with_buf b (c\<lparr> tc_stack := es \<rparr>) = (with_buf b c)\<lparr> tc_stack := es \<rparr>"
  "with_buf b (c\<lparr> tc_root := v \<rparr>) = (with_buf b c)\<lparr> tc_root := v \<rparr>"
  by (simp_all add: with_buf_def)

lemma put_value_buf [simp]: "put_value v (with_buf b c) = with_buf b (put_value v c)"
proof (cases "tc_stack c")
  case (Cons e es)
  obtain k w where "e = (k, w)" by (cases e)
  with Cons show ?thesis by (cases w; cases k; cases v) (simp_all add: put_value_def)
qed (simp add: put_value_def)

lemma open_close_buf [simp]: "open_node v (with_buf b c) = with_buf b (open_node v c)"
  "close_node (with_buf b c) = with_buf b (close_node c)"
  by (simp_all add: open_node_def close_node_def flip: with_buf_simps(3))

lemma effect_buf: "token_effect st sts tok x (with_buf b c) =
    map_option (\<lambda>(sts, c). (sts, with_buf b c)) (token_effect st sts tok x c)"
  by (cases "scalar_of tok x") (simp_all add: token_effect_def)

lemma tree_run_buf:
  "tree_run sts (with_buf b c) s =
     (case tree_run sts c s of Accepted c \<Rightarrow> Accepted (with_buf b c) | Rejected \<Rightarrow> Rejected | Stuck \<Rightarrow> Stuck
      | Paused sts c u \<Rightarrow> Paused sts (with_buf b c) u)"
proof (induction sts c s rule: tree_run.induct)
  case (2 st sts c s)
  then show ?case
    unfolding tree_run.simps(2) [of st sts c s] tree_run.simps(2) [of st sts "with_buf b c" s]
    by (auto simp: effect_buf split: lexeme.splits option.splits)
qed (simp add: tree_run.simps)

section \<open>The loop\<close>

text \<open>
  The condition on the texts: what is left of a text satisfies it too, an
  unfinished token that is closed with a blank too, and strings can be decoded.
\<close>

locale decodable =
  fixes P :: "string \<Rightarrow> bool"
  assumes left_over: "P s \<Longrightarrow> scan_lex True True s = Token tok x r \<Longrightarrow> P r"
    and closed_with_blank: "P s \<Longrightarrow> scan_lex True True s = Unfinished u \<Longrightarrow> P (u @ '' '')"
    and body: "P s \<Longrightarrow> scan_lex True True s = Token tok x r \<Longrightarrow> decodes tok x"
begin

lemma loop_runs:
  assumes "lexer_ok js h" and "tree_config h" and "synced (hn_stateStack h) (hn_ctx h)" and "P (rest_of js h)"
  shows "case tree_run (hn_stateStack h) (hn_ctx h) (rest_of js h) of
      Accepted c \<Rightarrow> \<exists>h' sts. parse_loop js h = Some (status_ok, h') \<and> hn_ctx h' = c \<and> tree_config h'
          \<and> hn_stateStack h' = state_parse_complete # sts \<and> hn_lexer h' \<noteq> None
    | Rejected \<Rightarrow> \<exists>h'. parse_loop js h = Some (status_error, h') \<and> failed h'
    | Stuck \<Rightarrow> parse_loop js h = None
    | Paused sts c u \<Rightarrow> \<exists>h' lx. parse_loop js h = Some (status_ok, h') \<and> hn_ctx h' = c \<and> tree_config h'
          \<and> hn_stateStack h' = sts \<and> synced sts c \<and> hn_lexer h' = Some lx \<and> tree_flags lx
          \<and> lexer_ready lx \<and> pending lx = u \<and> P (u @ '' '')"
  using assms
proof (induction "length (rest_of js h)" arbitrary: h rule: less_induct)
  case less
  obtain st sts where st: "hn_stateStack h = st # sts"
    using less.prems(3) by (cases "hn_stateStack h") (auto simp: synced_def)
  have ne: "st \<notin> error_states" using synced_alive less.prems(3) st by metis
  note s = less.prems(3) [unfolded st]
  show ?case
  proof (cases "st = state_parse_complete")
    case True
    with less.prems st loop_complete [of h sts js] show ?thesis
      by (auto simp: tree_run.simps lexer_ok_def)
  next
    case nc: False
    obtain tok out lx off where lex: "lex_next js h = Some (tok, out, with_lex lx off h)" and lx: "tree_flags lx" "lexer_ready lx"
      and c: "case scan_lex True True (rest_of js h) of
          Unfinished u \<Rightarrow> tok = tok_eof \<and> pending lx = u
        | Wrong e \<Rightarrow> tok = tok_error
        | Token tk x r \<Rightarrow> tok = tk \<and> tk \<in> real_toks \<and> out_string out = x \<and> out_follows tk out
            \<and> lexer_ok js (with_lex lx off h) \<and> rest_of js (with_lex lx off h) = r"
      by (rule lex_next_ok [OF less.prems(1)])
    note early = around_early [OF lex _ nc ne]
    have cur: "bs_current h = Some st" using st by (simp add: bs_current_def)
    show ?thesis
    proof (cases "scan_lex True True (rest_of js h)")
      case (Unfinished u)
      with c early(1) cur have "parse_loop js h = Some (status_ok, with_lex lx off h)"
        by (subst parse_loop.simps) simp
      moreover have "P (u @ '' '')" by (rule closed_with_blank [OF less.prems(4) Unfinished])
      ultimately show ?thesis
        using Unfinished st nc ne lx c less.prems(2,3) by (simp add: tree_run.simps tree_config_def flag_def)
    next
      case (Wrong e)
      with c early(2) cur have "parse_loop js h = parse_loop js (bs_set state_lexical_error (with_lex lx off h))"
        by (subst parse_loop.simps) simp
      with loop_failed [of "bs_set state_lexical_error (with_lex lx off h)" js] Wrong st nc ne show ?thesis
        by (simp add: tree_run.simps)
    next
      case (Token tk x r)
      with c have tk: "tok = tk" "tk \<in> real_toks" "out_string out = x" "out_follows tk out"
        and lk: "lexer_ok js (with_lex lx off h)" "rest_of js (with_lex lx off h) = r" by simp_all
      have d: "decodes tk x" by (rule body [OF less.prems(4) Token])
      have pass: "if overflows st tk x then around_again js h = None
          else pass_ok (with_lex lx off h) (token_effect st sts tk x (hn_ctx h)) (around_again js h)"
        using around_token [OF lex, of st sts x] tk d s st nc ne less.prems(2)
        by (auto simp: like_def tree_config_def split: if_splits)
      show ?thesis
      proof (cases "overflows st tk x")
        case True
        with pass have "parse_loop js h = None" by (subst parse_loop.simps) simp
        with True Token st nc ne show ?thesis by (simp add: tree_run.simps)
      next
      case nov: False
      with pass have ok: "pass_ok (with_lex lx off h) (token_effect st sts tk x (hn_ctx h)) (around_again js h)" by simp
      show ?thesis
      proof (cases "token_effect st sts tk x (hn_ctx h)")
        case None
        with ok obtain h' where "around_again js h = Some (Again h')" "failed h'" by (auto simp: pass_ok_def)
        then have "parse_loop js h = Some (status_error, h')"
          using loop_failed [of h' js] by (subst parse_loop.simps) simp
        with \<open>failed h'\<close> Token None st nc ne nov show ?thesis by (simp add: tree_run.simps)
      next
        case (Some y)
        obtain sts' c' where y: "y = (sts', c')" by (cases y)
        with ok Some obtain h' where h': "around_again js h = Some (Again h')" "like (with_lex lx off h) sts' c' h'"
          by (auto simp: pass_ok_def)
        have loop: "parse_loop js h = parse_loop js h'" using h'(1) by (subst parse_loop.simps) simp
        have run: "tree_run (hn_stateStack h) (hn_ctx h) (rest_of js h) = tree_run (hn_stateStack h') (hn_ctx h') (rest_of js h')"
          using h'(2) Token Some y st nc ne lk(2) nov by (simp add: tree_run.simps like_def rest_of_def)
        have "length (rest_of js h') < length (rest_of js h)"
          using h'(2) scan_lex_rest [OF Token] lk(2) by (simp add: like_def rest_of_def)
        moreover have "lexer_ok js h'" "rest_of js h' = r" "tree_config h'"
          using h'(2) lk less.prems(2) by (simp_all add: like_def rest_of_def lexer_ok_def tree_config_def flag_def)
        moreover have "synced (hn_stateStack h') (hn_ctx h')"
          using effect_synced [OF s, of tk x sts' c'] Some y h'(2) by (simp add: like_def)
        moreover have "P r" by (rule left_over [OF less.prems(4) Token])
        ultimately show ?thesis unfolding loop run using less.hyps [of h'] by simp
      qed
      qed
    qed
  qed
qed

end

section \<open>A text, and its end\<close>

lemma failed_with_lexer [simp]: "failed h \<Longrightarrow> failed (with_lexer h)"
  by (auto simp: with_lexer_def failed_def)

lemma with_lexer_same [simp]: "hn_lexer h \<noteq> None \<Longrightarrow> with_lexer h = h"
  by (simp add: with_lexer_def)

lemma failed_consumed [simp]: "failed (h\<lparr> hn_bytesConsumed := n \<rparr>) = failed h"
  by (simp add: failed_def)

lemma tree_config_consumed [simp]: "tree_config (h\<lparr> hn_bytesConsumed := n \<rparr>) = tree_config h"
  by (simp add: tree_config_def flag_def)

lemma excerpt_fits: "error_excerpt js offset \<noteq> None"
  by (simp add: error_excerpt_def Let_def) arith

lemma error_is_reported: "failed h \<Longrightarrow> \<exists>e. igsyajl_get_error h verbose js = Some e"
  using excerpt_fits [of js "hn_bytesConsumed h"]
  by (auto simp: failed_def igsyajl_get_error_def igsyajl_render_error_string_def bs_current_def Let_def)

lemma complete_failed:
  assumes "failed h"
  shows "\<exists>h'. igsyajl_complete_parse h = Some (status_error, h') \<and> failed h'"
  using assms loop_failed [of "(with_lexer h)\<lparr> hn_bytesConsumed := 0 \<rparr>" "'' ''"]
  by (auto simp: igsyajl_complete_parse_def igsyajl_do_finish_def igsyajl_do_parse_def)

lemma complete_accepted:
  assumes "tree_config h" and "hn_stateStack h = state_parse_complete # sts" and "hn_lexer h \<noteq> None"
  shows "igsyajl_complete_parse h = Some (status_ok, h\<lparr> hn_bytesConsumed := 0 \<rparr>)"
  using assms loop_complete [of "h\<lparr> hn_bytesConsumed := 0 \<rparr>" sts "'' ''"]
  by (simp add: igsyajl_complete_parse_def igsyajl_do_finish_def igsyajl_do_parse_def bs_current_def)

context decodable begin

lemma complete_paused:
  assumes h: "tree_config h" "hn_lexer h = Some lx" "tree_flags lx" "lexer_ready lx"
    and s: "synced (hn_stateStack h) (hn_ctx h)" and p: "P (pending lx @ '' '')"
  shows "case tree_run (hn_stateStack h) (hn_ctx h) (pending lx @ '' '') of
      Accepted c \<Rightarrow> \<exists>h'. igsyajl_complete_parse h = Some (status_ok, h') \<and> hn_ctx h' = c
    | Stuck \<Rightarrow> igsyajl_complete_parse h = None
    | _ \<Rightarrow> \<exists>h'. igsyajl_complete_parse h = Some (status_error, h') \<and> failed h'"
proof -
  let ?h = "h\<lparr> hn_bytesConsumed := 0 \<rparr>"
  have r: "rest_of '' '' ?h = pending lx @ '' ''" using h by (simp add: rest_of_def)
  have "lexer_ok '' '' ?h" using h by (simp add: lexer_ok_def chunk_ok_def)
  with loop_runs [of "'' ''" ?h] h s p r
  have run: "case tree_run (hn_stateStack h) (hn_ctx h) (pending lx @ '' '') of
      Accepted c \<Rightarrow> \<exists>h' sts. parse_loop '' '' ?h = Some (status_ok, h') \<and> hn_ctx h' = c \<and> tree_config h'
          \<and> hn_stateStack h' = state_parse_complete # sts \<and> hn_lexer h' \<noteq> None
    | Rejected \<Rightarrow> \<exists>h'. parse_loop '' '' ?h = Some (status_error, h') \<and> failed h'
    | Stuck \<Rightarrow> parse_loop '' '' ?h = None
    | Paused sts c u \<Rightarrow> \<exists>h' lx. parse_loop '' '' ?h = Some (status_ok, h') \<and> hn_ctx h' = c \<and> tree_config h'
          \<and> hn_stateStack h' = sts \<and> synced sts c \<and> hn_lexer h' = Some lx \<and> tree_flags lx
          \<and> lexer_ready lx \<and> pending lx = u \<and> P (u @ '' '')"
    by simp
  have c: "igsyajl_complete_parse h = igsyajl_do_finish h" using h by (simp add: igsyajl_complete_parse_def)
  show ?thesis
  proof (cases "tree_run (hn_stateStack h) (hn_ctx h) (pending lx @ '' '')")
    case (Accepted c')
    with run c show ?thesis by (auto simp: igsyajl_do_finish_def igsyajl_do_parse_def bs_current_def)
  next
    case Rejected
    with run c show ?thesis by (auto simp: igsyajl_do_finish_def igsyajl_do_parse_def)
  next
    case Stuck
    with run c show ?thesis by (auto simp: igsyajl_do_finish_def igsyajl_do_parse_def)
  next
    case (Paused sts c' u)
    with run obtain h' where h': "parse_loop '' '' ?h = Some (status_ok, h')" "tree_config h'" "hn_stateStack h' = sts"
      "synced sts c'" by auto
    obtain st ts where st: "sts = st # ts" "st \<noteq> state_parse_complete" using tree_run_paused [OF Paused] by auto
    with h'(4) synced_alive [of st ts c'] have "st \<notin> error_states" "st \<noteq> state_got_value" by auto
    with h' st c Paused show ?thesis
      by (simp add: igsyajl_do_finish_def igsyajl_do_parse_def bs_current_def tree_config_def error_states_def)
  qed
qed

theorem tree_parse: "P input \<Longrightarrow> map_option fst (igsyajl_tree_parse input eb) = tree_of_text input"
proof -
  assume p: "P input"
  let ?h = "(with_lexer (tree_handle eb))\<lparr> hn_bytesConsumed := 0 \<rparr>"
  have flags: "hn_flags (tree_handle eb) = 5"
    by (simp add: tree_handle_def igsyajl_config_def igsyajl_alloc_def igsyajl_allow_comments_def
        igsyajl_allow_trailing_garbage_def igsyajl_dont_validate_strings_def)
  have h: "hn_lexer (tree_handle eb) = None" "hn_stateStack ?h = [state_start]" "hn_ctx ?h = empty_tree eb"
    "hn_callbacks ?h = Some tree_callbacks"
    by (simp_all add: tree_handle_def igsyajl_config_def igsyajl_alloc_def with_lexer_def empty_tree_def)
  have cfg: "tree_config ?h"
    using h flags by (simp add: tree_config_def flag_def with_lexer_def igsyajl_allow_trailing_garbage_def
        igsyajl_allow_multiple_values_def igsyajl_allow_partial_values_def)
  have lx: "lexer_ok input ?h" "rest_of input ?h = input"
    using h flags by (simp_all add: with_lexer_def lexer_ok_def rest_of_def chunk_ok_def lexer_ready_def pending_def
        igsyajl_lex_alloc_def tree_flags_def flag_def igsyajl_allow_comments_def igsyajl_dont_validate_strings_def)
  have start: "igsyajl_parse input (tree_handle eb) = parse_loop input ?h"
    by (simp add: igsyajl_parse_def igsyajl_do_parse_def)
  have buf: "empty_tree eb = with_buf (empty_tree eb) (empty_tree None)"
    by (simp add: empty_tree_def with_buf_def)
  have tree: "tree_of_text input = tree_of_result (tree_run [state_start] (empty_tree eb) (input @ '' ''))"
    unfolding tree_of_text_def tree_of_result_def
    by (subst buf, subst tree_run_buf) (simp split: tree_result.split)
  have err: "map_option fst (igsyajl_tree_parse input eb) = Some None"
    if "igsyajl_parse input (tree_handle eb) = Some (s, h1)" "igsyajl_complete_parse h1 = Some (status_error, h2)" "failed h2"
    for s h1 h2
    using that error_is_reported [of h2 True input]
    by (auto simp: igsyajl_tree_parse_def split: option.split)
  have run: "case tree_run [state_start] (empty_tree eb) input of
      Accepted c \<Rightarrow> \<exists>h' sts. parse_loop input ?h = Some (status_ok, h') \<and> hn_ctx h' = c \<and> tree_config h'
          \<and> hn_stateStack h' = state_parse_complete # sts \<and> hn_lexer h' \<noteq> None
    | Rejected \<Rightarrow> \<exists>h'. parse_loop input ?h = Some (status_error, h') \<and> failed h'
    | Stuck \<Rightarrow> parse_loop input ?h = None
    | Paused sts c u \<Rightarrow> \<exists>h' lx. parse_loop input ?h = Some (status_ok, h') \<and> hn_ctx h' = c \<and> tree_config h'
          \<and> hn_stateStack h' = sts \<and> synced sts c \<and> hn_lexer h' = Some lx \<and> tree_flags lx
          \<and> lexer_ready lx \<and> pending lx = u \<and> P (u @ '' '')"
    using loop_runs [OF lx(1) cfg] empty_synced p unfolding lx(2) h(2,3) by blast
  note split = tree_run_append [of "[state_start]" "empty_tree eb" input "'' ''"]
  show ?thesis
  proof (cases "tree_run [state_start] (empty_tree eb) input")
    case (Accepted c)
    with run obtain h' sts where h': "parse_loop input ?h = Some (status_ok, h')" "hn_ctx h' = c" "tree_config h'"
      "hn_stateStack h' = state_parse_complete # sts" "hn_lexer h' \<noteq> None" by auto
    show ?thesis
      using complete_accepted [OF h'(3-5)] h'(1,2) start tree split Accepted
      by (simp add: igsyajl_tree_parse_def tree_of_result_def)
  next
    case Rejected
    with run obtain h' where h': "parse_loop input ?h = Some (status_error, h')" "failed h'" by auto
    with complete_failed [OF h'(2)] err start have "map_option fst (igsyajl_tree_parse input eb) = Some None" by auto
    with tree split Rejected show ?thesis by (simp add: tree_of_result_def)
  next
    case Stuck
    with run start tree split show ?thesis by (simp add: tree_of_result_def igsyajl_tree_parse_def)
  next
    case first: (Paused sts c u)
    with run obtain h' lx where h': "parse_loop input ?h = Some (status_ok, h')" "hn_ctx h' = c" "tree_config h'"
      "hn_stateStack h' = sts" "synced sts c" "hn_lexer h' = Some lx" "tree_flags lx" "lexer_ready lx" "pending lx = u"
      "P (u @ '' '')" by auto
    with complete_paused [of h' lx] have fin: "case tree_run sts c (u @ '' '') of
        Accepted c \<Rightarrow> \<exists>h2. igsyajl_complete_parse h' = Some (status_ok, h2) \<and> hn_ctx h2 = c
      | Stuck \<Rightarrow> igsyajl_complete_parse h' = None
      | _ \<Rightarrow> \<exists>h2. igsyajl_complete_parse h' = Some (status_error, h2) \<and> failed h2" by simp
    show ?thesis
    proof (cases "tree_run sts c (u @ '' '')")
      case (Accepted c')
      with fin obtain h2 where "igsyajl_complete_parse h' = Some (status_ok, h2)" "hn_ctx h2 = c'" by auto
      with Accepted first h'(1) start tree split show ?thesis by (simp add: igsyajl_tree_parse_def tree_of_result_def)
    next
      case Stuck
      with fin have "igsyajl_complete_parse h' = None" by simp
      with Stuck first h'(1) start tree split show ?thesis by (simp add: igsyajl_tree_parse_def tree_of_result_def)
    next
      case Rejected
      with fin obtain h2 where "igsyajl_complete_parse h' = Some (status_error, h2)" "failed h2" by auto
      with err h'(1) start have "map_option fst (igsyajl_tree_parse input eb) = Some None" by auto
      with Rejected first tree split show ?thesis by (simp add: tree_of_result_def)
    next
      case (Paused sts' c' u')
      with fin obtain h2 where "igsyajl_complete_parse h' = Some (status_error, h2)" "failed h2" by auto
      with err h'(1) start have "map_option fst (igsyajl_tree_parse input eb) = Some None" by auto
      with Paused first tree split show ?thesis by (simp add: tree_of_result_def)
    qed
  qed
qed

end

end
