(* ===== verification/Yajl_Text.thy ===== *)
theory Yajl_Text
  imports Yajl_Parser_Laws
begin

text \<open>
  Texts that the parser can decode: every escape of a high surrogate is followed
  by another escape of four digits. For such a text the parser always answers, and
  its answer is the reference parser's; the interface \<open>decodable\<close> is shown here.
\<close>

section \<open>Surrogates in pairs\<close>

definition unicode_escape :: "string \<Rightarrow> bool" where
  "unicode_escape s \<longleftrightarrow> 6 \<le> length s \<and> take 2 s = [CHR 0x5C, CHR ''u''] \<and> list_all (char_is VHC) (take 4 (drop 2 s))"

definition high_surrogate :: "string \<Rightarrow> bool" where
  "high_surrogate s \<longleftrightarrow> 4 \<le> length s \<and> take 2 s = [CHR 0x5C, CHR ''u''] \<and> s ! 2 \<in> {CHR ''d'', CHR ''D''}
     \<and> s ! 3 \<in> {CHR ''8'', CHR ''9'', CHR ''a'', CHR ''b'', CHR ''A'', CHR ''B''}"

text \<open>The flag: the first character is escaped, by a backslash in front of it.\<close>

fun pairs_from :: "bool \<Rightarrow> string \<Rightarrow> bool" where
  "pairs_from esc [] \<longleftrightarrow> True"
| "pairs_from esc (c # s) \<longleftrightarrow>
     (\<not> esc \<and> high_surrogate (c # s) \<longrightarrow> unicode_escape (drop 5 s)) \<and> pairs_from (c = CHR 0x5C \<and> \<not> esc) s"

definition pairs_ok :: "string \<Rightarrow> bool" where
  "pairs_ok s \<longleftrightarrow> pairs_from False s"

lemma pairs_suffix: "pairs_from esc (a @ t) \<Longrightarrow> a \<noteq> [] \<Longrightarrow> last a \<noteq> CHR 0x5C \<Longrightarrow> pairs_from False t"
proof (induction a arbitrary: esc)
  case (Cons c a)
  from Cons.prems(1) have s: "pairs_from (c = CHR 0x5C \<and> \<not> esc) (a @ t)" by simp
  show ?case
  proof (cases "a = []")
    case True
    with s Cons.prems(3) show ?thesis by simp
  next
    case False
    with Cons.IH [OF s] Cons.prems(3) show ?thesis by simp
  qed
qed simp

lemma pairs_ok_suffix: "pairs_ok (a @ t) \<Longrightarrow> a = [] \<or> last a \<noteq> CHR 0x5C \<Longrightarrow> pairs_ok t"
  using pairs_suffix [of False a t] by (cases "a = []") (auto simp: pairs_ok_def)

lemma surrogate_before_blank: "high_surrogate (s @ '' '') \<Longrightarrow> high_surrogate s"
proof -
  assume h: "high_surrogate (s @ '' '')"
  have "4 \<le> length s"
  proof (rule ccontr)
    assume "\<not> 4 \<le> length s"
    with h have "length s = 3" by (simp add: high_surrogate_def)
    with h show False by (simp add: high_surrogate_def nth_append)
  qed
  with h show ?thesis by (simp add: high_surrogate_def nth_append)
qed

lemma pairs_from_blank: "pairs_from esc s \<Longrightarrow> pairs_from esc (s @ '' '')"
proof (induction s arbitrary: esc)
  case (Cons c s)
  have "unicode_escape (drop 5 (s @ '' ''))" if "\<not> esc" "high_surrogate (c # s @ '' '')"
    using surrogate_before_blank [of "c # s"] that Cons.prems by (auto simp: unicode_escape_def)
  with Cons show ?case by simp
qed (simp add: high_surrogate_def)

lemma pairs_ok_blank: "pairs_ok s \<Longrightarrow> pairs_ok (s @ '' '')"
  by (simp add: pairs_ok_def pairs_from_blank)

section \<open>Escapes that can be decoded\<close>

definition digit_of_hex :: "char \<Rightarrow> nat" where
  "digit_of_hex c = (let n = of_char c :: nat in if n \<le> 57 then n - 48 else if n \<le> 70 then n - 55 else n - 87)"

lemma hex_chars: "char_is VHC c \<Longrightarrow> c \<in> set ''0123456789abcdefABCDEF''"
proof -
  assume "char_is VHC c"
  then have "(of_char c :: nat) \<in> set ([48..<58] @ [97..<103] @ [65..<71])"
    unfolding set_append set_upt Un_iff atLeastLessThan_iff char_is_VHC by linarith
  then have "char_of (of_char c :: nat) \<in> set (map char_of ([48..<58] @ [97..<103] @ [65..<71 :: nat]))"
    unfolding set_map by (rule imageI)
  moreover have "map char_of ([48..<58] @ [97..<103] @ [65..<71 :: nat]) = ''0123456789abcdefABCDEF''" by code_simp
  ultimately show ?thesis by (simp only: char_of_char)
qed

lemma hex_digit_value:
  assumes "char_is VHC c"
  shows "hexToDigit1 c = Some (of_nat (digit_of_hex c))" and "digit_of_hex c < 16"
    and "digit_of_hex c = 13 \<Longrightarrow> c \<in> {CHR ''d'', CHR ''D''}"
    and "8 \<le> digit_of_hex c \<Longrightarrow> digit_of_hex c \<le> 11 \<Longrightarrow>
      c \<in> {CHR ''8'', CHR ''9'', CHR ''a'', CHR ''b'', CHR ''A'', CHR ''B''}"
proof -
  have "list_all (\<lambda>c. hexToDigit1 c = Some (of_nat (digit_of_hex c)) \<and> digit_of_hex c < 16
      \<and> (digit_of_hex c = 13 \<longrightarrow> c \<in> {CHR ''d'', CHR ''D''})
      \<and> (8 \<le> digit_of_hex c \<and> digit_of_hex c \<le> 11 \<longrightarrow>
          c \<in> {CHR ''8'', CHR ''9'', CHR ''a'', CHR ''b'', CHR ''A'', CHR ''B''})) ''0123456789abcdefABCDEF''"
    by code_simp
  with hex_chars [OF assms] show "hexToDigit1 c = Some (of_nat (digit_of_hex c))" "digit_of_hex c < 16"
    "digit_of_hex c = 13 \<Longrightarrow> c \<in> {CHR ''d'', CHR ''D''}"
    "8 \<le> digit_of_hex c \<Longrightarrow> digit_of_hex c \<le> 11 \<Longrightarrow>
      c \<in> {CHR ''8'', CHR ''9'', CHR ''a'', CHR ''b'', CHR ''A'', CHR ''B''}"
    unfolding list_all_iff by blast+
qed

lemma surrogate_bits:
  assumes "u < 16" "v < 16" "x < 16" "y < 16"
    and "(push_bit 8 (push_bit 4 (of_nat u) OR of_nat v) OR (push_bit 4 (of_nat x) OR of_nat y) :: 32 word) AND 0xFC00 = 0xD800"
  shows "u = 13 \<and> 8 \<le> v \<and> v \<le> 11"
proof -
  have low: "\<forall>x \<in> set [0..<16]. \<forall>y \<in> set [0..<16]. (push_bit 4 (of_nat x) OR of_nat y :: 32 word) AND 0xFC00 = 0"
    by code_simp
  have high: "\<forall>u \<in> set [0..<16]. \<forall>v \<in> set [0..<16].
      (push_bit 8 (push_bit 4 (of_nat u) OR of_nat v) :: 32 word) AND 0xFC00 = 0xD800 \<longrightarrow> u = 13 \<and> 8 \<le> v \<and> v \<le> 11"
    by code_simp
  have "(push_bit 4 (of_nat x) OR of_nat y :: 32 word) AND 0xFC00 = 0"
    using bspec [OF bspec [OF low, of x], of y] assms(3,4) by (simp only: set_upt atLeastLessThan_iff le0 simp_thms)
  moreover have "(push_bit 8 (push_bit 4 (of_nat u) OR of_nat v) :: 32 word) AND 0xFC00 = 0xD800 \<Longrightarrow> ?thesis"
    using bspec [OF bspec [OF high, of u], of v] assms(1,2) by (simp only: set_upt atLeastLessThan_iff le0 simp_thms)
  ultimately show ?thesis using assms(5) by (simp add: bit.conj_disj_distrib2)
qed

lemma hexToDigit_ok:
  assumes "char_is VHC a" "char_is VHC b" "char_is VHC c" "char_is VHC d"
  shows "\<exists>w. (\<forall>s. hexToDigit (a # b # c # d # s) = Some w) \<and>
     (w AND 0xFC00 = 0xD800 \<longrightarrow> (\<forall>s. high_surrogate (CHR 0x5C # CHR ''u'' # a # b # c # d # s)))"
proof -
  have u: "ucast (of_nat k :: 8 word) = (of_nat k :: 32 word)" if "k < 16" for k
    using that by (simp add: unsigned_of_nat take_bit_nat_eq_self)
  let ?w = "push_bit 8 (push_bit 4 (of_nat (digit_of_hex a)) OR of_nat (digit_of_hex b))
      OR (push_bit 4 (of_nat (digit_of_hex c)) OR of_nat (digit_of_hex d)) :: 32 word"
  have four: "(4 :: nat) = Suc (Suc (Suc (Suc 0)))" by simp
  have "hexToDigit_loop (Suc (Suc (Suc (Suc 0)))) 0 (a # b # c # d # s) = Some ?w" for s
    by (simp add: hex_digit_value(1) [OF assms(1)] hex_digit_value(1) [OF assms(2)] hex_digit_value(1) [OF assms(3)]
        hex_digit_value(1) [OF assms(4)] u hex_digit_value(2) assms push_bit_or or.assoc)
  then have "hexToDigit (a # b # c # d # s) = Some ?w" for s unfolding hexToDigit_def four .
  moreover have "high_surrogate (CHR 0x5C # CHR ''u'' # a # b # c # d # s)" if "?w AND 0xFC00 = 0xD800" for s
    using surrogate_bits [OF _ _ _ _ that] hex_digit_value(2) assms
      hex_digit_value(3) [OF assms(1)] hex_digit_value(4) [OF assms(2)]
    by (simp add: high_surrogate_def numeral_2_eq_2 numeral_3_eq_3)
  ultimately show ?thesis by blast
qed

section \<open>Bodies of strings\<close>

lemma decode_plains:
  "\<forall>c \<in> set s. c \<noteq> CHR 0x5C \<Longrightarrow> decode_list [] [] (s @ t) = map_option ((@) s) (decode_list [] [] t)"
proof (induction s)
  case Nil
  show ?case by (cases "decode_list [] [] t") simp_all
next
  case (Cons c s)
  then show ?case by (cases "decode_list [] [] t") (simp_all add: decode_plain del: decode_list.simps)
qed

lemma scan_conts_taken: "scan_conts n s = Done x r \<Longrightarrow> \<exists>p. s = p @ r \<and> list_all is_cont p \<and> length p = n"
proof (induction n arbitrary: s)
  case (Suc n)
  then obtain c t where s: "s = c # t" and c: "is_cont c" and t: "scan_conts n t = Done x r"
    by (cases s) (auto split: if_splits)
  from Suc.IH [OF t] obtain p where "t = p @ r" "list_all is_cont p" "length p = n" by blast
  with s c have "s = (c # p) @ r \<and> list_all is_cont (c # p) \<and> length (c # p) = Suc n" by simp
  then show ?case by blast
qed simp

lemma scan_hex_taken: "scan_hex n s = Done x r \<Longrightarrow> \<exists>p. s = p @ r \<and> list_all (char_is VHC) p \<and> length p = n"
proof (induction n arbitrary: s)
  case (Suc n)
  then obtain c t where s: "s = c # t" and c: "char_is VHC c" and t: "scan_hex n t = Done x r"
    by (cases s) (auto split: if_splits)
  from Suc.IH [OF t] obtain p where "t = p @ r" "list_all (char_is VHC) p" "length p = n" by blast
  with s c have "s = (c # p) @ r \<and> list_all (char_is VHC) (c # p) \<and> length (c # p) = Suc n" by simp
  then show ?case by blast
qed simp

lemma scan_hex_all: "list_all (char_is VHC) p \<Longrightarrow> scan_hex (length p) (p @ r) = Done () r"
  by (induction p) simp_all

lemma cont_not_escape: "is_cont c \<Longrightarrow> c \<noteq> CHR 0x5C"
  by (auto simp: is_cont_def)

lemma scan_inside_taken:
  assumes "scan_inside utf8 c s = Done x r"
  obtains p where "s = p @ r" and "list_all is_cont p" and "utf8 \<Longrightarrow> lead_len c = Some (length p)" and "\<not> char_is IJC c"
proof (cases utf8)
  case True
  with assms obtain n where "lead_len c = Some n" "scan_conts n s = Done x r" "\<not> char_is IJC c"
    by (auto simp: scan_inside_def split: if_splits option.splits)
  then show ?thesis using scan_conts_taken [of n s x r] that by blast
next
  case False
  with assms that [of "[]"] show ?thesis by (simp add: scan_inside_def split: if_splits)
qed

lemma four_chars: "length p = 4 \<Longrightarrow> \<exists>a b c d. p = [a, b, c, d]"
  by (auto simp: numeral_eq_Suc length_Suc_conv)

lemma escape_cases:
  assumes p: "list_all (char_is VHC) p" "length p = 4"
    and ok: "high_surrogate (CHR 0x5C # CHR ''u'' # p @ u) \<Longrightarrow> unicode_escape u"
  obtains t where "igsyajl_string_validate_utf8 t" "\<And>s. decode_u (p @ s) = Some (t, s)"
  | p' u' t where "igsyajl_string_validate_utf8 t" "u = CHR 0x5C # CHR ''u'' # p' @ u'" "list_all (char_is VHC) p'" "length p' = 4"
      "\<And>s. decode_u (p @ CHR 0x5C # CHR ''u'' # p' @ s) = Some (t, s)"
proof -
  obtain a b c d where abcd: "p = [a, b, c, d]" using four_chars [OF p(2)] by blast
  obtain w where w: "\<And>s. hexToDigit (p @ s) = Some w"
    and h: "w AND 0xFC00 = 0xD800 \<Longrightarrow> high_surrogate (CHR 0x5C # CHR ''u'' # p @ u)"
    using hexToDigit_ok [of a b c d] p(1) by (auto simp: abcd)
  show thesis
  proof (cases "w AND 0xFC00 = 0xD800")
    case False
    with w that(1) [of "Utf32toUtf8 w"] abcd validate_utf32 show thesis by (simp add: decode_u_def)
  next
    case True
    with ok h have u: "unicode_escape u" by blast
    define p' where "p' = take 4 (drop 2 u)"
    have u: "u = CHR 0x5C # CHR ''u'' # p' @ drop 6 u" "list_all (char_is VHC) p'" "length p' = 4"
    proof -
      have "u = take 2 u @ take 4 (drop 2 u) @ drop 6 u"
        using append_take_drop_id [of 2 u] append_take_drop_id [of 4 "drop 2 u"] by simp
      with u show "u = CHR 0x5C # CHR ''u'' # p' @ drop 6 u" by (simp add: unicode_escape_def p'_def)
      from u have six: "6 \<le> length u" by (simp add: unicode_escape_def)
      from u show "list_all (char_is VHC) p'" by (simp add: unicode_escape_def p'_def)
      from six show "length p' = 4" unfolding p'_def by (simp add: min_def) arith
    qed
    obtain e f g h where efgh: "p' = [e, f, g, h]" using four_chars [OF u(3)] by blast
    obtain w' where "\<And>s. hexToDigit (p' @ s) = Some w'"
      using hexToDigit_ok [of e f g h] u(2) by (auto simp: efgh)
    with w True abcd efgh that(2) [OF validate_utf32 u] show thesis by (simp add: decode_u_def Let_def)
  qed
qed

lemma vec_decodes: "char_is VEC c \<Longrightarrow> \<exists>d. unescaped1 c = Some d \<and> igsyajl_string_validate_utf8 [d]"
proof -
  assume "char_is VEC c"
  then have "char_of (of_char c :: nat) \<in> set (map char_of [34, 47, 92, 98, 102, 110, 114, 116 :: nat])"
    by (auto simp only: char_is_VEC set_map list.set intro: imageI)
  moreover have "map char_of [34, 47, 92, 98, 102, 110, 114, 116 :: nat]
      = [CHR 0x22, CHR ''/'', CHR 0x5C, CHR ''b'', CHR ''f'', CHR ''n'', CHR ''r'', CHR ''t'']" by code_simp
  ultimately have "c \<in> set [CHR 0x22, CHR ''/'', CHR 0x5C, CHR ''b'', CHR ''f'', CHR ''n'', CHR ''r'', CHR ''t'']"
    by (simp only: char_of_char)
  then show ?thesis by (auto simp: unescaped1_def lead_len_def)
qed

lemma scan_string_escape: "scan_string utf8 esc (CHR 0x5C # t) = scan_then (scan_escape t) (\<lambda>_ u. scan_string utf8 True u)"
  by (subst scan_string.simps) simp

lemma scan_escape_u: "scan_escape (CHR ''u'' # t) = scan_hex 4 t"
  by (simp add: scan_escape_def)

lemma decode_unicode:
  "decode_u q = Some (t, x) \<Longrightarrow> decode_list [] [] (CHR 0x5C # CHR ''u'' # q) = map_option ((@) t) (decode_list [] [] x)"
  using decode_loop_acc [of t "[]" x] by simp

text \<open>
  One step of the scan of a body: \<open>a\<close> is taken, it stands for the text \<open>y\<close>, and \<open>u\<close>
  is left.
\<close>

definition body_step :: "bool \<Rightarrow> igsyajl_tok \<Rightarrow> string \<Rightarrow> string \<Rightarrow> bool" where
  "body_step esc tok r s \<longleftrightarrow>
     (\<exists>a u esc' y. s = a @ u \<and> a \<noteq> [] \<and> scan_string True esc' u = Done tok r \<and> pairs_ok u
        \<and> (\<forall>x. decode_list [] [] (a @ x) = map_option ((@) y) (decode_list [] [] x))
        \<and> igsyajl_string_validate_utf8 y \<and> (\<not> esc' \<longrightarrow> \<not> esc \<and> y = a))"

lemma body_step_escape:
  assumes run: "scan_string True esc (CHR 0x5C # t) = Done tok r" and ok: "pairs_ok (CHR 0x5C # t)"
  shows "body_step esc tok r (CHR 0x5C # t)"
proof -
  obtain u where u: "scan_escape t = Done () u" "scan_string True True u = Done tok r"
    using run by (auto simp: scan_string_escape scan_then_Done)
  show ?thesis
  proof (cases "\<exists>t'. t = CHR ''u'' # t'")
    case False
    with u(1) obtain e where e: "t = e # u" "char_is VEC e" "e \<noteq> CHR ''u''"
      by (cases t) (auto simp: scan_escape_def split: if_splits)
    from e(2) vec_decodes obtain d where d: "unescaped1 e = Some d" "igsyajl_string_validate_utf8 [d]" by blast
    then have "decode_list [] [] ([CHR 0x5C, e] @ x) = map_option ((@) [d]) (decode_list [] [] x)" for x
      using e(3) decode_short [of e d x] by (cases "decode_list [] [] x") (simp_all del: decode_list.simps)
    moreover have "pairs_ok u" using ok e(1) by (auto simp: pairs_ok_def)
    moreover have "CHR 0x5C # t = [CHR 0x5C, e] @ u" using e(1) by simp
    ultimately show ?thesis using u(2) d(2) unfolding body_step_def by blast
  next
    case True
    then obtain t' where t': "t = CHR ''u'' # t'" by blast
    with u(1) obtain p where p: "t' = p @ u" "list_all (char_is VHC) p" "length p = 4"
      using scan_hex_taken [of 4 t' "()" u] by (auto simp: scan_escape_u)
    have sur: "unicode_escape u" if "high_surrogate (CHR 0x5C # CHR ''u'' # p @ u)"
      using ok that p t' by (simp add: pairs_ok_def)
    have after: "last q \<noteq> CHR 0x5C" if "list_all (char_is VHC) q" "length q = 4" for q
      using four_chars [OF that(2)] that(1) by (auto simp: char_is_VHC)
    consider d where "igsyajl_string_validate_utf8 d" "\<And>x. decode_u (p @ x) = Some (d, x)"
      | p' u' d where "igsyajl_string_validate_utf8 d" "u = CHR 0x5C # CHR ''u'' # p' @ u'" "list_all (char_is VHC) p'" "length p' = 4"
          "\<And>x. decode_u (p @ CHR 0x5C # CHR ''u'' # p' @ x) = Some (d, x)"
      using escape_cases [OF p(2,3), of u] sur by metis
    then show ?thesis
    proof cases
      case (1 d)
      let ?a = "CHR 0x5C # CHR ''u'' # p"
      have s: "CHR 0x5C # t = ?a @ u" using t' p(1) by simp
      have "pairs_ok u" using pairs_ok_suffix [of ?a u] after [OF p(2,3)] ok s p by auto
      moreover have "\<forall>x. decode_list [] [] (?a @ x) = map_option ((@) d) (decode_list [] [] x)"
        using decode_unicode [OF 1(2)] by simp
      ultimately show ?thesis using s u(2) 1(1) unfolding body_step_def by blast
    next
      case (2 p' u' d)
      let ?a = "CHR 0x5C # CHR ''u'' # p @ CHR 0x5C # CHR ''u'' # p'"
      have s: "CHR 0x5C # t = ?a @ u'" using t' p(1) 2(2) by simp
      have "scan_string True True u' = Done tok r"
        using u(2) scan_hex_all [OF 2(3), of u'] 2(2,4) by (simp add: scan_string_escape scan_escape_u)
      moreover have "pairs_ok u'" using pairs_ok_suffix [of ?a u'] after [OF 2(3,4)] ok s 2(4) by auto
      moreover have "\<forall>x. decode_list [] [] (?a @ x) = map_option ((@) d) (decode_list [] [] x)"
        using decode_unicode [OF 2(5)] by simp
      ultimately show ?thesis using s 2(1) unfolding body_step_def by blast
    qed
  qed
qed

lemma conts_all: "list_all is_cont p \<Longrightarrow> conts (length p) (p @ r) = Some r"
  by (induction p) simp_all

lemma body_step_plain:
  assumes run: "scan_string True esc (c # t) = Done tok r" and ok: "pairs_ok (c # t)"
    and c: "c \<noteq> CHR 0x22" "c \<noteq> CHR 0x5C"
  shows "body_step esc tok r (c # t)"
proof -
  obtain u where u: "scan_inside True c t = Done () u" "scan_string True esc u = Done tok r"
    using run c by (subst (asm) scan_string.simps) (auto simp: scan_then_Done)
  obtain p where p: "t = p @ u" "list_all is_cont p" "lead_len c = Some (length p)"
    using scan_inside_taken [OF u(1)] by metis
  have pl: "\<forall>x \<in> set (c # p). x \<noteq> CHR 0x5C"
    using c p(2) cont_not_escape by (auto simp: list_all_iff)
  have "pairs_ok u" using pairs_ok_suffix [of "c # p" u] ok p(1) pl by auto
  moreover have "igsyajl_string_validate_utf8 (c # p)" using p conts_all [OF p(2), of "[]"] by simp
  moreover have "\<forall>x. decode_list [] [] ((c # p) @ x) = map_option ((@) (c # p)) (decode_list [] [] x)"
    using decode_plains [OF pl] by blast
  moreover have "c # t = (c # p) @ u" using p(1) by simp
  ultimately show ?thesis using u(2) unfolding body_step_def by blast
qed

lemma string_body:
  "scan_string True esc s = Done tok r \<Longrightarrow> pairs_ok s \<Longrightarrow>
     \<exists>body t. s = body @ CHR 0x22 # r \<and> decode_list [] [] body = Some t \<and> igsyajl_string_validate_utf8 t
       \<and> (tok = tok_string \<longrightarrow> \<not> esc \<and> t = body)"
proof (induction "length s" arbitrary: s esc rule: less_induct)
  case less
  from less.prems(1) obtain c t where s: "s = c # t" by (cases s) (simp_all add: scan_string.simps)
  show ?case
  proof (cases "c = CHR 0x22")
    case True
    with less.prems(1) s have "s = [] @ CHR 0x22 # r" "tok = tok_string \<longrightarrow> \<not> esc"
      by (auto simp: scan_string.simps split: if_splits)
    moreover have "decode_list [] [] [] = Some []" by simp
    ultimately show ?thesis using igsyajl_string_validate_utf8.simps(1) by blast
  next
    case False
    with less.prems s body_step_escape [of esc t tok r] body_step_plain [of esc c t tok r]
    have "body_step esc tok r s" by (cases "c = CHR 0x5C") auto
    then obtain a u esc' y where a: "s = a @ u" "a \<noteq> []" "scan_string True esc' u = Done tok r" "pairs_ok u"
      "\<And>x. decode_list [] [] (a @ x) = map_option ((@) y) (decode_list [] [] x)"
      "igsyajl_string_validate_utf8 y" "\<not> esc' \<Longrightarrow> \<not> esc \<and> y = a"
      unfolding body_step_def by blast
    from a(1,2) have "length u < length s" by simp
    from less.hyps [OF this a(3,4)] obtain b x where b: "u = b @ CHR 0x22 # r" "decode_list [] [] b = Some x"
      "igsyajl_string_validate_utf8 x" "tok = tok_string \<longrightarrow> \<not> esc' \<and> x = b" by blast
    have "s = (a @ b) @ CHR 0x22 # r" "decode_list [] [] (a @ b) = Some (y @ x)" "igsyajl_string_validate_utf8 (y @ x)"
      using a b by (simp_all add: validate_append)
    moreover have "tok = tok_string \<longrightarrow> \<not> esc \<and> y @ x = a @ b" using a(7) b(4) by auto
    ultimately show ?thesis by blast
  qed
qed

section \<open>What is left of a text\<close>

text \<open>A scan takes a text whose last character is no backslash, and leaves the rest.\<close>

definition tidy :: "string \<Rightarrow> string \<Rightarrow> bool" where
  "tidy s r \<longleftrightarrow> (\<exists>a. s = a @ r \<and> (a = [] \<or> last a \<noteq> CHR 0x5C))"

definition takes :: "string \<Rightarrow> 'a scan \<Rightarrow> bool" where
  "takes s m \<longleftrightarrow> (\<forall>x r. m = Done x r \<longrightarrow> tidy s r)"

lemma tidy_self [simp]: "tidy s s"
  by (simp add: tidy_def)

lemma tidy_trans: "tidy s r \<Longrightarrow> tidy r u \<Longrightarrow> tidy s u"
  unfolding tidy_def by (metis append.assoc append_is_Nil_conv last_append)

lemma tidy_Cons: "tidy r u \<Longrightarrow> c \<noteq> CHR 0x5C \<Longrightarrow> tidy (c # r) u"
  by (rule tidy_trans [of _ r]) (auto simp: tidy_def intro: exI [of _ "[c]"])

lemma tidy_after: "c \<noteq> CHR 0x5C \<Longrightarrow> tidy (a @ c # r) r"
  unfolding tidy_def by (rule exI [of _ "a @ [c]"]) simp

lemma takes_simps [simp]: "takes s Eof" "takes s (Bad e)" "takes s (Done x r) \<longleftrightarrow> tidy s r"
  by (simp_all add: takes_def)

lemma takes_Cons: "takes r m \<Longrightarrow> c \<noteq> CHR 0x5C \<Longrightarrow> takes (c # r) m"
  by (auto simp: takes_def tidy_Cons)

lemma takes_then: "takes s m \<Longrightarrow> (\<And>x r. takes r (f x r)) \<Longrightarrow> takes s (scan_then m f)"
  by (cases m) (auto simp: takes_def intro: tidy_trans)

lemma takes_peek: "(\<And>c r. s = c # r \<Longrightarrow> takes s (f c r)) \<Longrightarrow> takes s (scan_peek s f)"
  by (cases s) simp_all

lemma digit_no_escape [simp]: "is_digit_char (CHR 0x5C) \<longleftrightarrow> False"
  by (simp add: is_digit_char_def)

lemma takes_digits: "takes s (scan_digits s)"
  by (induction s) (auto intro!: takes_Cons)

lemma takes_int: "takes s (scan_int s)"
proof -
  have "takes r (scan_peek r (\<lambda>_ _. Done () r))" for r by (cases r) simp_all
  then show ?thesis
    unfolding scan_int_def by (intro takes_peek) (auto intro!: takes_Cons takes_digits)
qed

lemma takes_frac: "takes s (scan_frac s)"
proof -
  have "takes r (scan_peek r (\<lambda>d t. if is_digit_char d then scan_then (scan_digits t) (\<lambda>_ u. Done tok_double u)
      else Bad lex_missing_integer_after_decimal))" for r
    by (rule takes_peek) (auto intro!: takes_Cons takes_then takes_digits)
  then show ?thesis
    unfolding scan_frac_def by (intro takes_peek) (auto intro!: takes_Cons)
qed

lemma takes_exp: "takes s (scan_exp tok s)"
proof -
  have d: "takes (d # t) (scan_exp_digits d t)" for d t
    unfolding scan_exp_digits_def by (auto intro!: takes_Cons takes_then takes_digits)
  then have "takes t (scan_peek t scan_exp_digits)" for t by (intro takes_peek) simp
  then have "takes r (scan_peek r (\<lambda>d t. if d = CHR ''+'' \<or> d = CHR ''-'' then scan_peek t scan_exp_digits
      else scan_exp_digits d t))" for r
    using d by (intro takes_peek) (auto intro!: takes_Cons)
  then show ?thesis
    unfolding scan_exp_def by (intro takes_peek) (auto intro!: takes_Cons)
qed

lemma takes_number: "takes s (scan_number s)"
proof (cases s)
  case (Cons c r)
  have "takes s (scan_int (if c = CHR ''-'' then r else s))"
    using takes_int Cons by (auto intro: takes_Cons)
  then show ?thesis
    using Cons by (auto simp: scan_number_def intro!: takes_then takes_frac takes_exp)
qed (simp add: scan_number_def)

lemma takes_want: "CHR 0x5C \<notin> set want \<Longrightarrow> takes s (scan_want want tok s)"
proof (induction want arbitrary: s)
  case (Cons w want)
  then show ?case by (cases s) (auto simp: scan_want.simps intro!: takes_Cons)
qed (auto simp: scan_want.simps)

lemma takes_string: "takes s (scan_string utf8 esc s)"
  using scan_string_quote [of utf8 esc s] by (auto simp: takes_def intro: tidy_after)

lemma takes_token: "takes (c # s) (scan_token utf8 c s)"
  unfolding scan_token_def
  by (simp add: takes_Cons tidy_Cons takes_want takes_string takes_number)

lemma line_comment_end: "scan_line_comment s = Done x r \<Longrightarrow> \<exists>a. s = a @ CHR 0x0A # r"
proof (induction s)
  case (Cons c s)
  show ?case
  proof (cases "c = CHR 0x0A")
    case True
    with Cons.prems have "c # s = [] @ CHR 0x0A # r" by simp
    then show ?thesis by blast
  next
    case False
    with Cons show ?thesis by (metis append_Cons scan_line_comment.simps(2))
  qed
qed simp

lemma block_comment_end: "scan_block_comment s = Done x r \<Longrightarrow> \<exists>a. s = a @ CHR ''/'' # r"
proof (induction s)
  case (Cons c s)
  consider "c = CHR ''*''" "s = CHR ''/'' # r" | "scan_block_comment s = Done x r"
    using Cons.prems by (cases s) (auto split: if_splits)
  then show ?case
  proof cases
    case 1
    then have "c # s = [c] @ CHR ''/'' # r" by simp
    then show ?thesis by blast
  next
    case 2
    with Cons.IH show ?thesis by (metis append_Cons)
  qed
qed simp

lemma takes_comment: "takes (c # s) (scan_comment s)"
proof -
  have "tidy (c # s) r" if "scan_comment s = Done x r" for x r
  proof -
    from that obtain d t where t: "s = d # t" "scan_line_comment t = Done x r \<or> scan_block_comment t = Done x r"
      by (cases s) (auto simp: scan_comment_def split: if_splits)
    then show ?thesis
      using line_comment_end [of t x r] block_comment_end [of t x r] tidy_after [of _ "c # d # _"] by fastforce
  qed
  then show ?thesis by (simp add: takes_def)
qed

definition ends :: "string \<Rightarrow> lexeme \<Rightarrow> bool" where
  "ends s l \<longleftrightarrow> (case l of Unfinished u \<Rightarrow> tidy s u | Wrong e \<Rightarrow> True | Token tok x r \<Rightarrow> tidy s r)"

lemma ends_tidy: "ends t l \<Longrightarrow> tidy s t \<Longrightarrow> ends s l"
  by (cases l) (auto simp: ends_def intro: tidy_trans)

lemma scan_lex_ends: "ends s (scan_lex utf8 cm s)"
proof (induction utf8 cm s rule: scan_lex.induct)
  case (2 utf8 cm c r)
  consider "lex_space c" | "\<not> lex_space c" "c = CHR ''/''" | "\<not> lex_space c" "c \<noteq> CHR ''/''" by blast
  then show ?case
  proof cases
    case 1
    then have "tidy (c # r) r" by (intro tidy_Cons) (auto simp: lex_space_def)
    with ends_tidy [OF 2(1) [OF 1]] 1 show ?thesis by simp
  next
    case 2
    show ?thesis
    proof (cases "scan_comment r")
      case (Done x t)
      have a: "tidy (c # r) t" using takes_comment [of c r] Done by simp
      show ?thesis
      proof (cases cm)
        case True
        with ends_tidy [OF "2.IH"(2) [of x t] a] 2 Done show ?thesis by simp
      qed (use 2 in \<open>simp add: ends_def\<close>)
    qed (use 2 in \<open>simp_all add: ends_def\<close>)
  next
    case 3
    with takes_token [of c r utf8] show ?thesis by (cases "scan_token utf8 c r") (auto simp: ends_def)
  qed
qed (simp add: ends_def)

lemma left_over_tidy:
  "scan_lex utf8 cm s = Token tok x r \<Longrightarrow> tidy s r" "scan_lex utf8 cm s = Unfinished u \<Longrightarrow> tidy s u"
  using scan_lex_ends [of s utf8 cm] by (simp_all add: ends_def)

lemma pairs_ok_tidy: "pairs_ok s \<Longrightarrow> tidy s r \<Longrightarrow> pairs_ok r"
  using pairs_ok_suffix by (auto simp: tidy_def)

text \<open>The text of a string token is the body of a string inside the text.\<close>

lemma scan_lex_string:
  "scan_lex utf8 cm s = Token tok x r \<Longrightarrow> tok = tok_string \<or> tok = tok_string_with_escapes \<Longrightarrow>
     \<exists>a. s = a @ CHR 0x22 # x @ CHR 0x22 # r \<and> scan_string utf8 False (x @ CHR 0x22 # r) = Done tok r"
proof (induction utf8 cm s rule: scan_lex.induct)
  case (2 utf8 cm c s)
  consider "lex_space c" | t where "\<not> lex_space c" "c = CHR ''/''" "cm" "scan_comment s = Done () t"
    | t where "\<not> lex_space c" "c \<noteq> CHR ''/''" "scan_token utf8 c s = Done tok t" "t = r"
        "x = token_text tok (consumed (c # s) t)"
    using 2(3) by (auto split: if_splits scan.splits)
  then show ?case
  proof cases
    case 1
    with 2 obtain a where "s = a @ CHR 0x22 # x @ CHR 0x22 # r" "scan_string utf8 False (x @ CHR 0x22 # r) = Done tok r" by auto
    then show ?thesis by (metis append_Cons)
  next
    case (2 t)
    obtain b where b: "c # s = b @ t" using takes_comment [of c s] 2(4) by (auto simp: tidy_def)
    from "2.IH"(2) [of "()" t] "2.prems" 2 obtain a where "t = a @ CHR 0x22 # x @ CHR 0x22 # r"
      "scan_string utf8 False (x @ CHR 0x22 # r) = Done tok r" by auto
    with b show ?thesis by (metis append_assoc)
  next
    case (3 t)
    have str: "c = CHR 0x22" "scan_string utf8 False s = Done tok r"
      using scan_token_string [OF 3(3) "2.prems"(2)] 3(4) by auto
    obtain body where b: "s = body @ CHR 0x22 # r" using scan_string_quote [OF str(2)] by blast
    have "x = body" using 3 "2.prems"(2) b str(1) by (auto simp: token_text_def consumed_def butlast_append)
    with str b show ?thesis by (metis append_Nil)
  qed
qed simp

section \<open>The parser on such texts\<close>

interpretation paired: decodable pairs_ok
proof
  fix s tok x r u
  assume p: "pairs_ok s"
  show "pairs_ok r" if "scan_lex True True s = Token tok x r"
    by (rule pairs_ok_tidy [OF p left_over_tidy(1) [OF that]])
  show "pairs_ok (u @ '' '')" if "scan_lex True True s = Unfinished u"
    by (rule pairs_ok_blank, rule pairs_ok_tidy [OF p left_over_tidy(2) [OF that]])
  show "decodes tok x" if t: "scan_lex True True s = Token tok x r"
  proof (cases "tok = tok_string_with_escapes")
    case True
    with scan_lex_string [OF t] obtain a where a: "s = a @ CHR 0x22 # x @ CHR 0x22 # r"
      "scan_string True False (x @ CHR 0x22 # r) = Done tok r" by auto
    have "pairs_ok (x @ CHR 0x22 # r)" using p a(1) pairs_ok_suffix [of "a @ [CHR 0x22]"] by simp
    from string_body [OF a(2) this] show ?thesis by (auto simp: decodes_def)
  qed (simp add: decodes_def)
qed

end
