(* ===== verification/Yajl_Integers.thy ===== *)
theory Yajl_Integers
  imports Yajl_Text "HOL-Library.Sublist"
begin

text \<open>
  \<open>igsyajl_parse_integer\<close> on the texts it is given: the exact value, the saturated one, or
  nothing where the multiplication overflows; and a condition on a whole JSON text that
  keeps its parser away from the overflow.
\<close>

section \<open>The loop\<close>

definition digits_from :: "nat \<Rightarrow> string \<Rightarrow> nat" where
  "digits_from n ds = foldl (\<lambda>a c. a * 10 + (of_char c - 48)) n ds"

lemma digits_from_simps [simp]: "digits_from n [] = n" "digits_from n (c # ds) = digits_from (n * 10 + (of_char c - 48)) ds"
  by (simp_all add: digits_from_def)

lemma digits_from_zero: "digits_from 0 ds = digits_val 10 ds"
  by (simp add: digits_from_def digits_val_def)

lemma digits_from_grows: "n \<le> digits_from n ds"
proof (induction ds arbitrary: n)
  case (Cons c ds)
  have "n \<le> n * 10 + (of_char c - 48)" by simp
  also have "\<dots> \<le> digits_from (n * 10 + (of_char c - 48)) ds" by (rule Cons.IH)
  finally show ?case by simp
qed simp

text \<open>The values that pass the test against \<open>MAX_VALUE_TO_MULTIPLY\<close> and overflow all the same.\<close>

definition unsafe :: "nat \<Rightarrow> bool" where
  "unsafe n \<longleftrightarrow> 922337203685477581 \<le> n \<and> n \<le> 922337203685477587"

lemma unsafe_iff: "unsafe n \<longleftrightarrow> int n \<le> MAX_VALUE_TO_MULTIPLY \<and> LLONG_MAX < int n * 10"
  by (auto simp: unsafe_def MAX_VALUE_TO_MULTIPLY_def LLONG_MAX_def)

definition overflow_in :: "nat \<Rightarrow> string \<Rightarrow> bool" where
  "overflow_in n ds \<longleftrightarrow> (\<exists>k < length ds. unsafe (digits_from n (take k ds)))"

lemma overflow_in_simps [simp]: "\<not> overflow_in n []"
  "overflow_in n (c # ds) \<longleftrightarrow> unsafe n \<or> overflow_in (n * 10 + (of_char c - 48)) ds"
  by (simp_all add: overflow_in_def Ex_less_Suc2)

lemma overflow_large:
  assumes "922337203685477587 < n" shows "\<not> overflow_in n ds"
proof -
  have "\<not> unsafe (digits_from n (take k ds))" for k
    using digits_from_grows [of n "take k ds"] assms by (simp add: unsafe_def)
  then show ?thesis by (simp add: overflow_in_def)
qed

lemma parse_integer_digits:
  "list_all is_digit_char ds \<Longrightarrow> int n \<le> LLONG_MAX \<Longrightarrow>
     parse_integer_loop neg (int n) ds =
       (if overflow_in n ds then None
        else if int (digits_from n ds) \<le> LLONG_MAX
        then Some ((if neg then - int (digits_from n ds) else int (digits_from n ds)), False) else Some (saturated neg))"
proof (induction ds arbitrary: n)
  case (Cons c ds)
  define d :: nat where "d = of_char c - 48"
  have c: "is_digit_char c" "list_all is_digit_char ds" using Cons.prems by simp_all
  then have d: "int (of_char c) - 48 = int d" by (simp add: d_def is_digit_char_def of_nat_diff)
  have e: "digits_from n (c # ds) = digits_from (n * 10 + d) ds" "overflow_in n (c # ds) \<longleftrightarrow> unsafe n \<or> overflow_in (n * 10 + d) ds"
    by (simp_all add: d_def)
  have grow: "n * 10 + d \<le> digits_from (n * 10 + d) ds" by (rule digits_from_grows)
  consider "MAX_VALUE_TO_MULTIPLY < int n" | "unsafe n" | "\<not> MAX_VALUE_TO_MULTIPLY < int n" "\<not> unsafe n" by blast
  then show ?case
  proof cases
    case 1
    then have n: "922337203685477587 < n" by (simp add: MAX_VALUE_TO_MULTIPLY_def LLONG_MAX_def)
    then have "LLONG_MAX < int (digits_from n (c # ds))" unfolding e using grow by (simp add: LLONG_MAX_def)
    moreover have "\<not> unsafe n" "\<not> overflow_in (n * 10 + d) ds"
      using n overflow_large [of "n * 10 + d"] by (simp_all add: unsafe_def)
    ultimately show ?thesis using 1 unfolding parse_integer_loop.simps(2) Let_def e by simp
  next
    case 2
    then show ?thesis unfolding parse_integer_loop.simps(2) Let_def e by (simp add: unsafe_iff)
  next
    case 3
    then have m: "\<not> LLONG_MAX < int n * 10" by (simp add: unsafe_iff)
    show ?thesis
    proof (cases "LLONG_MAX - int n * 10 < int d")
      case True
      then have "LLONG_MAX < int (n * 10 + d)" by simp
      moreover from this have "\<not> overflow_in (n * 10 + d) ds" by (intro overflow_large) (simp add: LLONG_MAX_def)
      ultimately have "LLONG_MAX < int (digits_from n (c # ds))" "\<not> overflow_in n (c # ds)" unfolding e using grow 3 by simp_all
      with True 3 m show ?thesis unfolding parse_integer_loop.simps(2) Let_def d e by simp
    next
      case fits: False
      have "int (n * 10 + d) \<le> LLONG_MAX" using fits by simp
      from Cons.IH [OF c(2) this] fits 3 m c(1) show ?thesis
        unfolding parse_integer_loop.simps(2) Let_def d e by simp
    qed
  qed
qed simp

lemma digit_not_sign2: "is_digit_char c \<Longrightarrow> c \<noteq> CHR ''-'' \<and> c \<noteq> CHR ''+''"
  using digit_not_sign by blast

lemma parse_integer_text:
  assumes "ds \<noteq> []" and "list_all is_digit_char ds"
  shows "igsyajl_parse_integer ds =
      (if overflow_in 0 ds then None
       else if int (digits_val 10 ds) \<le> LLONG_MAX then Some (int (digits_val 10 ds), False) else Some (LLONG_MAX, True))"
    and "igsyajl_parse_integer (CHR ''-'' # ds) =
      (if overflow_in 0 ds then None
       else if int (digits_val 10 ds) \<le> LLONG_MAX then Some (- int (digits_val 10 ds), False) else Some (LLONG_MIN, True))"
proof -
  have "hd ds \<noteq> CHR ''-'' \<and> hd ds \<noteq> CHR ''+''" using assms digit_not_sign2 by (cases ds) auto
  moreover have "0 \<le> LLONG_MAX" by (simp add: LLONG_MAX_def)
  ultimately show "igsyajl_parse_integer ds =
      (if overflow_in 0 ds then None
       else if int (digits_val 10 ds) \<le> LLONG_MAX then Some (int (digits_val 10 ds), False) else Some (LLONG_MAX, True))"
    "igsyajl_parse_integer (CHR ''-'' # ds) =
      (if overflow_in 0 ds then None
       else if int (digits_val 10 ds) \<le> LLONG_MAX then Some (- int (digits_val 10 ds), False) else Some (LLONG_MIN, True))"
    using parse_integer_digits [OF assms(2), of 0] digits_from_zero [of ds]
    by (simp_all add: igsyajl_parse_integer_def Let_def saturated_def)
qed

text \<open>A value that fits is never reached through one that overflows.\<close>

lemma overflow_prefix_large: "overflow_in n ds \<Longrightarrow> LLONG_MAX < int (digits_from n ds)"
proof (induction ds arbitrary: n)
  case (Cons c ds)
  have "n * 10 + (of_char c - 48) \<le> digits_from (n * 10 + (of_char c - 48)) ds" by (rule digits_from_grows)
  with Cons show ?case by (auto simp: unsafe_def LLONG_MAX_def)
qed simp

lemma parse_integer_fmt_d: "- LLONG_MAX \<le> n \<Longrightarrow> n \<le> LLONG_MAX \<Longrightarrow> igsyajl_parse_integer (fmt_d n) = Some (n, False)"
proof -
  assume n: "- LLONG_MAX \<le> n" "n \<le> LLONG_MAX"
  have "\<not> overflow_in 0 (dec_nat m)" if "int m \<le> LLONG_MAX" for m
    using overflow_prefix_large [of 0 "dec_nat m"] that by (auto simp: digits_from_zero)
  from this [of "nat n"] this [of "nat (- n)"] n show ?thesis
    using parse_integer_text [of "dec_nat (nat n)"] parse_integer_text [of "dec_nat (nat (- n))"] dec_nat_digits
    by (simp add: fmt_d_def list_all_iff)
qed

text \<open>The same with the overflowing values written out.\<close>

lemma overflow_digits:
  "overflow_in 0 ds \<longleftrightarrow> (\<exists>k < length ds. digits_val 10 (take k ds) \<in> {922337203685477581..922337203685477587})"
  by (simp add: overflow_in_def unsafe_def digits_from_zero)

lemma fits_no_overflow: "int (digits_val 10 ds) \<le> LLONG_MAX \<Longrightarrow> \<not> overflow_in 0 ds"
  using overflow_prefix_large [of 0 ds] by (auto simp: digits_from_zero)

section \<open>Texts without an overflow\<close>

lemma parse_loop_overflow:
  assumes "parse_integer_loop neg (int n) s = None"
  shows "\<exists>ds r. s = ds @ r \<and> list_all is_digit_char ds \<and> unsafe (digits_from n ds)"
  using assms
proof (induction s arbitrary: n)
  case (Cons c s)
  show ?case
  proof (cases "unsafe n")
    case True
    then show ?thesis by (intro exI [of _ "[]"] exI [of _ "c # s"]) simp
  next
    case False
    with Cons.prems have c: "is_digit_char c" and r: "parse_integer_loop neg (int n * 10 + (int (of_char c) - 48)) s = None"
      by (auto simp: unsafe_iff Let_def split: if_splits)
    have "int (n * 10 + (of_char c - 48)) = int n * 10 + (int (of_char c) - 48)"
      using c by (simp add: is_digit_char_def of_nat_diff)
    with r have "parse_integer_loop neg (int (n * 10 + (of_char c - 48))) s = None" by (simp only:)
    from Cons.IH [OF this] obtain ds r where "s = ds @ r" "list_all is_digit_char ds"
      "unsafe (digits_from (n * 10 + (of_char c - 48)) ds)" by blast
    with c show ?thesis by (intro exI [of _ "c # ds"] exI [of _ r]) simp
  qed
qed simp

lemma last_digit:
  fixes a b k l :: nat
  assumes "a * 10 + k = b * 10 + l" and "k < 10" and "l < 10" shows "a = b" and "k = l"
  using assms by presburger+

lemma digits_end:
  assumes "r \<noteq> []" and "hd r \<noteq> CHR ''0''" and "list_all is_digit_char r" and "list_all is_digit_char ds"
    and "digits_val 10 ds = digits_val 10 r"
  shows "\<exists>p. ds = p @ r"
  using assms
proof (induction r arbitrary: ds rule: rev_induct)
  case (snoc c r)
  have dig: "k < 10" if "is_digit_char x" "k = of_char x - (48 :: nat)" for x k using that by (auto simp: is_digit_char_def)
  have same: "x = y" if "is_digit_char x" "is_digit_char y" "of_char x - (48 :: nat) = of_char y - 48" for x y
  proof -
    have "of_char x = (of_char y :: nat)" using that unfolding is_digit_char_def by linarith
    then show ?thesis by (simp add: of_char_eq_iff)
  qed
  have c: "is_digit_char c" "list_all is_digit_char r" using snoc.prems(3) by simp_all
  show ?case
  proof (cases "ds = []")
    case True
    with snoc.prems(5) have "digits_val 10 r = 0" "of_char c - (48 :: nat) = 0" by (simp_all add: digits_val_snoc digits_val_def)
    show ?thesis
    proof (cases "r = []")
      case True
      have "c = CHR ''0''" using same [OF c(1), of "CHR ''0''"] \<open>of_char c - 48 = 0\<close> by (simp add: is_digit_char_def)
      with snoc.prems(2) True show ?thesis by simp
    next
      case False
      with snoc.IH [of "[]"] snoc.prems(2) c(2) \<open>digits_val 10 r = 0\<close> have "\<exists>p. [] = p @ r" by (simp add: digits_val_def)
      with False show ?thesis by simp
    qed
  next
    case False
    then obtain x ds' where ds: "ds = ds' @ [x]" by (cases ds rule: rev_cases) auto
    have x: "is_digit_char x" "list_all is_digit_char ds'" using snoc.prems(4) ds by simp_all
    have "digits_val 10 ds' * 10 + (of_char x - 48) = digits_val 10 r * 10 + (of_char c - 48)"
      using snoc.prems(5) by (simp add: ds digits_val_snoc)
    note v = last_digit [OF this dig [OF x(1) refl] dig [OF c(1) refl]]
    have xc: "x = c" by (rule same [OF x(1) c(1) v(2)])
    show ?thesis
    proof (cases "r = []")
      case True
      with xc ds show ?thesis by simp
    next
      case False
      with snoc.IH [OF _ _ c(2) x(2) v(1)] snoc.prems(2) obtain p where "ds' = p @ r" by auto
      with xc ds show ?thesis by simp
    qed
  qed
qed simp

definition risky_digits :: string where "risky_digits = ''92233720368547758''"

lemma risky_value: "digits_val 10 risky_digits = 92233720368547758" "list_all is_digit_char risky_digits"
  by (simp_all add: risky_digits_def digits_val_def is_digit_char_def)

lemma unsafe_digits:
  assumes "list_all is_digit_char ds" and "unsafe (digits_val 10 ds)" shows "sublist risky_digits ds"
proof -
  have "digits_val 10 ds div 10 = 92233720368547758" using assms(2) by (simp add: unsafe_def) linarith
  moreover obtain c ds' where ds: "ds = ds' @ [c]" using assms(2) by (cases ds rule: rev_cases) (auto simp: digits_val_def unsafe_def)
  moreover have "of_char c - 48 < (10 :: nat)" using assms(1) ds by (auto simp: is_digit_char_def)
  ultimately have "digits_val 10 ds' = 92233720368547758" by (simp add: digits_val_snoc)
  then obtain p where "ds' = p @ risky_digits"
    using digits_end [of risky_digits ds'] assms(1) ds risky_value by (auto simp: risky_digits_def)
  with ds show ?thesis by auto
qed

lemma overflow_risky: "igsyajl_parse_integer x = None \<Longrightarrow> sublist risky_digits x"
proof -
  assume "igsyajl_parse_integer x = None"
  then obtain neg a s where s: "x = a @ s" "parse_integer_loop neg (int 0) s = None"
  proof -
    define pos where "pos = (if x \<noteq> [] \<and> hd x = CHR ''-'' then tl x else x)"
    define rest where "rest = (if pos \<noteq> [] \<and> hd pos = CHR ''+'' then tl pos else pos)"
    have "x = (if x \<noteq> [] \<and> hd x = CHR ''-'' then [hd x] else []) @ pos" by (cases x) (simp_all add: pos_def)
    then obtain a where a: "x = a @ pos" by blast
    have "pos = (if pos \<noteq> [] \<and> hd pos = CHR ''+'' then [hd pos] else []) @ rest" by (cases pos) (simp_all add: rest_def)
    then obtain b where b: "pos = b @ rest" by blast
    have "parse_integer_loop (x \<noteq> [] \<and> hd x = CHR ''-'') (int 0) rest = None"
      using \<open>igsyajl_parse_integer x = None\<close> unfolding rest_def pos_def by (simp add: igsyajl_parse_integer_def Let_def)
    with a b that [of "a @ b" rest] show thesis by simp
  qed
  from parse_loop_overflow [OF s(2)] obtain ds r where d: "s = ds @ r" "list_all is_digit_char ds" "unsafe (digits_val 10 ds)"
    by (auto simp: digits_from_zero)
  have "sublist ds x" unfolding s(1) d(1) by (rule sublist_appendI)
  with unsafe_digits [OF d(2,3)] show ?thesis by (rule sublist_order.order.trans)
qed

lemma sublist_after: "sublist x t \<Longrightarrow> sublist x (b @ t)"
  by (auto simp: sublist_def) (metis append.assoc)

lemma overflow_token:
  "scan_lex utf8 cm s = Token tok x r \<Longrightarrow> tok \<in> {tok_integer, tok_double} \<Longrightarrow> sublist x s"
proof (induction utf8 cm s rule: scan_lex.induct)
  case (2 utf8 cm c s)
  consider "lex_space c" | t where "\<not> lex_space c" "c = CHR ''/''" "cm" "scan_comment s = Done () t"
    | t where "\<not> lex_space c" "c \<noteq> CHR ''/''" "x = token_text tok (consumed (c # s) t)"
    using 2(3) by (auto split: if_splits scan.splits)
  then show ?case
  proof cases
    case 1
    with 2 have "sublist x s" by auto
    then show ?thesis by (meson sublist_Cons_right)
  next
    case (2 t)
    obtain b where "c # s = b @ t" using takes_comment [of c s] 2(4) by (auto simp: tidy_def)
    moreover from "2.IH"(2) [of "()" t] "2.prems" 2 have "sublist x t" by auto
    ultimately show ?thesis by (simp add: sublist_after)
  next
    case (3 t)
    with "2.prems"(2) have "x = consumed (c # s) t" by (auto simp: token_text_def)
    then show ?thesis unfolding consumed_def by (metis prefix_imp_sublist take_is_prefix)
  qed
qed simp

lemma number_overflow: "overflows st tok x \<Longrightarrow> scan_lex True True s = Token tok x r \<Longrightarrow> sublist risky_digits s"
proof -
  assume o: "overflows st tok x" and s: "scan_lex True True s = Token tok x r"
  from o have "igsyajl_parse_integer (takeWhile (\<lambda>c. c \<noteq> CHR 0x00) x) = None"
    by (auto simp: overflows_def number_node_def Let_def bind_some_eqs split: prod.splits)
  from overflow_risky [OF this] have "sublist risky_digits x"
    by (rule sublist_order.order.trans) (metis prefix_imp_sublist takeWhile_is_prefix)
  also from o s have "sublist x s" by (auto simp: overflows_def intro: overflow_token)
  finally show ?thesis .
qed

lemma run_not_stuck: "\<not> sublist risky_digits s \<Longrightarrow> tree_run sts c s \<noteq> Stuck"
proof (induction sts c s rule: tree_run.induct)
  case (2 st sts c s)
  show ?case
  proof
    assume "tree_run (st # sts) c s = Stuck"
    then obtain tok x r where t: "scan_lex True True s = Token tok x r" "st \<noteq> state_parse_complete" "st \<notin> error_states"
      and n: "overflows st tok x \<or> (\<exists>sts' c'. \<not> overflows st tok x \<and> token_effect st sts tok x c = Some (sts', c') \<and> tree_run sts' c' r = Stuck)"
      unfolding tree_run.simps(2) [of st sts c s] by (auto split: if_splits lexeme.splits option.splits)
    have no: "\<not> overflows st tok x" using number_overflow [OF _ t(1)] "2.prems" by blast
    with n obtain sts' c' where e: "token_effect st sts tok x c = Some (sts', c')" "tree_run sts' c' r = Stuck" by blast
    obtain a where "s = a @ r" using left_over_tidy(1) [OF t(1)] by (auto simp: tidy_def)
    then have "\<not> sublist risky_digits r" using "2.prems" by (auto dest: sublist_after)
    from "2.IH" [OF t(2,3,1) no e(1) refl this] e(2) show False by simp
  qed
qed (simp add: tree_run.simps)

lemma risky_blank: "sublist risky_digits (s @ '' '') \<Longrightarrow> sublist risky_digits s"
proof -
  assume "sublist risky_digits (s @ '' '')"
  then obtain a b where ab: "s @ '' '' = a @ risky_digits @ b" by (auto simp: sublist_def)
  show ?thesis
  proof (cases b rule: rev_cases)
    case Nil
    then have "last (s @ '' '') = last risky_digits" using ab by (simp add: risky_digits_def del: last_snoc)
    then show ?thesis by (simp add: risky_digits_def)
  next
    case (snoc b' x)
    with ab have "s = a @ risky_digits @ b'" by simp
    then show ?thesis by auto
  qed
qed

lemma parse_is_defined: "\<not> sublist risky_digits s \<Longrightarrow> tree_of_text s \<noteq> None"
  using run_not_stuck [of "s @ '' ''"] risky_blank [of s]
  by (auto simp: tree_of_text_def tree_of_result_def split: tree_result.splits)

end
