(* ===== verification/Yajl_Round.thy ===== *)
theory Yajl_Round
  imports Yajl_Integers Igs_Json_Text
begin

text \<open>
  The texts that the generator makes, read back by the parser: the tokens of
  strings, numbers and punctuation between the white space of the printer, and
  from them the tree that was printed.
\<close>

section \<open>Strings\<close>

definition is_escaped :: "char \<Rightarrow> bool" where
  "is_escaped c \<longleftrightarrow> escaped False c \<noteq> None"

lemma conts_taken: "conts n s = Some r \<Longrightarrow> \<exists>p. s = p @ r \<and> list_all is_cont p \<and> length p = n"
proof (induction n s rule: conts.induct)
  case (3 n c s)
  then have c: "is_cont c" "conts n s = Some r" by (simp_all split: if_splits)
  from 3(1) [OF c] obtain p where "s = p @ r" "list_all is_cont p" "length p = n" by blast
  with c have "c # s = (c # p) @ r \<and> list_all is_cont (c # p) \<and> length (c # p) = Suc n" by simp
  then show ?case by blast
qed simp_all

lemma cont_plain:
  assumes "is_cont c" shows "enc_char False c = [c]" and "\<not> is_escaped c"
proof -
  have ge: "128 \<le> (of_char c :: nat)"
  proof (rule ccontr)
    assume "\<not> 128 \<le> (of_char c :: nat)"
    then have "(of_char c :: nat) div 64 < 2" by (simp add: less_mult_imp_div_less)
    with assms show False by (simp add: is_cont_def)
  qed
  have "c \<noteq> d" if "(of_char d :: nat) < 128" for d using that ge by auto
  with ge have "escaped False c = None" by (simp add: escaped_def)
  then show "enc_char False c = [c]" "\<not> is_escaped c" by (simp_all add: enc_char_def is_escaped_def)
qed

lemma scan_conts_all: "list_all is_cont p \<Longrightarrow> scan_conts (length p) (p @ r) = Done () r"
  by (induction p) simp_all

lemma encode_conts: "list_all is_cont p \<Longrightarrow> igsyajl_string_encode False (p @ s) = p @ igsyajl_string_encode False s"
  by (induction p) (simp_all add: encode_concat cont_plain)

lemma encode_Cons: "igsyajl_string_encode False (c # s) = enc_char False c @ igsyajl_string_encode False s"
  by (simp add: encode_concat)

text \<open>An escape of the generator is one that the lexer accepts.\<close>

definition escape_ok :: "string \<Rightarrow> bool" where
  "escape_ok e \<longleftrightarrow> (\<forall>r. scan_escape (e @ r) = Done () r) \<and>
     (\<forall>r. pairs_from False (CHR 0x5C # e @ r) = pairs_from False r) \<and> CHR 0x00 \<notin> set e"

lemma escape_ok_short: "char_is VEC x \<Longrightarrow> escape_ok [x]"
proof -
  assume "char_is VEC x"
  then have "x \<noteq> CHR ''u''" "x \<noteq> CHR 0x00" by (auto simp: char_is_VEC)
  with \<open>char_is VEC x\<close> show ?thesis by (auto simp: escape_ok_def scan_escape_def high_surrogate_def)
qed

lemma hexchar_ok: "k < 16 \<Longrightarrow> char_is VHC (hexchar k)"
proof -
  have "list_all (\<lambda>k. 48 \<le> (of_char (hexchar k) :: nat) \<and> (of_char (hexchar k) :: nat) \<le> 57
      \<or> 65 \<le> (of_char (hexchar k) :: nat) \<and> (of_char (hexchar k) :: nat) \<le> 70) [0..<16]" by code_simp
  moreover assume "k < 16"
  ultimately show ?thesis by (auto simp: list_all_iff char_is_VHC)
qed

lemma vhc_plain: "char_is VHC c \<Longrightarrow> c \<noteq> CHR 0x5C \<and> c \<noteq> CHR 0x00"
  by (auto simp: char_is_VHC)

lemma escape_ok_control:
  assumes "char_is VHC a" "char_is VHC b"
  shows "escape_ok [CHR ''u'', CHR ''0'', CHR ''0'', a, b]"
proof -
  have z: "char_is VHC (CHR ''0'')" by (simp add: char_is_VHC)
  have "scan_hex 4 ([CHR ''0'', CHR ''0'', a, b] @ r) = Done () r" for r
    using scan_hex_all [of "[CHR ''0'', CHR ''0'', a, b]" r] assms z by (simp add: numeral_eq_Suc)
  moreover have "pairs_from False (CHR 0x5C # CHR ''u'' # CHR ''0'' # CHR ''0'' # a # b # r) = pairs_from False r" for r
    using vhc_plain [OF assms(1)] vhc_plain [OF assms(2)] by (simp add: high_surrogate_def)
  ultimately show ?thesis
    using vhc_plain [OF assms(1)] vhc_plain [OF assms(2)] by (auto simp: escape_ok_def scan_escape_def)
qed

lemma enc_char_escape: "is_escaped c \<Longrightarrow> \<exists>e. enc_char False c = CHR 0x5C # e \<and> escape_ok e \<and> lead_len c = Some 0"
proof -
  assume esc: "is_escaped c"
  then obtain e where e: "escaped False c = Some e" by (auto simp: is_escaped_def)
  have "lead_len c = Some 0" using e by (auto simp: escaped_def lead_len_def split: if_splits)
  moreover have "\<exists>x. e = CHR 0x5C # x \<and> escape_ok x"
  proof (cases "c \<in> {CHR 0x0D, CHR 0x0A, CHR 0x5C, CHR 0x22, CHR 0x0C, CHR 0x08, CHR 0x09}")
    case True
    with e show ?thesis
      by (auto simp: escaped_def char_is_VEC intro!: escape_ok_short)
  next
    case False
    with e have "e = [CHR 0x5C, CHR ''u'', CHR ''0'', CHR ''0''] @ CharToHex c" "(of_char c :: nat) < 32"
      by (auto simp: escaped_def split: if_splits)
    moreover from this(2) have "char_is VHC (hexchar (of_char c div 16))" "char_is VHC (hexchar (of_char c mod 16))"
      by (auto intro!: hexchar_ok)
    ultimately show ?thesis using escape_ok_control by (simp add: CharToHex_def)
  qed
  ultimately show ?thesis using e by (auto simp: enc_char_def)
qed

lemma enc_char_plain: "\<not> is_escaped c \<Longrightarrow> enc_char False c = [c] \<and> c \<noteq> CHR 0x5C \<and> c \<noteq> CHR 0x22 \<and> \<not> char_is IJC c"
  using of_char_eq_iff [of c "CHR 0x22", where 'a = nat] of_char_eq_iff [of c "CHR 0x5C", where 'a = nat]
  by (auto simp: is_escaped_def enc_char_def escaped_def char_is_IJC split: if_splits option.splits)

lemma scan_encoded:
  "igsyajl_string_validate_utf8 s \<Longrightarrow>
     scan_string True esc (igsyajl_string_encode False s @ CHR 0x22 # r) =
       Done (if esc \<or> (\<exists>c \<in> set s. is_escaped c) then tok_string_with_escapes else tok_string) r"
proof (induction s arbitrary: esc rule: igsyajl_string_validate_utf8.induct)
  case 1
  show ?case by (simp add: encode_concat scan_string.simps)
next
  case (2 c s)
  from "2.prems" obtain n u where n: "lead_len c = Some n" "conts n s = Some u" "igsyajl_string_validate_utf8 u"
    by (auto split: option.splits)
  note ih = "2.IH" [OF n]
  obtain p where p: "s = p @ u" "list_all is_cont p" "length p = n" using conts_taken [OF n(2)] by blast
  have np: "\<forall>x \<in> set p. \<not> is_escaped x" using p(2) cont_plain(2) by (auto simp: list_all_iff)
  show ?case
  proof (cases "is_escaped c")
    case True
    then obtain e where e: "enc_char False c = CHR 0x5C # e" "escape_ok e" "lead_len c = Some 0"
      using enc_char_escape by blast
    with n p have "p = []" by simp
    with True e p ih [of True] show ?thesis
      by (simp add: encode_Cons scan_string_escape escape_ok_def)
  next
    case False
    note f = enc_char_plain [OF False]
    have "scan_inside True c (p @ igsyajl_string_encode False u @ CHR 0x22 # r) = Done () (igsyajl_string_encode False u @ CHR 0x22 # r)"
      using f n(1) scan_conts_all [OF p(2)] p(3) by (simp add: scan_inside_def)
    with False f p np ih [of esc] show ?thesis
      by (subst scan_string.simps) (auto simp: encode_Cons encode_conts)
  qed
qed

lemma encode_plain: "\<forall>c \<in> set s. \<not> is_escaped c \<Longrightarrow> igsyajl_string_encode False s = s"
  by (induction s) (simp_all add: encode_concat enc_char_plain)

lemma scalar_of_string:
  assumes "CHR 0x00 \<notin> set s"
  shows "scalar_of (if \<exists>c \<in> set s. is_escaped c then tok_string_with_escapes else tok_string) (igsyajl_string_encode False s)
    = Some (JString s)"
proof -
  have "nul_cut s = s" using assms by (auto simp: nul_cut_def takeWhile_eq_all_conv)
  then show ?thesis
    using encode_plain [of s] by (auto simp: scalar_of_def unescaped_def decode_encode_list)
qed

section \<open>Numbers, punctuation and white space\<close>

text \<open>A text that the lexer reads as one number, in front of what the printer puts after it.\<close>

definition number_before :: "char \<Rightarrow> string \<Rightarrow> bool" where
  "number_before c t \<longleftrightarrow> (case scan_number (t @ [c]) of Done _ u \<Rightarrow> u = [c] | _ \<Rightarrow> False)"

definition numeral_text :: "string \<Rightarrow> bool" where
  "numeral_text t \<longleftrightarrow> t \<noteq> [] \<and> (hd t = CHR ''-'' \<or> is_digit_char (hd t))
     \<and> list_all (\<lambda>c. c \<noteq> CHR 0x5C \<and> c \<noteq> CHR 0x00) t \<and> number_before (CHR '','') t \<and> number_before (CHR 0x0A) t"

definition closing :: "string \<Rightarrow> bool" where
  "closing r \<longleftrightarrow> r \<noteq> [] \<and> (hd r = CHR '','' \<or> hd r = CHR 0x0A)"

lemma closing_simps [simp]: "\<not> closing []" "closing (CHR '','' # r)" "closing (CHR 0x0A # r)"
  by (simp_all add: closing_def)

lemma scan_token_number: "c = CHR ''-'' \<or> is_digit_char c \<Longrightarrow> scan_token utf8 c r = scan_number (c # r)"
proof (cases "c = CHR ''-''")
  case True
  then show ?thesis by (simp add: scan_token_def)
next
  case False
  moreover assume "c = CHR ''-'' \<or> is_digit_char c"
  ultimately have d: "is_digit_char c" by simp
  then have ne: "c \<noteq> x" if "\<not> is_digit_char x" for x using that by auto
  have "c \<noteq> CHR ''{''" "c \<noteq> CHR ''}''" "c \<noteq> CHR ''[''" "c \<noteq> CHR '']''" "c \<noteq> CHR '',''" "c \<noteq> CHR '':''"
    "c \<noteq> CHR ''t''" "c \<noteq> CHR ''f''" "c \<noteq> CHR ''n''" "c \<noteq> CHR 0x22"
    by (rule ne, simp add: is_digit_char_def)+
  with d show ?thesis by (simp add: scan_token_def)
qed

lemma scan_lex_number:
  assumes t: "numeral_text t" and r: "closing r"
  shows "\<exists>tok. scan_lex True True (t @ r) = Token tok t r \<and> (tok = tok_integer \<or> tok = tok_double)"
proof -
  obtain c r' where c: "r = c # r'" "c = CHR '','' \<or> c = CHR 0x0A" using r by (cases r) (auto simp: closing_def)
  with t have "number_before c t" by (auto simp: numeral_text_def)
  then obtain tok where tok: "scan_number (t @ [c]) = Done tok [c]"
    by (auto simp: number_before_def split: scan.splits)
  have n: "scan_number (t @ r) = Done tok r"
    using continues_number [of r' "t @ [c]"] tok c by (cases "scan_number (t @ r)") (auto simp: continues_def)
  obtain d t' where d: "t = d # t'" using t by (cases t) (auto simp: numeral_text_def)
  with t have h: "d = CHR ''-'' \<or> is_digit_char d" by (simp add: numeral_text_def)
  have "\<not> lex_space x \<and> x \<noteq> CHR ''/''" if "is_digit_char x" for x
    using that by (auto simp: is_digit_char_def lex_space_def)
  with h have "\<not> lex_space d" "d \<noteq> CHR ''/''" by (auto simp: lex_space_def)
  moreover have "tok = tok_integer \<or> tok = tok_double" using scan_number_tok [of "t @ r"] n by (simp add: among_def)
  moreover have "consumed (t @ r) r = t" by (simp add: consumed_def)
  ultimately show ?thesis
    using n h d by (auto simp: scan_token_number token_text_def)
qed

lemma scan_lex_blank: "list_all lex_space w \<Longrightarrow> scan_lex utf8 cm (w @ s) = scan_lex utf8 cm s"
  by (induction w) simp_all

lemma run_blank: "list_all lex_space w \<Longrightarrow> tree_run sts c (w @ s) = tree_run sts c s"
  by (cases sts) (simp_all add: tree_run.simps scan_lex_blank)

lemma blanks [simp]: "list_all lex_space newline" "list_all lex_space (indent d)"
  by (auto simp: newline_def indent_def lex_space_def list_all_iff)

lemma run_step:
  assumes "scan_lex True True s = Token tok x r" and "st \<noteq> state_parse_complete" "st \<notin> error_states"
    and "token_effect st sts tok x c = Some (sts', c')"
  shows "tree_run (st # sts) c s = tree_run sts' c' r"
  using assms effect_defined [OF assms(4)] by (simp add: tree_run.simps)

lemma punctuation:
  "scan_lex True True (CHR ''{'' # r) = Token tok_left_bracket ''{'' r"
  "scan_lex True True (CHR ''}'' # r) = Token tok_right_bracket ''}'' r"
  "scan_lex True True (CHR ''['' # r) = Token tok_left_brace ''['' r"
  "scan_lex True True (CHR '']'' # r) = Token tok_right_brace '']'' r"
  "scan_lex True True (CHR '','' # r) = Token tok_comma '','' r"
  "scan_lex True True (CHR '':'' # r) = Token tok_colon '':'' r"
  by (simp_all add: scan_token_def token_text_def consumed_def lex_space_def Suc_diff_le)

lemma words:
  "scan_lex True True (''true'' @ r) = Token tok_bool ''true'' r"
  "scan_lex True True (''false'' @ r) = Token tok_bool ''false'' r"
  "scan_lex True True (''null'' @ r) = Token tok_null ''null'' r"
  by (simp_all add: scan_token_def token_text_def consumed_def lex_space_def scan_want.simps)

lemma scan_lex_quoted:
  assumes "igsyajl_string_validate_utf8 s"
  shows "scan_lex True True (quoted s @ r) =
    Token (if \<exists>c \<in> set s. is_escaped c then tok_string_with_escapes else tok_string) (igsyajl_string_encode False s) r"
  using scan_encoded [OF assms, of False r]
  by (simp add: quoted_def scan_token_def token_text_def consumed_def lex_space_def butlast_append)

section \<open>The run over a printed tree\<close>

text \<open>
  The trees that a text can hold: strings are UTF-8 and have no NUL, and a number
  is what its printed text is read as.
\<close>

definition string_ok :: "string \<Rightarrow> bool" where
  "string_ok s \<longleftrightarrow> igsyajl_string_validate_utf8 s \<and> CHR 0x00 \<notin> set s"

fun canonical :: "igs_json_node \<Rightarrow> bool"
  and canonical_entries :: "(string \<times> igs_json_node) list \<Rightarrow> bool"
  and canonical_values :: "igs_json_node list \<Rightarrow> bool" where
  "canonical (JString s) \<longleftrightarrow> string_ok s"
| "canonical (JNumber i x r iv dv) \<longleftrightarrow>
     (let t = (if iv then fmt_d i else double_text x)
      in numeral_text t \<and> number_node t = Some (JNumber i x r iv dv))"
| "canonical (JMap es) \<longleftrightarrow> canonical_entries es"
| "canonical (JArray vs) \<longleftrightarrow> canonical_values vs"
| "canonical JTrue \<longleftrightarrow> True"
| "canonical JFalse \<longleftrightarrow> True"
| "canonical JNull \<longleftrightarrow> True"
| "canonical_entries [] \<longleftrightarrow> True"
| "canonical_entries ((k, v) # es) \<longleftrightarrow> string_ok k \<and> canonical v \<and> canonical_entries es"
| "canonical_values [] \<longleftrightarrow> True"
| "canonical_values (v # vs) \<longleftrightarrow> canonical v \<and> canonical_values vs"

lemma value_state [simp]:
  "state_start \<in> value_states" "state_map_need_val \<in> value_states" "state_array_need_val \<in> value_states"
  "state_array_start \<in> value_states" "state_map_start \<notin> value_states" "state_map_need_key \<notin> value_states"
  "state_map_sep \<notin> value_states" "state_map_got_val \<notin> value_states" "state_array_got_val \<notin> value_states"
  by (simp_all add: value_states_def)

lemma not_error [simp]:
  "state_map_start \<notin> error_states" "state_map_need_key \<notin> error_states" "state_map_sep \<notin> error_states"
  "state_map_got_val \<notin> error_states" "state_array_got_val \<notin> error_states"
  by (simp_all add: error_states_def)

lemma value_alive: "st \<in> value_states \<Longrightarrow> st \<noteq> state_parse_complete \<and> st \<notin> error_states"
  by (auto simp: value_states_def error_states_def)

lemma run_scalar:
  assumes "st \<in> value_states" and "scan_lex True True s = Token tok x r" and "scalar_of tok x = Some v"
  shows "tree_run (st # sts) c s = tree_run (got_value_state st # sts) (put_value v c) r"
  using assms value_alive [OF assms(1)] by (intro run_step) (auto simp: token_effect_def)

lemma run_open:
  assumes "st \<in> value_states"
  shows "tree_run (st # sts) c (CHR ''{'' # r) =
      tree_run (state_map_start # got_value_state st # sts) (c\<lparr> tc_stack := (None, JMap []) # tc_stack c \<rparr>) r"
    and "tree_run (st # sts) c (CHR ''['' # r) =
      tree_run (state_array_start # got_value_state st # sts) (c\<lparr> tc_stack := (None, JArray []) # tc_stack c \<rparr>) r"
  using assms value_alive [OF assms]
  by (auto intro!: run_step [OF punctuation(1)] run_step [OF punctuation(3)] simp: token_effect_def scalar_of_def open_node_def)

lemma close_opened [simp]: "close_node (c\<lparr> tc_stack := (k, v) # tc_stack c \<rparr>) = put_value v c"
  by (simp add: close_node_def)

lemma run_close:
  "st = state_map_start \<or> st = state_map_got_val \<Longrightarrow> tree_run (st # sts) c (CHR ''}'' # r) = tree_run sts (close_node c) r"
  "st = state_array_start \<or> st = state_array_got_val \<Longrightarrow> tree_run (st # sts) c (CHR '']'' # r) = tree_run sts (close_node c) r"
  by (auto intro!: run_step [OF punctuation(2)] run_step [OF punctuation(4)]
      simp: token_effect_def scalar_of_def error_states_def)

lemma run_comma:
  "tree_run (state_map_got_val # sts) c (CHR '','' # r) = tree_run (state_map_need_key # sts) c r"
  "tree_run (state_array_got_val # sts) c (CHR '','' # r) = tree_run (state_array_need_val # sts) c r"
  "tree_run (state_map_sep # sts) c (CHR '':'' # r) = tree_run (state_map_need_val # sts) c r"
  by (auto intro!: run_step [OF punctuation(5)] run_step [OF punctuation(6)] simp: token_effect_def)

lemma run_key:
  assumes "st = state_map_start \<or> st = state_map_need_key" and "string_ok k"
  shows "tree_run (st # sts) c (quoted k @ r) = tree_run (state_map_sep # sts) (put_value (JString k) c) r"
proof (rule run_step [OF scan_lex_quoted])
  show "igsyajl_string_validate_utf8 k" using assms(2) by (simp add: string_ok_def)
  show "token_effect st sts (if \<exists>c \<in> set k. is_escaped c then tok_string_with_escapes else tok_string)
      (igsyajl_string_encode False k) c = Some (state_map_sep # sts, put_value (JString k) c)"
    using assms scalar_of_string [of k] by (auto simp: string_ok_def token_effect_def scalar_of_def split: if_splits)
qed (use assms in auto)

lemma newline_char: "newline = [CHR 0x0A]"
  by (simp add: newline_def)

lemma run_render:
  "canonical t \<Longrightarrow> closing r \<Longrightarrow> st \<in> value_states \<Longrightarrow>
     tree_run (st # sts) c (render d t @ r) = tree_run (got_value_state st # sts) (put_value t c) r"
  "canonical_entries es \<Longrightarrow> closing r \<Longrightarrow>
     tree_run ((if first then state_map_start else state_map_got_val) # sts)
       (c\<lparr> tc_stack := (None, JMap es0) # tc_stack c \<rparr>) (render_entries d first es @ r) =
     tree_run ((if first \<and> es = [] then state_map_start else state_map_got_val) # sts)
       (c\<lparr> tc_stack := (None, JMap (es0 @ es)) # tc_stack c \<rparr>) r"
  "canonical_values vs \<Longrightarrow> closing r \<Longrightarrow>
     tree_run ((if first then state_array_start else state_array_got_val) # sts)
       (c\<lparr> tc_stack := (None, JArray vs0) # tc_stack c \<rparr>) (render_values d first vs @ r) =
     tree_run ((if first \<and> vs = [] then state_array_start else state_array_got_val) # sts)
       (c\<lparr> tc_stack := (None, JArray (vs0 @ vs)) # tc_stack c \<rparr>) r"
proof (induction d t and d first es and d first vs arbitrary: st sts c r and sts c r es0 and sts c r vs0
    rule: render_render_entries_render_values.induct)
  case (1 d s)
  then have s: "igsyajl_string_validate_utf8 s" "CHR 0x00 \<notin> set s" by (simp_all add: string_ok_def)
  show ?case
    using run_scalar [OF 1(3) scan_lex_quoted [OF s(1)] scalar_of_string [OF s(2)]] s(1)
    by (simp add: string_text_def)
next
  case (2 d i x rr iv dv)
  let ?t = "if iv then fmt_d i else double_text x"
  from 2(1) have t: "numeral_text ?t" "number_node ?t = Some (JNumber i x rr iv dv)" by (simp_all add: Let_def)
  obtain tok where tok: "scan_lex True True (?t @ r) = Token tok ?t r" "tok = tok_integer \<or> tok = tok_double"
    using scan_lex_number [OF t(1) 2(2)] by blast
  have "scalar_of tok ?t = Some (JNumber i x rr iv dv)" using tok(2) t(2) by (auto simp: scalar_of_def)
  with run_scalar [OF 2(3) tok(1)] show ?case by simp
next
  case (3 d es)
  have "closing (newline @ indent d @ ''}'' @ r)" by (simp add: newline_char)
  note ih = "3.IH" [OF _ this, of "got_value_state st # sts" "[]" c]
  show ?case
    using "3.prems" ih by (simp add: run_open run_blank run_close)
next
  case (4 d vs)
  have "closing (newline @ indent d @ '']'' @ r)" by (simp add: newline_char)
  note ih = "4.IH" [OF _ this, of "got_value_state st # sts" "[]" c]
  show ?case
    using "4.prems" ih by (simp add: run_open run_blank run_close)
next
  case (5 d)
  show ?case using run_scalar [OF 5(3) words(1)] by (simp add: scalar_of_def)
next
  case (6 d)
  show ?case using run_scalar [OF 6(3) words(2)] by (simp add: scalar_of_def)
next
  case (7 d)
  show ?case using run_scalar [OF 7(3) words(3)] by (simp add: scalar_of_def)
next
  case (8 d first)
  show ?case by simp
next
  case (9 d first k v es)
  let ?c = "c\<lparr> tc_stack := (None, JMap es0) # tc_stack c \<rparr>"
  let ?rest = "render_entries d False es @ r"
  have ok: "string_ok k" "canonical v" "canonical_entries es" using "9.prems"(1) by simp_all
  have cl: "closing ?rest" using "9.prems"(2) by (cases es) auto
  have "tree_run ((if first then state_map_start else state_map_got_val) # sts) ?c
      (render_entries d first ((k, v) # es) @ r) =
    tree_run ((if first then state_map_start else state_map_need_key) # sts) ?c
      (quoted k @ '': '' @ render d v @ ?rest)"
    by (simp add: run_comma run_blank)
  also have "\<dots> = tree_run (state_map_sep # sts) (put_value (JString k) ?c) ('': '' @ render d v @ ?rest)"
    by (rule run_key) (use ok in auto)
  also have "\<dots> = tree_run (state_map_need_val # sts) (put_value (JString k) ?c) (render d v @ ?rest)"
    using run_blank [of "'' ''"] by (simp add: run_comma lex_space_def)
  also have "\<dots> = tree_run (state_map_got_val # sts) (put_value v (put_value (JString k) ?c)) ?rest"
    using "9.IH"(1) [OF ok(2) cl] by (simp add: got_value_state_def)
  also have "put_value v (put_value (JString k) ?c) = c\<lparr> tc_stack := (None, JMap (es0 @ [(k, v)])) # tc_stack c \<rparr>"
    by (simp add: put_value_def)
  finally show ?case using "9.IH"(2) [OF ok(3) "9.prems"(2), of sts "es0 @ [(k, v)]" c] by simp
next
  case (10 d first)
  show ?case by simp
next
  case (11 d first v vs)
  let ?c = "c\<lparr> tc_stack := (None, JArray vs0) # tc_stack c \<rparr>"
  let ?rest = "render_values d False vs @ r"
  have ok: "canonical v" "canonical_values vs" using "11.prems"(1) by simp_all
  have cl: "closing ?rest" using "11.prems"(2) by (cases vs) auto
  have "tree_run ((if first then state_array_start else state_array_got_val) # sts) ?c
      (render_values d first (v # vs) @ r) =
    tree_run ((if first then state_array_start else state_array_need_val) # sts) ?c (render d v @ ?rest)"
    by (simp add: run_comma run_blank)
  also have "\<dots> = tree_run (state_array_got_val # sts) (put_value v ?c) ?rest"
    using "11.IH"(1) [OF ok(1) cl] by (simp add: got_value_state_def)
  also have "put_value v ?c = c\<lparr> tc_stack := (None, JArray (vs0 @ [v])) # tc_stack c \<rparr>"
    by (simp add: put_value_def)
  finally show ?case using "11.IH"(2) [OF ok(2) "11.prems"(2), of sts "vs0 @ [v]" c] by simp
qed

section \<open>There and back\<close>

lemma tree_of_render: "canonical t \<Longrightarrow> tree_of_text (render 0 t @ newline) = Some (Some t)"
proof -
  assume "canonical t"
  then have "tree_run [state_start] (empty_tree None) (render 0 t @ newline @ '' '') =
      tree_run [state_parse_complete] (put_value t (empty_tree None)) (newline @ '' '')"
    using run_render(1) [of t "newline @ '' ''" state_start "[]" "empty_tree None" 0]
    by (simp add: newline_char got_value_state_def)
  also have "\<dots> = Accepted (put_value t (empty_tree None))" by (simp add: tree_run.simps)
  finally show ?thesis by (simp add: tree_of_text_def tree_of_result_def put_value_def empty_tree_def)
qed

lemma pairs_plain: "list_all (\<lambda>c. c \<noteq> CHR 0x5C) w \<Longrightarrow> pairs_from False (w @ r) = pairs_from False r"
proof (induction w)
  case (Cons c w)
  then have "\<not> high_surrogate (c # w @ r)" by (auto simp: high_surrogate_def numeral_2_eq_2)
  with Cons show ?case by simp
qed simp

lemma pairs_encoded: "pairs_from False (igsyajl_string_encode False s @ r) = pairs_from False r"
proof (induction s)
  case (Cons c s)
  show ?case
  proof (cases "is_escaped c")
    case True
    then obtain e where "enc_char False c = CHR 0x5C # e" "escape_ok e" using enc_char_escape by blast
    with Cons show ?thesis by (simp add: encode_Cons escape_ok_def del: pairs_from.simps)
  next
    case False
    with enc_char_plain [OF False] Cons pairs_plain [of "[c]"] show ?thesis by (simp add: encode_Cons del: pairs_from.simps)
  qed
qed (simp add: encode_concat)

lemma pairs_quoted [simp]: "pairs_from False (quoted s @ r) = pairs_from False r"
  using pairs_plain [of "[CHR 0x22]"] by (simp add: quoted_def pairs_encoded del: pairs_from.simps)

lemma pairs_blank [simp]: "pairs_from False (newline @ r) = pairs_from False r" "pairs_from False (indent d @ r) = pairs_from False r"
proof -
  have "list_all (\<lambda>c. c \<noteq> CHR 0x5C) newline" "list_all (\<lambda>c. c \<noteq> CHR 0x5C) (indent d)"
    by (auto simp: newline_def indent_def list_all_iff)
  then show "pairs_from False (newline @ r) = pairs_from False r" "pairs_from False (indent d @ r) = pairs_from False r"
    by (simp_all only: pairs_plain)
qed

lemma pairs_char: "c \<noteq> CHR 0x5C \<Longrightarrow> pairs_from False (c # r) = pairs_from False r"
  using pairs_plain [of "[c]" r] by simp

lemma pairs_render:
  "canonical t \<Longrightarrow> pairs_from False (render d t @ r) = pairs_from False r"
  "canonical_entries es \<Longrightarrow> pairs_from False (render_entries d first es @ r) = pairs_from False r"
  "canonical_values vs \<Longrightarrow> pairs_from False (render_values d first vs @ r) = pairs_from False r"
proof (induction d t and d first es and d first vs arbitrary: r and r and r
    rule: render_render_entries_render_values.induct)
  case (2 d i x rr iv dv)
  then have "list_all (\<lambda>c. c \<noteq> CHR 0x5C) (if iv then fmt_d i else double_text x)"
    by (auto simp: numeral_text_def Let_def list_all_iff)
  from pairs_plain [OF this] show ?case by simp
qed (simp_all add: string_ok_def string_text_def pairs_char del: pairs_from.simps)

lemma encode_no_nul: "CHR 0x00 \<notin> set (igsyajl_string_encode False s)"
proof (induction s)
  case (Cons c s)
  show ?case
  proof (cases "is_escaped c")
    case True
    then obtain e where "enc_char False c = CHR 0x5C # e" "escape_ok e" using enc_char_escape by blast
    with Cons show ?thesis by (simp add: encode_Cons escape_ok_def)
  next
    case False
    then have "c \<noteq> CHR 0x00" by (auto simp: is_escaped_def escaped_def)
    with enc_char_plain [OF False] Cons show ?thesis by (simp add: encode_Cons)
  qed
qed (simp add: encode_concat)

lemma printed_no_nul:
  "canonical t \<Longrightarrow> CHR 0x00 \<notin> set (render d t)"
  "canonical_entries es \<Longrightarrow> CHR 0x00 \<notin> set (render_entries d first es)"
  "canonical_values vs \<Longrightarrow> CHR 0x00 \<notin> set (render_values d first vs)"
proof (induction d t and d first es and d first vs rule: render_render_entries_render_values.induct)
  case (2 d i x rr iv dv)
  then have "numeral_text (if iv then fmt_d i else double_text x)" by (simp add: Let_def)
  then have "\<forall>c \<in> set (if iv then fmt_d i else double_text x). c \<noteq> CHR 0x00"
    unfolding numeral_text_def list_all_iff by blast
  then show ?case by (auto simp only: render.simps)
qed (auto simp: string_text_def quoted_def encode_no_nul newline_def indent_def)

lemma parse_render: "canonical t \<Longrightarrow> igs_json_node_parse_from_str (render 0 t @ newline) = Some (Some t)"
proof -
  assume t: "canonical t"
  let ?s = "render 0 t @ newline"
  have "\<forall>c \<in> set ?s. c \<noteq> CHR 0x00" using printed_no_nul(1) [OF t, of 0] by (auto simp: newline_def)
  then have "takeWhile (\<lambda>c. c \<noteq> CHR 0x00) ?s = ?s" by (simp only: takeWhile_eq_all_conv)
  moreover have "pairs_ok ?s" using pairs_render(1) [OF t, of 0 newline] pairs_blank(1) [of "[]"] by (simp add: pairs_ok_def)
  ultimately show ?thesis
    by (simp only: igs_json_node_parse_from_str_def tree_of_render [OF t] paired.tree_parse)
qed

section \<open>Integers\<close>

lemma dec_nat_first: "0 < n \<Longrightarrow> hd (dec_nat n) \<noteq> CHR ''0''"
proof (induction n rule: dec_nat.induct)
  case (1 n)
  show ?case
  proof (cases "n < 10")
    case True
    have "of_char (digit_char n) \<noteq> (of_char (CHR ''0'') :: nat)" using True 1 by (simp add: of_char_digit)
    with True show ?thesis by (subst dec_nat.simps) auto
  next
    case False
    with 1 show ?thesis by (subst dec_nat.simps) (simp add: hd_append)
  qed
qed

lemma scan_digits_all: "list_all is_digit_char ds \<Longrightarrow> \<not> is_digit_char c \<Longrightarrow> scan_digits (ds @ c # r) = Done () (c # r)"
  by (induction ds) simp_all

lemma scan_int_dec_nat:
  assumes "c = CHR '','' \<or> c = CHR 0x0A"
  shows "scan_int (dec_nat n @ [c]) = Done () [c]"
proof (cases "n = 0")
  case True
  moreover have "digit_char 0 = CHR ''0''" by code_simp
  ultimately show ?thesis by (simp add: scan_int_def dec_nat.simps)
next
  case False
  obtain d ds where d: "dec_nat n = d # ds" by (cases "dec_nat n") auto
  with False dec_nat_first [of n] dec_nat_digits [of n]
  have "d \<noteq> CHR ''0''" "is_digit_char d" "list_all is_digit_char ds" by (auto simp: list_all_iff)
  with assms d show ?thesis by (auto simp: scan_int_def scan_digits_all is_digit_char_def)
qed

lemma numeral_fmt_d: "numeral_text (fmt_d n)"
proof -
  have nb: "number_before c (fmt_d n)" if c: "c = CHR '','' \<or> c = CHR 0x0A" for c
  proof -
    have f: "scan_then (scan_frac [c]) scan_exp = Done tok_integer [c]" using c by (auto simp: scan_frac_def scan_exp_def)
    have "scan_number (fmt_d n @ [c]) = Done tok_integer [c]"
    proof (cases "n < 0")
      case True
      have "scan_number (CHR ''-'' # dec_nat (nat (- n)) @ [c]) = Done tok_integer [c]"
        unfolding scan_number_def using f scan_int_dec_nat [OF c, of "nat (- n)"] by simp
      with True show ?thesis by (simp add: fmt_d_def)
    next
      case False
      obtain d ds where d: "dec_nat (nat n) = d # ds" by (cases "dec_nat (nat n)") auto
      with dec_nat_digits [of "nat n"] digit_not_sign2 have "d \<noteq> CHR ''-''" by auto
      moreover have "scan_int (d # ds @ [c]) = Done () [c]" using scan_int_dec_nat [OF c, of "nat n"] d by simp
      ultimately have "scan_number (d # ds @ [c]) = Done tok_integer [c]" unfolding scan_number_def using f by simp
      with False d show ?thesis by (simp add: fmt_d_def)
    qed
    then show ?thesis by (simp add: number_before_def)
  qed
  have h: "is_digit_char (hd (dec_nat m))" for m
    using dec_nat_digits [of m] by (cases "dec_nat m") auto
  have "c \<noteq> CHR 0x5C \<and> c \<noteq> CHR 0x00" if "is_digit_char c" for c using that by (auto simp: is_digit_char_def)
  then have l: "list_all (\<lambda>c. c \<noteq> CHR 0x5C \<and> c \<noteq> CHR 0x00) (dec_nat m)" for m
    using dec_nat_digits [of m] unfolding list_all_iff by blast
  have "hd (fmt_d n) = CHR ''-'' \<or> is_digit_char (hd (fmt_d n))" using h [of "nat n"] by (simp add: fmt_d_def)
  moreover have "list_all (\<lambda>c. c \<noteq> CHR 0x5C \<and> c \<noteq> CHR 0x00) (fmt_d n)"
    using l [of "nat n"] l [of "nat (- n)"] by (simp add: fmt_d_def)
  ultimately show ?thesis
    using nb [of "CHR '',''"] nb [of "CHR 0x0A"] fmt_d_nonempty [of n] unfolding numeral_text_def by blast
qed

text \<open>Every integer of 64 bits but the least one comes back from its text.\<close>

definition integer_node :: "int \<Rightarrow> igs_json_node" where
  "integer_node n = the (number_node (fmt_d n))"

lemma fmt_d_c_string: "takeWhile (\<lambda>c. c \<noteq> CHR 0x00) (fmt_d n) = fmt_d n"
  unfolding takeWhile_eq_all_conv using fmt_d_no_nul [of n] by (auto simp: no_nul_def)

lemma integer_node_fields:
  assumes "- LLONG_MAX \<le> n" "n \<le> LLONG_MAX"
  shows "integer_node n = JNumber n (c_atof (fmt_d n)) (fmt_d n) True (\<not> strtod_erange (fmt_d n) \<and> strtod_all (fmt_d n))"
  using parse_integer_fmt_d [OF assms] by (simp add: integer_node_def number_node_def fmt_d_c_string Let_def)

lemma integer_canonical:
  assumes "- LLONG_MAX \<le> n" "n \<le> LLONG_MAX"
  shows "canonical (integer_node n)" and "json_ok d (integer_node n)"
  using parse_integer_fmt_d [OF assms] integer_node_fields [OF assms] numeral_fmt_d [of n]
  by (simp_all add: number_node_def fmt_d_c_string Let_def)

end
