(* ===== verification/Yajl_Typed.thy ===== *)
theory Yajl_Typed
  imports Yajl_Text
begin

text \<open>
  What the trees of parsed texts are: their strings and keys are UTF-8 and end
  before a NUL, and each number carries the text it was read from.
\<close>

fun typed :: "igs_json_node \<Rightarrow> bool"
  and typed_entries :: "(string \<times> igs_json_node) list \<Rightarrow> bool"
  and typed_values :: "igs_json_node list \<Rightarrow> bool" where
  "typed (JString s) \<longleftrightarrow> igsyajl_string_validate_utf8 s \<and> CHR 0x00 \<notin> set s"
| "typed (JNumber i x r iv dv) \<longleftrightarrow> number_node r = Some (JNumber i x r iv dv)"
| "typed (JMap es) \<longleftrightarrow> typed_entries es"
| "typed (JArray vs) \<longleftrightarrow> typed_values vs"
| "typed JTrue \<longleftrightarrow> True"
| "typed JFalse \<longleftrightarrow> True"
| "typed JNull \<longleftrightarrow> True"
| "typed_entries [] \<longleftrightarrow> True"
| "typed_entries ((k, v) # es) \<longleftrightarrow> igsyajl_string_validate_utf8 k \<and> CHR 0x00 \<notin> set k \<and> typed v \<and> typed_entries es"
| "typed_values [] \<longleftrightarrow> True"
| "typed_values (v # vs) \<longleftrightarrow> typed v \<and> typed_values vs"

lemma typed_snoc [simp]:
  "typed_entries (es @ [(k, v)]) \<longleftrightarrow> typed_entries es \<and> igsyajl_string_validate_utf8 k \<and> CHR 0x00 \<notin> set k \<and> typed v"
  "typed_values (vs @ [v]) \<longleftrightarrow> typed_values vs \<and> typed v"
proof -
  show "typed_entries (es @ [(k, v)]) \<longleftrightarrow> typed_entries es \<and> igsyajl_string_validate_utf8 k \<and> CHR 0x00 \<notin> set k \<and> typed v"
    by (induction es) auto
  show "typed_values (vs @ [v]) \<longleftrightarrow> typed_values vs \<and> typed v" by (induction vs) auto
qed

section \<open>The values of tokens\<close>

lemma conts_takeWhile:
  "conts n s = Some r \<Longrightarrow> conts n (takeWhile (\<lambda>c. c \<noteq> CHR 0x00) s) = Some (takeWhile (\<lambda>c. c \<noteq> CHR 0x00) r)"
proof (induction n s rule: conts.induct)
  case (3 n c s)
  then have "is_cont c" "c \<noteq> CHR 0x00" by (auto simp: is_cont_def split: if_splits)
  with 3 show ?case by simp
qed simp_all

lemma nul_cut_ok: "igsyajl_string_validate_utf8 s \<Longrightarrow> igsyajl_string_validate_utf8 (nul_cut s) \<and> CHR 0x00 \<notin> set (nul_cut s)"
proof (induction s rule: igsyajl_string_validate_utf8.induct)
  case (2 c s)
  then obtain n u where n: "lead_len c = Some n" "conts n s = Some u" "igsyajl_string_validate_utf8 u"
    by (auto split: option.splits)
  have "CHR 0x00 \<notin> set (takeWhile (\<lambda>c. c \<noteq> CHR 0x00) s)" by (auto dest: set_takeWhileD)
  with "2.IH" [OF n] n conts_takeWhile [OF n(2)] show ?case by (simp add: nul_cut_def)
qed (simp add: nul_cut_def)

lemma typed_number: "number_node r = Some v \<Longrightarrow> typed v"
  by (auto simp: number_node_def Let_def bind_some_eqs takeWhile_idem)

lemma typed_scalar:
  assumes "scan_lex True True s = Token tok x r" and "pairs_ok s" and "scalar_of tok x = Some v"
  shows "typed v"
proof (cases "tok = tok_string \<or> tok = tok_string_with_escapes")
  case True
  from scan_lex_string [OF assms(1) True] obtain a where a: "s = a @ CHR 0x22 # x @ CHR 0x22 # r"
    "scan_string True False (x @ CHR 0x22 # r) = Done tok r" by blast
  have "pairs_ok (x @ CHR 0x22 # r)" using assms(2) a(1) pairs_ok_suffix [of "a @ [CHR 0x22]"] by simp
  from string_body [OF a(2) this] obtain t where "decode_list [] [] x = Some t" "igsyajl_string_validate_utf8 t"
    "tok = tok_string \<longrightarrow> t = x" by auto
  with True assms(3) nul_cut_ok [of t] show ?thesis by (auto simp: scalar_of_def unescaped_def)
next
  case False
  with assms(3) typed_number [of x v] show ?thesis by (cases tok) (auto simp: scalar_of_def)
qed

section \<open>The run\<close>

definition typed_context :: "tree_context \<Rightarrow> bool" where
  "typed_context c \<longleftrightarrow>
     list_all (\<lambda>(k, v). typed v \<and> (case k of None \<Rightarrow> True | Some k \<Rightarrow> typed (JString k))) (tc_stack c)
     \<and> (case tc_root c of None \<Rightarrow> True | Some v \<Rightarrow> typed v)"

lemma typed_put: "typed_context c \<Longrightarrow> typed v \<Longrightarrow> typed_context (put_value v c)"
proof (cases "tc_stack c")
  case (Cons e es)
  obtain k w where e: "e = (k, w)" by (cases e)
  assume "typed_context c" "typed v"
  with Cons e show ?thesis by (cases w; cases k; cases v) (auto simp: typed_context_def put_value_def)
qed (simp add: typed_context_def put_value_def)

lemma typed_close: "typed_context c \<Longrightarrow> tc_stack c \<noteq> [] \<Longrightarrow> typed_context (close_node c)"
proof -
  assume c: "typed_context c" "tc_stack c \<noteq> []"
  then obtain k v es where s: "tc_stack c = (k, v) # es" by (cases "tc_stack c") auto
  with c have "typed_context (c\<lparr> tc_stack := es \<rparr>)" "typed v" by (auto simp: typed_context_def)
  from typed_put [OF this] s show ?thesis by (simp add: close_node_def)
qed

lemma typed_effect:
  assumes c: "typed_context c" and s: "synced (st # sts) c" and t: "scan_lex True True s = Token tok x r" "pairs_ok s"
    and e: "token_effect st sts tok x c = Some (sts', c')"
  shows "typed_context c'"
proof -
  have o: "typed_context (open_node (JMap []) c)" "typed_context (open_node (JArray []) c)"
    using c by (simp_all add: typed_context_def open_node_def)
  have cl: "typed_context (close_node c)"
    if "st = state_map_start \<or> st = state_map_got_val \<or> st = state_array_start \<or> st = state_array_got_val"
  proof -
    have "tc_stack c \<noteq> []" using s that by (auto simp: synced_def)
    with c show ?thesis by (rule typed_close)
  qed
  have k: "typed_context (put_value v c)" if "scalar_of tok x = Some v" for v
    by (rule typed_put [OF c typed_scalar [OF t that]])
  have n: "scalar_of tok_string y = Some (JString (nul_cut y))"
    "scalar_of tok_string_with_escapes y = Some (JString (nul_cut (unescaped y)))" for y
    by (simp_all add: scalar_of_def)
  have k1: "typed_context (put_value (JString (nul_cut x)) c)" if "tok = tok_string" by (rule k) (simp add: that n)
  have k2: "typed_context (put_value (JString (nul_cut (unescaped x))) c)" if "tok = tok_string_with_escapes"
    by (rule k) (simp add: that n)
  show ?thesis
  proof (cases "st \<in> value_states")
    case True
    show ?thesis
    proof (cases "scalar_of tok x")
      case None
      with e True o cl show ?thesis by (auto simp: token_effect_def split: if_splits)
    next
      case (Some v)
      with e True k show ?thesis by (auto simp: token_effect_def)
    qed
  next
    case False
    with e c cl k1 k2 show ?thesis by (auto simp: token_effect_def split: if_splits)
  qed
qed

lemma typed_run:
  "tree_run sts c s = Accepted c' \<Longrightarrow> typed_context c \<Longrightarrow> synced sts c \<Longrightarrow> pairs_ok s \<Longrightarrow> typed_context c'"
proof (induction sts c s rule: tree_run.induct)
  case (2 st sts c s)
  show ?case
  proof (cases "st = state_parse_complete")
    case True
    with 2 show ?thesis by (simp add: tree_run.simps)
  next
    case False
    with 2 obtain tok x r sts' c1 where t: "scan_lex True True s = Token tok x r"
      "token_effect st sts tok x c = Some (sts', c1)" "tree_run sts' c1 r = Accepted c'" "st \<notin> error_states"
      "\<not> overflows st tok x"
      unfolding tree_run.simps(2) [of st sts c s] by (auto split: if_splits lexeme.splits option.splits)
    have "typed_context c1" by (rule typed_effect [OF 2(3,4) t(1) 2(5) t(2)])
    moreover have "synced sts' c1" by (rule effect_synced [OF 2(4) t(2)])
    moreover have "pairs_ok r" by (rule pairs_ok_tidy [OF 2(5) left_over_tidy(1) [OF t(1)]])
    ultimately show ?thesis by (rule "2.IH" [OF False t(4,1,5,2) refl t(3)])
  qed
qed (simp add: tree_run.simps)

lemma typed_tree: "tree_of_text s = Some (Some t) \<Longrightarrow> pairs_ok s \<Longrightarrow> typed t"
proof -
  assume t: "tree_of_text s = Some (Some t)" and p: "pairs_ok s"
  then obtain c where c: "tree_run [state_start] (empty_tree None) (s @ '' '') = Accepted c" "tc_root c = Some t"
    by (auto simp: tree_of_text_def tree_of_result_def split: tree_result.splits)
  have "typed_context (empty_tree None)" by (simp add: typed_context_def empty_tree_def)
  from typed_run [OF c(1) this empty_synced pairs_ok_blank [OF p]] c(2) show ?thesis
    by (simp add: typed_context_def)
qed

end
