(* ===== verification/Igs_Text.thy ===== *)
theory Igs_Text
  imports Igs_Mapping Yajl_Round Yajl_Typed
begin

text \<open>
  Mappings as texts: what \<open>parser_export_mapping\<close> writes is what
  \<open>parser_load_mapping\<close> reads, through the generator, the lexer, the parser and the
  trees of the JSON layer.
\<close>

definition mapping_utf8 :: "igs_mapping \<Rightarrow> bool" where
  "mapping_utf8 m \<longleftrightarrow>
     (\<forall>e \<in> set (mg_map_elements m). igsyajl_string_validate_utf8 (mp_from_input e)
        \<and> igsyajl_string_validate_utf8 (mp_to_agent e) \<and> igsyajl_string_validate_utf8 (mp_to_output e))
     \<and> (\<forall>e \<in> set (mg_split_elements m). igsyajl_string_validate_utf8 (sp_from_input e)
        \<and> igsyajl_string_validate_utf8 (sp_to_agent e) \<and> igsyajl_string_validate_utf8 (sp_to_output e))"

lemma canonical_list: "canonical_values vs \<longleftrightarrow> (\<forall>v \<in> set vs. canonical v)"
  by (induction vs) auto

lemma no_nul_text: "clean_text n s \<Longrightarrow> CHR 0x00 \<notin> set s"
  by (auto simp: clean_text_def no_nul_def)

lemma key_ok: "\<forall>c \<in> set k. (of_char c :: nat) \<le> 0x7f \<and> c \<noteq> CHR 0x00 \<Longrightarrow> string_ok k"
  using validate_ascii [of k] by (auto simp: string_ok_def)

lemma entry_canonical:
  assumes "string_ok i" "string_ok a" "string_ok out"
  shows "canonical (entry_tree ''fromInput'' ''toAgent'' ''toOutput'' i a out)"
  using assms by (simp add: entry_tree_def str_entry_def key_ok)

lemma mapping_canonical:
  assumes "mapping_clean m" and "mapping_utf8 m"
  shows "canonical (mapping_tree m)"
proof -
  have "canonical (map_tree e)" if "e \<in> set (mg_map_elements m)" for e
    using assms that no_nul_text unfolding map_tree_def mapping_clean_def mapping_utf8_def
    by (intro entry_canonical) (auto simp: string_ok_def)
  moreover have "canonical (split_tree e)" if "e \<in> set (mg_split_elements m)" for e
    using assms that no_nul_text unfolding split_tree_def mapping_clean_def mapping_utf8_def
    by (intro entry_canonical) (auto simp: string_ok_def)
  ultimately show ?thesis by (simp add: mapping_tree_def canonical_list key_ok)
qed

lemma export_mapping_text: "parser_export_mapping m = Some (mapping_text m)"
  by (simp add: export_mapping_tree node_dump_render mapping_trees_ok mapping_text_def)

lemma load_mapping_text:
  assumes "mapping_wf m" "mapping_clean m" "mapping_utf8 m"
  shows "parser_load_mapping (mapping_text m) = Some (Some (m\<lparr> mg_json := None, mg_json_legacy := None \<rparr>))"
proof -
  have "igs_json_node_parse_from_str (mapping_text m) = Some (Some (mapping_tree m))"
    unfolding mapping_text_def by (rule parse_render [OF mapping_canonical [OF assms(2,3)]])
  moreover have "is_map (mapping_tree m)" by (simp add: is_map_def mapping_tree_def)
  ultimately show ?thesis
    using parse_mapping_tree [OF assms(1,2)] by (simp add: parser_load_mapping_def loaded_with_def)
qed

end
