(* ===== verification/Igs_Admin.thy ===== *)
theory Igs_Admin
  imports Igs_Agent
begin

text \<open>
  The process as a whole: the files and streams of the log (src/src/igs_admin.c), the time that all agents share, and loading and saving of
  definitions and mappings (src/src/igs_parser.c, src/src/igs_definition.c,
  src/src/igs_mapping.c). Files are parameters: what a file holds, whether the log can be
  written and whether \<open>fopen\<close> succeeds. What the log receives is not modelled.
\<close>

record zyre_event =
  ze_type :: string
  ze_peer_uuid :: string
  ze_peer_name :: string
  ze_peer_addr :: string
  ze_headers :: "(string, string) table"
  ze_group :: string
  ze_msg :: "string list"

record node_env = app_env +
  node_file :: "string \<Rightarrow> string option"
  home :: "string option"
  file_writable :: "string \<Rightarrow> bool"
  file_opens :: "string \<Rightarrow> bool"
  zyre_shout_ok :: "string \<Rightarrow> string list \<Rightarrow> bool"
  call_channels :: "nat \<Rightarrow> zyre_event \<Rightarrow> nat \<Rightarrow> igs_core \<Rightarrow> igs_core option"

text \<open>The environments of the components inside this one.\<close>

definition apps :: "node_env \<Rightarrow> app_env" where
  "apps env = app_env.truncate env"

definition files :: "node_env \<Rightarrow> parse_env" where
  "files env = igs_env.extend (igs_env.truncate env) (parse_env.fields (node_file env))"

section \<open>The log\<close>

text \<open>The same news for every agent of the context.\<close>

fun shout_news :: "string \<Rightarrow> string \<Rightarrow> addr list \<Rightarrow> igs_core \<Rightarrow> igs_core option" where
  "shout_news title v [] c = Some c"
| "shout_news title v (p # ps) c =
     do { a \<leftarrow> deref p c;
          u \<leftarrow> ag_uuid a;
          shout_news title v ps (emit (Zyre_Shout IGS_PRIVATE_CHANNEL [title, v, u]) c) }"

definition flag_str :: "bool \<Rightarrow> string" where
  "flag_str b = (if b then ''1'' else ''0'')"

definition igs_log_set_stream :: "node_env \<Rightarrow> bool \<Rightarrow> unit core_op" where
  "igs_log_set_stream env stream = with_core_agent (apps env) (\<lambda>_. locked (\<lambda>c.
     if stream = nt_log_in_stream (cx_network c) then Some ((), c)
     else (let c = set_network (\<lambda>n. n\<lparr> nt_log_in_stream := stream \<rparr>) c
           in if cx_network_actor c \<and> cx_node c
              then do { c \<leftarrow> shout_news ''LOG_IN_STREAM'' (flag_str stream) (map snd (cx_agents c)) c; Some ((), c) }
              else Some ((), c))))"

text \<open>
  \<open>admin_make_file_path\<close> into a zeroed buffer of 4096 bytes; \<open>strncat\<close> bounds what it
  appends and not the whole.
\<close>

definition admin_make_file_path :: "node_env \<Rightarrow> string \<Rightarrow> string option" where
  "admin_make_file_path env from =
     (case from of
        ch # r \<Rightarrow>
          if ch = CHR 0x7E then
            (case home env of
               None \<Rightarrow> Some []
             | Some h \<Rightarrow> (let to = take 4095 h @ take 4095 r in if length to \<le> 4095 then Some to else None))
          else Some (take 4095 from)
      | [] \<Rightarrow> Some [])"

definition log_file_flag :: "bool \<Rightarrow> igs_core \<Rightarrow> igs_core option" where
  "log_file_flag allow c =
     (if allow = nt_log_in_file (cx_network c) then Some c
      else (let c = set_network (\<lambda>n. n\<lparr> nt_log_in_file := allow \<rparr>) c
            in if cx_network_actor c \<and> cx_node c
               then shout_news ''LOG_IN_FILE'' (flag_str allow) (map snd (cx_agents c)) c else Some c))"

definition log_file_switch :: "node_env \<Rightarrow> string \<Rightarrow> igs_core \<Rightarrow> igs_core option" where
  "log_file_switch env path c =
     do { tmp_path \<leftarrow> admin_make_file_path env path;
          if \<not> file_writable env tmp_path \<or> nt_log_file_path (cx_network c) = tmp_path then Some c
          else (let c = set_network (\<lambda>n. n\<lparr> nt_log_file_path := tmp_path, nt_log_file := file_opens env tmp_path \<rparr>) c
                in if file_opens env tmp_path \<and> cx_node c
                   then shout_news ''LOG_FILE_PATH'' tmp_path (map snd (cx_agents c)) c else Some c) }"

definition igs_log_set_file :: "node_env \<Rightarrow> bool \<Rightarrow> string option \<Rightarrow> unit core_op" where
  "igs_log_set_file env allow path = with_core_agent (apps env) (\<lambda>_. locked (\<lambda>c.
     do { c \<leftarrow> log_file_flag allow c;
          c \<leftarrow> (if path = None \<or> path = Some []
               then Some (set_network (\<lambda>n. n\<lparr> nt_log_file := False, nt_log_file_path := [] \<rparr>) c)
               else log_file_switch env (the path) c);
          Some ((), c) }))"

definition igs_log_file :: "node_env \<Rightarrow> bool core_op" where
  "igs_log_file env = with_core_agent (apps env) (\<lambda>_ c. Some (nt_log_in_file (cx_network c), c))"

definition igs_log_stream :: "node_env \<Rightarrow> bool core_op" where
  "igs_log_stream env = with_core_agent (apps env) (\<lambda>_ c. Some (nt_log_in_stream (cx_network c), c))"

definition igs_log_set_file_path :: "node_env \<Rightarrow> string option \<Rightarrow> unit core_op" where
  "igs_log_set_file_path env path c = igs_log_set_file env (nt_log_in_file (cx_network c)) path c"

definition igs_log_file_path :: "node_env \<Rightarrow> string option core_op" where
  "igs_log_file_path env = with_core_agent (apps env) (\<lambda>_. locked (\<lambda>c.
     Some (if nt_log_file_path (cx_network c) = [] then None else Some (nt_log_file_path (cx_network c)), c)))"

section \<open>The time of all agents\<close>

fun publish_outputs :: "app_env \<Rightarrow> addr \<Rightarrow> igs_io list \<Rightarrow> igs_core \<Rightarrow> igs_core option" where
  "publish_outputs env p [] c = Some c"
| "publish_outputs env p (io # ios) c =
     do { a \<leftarrow> deref p c;
          (_, c) \<leftarrow> network_publish_output (pub_env.truncate env) a io c;
          publish_outputs env p ios c }"

fun rt_agents :: "app_env \<Rightarrow> addr list \<Rightarrow> igs_core \<Rightarrow> igs_core option" where
  "rt_agents env [] c = Some c"
| "rt_agents env (p # ps) c =
     do { a \<leftarrow> deref p c;
          let c = store p (a\<lparr> ag_rt_timestamps_enabled := True \<rparr>) c;
          c \<leftarrow> (case ag_definition a of
                 None \<Rightarrow> Some c
               | Some d \<Rightarrow> if ag_rt_synchronous_mode a then publish_outputs env p (map snd (df_outputs d)) c else Some c);
          rt_agents env ps c }"

definition igs_rt_set_time :: "app_env \<Rightarrow> int \<Rightarrow> unit core_op" where
  "igs_rt_set_time env us = with_core_agent env (\<lambda>_. locked (\<lambda>c.
     do { c \<leftarrow> rt_agents env (map snd (cx_agents c)) (c\<lparr> cx_rt_current_microseconds := us \<rparr>); Some ((), c) }))"

definition igs_rt_time :: "app_env \<Rightarrow> int core_op" where
  "igs_rt_time env = with_core_agent env (\<lambda>_ c. Some (cx_rt_current_microseconds c, c))"

section \<open>Loading and saving\<close>

text \<open>
  The new definition is put in place under the lock; \<open>igsagent_set_name\<close> is then called
  with the name the definition has already. A NULL name is an abort there.
\<close>

definition load_definition_body ::
    "(string \<Rightarrow> igs_agent \<Rightarrow> igs_agent) \<Rightarrow> igs_definition option option \<Rightarrow> string \<Rightarrow> igs_agent
     \<Rightarrow> (igs_definition option \<times> igs_agent) option" where
  "load_definition_body upd loaded path a =
     do { tmp \<leftarrow> loaded;
          case tmp of
            None \<Rightarrow> Some (None, a)
          | Some d \<Rightarrow>
              do { c_assert (ag_definition a \<noteq> None);
                   d \<leftarrow> definition_update_json d;
                   Some (Some d, (upd path a)\<lparr> ag_definition := Some d, ag_need_definition_update := True \<rparr>) } }"

definition load_definition ::
    "(string \<Rightarrow> igs_agent \<Rightarrow> igs_agent) \<Rightarrow> igs_definition option option \<Rightarrow> string \<Rightarrow> addr \<Rightarrow> igs_result core_op" where
  "load_definition upd loaded path p = with_agent p IGS_FAILURE (\<lambda>c.
     do { (tmp, c) \<leftarrow> locked (on_agent p (load_definition_body upd loaded path)) c;
          case tmp of
            None \<Rightarrow> Some (IGS_FAILURE, c)
          | Some d \<Rightarrow> do { n \<leftarrow> df_name d; (_, c) \<leftarrow> igsagent_set_name p n c; Some (IGS_SUCCESS, c) } })"

definition igsagent_definition_load_str :: "node_env \<Rightarrow> addr \<Rightarrow> string \<Rightarrow> igs_result core_op" where
  "igsagent_definition_load_str env p json_str =
     load_definition (\<lambda>_ a. a) (parser_load_definition (files env) json_str) [] p"

definition igsagent_definition_load_file :: "node_env \<Rightarrow> addr \<Rightarrow> string \<Rightarrow> igs_result core_op" where
  "igsagent_definition_load_file env p file_path =
     load_definition (\<lambda>path a. a\<lparr> ag_definition_path := Some path \<rparr>) (parser_load_definition_from_path (files env) file_path)
       (take IGS_MAX_PATH_LENGTH file_path) p"

text \<open>\<open>fopen\<close> empties the file before anything is written.\<close>

definition save_json ::
    "node_env \<Rightarrow> (igs_agent \<Rightarrow> string option) \<Rightarrow> (igs_agent \<Rightarrow> string option option) \<Rightarrow> addr \<Rightarrow> unit core_op" where
  "save_json env path_of json_of p = with_agent p () (\<lambda>c.
     do { a \<leftarrow> deref p c;
          json \<leftarrow> json_of a;
          case path_of a of
            None \<Rightarrow> Some ((), c)
          | Some path \<Rightarrow> locked (\<lambda>c.
              Some ((), if file_opens env path then emit (File_Written path (case json of None \<Rightarrow> [] | Some j \<Rightarrow> j)) c else c)) c })"

definition igsagent_definition_save :: "node_env \<Rightarrow> addr \<Rightarrow> unit core_op" where
  "igsagent_definition_save env = save_json env ag_definition_path (\<lambda>a. map_option df_json (ag_definition a))"

definition igsagent_mapping_save :: "node_env \<Rightarrow> addr \<Rightarrow> unit core_op" where
  "igsagent_mapping_save env = save_json env ag_mapping_path (\<lambda>a. map_option mg_json (ag_mapping a))"

end
