(* ===== verification/Igs_Split_Api.thy ===== *)
theory Igs_Split_Api
  imports Igs_Admin
begin

text \<open>
  The interface of splits and the messages between splitters and workers (the second half
  of src/src/igs_split.c). A split is announced to the agents it names by WORKER_HELLO; a
  work arrives as SPLITTER_WORK and is answered by WORKER_READY.
\<close>

section \<open>Splits of an agent\<close>

definition igsagent_split_count :: "addr \<Rightarrow> nat core_op" where
  "igsagent_split_count p = with_agent p 0 (\<lambda>c.
     do { has_mapping p c;
          locked (read_agent p (\<lambda>a. do { m \<leftarrow> ag_mapping a; Some (length (mg_split_elements m)) })) c })"

definition set_splits :: "igs_split list \<Rightarrow> igs_agent \<Rightarrow> igs_agent" where
  "set_splits es a = a\<lparr> ag_mapping := map_option (\<lambda>m. m\<lparr> mg_split_elements := es \<rparr>) (ag_mapping a) \<rparr>"

text \<open>Whether the split is new, with its id.\<close>

definition split_add_body :: "string \<Rightarrow> string \<Rightarrow> string \<Rightarrow> igs_agent \<Rightarrow> ((u64 \<times> bool) \<times> igs_agent) option" where
  "split_add_body from_our_input to_agent with_output a =
     do { m \<leftarrow> ag_mapping a;
          let hash = entry_id from_our_input to_agent with_output;
          if \<exists>e \<in> set (mg_split_elements m). sp_id e = hash then Some ((hash, False), a)
          else do { a \<leftarrow> mapping_changed
                      (set_splits (mg_split_elements m @ [new_split from_our_input to_agent with_output]) a);
                    Some ((hash, True), a) } }"

definition hello_message :: "string \<Rightarrow> string \<Rightarrow> string \<Rightarrow> string list" where
  "hello_message uuid input out = [''WORKER_HELLO'', uuid, input, out, fmt_d IGS_DEFAULT_WORKER_CREDIT]"

fun hello_remotes ::
    "app_env \<Rightarrow> addr \<Rightarrow> string \<Rightarrow> string \<Rightarrow> string \<Rightarrow> igs_remote_agent list \<Rightarrow> igs_core \<Rightarrow> igs_core option" where
  "hello_remotes env p input to_agent out [] c = Some c"
| "hello_remotes env p input to_agent out (ra # ras) c =
     do { d \<leftarrow> ra_definition ra;
          n \<leftarrow> df_name d;
          c \<leftarrow> (if n = to_agent then
                 do { a \<leftarrow> deref p c;
                      u \<leftarrow> ag_uuid a;
                      (_, c) \<leftarrow> unlocked (igs_channel_whisper_zmsg (net_env.truncate env) (ra_uuid ra) (hello_message u input out)) c;
                      Some c }
               else Some c);
          hello_remotes env p input to_agent out ras c }"

definition igsagent_split_add :: "app_env \<Rightarrow> addr \<Rightarrow> string \<Rightarrow> string \<Rightarrow> string \<Rightarrow> u64 core_op" where
  "igsagent_split_add env p from_our_input to_agent with_output = with_agent p 0 (\<lambda>c.
     do { c_assert (from_our_input \<noteq> []); checked from_our_input IGS_MAX_IO_NAME_LENGTH;
          c_assert (to_agent \<noteq> []); checked to_agent IGS_MAX_AGENT_NAME_LENGTH;
          c_assert (with_output \<noteq> []); checked with_output IGS_MAX_IO_NAME_LENGTH;
          locked (\<lambda>c.
            do { ((hash, added), c) \<leftarrow> on_agent p (split_add_body from_our_input to_agent with_output) c;
                 c \<leftarrow> (if added
                      then hello_remotes env p from_our_input to_agent with_output (map snd (cx_remote_agents c)) c
                      else Some c);
                 Some (hash, c) }) c })"

text \<open>The split that is removed, if there was one.\<close>

definition split_remove_body :: "u64 \<Rightarrow> igs_agent \<Rightarrow> (igs_split option \<times> igs_agent) option" where
  "split_remove_body the_id a =
     do { m \<leftarrow> ag_mapping a;
          case find (\<lambda>e. sp_id e = the_id) (mg_split_elements m) of
            None \<Rightarrow> Some (None, a)
          | Some e \<Rightarrow>
              do { a \<leftarrow> mapping_changed (set_splits (remove_first (\<lambda>e. sp_id e = the_id) (mg_split_elements m)) a);
                   Some (Some e, a) } }"

text \<open>The message is built under the lock and sent without it, to the agent the caller names.\<close>

definition split_remove ::
    "app_env \<Rightarrow> addr \<Rightarrow> u64 \<Rightarrow> (igs_split \<Rightarrow> string) \<Rightarrow> (igs_split \<Rightarrow> string \<times> string) \<Rightarrow> igs_result core_op" where
  "split_remove env p the_id target names = with_agent p IGS_FAILURE (\<lambda>c.
     do { has_mapping p c;
          (r, c) \<leftarrow> locked (\<lambda>c.
            do { (el, c) \<leftarrow> on_agent p (split_remove_body the_id) c;
                 a \<leftarrow> deref p c;
                 u \<leftarrow> ag_uuid a;
                 Some (map_option (\<lambda>e. (target e, [''WORKER_GOODBYE'', u, fst (names e), snd (names e)])) el, c) }) c;
          case r of
            None \<Rightarrow> Some (IGS_FAILURE, c)
          | Some (t, msg) \<Rightarrow>
              do { (_, c) \<leftarrow> igs_channel_whisper_zmsg (net_env.truncate env) t msg c; Some (IGS_SUCCESS, c) } })"

definition igsagent_split_remove_with_id :: "app_env \<Rightarrow> addr \<Rightarrow> u64 \<Rightarrow> igs_result core_op" where
  "igsagent_split_remove_with_id env p the_id = with_agent p IGS_FAILURE (\<lambda>c.
     do { c_assert (the_id \<noteq> 0);
          split_remove env p the_id sp_to_agent (\<lambda>e. (sp_from_input e, sp_to_output e)) c })"

definition igsagent_split_remove_with_name :: "app_env \<Rightarrow> addr \<Rightarrow> string \<Rightarrow> string \<Rightarrow> string \<Rightarrow> igs_result core_op" where
  "igsagent_split_remove_with_name env p from_our_input to_agent with_output =
     split_remove env p (entry_id from_our_input to_agent with_output) (\<lambda>_. to_agent) (\<lambda>_. (from_our_input, with_output))"

section \<open>Messages of workers\<close>

text \<open>Credit from a worker, if the output exists. The credit of a hello is read without a check.\<close>

definition credit_to_output ::
    "app_env \<Rightarrow> addr \<Rightarrow> string \<Rightarrow> string \<Rightarrow> string \<Rightarrow> int \<Rightarrow> bool \<Rightarrow> igs_core \<Rightarrow> igs_core option" where
  "credit_to_output env p out worker_uuid input credit is_new c =
     do { a \<leftarrow> deref p c;
          u \<leftarrow> ag_uuid a;
          d \<leftarrow> ag_definition a;
          case find (\<lambda>io. io_name io = out) (map snd (df_outputs d)) of
            None \<Rightarrow> Some c
          | Some io \<Rightarrow> s_split_add_credit_to_worker (split_env.truncate env) u io worker_uuid input credit is_new c }"

definition worker_hello ::
    "app_env \<Rightarrow> string \<Rightarrow> string \<Rightarrow> string \<Rightarrow> string list \<Rightarrow> igs_core \<Rightarrow> igs_core option" where
  "worker_hello env worker_uuid input out r c =
     do { (credit_str, r) \<leftarrow> popstr r;
          credit \<leftarrow> c_atoi credit_str;
          case popstr r of
            None \<Rightarrow> Some c
          | Some (agent_uuid, r) \<Rightarrow>
              (case zh_lookup (cx_agents c) agent_uuid of
                 None \<Rightarrow> Some c
               | Some p \<Rightarrow> credit_to_output env p out worker_uuid input (sint credit) True c) }"

fun ready_agents ::
    "app_env \<Rightarrow> string \<Rightarrow> string \<Rightarrow> string \<Rightarrow> string \<Rightarrow> addr list \<Rightarrow> igs_core \<Rightarrow> igs_core option" where
  "ready_agents env agent_uuid worker_uuid input out [] c = Some c"
| "ready_agents env agent_uuid worker_uuid input out (p # ps) c =
     do { a \<leftarrow> deref p c;
          u \<leftarrow> ag_uuid a;
          c \<leftarrow> (if agent_uuid = u then credit_to_output env p out worker_uuid input 1 False c else Some c);
          ready_agents env agent_uuid worker_uuid input out ps c }"

definition worker_ready ::
    "app_env \<Rightarrow> string \<Rightarrow> string \<Rightarrow> string \<Rightarrow> string list \<Rightarrow> igs_core \<Rightarrow> igs_core option" where
  "worker_ready env worker_uuid input out r c =
     (case popstr r of
        None \<Rightarrow> Some c
      | Some (agent_uuid, r) \<Rightarrow> ready_agents env agent_uuid worker_uuid input out (map snd (cx_agents c)) c)"

definition split_message_from_worker :: "app_env \<Rightarrow> string \<Rightarrow> string list \<Rightarrow> igs_core \<Rightarrow> igs_core option" where
  "split_message_from_worker env command msg c =
     (case popstr msg of
        None \<Rightarrow> Some c
      | Some (worker_uuid, r) \<Rightarrow>
     (case popstr r of
        None \<Rightarrow> Some c
      | Some (input, r) \<Rightarrow>
     (case popstr r of
        None \<Rightarrow> Some c
      | Some (out, r) \<Rightarrow>
          if command = ''WORKER_HELLO'' then worker_hello env worker_uuid input out r c
          else if command = ''WORKER_READY'' then worker_ready env worker_uuid input out r c
          else if command = ''WORKER_GOODBYE'' then Some (split_remove_worker worker_uuid (Some input) c)
          else Some c)))"

section \<open>A work arrives\<close>

text \<open>The first agent of the context with that uuid writes the value and calls its observers.\<close>

fun work_agents ::
    "app_env \<Rightarrow> string \<Rightarrow> string \<Rightarrow> igs_io_value_type \<Rightarrow> string \<Rightarrow> addr list \<Rightarrow> igs_core \<Rightarrow> igs_core option" where
  "work_agents env worker_uuid input vt value [] c = Some c"
| "work_agents env worker_uuid input vt value (p # ps) c =
     do { a \<leftarrow> deref p c;
          case ag_uuid a of
            None \<Rightarrow> Some c
          | Some u \<Rightarrow>
              if u = worker_uuid then
                do { (ok, c) \<leftarrow> on_agent p (\<lambda>a. model_write (igs_env.truncate env) a input IGS_INPUT_T vt (Some value) (length value)) c;
                     (_, c) \<leftarrow> unlocked (\<lambda>c. if ok then model_LOCKED_handle_io_callbacks env p IGS_INPUT_T input c
                                              else Some ((), c)) c;
                     Some c }
              else work_agents env worker_uuid input vt value ps c }"

text \<open>The value and what follows it: a string is popped as one and gets its NUL back.\<close>

definition work_value :: "igs_io_value_type \<Rightarrow> string list \<Rightarrow> (string \<times> string list) option" where
  "work_value vt r =
     (case r of [] \<Rightarrow> None
      | f # r \<Rightarrow> Some (if vt = IGS_STRING_T then wr_cstr (takeWhile (\<lambda>ch. ch \<noteq> CHR 0x00) f) else f, r))"

text \<open>Without the uuid of the worker, the bytes of a frame are freed as if they had been allocated.\<close>

definition do_work ::
    "app_env \<Rightarrow> string \<Rightarrow> string \<Rightarrow> string \<Rightarrow> igs_io_value_type \<Rightarrow> string \<Rightarrow> string list \<Rightarrow> igs_core \<Rightarrow> igs_core option" where
  "do_work env agent_uuid input out vt value r c =
     (case popstr r of
        None \<Rightarrow> if vt = IGS_STRING_T then Some c else None
      | Some (worker_uuid, r) \<Rightarrow>
          do { c \<leftarrow> work_agents env worker_uuid input vt value (map snd (cx_agents c)) c;
               (_, c) \<leftarrow> unlocked (igs_channel_whisper_zmsg (net_env.truncate env) agent_uuid
                           [''WORKER_READY'', worker_uuid, input, out]) c;
               Some c })"

definition split_message_from_splitter :: "app_env \<Rightarrow> string list \<Rightarrow> igs_core \<Rightarrow> igs_core option" where
  "split_message_from_splitter env msg c =
     (case popstr msg of
        None \<Rightarrow> Some c
      | Some (agent_uuid, r) \<Rightarrow>
     (case popstr r of
        None \<Rightarrow> Some c
      | Some (input, r) \<Rightarrow>
     (case popstr r of
        None \<Rightarrow> Some c
      | Some (out, r) \<Rightarrow>
     (case popstr r of
        None \<Rightarrow> Some c
      | Some (type_str, r) \<Rightarrow>
          do { code \<leftarrow> c_atoi type_str;
               if sint code < 1 \<or> 6 < sint code then Some c
               else do { vt \<leftarrow> value_type_of (sint code);
                         case work_value vt r of
                           None \<Rightarrow> Some c
                         | Some (value, r) \<Rightarrow> do_work env agent_uuid input out vt value r c } }))))"

end
