(* ===== verification/Igs_Channels.thy ===== *)
theory Igs_Channels
  imports Igs_Split_Api
begin

text \<open>
  Channels and peers for the application (src/src/igs_channels.c) and the observers of what
  happens on them. A text is what \<open>vsnprintf\<close> makes of the format and its arguments.
\<close>

text \<open>The buffer is one byte longer than the bound given to \<open>vsnprintf\<close>.\<close>

definition content_of :: "string \<Rightarrow> string" where
  "content_of msg = take (IGS_MAX_STRING_MSG_LENGTH - 2) msg"

definition igs_channel_join :: "app_env \<Rightarrow> string \<Rightarrow> igs_result core_op" where
  "igs_channel_join env channel = with_core_agent env (\<lambda>_ c.
     do { c_assert (channel \<noteq> []);
          if channel = IGS_PRIVATE_CHANNEL then Some (IGS_FAILURE, c)
          else locked (\<lambda>c. if cx_network_actor c \<and> cx_node c then Some (IGS_SUCCESS, emit (Zyre_Join channel) c)
                           else Some (IGS_FAILURE, c)) c })"

definition igs_channel_leave :: "app_env \<Rightarrow> string \<Rightarrow> unit core_op" where
  "igs_channel_leave env channel = with_core_agent env (\<lambda>_ c.
     do { c_assert (channel \<noteq> []);
          locked (\<lambda>c. Some ((), if cx_network_actor c \<and> cx_node c then emit (Zyre_Leave channel) c else c)) c })"

text \<open>The shared part of the shouts.\<close>

definition channel_shout :: "node_env \<Rightarrow> string \<Rightarrow> string list \<Rightarrow> igs_event \<Rightarrow> igs_result core_op" where
  "channel_shout env channel frames e = with_core_agent (apps env) (\<lambda>_ c.
     if channel = IGS_PRIVATE_CHANNEL \<or> \<not> cx_node c then Some (IGS_FAILURE, c)
     else locked (\<lambda>c. Some (if zyre_shout_ok env channel frames then IGS_SUCCESS else IGS_FAILURE, emit e c)) c)"

definition igs_channel_shout_str :: "node_env \<Rightarrow> string \<Rightarrow> string \<Rightarrow> igs_result core_op" where
  "igs_channel_shout_str env channel msg =
     channel_shout env channel [content_of msg] (Zyre_Shouts channel (content_of msg))"

definition igs_channel_shout_data :: "node_env \<Rightarrow> string \<Rightarrow> string \<Rightarrow> igs_result core_op" where
  "igs_channel_shout_data env channel value = channel_shout env channel [value] (Zyre_Shout channel [value])"

definition igs_channel_shout_zmsg :: "node_env \<Rightarrow> string \<Rightarrow> string list \<Rightarrow> igs_result core_op" where
  "igs_channel_shout_zmsg env channel msg = channel_shout env channel msg (Zyre_Shout channel msg)"

fun whisper_text_peers ::
    "net_env \<Rightarrow> string \<Rightarrow> string \<Rightarrow> igs_zyre_peer list \<Rightarrow> igs_result \<Rightarrow> igs_core \<Rightarrow> igs_result \<times> igs_core" where
  "whisper_text_peers env target msg [] res c = (res, c)"
| "whisper_text_peers env target msg (pe # pes) res c =
     (if pe_name pe = target \<or> pe_peer_id pe = target then
        whisper_text_peers env target msg pes (if zyre_whisper_ok env (pe_peer_id pe) [msg] then res else IGS_FAILURE)
          (emit (Zyre_Whispers (pe_peer_id pe) msg) c)
      else whisper_text_peers env target msg pes res c)"

definition igs_channel_whisper_str :: "app_env \<Rightarrow> string \<Rightarrow> string \<Rightarrow> igs_result core_op" where
  "igs_channel_whisper_str env target msg = with_core_agent env (\<lambda>_ c.
     if \<not> cx_node c then Some (IGS_FAILURE, c)
     else locked (\<lambda>c.
       do { ((sent, res), c) \<leftarrow> whisper_agents (net_env.truncate env) target [content_of msg]
              (map snd (cx_remote_agents c)) (False, IGS_SUCCESS) c;
            Some (if sent then (res, c)
                  else whisper_text_peers (net_env.truncate env) target (content_of msg) (map snd (cx_zyre_peers c)) res c) }) c)"

definition igs_channel_whisper_data :: "app_env \<Rightarrow> string \<Rightarrow> string \<Rightarrow> igs_result core_op" where
  "igs_channel_whisper_data env target value = with_core_agent env (\<lambda>_ c.
     if \<not> cx_node c then Some (IGS_FAILURE, c)
     else locked (\<lambda>c.
       do { ((sent, res), c) \<leftarrow> whisper_agents (net_env.truncate env) target [value]
              (map snd (cx_remote_agents c)) (False, IGS_SUCCESS) c;
            Some (if sent then (res, c)
                  else whisper_peers (net_env.truncate env) target [value] (map snd (cx_zyre_peers c)) res c) }) c)"

section \<open>Headers of the peer\<close>

definition reserved_header :: "string \<Rightarrow> bool" where
  "reserved_header key \<longleftrightarrow> key \<in> {''publisher'', ''logger'', ''pid'', ''commandline'', ''hostname''}"

definition igs_peer_add_header :: "app_env \<Rightarrow> string \<Rightarrow> string \<Rightarrow> igs_result core_op" where
  "igs_peer_add_header env key v = with_core_agent env (\<lambda>_ c.
     if reserved_header key then Some (IGS_FAILURE, c)
     else locked (\<lambda>c.
       if zh_lookup (nt_peer_headers (cx_network c)) key \<noteq> None then Some (IGS_FAILURE, c)
       else Some (IGS_SUCCESS, set_network (\<lambda>n. n\<lparr> nt_peer_headers := zh_insert key v (nt_peer_headers n) \<rparr>) c)) c)"

definition igs_peer_remove_header :: "app_env \<Rightarrow> string \<Rightarrow> igs_result core_op" where
  "igs_peer_remove_header env key = with_core_agent env (\<lambda>_ c.
     if cx_node c \<or> reserved_header key then Some (IGS_FAILURE, c)
     else locked (\<lambda>c.
       if zh_lookup (nt_peer_headers (cx_network c)) key = None then Some (IGS_FAILURE, c)
       else Some (IGS_SUCCESS, set_network (\<lambda>n. n\<lparr> nt_peer_headers := zh_delete key (nt_peer_headers n) \<rparr>) c)) c)"

definition igs_observe_channels :: "app_env \<Rightarrow> nat \<Rightarrow> nat \<Rightarrow> unit core_op" where
  "igs_observe_channels env cb my_data = with_core_agent env (\<lambda>_. locked (\<lambda>c.
     Some ((), set_network (\<lambda>n. n\<lparr> nt_zyre_callbacks := nt_zyre_callbacks n @ [\<lparr> wr_callback = cb, wr_my_data = my_data \<rparr>] \<rparr>) c)))"

end
