(* ===== verification/Igs_Peers.thy ===== *)
theory Igs_Peers
  imports Igs_Channels
begin

text \<open>
  Peers that come and go (src/src/igs_network.c): the events ENTER, JOIN, EXIT, LEADER and
  SHOUT of \<open>s_manage_zyre_incoming\<close>, and what is sent to a newcomer. A handler either goes on
  to the observers of channels or returns; a function that returns early does not reach them.

  The functions of CZMQ and Zyre are parameters where their result matters: whether a
  subscription can be opened, the uuid of our own node, and the memory of the copy of the
  headers that observers receive as the data of an event. Observers of a forced stop are
  callbacks like the others.
\<close>

record peer_env = node_env +
  zsock_connects :: "string \<Rightarrow> bool"
  zyre_own_uuid :: string
  zhash_memory :: "(string, string) table \<Rightarrow> string"
  call_forced_stop :: "nat \<Rightarrow> nat \<Rightarrow> igs_core \<Rightarrow> igs_core option"

definition nodes :: "peer_env \<Rightarrow> node_env" where
  "nodes env = node_env.truncate env"

definition app_of :: "peer_env \<Rightarrow> app_env" where
  "app_of env = app_env.truncate env"

datatype flow = Carry_On | Returned int

text \<open>An operation after which the handler goes on.\<close>

definition carry :: "'r core_op \<Rightarrow> flow core_op" where
  "carry op c = do { (_, c) \<leftarrow> op c; Some (Carry_On, c) }"

text \<open>A change of the context, as an operation.\<close>

definition change :: "(igs_core \<Rightarrow> igs_core option) \<Rightarrow> unit core_op" where
  "change f c = do { c \<leftarrow> f c; Some ((), c) }"

section \<open>What a newcomer is sent\<close>

definition s_send_definition_to_zyre_peer :: "igs_agent \<Rightarrow> string \<Rightarrow> string \<Rightarrow> bool \<Rightarrow> igs_core \<Rightarrow> igs_core option" where
  "s_send_definition_to_zyre_peer a peer def notif c =
     (case ag_uuid a of
        None \<Rightarrow> Some c
      | Some u \<Rightarrow>
          if ag_context a \<and> cx_node c then
            do { d \<leftarrow> ag_definition a;
                 n \<leftarrow> df_name d;
                 Some (emit (Zyre_Whisper peer ([''EXTERNAL_DEFINITION#'', def, u, n] @ (if notif then [''1''] else []))) c) }
          else Some c)"

definition s_send_mapping_to_zyre_peer :: "igs_agent \<Rightarrow> string \<Rightarrow> string \<Rightarrow> igs_core \<Rightarrow> igs_core" where
  "s_send_mapping_to_zyre_peer a peer mapping c =
     (case ag_uuid a of
        None \<Rightarrow> c
      | Some u \<Rightarrow> if ag_context a \<and> cx_node c
                  then emit (Zyre_Whisper peer [''EXTERNAL_MAPPING#'', mapping, u]) c else c)"

definition sent_to :: "bool \<Rightarrow> string \<Rightarrow> string list \<Rightarrow> igs_event" where
  "sent_to is_for_peer peer_or_channel msg =
     (if is_for_peer then Zyre_Whisper peer_or_channel msg else Zyre_Shout peer_or_channel msg)"

definition emit_all :: "igs_event list \<Rightarrow> igs_core \<Rightarrow> igs_core" where
  "emit_all es c = c\<lparr> cx_events := cx_events c @ es \<rparr>"

text \<open>The messages on the state of an agent, in order.\<close>

definition state_messages :: "igs_agent \<Rightarrow> string \<Rightarrow> igs_core \<Rightarrow> string list list" where
  "state_messages a u c =
     (case ag_definition a of
        None \<Rightarrow> []
      | Some d \<Rightarrow> map (\<lambda>io. [if io_is_muted io then ''OUTPUT_MUTED'' else ''OUTPUT_UNMUTED'', io_name io, u])
                     (map snd (df_outputs d)))
     @ [[''MUTED'', flag_str (ag_is_whole_agent_muted a), u]]
     @ (case ag_state a of None \<Rightarrow> [] | Some s \<Rightarrow> [[''STATE'', s, u]])
     @ (case ag_definition_path a of None \<Rightarrow> [] | Some s \<Rightarrow> [[''DEFINITION_FILE_PATH'', s, u]])
     @ (case ag_mapping_path a of None \<Rightarrow> [] | Some s \<Rightarrow> [[''MAPPING_FILE_PATH'', s, u]])
     @ [[''FROZEN'', flag_str (cx_is_frozen c), u],
        [''LOG_IN_STREAM'', flag_str (nt_log_in_stream (cx_network c)), u],
        [''LOG_IN_FILE'', flag_str (nt_log_in_file (cx_network c)), u],
        [''LOG_FILE_PATH'', nt_log_file_path (cx_network c), u]]"

definition s_send_state_to :: "igs_agent \<Rightarrow> string \<Rightarrow> bool \<Rightarrow> igs_core \<Rightarrow> igs_core option" where
  "s_send_state_to a peer_or_channel is_for_peer c =
     do { c_assert (ag_context a \<and> cx_node c);
          u \<leftarrow> ag_uuid a;
          Some (emit_all (map (sent_to is_for_peer peer_or_channel) (state_messages a u c)) c) }"

text \<open>The text of a definition or of a mapping in the version of the protocol of the peer.\<close>

definition definition_for :: "igs_zyre_peer \<Rightarrow> igs_definition \<Rightarrow> string option" where
  "definition_for pe d =
     (if pe_protocol pe = Some ''v2'' \<or> pe_protocol pe = Some ''v3'' then df_json_legacy_v3 d
      else if pe_protocol pe = Some ''v4'' then df_json_legacy_v4 d else df_json d)"

definition mapping_for :: "igs_zyre_peer \<Rightarrow> igs_mapping \<Rightarrow> string option" where
  "mapping_for pe m = (if pe_protocol pe = Some ''v2'' then mg_json_legacy m else mg_json m)"

definition or_empty :: "string option \<Rightarrow> string" where
  "or_empty s = (case s of None \<Rightarrow> [] | Some s \<Rightarrow> s)"

fun introduce_agents :: "igs_zyre_peer \<Rightarrow> string \<Rightarrow> addr list \<Rightarrow> igs_core \<Rightarrow> igs_core option" where
  "introduce_agents pe peer [] c = Some c"
| "introduce_agents pe peer (p # ps) c =
     do { a \<leftarrow> deref p c;
          d \<leftarrow> ag_definition a;
          c \<leftarrow> s_send_definition_to_zyre_peer a peer (or_empty (definition_for pe d)) False c;
          m \<leftarrow> ag_mapping a;
          c \<leftarrow> s_send_state_to a peer True (s_send_mapping_to_zyre_peer a peer (or_empty (mapping_for pe m)) c);
          introduce_agents pe peer ps c }"

definition put_peer :: "string \<Rightarrow> (igs_zyre_peer \<Rightarrow> igs_zyre_peer) \<Rightarrow> igs_core \<Rightarrow> igs_core" where
  "put_peer peer f c = c\<lparr> cx_zyre_peers := zh_update peer f (cx_zyre_peers c) \<rparr>"

definition zyre_join :: "zyre_event \<Rightarrow> flow core_op" where
  "zyre_join ev = carry (locked (change (\<lambda>c.
     if ze_group ev \<noteq> IGS_PRIVATE_CHANNEL then Some c
     else do { pe \<leftarrow> zh_lookup (cx_zyre_peers c) (ze_peer_uuid ev);
               c \<leftarrow> introduce_agents pe (ze_peer_uuid ev) (map snd (cx_agents c)) c;
               Some (put_peer (ze_peer_uuid ev) (\<lambda>pe. pe\<lparr> pe_has_joined_private_channel := True \<rparr>) c) })))"

section \<open>A peer enters\<close>

text \<open>
  The address is copied into a buffer of 128 bytes, which has no end when the address has
  127 characters or more; the search for the last colon starts behind the last character
  and gives up at the first one.
\<close>

definition last_colon :: "string \<Rightarrow> nat option option" where
  "last_colon address =
     (if address = [] \<or> 127 \<le> length address then None
      else Some (case filter (\<lambda>i. address ! i = CHR '':'') [1..<length address] of
                   [] \<Rightarrow> None | i # is \<Rightarrow> Some (last (i # is))))"

text \<open>
  What is read from the seventh byte on once a NUL stands in place of the colon at \<open>i\<close>
  and behind it.
\<close>

definition incoming_ip :: "nat \<Rightarrow> string \<Rightarrow> string" where
  "incoming_ip i address = (if i < 5 then drop 6 address else drop 6 (take i address))"

text \<open>The addresses within the machine: that of the process, else that of the system.\<close>

definition local_address :: "zyre_event \<Rightarrow> string \<Rightarrow> igs_network \<Rightarrow> (string option \<times> string option) option" where
  "local_address ev ip n =
     (if nt_ip_address n \<noteq> ip then Some (None, None)
      else do { pid_str \<leftarrow> zh_lookup (ze_headers ev) ''pid'';
                pid \<leftarrow> c_atoi pid_str;
                let ns = (case zh_lookup (ze_headers ev) ''pid_namespace'' of None \<Rightarrow> 0 | Some s \<Rightarrow> c_strtoul s);
                Some (if nt_process_id n = pid
                         \<and> (ns = 0 \<and> nt_pid_namespace n = 0 \<or> ns \<noteq> 0 \<and> nt_pid_namespace n \<noteq> 0 \<and> ns = nt_pid_namespace n)
                      then (zh_lookup (ze_headers ev) ''inproc'', None)
                      else (None, zh_lookup (ze_headers ev) ''ipc'')) })"

definition subscription_address :: "zyre_event \<Rightarrow> nat \<Rightarrow> string \<Rightarrow> igs_network \<Rightarrow> string option" where
  "subscription_address ev i publisher_port n =
     do { (inproc, ipc) \<leftarrow> local_address ev (incoming_ip i (ze_peer_addr ev)) n;
          let endpoint = take (Suc i) (ze_peer_addr ev) @ publisher_port;
          c_assert (length endpoint < 128);
          Some (if nt_allow_inproc n \<and> inproc \<noteq> None then the inproc
                else if nt_allow_ipc n \<and> ipc \<noteq> None then the ipc else endpoint) }"

text \<open>Whether there is a subscriber, and the events of its creation.\<close>

definition subscriber_of :: "peer_env \<Rightarrow> zyre_event \<Rightarrow> igs_network \<Rightarrow> (bool \<times> igs_event list) option" where
  "subscriber_of env ev n =
     (case zh_lookup (ze_headers ev) ''publisher'' of
        None \<Rightarrow> Some (False, [])
      | Some port \<Rightarrow>
          do { found \<leftarrow> last_colon (ze_peer_addr ev);
               case found of
                 None \<Rightarrow> Some (False, [])
               | Some i \<Rightarrow>
                   do { address \<leftarrow> subscription_address ev i port n;
                        c_assert (zsock_connects env address);
                        Some (True, Zsock_New_Sub (ze_peer_uuid ev) address
                          # (case zh_lookup (ze_headers ev) ''X-PUBLICKEY'' of
                               Some key \<Rightarrow> if nt_security n then [Zsock_Curve_Key (ze_peer_uuid ev) key] else []
                             | None \<Rightarrow> [])) } })"

definition IGS_MAX_PEER_ID_LENGTH :: nat where "IGS_MAX_PEER_ID_LENGTH = 128"

definition new_peer :: "peer_env \<Rightarrow> zyre_event \<Rightarrow> igs_core \<Rightarrow> igs_core option" where
  "new_peer env ev c =
     do { (sub, es) \<leftarrow> subscriber_of env ev (cx_network c);
          let pe = \<lparr> pe_peer_id = take IGS_MAX_PEER_ID_LENGTH (ze_peer_uuid ev),
                     pe_name = take IGS_MAX_AGENT_NAME_LENGTH (ze_peer_name ev), pe_subscriber = sub, pe_reconnected = 0,
                     pe_has_joined_private_channel = False,
                     pe_protocol = map_option (take 16) (zh_lookup (ze_headers ev) ''protocol'') \<rparr>;
          Some (emit_all es (c\<lparr> cx_zyre_peers := zh_insert (pe_peer_id pe) pe (cx_zyre_peers c) \<rparr>)) }"

text \<open>A peer that is known already has come back before it left.\<close>

definition zyre_enter :: "peer_env \<Rightarrow> zyre_event \<Rightarrow> flow core_op" where
  "zyre_enter env ev = carry (\<lambda>c.
     do { (known, c) \<leftarrow> locked (\<lambda>c.
            case zh_lookup (cx_zyre_peers c) (ze_peer_uuid ev) of
              Some pe \<Rightarrow> Some (True, put_peer (pe_peer_id pe) (\<lambda>pe. pe\<lparr> pe_reconnected := Suc (pe_reconnected pe) \<rparr>) c)
            | None \<Rightarrow> do { c \<leftarrow> new_peer env ev c; Some (False, c) }) c;
          if known then Some ((), c)
          else agent_LOCKED_propagate_agent_event (app_of env) IGS_PEER_ENTERED (Some (ze_peer_uuid ev))
                 (Some (ze_peer_name ev)) (Some (zhash_memory env (ze_headers ev))) c })"

section \<open>Agents and peers leave\<close>

text \<open>The name is read for the log; a timer that has not fired is ended while the loop is there.\<close>

definition s_clean_and_free_remote_agent :: "bool \<Rightarrow> igs_remote_agent \<Rightarrow> igs_core \<Rightarrow> igs_core option" where
  "s_clean_and_free_remote_agent loop ra c =
     do { d \<leftarrow> ra_definition ra;
          c_assert (ra_mapping_filters ra = [] \<or> pe_subscriber (ra_peer ra));
          Some (emit_all (map (Zsock_Unsubscribe (pe_peer_id (ra_peer ra))) (ra_mapping_filters ra)
                          @ (if loop \<and> ra_shall_send_outputs_request ra then [Outputs_Request_Timer_End (ra_uuid ra)] else [])) c) }"

definition s_clean_and_free_zyre_peer :: "igs_zyre_peer \<Rightarrow> igs_core \<Rightarrow> igs_core" where
  "s_clean_and_free_zyre_peer pe c = (if pe_subscriber pe then emit (Zsock_Destroy (pe_peer_id pe)) c else c)"

text \<open>A known remote agent leaves the tables and the agents of the process are told.\<close>

definition remote_exits :: "peer_env \<Rightarrow> igs_remote_agent \<Rightarrow> unit core_op" where
  "remote_exits env ra c =
     do { d \<leftarrow> ra_definition ra;
          n \<leftarrow> df_name d;
          let c = split_remove_worker (ra_uuid ra) None c;
          c \<leftarrow> s_clean_and_free_remote_agent True ra (c\<lparr> cx_remote_agents := zh_delete (ra_uuid ra) (cx_remote_agents c) \<rparr>);
          unlocked (agent_LOCKED_propagate_agent_event (app_of env) IGS_AGENT_EXITED (Some (ra_uuid ra)) (Some n) None) c }"

fun remotes_exit :: "peer_env \<Rightarrow> string \<Rightarrow> string list \<Rightarrow> igs_core \<Rightarrow> igs_core option" where
  "remotes_exit env peer [] c = Some c"
| "remotes_exit env peer (u # us) c =
     do { ra \<leftarrow> zh_lookup (cx_remote_agents c) u;
          c \<leftarrow> (if pe_peer_id (ra_peer ra) = peer then do { (_, c) \<leftarrow> remote_exits env ra c; Some c } else Some c);
          remotes_exit env peer us c }"

definition zyre_exit :: "peer_env \<Rightarrow> zyre_event \<Rightarrow> flow core_op" where
  "zyre_exit env ev = carry (locked (\<lambda>c.
     case zh_lookup (cx_zyre_peers c) (ze_peer_uuid ev) of
       None \<Rightarrow> Some ((), c)
     | Some pe \<Rightarrow>
         if 0 < pe_reconnected pe then Some ((), put_peer (pe_peer_id pe) (\<lambda>pe. pe\<lparr> pe_reconnected := pe_reconnected pe - 1 \<rparr>) c)
         else do { c \<leftarrow> remotes_exit env (pe_peer_id pe) (map fst (cx_remote_agents c)) c;
                   let c = s_clean_and_free_zyre_peer pe (c\<lparr> cx_zyre_peers := zh_delete (pe_peer_id pe) (cx_zyre_peers c) \<rparr>);
                   unlocked (agent_LOCKED_propagate_agent_event (app_of env) IGS_PEER_EXITED (Some (ze_peer_uuid ev))
                     (Some (ze_peer_name ev)) None) c }))"

section \<open>Elections\<close>

fun election_observers ::
    "app_env \<Rightarrow> addr \<Rightarrow> bool \<Rightarrow> string \<Rightarrow> igs_wrapper list \<Rightarrow> igs_core \<Rightarrow> igs_core option" where
  "election_observers env p is_leader el [] c = Some c"
| "election_observers env p is_leader el (w # ws) c =
     do { a \<leftarrow> deref p c;
          case ag_uuid a of
            None \<Rightarrow> Some c
          | Some u \<Rightarrow>
              do { (_, c) \<leftarrow> unlocked (\<lambda>c.
                     do { d \<leftarrow> ag_definition a;
                          n \<leftarrow> df_name d;
                          c \<leftarrow> call_event env (wr_callback w) p (if is_leader then IGS_AGENT_WON_ELECTION else IGS_AGENT_LOST_ELECTION)
                                 u n (Some el) (wr_my_data w) c;
                          Some ((), c) }) c;
                   election_observers env p is_leader el ws c } }"

text \<open>
  One round of the loop over the attendees, \<open>u\<close> being the next one: the attendees that are
  left after it. For one that is not in the context it goes on (\<open>continue\<close>) without the next
  one being taken from the list, so that the loop does not end. The mutex is held.
\<close>

definition attendee_round ::
    "app_env \<Rightarrow> bool \<Rightarrow> string \<Rightarrow> string \<Rightarrow> string list \<Rightarrow> igs_core \<Rightarrow> (string list \<times> igs_core) option" where
  "attendee_round env is_leader el u us c =
     (case zh_lookup (cx_agents c) u of
        None \<Rightarrow> Some (u # us, c)
      | Some p \<Rightarrow>
          do { a \<leftarrow> deref p c;
               if ag_uuid a = None then Some (u # us, c)
               else do { d \<leftarrow> ag_definition a;
                         c \<leftarrow> election_observers env p is_leader el (ag_agent_event_callbacks a) c;
                         Some (us, c) } })"

partial_function (option) attendees ::
    "app_env \<Rightarrow> bool \<Rightarrow> string \<Rightarrow> string list \<Rightarrow> igs_core \<Rightarrow> igs_core option" where
  "attendees env is_leader el us c =
     (case us of
        [] \<Rightarrow> Some c
      | u # us \<Rightarrow>
          do { (us, c) \<leftarrow> attendee_round env is_leader el u us c;
               attendees env is_leader el us c })"

text \<open>The attendees that are left and the state after a number of rounds of the same loop.\<close>

fun attendee_rounds ::
    "app_env \<Rightarrow> bool \<Rightarrow> string \<Rightarrow> nat \<Rightarrow> string list \<Rightarrow> igs_core \<Rightarrow> (string list \<times> igs_core) option" where
  "attendee_rounds env is_leader el 0 us c = Some (us, c)"
| "attendee_rounds env is_leader el (Suc n) [] c = Some ([], c)"
| "attendee_rounds env is_leader el (Suc n) (u # us) c =
     do { (us, c) \<leftarrow> attendee_round env is_leader el u us c;
          attendee_rounds env is_leader el n us c }"

text \<open>A round that changes nothing is repeated for ever, and the loop has no result.\<close>

lemma stalled_rounds:
  "attendee_round env b el u us c = Some (u # us, c) \<Longrightarrow> attendee_rounds env b el n (u # us) c = Some (u # us, c)"
  by (induction n) simp_all

lemma stalled_loop:
  "attendees env b el vs c = Some c' \<Longrightarrow> \<forall>u us. vs = u # us \<longrightarrow> attendee_round env b el u us c \<noteq> Some (u # us, c)"
proof (induction rule: attendees.raw_induct [rotated, consumes 1, case_names 1])
  case (1 loop env b el vs c c')
  show ?case
  proof (intro allI impI notI)
    fix u us assume v: "vs = u # us" and r: "attendee_round env b el u us c = Some (u # us, c)"
    with 1(2) have "loop env b el vs c = Some c'" by simp
    from 1(1) [OF this] v r show False by blast
  qed
qed

lemma absent_attendee: "zh_lookup (cx_agents c) u = None \<Longrightarrow> attendee_round env b el u us c = Some (u # us, c)"
  by (simp add: attendee_round_def)

lemma absent_loop: "zh_lookup (cx_agents c) u = None \<Longrightarrow> attendees env b el (u # us) c = None"
  using stalled_loop [of env b el "u # us" c] absent_attendee [of c u env b el us]
  by (cases "attendees env b el (u # us) c") auto

definition zyre_leader :: "peer_env \<Rightarrow> zyre_event \<Rightarrow> flow core_op" where
  "zyre_leader env ev = carry (locked (change (\<lambda>c.
     case zh_lookup (cx_elections c) (ze_group ev) of
       None \<Rightarrow> Some c
     | Some us \<Rightarrow> attendees (app_of env) (zyre_own_uuid env = ze_peer_uuid ev) (ze_group ev) us c)))"

section \<open>Shouts\<close>

text \<open>A frame that must be there: without it the handler returns.\<close>

definition popped :: "string list \<Rightarrow> (string \<Rightarrow> string list \<Rightarrow> flow core_op) \<Rightarrow> flow core_op" where
  "popped r f c = (case popstr r of None \<Rightarrow> Some (Returned 0, c) | Some (s, r) \<Rightarrow> f s r c)"

text \<open>
  A value that is replayed into an input: the type of the input is asked for through the
  interface, which takes the lock that is held already.
\<close>

definition replay_value ::
    "app_env \<Rightarrow> addr \<Rightarrow> string \<Rightarrow> igs_io_value_type \<Rightarrow> string \<Rightarrow> igs_core \<Rightarrow> igs_core option" where
  "replay_value env p input vt v c =
     do { (ok, c) \<leftarrow> on_agent p (\<lambda>a. model_write (igs_env.truncate env) a input IGS_INPUT_T vt (Some v) (length v)) c;
          if ok then do { (_, c) \<leftarrow> unlocked (model_LOCKED_handle_io_callbacks env p IGS_INPUT_T input) c; Some c }
          else Some c }"

fun replay_agents ::
    "app_env \<Rightarrow> string \<Rightarrow> string \<Rightarrow> string list \<Rightarrow> addr list \<Rightarrow> igs_core \<Rightarrow> igs_core option" where
  "replay_agents env agent_name input r [] c = Some c"
| "replay_agents env agent_name input r (p # ps) c =
     do { a \<leftarrow> deref p c;
          if ag_uuid a = None then Some c
          else do { d \<leftarrow> ag_definition a;
                    n \<leftarrow> df_name d;
                    if n = agent_name then
                      do { (vt, c) \<leftarrow> igsagent_input_type p input c;
                           case work_value vt r of
                             None \<Rightarrow> replay_agents env agent_name input r ps c
                           | Some (v, r) \<Rightarrow> do { c \<leftarrow> replay_value env p input vt v c; replay_agents env agent_name input r ps c } }
                    else replay_agents env agent_name input r ps c } }"

definition shout_replay :: "peer_env \<Rightarrow> zyre_event \<Rightarrow> flow core_op" where
  "shout_replay env ev =
     popped (ze_msg ev) (\<lambda>agent_name r. popped r (\<lambda>input r. carry (locked (change (\<lambda>c.
       replay_agents (app_of env) agent_name input r (map snd (cx_agents c)) c)))))"

definition remote_agent_exit :: "peer_env \<Rightarrow> string list \<Rightarrow> flow core_op" where
  "remote_agent_exit env r = carry (locked (\<lambda>c.
     case popstr r of
       None \<Rightarrow> Some ((), c)
     | Some (uuid, r) \<Rightarrow>
         (case zh_lookup (cx_remote_agents c) uuid of
            None \<Rightarrow> Some ((), c)
          | Some ra \<Rightarrow> remote_exits env ra c)))"

text \<open>The time of a shout; without one the lock is not released.\<close>

definition RT_SET_TIME_MSG :: string where "RT_SET_TIME_MSG = ''RT_SET_TIME ''"

definition is_rt_set_time :: "string \<Rightarrow> bool" where
  "is_rt_set_time title \<longleftrightarrow> take (length RT_SET_TIME_MSG) title = RT_SET_TIME_MSG"

definition shout_rt_set_time :: "peer_env \<Rightarrow> string \<Rightarrow> flow core_op" where
  "shout_rt_set_time env title c =
     do { c \<leftarrow> model_lock c;
          let stamp = drop (length RT_SET_TIME_MSG) title;
          if stamp = [] then Some (Carry_On, c)
          else do { us \<leftarrow> c_atoll stamp; c \<leftarrow> model_unlock c; carry (igs_rt_set_time (app_of env) us) c } }"

definition remote_state :: "peer_env \<Rightarrow> string list \<Rightarrow> flow core_op" where
  "remote_state env r =
     popped r (\<lambda>state r. popped r (\<lambda>uuid r. carry (\<lambda>c.
       do { (name, c) \<leftarrow> locked (\<lambda>c.
              Some (Option.bind (zh_lookup (cx_remote_agents c) uuid) (\<lambda>ra. Option.bind (ra_definition ra) df_name), c)) c;
            case name of
              None \<Rightarrow> Some ((), c)
            | Some n \<Rightarrow> agent_LOCKED_propagate_agent_event (app_of env) IGS_AGENT_CHANGED_STATE (Some uuid) (Some n) (Some state) c })))"

text \<open>A message without a title is compared with one before it is checked.\<close>

definition shout_private :: "peer_env \<Rightarrow> zyre_event \<Rightarrow> flow core_op" where
  "shout_private env ev c =
     do { (title, r) \<leftarrow> popstr (ze_msg ev);
          if title = ''REMOTE_AGENT_EXIT'' then remote_agent_exit env r c
          else if is_rt_set_time title then shout_rt_set_time env title c
          else if title = ''STATE'' then remote_state env r c
          else Some (Carry_On, c) }"

definition zyre_shout :: "peer_env \<Rightarrow> zyre_event \<Rightarrow> flow core_op" where
  "zyre_shout env ev c =
     (if ze_group ev = nt_replay_channel (cx_network c) then shout_replay env ev c
      else if ze_group ev = IGS_PRIVATE_CHANNEL then shout_private env ev c
      else Some (Carry_On, c))"

end
