(* ===== verification/Igs_Commands.thy ===== *)
theory Igs_Commands
  imports Igs_Peers
begin

text \<open>
  The whispers of other peers (the event WHISPER of \<open>s_manage_zyre_incoming\<close> in
  src/src/igs_network.c): definitions and mappings of remote agents, values on request, and
  the commands that drive an agent from outside. A frame that is missing, or an agent that is
  not in the context, makes the handler return; freed memory and logging are left out.
\<close>

section \<open>Remote agents\<close>

text \<open>All remote agents of the peer know the agent at \<open>p\<close>: one of its observers is told.\<close>

fun knows_remotes ::
    "app_env \<Rightarrow> addr \<Rightarrow> string \<Rightarrow> igs_wrapper \<Rightarrow> string list \<Rightarrow> igs_core \<Rightarrow> igs_core option" where
  "knows_remotes env p peer w [] c = Some c"
| "knows_remotes env p peer w (u # us) c =
     do { a \<leftarrow> deref p c;
          if ag_uuid a = None then Some c
          else do { ra \<leftarrow> zh_lookup (cx_remote_agents c) u;
                    c \<leftarrow> (if pe_peer_id (ra_peer ra) = peer then
                           do { (_, c) \<leftarrow> unlocked (\<lambda>c.
                                  do { d \<leftarrow> ra_definition ra;
                                       n \<leftarrow> df_name d;
                                       c \<leftarrow> call_event env (wr_callback w) p IGS_AGENT_KNOWS_US (ra_uuid ra) n None (wr_my_data w) c;
                                       Some ((), c) }) c;
                                Some c }
                         else Some c);
                    knows_remotes env p peer w us c } }"

fun knows_observers :: "app_env \<Rightarrow> addr \<Rightarrow> string \<Rightarrow> igs_wrapper list \<Rightarrow> igs_core \<Rightarrow> igs_core option" where
  "knows_observers env p peer [] c = Some c"
| "knows_observers env p peer (w # ws) c =
     do { a \<leftarrow> deref p c;
          c \<leftarrow> knows_remotes env p peer w (map fst (cx_remote_agents c)) c;
          knows_observers env p peer ws c }"

definition remote_peer_knows_agent :: "peer_env \<Rightarrow> zyre_event \<Rightarrow> string list \<Rightarrow> flow core_op" where
  "remote_peer_knows_agent env ev r =
     popped r (\<lambda>uuid r. carry (locked (change (\<lambda>c.
       case zh_lookup (cx_agents c) uuid of
         None \<Rightarrow> Some c
       | Some p \<Rightarrow> do { a \<leftarrow> deref p c;
                         knows_observers (app_of env) p (ze_peer_uuid ev) (ag_agent_event_callbacks a) c }))))"

text \<open>Subscriptions of agents of the process to one remote agent, and of one agent to all of them.\<close>

fun configure_agents :: "string \<Rightarrow> addr list \<Rightarrow> igs_core \<Rightarrow> igs_core option" where
  "configure_agents uuid [] c = Some c"
| "configure_agents uuid (p # ps) c =
     do { a \<leftarrow> deref p c;
          ra \<leftarrow> zh_lookup (cx_remote_agents c) uuid;
          (_, c) \<leftarrow> s_network_configure_mapping_to_remote_agent a ra c;
          configure_agents uuid ps c }"

fun configure_remotes :: "addr \<Rightarrow> string list \<Rightarrow> igs_core \<Rightarrow> igs_core option" where
  "configure_remotes p [] c = Some c"
| "configure_remotes p (u # us) c =
     do { a \<leftarrow> deref p c;
          ra \<leftarrow> zh_lookup (cx_remote_agents c) u;
          (_, c) \<leftarrow> s_network_configure_mapping_to_remote_agent a ra c;
          configure_remotes p us c }"

text \<open>The splits that name the new agent say hello to it.\<close>

fun hello_splits :: "app_env \<Rightarrow> string option \<Rightarrow> string \<Rightarrow> string \<Rightarrow> igs_split list \<Rightarrow> igs_core \<Rightarrow> igs_core option" where
  "hello_splits env u remote_uuid remote_name [] c = Some c"
| "hello_splits env u remote_uuid remote_name (e # es) c =
     do { c \<leftarrow> (if sp_to_agent e = remote_name then
                 do { uuid \<leftarrow> u;
                      (_, c) \<leftarrow> unlocked (igs_channel_whisper_zmsg (net_env.truncate env) remote_uuid
                                  (hello_message uuid (sp_from_input e) (sp_to_output e))) c;
                      Some c }
               else Some c);
          hello_splits env u remote_uuid remote_name es c }"

fun hello_agents :: "app_env \<Rightarrow> string \<Rightarrow> string \<Rightarrow> addr list \<Rightarrow> igs_core \<Rightarrow> igs_core option" where
  "hello_agents env remote_uuid remote_name [] c = Some c"
| "hello_agents env remote_uuid remote_name (p # ps) c =
     do { a \<leftarrow> deref p c;
          m \<leftarrow> ag_mapping a;
          c \<leftarrow> hello_splits env (ag_uuid a) remote_uuid remote_name (mg_split_elements m) c;
          hello_agents env remote_uuid remote_name ps c }"

definition new_remote_agent :: "string \<Rightarrow> igs_zyre_peer \<Rightarrow> igs_definition \<Rightarrow> igs_remote_agent" where
  "new_remote_agent uuid pe d = \<lparr> ra_uuid = uuid, ra_peer = pe, ra_definition = Some d, ra_shall_send_outputs_request = False,
     ra_mapping = None, ra_mapping_filters = [] \<rparr>"

text \<open>The remote agent with its definition; the flag tells whether it is new.\<close>

definition register_definition :: "string \<Rightarrow> string \<Rightarrow> igs_definition \<Rightarrow> bool core_op" where
  "register_definition peer uuid d c =
     (case zh_lookup (cx_remote_agents c) uuid of
        None \<Rightarrow>
          do { pe \<leftarrow> zh_lookup (cx_zyre_peers c) peer;
               Some (True, c\<lparr> cx_remote_agents := zh_insert uuid (new_remote_agent uuid pe d) (cx_remote_agents c) \<rparr>) }
      | Some ra \<Rightarrow>
          do { c_assert (ra_definition ra \<noteq> None);
               Some (False, put_remote (ra\<lparr> ra_definition := Some d \<rparr>) c) })"

text \<open>A new remote agent is greeted, and the agents of the process are told of it.\<close>

definition greet_remote ::
    "peer_env \<Rightarrow> zyre_event \<Rightarrow> string \<Rightarrow> string \<Rightarrow> string \<Rightarrow> string list \<Rightarrow> unit core_op" where
  "greet_remote env ev str_definition uuid name r c =
     do { let c = emit (Zyre_Whisper (ze_peer_uuid ev) [''REMOTE_PEER_KNOWS_AGENT'', uuid]) c;
          c \<leftarrow> hello_agents (app_of env) uuid name (map snd (cx_agents c)) c;
          (_, c) \<leftarrow> unlocked (agent_LOCKED_propagate_agent_event (app_of env) IGS_AGENT_ENTERED (Some uuid) (Some name)
                      (Some str_definition)) c;
          case popstr r of
            None \<Rightarrow> Some ((), c)
          | Some (notification, r) \<Rightarrow>
              unlocked (agent_LOCKED_propagate_agent_event (app_of env) IGS_AGENT_KNOWS_US (Some uuid) (Some name) None) c }"

definition external_definition_body ::
    "peer_env \<Rightarrow> zyre_event \<Rightarrow> string \<Rightarrow> string \<Rightarrow> string \<Rightarrow> string list \<Rightarrow> unit core_op" where
  "external_definition_body env ev str_definition uuid name r c =
     do { loaded \<leftarrow> parser_load_definition (files (nodes env)) str_definition;
          case loaded of
            None \<Rightarrow> Some ((), c)
          | Some d \<Rightarrow>
              if df_name d = None then Some ((), c)
              else do { d \<leftarrow> definition_update_json d;
                        (is_new, c) \<leftarrow> register_definition (ze_peer_uuid ev) uuid d c;
                        c \<leftarrow> configure_agents uuid (map snd (cx_agents c)) c;
                        if is_new then greet_remote env ev str_definition uuid name r c
                        else unlocked (agent_LOCKED_propagate_agent_event (app_of env) IGS_AGENT_UPDATED_DEFINITION (Some uuid)
                               (Some name) (df_json d)) c } }"

definition external_definition :: "peer_env \<Rightarrow> zyre_event \<Rightarrow> string list \<Rightarrow> flow core_op" where
  "external_definition env ev r =
     popped r (\<lambda>str_definition r. popped r (\<lambda>uuid r. popped r (\<lambda>name r.
       carry (locked (external_definition_body env ev str_definition uuid name r)))))"

text \<open>The mapping of a remote agent is replaced, and the agents of the process are told.\<close>

definition tell_mapping :: "peer_env \<Rightarrow> igs_remote_agent \<Rightarrow> igs_mapping option \<Rightarrow> string option \<Rightarrow> unit core_op" where
  "tell_mapping env ra m str_mapping c =
     do { d \<leftarrow> ra_definition ra;
          unlocked (agent_LOCKED_propagate_agent_event (app_of env) IGS_AGENT_UPDATED_MAPPING (Some (ra_uuid ra)) (df_name d) str_mapping)
            (put_remote (ra\<lparr> ra_mapping := m \<rparr>) c) }"

definition external_mapping_body :: "peer_env \<Rightarrow> igs_remote_agent \<Rightarrow> string \<Rightarrow> unit core_op" where
  "external_mapping_body env ra str_mapping c =
     (if str_mapping = [] then
        (if ra_mapping ra = None then Some ((), c) else tell_mapping env ra None None c)
      else do { loaded \<leftarrow> parser_load_mapping str_mapping;
                case loaded of
                  None \<Rightarrow> Some ((), c)
                | Some m \<Rightarrow> do { m \<leftarrow> mapping_update_json m; tell_mapping env ra (Some m) (Some str_mapping) c } })"

definition external_mapping :: "peer_env \<Rightarrow> string list \<Rightarrow> flow core_op" where
  "external_mapping env r =
     popped r (\<lambda>str_mapping r. popped r (\<lambda>uuid r. locked (\<lambda>c.
       case zh_lookup (cx_remote_agents c) uuid of
         None \<Rightarrow> Some (Returned 0, c)
       | Some ra \<Rightarrow> carry (external_mapping_body env ra str_mapping) c)))"

section \<open>Loading from outside\<close>

text \<open>An agent of the context, looked up under the lock and used without it.\<close>

definition to_agent :: "string \<Rightarrow> (addr \<Rightarrow> 'r core_op) \<Rightarrow> flow core_op" where
  "to_agent uuid f c =
     do { (found, c) \<leftarrow> locked (\<lambda>c. Some (zh_lookup (cx_agents c) uuid, c)) c;
          case found of None \<Rightarrow> Some (Returned 0, c) | Some p \<Rightarrow> carry (f p) c }"

definition load_this_definition :: "peer_env \<Rightarrow> string list \<Rightarrow> flow core_op" where
  "load_this_definition env r =
     popped r (\<lambda>str_definition r. popped r (\<lambda>uuid r. to_agent uuid (\<lambda>p c.
       do { (res, c) \<leftarrow> igsagent_definition_load_str (nodes env) p str_definition c;
            if res = IGS_SUCCESS then locked (change (\<lambda>c. configure_remotes p (map fst (cx_remote_agents c)) c)) c
            else Some ((), c) })))"

definition load_mapping_message :: "addr \<Rightarrow> string \<Rightarrow> igs_core \<Rightarrow> igs_core option" where
  "load_mapping_message p str_mapping c =
     do { loaded \<leftarrow> parser_load_mapping str_mapping;
          case loaded of
            None \<Rightarrow> Some c
          | Some m \<Rightarrow>
              do { a \<leftarrow> deref p c;
                   c \<leftarrow> configure_remotes p (map fst (cx_remote_agents c)) (store p (a\<lparr> ag_mapping := Some m \<rparr>) c);
                   (_, c) \<leftarrow> on_agent p (\<lambda>a. do { a \<leftarrow> mapping_changed a; Some ((), a) }) c;
                   Some c } }"

definition load_this_mapping :: "string list \<Rightarrow> flow core_op" where
  "load_this_mapping r =
     popped r (\<lambda>str_mapping r. popped r (\<lambda>uuid r. locked (\<lambda>c.
       case zh_lookup (cx_agents c) uuid of
         None \<Rightarrow> Some (Returned 0, c)
       | Some p \<Rightarrow> carry (change (load_mapping_message p str_mapping)) c)))"

section \<open>Values on request\<close>

text \<open>The frames of one value; impulsions are left out of the outputs only.\<close>

definition value_frames :: "bool \<Rightarrow> igs_io \<Rightarrow> string list option" where
  "value_frames with_impulsions io =
     (let frames = (\<lambda>v. [io_name io, fmt_d (int (value_type_code (io_value_type io))), v])
      in case io_value_type io of
           IGS_INTEGER_T \<Rightarrow> Some (frames (wr_int (io_i io)))
         | IGS_DOUBLE_T \<Rightarrow> Some (frames (wr_double (io_d io)))
         | IGS_STRING_T \<Rightarrow> (case io_s io of None \<Rightarrow> Some (frames []) | Some m \<Rightarrow> do { s \<leftarrow> rd_cstr m; Some (frames s) })
         | IGS_BOOL_T \<Rightarrow> Some (frames (wr_bool (io_b io)))
         | IGS_IMPULSION_T \<Rightarrow> Some (if with_impulsions then frames [] else [])
         | IGS_DATA_T \<Rightarrow> do { d \<leftarrow> copy_from (io_data io) (io_value_size io); Some (frames d) }
         | IGS_UNKNOWN_T \<Rightarrow> Some [])"

fun all_frames :: "bool \<Rightarrow> igs_io list \<Rightarrow> string list option" where
  "all_frames b [] = Some []"
| "all_frames b (io # ios) = do { f \<leftarrow> value_frames b io; fs \<leftarrow> all_frames b ios; Some (f @ fs) }"

text \<open>The table of outputs; the ordered names of inputs and attributes, each of which must be in its table.\<close>

fun named_ios :: "(string, igs_io) table \<Rightarrow> string list \<Rightarrow> igs_io list option" where
  "named_ios t [] = Some []"
| "named_ios t (n # ns) = do { io \<leftarrow> zh_lookup t n; ios \<leftarrow> named_ios t ns; Some (io # ios) }"

definition current_values ::
    "zyre_event \<Rightarrow> string \<Rightarrow> bool \<Rightarrow> (igs_definition \<Rightarrow> igs_io list option) \<Rightarrow> string list \<Rightarrow> flow core_op" where
  "current_values ev title with_impulsions ios r =
     popped r (\<lambda>uuid r c.
       case zh_lookup (cx_agents c) uuid of
         None \<Rightarrow> Some (Returned 0, c)
       | Some p \<Rightarrow> carry (locked (\<lambda>c.
           do { a \<leftarrow> deref p c;
                u \<leftarrow> ag_uuid a;
                d \<leftarrow> ag_definition a;
                xs \<leftarrow> ios d;
                fs \<leftarrow> all_frames with_impulsions xs;
                Some ((), emit (Zyre_Whisper (ze_peer_uuid ev) ([title, u] @ fs)) c) })) c)"

definition get_current_outputs :: "zyre_event \<Rightarrow> string list \<Rightarrow> flow core_op" where
  "get_current_outputs ev = current_values ev ''CURRENT_OUTPUTS'' False (\<lambda>d. Some (map snd (df_outputs d)))"

definition get_current_inputs :: "zyre_event \<Rightarrow> string list \<Rightarrow> flow core_op" where
  "get_current_inputs ev = current_values ev ''CURRENT_INPUTS'' True (\<lambda>d. named_ios (df_inputs d) (df_inputs_names d))"

definition get_current_attributes :: "zyre_event \<Rightarrow> string list \<Rightarrow> flow core_op" where
  "get_current_attributes ev =
     current_values ev ''CURRENT_ATTRIBUTES'' True (\<lambda>d. named_ios (df_attributes d) (df_attributes_names d))"

text \<open>From an agent that is not known the handler returns with the lock.\<close>

definition current_outputs :: "peer_env \<Rightarrow> string list \<Rightarrow> flow core_op" where
  "current_outputs env r =
     popped r (\<lambda>uuid r c.
       do { c \<leftarrow> model_lock c;
            case zh_lookup (cx_remote_agents c) uuid of
              None \<Rightarrow> Some (Returned 0, c)
            | Some ra \<Rightarrow>
                do { d \<leftarrow> ra_definition ra;
                     c \<leftarrow> s_handle_publication (app_of env) (ra_uuid ra) (df_name d) r c;
                     c \<leftarrow> model_unlock c;
                     Some (Carry_On, c) } })"

section \<open>Commands\<close>

text \<open>The first created agent of that name is activated.\<close>

fun start_agents :: "peer_env \<Rightarrow> string \<Rightarrow> addr list \<Rightarrow> igs_core \<Rightarrow> igs_core option" where
  "start_agents env agent_name [] c = Some c"
| "start_agents env agent_name (p # ps) c =
     do { a \<leftarrow> deref p c;
          if ag_uuid a = None then Some c
          else do { d \<leftarrow> ag_definition a;
                    n \<leftarrow> df_name d;
                    if n = agent_name then do { (_, c) \<leftarrow> unlocked (igsagent_activate (app_of env) p) c; Some c }
                    else start_agents env agent_name ps c } }"

definition start_agent :: "peer_env \<Rightarrow> string list \<Rightarrow> flow core_op" where
  "start_agent env r = popped r (\<lambda>agent_name r. carry (locked (change (\<lambda>c.
     start_agents env agent_name (map snd (cx_created_agents c)) c))))"

definition stop_peer :: "flow core_op" where
  "stop_peer = locked (\<lambda>c. Some (Returned (- 1), set_network (\<lambda>n. n\<lparr> nt_external_stop := True \<rparr>) c))"

text \<open>Muting ends at an agent without a uuid, unmuting passes over it.\<close>

fun mute_agents :: "peer_env \<Rightarrow> addr list \<Rightarrow> igs_core \<Rightarrow> igs_core option" where
  "mute_agents env [] c = Some c"
| "mute_agents env (p # ps) c =
     do { a \<leftarrow> deref p c;
          if ag_uuid a = None then Some c
          else do { (_, c) \<leftarrow> unlocked (igsagent_mute (app_of env) p) c; mute_agents env ps c } }"

fun unmute_agents :: "peer_env \<Rightarrow> addr list \<Rightarrow> igs_core \<Rightarrow> igs_core option" where
  "unmute_agents env [] c = Some c"
| "unmute_agents env (p # ps) c =
     do { (_, c) \<leftarrow> unlocked (igsagent_unmute (app_of env) p) c; unmute_agents env ps c }"

definition mute_all :: "peer_env \<Rightarrow> flow core_op" where
  "mute_all env = carry (locked (change (\<lambda>c. mute_agents env (map snd (cx_agents c)) c)))"

definition unmute_all :: "peer_env \<Rightarrow> flow core_op" where
  "unmute_all env = carry (locked (change (\<lambda>c. unmute_agents env (map snd (cx_agents c)) c)))"

text \<open>Commands of a uuid alone, and of a text and a uuid.\<close>

definition agent_command :: "(addr \<Rightarrow> 'r core_op) \<Rightarrow> string list \<Rightarrow> flow core_op" where
  "agent_command f r = popped r (\<lambda>uuid r. to_agent uuid f)"

definition agent_text_command :: "(addr \<Rightarrow> string \<Rightarrow> 'r core_op) \<Rightarrow> string list \<Rightarrow> flow core_op" where
  "agent_text_command f r = popped r (\<lambda>s r. popped r (\<lambda>uuid r. to_agent uuid (\<lambda>p. f p s)))"

text \<open>Commands on links and splits: an input, an agent, an output and a uuid.\<close>

definition link_command :: "(addr \<Rightarrow> string \<Rightarrow> string \<Rightarrow> string \<Rightarrow> 'r core_op) \<Rightarrow> string list \<Rightarrow> flow core_op" where
  "link_command f r = popped r (\<lambda>input r. popped r (\<lambda>remote_agent r. popped r (\<lambda>out r. popped r (\<lambda>uuid r.
     to_agent uuid (\<lambda>p. f p input remote_agent out)))))"

text \<open>The commands of these three forms, by their titles.\<close>

definition stop_agent where "stop_agent env = agent_command (igsagent_deactivate (app_of env))"
definition clear_mapping where "clear_mapping = agent_command igsagent_clear_mappings"
definition mute_agent where "mute_agent env = agent_command (igsagent_mute (app_of env))"
definition unmute_agent where "unmute_agent env = agent_command (igsagent_unmute (app_of env))"
definition mute_output where "mute_output = agent_text_command igsagent_output_mute"
definition unmute_output where "unmute_output = agent_text_command igsagent_output_unmute"
definition map_command where "map_command = link_command igsagent_mapping_add"
definition unmap_command where "unmap_command = link_command igsagent_mapping_remove_with_name"
definition add_split where "add_split env = link_command (igsagent_split_add (app_of env))"
definition remove_split where "remove_split env = link_command (igsagent_split_remove_with_name (app_of env))"
definition set_definition_path where "set_definition_path = agent_text_command igsagent_definition_set_path"
definition set_mapping_path where "set_mapping_path = agent_text_command igsagent_mapping_set_path"
definition save_definition where "save_definition env = agent_command (igsagent_definition_save (nodes env))"
definition save_mapping where "save_mapping env = agent_command (igsagent_mapping_save (nodes env))"

text \<open>
  A value for an input, output or attribute, as a text; an empty frame is no text. The type
  that may follow is read as eight bytes, and timestamped types are refused.
\<close>

definition refused_type :: "string list \<Rightarrow> bool option" where
  "refused_type r =
     (case r of [] \<Rightarrow> Some False
      | f # r \<Rightarrow> if length f < 8 then None else Some (7 \<le> rd_int64 f \<and> rd_int64 f \<le> 12))"

definition set_io_command :: "(addr \<Rightarrow> string \<Rightarrow> string option \<Rightarrow> igs_result core_op) \<Rightarrow> string list \<Rightarrow> flow core_op" where
  "set_io_command f r =
     popped r (\<lambda>io_name r. case r of [] \<Rightarrow> (\<lambda>c. Some (Returned 0, c)) | v # r \<Rightarrow>
     popped r (\<lambda>uuid r c.
       do { (found, c) \<leftarrow> locked (\<lambda>c.
              case zh_lookup (cx_agents c) uuid of
                None \<Rightarrow> Some (None, c)
              | Some p \<Rightarrow> do { refused \<leftarrow> refused_type r; Some (Some (p, refused), c) }) c;
            case found of
              None \<Rightarrow> Some (Returned 0, c)
            | Some (p, refused) \<Rightarrow>
                if refused then Some (Carry_On, c)
                else carry (f p io_name (if v = [] then None else Some (takeWhile (\<lambda>ch. ch \<noteq> CHR 0x00) v))) c }))"

definition set_log_path :: "peer_env \<Rightarrow> string list \<Rightarrow> flow core_op" where
  "set_log_path env r = carry (\<lambda>c.
     do { (allow, c) \<leftarrow> igs_log_file (nodes env) c; igs_log_set_file (nodes env) allow (map_option fst (popstr r)) c })"

definition set_log_file_command :: "peer_env \<Rightarrow> bool \<Rightarrow> flow core_op" where
  "set_log_file_command env b = carry (\<lambda>c. igs_log_set_file (nodes env) b (Some (nt_log_file_path (cx_network c))) c)"

text \<open>A call of a service goes on unless a frame or the callee is missing.\<close>

definition call_rejected :: "string list \<Rightarrow> igs_core \<Rightarrow> bool" where
  "call_rejected r c \<longleftrightarrow> length r < 4 \<or> zh_lookup (cx_agents c) (takeWhile (\<lambda>ch. ch \<noteq> CHR 0x00) (r ! 1)) = None"

definition call_service_command :: "peer_env \<Rightarrow> zyre_event \<Rightarrow> string list \<Rightarrow> flow core_op" where
  "call_service_command env ev r c =
     do { (_, c') \<leftarrow> handle_call_service (app_of env) (ze_peer_name ev) (ze_msg ev) c;
          Some (if call_rejected r c then Returned 0 else Carry_On, c') }"

section \<open>Measure of performance\<close>

text \<open>A counter of eight bytes; the payload goes back as it came.\<close>

definition ping :: "zyre_event \<Rightarrow> string list \<Rightarrow> flow core_op" where
  "ping ev r = carry (locked (\<lambda>c.
     case r of
       count # payload # r \<Rightarrow>
         do { c_assert (8 \<le> length count);
              Some ((), emit (Zyre_Whisper (ze_peer_uuid ev) [''PONG'', take 8 count, payload]) c) }
     | _ \<Rightarrow> None))"

definition wr_u64 :: "u64 \<Rightarrow> string" where
  "wr_u64 n = le_bytes 8 (unat n)"

definition rd_u64 :: "string \<Rightarrow> u64" where
  "rd_u64 m = of_nat (le_nat (take 8 m))"

definition pong_received :: "zyre_event \<Rightarrow> u64 \<Rightarrow> string option \<Rightarrow> igs_core \<Rightarrow> igs_core option" where
  "pong_received ev count payload c =
     (let n = cx_network c
      in if count \<noteq> nt_performance_msg_counter n then Some c
         else if count = nt_performance_msg_count_target n
         then Some (set_network (\<lambda>n. n\<lparr> nt_performance_msg_count_target := 0 \<rparr>) c)
         else do { payload \<leftarrow> payload;
                   let c = set_network (\<lambda>n. n\<lparr> nt_performance_msg_counter := nt_performance_msg_counter n + 1 \<rparr>) c;
                   Some (emit (Zyre_Whisper (ze_peer_uuid ev)
                     [''PING'', wr_u64 (nt_performance_msg_counter (cx_network c)), payload]) c) })"

definition pong :: "zyre_event \<Rightarrow> string list \<Rightarrow> flow core_op" where
  "pong ev r = carry (locked (change (\<lambda>c.
     case r of
       [] \<Rightarrow> None
     | count # r \<Rightarrow> if length count < 8 then None
                     else pong_received ev (rd_u64 count) (case r of [] \<Rightarrow> None | payload # r \<Rightarrow> Some payload) c)))"

section \<open>The table of titles\<close>

definition worker_message :: "peer_env \<Rightarrow> string \<Rightarrow> string list \<Rightarrow> flow core_op" where
  "worker_message env title r = carry (locked (change (\<lambda>c. split_message_from_worker (app_of env) title r c)))"

definition splitter_work :: "peer_env \<Rightarrow> string list \<Rightarrow> flow core_op" where
  "splitter_work env r = carry (locked (change (\<lambda>c. split_message_from_splitter (app_of env) r c)))"

definition whisper_handlers :: "peer_env \<Rightarrow> zyre_event \<Rightarrow> (string \<times> (string list \<Rightarrow> flow core_op)) list" where
  "whisper_handlers env ev =
     [(''REMOTE_PEER_KNOWS_AGENT'', remote_peer_knows_agent env ev),
      (''EXTERNAL_DEFINITION#'', external_definition env ev),
      (''EXTERNAL_MAPPING#'', external_mapping env),
      (''LOAD_THIS_DEFINITION#'', load_this_definition env),
      (''LOAD_THIS_MAPPING#'', load_this_mapping),
      (''GET_CURRENT_OUTPUTS'', get_current_outputs ev),
      (''CURRENT_OUTPUTS'', current_outputs env),
      (''GET_CURRENT_INPUTS'', get_current_inputs ev),
      (''GET_CURRENT_ATTRIBUTES'', get_current_attributes ev),
      (''START_AGENT'', start_agent env),
      (''STOP_AGENT'', stop_agent env),
      (''STOP_PEER'', \<lambda>r. stop_peer),
      (''CLEAR_MAPPING'', clear_mapping),
      (''FREEZE'', \<lambda>r. carry (igs_freeze (app_of env))),
      (''UNFREEZE'', \<lambda>r. carry (igs_unfreeze (app_of env))),
      (''MUTE_ALL'', \<lambda>r. mute_all env),
      (''UNMUTE_ALL'', \<lambda>r. unmute_all env),
      (''MUTE_AGENT'', mute_agent env),
      (''UNMUTE_AGENT'', unmute_agent env),
      (''MUTE'', mute_output),
      (''UNMUTE'', unmute_output),
      (''SET_INPUT'', set_io_command (igsagent_input_set_string (app_of env))),
      (''SET_OUTPUT'', set_io_command (igsagent_output_set_string (app_of env))),
      (''SET_ATTRIBUTE'', set_io_command (igsagent_attribute_set_string (app_of env))),
      (''MAP'', map_command),
      (''UNMAP'', unmap_command),
      (''ADD_SPLIT'', add_split env),
      (''REMOVE_SPLIT'', remove_split env),
      (''ENABLE_LOG_STREAM'', \<lambda>r. carry (igs_log_set_stream (nodes env) True)),
      (''DISABLE_LOG_STREAM'', \<lambda>r. carry (igs_log_set_stream (nodes env) False)),
      (''ENABLE_LOG_FILE'', \<lambda>r. set_log_file_command env True),
      (''DISABLE_LOG_FILE'', \<lambda>r. set_log_file_command env False),
      (''SET_LOG_PATH'', set_log_path env),
      (''SET_DEFINITION_PATH'', set_definition_path),
      (''SET_MAPPING_PATH'', set_mapping_path),
      (''SAVE_DEFINITION_TO_PATH'', save_definition env),
      (''SAVE_MAPPING_TO_PATH'', save_mapping env),
      (''SERVICE'', call_service_command env ev),
      (''CALL'', call_service_command env ev),
      (''PING'', ping ev),
      (''PONG'', pong ev),
      (''WORKER_HELLO'', worker_message env ''WORKER_HELLO''),
      (''WORKER_READY'', worker_message env ''WORKER_READY''),
      (''WORKER_GOODBYE'', worker_message env ''WORKER_GOODBYE''),
      (''SPLITTER_WORK'', splitter_work env),
      (''STATE'', remote_state env)]"

definition whisper_rt_set_time :: "peer_env \<Rightarrow> string \<Rightarrow> flow core_op" where
  "whisper_rt_set_time env title =
     (let stamp = drop (length RT_SET_TIME_MSG) title
      in if stamp = [] then (\<lambda>c. Some (Carry_On, c))
         else carry (\<lambda>c. do { us \<leftarrow> c_atoll stamp; igs_rt_set_time (app_of env) us c }))"

text \<open>A title that is not known is passed over.\<close>

definition zyre_whisper :: "peer_env \<Rightarrow> zyre_event \<Rightarrow> flow core_op" where
  "zyre_whisper env ev =
     popped (ze_msg ev) (\<lambda>title r.
       case map_of (whisper_handlers env ev) title of
         Some handler \<Rightarrow> handler r
       | None \<Rightarrow> if is_rt_set_time title then whisper_rt_set_time env title else (\<lambda>c. Some (Carry_On, c)))"

end
