(* ===== verification/Igs_Incoming.thy ===== *)
theory Igs_Incoming
  imports Igs_Commands
begin

text \<open>
  The network actor (src/src/igs_network.c): the handler of every event of Zyre
  (\<open>s_manage_zyre_incoming\<close>), the timers that send definitions and mappings again when they
  have changed, the messages of the parent thread, and the two ends of the event loop.
  The mutex between starting and stopping the network (\<open>s_network_lock\<close>) is not modelled.
\<close>

section \<open>Events of Zyre\<close>

text \<open>The observers of channels, over a copy of their list.\<close>

fun channel_observers :: "peer_env \<Rightarrow> zyre_event \<Rightarrow> igs_wrapper list \<Rightarrow> igs_core \<Rightarrow> igs_core option" where
  "channel_observers env ev [] c = Some c"
| "channel_observers env ev (w # ws) c =
     do { (_, c) \<leftarrow> unlocked (change (call_channels env (wr_callback w) ev (wr_my_data w))) c;
          channel_observers env ev ws c }"

definition zyre_handler :: "peer_env \<Rightarrow> zyre_event \<Rightarrow> flow core_op" where
  "zyre_handler env ev =
     (if ze_type ev = ''ENTER'' then zyre_enter env ev
      else if ze_type ev = ''JOIN'' then zyre_join ev
      else if ze_type ev = ''SHOUT'' then zyre_shout env ev
      else if ze_type ev = ''WHISPER'' then zyre_whisper env ev
      else if ze_type ev = ''LEADER'' then zyre_leader env ev
      else if ze_type ev = ''EXIT'' then zyre_exit env ev
      else (\<lambda>c. Some (Carry_On, c)))"

definition s_manage_zyre_incoming :: "peer_env \<Rightarrow> zyre_event \<Rightarrow> int core_op" where
  "s_manage_zyre_incoming env ev c =
     do { c_assert (cx_node c);
          (r, c) \<leftarrow> zyre_handler env ev c;
          case r of
            Returned n \<Rightarrow> Some (n, c)
          | Carry_On \<Rightarrow> locked (\<lambda>c.
              do { c \<leftarrow> channel_observers env ev (nt_zyre_callbacks (cx_network c)) c; Some (0, c) }) c }"

section \<open>Timers\<close>

text \<open>The definition of an agent to every peer on the private channel, in its version.\<close>

fun definition_to_peers :: "igs_agent \<Rightarrow> igs_zyre_peer list \<Rightarrow> igs_core \<Rightarrow> igs_core option" where
  "definition_to_peers a [] c = Some c"
| "definition_to_peers a (pe # pes) c =
     do { c \<leftarrow> (if pe_has_joined_private_channel pe then
                 do { d \<leftarrow> ag_definition a;
                      case definition_for pe d of
                        None \<Rightarrow> Some c
                      | Some json \<Rightarrow> s_send_definition_to_zyre_peer a (pe_peer_id pe) json (ag_activation_during_runtime a) c }
               else Some c);
          definition_to_peers a pes c }"

definition update_definition :: "peer_env \<Rightarrow> addr \<Rightarrow> igs_core \<Rightarrow> igs_core option" where
  "update_definition env p c =
     do { a \<leftarrow> deref p c;
          c \<leftarrow> definition_to_peers a (map snd (cx_zyre_peers c)) c;
          c \<leftarrow> s_send_state_to a IGS_PRIVATE_CHANNEL False c;
          let c = store p (a\<lparr> ag_activation_during_runtime := False, ag_need_definition_update := False,
                              ag_need_mapping_update := True \<rparr>) c;
          (_, c) \<leftarrow> unlocked (\<lambda>c.
            case ag_uuid a of
              None \<Rightarrow> Some ((), c)
            | Some u \<Rightarrow> do { d \<leftarrow> ag_definition a;
                              agent_LOCKED_propagate_agent_event (app_of env) IGS_AGENT_UPDATED_DEFINITION (Some u) (df_name d)
                                (df_json d) c }) c;
          Some c }"

fun definition_updates :: "peer_env \<Rightarrow> addr list \<Rightarrow> igs_core \<Rightarrow> igs_core option" where
  "definition_updates env [] c = Some c"
| "definition_updates env (p # ps) c =
     do { a \<leftarrow> deref p c;
          if ag_uuid a = None \<or> \<not> ag_context a then Some c
          else do { c \<leftarrow> (if ag_need_definition_update a then update_definition env p c else Some c);
                    definition_updates env ps c } }"

definition s_trigger_definition_update :: "peer_env \<Rightarrow> unit core_op" where
  "s_trigger_definition_update env = locked (change (\<lambda>c. definition_updates env (map snd (cx_agents c)) c))"

fun mapping_to_peers :: "igs_agent \<Rightarrow> igs_zyre_peer list \<Rightarrow> igs_core \<Rightarrow> igs_core option" where
  "mapping_to_peers a [] c = Some c"
| "mapping_to_peers a (pe # pes) c =
     do { c \<leftarrow> (if pe_has_joined_private_channel pe then
                 do { m \<leftarrow> ag_mapping a;
                      Some (case mapping_for pe m of
                              None \<Rightarrow> c | Some json \<Rightarrow> s_send_mapping_to_zyre_peer a (pe_peer_id pe) json c) }
               else Some c);
          mapping_to_peers a pes c }"

definition update_mapping :: "peer_env \<Rightarrow> addr \<Rightarrow> igs_core \<Rightarrow> igs_core option" where
  "update_mapping env p c =
     do { a \<leftarrow> deref p c;
          c \<leftarrow> mapping_to_peers a (map snd (cx_zyre_peers c)) c;
          c \<leftarrow> configure_remotes p (map fst (cx_remote_agents c)) c;
          let c = store p (a\<lparr> ag_need_mapping_update := False \<rparr>) c;
          (_, c) \<leftarrow> unlocked (\<lambda>c.
            case ag_uuid a of
              None \<Rightarrow> Some ((), c)
            | Some u \<Rightarrow> do { d \<leftarrow> ag_definition a;
                              m \<leftarrow> ag_mapping a;
                              agent_LOCKED_propagate_agent_event (app_of env) IGS_AGENT_UPDATED_MAPPING (Some u) (df_name d)
                                (mg_json m) c }) c;
          Some c }"

fun mapping_updates :: "peer_env \<Rightarrow> addr list \<Rightarrow> igs_core \<Rightarrow> igs_core option" where
  "mapping_updates env [] c = Some c"
| "mapping_updates env (p # ps) c =
     do { a \<leftarrow> deref p c;
          c \<leftarrow> (if ag_need_mapping_update a then update_mapping env p c else Some c);
          mapping_updates env ps c }"

definition s_trigger_mapping_update :: "peer_env \<Rightarrow> unit core_op" where
  "s_trigger_mapping_update env = locked (change (\<lambda>c. mapping_updates env (map snd (cx_agents c)) c))"

section \<open>The parent thread\<close>

text \<open>The timer of STOP_TIMER is read from a frame that has been destroyed.\<close>

definition s_manage_parent :: "app_env \<Rightarrow> string list \<Rightarrow> int core_op" where
  "s_manage_parent env msg c =
     (case popstr msg of
        None \<Rightarrow> Some (0, c)
      | Some (command, r) \<Rightarrow>
          if command = ''STOP_LOOP'' \<or> command = ''$TERM'' then Some (- 1, c)
          else if command = ''HANDLE_PUBLICATION'' then
            do { (_, c) \<leftarrow> handle_publication_command env r c; Some (0, c) }
          else if command = ''STOP_TIMER'' then None
          else Some (0, c))"

section \<open>The ends of the loop\<close>

fun settle_agents :: "addr list \<Rightarrow> igs_core \<Rightarrow> igs_core option" where
  "settle_agents [] c = Some c"
| "settle_agents (p # ps) c =
     do { a \<leftarrow> deref p c;
          settle_agents ps (store p (a\<lparr> ag_need_mapping_update := False, ag_need_definition_update := False,
            ag_activation_during_runtime := False \<rparr>) c) }"

text \<open>Up to \<open>zyre_start\<close>; what is pending is sent when peers join, not by the timers. The actor that
  authenticates peers is left out.\<close>

definition s_run_loop_start :: "igs_core \<Rightarrow> igs_core option" where
  "s_run_loop_start c =
     do { c_assert (cx_node c);
          c_assert (cx_publisher c);
          c_assert (nt_allow_ipc (cx_network c) = cx_ipc_publisher c);
          c_assert (nt_allow_inproc (cx_network c) = cx_inproc_publisher c);
          settle_agents (map snd (cx_agents c)) c }"

fun clean_remotes :: "igs_remote_agent list \<Rightarrow> igs_core \<Rightarrow> igs_core option" where
  "clean_remotes [] c = Some c"
| "clean_remotes (ra # ras) c = do { c \<leftarrow> s_clean_and_free_remote_agent False ra c; clean_remotes ras c }"

fun forced_stop_observers :: "peer_env \<Rightarrow> igs_wrapper list \<Rightarrow> igs_core \<Rightarrow> igs_core option" where
  "forced_stop_observers env [] c = Some c"
| "forced_stop_observers env (w # ws) c =
     do { c \<leftarrow> call_forced_stop env (wr_callback w) (wr_my_data w) c; forced_stop_observers env ws c }"

text \<open>After \<open>zloop_start\<close>: the node, the sockets, the remote agents and the peers go.\<close>

definition s_run_loop_end :: "peer_env \<Rightarrow> igs_core \<Rightarrow> igs_core option" where
  "s_run_loop_end env c =
     do { c_assert (cx_node c);
          let c = c\<lparr> cx_node := False, cx_publisher := False, cx_ipc_publisher := False, cx_inproc_publisher := False \<rparr>;
          c \<leftarrow> clean_remotes (map snd (cx_remote_agents c)) c;
          let c = foldl (\<lambda>c pe. s_clean_and_free_zyre_peer pe c) (c\<lparr> cx_remote_agents := [] \<rparr>) (map snd (cx_zyre_peers c));
          let c = c\<lparr> cx_zyre_peers := [] \<rparr>;
          if nt_external_stop (cx_network c) then forced_stop_observers env (nt_external_stop_callbacks (cx_network c)) c
          else Some c }"

definition igs_observe_forced_stop :: "app_env \<Rightarrow> nat \<Rightarrow> nat \<Rightarrow> unit core_op" where
  "igs_observe_forced_stop env cb my_data = with_core_agent env (\<lambda>_. locked (\<lambda>c.
     Some ((), set_network (\<lambda>n. n\<lparr> nt_external_stop_callbacks :=
       nt_external_stop_callbacks n @ [\<lparr> wr_callback = cb, wr_my_data = my_data \<rparr>] \<rparr>) c)))"

end
