(* ===== verification/Igs_Network_Laws.thy ===== *)
theory Igs_Network_Laws
  imports Igs_Incoming
begin

text \<open>
  The mutex under the network actor: every handler gives it back, except the two that return
  or go on with it (\<open>current_outputs\<close> for an agent that is not known, \<open>shout_rt_set_time\<close>
  without a time). The body of \<open>locked\<close> does not matter for this, so the operations are
  taken apart only down to their locks.
\<close>

section \<open>Operations\<close>

lemma balanced_guard [lock_intros]: "(\<And>x. balanced (g x)) \<Longrightarrow> balanced (\<lambda>c. do { x \<leftarrow> h c; g x c })"
  by (auto simp: balanced_def bind_some_eqs)

lemma balanced_cond [lock_intros]: "balanced f \<Longrightarrow> balanced g \<Longrightarrow> balanced (\<lambda>c. if b c then f c else g c)"
  by (simp add: balanced_def)

lemma balanced_option [lock_intros]:
  "balanced f \<Longrightarrow> (\<And>x. balanced (g x)) \<Longrightarrow> balanced (\<lambda>c. case x c of None \<Rightarrow> f c | Some y \<Rightarrow> g y c)"
  by (auto simp: balanced_def split: option.splits)

lemma balanced_pure [lock_intros]: "balanced (\<lambda>c. Some (r, c))"
  by (simp add: balanced_def)

lemma balanced_unit_bind [lock_intros]:
  "balanced f \<Longrightarrow> (\<And>r. balanced (g r)) \<Longrightarrow> balanced (\<lambda>c. do { (r, c) \<leftarrow> f c; g r c })"
  by (rule balanced_bind)

lemma balanced_emitted [lock_intros]: "balanced (\<lambda>c. Some (r, emit e c))"
  by (simp add: balanced_def emit_def)

lemma balanced_carry [lock_intros]: "balanced op \<Longrightarrow> balanced (carry op)"
  unfolding carry_def by (auto simp: balanced_def bind_some_eqs)

lemma balanced_popped [lock_intros]: "(\<And>s r. balanced (f s r)) \<Longrightarrow> balanced (popped r f)"
  unfolding popped_def by (auto simp: balanced_def split: option.splits)

lemma balanced_to_agent [lock_intros]: "(\<And>p. balanced (f p)) \<Longrightarrow> balanced (to_agent u f)"
  unfolding to_agent_def by (intro balanced_bind balanced_locked balanced_option balanced_pure balanced_carry)

lemma balanced_propagate [lock_intros]: "balanced (agent_LOCKED_propagate_agent_event env e u n x)"
proof (cases "u = None \<or> n = None")
  case False
  then obtain v m where "u = Some v" "n = Some m" by auto
  then show ?thesis using balanced_locked by (simp add: agent_LOCKED_propagate_agent_event_def [abs_def])
qed (auto simp: balanced_def agent_LOCKED_propagate_agent_event_def split: option.splits)

lemma balanced_life [lock_intros]:
  "balanced (igsagent_activate env p)" "balanced (igsagent_deactivate env p)" "balanced (igsagent_mute env p)"
  "balanced (igsagent_unmute env p)" "balanced (igsagent_set_name p s)" "balanced (igsagent_clear_definition p)"
  "balanced (igsagent_clear_mappings p)"
  unfolding igsagent_activate_def igsagent_deactivate_def igsagent_mute_def igsagent_unmute_def igsagent_set_name_def
    igsagent_clear_definition_def igsagent_clear_mappings_def
  by (intro balanced_with_agent balanced_bind balanced_guard balanced_locked balanced_option balanced_pure balanced_propagate
      | simp only: split_beta)+

lemma balanced_new [lock_intros]: "balanced (igsagent_new env name b)"
proof -
  have "balanced (\<lambda>c. do { c \<leftarrow> (if b then do { (_, c) \<leftarrow> igsagent_activate env p c; Some c } else Some c); Some (p, c) })" for p
    using balanced_life(1) [of env p] by (auto simp: balanced_def bind_some_eqs)
  then show ?thesis unfolding igsagent_new_def by (intro balanced_bind balanced_locked balanced_life)
qed

lemma balanced_core_agent [lock_intros]: "(\<And>p. balanced (f p)) \<Longrightarrow> balanced (with_core_agent env f)"
proof -
  have "balanced (core_init_agent env)"
    using balanced_new [of env IGS_DEFAULT_AGENT_NAME True]
    by (auto simp: balanced_def core_init_agent_def bind_some_eqs set_network_def store_def split: option.splits)
  then show "(\<And>p. balanced (f p)) \<Longrightarrow> balanced (with_core_agent env f)"
    unfolding with_core_agent_def by (intro balanced_bind)
qed

lemma balanced_process [lock_intros]:
  "balanced (igs_log_set_stream env b)" "balanced (igs_log_set_file nenv b s)" "balanced (igs_log_file nenv)"
  "balanced (igs_rt_set_time aenv us)" "balanced (igs_freeze aenv)" "balanced (igs_unfreeze aenv)"
proof -
  have "balanced (\<lambda>c. freeze_to aenv b (x c) c)" for b x
    by (simp add: balanced_def freeze_to_def balancedD [OF balanced_locked])
  then show "balanced (igs_log_set_stream env b)" "balanced (igs_log_set_file nenv b s)" "balanced (igs_log_file nenv)"
    "balanced (igs_rt_set_time aenv us)" "balanced (igs_freeze aenv)" "balanced (igs_unfreeze aenv)"
    unfolding igs_log_set_stream_def igs_log_set_file_def igs_log_file_def igs_rt_set_time_def igs_freeze_def igs_unfreeze_def
    by (intro balanced_core_agent balanced_locked balanced_Some | assumption)+
qed

lemma balanced_agent_ops [lock_intros]:
  "balanced (load_definition upd d s p)" "balanced (save_json nenv f g p)" "balanced (set_path m h p s)"
  "balanced (set_muted m b p s)" "balanced (igsagent_mapping_add p i ag x)"
  "balanced (igsagent_mapping_remove_with_name p i ag x)" "balanced (igsagent_split_add env p i ag x)"
  "balanced (igsagent_split_remove_with_name env p i ag x)"
  unfolding load_definition_def save_json_def set_path_def set_muted_def igsagent_mapping_add_def
    igsagent_mapping_remove_with_name_def igsagent_split_add_def igsagent_split_remove_with_name_def split_remove_def
  by (intro balanced_with_agent balanced_bind balanced_guard balanced_locked balanced_option balanced_pure balanced_life
      balanced_whisper | simp only: split_beta)+

lemma balanced_set_string [lock_intros]:
  "balanced (igsagent_input_set_string env p n v)" "balanced (igsagent_output_set_string env p n v)"
  "balanced (igsagent_attribute_set_string env p n v)"
  by (simp_all add: igsagent_input_set_string_def igsagent_output_set_string_def igsagent_attribute_set_string_def
      set_io_string_def set_io_balanced)

section \<open>Handlers\<close>

lemma balanced_commands [lock_intros]:
  "(\<And>p. balanced (f p)) \<Longrightarrow> balanced (agent_command f r)"
  "(\<And>p s. balanced (g p s)) \<Longrightarrow> balanced (agent_text_command g r)"
  "(\<And>p i ag x. balanced (h p i ag x)) \<Longrightarrow> balanced (link_command h r)"
  unfolding agent_command_def agent_text_command_def link_command_def by (intro balanced_popped balanced_to_agent; simp)+

lemma balanced_found:
  "(\<And>p. balanced (f p)) \<Longrightarrow>
     balanced (\<lambda>c. case found of None \<Rightarrow> Some (Returned 0, c)
       | Some (p, refused) \<Rightarrow> if refused then Some (Carry_On, c) else carry (f p) c)"
proof (cases found)
  case (Some x)
  assume "\<And>p. balanced (f p)"
  then have "balanced (carry (f p))" for p by (rule balanced_carry)
  with Some show ?thesis by (cases x) (auto simp: balanced_def split: if_splits)
qed (simp add: balanced_pure)

lemma balanced_set_io [lock_intros]: "(\<And>p s v. balanced (f p s v)) \<Longrightarrow> balanced (set_io_command f r)"
  unfolding set_io_command_def
  by (intro balanced_popped) (auto split: list.split intro!: balanced_popped balanced_bind balanced_locked balanced_pure balanced_found)

lemma balanced_current_values [lock_intros]: "balanced (current_values ev t b ios r)"
  unfolding current_values_def
  by (intro balanced_popped balanced_option balanced_pure balanced_carry balanced_locked)

lemma balanced_call [lock_intros]: "balanced (handle_call_service env n msg)"
  unfolding handle_call_service_def
  by (auto simp: balanced_def split: option.splits dest: balancedD [OF balanced_locked])

lemma balanced_external [lock_intros]:
  "balanced (remote_peer_knows_agent env ev r)" "balanced (external_definition env ev r)" "balanced (external_mapping env r)"
  "balanced (load_this_definition env r)" "balanced (load_this_mapping r)" "balanced (start_agent env r)" "balanced stop_peer"
  "balanced (mute_all env)" "balanced (unmute_all env)" "balanced (ping ev r)" "balanced (pong ev r)"
  "balanced (worker_message env t r)" "balanced (splitter_work env r)" "balanced (remote_state env r)"
  unfolding remote_peer_knows_agent_def external_definition_def external_mapping_def load_this_definition_def
    load_this_mapping_def start_agent_def stop_peer_def mute_all_def unmute_all_def ping_def pong_def worker_message_def
    splitter_work_def remote_state_def igsagent_definition_load_str_def
  by (intro balanced_popped balanced_to_agent balanced_carry balanced_bind balanced_cond balanced_option balanced_locked
      balanced_pure balanced_agent_ops balanced_propagate)+

lemma balanced_log_commands [lock_intros]:
  "balanced (set_log_path env r)" "balanced (set_log_file_command env b)" "balanced (call_service_command env ev r)"
proof -
  show "balanced (set_log_path env r)" unfolding set_log_path_def by (intro balanced_carry balanced_bind balanced_process)
  show "balanced (set_log_file_command env b)" unfolding set_log_file_command_def
    by (rule balanced_carry) (auto simp: balanced_def dest: balancedD [OF balanced_process(2)])
  show "balanced (call_service_command env ev r)"
    by (auto simp: balanced_def call_service_command_def bind_some_eqs dest: balancedD [OF balanced_call])
qed

lemmas command_defs = stop_agent_def clear_mapping_def mute_agent_def unmute_agent_def mute_output_def unmute_output_def
  map_command_def unmap_command_def add_split_def remove_split_def set_definition_path_def set_mapping_path_def
  save_definition_def save_mapping_def

lemma whisper_handlers_balanced:
  "map_of (whisper_handlers env ev) title = Some h \<Longrightarrow> title \<noteq> ''CURRENT_OUTPUTS'' \<Longrightarrow> balanced (h r)"
proof -
  have "list_all (\<lambda>(t, h). t = ''CURRENT_OUTPUTS'' \<or> balanced (h r)) (whisper_handlers env ev)"
    by (simp add: whisper_handlers_def command_defs igsagent_output_mute_def igsagent_output_unmute_def igsagent_definition_set_path_def
        igsagent_mapping_set_path_def igsagent_definition_save_def igsagent_mapping_save_def get_current_outputs_def
        get_current_inputs_def get_current_attributes_def lock_intros)
  then show "map_of (whisper_handlers env ev) title = Some h \<Longrightarrow> title \<noteq> ''CURRENT_OUTPUTS'' \<Longrightarrow> balanced (h r)"
    by (auto simp: list_all_iff dest!: map_of_SomeD)
qed

lemma balanced_rt_whisper [lock_intros]: "balanced (whisper_rt_set_time env title)"
  unfolding whisper_rt_set_time_def Let_def
  by (cases "drop (length RT_SET_TIME_MSG) title = []") (auto simp: balanced_pure intro!: balanced_carry balanced_guard balanced_process)

text \<open>What the two exceptions leave.\<close>

lemma current_outputs_lock:
  assumes "current_outputs env r c = Some (x, c')" and "\<not> cx_model_locked c"
  shows "cx_model_locked c' \<longleftrightarrow> (\<exists>u r'. popstr r = Some (u, r') \<and> zh_lookup (cx_remote_agents c) u = None)"
  using assms by (auto simp: current_outputs_def popped_def model_lock_def model_unlock_def bind_some_eqs split: option.splits if_splits)

lemma shout_rt_lock:
  assumes "shout_rt_set_time env title c = Some (x, c')" and "\<not> cx_model_locked c"
  shows "cx_model_locked c' \<longleftrightarrow> drop (length RT_SET_TIME_MSG) title = []"
  using assms balancedD [OF balanced_carry [OF balanced_process(4)]]
  by (auto simp: shout_rt_set_time_def Let_def model_lock_def model_unlock_def bind_some_eqs split: if_splits)

lemma balanced_peers [lock_intros]:
  "balanced (zyre_enter env ev)" "balanced (zyre_join ev)" "balanced (zyre_exit env ev)" "balanced (zyre_leader env ev)"
  "balanced (shout_replay env ev)" "balanced (remote_agent_exit env r)"
  unfolding zyre_enter_def zyre_join_def zyre_exit_def zyre_leader_def shout_replay_def remote_agent_exit_def
  by (intro balanced_popped balanced_carry balanced_bind balanced_cond balanced_locked balanced_pure balanced_propagate)+

section \<open>Events\<close>

text \<open>
  What a handler leaves: free as it was, unless it returns or goes on with the mutex. The
  observers of channels take the mutex, so that an event that goes on with it does not return.
\<close>

definition leaves_locked :: "zyre_event \<Rightarrow> igs_core \<Rightarrow> bool" where
  "leaves_locked ev c \<longleftrightarrow>
     (case popstr (ze_msg ev) of
        Some (title, r) \<Rightarrow>
          (case popstr r of
             Some (uuid, r) \<Rightarrow> ze_type ev = ''WHISPER'' \<and> title = ''CURRENT_OUTPUTS'' \<and> zh_lookup (cx_remote_agents c) uuid = None
           | None \<Rightarrow> False)
      | None \<Rightarrow> False)"

definition never_returns :: "zyre_event \<Rightarrow> igs_core \<Rightarrow> bool" where
  "never_returns ev c \<longleftrightarrow>
     ze_type ev = ''SHOUT'' \<and> ze_group ev = IGS_PRIVATE_CHANNEL \<and> nt_replay_channel (cx_network c) \<noteq> IGS_PRIVATE_CHANNEL
       \<and> map_option fst (popstr (ze_msg ev)) = Some RT_SET_TIME_MSG
     \<or> ze_type ev = ''LEADER'' \<and>
       (case zh_lookup (cx_elections c) (ze_group ev) of
          Some (u # us) \<Rightarrow> zh_lookup (cx_agents c) u = None | _ \<Rightarrow> False)"

lemma current_outputs_title: "map_of (whisper_handlers env ev) ''CURRENT_OUTPUTS'' = Some (current_outputs env)"
  by (simp add: whisper_handlers_def)

lemma whisper_lock:
  assumes "zyre_whisper env ev c = Some (x, c')" and "\<not> cx_model_locked c" and "ze_type ev = ''WHISPER''"
  shows "cx_model_locked c' = leaves_locked ev c"
proof (cases "popstr (ze_msg ev)")
  case None
  with assms show ?thesis by (simp add: zyre_whisper_def popped_def leaves_locked_def)
next
  case (Some tr)
  obtain title r where tr: "tr = (title, r)" by (cases tr)
  show ?thesis
  proof (cases "title = ''CURRENT_OUTPUTS''")
    case True
    with assms(1) Some tr have "current_outputs env r c = Some (x, c')"
      by (simp add: zyre_whisper_def popped_def current_outputs_title)
    from current_outputs_lock [OF this assms(2)] True Some tr assms(3) show ?thesis
      by (auto simp: leaves_locked_def split: option.splits)
  next
    case False
    have "balanced (\<lambda>c. case map_of (whisper_handlers env ev) title of
         Some handler \<Rightarrow> handler r c
       | None \<Rightarrow> if is_rt_set_time title then whisper_rt_set_time env title c else Some (Carry_On, c))"
      using whisper_handlers_balanced [OF _ False] balanced_rt_whisper
      by (cases "map_of (whisper_handlers env ev) title") (auto simp: balanced_pure balanced_if)
    moreover from assms(1) Some tr have "(case map_of (whisper_handlers env ev) title of
         Some handler \<Rightarrow> handler r c
       | None \<Rightarrow> if is_rt_set_time title then whisper_rt_set_time env title c else Some (Carry_On, c)) = Some (x, c')"
      by (simp add: zyre_whisper_def popped_def split: option.splits if_splits)
    ultimately have "cx_model_locked c' = cx_model_locked c" by (rule balancedD)
    with False Some tr assms(2) show ?thesis by (simp add: leaves_locked_def split: option.splits)
  qed
qed

lemma shout_lock:
  assumes "zyre_shout env ev c = Some (Returned n, c')" and "\<not> cx_model_locked c"
  shows "\<not> cx_model_locked c'"
proof -
  have "shout_rt_set_time env title c = Some (Returned n, c') \<Longrightarrow> False" for title
    by (auto simp: shout_rt_set_time_def carry_def Let_def bind_some_eqs split: if_splits)
  with assms balancedD [OF balanced_peers(5)] balancedD [OF balanced_peers(6)] balancedD [OF balanced_external(14)]
  show ?thesis
    by (auto simp: zyre_shout_def shout_private_def bind_some_eqs split: if_splits)
qed

lemma handler_lock:
  assumes "zyre_handler env ev c = Some (Returned n, c')" and "\<not> cx_model_locked c"
  shows "cx_model_locked c' = leaves_locked ev c"
proof -
  have other: "\<not> leaves_locked ev c" if "ze_type ev \<noteq> ''WHISPER''"
    using that by (simp add: leaves_locked_def split: option.splits)
  consider "ze_type ev = ''WHISPER''" "zyre_whisper env ev c = Some (Returned n, c')"
    | "ze_type ev \<noteq> ''WHISPER''" "zyre_shout env ev c = Some (Returned n, c')"
    | "ze_type ev \<noteq> ''WHISPER''" "zyre_enter env ev c = Some (Returned n, c') \<or> zyre_join ev c = Some (Returned n, c')
        \<or> zyre_exit env ev c = Some (Returned n, c') \<or> zyre_leader env ev c = Some (Returned n, c')"
    using assms(1) by (auto simp: zyre_handler_def split: if_splits)
  then show ?thesis
  proof cases
    case 1
    then show ?thesis using whisper_lock assms(2) by blast
  next
    case 2
    then show ?thesis using shout_lock assms(2) other by blast
  next
    case 3
    then have "cx_model_locked c' = cx_model_locked c"
      using balancedD [OF balanced_peers(1)] balancedD [OF balanced_peers(2)] balancedD [OF balanced_peers(3)]
        balancedD [OF balanced_peers(4)] by blast
    with 3 assms(2) other show ?thesis by simp
  qed
qed

lemma other_events: "ze_type ev \<noteq> ''WHISPER'' \<Longrightarrow> \<not> leaves_locked ev c"
  by (simp add: leaves_locked_def split: option.splits)

lemma event_lock:
  assumes "s_manage_zyre_incoming env ev c = Some (r, c')" and free: "\<not> cx_model_locked c"
  shows "cx_model_locked c' = leaves_locked ev c"
proof -
  obtain x c1 where h: "zyre_handler env ev c = Some (x, c1)"
    and k: "(case x of Returned n \<Rightarrow> Some (n, c1)
          | Carry_On \<Rightarrow> locked (\<lambda>c.
              do { c \<leftarrow> channel_observers env ev (nt_zyre_callbacks (cx_network c)) c; Some (0, c) }) c1) = Some (r, c')"
    using assms(1) by (auto simp: s_manage_zyre_incoming_def bind_some_eqs split: if_splits)
  show ?thesis
  proof (cases x)
    case (Returned n)
    with h k handler_lock [OF _ free] show ?thesis by simp
  next
    case Carry_On
    with k have l: "locked (\<lambda>c. do { c \<leftarrow> channel_observers env ev (nt_zyre_callbacks (cx_network c)) c; Some (0, c) }) c1
      = Some (r, c')" by simp
    then have c1: "\<not> cx_model_locked c1" by (cases "cx_model_locked c1") (simp_all add: locked_twice)
    with balancedD [OF balanced_locked l] have "\<not> cx_model_locked c'" by simp
    moreover have "\<not> leaves_locked ev c"
    proof (cases "ze_type ev = ''WHISPER''")
      case True
      with h have "zyre_whisper env ev c = Some (x, c1)" by (simp add: zyre_handler_def)
      from whisper_lock [OF this free True] c1 show ?thesis by simp
    qed (rule other_events)
    ultimately show ?thesis by simp
  qed
qed

text \<open>
  Why: the handler of the shout comes back with the mutex, which is then locked again; the
  loop over the attendees is after any number of rounds where it was before, with the mutex.
\<close>

lemma shout_keeps_mutex:
  assumes "ze_type ev = ''SHOUT''" "ze_group ev = IGS_PRIVATE_CHANNEL" "nt_replay_channel (cx_network c) \<noteq> IGS_PRIVATE_CHANNEL"
    and "map_option fst (popstr (ze_msg ev)) = Some RT_SET_TIME_MSG" and "\<not> cx_model_locked c"
  shows "zyre_handler env ev c = Some (Carry_On, c\<lparr> cx_model_locked := True \<rparr>)"
proof -
  obtain r where "popstr (ze_msg ev) = Some (RT_SET_TIME_MSG, r)" using assms(4) by auto
  with assms have "zyre_handler env ev c = shout_rt_set_time env RT_SET_TIME_MSG c"
    by (simp add: zyre_handler_def zyre_shout_def shout_private_def is_rt_set_time_def RT_SET_TIME_MSG_def)
  then show ?thesis using assms(5) by (simp add: shout_rt_set_time_def model_lock_def)
qed

lemma never_returns_why:
  assumes "never_returns ev c" and "\<not> cx_model_locked c"
  shows "if ze_type ev = ''SHOUT''
    then zyre_handler env ev c = Some (Carry_On, c\<lparr> cx_model_locked := True \<rparr>) \<and> model_lock (c\<lparr> cx_model_locked := True \<rparr>) = None
    else \<exists>u us. zh_lookup (cx_elections c) (ze_group ev) = Some (u # us)
      \<and> (\<forall>n b. attendee_rounds (app_of env) b (ze_group ev) n (u # us) (c\<lparr> cx_model_locked := True \<rparr>)
             = Some (u # us, c\<lparr> cx_model_locked := True \<rparr>))"
proof (cases "ze_type ev = ''SHOUT''")
  case True
  with shout_keeps_mutex [OF True _ _ _ assms(2), of env] assms(1) show ?thesis by (auto simp: never_returns_def model_lock_def)
next
  case False
  with assms(1) obtain u us where u: "zh_lookup (cx_elections c) (ze_group ev) = Some (u # us)" "zh_lookup (cx_agents c) u = None"
    by (auto simp: never_returns_def split: option.splits list.splits)
  then have "attendee_rounds (app_of env) b (ze_group ev) n (u # us) (c\<lparr> cx_model_locked := True \<rparr>)
      = Some (u # us, c\<lparr> cx_model_locked := True \<rparr>)" for n b
    by (intro stalled_rounds absent_attendee) simp
  with False u(1) show ?thesis by auto
qed

lemma locked_again: "cx_model_locked c \<Longrightarrow> locked f c = None"
  by (simp add: locked_def model_lock_def)

lemma event_handling_ends:
  assumes "never_returns ev c" and "\<not> cx_model_locked c"
  shows "s_manage_zyre_incoming env ev c = None"
proof -
  consider (shout) "ze_type ev = ''SHOUT''" "ze_group ev = IGS_PRIVATE_CHANNEL" "nt_replay_channel (cx_network c) \<noteq> IGS_PRIVATE_CHANNEL"
      "map_option fst (popstr (ze_msg ev)) = Some RT_SET_TIME_MSG"
    | (leader) u us where "ze_type ev = ''LEADER''" "zh_lookup (cx_elections c) (ze_group ev) = Some (u # us)" "zh_lookup (cx_agents c) u = None"
    using assms(1) by (auto simp: never_returns_def split: option.splits list.splits)
  then show "s_manage_zyre_incoming env ev c = None"
  proof cases
    case shout
    from shout_keeps_mutex [OF this assms(2)] show ?thesis by (simp add: s_manage_zyre_incoming_def locked_again)
  next
    case leader
    then show ?thesis
      by (simp add: s_manage_zyre_incoming_def zyre_handler_def zyre_leader_def carry_def locked_def model_lock_def change_def absent_loop)
  qed
qed

end
