(* ===== verification/Igs_Network_Keeps.thy ===== *)
theory Igs_Network_Keeps
  imports Igs_Network_Laws Igs_Reach
begin

text \<open>
  The invariant of the context under the network actor: every event of Zyre, the timers, the
  messages of the parent thread and the ends of the loop keep it, as long as the functions of
  the application do. \<open>same_agents\<close> holds of what moves only peers, remote agents, splitters
  and events.
\<close>

section \<open>What leaves the agents alone\<close>

definition same_agents :: "igs_core \<Rightarrow> igs_core \<Rightarrow> bool" where
  "same_agents c c' \<longleftrightarrow> cx_store c' = cx_store c \<and> cx_created_agents c' = cx_created_agents c \<and> cx_agents c' = cx_agents c"

lemma same_agents_ok: "same_agents c c' \<Longrightarrow> ctx_ok c' = ctx_ok c"
  by (rule ctx.frame) (simp_all add: same_agents_def)

lemma same_agents_refl [simp]: "same_agents c c"
  by (simp add: same_agents_def)

lemma same_agents_trans: "same_agents c c' \<Longrightarrow> same_agents c' c'' \<Longrightarrow> same_agents c c''"
  by (simp add: same_agents_def)

lemma same_agents_changes [simp]:
  "same_agents c (emit e c') = same_agents c c'" "same_agents c (emit_all es c') = same_agents c c'"
  "same_agents c (put_peer u f c') = same_agents c c'" "same_agents c (put_remote ra c') = same_agents c c'"
  "same_agents c (set_network g c') = same_agents c c'" "same_agents c (s_clean_and_free_zyre_peer pe c') = same_agents c c'"
  "same_agents c (c'\<lparr> cx_model_locked := b \<rparr>) = same_agents c c'" "same_agents c (split_remove_worker w i c') = same_agents c c'"
  "same_agents c (c'\<lparr> cx_remote_agents := ras \<rparr>) = same_agents c c'" "same_agents c (c'\<lparr> cx_zyre_peers := pes \<rparr>) = same_agents c c'"
  by (simp_all add: same_agents_def emit_def emit_all_def put_peer_def put_remote_def set_network_def
      s_clean_and_free_zyre_peer_def split_remove_worker_def)

lemma deref_same: "same_agents c c' \<Longrightarrow> deref p c' = deref p c"
  by (simp add: same_agents_def deref_def)

lemma model_leaves_agents: "same_model c c' \<Longrightarrow> same_agents c c'"
  by (auto simp: same_model_def same_agents_def)

lemma same_but_splitters_agents: "same_but_splitters c c' \<Longrightarrow> same_agents c c'"
proof -
  assume "same_but_splitters c c'"
  then obtain es where e: "c' = c\<lparr> cx_splitters := cx_splitters c', cx_events := cx_events c @ es \<rparr>"
    by (auto simp: same_but_splitters_def same_model_def)
  show "same_agents c c'" unfolding same_agents_def by (intro conjI; subst e; simp)
qed

text \<open>A step over the context that returns no value.\<close>

definition leaves_agents :: "(igs_core \<Rightarrow> igs_core option) \<Rightarrow> bool" where
  "leaves_agents f \<longleftrightarrow> (\<forall>c c'. f c = Some c' \<longrightarrow> same_agents c c')"

lemma leaves_agentsD: "leaves_agents f \<Longrightarrow> f c = Some c' \<Longrightarrow> same_agents c c'"
  by (simp add: leaves_agents_def)

lemma leaves_agents_runs: "leaves_agents f \<Longrightarrow> runs f"
  by (auto simp: leaves_agents_def runs_def dest: same_agents_ok)

lemma subscribe_same: "s_subscribe_to_remote_agent_output ra out c = Some (ra', c') \<Longrightarrow> same_agents c c'"
  by (auto simp: s_subscribe_to_remote_agent_output_def Let_def bind_some_eqs split: if_splits option.splits)

lemma configure_entries_same: "configure_entries a es ra c = Some (ra', c') \<Longrightarrow> same_agents c c'"
proof (induction es arbitrary: ra c)
  case (Cons e es)
  then obtain ra1 c1 where e: "configure_entry a e ra c = Some (ra1, c1)" "configure_entries a es ra1 c1 = Some (ra', c')"
    by (auto simp: bind_some_eqs)
  have "same_agents c c1"
    using e(1) by (auto simp: configure_entry_def Let_def bind_some_eqs dest: subscribe_same split: if_splits option.splits)
  with Cons.IH [OF e(2)] same_agents_trans show ?case by blast
qed simp

lemma configure_same: "s_network_configure_mapping_to_remote_agent a ra c = Some (ra', c') \<Longrightarrow> same_agents c c'"
  by (auto simp: s_network_configure_mapping_to_remote_agent_def dest: configure_entries_same split: option.splits)

lemma configure_frames: "leaves_agents (configure_agents u ps)" "leaves_agents (configure_remotes p us)"
proof -
  have "configure_agents u ps c = Some c' \<Longrightarrow> same_agents c c'" for c c'
    by (induction ps arbitrary: c) (auto simp: bind_some_eqs dest!: configure_same intro: same_agents_trans)
  moreover have "configure_remotes p us c = Some c' \<Longrightarrow> same_agents c c'" for c c'
    by (induction us arbitrary: c) (auto simp: bind_some_eqs dest!: configure_same intro: same_agents_trans)
  ultimately show "leaves_agents (configure_agents u ps)" "leaves_agents (configure_remotes p us)" by (auto simp: leaves_agents_def)
qed

lemma sent_mapping_same [simp]: "same_agents (s_send_mapping_to_zyre_peer a pe s c) c' = same_agents c c'"
  by (simp add: s_send_mapping_to_zyre_peer_def same_agents_def emit_def split: option.splits)

lemma sent_same:
  "s_send_definition_to_zyre_peer a pe s b c = Some c' \<Longrightarrow> same_agents c c'"
  "s_send_state_to a pe b c = Some c' \<Longrightarrow> same_agents c c'"
  by (auto simp: s_send_definition_to_zyre_peer_def s_send_state_to_def bind_some_eqs split: option.splits if_splits)

lemma introduce_frames: "leaves_agents (introduce_agents pe peer ps)"
proof -
  have "introduce_agents pe peer ps c = Some c' \<Longrightarrow> same_agents c c'" for c c'
    by (induction ps arbitrary: c) (auto simp: bind_some_eqs dest!: sent_same, blast intro: same_agents_trans)
  then show ?thesis by (auto simp: leaves_agents_def)
qed

lemma credit_same: "credit_to_output env p out w i n b c = Some c' \<Longrightarrow> same_agents c c'"
proof -
  have "same_agents c c''" if "s_split_trigger_send_message_to_worker e u io (c\<lparr> cx_splitters := ss \<rparr>) = Some c''" for e u io ss c''
    using trigger_effect [OF that] same_but_splitters_agents [of "c\<lparr> cx_splitters := ss \<rparr>" c''] by (auto simp: same_agents_def)
  then show "credit_to_output env p out w i n b c = Some c' \<Longrightarrow> same_agents c c'"
    by (auto simp: credit_to_output_def s_split_add_credit_to_worker_def Let_def bind_some_eqs split: option.splits)
qed

lemma worker_frames: "leaves_agents (split_message_from_worker env title r)"
proof -
  have ready: "ready_agents env ag w i out ps c = Some c' \<Longrightarrow> same_agents c c'" for ag w i out ps c c'
    by (induction ps arbitrary: c) (auto simp: bind_some_eqs dest!: credit_same intro: same_agents_trans split: if_splits)
  have hello: "worker_hello env w i out r c = Some c' \<Longrightarrow> same_agents c c'" for w i out r c c'
    by (cases "popstr r"; cases "popstr (snd (the (popstr r)))";
        cases "zh_lookup (cx_agents c) (fst (the (popstr (snd (the (popstr r))))))")
      (auto simp: worker_hello_def bind_some_eqs dest: credit_same)
  have "worker_ready env w i out r c = Some c' \<Longrightarrow> same_agents c c'" for w i out r c c'
    by (auto simp: worker_ready_def dest: ready split: option.splits)
  with hello show ?thesis
    by (simp add: leaves_agents_def split_message_from_worker_def split: option.split if_split)
qed

lemma unlocked_whisper_agents: "unlocked (igs_channel_whisper_zmsg env t m) c = Some (r, c') \<Longrightarrow> same_agents c c'"
  by (rule model_leaves_agents) (rule unlocked_whisper_same)

lemma hello_frames: "leaves_agents (hello_agents env u n ps)" "leaves_agents (hello_remotes env p i ag out ras)"
proof -
  have splits: "hello_splits env u n w es c = Some c' \<Longrightarrow> same_agents c c'" for u n w es c c'
    by (induction es arbitrary: c)
      (auto simp: bind_some_eqs dest!: unlocked_whisper_agents intro: same_agents_trans split: if_splits)
  have "hello_agents env u n ps c = Some c' \<Longrightarrow> same_agents c c'" for c c'
    by (induction ps arbitrary: c) (auto simp: bind_some_eqs dest!: splits intro: same_agents_trans)
  moreover have "hello_remotes env p i ag out ras c = Some c' \<Longrightarrow> same_agents c c'" for c c'
    by (induction ras arbitrary: c)
      (auto simp: bind_some_eqs dest!: unlocked_whisper_agents intro: same_agents_trans split: if_splits)
  ultimately show "leaves_agents (hello_agents env u n ps)" "leaves_agents (hello_remotes env p i ag out ras)" by (auto simp: leaves_agents_def)
qed

lemma news_frames: "leaves_agents (shout_news t v ps)"
proof -
  have "shout_news t v ps c = Some c' \<Longrightarrow> same_agents c c'" for c c'
    by (induction ps arbitrary: c) (auto simp: bind_some_eqs same_agents_def emit_def)
  then show ?thesis by (auto simp: leaves_agents_def)
qed

lemma clean_frames: "leaves_agents (s_clean_and_free_remote_agent loop ra)"
  by (auto simp: leaves_agents_def s_clean_and_free_remote_agent_def bind_some_eqs)

lemma new_peer_frames: "leaves_agents (new_peer env ev)"
  by (auto simp: leaves_agents_def new_peer_def Let_def bind_some_eqs)

section \<open>The functions of the application\<close>

definition node_sound :: "peer_env \<Rightarrow> bool" where
  "node_sound env \<longleftrightarrow> callbacks_sound (app_of env) \<and> (\<forall>f ev d. runs (call_channels env f ev d))
     \<and> (\<forall>f d. runs (call_forced_stop env f d))"

lemma node_soundD:
  "node_sound env \<Longrightarrow> callbacks_sound (app_of env)" "node_sound env \<Longrightarrow> callbacks_preserve (app_of env) ctx_ok"
  by (simp_all add: node_sound_def callbacks_sound_def)

lemma propagate_keeps: "node_sound env \<Longrightarrow> preserves ctx_ok (agent_LOCKED_propagate_agent_event (app_of env) e u n x)"
  by (rule propagate_preserve [OF ctx_ok_law]) (rule node_soundD)

lemma preserves_change: "runs f \<Longrightarrow> preserves ctx_ok (change f)"
  by (auto simp: preserves_def runs_def change_def bind_some_eqs)

lemma preserves_carry: "preserves ctx_ok op \<Longrightarrow> preserves ctx_ok (carry op)"
  by (auto simp: preserves_def carry_def bind_some_eqs)

lemma preserves_option:
  assumes "preserves ctx_ok f" and "\<And>y. preserves ctx_ok (g y)"
  shows "preserves ctx_ok (\<lambda>c. case x c of None \<Rightarrow> f c | Some y \<Rightarrow> g y c)"
proof (rule preservesI)
  fix c r c' assume ok: "ctx_ok c" and "(case x c of None \<Rightarrow> f c | Some y \<Rightarrow> g y c) = Some (r, c')"
  then show "ctx_ok c'" using preservesD [OF assms(1) ok] preservesD [OF assms(2) ok] by (cases "x c") auto
qed

lemma preserves_popped: "(\<And>s r. preserves ctx_ok (f s r)) \<Longrightarrow> preserves ctx_ok (popped r f)"
  unfolding popped_def by (intro preserves_option preserves_pure) (auto simp: preserves_def)

lemma preserves_found: "preserves ctx_ok (locked (\<lambda>c. Some (f c, c)))"
  by (intro ctx.preserves_locked) (simp add: preserves_def)

lemma preserves_to_agent: "(\<And>p. preserves ctx_ok (f p)) \<Longrightarrow> preserves ctx_ok (to_agent u f)"
  unfolding to_agent_def
  by (rule preserves_bind [OF preserves_found]) (intro preserves_option preserves_pure preserves_carry)

lemma runs_pure: "runs Some" "runs (\<lambda>c. Some c)" "runs (\<lambda>c. None)"
  by (simp_all add: runs_def)

lemma runsI: "(\<And>c c'. ctx_ok c \<Longrightarrow> f c = Some c' \<Longrightarrow> ctx_ok c') \<Longrightarrow> runs f"
  by (simp add: runs_def)

lemma runs_cond:
  assumes "runs f" and "runs g" shows "runs (\<lambda>c. if b c then f c else g c)"
proof (rule runsI)
  fix c c' assume ok: "ctx_ok c" and "(if b c then f c else g c) = Some c'"
  then show "ctx_ok c'" using runsD [OF assms(1) ok] runsD [OF assms(2) ok] by (cases "b c") auto
qed

lemma runs_option:
  assumes "runs f" and "\<And>y. runs (g y)" shows "runs (\<lambda>c. case x c of None \<Rightarrow> f c | Some y \<Rightarrow> g y c)"
proof (rule runsI)
  fix c c' assume ok: "ctx_ok c" and "(case x c of None \<Rightarrow> f c | Some y \<Rightarrow> g y c) = Some c'"
  then show "ctx_ok c'" using runsD [OF assms(1) ok] runsD [OF assms(2) ok] by (cases "x c") auto
qed

lemma runs_done: "preserves ctx_ok op \<Longrightarrow> runs (\<lambda>c. do { (_, c) \<leftarrow> op c; Some c })"
  by (rule runs_op, assumption, rule runs_pure)

lemma runs_store: "(\<And>u a. good u a \<Longrightarrow> good u (f a)) \<Longrightarrow> runs (\<lambda>c. do { a \<leftarrow> deref p c; Some (store p (f a) c) })"
  by (auto simp: runs_def bind_some_eqs intro: ctx_ok_store)

lemma preserves_after: assumes "runs f" and "preserves ctx_ok g" shows "preserves ctx_ok (\<lambda>c. do { c \<leftarrow> f c; g c })"
proof (rule preservesI)
  fix c r c' assume ok: "ctx_ok c" and "(do { c \<leftarrow> f c; g c }) = Some (r, c')"
  then obtain c1 where c1: "f c = Some c1" "g c1 = Some (r, c')" by (auto simp: bind_some_eqs)
  show "ctx_ok c'" by (rule preservesD [OF assms(2) runsD [OF assms(1) ok c1(1)] c1(2)])
qed

lemma runs_self: assumes "\<And>x. runs (f x)" shows "runs (\<lambda>c. f (h c) c)"
  by (rule runsI) (rule runsD [OF assms])

lemma preserves_framed:
  assumes "\<And>c. same_agents c (f c)" and "preserves ctx_ok g" shows "preserves ctx_ok (\<lambda>c. let c = f c in g c)"
  by (rule preservesI) (auto simp: Let_def same_agents_ok [OF assms(1)] dest: preservesD [OF assms(2), rotated])

lemma preserves_put: assumes "\<And>c. same_agents c (f c)" shows "preserves ctx_ok (\<lambda>c. Some (r, f c))"
  by (rule preservesI) (auto simp: same_agents_ok [OF assms])

section \<open>Peers\<close>

lemma enter_keeps:
  assumes "node_sound env" shows "preserves ctx_ok (zyre_enter env ev)"
  unfolding zyre_enter_def
proof (rule preserves_carry, rule preserves_bind)
  show "preserves ctx_ok (locked (\<lambda>c.
            case zh_lookup (cx_zyre_peers c) (ze_peer_uuid ev) of
              Some pe \<Rightarrow> Some (True, put_peer (pe_peer_id pe) (\<lambda>pe. pe\<lparr> pe_reconnected := Suc (pe_reconnected pe) \<rparr>) c)
            | None \<Rightarrow> do { c \<leftarrow> new_peer env ev c; Some (False, c) }))"
    by (rule ctx.preserves_locked, rule preserves_option)
      (rule preserves_after [OF leaves_agents_runs [OF new_peer_frames] preserves_pure(1)], rule preserves_put, simp)
  show "preserves ctx_ok (\<lambda>c. if known then Some ((), c)
          else agent_LOCKED_propagate_agent_event (app_of env) IGS_PEER_ENTERED (Some (ze_peer_uuid ev))
                 (Some (ze_peer_name ev)) (Some (zhash_memory env (ze_headers ev))) c)" for known
    by (rule preserves_if, rule preserves_pure, rule propagate_keeps) fact
qed

lemma join_keeps: "preserves ctx_ok (zyre_join ev)"
proof -
  have "runs (\<lambda>c. if ze_group ev \<noteq> IGS_PRIVATE_CHANNEL then Some c
     else do { pe \<leftarrow> zh_lookup (cx_zyre_peers c) (ze_peer_uuid ev);
               c \<leftarrow> introduce_agents pe (ze_peer_uuid ev) (map snd (cx_agents c)) c;
               Some (put_peer (ze_peer_uuid ev) (\<lambda>pe. pe\<lparr> pe_has_joined_private_channel := True \<rparr>) c) })"
    by (rule leaves_agents_runs) (auto simp: leaves_agents_def bind_some_eqs dest: leaves_agentsD [OF introduce_frames])
  then show ?thesis unfolding zyre_join_def by (rule preserves_carry [OF ctx.preserves_locked [OF preserves_change]])
qed

lemma remote_exits_keeps:
  assumes "node_sound env" shows "preserves ctx_ok (remote_exits env ra)"
  unfolding remote_exits_def
proof (rule preserves_guard, rule preserves_guard, rule preserves_framed, simp, rule preserves_after)
  show "runs (\<lambda>c. s_clean_and_free_remote_agent True ra (c\<lparr> cx_remote_agents := zh_delete (ra_uuid ra) (cx_remote_agents c) \<rparr>))"
  proof (rule leaves_agents_runs, unfold leaves_agents_def, intro allI impI)
    fix c c' assume "s_clean_and_free_remote_agent True ra (c\<lparr> cx_remote_agents := zh_delete (ra_uuid ra) (cx_remote_agents c) \<rparr>) = Some c'"
    from leaves_agentsD [OF clean_frames this] show "same_agents c c'" by (simp add: same_agents_def)
  qed
qed (rule ctx.preserves_unlocked, rule propagate_keeps, fact)

lemma remotes_exit_keeps:
  assumes "node_sound env" shows "runs (remotes_exit env peer us)"
proof -
  have "remotes_exit env peer us c = Some c' \<Longrightarrow> ctx_ok c \<Longrightarrow> ctx_ok c'" for c c'
    by (induction us arbitrary: c)
      (auto simp: bind_some_eqs dest: preservesD [OF remote_exits_keeps [OF assms]] split: if_splits)
  then show ?thesis by (auto intro: runsI)
qed

lemma exit_keeps:
  assumes "node_sound env" shows "preserves ctx_ok (zyre_exit env ev)"
  unfolding zyre_exit_def
proof (rule preserves_carry, rule ctx.preserves_locked, rule preserves_option, rule preserves_pure, rule preserves_if)
  fix pe :: igs_zyre_peer
  show "preserves ctx_ok (\<lambda>c. Some ((), put_peer (pe_peer_id pe) (\<lambda>pe. pe\<lparr> pe_reconnected := pe_reconnected pe - 1 \<rparr>) c))"
    by (rule preserves_put) simp
  show "preserves ctx_ok (\<lambda>c. do { c \<leftarrow> remotes_exit env (pe_peer_id pe) (map fst (cx_remote_agents c)) c;
                   let c = s_clean_and_free_zyre_peer pe (c\<lparr> cx_zyre_peers := zh_delete (pe_peer_id pe) (cx_zyre_peers c) \<rparr>);
                   unlocked (agent_LOCKED_propagate_agent_event (app_of env) IGS_PEER_EXITED (Some (ze_peer_uuid ev))
                     (Some (ze_peer_name ev)) None) c })"
    by (rule preserves_after, rule runs_self, rule remotes_exit_keeps, fact, rule preserves_framed, simp,
        rule ctx.preserves_unlocked, rule propagate_keeps, fact)
qed

lemma election_keeps:
  assumes "node_sound env" shows "runs (election_observers (app_of env) p b el ws)"
proof -
  have call: "preserves ctx_ok (\<lambda>c. do { d \<leftarrow> ag_definition a;
                          n \<leftarrow> df_name d;
                          c \<leftarrow> call_event (app_of env) f p e u n x y c;
                          Some ((), c) })" for a f e u x y
    by (rule preservesI) (auto simp: bind_some_eqs dest: callbacks_preserveD(3) [OF node_soundD(2) [OF assms]])
  have "election_observers (app_of env) p b el ws c = Some c' \<Longrightarrow> ctx_ok c \<Longrightarrow> ctx_ok c'" for c c'
  proof (induction ws arbitrary: c)
    case (Cons w ws)
    then obtain a where a: "deref p c = Some a" by (auto simp: bind_some_eqs)
    show ?case
    proof (cases "ag_uuid a")
      case None
      with Cons.prems a show ?thesis by simp
    next
      case (Some u)
      with Cons.prems(1) a obtain r c1 where c1: "unlocked (\<lambda>c.
                     do { d \<leftarrow> ag_definition a;
                          n \<leftarrow> df_name d;
                          c \<leftarrow> call_event (app_of env) (wr_callback w) p (if b then IGS_AGENT_WON_ELECTION else IGS_AGENT_LOST_ELECTION)
                                 u n (Some el) (wr_my_data w) c;
                          Some ((), c) }) c = Some (r, c1)" "election_observers (app_of env) p b el ws c1 = Some c'"
        by (auto simp: bind_some_eqs)
      show ?thesis by (rule Cons.IH [OF c1(2) preservesD [OF ctx.preserves_unlocked [OF call] Cons.prems(2) c1(1)]])
    qed
  qed simp
  then show ?thesis by (auto intro: runsI)
qed

lemma leader_keeps:
  assumes "node_sound env" shows "preserves ctx_ok (zyre_leader env ev)"
proof -
  have round: "attendee_round (app_of env) b el u us c = Some (us', c') \<Longrightarrow> ctx_ok c \<Longrightarrow> ctx_ok c'" for b el u us us' c c'
    by (auto simp: attendee_round_def bind_some_eqs split: option.splits if_splits dest: runsD [OF election_keeps [OF assms]])
  have "attendees e b el us c = Some c' \<Longrightarrow> e = app_of env \<longrightarrow> ctx_ok c \<longrightarrow> ctx_ok c'" for e b el us c c'
  proof (induction rule: attendees.raw_induct [rotated, consumes 1, case_names 1])
    case (1 loop e b el us c c')
    show ?case
    proof (intro impI)
      assume e: "e = app_of env" and ok: "ctx_ok c"
      from 1(2) have "c' = c \<or> (\<exists>u vs us1 c1. attendee_round e b el u vs c = Some (us1, c1) \<and> loop e b el us1 c1 = Some c')"
        by (auto simp: bind_some_eqs split: list.splits)
      with 1(1) e ok round show "ctx_ok c'" by blast
    qed
  qed
  then have us: "runs (attendees (app_of env) b el us)" for b el us by (auto intro: runsI)
  show ?thesis unfolding zyre_leader_def
    by (rule preserves_carry, rule ctx.preserves_locked, rule preserves_change, rule runs_option, rule runs_pure, rule us)
qed

section \<open>Shouts\<close>

lemma write_input_keeps:
  assumes "node_sound env"
  shows "preserves ctx_ok (on_agent p (\<lambda>a. model_write e a input IGS_INPUT_T vt v n))"
    and "preserves ctx_ok (unlocked (model_LOCKED_handle_io_callbacks (app_of env) p IGS_INPUT_T input))"
  by (rule write_op.preserves_ctx)
    (rule ctx.preserves_unlocked, rule handle_io_callbacks_preserve [OF ctx_ok_law node_soundD(2) [OF assms]])

lemma input_type_keeps: "preserves ctx_ok (igsagent_input_type p input)"
  unfolding igsagent_input_type_def io_kind_def
  by (rule preserves_with_agent, rule preserves_guard, rule ctx.preserves_locked, rule preserves_read_agent)

lemma replay_keeps:
  assumes "node_sound env" shows "runs (replay_agents (app_of env) name input r ps)"
proof -
  have val: "replay_value (app_of env) p input vt v c = Some c' \<Longrightarrow> ctx_ok c \<Longrightarrow> ctx_ok c'" for p vt v c c'
    by (auto simp: replay_value_def bind_some_eqs split: if_splits
        dest!: preservesD [OF write_input_keeps(1) [OF assms], rotated] dest: preservesD [OF write_input_keeps(2) [OF assms]])
  have "replay_agents (app_of env) name input r ps c = Some c' \<Longrightarrow> ctx_ok c \<Longrightarrow> ctx_ok c'" for c c'
  proof (induction ps arbitrary: c r)
    case (Cons p ps)
    then obtain a where a: "deref p c = Some a" by (auto simp: bind_some_eqs)
    show ?case
    proof (cases "ag_uuid a = None")
      case False
      with Cons.prems(1) a obtain n where n: "(if n = name then
                      do { (vt, c) \<leftarrow> igsagent_input_type p input c;
                           case work_value vt r of
                             None \<Rightarrow> replay_agents (app_of env) name input r ps c
                           | Some (v, r) \<Rightarrow> do { c \<leftarrow> replay_value (app_of env) p input vt v c;
                                                replay_agents (app_of env) name input r ps c } }
                    else replay_agents (app_of env) name input r ps c) = Some c'"
        by (auto simp: bind_some_eqs)
      show ?thesis
      proof (cases "n = name")
        case True
        with n obtain vt c1 where t: "igsagent_input_type p input c = Some (vt, c1)"
          and k: "(case work_value vt r of
                             None \<Rightarrow> replay_agents (app_of env) name input r ps c1
                           | Some (v, r) \<Rightarrow> do { c \<leftarrow> replay_value (app_of env) p input vt v c1;
                                                replay_agents (app_of env) name input r ps c }) = Some c'"
          by (auto simp: bind_some_eqs)
        have "ctx_ok c1" by (rule preservesD [OF input_type_keeps Cons.prems(2) t])
        with k Cons.IH val show ?thesis by (auto simp: bind_some_eqs split: option.splits)
      qed (use n Cons.IH Cons.prems(2) in simp)
    qed (use Cons.prems a in simp)
  qed simp
  then show ?thesis by (auto intro: runsI)
qed

lemma flags_good [simp]:
  "good u (a\<lparr> ag_rt_timestamps_enabled := b \<rparr>) = good u a"
  "good u (a\<lparr> ag_need_mapping_update := x, ag_need_definition_update := y, ag_activation_during_runtime := z \<rparr>) = good u a"
  "good u (a\<lparr> ag_activation_during_runtime := z, ag_need_definition_update := y, ag_need_mapping_update := x \<rparr>) = good u a"
  "good u (a\<lparr> ag_need_mapping_update := x \<rparr>) = good u a"
  by (simp_all add: good_def agent_wf_def agent_mapping_ok_def)

lemma rt_agents_keeps: "runs (rt_agents env ps)"
proof -
  have out: "publish_outputs env p ios c = Some c' \<Longrightarrow> ctx_ok c \<Longrightarrow> ctx_ok c'" for p ios c c'
    by (induction ios arbitrary: c) (auto simp: bind_some_eqs dest: publish_preserve)
  have "rt_agents env ps c = Some c' \<Longrightarrow> ctx_ok c \<Longrightarrow> ctx_ok c'" for c c'
  proof (induction ps arbitrary: c)
    case (Cons p ps)
    then obtain a c1 where a: "deref p c = Some a"
      and c1: "(case ag_definition a of
                 None \<Rightarrow> Some (store p (a\<lparr> ag_rt_timestamps_enabled := True \<rparr>) c)
               | Some d \<Rightarrow> if ag_rt_synchronous_mode a
                           then publish_outputs env p (map snd (df_outputs d)) (store p (a\<lparr> ag_rt_timestamps_enabled := True \<rparr>) c)
                           else Some (store p (a\<lparr> ag_rt_timestamps_enabled := True \<rparr>) c)) = Some c1"
        "rt_agents env ps c1 = Some c'"
      by (auto simp: Let_def bind_some_eqs)
    have "ctx_ok (store p (a\<lparr> ag_rt_timestamps_enabled := True \<rparr>) c)"
      by (rule ctx_ok_store [OF Cons.prems(2) a]) simp
    with c1(1) have "ctx_ok c1" by (auto dest: out split: option.splits if_splits)
    then show ?case by (rule Cons.IH [OF c1(2)])
  qed simp
  then show ?thesis by (auto intro: runsI)
qed

text \<open>Operations that make sure of the default agent.\<close>

definition keeps_ready :: "app_env \<Rightarrow> 'r core_op \<Rightarrow> bool" where
  "keeps_ready env op \<longleftrightarrow> (\<forall>c r c'. ctx_ok c \<longrightarrow> core_ready env c \<longrightarrow> op c = Some (r, c') \<longrightarrow> ctx_ok c')"

lemma keeps_readyD: "keeps_ready env op \<Longrightarrow> ctx_ok c \<Longrightarrow> core_ready env c \<Longrightarrow> op c = Some (r, c') \<Longrightarrow> ctx_ok c'"
  by (auto simp: keeps_ready_def)

lemma preserves_ready: "preserves ctx_ok op \<Longrightarrow> keeps_ready env op"
  by (auto simp: keeps_ready_def preserves_def)

lemma core_agent_ready:
  "callbacks_preserve env ctx_ok \<Longrightarrow> (\<And>p. preserves ctx_ok (f p)) \<Longrightarrow> keeps_ready env (with_core_agent env f)"
  unfolding keeps_ready_def by (intro allI impI) (rule with_core_agent_ok)

lemma carry_ready: "keeps_ready env op \<Longrightarrow> keeps_ready env (carry op)"
  unfolding keeps_ready_def [of _ "carry op"] carry_def by (auto simp: bind_some_eqs dest: keeps_readyD)

lemma rt_set_time_ready: "callbacks_preserve env ctx_ok \<Longrightarrow> keeps_ready env (igs_rt_set_time env us)"
  unfolding igs_rt_set_time_def
proof (rule core_agent_ready)
  have "preserves ctx_ok (\<lambda>c. do { c \<leftarrow> rt_agents env (map snd (cx_agents c)) (c\<lparr> cx_rt_current_microseconds := us \<rparr>); Some ((), c) })"
  proof (rule preservesI)
    fix c r c' assume ok: "ctx_ok c"
      and "(do { c \<leftarrow> rt_agents env (map snd (cx_agents c)) (c\<lparr> cx_rt_current_microseconds := us \<rparr>); Some ((), c) }) = Some (r, c')"
    then have t: "rt_agents env (map snd (cx_agents c)) (c\<lparr> cx_rt_current_microseconds := us \<rparr>) = Some c'"
      by (auto simp: bind_some_eqs)
    have "ctx_ok (c\<lparr> cx_rt_current_microseconds := us \<rparr>)" using ok ctx.frame by (auto simp: ctx_ok_def deref_def)
    from runsD [OF rt_agents_keeps this t] show "ctx_ok c'" .
  qed
  then show "preserves ctx_ok (locked (\<lambda>c. do { c \<leftarrow> rt_agents env (map snd (cx_agents c))
      (c\<lparr> cx_rt_current_microseconds := us \<rparr>); Some ((), c) }))" by (rule ctx.preserves_locked)
qed

lemma shout_rt_ready:
  assumes "callbacks_preserve (app_of env) ctx_ok" shows "keeps_ready (app_of env) (shout_rt_set_time env title)"
  unfolding keeps_ready_def
proof (intro allI impI)
  fix c r c' assume ok: "ctx_ok c" and ready: "core_ready (app_of env) c" and o: "shout_rt_set_time env title c = Some (r, c')"
  then have free: "\<not> cx_model_locked c" by (auto simp: shout_rt_set_time_def model_lock_def bind_some_eqs split: if_splits)
  have "c\<lparr> cx_model_locked := True \<rparr>\<lparr> cx_model_locked := False \<rparr> = c" using free by (cases c) simp
  then have u: "model_unlock (c\<lparr> cx_model_locked := True \<rparr>) = Some c" by (simp add: model_unlock_def)
  consider "c' = c\<lparr> cx_model_locked := True \<rparr>" | us where "carry (igs_rt_set_time (app_of env) us) c = Some (r, c')"
    using o free u by (auto simp: shout_rt_set_time_def Let_def model_lock_def bind_some_eqs split: if_splits)
  then show "ctx_ok c'"
  proof cases
    case 2
    then show ?thesis using keeps_readyD [OF carry_ready [OF rt_set_time_ready [OF assms]] ok ready] by blast
  qed (use ok in simp)
qed

lemma remote_state_keeps:
  assumes "node_sound env" shows "preserves ctx_ok (remote_state env r)"
  unfolding remote_state_def
  by (rule preserves_popped, rule preserves_popped, rule preserves_carry, rule preserves_bind, rule preserves_found,
      rule preserves_option, rule preserves_pure, rule propagate_keeps, fact)

lemma remote_agent_exit_keeps:
  assumes "node_sound env" shows "preserves ctx_ok (remote_agent_exit env r)"
  unfolding remote_agent_exit_def
proof (rule preserves_carry, rule ctx.preserves_locked)
  show "preserves ctx_ok (\<lambda>c. case popstr r of None \<Rightarrow> Some ((), c)
     | Some (uuid, r) \<Rightarrow> (case zh_lookup (cx_remote_agents c) uuid of None \<Rightarrow> Some ((), c) | Some ra \<Rightarrow> remote_exits env ra c))"
    by (rule preservesI) (auto split: option.splits dest: preservesD [OF remote_exits_keeps [OF assms]])
qed

lemma shout_ready:
  assumes "node_sound env" shows "keeps_ready (app_of env) (zyre_shout env ev)"
  unfolding keeps_ready_def
proof (intro allI impI)
  fix c r c' assume ok: "ctx_ok c" and ready: "core_ready (app_of env) c" and o: "zyre_shout env ev c = Some (r, c')"
  have "preserves ctx_ok (shout_replay env ev)" unfolding shout_replay_def
    by (rule preserves_popped, rule preserves_popped, rule preserves_carry, rule ctx.preserves_locked, rule preserves_change,
        rule runs_self, rule replay_keeps, fact)
  from preservesD [OF this ok] preservesD [OF remote_state_keeps [OF assms] ok] preservesD [OF remote_agent_exit_keeps [OF assms] ok]
    keeps_readyD [OF shout_rt_ready [OF node_soundD(2) [OF assms]] ok ready] o ok
  show "ctx_ok c'" by (auto simp: zyre_shout_def shout_private_def bind_some_eqs split: if_splits)
qed

section \<open>Remote agents\<close>

lemma knows_keeps:
  assumes "node_sound env" shows "preserves ctx_ok (remote_peer_knows_agent env ev r)"
proof -
  have call: "preserves ctx_ok (\<lambda>c. do { d \<leftarrow> ra_definition ra; n \<leftarrow> df_name d;
      c \<leftarrow> call_event (app_of env) f p e u n x y c; Some ((), c) })" for ra f p e u x y
    by (rule preservesI) (auto simp: bind_some_eqs dest: callbacks_preserveD(3) [OF node_soundD(2) [OF assms]])
  have rem: "knows_remotes (app_of env) p peer w us c = Some c' \<Longrightarrow> ctx_ok c \<Longrightarrow> ctx_ok c'" for p peer w us c c'
  proof (induction us arbitrary: c)
    case (Cons u us)
    then obtain a where a: "deref p c = Some a" by (auto simp: bind_some_eqs)
    show ?case
    proof (cases "ag_uuid a = None")
      case False
      obtain ra :: igs_remote_agent and c1 where
        told: "(if pe_peer_id (ra_peer ra) = peer then do { (_, c) \<leftarrow> unlocked (\<lambda>c. do { d \<leftarrow> ra_definition ra; n \<leftarrow> df_name d;
           c \<leftarrow> call_event (app_of env) (wr_callback w) p IGS_AGENT_KNOWS_US (ra_uuid ra) n None (wr_my_data w) c;
           Some ((), c) }) c; Some c } else Some c) = Some c1"
        and c1: "knows_remotes (app_of env) p peer w us c1 = Some c'"
        using Cons.prems(1) unfolding knows_remotes.simps a Option.bind.simps(2) if_not_P [OF False] bind_some_eqs by blast
      have "ctx_ok c1"
        using told Cons.prems(2) preservesD [OF ctx.preserves_unlocked [OF call] Cons.prems(2)]
        by (auto simp: bind_some_eqs split: if_splits)
      with Cons.IH [OF c1] show ?thesis .
    qed (use Cons.prems a in simp)
  qed simp
  have "knows_observers (app_of env) p peer ws c = Some c' \<Longrightarrow> ctx_ok c \<Longrightarrow> ctx_ok c'" for p peer ws c c'
    by (induction ws arbitrary: c) (auto simp: bind_some_eqs dest: rem)
  then have obs: "runs (knows_observers (app_of env) p peer ws)" for p peer ws by (auto intro: runsI)
  show ?thesis unfolding remote_peer_knows_agent_def
    by (rule preserves_popped, rule preserves_carry, rule ctx.preserves_locked, rule preserves_change, rule runs_option,
        rule runs_pure, rule runs_guard, rule obs)
qed

lemma register_same: "preserves ctx_ok (register_definition peer uuid d)"
proof (rule preservesI)
  fix c r c' assume ok: "ctx_ok c" and "register_definition peer uuid d c = Some (r, c')"
  then have "same_agents c c'" by (auto simp: register_definition_def bind_some_eqs split: option.splits)
  with ok same_agents_ok show "ctx_ok c'" by blast
qed

lemma greet_keeps:
  assumes "node_sound env" shows "preserves ctx_ok (greet_remote env ev s u n r)"
  unfolding greet_remote_def
proof (rule preserves_framed, simp, rule preserves_after, rule runs_self, rule leaves_agents_runs, rule hello_frames,
    rule preserves_bind, rule ctx.preserves_unlocked, rule propagate_keeps, rule assms)
  show "preserves ctx_ok (\<lambda>c. case popstr r of None \<Rightarrow> Some ((), c)
      | Some (notification, r) \<Rightarrow> unlocked (agent_LOCKED_propagate_agent_event (app_of env) IGS_AGENT_KNOWS_US (Some u) (Some n) None) c)"
    by (rule preservesI)
      (auto split: option.splits dest: preservesD [OF ctx.preserves_unlocked [OF propagate_keeps [OF assms]]])
qed

lemma external_definition_keeps:
  assumes "node_sound env" shows "preserves ctx_ok (external_definition env ev r)"
proof -
  have told: "preserves ctx_ok (\<lambda>c. do { (is_new, c) \<leftarrow> register_definition peer u d c;
                        c \<leftarrow> configure_agents u (map snd (cx_agents c)) c;
                        if is_new then greet_remote env ev s u n r c
                        else unlocked (agent_LOCKED_propagate_agent_event (app_of env) IGS_AGENT_UPDATED_DEFINITION (Some u)
                               (Some n) (df_json d)) c })" for peer u d s n r
    by (rule preserves_bind, rule register_same, rule preserves_after, rule runs_self, rule leaves_agents_runs, rule configure_frames,
        rule preserves_if, rule greet_keeps, fact, rule ctx.preserves_unlocked, rule propagate_keeps, fact)
  have "preserves ctx_ok (external_definition_body env ev s u n r)" for s u n r
    unfolding external_definition_body_def
    by (rule preserves_guard, rule preserves_option, rule preserves_pure, rule preserves_if, rule preserves_pure,
        rule preserves_guard, rule told)
  then show ?thesis unfolding external_definition_def
    by (intro preserves_popped preserves_carry ctx.preserves_locked)
qed

lemma external_mapping_keeps:
  assumes "node_sound env" shows "preserves ctx_ok (external_mapping env r)"
proof -
  have tell: "preserves ctx_ok (tell_mapping env ra m s)" for ra m s
  proof (rule preservesI)
    fix c r c' assume ok: "ctx_ok c" and "tell_mapping env ra m s c = Some (r, c')"
    then obtain n where u: "unlocked (agent_LOCKED_propagate_agent_event (app_of env) IGS_AGENT_UPDATED_MAPPING (Some (ra_uuid ra)) n s)
        (put_remote (ra\<lparr> ra_mapping := m \<rparr>) c) = Some (r, c')"
      by (auto simp: tell_mapping_def bind_some_eqs)
    have "same_agents c (put_remote (ra\<lparr> ra_mapping := m \<rparr>) c)" by simp
    with ok same_agents_ok have "ctx_ok (put_remote (ra\<lparr> ra_mapping := m \<rparr>) c)" by blast
    then show "ctx_ok c'" by (rule preservesD [OF ctx.preserves_unlocked [OF propagate_keeps [OF assms]] _ u])
  qed
  have "preserves ctx_ok (external_mapping_body env ra s)" for ra s
    by (rule preservesI)
      (auto simp: external_mapping_body_def bind_some_eqs split: if_splits option.splits dest: preservesD [OF tell])
  then show ?thesis unfolding external_mapping_def
    by (intro preserves_popped ctx.preserves_locked preserves_option preserves_pure preserves_carry)
qed

section \<open>Commands\<close>

lemma configure_keeps: "preserves ctx_ok (locked (change (\<lambda>c. configure_remotes p (map fst (cx_remote_agents c)) c)))"
  by (rule ctx.preserves_locked, rule preserves_change, rule runs_self, rule leaves_agents_runs, rule configure_frames)

lemma set_name_keeps: "preserves ctx_ok (igsagent_set_name p n)"
  by (rule preservesI) (rule set_name_ctx_ok)

text \<open>A definition whose services have no two replies of one name is well-formed once it is loaded.\<close>

lemma load_definition_keeps:
  assumes "\<And>d. loaded = Some (Some d) \<Longrightarrow> definition_wf d" and "\<And>u a. good u (upd path a) = good u a"
  shows "preserves ctx_ok (load_definition upd loaded path p)"
proof -
  have good: "good u a'" if "good u a" and "load_definition_body upd loaded path a = Some (r, a')" for u a r a'
  proof -
    from that(2) consider "a' = a" | d d' where "loaded = Some (Some d)" "definition_update_json d = Some d'"
        "a' = (upd path a)\<lparr> ag_definition := Some d', ag_need_definition_update := True \<rparr>"
      by (auto simp: load_definition_body_def bind_some_eqs split: option.splits)
    then show ?thesis
    proof cases
      case 2
      then have "d' = refreshed d" "definition_wf d" using assms(1) update_json_refreshed by auto
      moreover have "good u (upd path a)" using that(1) assms(2) by simp
      ultimately show ?thesis unfolding 2(3) by (simp add: good_def agent_wf_def agent_mapping_ok_def)
    qed (use that in simp)
  qed
  show ?thesis unfolding load_definition_def
    by (rule preserves_with_agent, rule preserves_bind, rule ctx.preserves_locked, rule preserves_on_agent, erule good, assumption,
        rule preserves_option, rule preserves_pure, rule preserves_guard, rule preserves_bind, rule set_name_keeps, rule preserves_pure)
qed

lemma load_mapping_runs: "runs (load_mapping_message p s)"
proof (rule runsI)
  fix c c' assume ok: "ctx_ok c" and o: "load_mapping_message p s c = Some c'"
  then consider "c' = c" | m a c1 r where "parser_load_mapping s = Some (Some m)" "deref p c = Some a"
      "configure_remotes p (map fst (cx_remote_agents c)) (store p (a\<lparr> ag_mapping := Some m \<rparr>) c) = Some c1"
      "on_agent p (\<lambda>a. do { a \<leftarrow> mapping_changed a; Some ((), a) }) c1 = Some (r, c')"
    by (auto simp: load_mapping_message_def bind_some_eqs split: option.splits)
  then show "ctx_ok c'"
  proof cases
    case 2
    have same: "same_agents (store p (a\<lparr> ag_mapping := Some m \<rparr>) c) c1" by (rule leaves_agentsD [OF configure_frames(2) 2(3)])
    have "deref p c1 = Some (a\<lparr> ag_mapping := Some m \<rparr>)" using deref_same [OF same, of p] by (simp add: deref_def store_def)
    with 2(4) obtain a' where a': "mapping_changed (a\<lparr> ag_mapping := Some m \<rparr>) = Some a'" and c': "c' = store p a' c1"
      by (auto simp: on_agent_def bind_some_eqs)
    have "mapping_wf m" using 2(1) by (auto simp: parser_load_mapping_def dest!: loaded_with_Some intro: parse_mapping_wf)
    then have "agent_mapping_ok a'" by (intro mapping_changed_ok [OF a']) simp
    then have ok': "good u a'" if "good u a" for u
      using that mapping_changed_side [OF a'] by (auto simp: mapping_side_def good_def agent_wf_def)
    have "ctx_ok (store p a' c)" by (rule ctx_ok_store [OF ok 2(2) ok'])
    moreover have "same_agents (store p a' c) c'" using same by (simp add: c' same_agents_def store_def)
    ultimately show ?thesis using same_agents_ok by blast
  qed (use ok in simp)
qed

lemma load_mapping_keeps: "preserves ctx_ok (load_this_mapping r)"
  unfolding load_this_mapping_def
  by (rule preserves_popped, rule preserves_popped, rule ctx.preserves_locked, rule preserves_option, rule preserves_pure,
      rule preserves_carry, rule preserves_change, rule load_mapping_runs)

lemma current_values_keeps: "preserves ctx_ok (current_values ev title b ios r)"
proof -
  have "preserves ctx_ok (locked (\<lambda>c.
           do { a \<leftarrow> deref p c; u \<leftarrow> ag_uuid a; d \<leftarrow> ag_definition a; xs \<leftarrow> ios d; fs \<leftarrow> all_frames b xs;
                Some ((), emit (Zyre_Whisper (ze_peer_uuid ev) ([title, u] @ fs)) c) }))" for p
    by (rule ctx.preserves_locked, rule preservesI) (auto simp: bind_some_eqs)
  then show ?thesis unfolding current_values_def
    by (intro preserves_popped preserves_option preserves_pure preserves_carry)
qed

lemma current_outputs_keeps:
  assumes "node_sound env" shows "preserves ctx_ok (current_outputs env r)"
  unfolding current_outputs_def
  by (rule preserves_popped, rule preservesI)
    (auto simp: model_lock_def model_unlock_def bind_some_eqs split: if_splits option.splits
      dest!: s_handle_publication_preserve [OF node_soundD(2) [OF assms]])

lemma start_keeps:
  assumes "node_sound env" shows "preserves ctx_ok (start_agent env r)"
proof -
  have "start_agents env n ps c = Some c' \<Longrightarrow> ctx_ok c \<Longrightarrow> set ps \<subseteq> snd ` set (cx_created_agents c) \<Longrightarrow> ctx_ok c'" for n ps c c'
  proof (induction ps arbitrary: c)
    case (Cons p ps)
    then obtain a where a: "deref p c = Some a" by (auto simp: bind_some_eqs)
    show ?case
    proof (cases "ag_uuid a = None")
      case False
      with Cons.prems(1) a consider r where "unlocked (igsagent_activate (app_of env) p) c = Some (r, c')"
        | "start_agents env n ps c = Some c'"
        by (auto simp: bind_some_eqs split: if_splits)
      then show ?thesis
      proof cases
        case 1
        then obtain c1 where c1: "igsagent_activate (app_of env) p (c\<lparr> cx_model_locked := False \<rparr>) = Some (r, c1)"
            "c' = c1\<lparr> cx_model_locked := True \<rparr>"
          by (auto simp: unlocked_def model_lock_def model_unlock_def bind_some_eqs split: if_splits)
        have "created p (c\<lparr> cx_model_locked := False \<rparr>)" using Cons.prems(3) by (simp add: created_def)
        with igsagent_activate_ok [OF node_soundD(2) [OF assms] _ _ c1(1)] Cons.prems(2) c1(2) show ?thesis by simp
      qed (use Cons in simp)
    qed (use Cons.prems a in simp)
  qed simp
  then have "runs (\<lambda>c. start_agents env n (map snd (cx_created_agents c)) c)" for n
    by (rule runsI) auto
  then show ?thesis unfolding start_agent_def
    by (intro preserves_popped preserves_carry ctx.preserves_locked preserves_change)
qed

lemma mutes_keep:
  assumes "node_sound env" shows "preserves ctx_ok (mute_all env)" "preserves ctx_ok (unmute_all env)"
proof -
  note m = preservesD [OF ctx.preserves_unlocked [OF mute_preserves(1) [OF node_soundD(1) [OF assms]]]]
    preservesD [OF ctx.preserves_unlocked [OF mute_preserves(2) [OF node_soundD(1) [OF assms]]]]
  have "mute_agents env ps c = Some c' \<Longrightarrow> ctx_ok c \<Longrightarrow> ctx_ok c'" for ps c c'
    by (induction ps arbitrary: c) (auto simp: bind_some_eqs dest: m split: if_splits)
  moreover have "unmute_agents env ps c = Some c' \<Longrightarrow> ctx_ok c \<Longrightarrow> ctx_ok c'" for ps c c'
    by (induction ps arbitrary: c) (auto simp: bind_some_eqs dest: m)
  ultimately have r: "runs (mute_agents env ps)" "runs (unmute_agents env ps)" for ps by (auto intro: runsI)
  show "preserves ctx_ok (mute_all env)" "preserves ctx_ok (unmute_all env)"
    unfolding mute_all_def unmute_all_def
    by (rule preserves_carry, rule ctx.preserves_locked, rule preserves_change, rule runs_self, rule r)+
qed

lemma stop_peer_keeps: "preserves ctx_ok stop_peer"
  unfolding stop_peer_def by (rule ctx.preserves_locked, rule preserves_put) simp

text \<open>Splits are changed on the side of the mapping, too.\<close>

lemma set_splits_side [simp]: "mapping_side a (set_splits es a)"
  by (simp add: mapping_side_def set_splits_def)

lemma split_bodies_ok:
  assumes "agent_mapping_ok a"
  shows "split_add_body i ag out a = Some (r, a') \<Longrightarrow> agent_mapping_ok a'"
    and "split_remove_body k a = Some (x, a') \<Longrightarrow> agent_mapping_ok a'"
proof -
  have ok: "maps_ok (mg_map_elements m) \<and> splits_ok (mg_split_elements m)" if "ag_mapping a = Some m" for m
    using assms that by (rule mapping_okD)
  have app: "splits_ok (es @ [new_split i ag out])" if "splits_ok es" "\<forall>e \<in> set es. sp_id e \<noteq> entry_id i ag out" for es
    using add_split_ok [OF that(1), of i ag out] that(2) by (auto simp: add_unique_def new_split_def)
  have rem: "splits_ok (remove_first P es)" if "splits_ok es" for P es
    using that by (auto simp: splits_ok_def splits.keyed_remove dest: set_remove_first_subset [THEN subsetD])
  show "split_add_body i ag out a = Some (r, a') \<Longrightarrow> agent_mapping_ok a'"
    using assms ok app by (auto simp: split_add_body_def bind_some_eqs Let_def set_splits_def mapping_wf_parts
        split: if_splits elim!: mapping_changed_ok)
  show "split_remove_body k a = Some (x, a') \<Longrightarrow> agent_mapping_ok a'"
    using assms ok rem by (auto simp: split_remove_body_def bind_some_eqs set_splits_def mapping_wf_parts
        split: option.splits elim!: mapping_changed_ok)
qed

interpretation split_add_law: agent_law agent_mapping_ok "split_add_body i ag out" for i ag out
  by unfold_locales (rule split_bodies_ok)

interpretation split_add_op: mapping_op "split_add_body i ag out" for i ag out
  by unfold_locales (auto simp: split_add_body_def bind_some_eqs Let_def split: if_splits intro: mapping_changed_from)

interpretation split_remove_law: agent_law agent_mapping_ok "split_remove_body k" for k
  by unfold_locales (rule split_bodies_ok)

interpretation split_remove_op: mapping_op "split_remove_body k" for k
  by unfold_locales (auto simp: split_remove_body_def bind_some_eqs split: option.splits intro: mapping_changed_from)

lemma whisper_keeps: "preserves ctx_ok (igs_channel_whisper_zmsg env t m)"
proof (rule preservesI)
  fix c r c' assume ok: "ctx_ok c" and "igs_channel_whisper_zmsg env t m c = Some (r, c')"
  then show "ctx_ok c'" using same_agents_ok [OF model_leaves_agents [OF whisper_same]] by blast
qed

lemma splits_keep:
  "preserves ctx_ok (igsagent_split_add env p i ag out)" "preserves ctx_ok (igsagent_split_remove_with_name env p i ag out)"
  "preserves ctx_ok (igsagent_split_remove_with_id env p k)"
proof -
  have "preserves ctx_ok (\<lambda>c. do { ((hash, added), c) \<leftarrow> on_agent p (split_add_body i ag out) c;
                 c \<leftarrow> (if added then hello_remotes env p i ag out (map snd (cx_remote_agents c)) c else Some c);
                 Some (hash, c) })"
  proof (rule preservesI)
    fix c r c' assume ok: "ctx_ok c" and "(do { ((hash, added), c) \<leftarrow> on_agent p (split_add_body i ag out) c;
                 c \<leftarrow> (if added then hello_remotes env p i ag out (map snd (cx_remote_agents c)) c else Some c);
                 Some (hash, c) }) = Some (r, c')"
    then obtain h b c1 where b: "on_agent p (split_add_body i ag out) c = Some ((h, b), c1)"
      and h: "c' = c1 \<or> hello_remotes env p i ag out (map snd (cx_remote_agents c1)) c1 = Some c'"
      by (auto simp: bind_some_eqs split: if_splits)
    have "ctx_ok c1" by (rule preservesD [OF split_add_op.preserves_ctx ok b])
    with h leaves_agentsD [OF hello_frames(2)] same_agents_ok show "ctx_ok c'" by blast
  qed
  from ctx.preserves_locked [OF this] show "preserves ctx_ok (igsagent_split_add env p i ag out)"
    unfolding igsagent_split_add_def
    by - (rule preserves_with_agent, (assumption | rule preserves_guard)+)
  have rem: "preserves ctx_ok (split_remove env p k f g)" for k f g
  proof -
    have "preserves ctx_ok (\<lambda>c. do { (el, c) \<leftarrow> on_agent p (split_remove_body k) c;
                 a \<leftarrow> deref p c; u \<leftarrow> ag_uuid a;
                 Some (map_option (\<lambda>e. (f e, [''WORKER_GOODBYE'', u, fst (g e), snd (g e)])) el, c) })"
      by (rule preserves_bind, rule split_remove_op.preserves_ctx, rule preserves_guard, rule preserves_guard, rule preserves_pure)
    then have l: "preserves ctx_ok (locked (\<lambda>c. do { (el, c) \<leftarrow> on_agent p (split_remove_body k) c;
                 a \<leftarrow> deref p c; u \<leftarrow> ag_uuid a;
                 Some (map_option (\<lambda>e. (f e, [''WORKER_GOODBYE'', u, fst (g e), snd (g e)])) el, c) }))"
      by (rule ctx.preserves_locked)
    have s: "preserves ctx_ok (\<lambda>c. case r of None \<Rightarrow> Some (IGS_FAILURE, c)
          | Some (t, msg) \<Rightarrow> do { (_, c) \<leftarrow> igs_channel_whisper_zmsg e t msg c; Some (IGS_SUCCESS, c) })" for r e
      by (rule preservesI) (auto simp: bind_some_eqs split: option.splits dest: preservesD [OF whisper_keeps])
    show ?thesis unfolding split_remove_def
      by (rule preserves_with_agent, rule preserves_guard, rule preserves_bind, rule l, rule s)
  qed
  show "preserves ctx_ok (igsagent_split_remove_with_name env p i ag out)"
    unfolding igsagent_split_remove_with_name_def by (rule rem)
  show "preserves ctx_ok (igsagent_split_remove_with_id env p k)"
    unfolding igsagent_split_remove_with_id_def by (rule preserves_with_agent, rule preserves_guard, rule rem)
qed

lemma save_keeps: "preserves ctx_ok (save_json env f g p)"
proof -
  have "preserves ctx_ok (locked (\<lambda>c. Some ((), if b then emit e c else c)))" for b e
    by (rule ctx.preserves_locked, rule preserves_put) simp
  then show ?thesis unfolding save_json_def
    by (intro preserves_with_agent preserves_guard preserves_option preserves_pure)
qed

lemma commands_keep:
  "(\<And>p. preserves ctx_ok (f p)) \<Longrightarrow> preserves ctx_ok (agent_command f r)"
  "(\<And>p s. preserves ctx_ok (g p s)) \<Longrightarrow> preserves ctx_ok (agent_text_command g r)"
  "(\<And>p i ag x. preserves ctx_ok (h p i ag x)) \<Longrightarrow> preserves ctx_ok (link_command h r)"
  unfolding agent_command_def agent_text_command_def link_command_def
  by (intro preserves_popped preserves_to_agent; simp)+

lemma set_io_command_keeps:
  assumes "\<And>p s v. preserves ctx_ok (f p s v)" shows "preserves ctx_ok (set_io_command f r)"
proof -
  have look: "preserves ctx_ok (locked (\<lambda>c. case zh_lookup (cx_agents c) u of None \<Rightarrow> Some (None, c)
      | Some p \<Rightarrow> do { refused \<leftarrow> refused_type r; Some (Some (p, refused), c) }))" for u r
    by (rule ctx.preserves_locked, rule preserves_option, rule preserves_pure, rule preserves_guard, rule preserves_pure)
  have set: "preserves ctx_ok (\<lambda>c. case found of None \<Rightarrow> Some (Returned 0, c)
      | Some (p, refused) \<Rightarrow> if refused then Some (Carry_On, c) else carry (f p s v) c)" for found s v
    by (rule preservesI) (auto split: option.splits if_splits dest: preservesD [OF preserves_carry [OF assms]])
  show ?thesis unfolding set_io_command_def
    by (rule preserves_popped, split list.split, intro conjI impI allI, rule preserves_pure, rule preserves_popped,
        rule preserves_bind, rule look, rule set)
qed

lemma performance_keeps: "preserves ctx_ok (ping ev r)" "preserves ctx_ok (pong ev r)"
proof -
  show "preserves ctx_ok (ping ev r)" unfolding ping_def
    by (rule preserves_carry, rule ctx.preserves_locked, rule preservesI)
      (auto simp: bind_some_eqs split: list.splits)
  have "leaves_agents (\<lambda>c. case r of [] \<Rightarrow> None | count # r \<Rightarrow> if length count < 8 then None
                     else pong_received ev (rd_u64 count) (case r of [] \<Rightarrow> None | payload # r \<Rightarrow> Some payload) c)"
    unfolding leaves_agents_def pong_received_def
    by (auto simp: Let_def bind_some_eqs split: list.splits if_splits)
  then show "preserves ctx_ok (pong ev r)" unfolding pong_def
    by (rule preserves_carry [OF ctx.preserves_locked [OF preserves_change [OF leaves_agents_runs]]])
qed

lemma work_keeps:
  assumes "node_sound env" shows "preserves ctx_ok (worker_message env t r)" "preserves ctx_ok (splitter_work env r)"
proof -
  show "preserves ctx_ok (worker_message env t r)" unfolding worker_message_def
    by (rule preserves_carry [OF ctx.preserves_locked [OF preserves_change [OF leaves_agents_runs [OF worker_frames]]]])
  have agents: "work_agents (app_of env) w i vt v ps c = Some c' \<Longrightarrow> ctx_ok c \<Longrightarrow> ctx_ok c'" for w i vt v ps c c'
  proof (induction ps arbitrary: c)
    case (Cons p ps)
    then obtain a where a: "deref p c = Some a" by (auto simp: bind_some_eqs)
    show ?case
    proof (cases "ag_uuid a")
      case None
      with Cons.prems a show ?thesis by simp
    next
      case (Some u)
      show ?thesis
      proof (cases "u = w")
        case True
        with Cons.prems(1) a Some obtain ok c1 x where
          c1: "on_agent p (\<lambda>a. model_write (igs_env.truncate (app_of env)) a i IGS_INPUT_T vt (Some v) (length v)) c = Some (ok, c1)"
          and c2: "unlocked (\<lambda>c. if ok then model_LOCKED_handle_io_callbacks (app_of env) p IGS_INPUT_T i c else Some ((), c)) c1
            = Some (x, c')"
          by (auto simp: bind_some_eqs)
        have "ctx_ok c1" by (rule preservesD [OF write_op.preserves_ctx Cons.prems(2) c1])
        moreover have "preserves ctx_ok (\<lambda>c. if ok then model_LOCKED_handle_io_callbacks (app_of env) p IGS_INPUT_T i c else Some ((), c))"
          by (rule preserves_if, rule handle_io_callbacks_preserve [OF ctx_ok_law node_soundD(2) [OF assms]], rule preserves_pure)
        ultimately show ?thesis by (rule preservesD [OF ctx.preserves_unlocked _ c2, rotated])
      next
        case False
        with Cons a Some show ?thesis by simp
      qed
    qed
  qed simp
  have work: "do_work (app_of env) u i out vt v r c = Some c' \<Longrightarrow> ctx_ok c \<Longrightarrow> ctx_ok c'" for u i out vt v r c c'
    by (auto simp: do_work_def bind_some_eqs split: option.splits if_splits
        dest!: agents dest: preservesD [OF ctx.preserves_unlocked [OF whisper_keeps]])
  have "runs (split_message_from_splitter (app_of env) r)"
  proof (rule runsI)
    fix c c' assume ok: "ctx_ok c" and o: "split_message_from_splitter (app_of env) r c = Some c'"
    then have "c' = c \<or> (\<exists>u i out vt v r. do_work (app_of env) u i out vt v r c = Some c')"
      unfolding split_message_from_splitter_def by (auto simp: bind_some_eqs split: option.splits if_splits)
    with ok work show "ctx_ok c'" by blast
  qed
  then show "preserves ctx_ok (splitter_work env r)" unfolding splitter_work_def
    by (rule preserves_carry [OF ctx.preserves_locked [OF preserves_change]])
qed

end
