(* ===== verification/Igs_Node_Reach.thy ===== *)
theory Igs_Node_Reach
  imports Igs_Network_Keeps
begin

text \<open>
  The network actor and the rest of the interface keep the invariant of the context: the table
  of whispers, the dispatch of events, the timers, the messages of the parent thread, the ends
  of the loop, channels, the log and the time. The step relation of the whole process, and the
  contexts that it reaches.
\<close>

section \<open>The table of whispers\<close>

text \<open>The definition that a message loads, if it does, has no service with two replies of one name.\<close>

definition loads_well :: "peer_env \<Rightarrow> string list \<Rightarrow> bool" where
  "loads_well env msg \<longleftrightarrow>
     (\<forall>d. msg \<noteq> [] \<longrightarrow> parser_load_definition (files (nodes env)) (takeWhile (\<lambda>ch. ch \<noteq> CHR 0x00) (hd msg)) = Some (Some d) \<longrightarrow> definition_wf d)"

lemma apps_nodes [simp]: "apps (nodes env) = app_of env"
  by (simp add: apps_def nodes_def app_of_def app_env.truncate_def node_env.truncate_def)

lemma load_this_definition_keeps:
  assumes "loads_well env r" shows "preserves ctx_ok (load_this_definition env r)"
proof (rule preservesI)
  fix c x c' assume ok: "ctx_ok c" and o: "load_this_definition env r c = Some (x, c')"
  show "ctx_ok c'"
  proof (cases r)
    case Nil
    with o ok show ?thesis by (simp add: load_this_definition_def popped_def popstr_def)
  next
    case (Cons f fs)
    let ?s = "takeWhile (\<lambda>ch. ch \<noteq> CHR 0x00) f"
    have load: "preserves ctx_ok (igsagent_definition_load_str (nodes env) p ?s)" for p
      unfolding igsagent_definition_load_str_def
      using assms Cons by (intro load_definition_keeps) (auto simp: loads_well_def)
    have "preserves ctx_ok (\<lambda>c. do { (res, c) \<leftarrow> igsagent_definition_load_str (nodes env) p ?s c;
            if res = IGS_SUCCESS then locked (change (\<lambda>c. configure_remotes p (map fst (cx_remote_agents c)) c)) c
            else Some ((), c) })" for p
      by (rule preserves_bind, rule load, rule preserves_if, rule configure_keeps, rule preserves_pure)
    then have "preserves ctx_ok (popped fs (\<lambda>uuid r. to_agent uuid (\<lambda>p c.
       do { (res, c) \<leftarrow> igsagent_definition_load_str (nodes env) p ?s c;
            if res = IGS_SUCCESS then locked (change (\<lambda>c. configure_remotes p (map fst (cx_remote_agents c)) c)) c
            else Some ((), c) })))"
      by (intro preserves_popped preserves_to_agent)
    from preservesD [OF this ok] o show ?thesis by (simp add: Cons load_this_definition_def popped_def popstr_def)
  qed
qed

lemma call_keeps:
  assumes "node_sound env" shows "preserves ctx_ok (call_service_command env ev r)"
  by (rule preservesI)
    (auto simp: call_service_command_def bind_some_eqs dest: preservesD [OF handle_call_preserves [OF node_soundD(2) [OF assms]]])

text \<open>The log makes sure of the default agent.\<close>

lemma log_flags_frames: "leaves_agents (log_file_flag b)" "leaves_agents (log_file_switch nenv path)"
proof -
  have up: "same_agents c c'" if "shout_news t v ps (set_network f c) = Some c'" for t v ps f c c'
    using leaves_agentsD [OF news_frames that] by (simp add: same_agents_def set_network_def)
  show "leaves_agents (log_file_flag b)" "leaves_agents (log_file_switch nenv path)"
    by (auto simp: leaves_agents_def log_file_flag_def log_file_switch_def Let_def bind_some_eqs split: if_splits dest: up)
qed

lemma stream_keeps:
  "preserves ctx_ok (\<lambda>c. if b = nt_log_in_stream (cx_network c) then Some ((), c)
     else (let c = set_network (\<lambda>n. n\<lparr> nt_log_in_stream := b \<rparr>) c
           in if cx_network_actor c \<and> cx_node c
              then do { c \<leftarrow> shout_news ''LOG_IN_STREAM'' (flag_str b) (map snd (cx_agents c)) c; Some ((), c) }
              else Some ((), c)))"
  by (rule preserves_if, rule preserves_pure, rule preserves_framed, simp, rule preserves_if,
      rule preserves_after, rule runs_self, rule leaves_agents_runs, rule news_frames, rule preserves_pure, rule preserves_pure)

lemma log_ready:
  assumes "callbacks_preserve (apps nenv) ctx_ok"
  shows "keeps_ready (apps nenv) (igs_log_set_stream nenv b)" "keeps_ready (apps nenv) (igs_log_set_file nenv b s)"
proof -
  show "keeps_ready (apps nenv) (igs_log_set_stream nenv b)" unfolding igs_log_set_stream_def
    by (rule core_agent_ready [OF assms], rule ctx.preserves_locked, rule stream_keeps)
  have path: "leaves_agents (\<lambda>c. if s = None \<or> s = Some []
               then Some (set_network (\<lambda>n. n\<lparr> nt_log_file := False, nt_log_file_path := [] \<rparr>) c)
               else log_file_switch nenv (the s) c)"
    by (auto simp: leaves_agents_def dest: leaves_agentsD [OF log_flags_frames(2)])
  show "keeps_ready (apps nenv) (igs_log_set_file nenv b s)" unfolding igs_log_set_file_def
    by (rule core_agent_ready [OF assms], rule ctx.preserves_locked, rule preserves_after, rule leaves_agents_runs, rule log_flags_frames,
        rule preserves_after, rule leaves_agents_runs, rule path, rule preserves_pure)
qed

lemma ready_self: "(\<And>x. keeps_ready env (f x)) \<Longrightarrow> keeps_ready env (\<lambda>c. f (h c) c)"
  unfolding keeps_ready_def by blast

lemma core_init_ready: "core_init_agent env c = Some (p, c') \<Longrightarrow> core_ready env c'"
  by (auto simp: core_init_agent_def bind_some_eqs core_ready_def set_network_def split: option.splits)

lemma set_log_path_ready:
  assumes "node_sound env" shows "keeps_ready (app_of env) (set_log_path env r)"
  unfolding keeps_ready_def
proof (intro allI impI)
  fix c x c' assume ok: "ctx_ok c" and ready: "core_ready (app_of env) c" and o: "set_log_path env r c = Some (x, c')"
  note cb = node_soundD(2) [OF assms]
  from o obtain p c1 y where i: "core_init_agent (app_of env) c = Some (p, c1)"
    and f: "igs_log_set_file (nodes env) (nt_log_in_file (cx_network c1)) (map_option fst (popstr r)) c1 = Some (y, c')"
    by (auto simp: set_log_path_def carry_def igs_log_file_def with_core_agent_def bind_some_eqs)
  have "ctx_ok c1" by (rule core_init_ok [OF cb ok ready i])
  with log_ready(2) [of "nodes env"] cb core_init_ready [OF i] f show "ctx_ok c'" by (auto dest: keeps_readyD)
qed

lemma logs_ready:
  assumes "node_sound env"
  shows "keeps_ready (app_of env) (igs_log_set_stream (nodes env) b)" "keeps_ready (app_of env) (igs_log_set_file (nodes env) b s)"
  using log_ready [of "nodes env"] node_soundD(2) [OF assms] by simp_all

lemma log_file_ready:
  assumes "node_sound env" shows "keeps_ready (app_of env) (set_log_file_command env b)"
  unfolding set_log_file_command_def by (rule carry_ready, rule ready_self, rule logs_ready, rule assms)

lemma freeze_ready:
  assumes "callbacks_preserve env ctx_ok" shows "keeps_ready env (igs_freeze env)" "keeps_ready env (igs_unfreeze env)"
  unfolding keeps_ready_def using freezing_preserves(1,2) [OF assms] by blast+

lemma set_string_keeps:
  assumes "node_sound env"
  shows "preserves ctx_ok (igsagent_input_set_string (app_of env) p n s)" "preserves ctx_ok (igsagent_output_set_string (app_of env) p n s)"
    "preserves ctx_ok (igsagent_attribute_set_string (app_of env) p n s)"
  unfolding igsagent_input_set_string_def igsagent_output_set_string_def igsagent_attribute_set_string_def set_io_string_def
  by (rule set_io_preserves [OF node_soundD(2) [OF assms]])+

lemma deactivate_keeps: "node_sound env \<Longrightarrow> preserves ctx_ok (igsagent_deactivate (app_of env) p)"
  by (rule preservesI) (rule deactivate_ctx_ok [OF node_soundD(2)])

lemma agent_commands_keep:
  assumes "node_sound env"
  shows "preserves ctx_ok (stop_agent env r)" "preserves ctx_ok (clear_mapping r)" "preserves ctx_ok (mute_agent env r)"
    "preserves ctx_ok (unmute_agent env r)" "preserves ctx_ok (mute_output r)" "preserves ctx_ok (unmute_output r)"
    "preserves ctx_ok (map_command r)" "preserves ctx_ok (unmap_command r)" "preserves ctx_ok (add_split env r)"
    "preserves ctx_ok (remove_split env r)" "preserves ctx_ok (set_definition_path r)" "preserves ctx_ok (set_mapping_path r)"
    "preserves ctx_ok (save_definition env r)" "preserves ctx_ok (save_mapping env r)"
  unfolding stop_agent_def clear_mapping_def mute_agent_def unmute_agent_def mute_output_def unmute_output_def map_command_def
    unmap_command_def add_split_def remove_split_def set_definition_path_def set_mapping_path_def save_definition_def
    save_mapping_def igsagent_output_mute_def igsagent_output_unmute_def igsagent_definition_save_def igsagent_mapping_save_def
  by (rule commands_keep, rule deactivate_keeps [OF assms] mappings_preserve mute_preserves [OF node_soundD(1) [OF assms]]
      set_muted_preserves splits_keep paths_preserve save_keeps)+

lemma set_commands_keep:
  assumes "node_sound env"
  shows "preserves ctx_ok (set_io_command (igsagent_input_set_string (app_of env)) r)"
    "preserves ctx_ok (set_io_command (igsagent_output_set_string (app_of env)) r)"
    "preserves ctx_ok (set_io_command (igsagent_attribute_set_string (app_of env)) r)"
  by (rule set_io_command_keeps, rule set_string_keeps [OF assms])+

lemma requests_keep:
  "preserves ctx_ok (get_current_outputs ev r)" "preserves ctx_ok (get_current_inputs ev r)"
  "preserves ctx_ok (get_current_attributes ev r)"
  unfolding get_current_outputs_def get_current_inputs_def get_current_attributes_def by (rule current_values_keeps)+

lemmas whisper_keep = knows_keeps external_definition_keeps external_mapping_keeps current_outputs_keeps start_keeps mutes_keep
  agent_commands_keep set_commands_keep call_keeps work_keeps remote_state_keeps

lemmas whisper_keep_always = load_mapping_keeps requests_keep stop_peer_keeps performance_keeps

text \<open>Every handler of the table but the one that loads a definition keeps the invariant.\<close>

lemma handlers_ready:
  assumes "node_sound env"
  shows "list_all (\<lambda>(title, h). title = ''LOAD_THIS_DEFINITION#'' \<or> (\<forall>r. keeps_ready (app_of env) (h r))) (whisper_handlers env ev)"
proof -
  note k = whisper_keep [OF assms, THEN preserves_ready] whisper_keep_always [THEN preserves_ready]
    logs_ready [OF assms, THEN carry_ready] log_file_ready [OF assms] set_log_path_ready [OF assms]
    freeze_ready [OF node_soundD(2) [OF assms], THEN carry_ready]
  show ?thesis unfolding whisper_handlers_def
    by (simp only: list.pred_inject prod.case k simp_thms)
qed

lemma map_of_list_all: "list_all (\<lambda>(k, v). P k v) xs \<Longrightarrow> map_of xs k = Some v \<Longrightarrow> P k v"
  by (auto simp: list_all_iff dest!: map_of_SomeD)

lemma whisper_rt_ready:
  assumes "node_sound env" shows "keeps_ready (app_of env) (whisper_rt_set_time env title)"
proof -
  have "keeps_ready (app_of env) (\<lambda>c. do { us \<leftarrow> c_atoll stamp; igs_rt_set_time (app_of env) us c })" for stamp
    unfolding keeps_ready_def
    by (auto simp: bind_some_eqs dest: keeps_readyD [OF rt_set_time_ready [OF node_soundD(2) [OF assms]]])
  then show ?thesis unfolding whisper_rt_set_time_def Let_def
    by (simp add: carry_ready preserves_ready preserves_pure)
qed

text \<open>The events whose handling keeps the invariant: all, if no definition with twice the same reply is loaded.\<close>

definition event_loads_well :: "peer_env \<Rightarrow> zyre_event \<Rightarrow> bool" where
  "event_loads_well env ev \<longleftrightarrow>
     (case popstr (ze_msg ev) of
        None \<Rightarrow> True
      | Some (title, r) \<Rightarrow> ze_type ev = ''WHISPER'' \<longrightarrow> title = ''LOAD_THIS_DEFINITION#'' \<longrightarrow> loads_well env r)"

lemma whisper_ready:
  assumes "node_sound env" and "ze_type ev = ''WHISPER''" and "event_loads_well env ev"
  shows "keeps_ready (app_of env) (zyre_whisper env ev)"
proof (cases "popstr (ze_msg ev)")
  case None
  then show ?thesis by (simp add: zyre_whisper_def popped_def keeps_ready_def)
next
  case (Some f)
  obtain title r where f: "f = (title, r)" by (cases f)
  show ?thesis
  proof (cases "map_of (whisper_handlers env ev) title")
    case None
    with Some f whisper_rt_ready [OF assms(1), of title] show ?thesis
      by (simp add: zyre_whisper_def popped_def keeps_ready_def)
  next
    case (Some h)
    have "keeps_ready (app_of env) (h r)"
    proof (cases "title = ''LOAD_THIS_DEFINITION#''")
      case True
      with Some have "h = load_this_definition env" by (simp add: whisper_handlers_def)
      moreover have "loads_well env r" using assms(2,3) \<open>popstr (ze_msg ev) = Some f\<close> f True by (simp add: event_loads_well_def)
      ultimately show ?thesis by (simp add: preserves_ready load_this_definition_keeps)
    next
      case False
      with map_of_list_all [OF handlers_ready [OF assms(1)] Some] show ?thesis by simp
    qed
    with Some f \<open>popstr (ze_msg ev) = Some f\<close> show ?thesis by (simp add: zyre_whisper_def popped_def keeps_ready_def)
  qed
qed

section \<open>Events\<close>

lemma zyre_handler_ready:
  assumes "node_sound env" and "event_loads_well env ev" shows "keeps_ready (app_of env) (zyre_handler env ev)"
  unfolding zyre_handler_def
  using preserves_ready [OF enter_keeps [OF assms(1)]] preserves_ready [OF join_keeps] shout_ready [OF assms(1)]
    whisper_ready [OF assms(1) _ assms(2)] preserves_ready [OF leader_keeps [OF assms(1)]] preserves_ready [OF exit_keeps [OF assms(1)]]
    preserves_ready [OF preserves_pure(1) [of _ Carry_On]]
  by simp

lemma channel_observers_keeps:
  assumes "node_sound env" shows "runs (channel_observers env ev ws)"
proof -
  have call: "preserves ctx_ok (unlocked (change (call_channels env f ev d)))" for f d
    using assms by (intro ctx.preserves_unlocked preserves_change) (simp add: node_sound_def)
  have "channel_observers env ev ws c = Some c' \<Longrightarrow> ctx_ok c \<Longrightarrow> ctx_ok c'" for c c'
    by (induction ws arbitrary: c) (auto simp: bind_some_eqs dest: preservesD [OF call])
  then show ?thesis by (auto intro: runsI)
qed

lemma event_ready:
  assumes "node_sound env" and "event_loads_well env ev" shows "keeps_ready (app_of env) (s_manage_zyre_incoming env ev)"
  unfolding keeps_ready_def
proof (intro allI impI)
  fix c n c' assume ok: "ctx_ok c" and ready: "core_ready (app_of env) c" and o: "s_manage_zyre_incoming env ev c = Some (n, c')"
  from o obtain r c1 where h: "zyre_handler env ev c = Some (r, c1)"
    and e: "(case r of Returned n \<Rightarrow> Some (n, c1)
          | Carry_On \<Rightarrow> locked (\<lambda>c. do { c \<leftarrow> channel_observers env ev (nt_zyre_callbacks (cx_network c)) c; Some (0, c) }) c1) = Some (n, c')"
    by (auto simp: s_manage_zyre_incoming_def bind_some_eqs)
  have ok1: "ctx_ok c1" by (rule keeps_readyD [OF zyre_handler_ready [OF assms] ok ready h])
  have "preserves ctx_ok (locked (\<lambda>c. do { c \<leftarrow> channel_observers env ev (nt_zyre_callbacks (cx_network c)) c; Some (0, c) }))"
    by (rule ctx.preserves_locked, rule preserves_after, rule runs_self, rule channel_observers_keeps, rule assms, rule preserves_pure)
  from preservesD [OF this ok1] e ok1 show "ctx_ok c'" by (auto split: flow.splits)
qed

section \<open>Timers\<close>

lemma sent_mapping_left: "same_agents (s_send_mapping_to_zyre_peer a pe s c) c' = same_agents c c'"
  by (simp add: s_send_mapping_to_zyre_peer_def same_agents_def emit_def split: option.splits)

lemma to_peers_frames: "leaves_agents (definition_to_peers a pes)" "leaves_agents (mapping_to_peers a pes)"
proof -
  have "definition_to_peers a pes c = Some c' \<Longrightarrow> same_agents c c'" for c c'
    by (induction pes arbitrary: c)
      (auto simp: bind_some_eqs dest!: sent_same(1) intro: same_agents_trans split: if_splits option.splits)
  moreover have "mapping_to_peers a pes c = Some c' \<Longrightarrow> same_agents c c'" for c c'
    by (induction pes arbitrary: c)
      (auto simp: bind_some_eqs sent_mapping_left split: if_splits option.splits, force simp: sent_mapping_left)
  ultimately show "leaves_agents (definition_to_peers a pes)" "leaves_agents (mapping_to_peers a pes)" by (auto simp: leaves_agents_def)
qed

text \<open>What follows the messages of a timer: the flags are put down, the agents are told.\<close>

lemma ctx_ok_refresh:
  assumes "ctx_ok c" and "deref p c = Some a" and "same_agents c c1" and "\<And>u. good u a' = good u a"
  shows "ctx_ok (store p a' c1)"
proof -
  have "deref p c1 = Some a" "ctx_ok c1" using assms(1,2) deref_same [OF assms(3)] same_agents_ok [OF assms(3)] by simp_all
  then show ?thesis using assms(4) by (auto intro: ctx_ok_store)
qed

lemma told_keeps:
  assumes "node_sound env"
  shows "preserves ctx_ok (unlocked (\<lambda>c. case x of None \<Rightarrow> Some ((), c)
      | Some u \<Rightarrow> do { d \<leftarrow> y; agent_LOCKED_propagate_agent_event (app_of env) e (Some u) (f d) (g d) c }))"
    and "preserves ctx_ok (unlocked (\<lambda>c. case x of None \<Rightarrow> Some ((), c)
      | Some u \<Rightarrow> do { d \<leftarrow> y; m \<leftarrow> z; agent_LOCKED_propagate_agent_event (app_of env) e (Some u) (f d) (h m) c }))"
  by (rule ctx.preserves_unlocked, rule preservesI,
      auto simp: bind_some_eqs split: option.splits dest: preservesD [OF propagate_keeps [OF assms]])+

lemma update_definition_keeps:
  assumes "node_sound env" shows "runs (update_definition env p)"
proof (rule runsI)
  fix c c' assume ok: "ctx_ok c" and o: "update_definition env p c = Some c'"
  then obtain a c1 c2 r where a: "deref p c = Some a"
    and c1: "definition_to_peers a (map snd (cx_zyre_peers c)) c = Some c1"
    and c2: "s_send_state_to a IGS_PRIVATE_CHANNEL False c1 = Some c2"
    and t: "unlocked (\<lambda>c. case ag_uuid a of
              None \<Rightarrow> Some ((), c)
            | Some u \<Rightarrow> do { d \<leftarrow> ag_definition a;
                              agent_LOCKED_propagate_agent_event (app_of env) IGS_AGENT_UPDATED_DEFINITION (Some u) (df_name d)
                                (df_json d) c })
         (store p (a\<lparr> ag_activation_during_runtime := False, ag_need_definition_update := False, ag_need_mapping_update := True \<rparr>) c2)
         = Some (r, c')"
    by (auto simp: update_definition_def Let_def bind_some_eqs)
  have "same_agents c c2" using leaves_agentsD [OF to_peers_frames(1) c1] sent_same(2) [OF c2] same_agents_trans by blast
  with ok a have "ctx_ok (store p (a\<lparr> ag_activation_during_runtime := False, ag_need_definition_update := False,
      ag_need_mapping_update := True \<rparr>) c2)" by (rule ctx_ok_refresh) simp
  from preservesD [OF told_keeps(1) [OF assms] this t] show "ctx_ok c'" .
qed

lemma definition_update_keeps:
  assumes "node_sound env" shows "preserves ctx_ok (s_trigger_definition_update env)"
proof -
  have "definition_updates env ps c = Some c' \<Longrightarrow> ctx_ok c \<Longrightarrow> ctx_ok c'" for ps c c'
    by (induction ps arbitrary: c)
      (auto simp: bind_some_eqs dest: runsD [OF update_definition_keeps [OF assms]] split: if_splits)
  then have us: "runs (definition_updates env ps)" for ps by (auto intro: runsI)
  show ?thesis unfolding s_trigger_definition_update_def
    by (rule ctx.preserves_locked, rule preserves_change, rule runs_self, rule us)
qed

lemma update_mapping_keeps:
  assumes "node_sound env" shows "runs (update_mapping env p)"
proof (rule runsI)
  fix c c' assume ok: "ctx_ok c" and o: "update_mapping env p c = Some c'"
  then obtain a c1 c2 r where a: "deref p c = Some a"
    and c1: "mapping_to_peers a (map snd (cx_zyre_peers c)) c = Some c1"
    and c2: "configure_remotes p (map fst (cx_remote_agents c1)) c1 = Some c2"
    and t: "unlocked (\<lambda>c. case ag_uuid a of
              None \<Rightarrow> Some ((), c)
            | Some u \<Rightarrow> do { d \<leftarrow> ag_definition a;
                              m \<leftarrow> ag_mapping a;
                              agent_LOCKED_propagate_agent_event (app_of env) IGS_AGENT_UPDATED_MAPPING (Some u) (df_name d)
                                (mg_json m) c }) (store p (a\<lparr> ag_need_mapping_update := False \<rparr>) c2) = Some (r, c')"
    by (auto simp: update_mapping_def Let_def bind_some_eqs)
  have "same_agents c c2" using leaves_agentsD [OF to_peers_frames(2) c1] leaves_agentsD [OF configure_frames(2) c2] same_agents_trans by blast
  with ok a have "ctx_ok (store p (a\<lparr> ag_need_mapping_update := False \<rparr>) c2)" by (rule ctx_ok_refresh) simp
  from preservesD [OF told_keeps(2) [OF assms] this t] show "ctx_ok c'" .
qed

lemma mapping_update_keeps:
  assumes "node_sound env" shows "preserves ctx_ok (s_trigger_mapping_update env)"
proof -
  have "mapping_updates env ps c = Some c' \<Longrightarrow> ctx_ok c \<Longrightarrow> ctx_ok c'" for ps c c'
    by (induction ps arbitrary: c)
      (auto simp: bind_some_eqs dest: runsD [OF update_mapping_keeps [OF assms]] split: if_splits)
  then have us: "runs (mapping_updates env ps)" for ps by (auto intro: runsI)
  show ?thesis unfolding s_trigger_mapping_update_def
    by (rule ctx.preserves_locked, rule preserves_change, rule runs_self, rule us)
qed

section \<open>The parent thread and the ends of the loop\<close>

lemma parent_keeps:
  assumes "node_sound env" shows "preserves ctx_ok (s_manage_parent (app_of env) msg)"
  by (rule preservesI)
    (auto simp: s_manage_parent_def bind_some_eqs split: option.splits if_splits
      dest: preservesD [OF publication_command_preserves [OF node_soundD(2) [OF assms]]])

lemma loop_start_keeps: "runs s_run_loop_start"
proof -
  have settled: "deref p c = Some a \<Longrightarrow> ctx_ok c \<Longrightarrow> ctx_ok (store p (a\<lparr> ag_need_mapping_update := False,
      ag_need_definition_update := False, ag_activation_during_runtime := False \<rparr>) c)" for p c a
    by (rule ctx_ok_store) simp_all
  have "settle_agents ps c = Some c' \<Longrightarrow> ctx_ok c \<Longrightarrow> ctx_ok c'" for ps c c'
    by (induction ps arbitrary: c) (auto simp: bind_some_eqs dest: settled)
  then show ?thesis by (auto intro!: runsI simp: s_run_loop_start_def bind_some_eqs)
qed

lemma loop_end_keeps:
  assumes "node_sound env" shows "runs (s_run_loop_end env)"
proof (rule runsI)
  fix c c' assume ok: "ctx_ok c" and o: "s_run_loop_end env c = Some c'"
  have clean: "clean_remotes ras c = Some c' \<Longrightarrow> same_agents c c'" for ras c c'
    by (induction ras arbitrary: c) (auto simp: bind_some_eqs dest!: leaves_agentsD [OF clean_frames] intro: same_agents_trans)
  have peers: "same_agents c (foldl (\<lambda>c pe. s_clean_and_free_zyre_peer pe c) c pes)" for c pes
    by (induction pes arbitrary: c) (simp_all, meson same_agents_changes(6) same_agents_refl same_agents_trans)
  have call: "runs (call_forced_stop env f d)" for f d using assms by (simp add: node_sound_def)
  have stop: "forced_stop_observers env ws c = Some c' \<Longrightarrow> ctx_ok c \<Longrightarrow> ctx_ok c'" for ws c c'
    by (induction ws arbitrary: c) (auto simp: bind_some_eqs dest: runsD [OF call])
  let ?c0 = "c\<lparr> cx_node := False, cx_publisher := False, cx_ipc_publisher := False, cx_inproc_publisher := False \<rparr>"
  from o obtain c1 where c1: "clean_remotes (map snd (cx_remote_agents c)) ?c0 = Some c1"
    and e: "(let c = foldl (\<lambda>c pe. s_clean_and_free_zyre_peer pe c) (c1\<lparr> cx_remote_agents := [] \<rparr>) (map snd (cx_zyre_peers c1));
               c = c\<lparr> cx_zyre_peers := [] \<rparr>
           in if nt_external_stop (cx_network c) then forced_stop_observers env (nt_external_stop_callbacks (cx_network c)) c
              else Some c) = Some c'"
    by (auto simp: s_run_loop_end_def Let_def bind_some_eqs)
  let ?c2 = "(foldl (\<lambda>c pe. s_clean_and_free_zyre_peer pe c) (c1\<lparr> cx_remote_agents := [] \<rparr>) (map snd (cx_zyre_peers c1)))\<lparr> cx_zyre_peers := [] \<rparr>"
  have "same_agents c ?c0" by (simp add: same_agents_def)
  then have "same_agents c c1" using clean [OF c1] same_agents_trans by blast
  then have "same_agents c ?c2" using peers [of "c1\<lparr> cx_remote_agents := [] \<rparr>" "map snd (cx_zyre_peers c1)"]
    by (simp add: same_agents_def)
  with ok same_agents_ok have "ctx_ok ?c2" by blast
  with e stop show "ctx_ok c'" by (auto simp: Let_def split: if_splits)
qed

section \<open>The rest of the interface\<close>

lemma core_frames_ready:
  assumes "node_sound env" and "\<And>p c r c'. f p c = Some (r, c') \<Longrightarrow> same_agents c c'"
  shows "keeps_ready (app_of env) (with_core_agent (app_of env) f)"
  by (rule core_agent_ready [OF node_soundD(2) [OF assms(1)]], rule preservesI) (auto dest!: assms(2) same_agents_ok)

lemma locked_frames:
  assumes "\<And>c r c'. f c = Some (r, c') \<Longrightarrow> same_agents c c'" and "locked f c = Some (r, c')" shows "same_agents c c'"
proof -
  from assms(2) obtain c1 where "f (c\<lparr> cx_model_locked := True \<rparr>) = Some (r, c1)" "c' = c1\<lparr> cx_model_locked := False \<rparr>"
    by (auto simp: locked_def model_lock_def model_unlock_def bind_some_eqs split: if_splits)
  with assms(1) [OF this(1)] show ?thesis by (simp add: same_agents_def)
qed

lemma whisper_text_same: "same_agents c (snd (whisper_text_peers env target msg pes r c))"
proof (induction pes arbitrary: r c)
  case (Cons pe pes)
  show ?case using Cons.IH [of "emit (Zyre_Whispers (pe_peer_id pe) msg) c"] Cons.IH [of c]
    by (simp add: same_agents_def emit_def)
qed simp

lemma channels_ready:
  assumes "node_sound env"
  shows "keeps_ready (app_of env) (igs_channel_join (app_of env) ch)" "keeps_ready (app_of env) (igs_channel_leave (app_of env) ch)"
    "keeps_ready (app_of env) (igs_peer_add_header (app_of env) k v)" "keeps_ready (app_of env) (igs_peer_remove_header (app_of env) k)"
    "keeps_ready (app_of env) (igs_observe_channels (app_of env) cb d)" "keeps_ready (app_of env) (igs_observe_forced_stop (app_of env) cb d)"
  unfolding igs_channel_join_def igs_channel_leave_def igs_peer_add_header_def igs_peer_remove_header_def
    igs_observe_channels_def igs_observe_forced_stop_def
  by (rule core_frames_ready [OF assms],
      auto simp: bind_some_eqs split: if_splits elim!: locked_frames [rotated])+

lemma shouts_ready:
  assumes "node_sound env"
  shows "keeps_ready (app_of env) (igs_channel_shout_str (nodes env) ch s)" "keeps_ready (app_of env) (igs_channel_shout_data (nodes env) ch s)"
    "keeps_ready (app_of env) (igs_channel_shout_zmsg (nodes env) ch fs)"
proof -
  have "keeps_ready (app_of env) (channel_shout (nodes env) ch fs e)" for fs e
    unfolding channel_shout_def apps_nodes
    by (rule core_frames_ready [OF assms]) (auto split: if_splits elim!: locked_frames [rotated])
  then show "keeps_ready (app_of env) (igs_channel_shout_str (nodes env) ch s)" "keeps_ready (app_of env) (igs_channel_shout_data (nodes env) ch s)"
    "keeps_ready (app_of env) (igs_channel_shout_zmsg (nodes env) ch fs)"
    by (simp_all add: igs_channel_shout_str_def igs_channel_shout_data_def igs_channel_shout_zmsg_def)
qed

lemma whispers_ready:
  assumes "node_sound env"
  shows "keeps_ready (app_of env) (igs_channel_whisper_str (app_of env) target s)"
    "keeps_ready (app_of env) (igs_channel_whisper_data (app_of env) target s)"
proof -
  have str: "same_agents c c'" if "(do { ((sent, res), c) \<leftarrow> whisper_agents e target m ras x c;
            Some (if sent then (res, c) else whisper_text_peers e target m' (map snd (cx_zyre_peers c)) res c) }) = Some (r, c')"
    for e m ras x m' c r c'
  proof -
    from that obtain sent res c1 where w: "whisper_agents e target m ras x c = Some ((sent, res), c1)"
      and c': "(r, c') = (if sent then (res, c1) else whisper_text_peers e target m' (map snd (cx_zyre_peers c1)) res c1)"
      by (auto simp: bind_some_eqs)
    have "same_agents c1 c'" using c' whisper_text_same [of c1 e target m' "map snd (cx_zyre_peers c1)" res]
      by (cases sent) (auto simp: prod_eq_iff)
    with model_leaves_agents [OF whisper_agents_same [OF w]] show ?thesis by (rule same_agents_trans)
  qed
  have data: "same_agents c c'" if "(do { ((sent, res), c) \<leftarrow> whisper_agents e target m ras x c;
            Some (if sent then (res, c) else whisper_peers e target m (map snd (cx_zyre_peers c)) res c) }) = Some (r, c')"
    for e m ras x c r c'
  proof -
    from that obtain sent res c1 where w: "whisper_agents e target m ras x c = Some ((sent, res), c1)"
      and c': "(r, c') = (if sent then (res, c1) else whisper_peers e target m (map snd (cx_zyre_peers c1)) res c1)"
      by (auto simp: bind_some_eqs)
    have "same_model c1 c'" using c' [symmetric] by (cases sent) (auto intro: whisper_peers_same)
    with whisper_agents_same [OF w] show ?thesis by (blast intro: model_leaves_agents same_model_trans)
  qed
  show "keeps_ready (app_of env) (igs_channel_whisper_str (app_of env) target s)" unfolding igs_channel_whisper_str_def
    by (rule core_frames_ready [OF assms]) (auto split: if_splits elim!: locked_frames [rotated] intro: str)
  show "keeps_ready (app_of env) (igs_channel_whisper_data (app_of env) target s)" unfolding igs_channel_whisper_data_def
    by (rule core_frames_ready [OF assms]) (auto split: if_splits elim!: locked_frames [rotated] intro: data)
qed

text \<open>Questions to the context make sure of the default agent, too.\<close>

lemma questions_ready:
  assumes "node_sound env"
  shows "keeps_ready (app_of env) (igs_rt_time (app_of env))" "keeps_ready (app_of env) (igs_is_frozen (app_of env))"
    "keeps_ready (app_of env) (igs_log_file (nodes env))" "keeps_ready (app_of env) (igs_log_stream (nodes env))"
    "keeps_ready (app_of env) (igs_log_file_path (nodes env))"
  unfolding igs_rt_time_def igs_is_frozen_def igs_log_file_def igs_log_stream_def igs_log_file_path_def apps_nodes
  by (rule core_frames_ready [OF assms], auto simp: bind_some_eqs split: if_splits elim!: locked_frames [rotated])+

lemma load_definitions_keep:
  "(\<And>d. parser_load_definition (files nenv) s = Some (Some d) \<Longrightarrow> definition_wf d) \<Longrightarrow>
     preserves ctx_ok (igsagent_definition_load_str nenv p s)"
  "(\<And>d. parser_load_definition_from_path (files nenv) path = Some (Some d) \<Longrightarrow> definition_wf d) \<Longrightarrow>
     preserves ctx_ok (igsagent_definition_load_file nenv p path)"
  unfolding igsagent_definition_load_str_def igsagent_definition_load_file_def
  by (rule load_definition_keeps; auto simp: good_def agent_wf_def agent_mapping_ok_def)+

section \<open>The process\<close>

text \<open>
  Everything that happens to a context: the calls of \<open>api_step\<close>, the rest of the interface,
  and what the network actor does. A call that makes sure of the default agent has a fresh
  address for it, if it is not there yet.
\<close>

inductive node_step :: "peer_env \<Rightarrow> parse_env \<Rightarrow> igs_core \<Rightarrow> igs_core \<Rightarrow> bool" for env pe where
  api: "api_step (app_of env) pe c c' \<Longrightarrow> node_step env pe c c'"
| event: "core_ready (app_of env) c \<Longrightarrow> event_loads_well env ev \<Longrightarrow> s_manage_zyre_incoming env ev c = Some (r1, c') \<Longrightarrow>
    node_step env pe c c'"
| definition_timer: "s_trigger_definition_update env c = Some (r2, c') \<Longrightarrow> node_step env pe c c'"
| mapping_timer: "s_trigger_mapping_update env c = Some (r2, c') \<Longrightarrow> node_step env pe c c'"
| parent: "s_manage_parent (app_of env) msg c = Some (r1, c') \<Longrightarrow> node_step env pe c c'"
| loop_start: "s_run_loop_start c = Some c' \<Longrightarrow> node_step env pe c c'"
| loop_end: "s_run_loop_end env c = Some c' \<Longrightarrow> node_step env pe c c'"
| split_add: "igsagent_split_add (app_of env) p i ag x c = Some (r3, c') \<Longrightarrow> node_step env pe c c'"
| split_remove: "igsagent_split_remove_with_id (app_of env) p k c = Some (r4, c') \<Longrightarrow> node_step env pe c c'"
| split_remove_name: "igsagent_split_remove_with_name (app_of env) p i ag x c = Some (r4, c') \<Longrightarrow> node_step env pe c c'"
| load_definition: "(\<And>d. parser_load_definition (files (nodes env)) s = Some (Some d) \<Longrightarrow> definition_wf d) \<Longrightarrow>
    igsagent_definition_load_str (nodes env) p s c = Some (r4, c') \<Longrightarrow> node_step env pe c c'"
| load_definition_file: "(\<And>d. parser_load_definition_from_path (files (nodes env)) s = Some (Some d) \<Longrightarrow> definition_wf d) \<Longrightarrow>
    igsagent_definition_load_file (nodes env) p s c = Some (r4, c') \<Longrightarrow> node_step env pe c c'"
| save_definition: "igsagent_definition_save (nodes env) p c = Some (r2, c') \<Longrightarrow> node_step env pe c c'"
| save_mapping: "igsagent_mapping_save (nodes env) p c = Some (r2, c') \<Longrightarrow> node_step env pe c c'"
| set_time: "core_ready (app_of env) c \<Longrightarrow> igs_rt_set_time (app_of env) us c = Some (r2, c') \<Longrightarrow> node_step env pe c c'"
| get_time: "core_ready (app_of env) c \<Longrightarrow> igs_rt_time (app_of env) c = Some (r1, c') \<Longrightarrow> node_step env pe c c'"
| frozen: "core_ready (app_of env) c \<Longrightarrow> igs_is_frozen (app_of env) c = Some (r5, c') \<Longrightarrow> node_step env pe c c'"
| set_log_stream: "core_ready (app_of env) c \<Longrightarrow> igs_log_set_stream (nodes env) b c = Some (r2, c') \<Longrightarrow> node_step env pe c c'"
| set_log_file: "core_ready (app_of env) c \<Longrightarrow> igs_log_set_file (nodes env) b s' c = Some (r2, c') \<Longrightarrow> node_step env pe c c'"
| set_log_file_path: "core_ready (app_of env) c \<Longrightarrow> igs_log_set_file_path (nodes env) s' c = Some (r2, c') \<Longrightarrow> node_step env pe c c'"
| log_stream: "core_ready (app_of env) c \<Longrightarrow> igs_log_stream (nodes env) c = Some (r5, c') \<Longrightarrow> node_step env pe c c'"
| log_file: "core_ready (app_of env) c \<Longrightarrow> igs_log_file (nodes env) c = Some (r5, c') \<Longrightarrow> node_step env pe c c'"
| log_file_path: "core_ready (app_of env) c \<Longrightarrow> igs_log_file_path (nodes env) c = Some (r6, c') \<Longrightarrow> node_step env pe c c'"
| join: "core_ready (app_of env) c \<Longrightarrow> igs_channel_join (app_of env) ch c = Some (r4, c') \<Longrightarrow> node_step env pe c c'"
| leave: "core_ready (app_of env) c \<Longrightarrow> igs_channel_leave (app_of env) ch c = Some (r2, c') \<Longrightarrow> node_step env pe c c'"
| shout_str: "core_ready (app_of env) c \<Longrightarrow> igs_channel_shout_str (nodes env) ch s c = Some (r4, c') \<Longrightarrow> node_step env pe c c'"
| shout_data: "core_ready (app_of env) c \<Longrightarrow> igs_channel_shout_data (nodes env) ch s c = Some (r4, c') \<Longrightarrow> node_step env pe c c'"
| shout_zmsg: "core_ready (app_of env) c \<Longrightarrow> igs_channel_shout_zmsg (nodes env) ch fs c = Some (r4, c') \<Longrightarrow> node_step env pe c c'"
| whisper_str: "core_ready (app_of env) c \<Longrightarrow> igs_channel_whisper_str (app_of env) ch s c = Some (r4, c') \<Longrightarrow> node_step env pe c c'"
| whisper_data: "core_ready (app_of env) c \<Longrightarrow> igs_channel_whisper_data (app_of env) ch s c = Some (r4, c') \<Longrightarrow> node_step env pe c c'"
| whisper_zmsg: "igs_channel_whisper_zmsg e ch fs c = Some (r4, c') \<Longrightarrow> node_step env pe c c'"
| add_header: "core_ready (app_of env) c \<Longrightarrow> igs_peer_add_header (app_of env) key v c = Some (r4, c') \<Longrightarrow> node_step env pe c c'"
| remove_header: "core_ready (app_of env) c \<Longrightarrow> igs_peer_remove_header (app_of env) key c = Some (r4, c') \<Longrightarrow> node_step env pe c c'"
| observe_channels: "core_ready (app_of env) c \<Longrightarrow> igs_observe_channels (app_of env) cb d c = Some (r2, c') \<Longrightarrow> node_step env pe c c'"
| observe_stop: "core_ready (app_of env) c \<Longrightarrow> igs_observe_forced_stop (app_of env) cb d c = Some (r2, c') \<Longrightarrow> node_step env pe c c'"

inductive reachable :: "peer_env \<Rightarrow> parse_env \<Rightarrow> igs_core \<Rightarrow> igs_core \<Rightarrow> bool" for env pe c0 where
  start: "reachable env pe c0 c0"
| step: "reachable env pe c0 c \<Longrightarrow> node_step env pe c c' \<Longrightarrow> reachable env pe c0 c'"

lemma set_log_file_path_ready:
  "node_sound env \<Longrightarrow> keeps_ready (app_of env) (igs_log_set_file_path (nodes env) s)"
  using logs_ready(2) [of env _ s] unfolding igs_log_set_file_path_def keeps_ready_def by blast

lemma saves_keep: "preserves ctx_ok (igsagent_definition_save env p)" "preserves ctx_ok (igsagent_mapping_save env p)"
  unfolding igsagent_definition_save_def igsagent_mapping_save_def by (rule save_keeps)+

lemmas node_keeps = definition_update_keeps mapping_update_keeps parent_keeps

lemmas node_keeps_always = splits_keep saves_keep whisper_keeps

lemmas node_ready = logs_ready set_log_file_path_ready questions_ready channels_ready shouts_ready
  whispers_ready

lemma kept_ready: "op c = Some (r, c') \<Longrightarrow> core_ready env c \<Longrightarrow> ctx_ok c \<Longrightarrow> keeps_ready env op \<Longrightarrow> ctx_ok c'"
  by (rule keeps_readyD)

lemma node_step_keeps:
  assumes sound: "node_sound env" and "node_step env pe c c'" and ok: "ctx_ok c" shows "ctx_ok c'"
  using assms(2)
proof cases
  case api then show ?thesis by (rule step_preserves [OF node_soundD(1) [OF sound] _ ok])
next
  case event then show ?thesis using keeps_readyD [OF event_ready [OF sound] ok] by blast
next
  case loop_start then show ?thesis by (rule runsD [OF loop_start_keeps ok])
next
  case loop_end then show ?thesis by (rule runsD [OF loop_end_keeps [OF sound] ok])
next
  case load_definition then show ?thesis using preservesD [OF load_definitions_keep(1) ok] by blast
next
  case load_definition_file then show ?thesis using preservesD [OF load_definitions_keep(2) ok] by blast
next
  case set_time then show ?thesis using keeps_readyD [OF rt_set_time_ready [OF node_soundD(2) [OF sound]] ok] by blast
qed ((erule kept, rule ok, rule node_keeps [OF sound] node_keeps_always)
     | (erule kept_ready, assumption, rule ok, rule node_ready [OF sound]))+

lemma reachable_ok:
  assumes "node_sound env" and "reachable env pe c0 c" and "ctx_ok c0" shows "ctx_ok c"
  using assms(2) by induction (use assms(1,3) node_step_keeps in \<open>blast+\<close>)

end
