(* ===== verification/Igs_Network_Wire.thy ===== *)
theory Igs_Network_Wire
  imports Igs_Node_Reach Igs_Life Igs_Text
begin

text \<open>
  What the events of the network come to: what a peer is told of the agents of the process when
  it joins the private channel, how the mapping of an agent reaches the processes of its peers,
  and what is left of a peer when it exits.
\<close>

section \<open>A newcomer is told of the agents\<close>

definition introducible :: "igs_core \<Rightarrow> addr \<Rightarrow> bool" where
  "introducible c p \<longleftrightarrow> (case deref p c of
     None \<Rightarrow> False
   | Some a \<Rightarrow> ag_uuid a \<noteq> None \<and> ag_context a \<and> ag_mapping a \<noteq> None
       \<and> (case ag_definition a of None \<Rightarrow> False | Some d \<Rightarrow> df_name d \<noteq> None))"

text \<open>The messages on one agent: its definition and mapping for that peer, and its state.\<close>

definition introduction :: "igs_zyre_peer \<Rightarrow> igs_core \<Rightarrow> addr \<Rightarrow> string list list" where
  "introduction pe c p = (case deref p c of
     None \<Rightarrow> []
   | Some a \<Rightarrow> (let u = the (ag_uuid a); d = the (ag_definition a)
       in [[''EXTERNAL_DEFINITION#'', or_empty (definition_for pe d), u, the (df_name d)],
           [''EXTERNAL_MAPPING#'', or_empty (mapping_for pe (the (ag_mapping a))), u]] @ state_messages a u c))"

lemma emit_emit_all: "emit e (emit_all es c) = emit_all (es @ [e]) c" "emit_all es' (emit_all es c) = emit_all (es @ es') c"
  "emit_all [] c = c"
  by (simp_all add: emit_def emit_all_def)

lemma emit_all_frame [simp]: "deref p (emit_all es c) = deref p c" "cx_node (emit_all es c) = cx_node c"
  "state_messages a u (emit_all es c) = state_messages a u c" "cx_model_locked (emit_all es c) = cx_model_locked c"
  "cx_zyre_peers (emit_all es c) = cx_zyre_peers c"
  by (simp_all add: emit_all_def deref_def state_messages_def)

lemma sent_to_peer: "sent_to True peer = Zyre_Whisper peer"
  by (simp add: sent_to_def fun_eq_iff)

lemma introduce_agents_told:
  "list_all (introducible c) ps \<Longrightarrow> cx_node c \<Longrightarrow> introduce_agents pe peer ps (emit_all es c)
     = Some (emit_all (es @ map (Zyre_Whisper peer) (concat (map (introduction pe c) ps))) c)"
proof (induction ps arbitrary: es)
  case (Cons p ps)
  then obtain a u d n m where a: "deref p c = Some a" "ag_uuid a = Some u" "ag_context a" "ag_mapping a = Some m"
    "ag_definition a = Some d" "df_name d = Some n"
    by (auto simp: introducible_def split: option.splits)
  with Cons show ?case
    by (simp add: s_send_definition_to_zyre_peer_def s_send_mapping_to_zyre_peer_def s_send_state_to_def emit_emit_all
        introduction_def Let_def sent_to_peer)
qed simp

lemma introduction_lock [simp]: "introducible (c\<lparr> cx_model_locked := b \<rparr>) = introducible c"
  "introduction pe (c\<lparr> cx_model_locked := b \<rparr>) = introduction pe c"
  by (auto simp: introducible_def introduction_def state_messages_def deref_def fun_eq_iff Let_def split: option.split)

lemma join_tells:
  assumes "\<not> cx_model_locked c" and "ze_group ev = IGS_PRIVATE_CHANNEL"
    and "zh_lookup (cx_zyre_peers c) (ze_peer_uuid ev) = Some pe" and "cx_node c"
    and "list_all (introducible c) (map snd (cx_agents c))"
  shows "zyre_join ev c = Some (Carry_On, put_peer (ze_peer_uuid ev) (\<lambda>pe. pe\<lparr> pe_has_joined_private_channel := True \<rparr>)
    (emit_all (map (Zyre_Whisper (ze_peer_uuid ev)) (concat (map (introduction pe c) (map snd (cx_agents c))))) c))"
proof -
  let ?l = "c\<lparr> cx_model_locked := True \<rparr>" and ?es = "map (Zyre_Whisper (ze_peer_uuid ev)) (concat (map (introduction pe c) (map snd (cx_agents c))))"
  have "introduce_agents pe (ze_peer_uuid ev) (map snd (cx_agents c)) ?l = Some (emit_all ?es ?l)"
    using introduce_agents_told [of ?l "map snd (cx_agents c)" pe "ze_peer_uuid ev" "[]"] assms(4,5) by (simp add: emit_emit_all(3))
  moreover have "(emit_all es ?l)\<lparr> cx_model_locked := False \<rparr> = emit_all es c" for es using assms(1) by (cases c) (simp add: emit_all_def)
  ultimately show ?thesis using assms(1-3)
    by (simp add: zyre_join_def carry_def locked_def change_def model_lock_def model_unlock_def put_peer_def emit_all_def)
qed

section \<open>The mapping of an agent on the other side\<close>

lemma free_again: "\<not> cx_model_locked c \<Longrightarrow> c\<lparr> cx_model_locked := False \<rparr> = c"
  by (cases c) simp

lemma unlocked_propagate:
  assumes "telling env" and "ctx_ok c" and "\<not> cx_model_locked c"
  shows "\<exists>c'. unlocked (agent_LOCKED_propagate_agent_event env e (Some u) (Some n) x) (c\<lparr> cx_model_locked := True \<rparr>)
      = Some ((), c'\<lparr> cx_model_locked := True \<rparr>) \<and> same_model c c'"
proof -
  have st: "standing (cx_agents c) c" "distinct (map fst (cx_agents c))" using ctx_ok_standing [OF assms(2)] by auto
  obtain c' where "in_turn (tell env e u n x) (listeners u (cx_agents c) c) c = Some c'" and same: "same_model c c'"
    using in_turn_returns [of "tell env e u n x"] tell_returns [OF assms(1)] by blast
  then have p: "agent_LOCKED_propagate_agent_event env e (Some u) (Some n) x c = Some ((), c')"
    using propagate_result [OF assms(1,3) st, of e u n x] by simp
  have "unlocked (agent_LOCKED_propagate_agent_event env e (Some u) (Some n) x) (c\<lparr> cx_model_locked := True \<rparr>)
      = Some ((), c'\<lparr> cx_model_locked := True \<rparr>)"
    using p same_model_agents [OF same] assms(3) by (simp add: unlocked_def model_unlock_def model_lock_def free_again)
  with same show ?thesis by blast
qed

lemma takeWhile_no_nul: "CHR 0x00 \<notin> set s \<Longrightarrow> takeWhile (\<lambda>ch. ch \<noteq> CHR 0x00) s = s"
  by (auto simp: takeWhile_eq_all_conv)

lemma mapping_text_no_nul: "CHR 0x00 \<notin> set (mapping_text m)"
  using render_no_nul(1) [of 0 "mapping_tree m"] by (simp add: mapping_text_def no_nul_def newline_def)

lemma tell_mapping_told:
  assumes "telling (app_of env)" and "ctx_ok c" and "\<not> cx_model_locked c" and "ra_definition ra = Some d" and "df_name d = Some n"
  shows "\<exists>c'. tell_mapping env ra m s (c\<lparr> cx_model_locked := True \<rparr>) = Some ((), c'\<lparr> cx_model_locked := True \<rparr>)
    \<and> same_model (put_remote (ra\<lparr> ra_mapping := m \<rparr>) c) c'"
proof -
  let ?r = "put_remote (ra\<lparr> ra_mapping := m \<rparr>) c"
  have "same_agents c ?r" by simp
  then have "ctx_ok ?r" using assms(2) same_agents_ok by blast
  moreover have "\<not> cx_model_locked ?r" using assms(3) by (simp add: put_remote_def)
  moreover have "put_remote (ra\<lparr> ra_mapping := m \<rparr>) (c\<lparr> cx_model_locked := True \<rparr>) = ?r\<lparr> cx_model_locked := True \<rparr>"
    by (simp add: put_remote_def)
  ultimately show ?thesis using unlocked_propagate [OF assms(1), of ?r] assms(4,5) by (simp add: tell_mapping_def)
qed

lemma external_mapping_result:
  assumes "telling (app_of env)" and "ctx_ok c" and "\<not> cx_model_locked c"
    and "zh_lookup (cx_remote_agents c) u = Some ra" and "ra_definition ra = Some d" and "df_name d = Some n"
    and "mapping_wf m" and "mapping_clean m" and "mapping_utf8 m" and "no_nul u"
  shows "\<exists>c'. external_mapping env [mapping_text m, u] c = Some (Carry_On, c')
    \<and> same_model (put_remote (ra\<lparr> ra_mapping := Some (refreshed_mapping m) \<rparr>) c) c'"
proof -
  let ?l = "c\<lparr> cx_model_locked := True \<rparr>"
  have up: "mapping_update_json (m\<lparr> mg_json := None, mg_json_legacy := None \<rparr>) = Some (refreshed_mapping m)"
    by (simp add: mapping_update_json_result refreshed_mapping_def mapping_text_def mapping_tree_def legacy_mapping_tree_def)
  have ne: "mapping_text m \<noteq> []" by (simp add: mapping_text_def newline_def)
  obtain c' where c': "tell_mapping env ra (Some (refreshed_mapping m)) (Some (mapping_text m)) ?l = Some ((), c'\<lparr> cx_model_locked := True \<rparr>)"
    and same: "same_model (put_remote (ra\<lparr> ra_mapping := Some (refreshed_mapping m) \<rparr>) c) c'"
    using tell_mapping_told [OF assms(1-3,5,6)] by blast
  have "external_mapping_body env ra (mapping_text m) ?l = Some ((), c'\<lparr> cx_model_locked := True \<rparr>)"
    using load_mapping_text [OF assms(7-9)] up ne c' by (simp add: external_mapping_body_def)
  moreover have "c'\<lparr> cx_model_locked := False \<rparr> = c'"
    using same_model_agents [OF same] assms(3) by (intro free_again) (simp add: put_remote_def)
  moreover have "popstr [mapping_text m, u] = Some (mapping_text m, [u])" "popstr [u] = Some (u, [])"
    using takeWhile_no_nul [OF mapping_text_no_nul] takeWhile_no_nul [of u] assms(10) by (simp_all add: popstr_def no_nul_def)
  ultimately have "external_mapping env [mapping_text m, u] c = Some (Carry_On, c')"
    using assms(3,4) by (simp add: external_mapping_def popped_def locked_def model_lock_def model_unlock_def carry_def)
  with same show ?thesis by blast
qed

lemma whisper_external_mapping: "ze_msg ev = ''EXTERNAL_MAPPING#'' # r \<Longrightarrow> zyre_whisper env ev = external_mapping env r"
  by (simp add: zyre_whisper_def popped_def popstr_def whisper_handlers_def fun_eq_iff)

lemma mapping_sent_and_received:
  assumes "ag_uuid a = Some u" and "ag_mapping a = Some m" and "ag_context a" and "cx_node s" and "pe_protocol pe \<noteq> Some ''v2''"
    and "agent_mapping_ok a" and "mapping_clean m" and "mapping_utf8 m" and "no_nul u"
    and "s_send_mapping_to_zyre_peer a peer (or_empty (mapping_for pe m)) s = emit (Zyre_Whisper peer (ze_msg ev)) s"
    and "telling (app_of env)" and "ctx_ok c" and "\<not> cx_model_locked c"
    and "zh_lookup (cx_remote_agents c) u = Some ra" and "ra_uuid ra = u" and "ra_definition ra = Some d" and "df_name d = Some n"
  shows "\<exists>c'. zyre_whisper env ev c = Some (Carry_On, c')
    \<and> zh_lookup (cx_remote_agents c') u = Some (ra\<lparr> ra_mapping := Some (refreshed_mapping m) \<rparr>)
    \<and> (\<forall>v. v \<noteq> u \<longrightarrow> zh_lookup (cx_remote_agents c') v = zh_lookup (cx_remote_agents c) v)
    \<and> cx_store c' = cx_store c \<and> cx_agents c' = cx_agents c \<and> \<not> cx_model_locked c'"
proof -
  have m: "mapping_wf m" "mg_json m = Some (mapping_text m)" using assms(2,6) by (simp_all add: agent_mapping_ok_def)
  have msg: "ze_msg ev = [''EXTERNAL_MAPPING#'', mapping_text m, u]"
    using arg_cong [OF assms(10), of cx_events] assms(1,3-5) m(2)
    by (simp add: s_send_mapping_to_zyre_peer_def emit_def mapping_for_def or_empty_def)
  obtain c' where c': "external_mapping env [mapping_text m, u] c = Some (Carry_On, c')"
    and same: "same_model (put_remote (ra\<lparr> ra_mapping := Some (refreshed_mapping m) \<rparr>) c) c'"
    using external_mapping_result [OF assms(11-14,16,17) m(1) assms(7-9)] by blast
  show ?thesis
    using c' same_model_agents [OF same] assms(13-15) by (auto simp: whisper_external_mapping [OF msg] put_remote_def table_simps)
qed

section \<open>What is left of a peer that exits\<close>

definition of_peer :: "string \<Rightarrow> string \<times> igs_remote_agent \<Rightarrow> bool" where
  "of_peer peer e \<longleftrightarrow> pe_peer_id (ra_peer (snd e)) = peer"

text \<open>Subscriptions are there only if there is a subscriber.\<close>

definition subscribed_ok :: "igs_core \<Rightarrow> bool" where
  "subscribed_ok c \<longleftrightarrow> list_all (\<lambda>(u, ra). ra_mapping_filters ra = [] \<or> pe_subscriber (ra_peer ra)) (cx_remote_agents c)"

definition departed :: "(string \<times> igs_remote_agent) list \<Rightarrow> igs_core \<Rightarrow> igs_core \<Rightarrow> bool" where
  "departed ras c c' \<longleftrightarrow> cx_remote_agents c' = ras \<and> cx_store c' = cx_store c \<and> cx_agents c' = cx_agents c
     \<and> cx_created_agents c' = cx_created_agents c \<and> cx_zyre_peers c' = cx_zyre_peers c \<and> \<not> cx_model_locked c'"

lemma departed_ok: "departed ras c c' \<Longrightarrow> ctx_ok c' = ctx_ok c"
  by (rule same_agents_ok) (simp add: departed_def same_agents_def)

lemma departed_trans: "departed ras c c' \<Longrightarrow> departed ras' c' c'' \<Longrightarrow> departed ras' c c''"
  by (simp add: departed_def)

lemma same_model_peers: "same_model c c' \<Longrightarrow> cx_zyre_peers c' = cx_zyre_peers c"
  by (auto simp: same_model_def)

lemma remove_worker_remotes [simp]: "cx_remote_agents (split_remove_worker u i c) = cx_remote_agents c"
  by (simp add: split_remove_worker_def)

lemma remote_exits_result:
  assumes "telling (app_of env)" and "ctx_ok c" and "\<not> cx_model_locked c"
    and "ra_definition ra = Some d" and "df_name d = Some n" and "ra_mapping_filters ra = [] \<or> pe_subscriber (ra_peer ra)"
  shows "\<exists>c'. remote_exits env ra (c\<lparr> cx_model_locked := True \<rparr>) = Some ((), c'\<lparr> cx_model_locked := True \<rparr>)
    \<and> departed (zh_delete (ra_uuid ra) (cx_remote_agents c)) c c'"
proof -
  let ?es = "map (Zsock_Unsubscribe (pe_peer_id (ra_peer ra))) (ra_mapping_filters ra)
    @ (if ra_shall_send_outputs_request ra then [Outputs_Request_Timer_End (ra_uuid ra)] else [])"
  let ?c = "emit_all ?es ((split_remove_worker (ra_uuid ra) None c)\<lparr> cx_remote_agents := zh_delete (ra_uuid ra) (cx_remote_agents c) \<rparr>)"
  have d: "departed (zh_delete (ra_uuid ra) (cx_remote_agents c)) c ?c"
    using assms(3) by (simp add: departed_def emit_all_def split_remove_worker_def)
  have e: "emit_all ?es ((split_remove_worker (ra_uuid ra) None (c\<lparr> cx_model_locked := True \<rparr>))\<lparr> cx_remote_agents :=
      zh_delete (ra_uuid ra) (cx_remote_agents c) \<rparr>) = ?c\<lparr> cx_model_locked := True \<rparr>"
    by (simp add: emit_all_def split_remove_worker_def)
  have ok: "ctx_ok ?c" "\<not> cx_model_locked ?c" using departed_ok [OF d] assms(2) d unfolding departed_def by blast+
  obtain c' where c': "unlocked (agent_LOCKED_propagate_agent_event (app_of env) IGS_AGENT_EXITED (Some (ra_uuid ra)) (Some n) None)
      (?c\<lparr> cx_model_locked := True \<rparr>) = Some ((), c'\<lparr> cx_model_locked := True \<rparr>)" and same: "same_model ?c c'"
    using unlocked_propagate [OF assms(1) ok] by blast
  have "remote_exits env ra (c\<lparr> cx_model_locked := True \<rparr>) = Some ((), c'\<lparr> cx_model_locked := True \<rparr>)"
    using c' e assms(4-6) by (cases "ra_shall_send_outputs_request ra")
      (simp_all add: remote_exits_def s_clean_and_free_remote_agent_def Let_def)
  moreover have "departed (zh_delete (ra_uuid ra) (cx_remote_agents c)) c c'"
    using d same_model_agents [OF same] same_model_peers [OF same] by (simp add: departed_def)
  ultimately show ?thesis by blast
qed

lemma zh_delete_middle: "zh_wf (xs @ (u, v) # ys) \<Longrightarrow> zh_delete u (xs @ (u, v) # ys) = xs @ ys"
proof -
  assume "zh_wf (xs @ (u, v) # ys)"
  then have "u \<notin> fst ` set xs" "u \<notin> fst ` set ys" by (auto simp: zh_wf_def)
  then have "filter (\<lambda>e. fst e \<noteq> u) xs = xs" "filter (\<lambda>e. fst e \<noteq> u) ys = ys" by (auto intro!: filter_True)
  then show ?thesis by (simp add: zh_delete_def)
qed

text \<open>The loop goes over the uuids that the table had when it began.\<close>

lemma remotes_exit_result:
  assumes "telling (app_of env)"
  shows "ctx_ok c \<Longrightarrow> \<not> cx_model_locked c \<Longrightarrow> remotes_ok c \<Longrightarrow> subscribed_ok c \<Longrightarrow>
    cx_remote_agents c = filter (\<lambda>e. \<not> of_peer peer e) xs @ ys \<Longrightarrow>
    \<exists>c'. remotes_exit env peer (map fst ys) (c\<lparr> cx_model_locked := True \<rparr>) = Some (c'\<lparr> cx_model_locked := True \<rparr>)
      \<and> departed (filter (\<lambda>e. \<not> of_peer peer e) (xs @ ys)) c c'"
proof (induction ys arbitrary: xs c)
  case Nil
  then show ?case by (auto simp: departed_def intro!: exI [of _ c])
next
  case (Cons y ys)
  obtain u ra where y: "y = (u, ra)" by (cases y)
  have wf: "zh_wf (cx_remote_agents c)" and ra: "ra_uuid ra = u" "named (ra_definition ra)"
    and sub: "ra_mapping_filters ra = [] \<or> pe_subscriber (ra_peer ra)"
    using Cons.prems(3-5) y by (auto simp: remotes_ok_def subscribed_ok_def)
  have look: "zh_lookup (cx_remote_agents c) u = Some ra"
    using wf Cons.prems(5) y by (intro zh_lookup_wf) auto
  show ?case
  proof (cases "of_peer peer y")
    case True
    obtain d n j where d: "ra_definition ra = Some d" "df_name d = Some n" using ra(2) by (rule namedE)
    obtain c1 where c1: "remote_exits env ra (c\<lparr> cx_model_locked := True \<rparr>) = Some ((), c1\<lparr> cx_model_locked := True \<rparr>)"
      and dep: "departed (zh_delete u (cx_remote_agents c)) c c1"
      using remote_exits_result [OF assms Cons.prems(1,2) d sub] ra(1) by blast
    have del: "zh_delete u (cx_remote_agents c) = filter (\<lambda>e. \<not> of_peer peer e) xs @ ys"
      using wf unfolding Cons.prems(5) y by (rule zh_delete_middle)
    have r: "cx_remote_agents c1 = filter (\<lambda>e. \<not> of_peer peer e) xs @ ys" "\<not> cx_model_locked c1"
      using dep del by (simp_all add: departed_def)
    have "set (cx_remote_agents c1) \<subseteq> set (cx_remote_agents c)" using r(1) Cons.prems(5) by auto
    moreover have "zh_wf (cx_remote_agents c1)" using dep wf by (simp add: departed_def zh_wf_delete)
    ultimately have "remotes_ok c1" "subscribed_ok c1" using Cons.prems(3,4) by (auto simp: remotes_ok_def subscribed_ok_def list_all_iff)
    moreover have "ctx_ok c1" using Cons.prems(1) departed_ok [OF dep] by simp
    ultimately obtain c' where c': "remotes_exit env peer (map fst ys) (c1\<lparr> cx_model_locked := True \<rparr>) = Some (c'\<lparr> cx_model_locked := True \<rparr>)"
      "departed (filter (\<lambda>e. \<not> of_peer peer e) (xs @ ys)) c1 c'"
      using Cons.IH [of c1 xs] r by blast
    have "departed (filter (\<lambda>e. \<not> of_peer peer e) (xs @ y # ys)) c c'" using departed_trans [OF dep c'(2)] True by simp
    then show ?thesis using c1 c'(1) look True y by (auto simp: of_peer_def)
  next
    case False
    then have "cx_remote_agents c = filter (\<lambda>e. \<not> of_peer peer e) (xs @ [y]) @ ys" using Cons.prems(5) by simp
    from Cons.IH [OF Cons.prems(1-4) this] obtain c' where
      "remotes_exit env peer (map fst ys) (c\<lparr> cx_model_locked := True \<rparr>) = Some (c'\<lparr> cx_model_locked := True \<rparr>)"
      "departed (filter (\<lambda>e. \<not> of_peer peer e) (xs @ y # ys)) c c'" by auto
    then show ?thesis using look False y by (auto simp: of_peer_def)
  qed
qed

lemma exit_result:
  assumes "telling (app_of env)" and "ctx_ok c" and "\<not> cx_model_locked c" and "remotes_ok c" and "subscribed_ok c"
    and "zh_lookup (cx_zyre_peers c) (ze_peer_uuid ev) = Some pe" and "pe_peer_id pe = ze_peer_uuid ev" and "pe_reconnected pe = 0"
  shows "\<exists>c'. zyre_exit env ev c = Some (Carry_On, c')
    \<and> cx_remote_agents c' = filter (\<lambda>e. \<not> of_peer (ze_peer_uuid ev) e) (cx_remote_agents c)
    \<and> cx_zyre_peers c' = zh_delete (ze_peer_uuid ev) (cx_zyre_peers c)
    \<and> cx_store c' = cx_store c \<and> cx_agents c' = cx_agents c \<and> cx_created_agents c' = cx_created_agents c \<and> \<not> cx_model_locked c'"
proof -
  let ?rest = "filter (\<lambda>e. \<not> of_peer (ze_peer_uuid ev) e) (cx_remote_agents c)"
  obtain c1 where c1: "remotes_exit env (ze_peer_uuid ev) (map fst (cx_remote_agents c)) (c\<lparr> cx_model_locked := True \<rparr>)
      = Some (c1\<lparr> cx_model_locked := True \<rparr>)" and dep: "departed ?rest c c1"
    using remotes_exit_result [OF assms(1-5), of "ze_peer_uuid ev" "[]" "cx_remote_agents c"] by auto
  let ?c = "s_clean_and_free_zyre_peer pe (c1\<lparr> cx_zyre_peers := zh_delete (ze_peer_uuid ev) (cx_zyre_peers c1) \<rparr>)"
  have frame: "cx_remote_agents ?c = ?rest" "cx_zyre_peers ?c = zh_delete (ze_peer_uuid ev) (cx_zyre_peers c)"
    "cx_store ?c = cx_store c" "cx_agents ?c = cx_agents c" "cx_created_agents ?c = cx_created_agents c" "\<not> cx_model_locked ?c"
    using dep by (simp_all add: departed_def s_clean_and_free_zyre_peer_def emit_def)
  have "ctx_ok ?c = ctx_ok c" by (rule same_agents_ok) (simp add: same_agents_def frame)
  then obtain c2 where c2: "unlocked (agent_LOCKED_propagate_agent_event (app_of env) IGS_PEER_EXITED (Some (ze_peer_uuid ev))
      (Some (ze_peer_name ev)) None) (?c\<lparr> cx_model_locked := True \<rparr>) = Some ((), c2\<lparr> cx_model_locked := True \<rparr>)"
    and same: "same_model ?c c2"
    using unlocked_propagate [OF assms(1) _ frame(6)] assms(2) by blast
  have e: "s_clean_and_free_zyre_peer pe (c1\<lparr> cx_model_locked := True, cx_zyre_peers := zh_delete (ze_peer_uuid ev) (cx_zyre_peers c1) \<rparr>)
      = ?c\<lparr> cx_model_locked := True \<rparr>"
    by (simp add: s_clean_and_free_zyre_peer_def emit_def)
  have k: "cx_remote_agents c2 = ?rest" "cx_zyre_peers c2 = zh_delete (ze_peer_uuid ev) (cx_zyre_peers c)"
    "cx_store c2 = cx_store c" "cx_agents c2 = cx_agents c" "cx_created_agents c2 = cx_created_agents c" "\<not> cx_model_locked c2"
    using same_model_agents [OF same] same_model_peers [OF same] frame by simp_all
  have "zyre_exit env ev c = Some (Carry_On, c2)"
    using c1 c2 e assms(3,6-8) k(6) by (simp add: zyre_exit_def carry_def locked_def model_lock_def model_unlock_def free_again)
  with k show ?thesis by blast
qed

end
