(* ===== verification/Igs_Example.thy ===== *)
theory Igs_Example
  imports Igs_Mapping_Api Igs_Parser_Laws Igs_Service_Laws Igs_Life Igs_Text Igs_Network_Wire
begin

text \<open>
  A small concrete state, the one the witnesses of the properties are evaluated
  on: one agent with an empty definition and an empty mapping, on a started
  context; and an environment whose regular expressions are compared literally.
\<close>

definition example_env :: igs_env where
  "example_env = \<lparr> zrex_hits = (\<lambda>e s. if e = s then Some [s] else None), zrex_valid = (\<lambda>e. True) \<rparr>"

definition example_parse_env :: parse_env where
  "example_parse_env = \<lparr> zrex_hits = (\<lambda>e s. if e = s then Some [s] else None), zrex_valid = (\<lambda>e. True),
     read_file = (\<lambda>path. None) \<rparr>"

definition example_definition :: igs_definition where
  "example_definition = empty_definition\<lparr> df_name := Some ''alice'' \<rparr>"

definition example_mapping :: igs_mapping where
  "example_mapping = empty_mapping\<lparr> mg_json := Some (mapping_text empty_mapping) \<rparr>"

definition example_agent :: igs_agent where
  "example_agent = \<lparr> ag_uuid = Some ''u1'', ag_state = None, ag_is_virtual = False, ag_context = True,
     ag_igs_channel = Some ''alice-IGS'', ag_activate_callbacks = [], ag_agent_event_callbacks = [], ag_enforce_constraints = True, ag_definition_path = None,
     ag_definition = Some example_definition, ag_mapping_path = None, ag_mapping = Some example_mapping,
     ag_rt_timestamps_enabled = False, ag_rt_current_timestamp = 0, ag_rt_synchronous_mode = False,
     ag_need_definition_update = False, ag_need_mapping_update = False, ag_request_outputs = False,
     ag_activation_during_runtime = False, ag_is_whole_agent_muted = False, ag_mute_callbacks = [], ag_elections = None \<rparr>"

definition example_network :: igs_network where
  "example_network = \<lparr> nt_ip_address = ''192.168.0.2'', nt_process_id = 7, nt_pid_namespace = 0, nt_allow_ipc = True,
     nt_allow_inproc = True, nt_security = False, nt_replay_channel = ''us-IGS-REPLAY'', nt_peer_headers = [], nt_zyre_callbacks = [],
     nt_external_stop = False, nt_external_stop_callbacks = [], nt_log_in_stream = False, nt_log_in_file = False, nt_log_file_path = [], nt_log_file = False,
     nt_performance_msg_counter = 0, nt_performance_msg_count_target = 0, nt_core_agent = None \<rparr>"

definition example_core :: igs_core where
  "example_core = \<lparr> cx_model_locked = False, cx_store = (\<lambda>p. if p = 1 then Some example_agent else None),
     cx_created_agents = [(''u1'', 1)], cx_agents = [(''u1'', 1)], cx_remote_agents = [], cx_zyre_peers = [], cx_splitters = [], cx_node = True,
     cx_network_actor = True, cx_publisher = True, cx_ipc_publisher = False, cx_inproc_publisher = False,
     cx_is_frozen = False, cx_freeze_callbacks = [], cx_elections = [], cx_rt_current_microseconds = 0, cx_network = example_network, cx_events = [] \<rparr>"

lemma example_simps [simp]:
  "cx_model_locked example_core = False" "deref 1 example_core = Some example_agent"
  "deref (Suc 0) example_core = Some example_agent"
  "ag_uuid example_agent = Some ''u1''" "ag_definition example_agent = Some example_definition"
  "ag_mapping example_agent = Some example_mapping" "ag_enforce_constraints example_agent"
  by (simp_all add: example_core_def example_agent_def deref_def)

lemma example_agent_wf [simp]: "agent_wf example_agent"
  by (auto simp: agent_wf_def example_definition_def empty_definition_def definition_wf_def ios_ok_def
      services_ok_def io_names_def io_table_def)

lemma example_mapping_wf [simp]: "agent_mapping_ok example_agent"
  by (simp add: agent_mapping_ok_def example_mapping_def empty_mapping_def mapping_wf_def mapping_text_def
      mapping_tree_def)

lemma example_ios [simp]: "ios_of t example_agent = (\<lambda>n. None)" "names_of t example_agent = []"
  by (cases t; simp add: ios_of_def names_of_def model_find_io_by_name_def example_definition_def empty_definition_def
      io_table_def io_names_def zh_lookup_def fun_eq_iff)+

lemma example_wf [simp]: "all_agents agent_wf example_core" "all_agents agent_mapping_ok example_core"
  by (simp_all add: all_agents_def example_core_def deref_def)

section \<open>Callbacks that do nothing, and a wire form of messages\<close>

text \<open>Each byte of a frame follows a mark; a frame ends with a NUL in place of the mark.\<close>

definition encode_frames :: "string list \<Rightarrow> string" where
  "encode_frames fs = concat (map (\<lambda>f. concat (map (\<lambda>ch. [CHR ''x'', ch]) f) @ [CHR 0x00]) fs)"

fun decode_frames :: "string \<Rightarrow> string \<Rightarrow> string list option" where
  "decode_frames acc [] = (if acc = [] then Some [] else None)"
| "decode_frames acc (m # r) =
     (if m = CHR 0x00 then map_option (Cons (rev acc)) (decode_frames [] r)
      else case r of [] \<Rightarrow> None | ch # r \<Rightarrow> decode_frames (ch # acc) r)"

lemma decode_frame: "decode_frames acc (concat (map (\<lambda>ch. [CHR ''x'', ch]) f) @ CHR 0x00 # r)
    = map_option (Cons (rev acc @ f)) (decode_frames [] r)"
  by (induction f arbitrary: acc) simp_all

lemma decode_encode_frames [simp]: "decode_frames [] (encode_frames fs) = Some fs"
  by (induction fs) (simp_all add: encode_frames_def decode_frame)

definition example_app_env :: app_env where
  "example_app_env = \<lparr> zrex_hits = (\<lambda>e s. if e = s then Some [s] else None), zrex_valid = (\<lambda>e. True),
     zyre_whisper_ok = (\<lambda>p m. True), strdup_address = (\<lambda>s c. 0x7F0010), zmsg_encode = encode_frames,
     zsock_send_ok = (\<lambda>e. True), clock_us = 1000, zmsg_decode = decode_frames [],
     call_io = (\<lambda>f p t n vt v sz d c. Some c), call_service = (\<lambda>f p n u s as k tok d c. Some c),
     call_event = (\<lambda>f p e u n x d c. Some c), call_activate = (\<lambda>f p b d c. Some c), call_freeze = (\<lambda>f b d c. Some c), call_mute = (\<lambda>f p b d c. Some c),
     zuuid_new = (\<lambda>c. ''u2''), zmalloc_agent = (\<lambda>c. 2), zlist_cursor = (\<lambda>p i c c'. Suc i) \<rparr>"

lemma example_app_env_simps [simp]:
  "zmsg_encode example_app_env = encode_frames" "zmsg_decode example_app_env = decode_frames []"
  "call_io example_app_env f p t n vt v sz d c = Some c" "call_service example_app_env f p n' u s as k tok d c = Some c"
  "zlist_cursor example_app_env p i c c' = Suc i"
  by (simp_all add: example_app_env_def)

lemma example_observing [simp]: "observing example_app_env" "quiet example_app_env"
  by (simp_all add: observing_def quiet_def)

lemma example_callbacks_keep: "callbacks_keep example_app_env P"
  by (simp add: callbacks_keep_def example_app_env_def keeps_def)

section \<open>An agent with an output, an input and a mapping\<close>

definition counter :: "igs_io_type \<Rightarrow> string \<Rightarrow> i32 \<Rightarrow> igs_io" where
  "counter t name i = set_int i (new_io name t IGS_INTEGER_T)"

definition busy_definition :: igs_definition where
  "busy_definition = put_ios IGS_INPUT_T ([''in''], [(''in'', counter IGS_INPUT_T ''in'' 0)])
     (put_ios IGS_OUTPUT_T ([''out''], [(''out'', counter IGS_OUTPUT_T ''out'' 5)]) example_definition)"

definition busy_mapping :: igs_mapping where
  "busy_mapping = (let m = empty_mapping\<lparr> mg_map_elements := [new_map ''in'' ''bob'' ''out''] \<rparr>
                   in m\<lparr> mg_json := Some (mapping_text m) \<rparr>)"

definition busy_agent :: igs_agent where
  "busy_agent = example_agent\<lparr> ag_definition := Some busy_definition, ag_mapping := Some busy_mapping \<rparr>"

definition busy_core :: igs_core where
  "busy_core = store 1 busy_agent example_core"

lemma busy_simps [simp]:
  "cx_model_locked busy_core = False" "deref 1 busy_core = Some busy_agent" "deref (Suc 0) busy_core = Some busy_agent"
  "cx_agents busy_core = [(''u1'', 1)]" "cx_network_actor busy_core" "cx_publisher busy_core" "\<not> cx_ipc_publisher busy_core"
  "\<not> cx_inproc_publisher busy_core" "cx_events busy_core = []" "cx_is_frozen busy_core = False" "cx_splitters busy_core = []"
  "ag_uuid busy_agent = Some ''u1''" "ag_definition busy_agent = Some busy_definition" "ag_mapping busy_agent = Some busy_mapping"
  "ag_enforce_constraints busy_agent" "ag_context busy_agent" "\<not> ag_is_whole_agent_muted busy_agent"
  "\<not> ag_rt_timestamps_enabled busy_agent" "\<not> ag_rt_synchronous_mode busy_agent" "df_name busy_definition = Some ''alice''"
  by (simp_all add: busy_core_def busy_agent_def example_core_def example_agent_def store_def deref_def busy_definition_def
      put_ios_def set_ios_def example_definition_def)

lemma counter_simps [simp]:
  "io_value_type (counter t n i) = IGS_INTEGER_T" "io_callbacks (counter t n i) = []" "io_name (counter t n i) = n"
  "io_constraint (counter t n i) = None" "\<not> io_is_muted (counter t n i)" "io_type (counter t n i) = t" "io_i (counter t n i) = i"
  by (simp_all add: counter_def set_int_def new_io_def)

lemma counter_wf [simp]: "io_wf (counter t n i)"
  by (simp add: counter_def set_wf)

lemma busy_ios [simp]:
  "ios_of IGS_INPUT_T busy_agent = [''in'' \<mapsto> counter IGS_INPUT_T ''in'' 0]"
  "ios_of IGS_OUTPUT_T busy_agent = [''out'' \<mapsto> counter IGS_OUTPUT_T ''out'' 5]"
  by (simp_all add: ios_of_def model_find_io_by_name_def fun_eq_iff zh_lookup_def)
    (simp_all add: busy_definition_def put_ios_def set_ios_def io_table_def)

lemma busy_agent_wf [simp]: "agent_wf busy_agent"
  by (auto simp: agent_wf_def busy_definition_def put_ios_def set_ios_def example_definition_def empty_definition_def
      definition_wf_def ios_ok_def services_ok_def io_names_def io_table_def registered_def zh_wf_def split: igs_io_type.splits)

lemma busy_mapping_ok [simp]: "agent_mapping_ok busy_agent"
  by (simp add: agent_mapping_ok_def busy_mapping_def Let_def mapping_wf_def keyed_def new_map_def empty_mapping_def
      mapping_text_def mapping_tree_def)

lemma busy_links [simp]: "links busy_agent = {(''in'', ''bob'', ''out'')}"
  by (simp add: links_def busy_mapping_def Let_def map_parts_def new_map_def)

lemma busy_feeding [simp]: "feeding [(''u1'', 1)] busy_core" "feeding [(''u1'', Suc 0)] busy_core"
  by (simp_all add: feeding_def fed_def)

text \<open>The same agent with an observer on its output; the function of the observer takes a note.\<close>

definition noting_env :: app_env where
  "noting_env = example_app_env\<lparr> call_io := (\<lambda>f p t n vt v sz d c. Some (emit (Zyre_Shouts ''seen'' n) c)) \<rparr>"

definition watched_output :: "i32 \<Rightarrow> igs_io" where
  "watched_output i = (counter IGS_OUTPUT_T ''out'' i)\<lparr> io_callbacks := [\<lparr> cb_ptr = 7, cb_my_data = 0 \<rparr>] \<rparr>"

definition watched_agent :: igs_agent where
  "watched_agent = busy_agent\<lparr> ag_definition := Some (put_ios IGS_OUTPUT_T ([''out''], [(''out'', watched_output 5)]) busy_definition) \<rparr>"

definition watched_core :: igs_core where
  "watched_core = store 1 watched_agent example_core"

lemma noting_quiet [simp]: "quiet noting_env"
  by (auto simp: quiet_def noting_env_def emit_def)

lemma watched_output_simps [simp]:
  "io_value_type (watched_output i) = IGS_INTEGER_T" "io_callbacks (watched_output i) = [\<lparr> cb_ptr = 7, cb_my_data = 0 \<rparr>]"
  "io_name (watched_output i) = ''out''" "io_constraint (watched_output i) = None" "\<not> io_is_muted (watched_output i)"
  "io_type (watched_output i) = IGS_OUTPUT_T" "io_i (watched_output i) = i" "io_wf (watched_output i)"
  "set_int j (watched_output i) = watched_output j"
  by (simp_all add: watched_output_def counter_def set_int_def new_io_def io_wf_def sizeofs Let_def)

lemma watched_simps [simp]:
  "cx_model_locked watched_core = False" "deref 1 watched_core = Some watched_agent" "deref (Suc 0) watched_core = Some watched_agent"
  "cx_agents watched_core = [(''u1'', 1)]" "cx_network_actor watched_core" "cx_publisher watched_core" "\<not> cx_ipc_publisher watched_core"
  "\<not> cx_inproc_publisher watched_core" "cx_events watched_core = []" "cx_is_frozen watched_core = False" "cx_splitters watched_core = []"
  "ag_uuid watched_agent = Some ''u1''" "ag_enforce_constraints watched_agent" "ag_context watched_agent"
  "\<not> ag_is_whole_agent_muted watched_agent" "\<not> ag_rt_timestamps_enabled watched_agent" "\<not> ag_rt_synchronous_mode watched_agent"
  "ios_of IGS_OUTPUT_T watched_agent = [''out'' \<mapsto> watched_output 5]"
  using busy_simps
  by (simp_all add: watched_core_def watched_agent_def example_core_def store_def deref_def)
    (simp add: ios_of_def model_find_io_by_name_def fun_eq_iff zh_lookup_def put_ios_def set_ios_def io_table_def)

lemma watched_agent_wf [simp]: "agent_wf watched_agent"
  by (auto simp: agent_wf_def watched_agent_def busy_definition_def put_ios_def set_ios_def example_definition_def empty_definition_def
      definition_wf_def ios_ok_def services_ok_def io_names_def io_table_def registered_def zh_wf_def split: igs_io_type.splits)

text \<open>Splitters: one with a queued string and a worker, and one of the output above with a worker.\<close>

definition string_work :: "string \<Rightarrow> igs_queued_work" where
  "string_work s = \<lparr> qw_value_type = IGS_STRING_T, qw_i = 0, qw_d = 0, qw_s = Some (wr_cstr s), qw_s_address = 0x7F0010,
     qw_b = False, qw_data = None, qw_value_size = length s + 1 \<rparr>"

definition string_splitter :: "string \<Rightarrow> igs_splitter" where
  "string_splitter s = \<lparr> sl_agent_uuid = ''u1'', sl_output_name = ''o'', sl_workers = [new_worker ''w'' ''in'' 1 0],
     sl_queued_works = [string_work s] \<rparr>"

lemma string_splitter_simps [simp]:
  "sl_agent_uuid (string_splitter s) = ''u1''" "sl_output_name (string_splitter s) = ''o''"
  "sl_workers (string_splitter s) = [new_worker ''w'' ''in'' 1 0]" "sl_queued_works (string_splitter s) = [string_work s]"
  "qw_s (string_work s) = Some (wr_cstr s)" "qw_s_address (string_work s) = 0x7F0010" "qw_value_size (string_work s) = length s + 1"
  "wk_credit (new_worker ag x k n) = k"
  by (simp_all add: string_splitter_def string_work_def new_worker_def)

lemma le_bytes_steps:
  "le_bytes 8 n = char_of (n mod 256) # le_bytes 7 (n div 256)" "le_bytes 7 n = char_of (n mod 256) # le_bytes 6 (n div 256)"
  "le_bytes 6 n = char_of (n mod 256) # le_bytes 5 (n div 256)" "le_bytes 5 n = char_of (n mod 256) # le_bytes 4 (n div 256)"
  using le_bytes.simps(2) [of 7 n] le_bytes.simps(2) [of 6 n] le_bytes.simps(2) [of 5 n] le_bytes.simps(2) [of 4 n] by simp_all

lemma pointer_bytes: "le_bytes 8 8323088 = CHR 0x10 # CHR 0x00 # CHR 0x7F # CHR 0x00 # le_bytes 4 0"
  by (simp add: le_bytes_steps char_of_def bit_Suc_0_iff)

definition busy_splitter :: "int \<Rightarrow> int \<Rightarrow> igs_splitter" where
  "busy_splitter k n = \<lparr> sl_agent_uuid = ''u1'', sl_output_name = ''out'', sl_workers = [new_worker ''w'' ''in'' k n],
     sl_queued_works = [] \<rparr>"

lemma busy_splitter_works:
  "\<exists>c'. split_add_work_to_queue (split_env.truncate example_app_env) ''u1'' (counter IGS_OUTPUT_T ''out'' 5)
        (busy_core\<lparr> cx_model_locked := True, cx_splitters := [busy_splitter 1 0] \<rparr>) = Some c'
     \<and> cx_splitters c' = [busy_splitter 0 1]"
  by (simp add: split_add_work_to_queue_def new_work_def s_split_trigger_send_message_to_worker_def busy_splitter_def is_splitter_def
      max_credit_worker_def work_message_def work_frames_def take_credit_def new_worker_def Let_def int_ok_def
      igs_channel_whisper_zmsg_def unlocked_def locked_def model_lock_def model_unlock_def busy_core_def store_def
      example_core_def deref_def)

section \<open>An agent with a service, and a remote agent\<close>

definition adder :: igs_service where
  "adder = (new_service ''add'')\<lparr> sv_cb := Some 7, sv_arguments := [new_arg ''n'' IGS_INTEGER_T] \<rparr>"

definition serving_agent :: igs_agent where
  "serving_agent = busy_agent\<lparr> ag_definition := Some (put_services (reg_add ''add'' adder ([], [])) busy_definition) \<rparr>"

definition serving_core :: igs_core where
  "serving_core = store 1 serving_agent example_core"

definition example_peer :: igs_zyre_peer where
  "example_peer = \<lparr> pe_peer_id = ''peer'', pe_name = ''host'', pe_subscriber = True, pe_reconnected = 0,
     pe_has_joined_private_channel = True, pe_protocol = Some ''v4'' \<rparr>"

definition example_remote :: "string \<Rightarrow> igs_remote_agent" where
  "example_remote uuid = \<lparr> ra_uuid = uuid, ra_peer = example_peer, ra_definition = Some (example_definition\<lparr> df_name := Some ''bob'' \<rparr>),
     ra_shall_send_outputs_request = False, ra_mapping = None, ra_mapping_filters = [] \<rparr>"

lemma serving_simps [simp]:
  "cx_model_locked serving_core = False" "deref 1 serving_core = Some serving_agent" "deref (Suc 0) serving_core = Some serving_agent"
  "cx_agents serving_core = [(''u1'', 1)]" "cx_remote_agents serving_core = []"
  "ag_uuid serving_agent = Some ''u1''" "ag_igs_channel serving_agent = Some ''alice-IGS''"
  "ag_definition serving_agent = Some (put_services (reg_add ''add'' adder ([], [])) busy_definition)"
  by (simp_all add: serving_core_def serving_agent_def busy_agent_def example_core_def example_agent_def store_def deref_def)

lemma emit_frame [simp]: "deref p (emit e c) = deref p c" "cx_model_locked (emit e c) = cx_model_locked c"
  by (simp_all add: deref_def emit_def)

lemma adder_simps [simp]:
  "sv_arguments adder = [new_arg ''n'' IGS_INTEGER_T]" "sv_cb adder = Some 7" "sv_cb_data adder = 0"
  "sa_type (new_arg n t) = t" "sa_name (new_arg n t) = Some n"
  by (simp_all add: adder_def new_service_def new_arg_def)

lemma serving_services [simp]: "services_of serving_agent = [''add'' \<mapsto> adder]"
  by (simp add: services_of_def put_services_def reg_add_def zh_lookup_def fun_eq_iff)

lemma serving_agent_wf [simp]: "agent_wf serving_agent"
  by (auto simp: agent_wf_def busy_definition_def put_services_def reg_add_def adder_def new_service_def
      put_ios_def set_ios_def example_definition_def empty_definition_def definition_wf_def ios_ok_def services_ok_def
      service_ok_def io_names_def io_table_def registered_def zh_wf_def split: igs_io_type.splits)

section \<open>An empty context, and an agent that watches the others\<close>

definition empty_core :: igs_core where
  "empty_core = example_core\<lparr> cx_store := (\<lambda>p. None), cx_created_agents := [], cx_agents := [] \<rparr>"

definition watch :: igs_wrapper where "watch = \<lparr> wr_callback = 7, wr_my_data = 0 \<rparr>"

definition watching_agent :: igs_agent where
  "watching_agent = example_agent\<lparr> ag_agent_event_callbacks := [watch] \<rparr>"

definition watching_core :: igs_core where
  "watching_core = store 1 watching_agent example_core"

definition carol_core :: igs_core where
  "carol_core = (store 2 (new_agent ''u2'' ''carol'') empty_core)\<lparr> cx_created_agents := [(''u2'', 2)] \<rparr>"

lemma example_telling [simp]: "telling example_app_env"
  by (simp add: telling_def example_app_env_def)

lemma example_callbacks_preserve [simp]: "callbacks_preserve example_app_env Q"
  by (simp add: callbacks_preserve_def example_app_env_def)

lemma example_sound [simp]: "callbacks_sound example_app_env"
  by (simp add: callbacks_sound_def)

lemma empty_core_simps [simp]: "cx_agents empty_core = []" "cx_created_agents empty_core = []" "\<not> cx_model_locked empty_core"
  "ctx_ok empty_core" "fresh_agent example_app_env (empty_core\<lparr> cx_model_locked := b \<rparr>)"
  by (simp_all add: empty_core_def example_core_def ctx_ok_def fresh_agent_def deref_def zh_lookup_def)

lemma watching_simps [simp]: "ctx_ok watching_core" "\<not> cx_model_locked watching_core" "cx_agents watching_core = [(''u1'', 1)]"
  "deref 1 watching_core = Some watching_agent" "deref (Suc 0) watching_core = Some watching_agent"
  "ag_agent_event_callbacks watching_agent = [watch]"
proof -
  have "good ''u1'' watching_agent"
    using example_agent_wf example_mapping_wf by (simp add: watching_agent_def good_def agent_wf_def agent_mapping_ok_def)
  then show "ctx_ok watching_core"
    by (simp add: watching_core_def ctx_ok_def store_def example_core_def deref_def zh_wf_def)
qed (simp_all add: watching_core_def example_core_def watching_agent_def store_def deref_def)

lemma example_fresh [simp]: "zuuid_new example_app_env c = ''u2''" "zmalloc_agent example_app_env c = 2"
  by (simp_all add: example_app_env_def)

lemma carol_name: "no_nul ''carol''" "''carol'' \<noteq> []" "length ''carol'' \<le> IGS_MAX_AGENT_NAME_LENGTH"
  "\<forall>ch \<in> set ''carol''. \<not> is_ctl ch"
  by (simp_all add: no_nul_def IGS_MAX_AGENT_NAME_LENGTH_def is_ctl_def)

lemma carol_created: "igsagent_new example_app_env ''carol'' False empty_core = Some (2, carol_core)"
  unfolding new_agent_result [OF empty_core_simps(3,5) carol_name refl refl] example_fresh carol_core_def
  by simp

lemma carol_simps [simp]: "ctx_ok carol_core" "created 2 carol_core" "deref 2 carol_core = Some (new_agent ''u2'' ''carol'')"
  "\<not> cx_model_locked carol_core" "announced carol_core" "remotes_ok carol_core" "zh_lookup (cx_agents carol_core) k = None"
proof -
  show "ctx_ok carol_core"
    by (rule new_agent_ok [OF example_callbacks_preserve empty_core_simps(4,5) carol_created])
qed (simp_all add: carol_core_def created_def announced_def remotes_ok_def empty_core_def example_core_def store_def deref_def zh_lookup_def)

section \<open>A process on the network\<close>

text \<open>Events reach it from a peer; no observer of channels is registered, no file can be opened.\<close>

definition example_peer_env :: peer_env where
  "example_peer_env = \<lparr> zrex_hits = (\<lambda>e s. if e = s then Some [s] else None), zrex_valid = (\<lambda>e. True),
     zyre_whisper_ok = (\<lambda>p m. True), strdup_address = (\<lambda>s c. 0x7F0010), zmsg_encode = encode_frames,
     zsock_send_ok = (\<lambda>e. True), clock_us = 1000, zmsg_decode = decode_frames [],
     call_io = (\<lambda>f p t n vt v sz d c. Some c), call_service = (\<lambda>f p n u s as k tok d c. Some c),
     call_event = (\<lambda>f p e u n x d c. Some c), call_activate = (\<lambda>f p b d c. Some c), call_freeze = (\<lambda>f b d c. Some c), call_mute = (\<lambda>f p b d c. Some c),
     zuuid_new = (\<lambda>c. ''u2''), zmalloc_agent = (\<lambda>c. 2), zlist_cursor = (\<lambda>p i c c'. Suc i),
     node_file = (\<lambda>path. None), home = None, file_writable = (\<lambda>path. False), file_opens = (\<lambda>path. False),
     zyre_shout_ok = (\<lambda>g m. True), call_channels = (\<lambda>f ev d c. Some c),
     zsock_connects = (\<lambda>a. True), zyre_own_uuid = ''us'', zhash_memory = (\<lambda>t. []), call_forced_stop = (\<lambda>f d c. Some c) \<rparr>"

definition peer_event :: "string \<Rightarrow> string \<Rightarrow> string list \<Rightarrow> zyre_event" where
  "peer_event ty g msg = \<lparr> ze_type = ty, ze_peer_uuid = ''them'', ze_peer_name = ''bob'', ze_peer_addr = ''tcp://192.168.0.3:4567'',
     ze_headers = [(''protocol'', ''v5'')], ze_group = g, ze_msg = msg \<rparr>"

lemma example_app_of [simp]: "app_of example_peer_env = example_app_env"
  by (simp add: app_of_def example_peer_env_def example_app_env_def app_env.truncate_def)

lemma peer_event_simps [simp]:
  "ze_type (peer_event ty g msg) = ty" "ze_group (peer_event ty g msg) = g" "ze_msg (peer_event ty g msg) = msg"
  "ze_peer_uuid (peer_event ty g msg) = ''them''" "ze_peer_name (peer_event ty g msg) = ''bob''"
  by (simp_all add: peer_event_def)

lemma example_network_simps [simp]:
  "cx_node example_core" "cx_remote_agents example_core = []" "cx_zyre_peers example_core = []" "cx_elections example_core = []"
  "nt_zyre_callbacks (cx_network example_core) = []" "nt_replay_channel (cx_network example_core) = ''us-IGS-REPLAY''"
  "cx_agents example_core = [(''u1'', 1)]" "nt_core_agent (cx_network example_core) = None"
  by (simp_all add: example_core_def example_network_def)

lemma example_node_sound [simp]: "node_sound example_peer_env"
  by (simp add: node_sound_def runs_def) (simp add: example_peer_env_def)

text \<open>The peer joins a channel that is not the private one.\<close>

lemma example_joined: "s_manage_zyre_incoming example_peer_env (peer_event ''JOIN'' ''team'' []) empty_core = Some (0, empty_core)"
  by (simp add: s_manage_zyre_incoming_def zyre_handler_def zyre_join_def carry_def locked_def change_def model_lock_def
      model_unlock_def IGS_PRIVATE_CHANNEL_def empty_core_def example_core_def example_network_def)

lemma example_core_ready: "core_ready example_app_env empty_core"
  by (simp add: core_ready_def)

section \<open>Peers with agents\<close>

definition known_remote :: "string \<Rightarrow> string \<Rightarrow> igs_remote_agent" where
  "known_remote uuid peer = (example_remote uuid)\<lparr> ra_peer := example_peer\<lparr> pe_peer_id := peer \<rparr>,
     ra_definition := Some (empty_definition\<lparr> df_name := Some ''bob'', df_json := Some ''{}'' \<rparr>), ra_mapping_filters := [''bob-out''] \<rparr>"

definition meeting_core :: igs_core where
  "meeting_core = watching_core\<lparr>
     cx_zyre_peers := [(''them'', example_peer\<lparr> pe_peer_id := ''them'' \<rparr>), (''others'', example_peer\<lparr> pe_peer_id := ''others'' \<rparr>)],
     cx_remote_agents := [(''r1'', known_remote ''r1'' ''them''), (''r2'', known_remote ''r2'' ''others'')] \<rparr>"

definition receiving_core :: igs_core where
  "receiving_core = carol_core\<lparr> cx_remote_agents := [(''u1'', known_remote ''u1'' ''them'')] \<rparr>"

lemma known_remote_simps [simp]:
  "ra_uuid (known_remote u q) = u" "pe_peer_id (ra_peer (known_remote u q)) = q" "pe_subscriber (ra_peer (known_remote u q))"
  "named (ra_definition (known_remote u q))"
  "ra_definition (known_remote u q) = Some (empty_definition\<lparr> df_name := Some ''bob'', df_json := Some ''{}'' \<rparr>)"
  by (simp_all add: known_remote_def example_remote_def example_peer_def named_def)

lemma meeting_simps [simp]:
  "ctx_ok meeting_core" "\<not> cx_model_locked meeting_core" "remotes_ok meeting_core" "subscribed_ok meeting_core" "cx_node meeting_core"
  "cx_agents meeting_core = [(''u1'', 1)]" "deref 1 meeting_core = Some watching_agent" "deref (Suc 0) meeting_core = Some watching_agent"
  "zh_lookup (cx_zyre_peers meeting_core) ''them'' = Some (example_peer\<lparr> pe_peer_id := ''them'' \<rparr>)"
  "cx_remote_agents meeting_core = [(''r1'', known_remote ''r1'' ''them''), (''r2'', known_remote ''r2'' ''others'')]"
  "map fst (cx_zyre_peers meeting_core) = [''them'', ''others'']" "cx_events meeting_core = []"
proof -
  show "ctx_ok meeting_core"
    using same_agents_ok [of watching_core meeting_core] by (simp add: meeting_core_def same_agents_def)
qed (simp_all add: meeting_core_def remotes_ok_def named_def subscribed_ok_def zh_wf_def zh_lookup_def watching_core_def store_def
    example_core_def deref_def)

lemma watching_introducible [simp]: "introducible meeting_core 1" "introducible meeting_core (Suc 0)"
  by (simp_all add: introducible_def watching_agent_def example_agent_def example_definition_def)

lemma receiving_simps [simp]:
  "ctx_ok receiving_core" "\<not> cx_model_locked receiving_core"
  "zh_lookup (cx_remote_agents receiving_core) ''u1'' = Some (known_remote ''u1'' ''them'')"
proof -
  show "ctx_ok receiving_core"
    using same_agents_ok [of carol_core receiving_core] by (simp add: receiving_core_def same_agents_def)
qed (simp_all add: receiving_core_def zh_lookup_def)

lemma busy_mapping_texts [simp]: "mapping_clean busy_mapping" "mapping_utf8 busy_mapping"
  by (simp_all add: busy_mapping_def Let_def mapping_clean_def mapping_utf8_def empty_mapping_def new_map_def clean_text_def
      no_nul_def is_ctl_def name_lengths lead_len_def)

end
