(* ===== verification/Spec2Isabelle.thy ===== *)
theory Spec2Isabelle
  imports Igs_Example
begin

text \<open>
  Ingescape (src/) is a C library that lets agents of one or several processes exchange
  typed values. An agent has a definition (inputs, outputs, attributes and services), a
  mapping (links from its inputs to outputs of other agents, and splits that share work
  between agents) and observers. This development models the core of the library, the
  files of src/src, function by function, and proves what they promise.

  Reading the model. A function of the program that works on one agent is a function on
  the record \<open>igs_agent\<close>; a public function \<open>igsagent_x\<close> is an operation \<open>'r core_op\<close> on
  the state \<open>igs_core\<close>, which holds the store of agents, the tables of agents, remote
  agents and peers, the splitters, whether the model mutex is held, and the list of
  events: what was handed to sockets and pipes, in order. The result \<open>None\<close> means that the
  program cannot go on: a failed assertion, a wait on the mutex by the thread that holds
  it, undefined behaviour of C such as a read past a buffer or an overflow of a signed
  number, or, for a loop that is a \<open>partial_function\<close>, that it does not end. Errors that the program
  reports are ordinary values (\<open>IGS_FAILURE\<close>, NULL as \<open>None\<close> inside the result). Strings
  and buffers are lists of bytes, with the NUL written out where the code depends on it;
  \<open>int\<close> is a word of 32 bits, \<open>double\<close> the 64 bits of an IEEE number, sizes are naturals.

  Parts of the program and their theories.
  \<^item> C_Runtime, C_Double: the standard library as the code uses it (bytes of integers,
    \<open>atoi\<close>, \<open>atof\<close>, \<open>\%d\<close>, \<open>\%f\<close>, conversions of doubles).
  \<^item> Igs_Types: the structures of src/include. Igs_Strings: copies, cleaning and checking of
    names, hexadecimal text, the hash of mapping entries.
  \<^item> Yajl_Codec (yajl_encode.c), Yajl_Gen (yajl_gen.c, yajl_buf.c), Igs_Json (igs_json.c,
    igs_json_node.c): JSON texts and trees; Igs_Json_Text proves the generator equal to a
    pretty-printer.
  \<^item> Yajl_Lex (yajl_lex.c), Yajl_Parser (yajl_parser.c, yajl.c), Yajl_Tree (yajl_tree.c,
    igs_json_node.c): from texts to trees, in chunks, with the handle, its stack of states
    and its callbacks. Yajl_Scan, Yajl_Scan_Laws: a reference lexer on lists and how its
    scans go on in a longer text; Yajl_Lex_Laws: the lexer returns, stays in its chunk and
    computes it. Yajl_Machine: a reference parser without chunks and callbacks;
    Yajl_Parser_Laws: the parser computes it. Yajl_Text: the texts whose escapes can be
    decoded. Yajl_Integers: the integers of texts, and the texts whose numbers do not overflow.
    Yajl_Typed: what parsed trees are. Yajl_Round: printed trees read back.
  \<^item> Igs_Constraint, Igs_Io, Igs_Model (igs_model.c): constraints, the values of inputs,
    outputs and attributes, their conversions, writing and reading.
  \<^item> Igs_Core (igs_model.c, igs_channels.c): the mutex, the store, whispers. Igs_Keeps: how
    an operation keeps a property of all agents. Igs_Invariant: well-formed agents.
  \<^item> Igs_Registry, Igs_Definition, Igs_Definition_Laws (igs_definition.c): definitions as
    ordered maps from names.
  \<^item> Igs_Export, Igs_Export_Trees, Igs_Parser, Igs_Parser_Laws (igs_parser.c): from
    definitions and mappings to JSON and back.
  \<^item> Igs_Mapping, Igs_Mapping_Api (igs_mapping.c): mappings as sets of links. Igs_Text:
    mappings as texts, through the whole JSON layer.
  \<^item> Igs_Split (igs_split.c): credits and queues of workers.
  \<^item> Igs_Publish (igs_network.c): the publication of an output. Igs_Api, Igs_Api_Laws
    (igs_model.c): the interface that reads and writes values, publishes and observes.
  \<^item> Igs_Service, Igs_Service_Laws, Igs_Service_Call, Igs_Service_Call_Laws (igs_service.c,
    igs_network.c): services, arguments, replies, calls in the process and over the wire.
  \<^item> Igs_Subscribe, Igs_Subscribe_Laws (igs_network.c): subscriptions, and what becomes of
    a publication that is received.
  \<^item> Igs_Agent (igsagent.c, igs_network.c): the life of an agent, from creation to destruction,
    with the events it causes; its name, state, mute and elections; freezing. Igs_Context,
    Igs_Agent_Laws, Igs_Preserve: the invariant of the context and the operations that keep
    it. Igs_Reach: the step relation of an application and of the messages between agents.
    Igs_Life: what creation, activation, renaming and destruction come to.
  \<^item> Igs_Admin (igs_core.c, igs_admin.c, igs_parser.c, igs_definition.c, igs_mapping.c): the
    log, the time of all agents, loading and saving. Igs_Split_Api (igs_split.c): splits of an
    agent and the messages between splitters and workers. Igs_Channels (igs_channels.c):
    channels, headers, whispers and shouts for the application.
  \<^item> The network actor (igs_network.c): Igs_Peers has the events of peers that enter, join,
    leave, lead and shout, Igs_Commands the whispers, one definition for each branch of the
    handler, Igs_Incoming the dispatch of events, the timers, the messages of the parent
    thread and the ends of the loop. Igs_Network_Laws: which handlers give the mutex back.
    Igs_Network_Keeps, Igs_Node_Reach: that all of it keeps the invariant of the context, and
    the step relation of the whole process with the contexts it reaches. Igs_Network_Wire:
    what a newcomer is told, a mapping sent and received, and what an exit leaves.
  \<^item> Igs_Example: the concrete states on which the theorems are applied.

  Interfaces between the parts are locales: \<open>registry\<close> (a table and the ordered list of its
  names), \<open>entry_store\<close> (mapping entries told apart by their hash), \<open>agent_law\<close> (an
  operation on an agent that keeps an invariant), \<open>values_law\<close> (an invariant that writes
  keep), \<open>context_law\<close> (a property of the context that neither the mutex nor the events
  enter), \<open>decodable\<close> (the texts that the JSON parser can decode), \<open>definition_op\<close> and \<open>mapping_op\<close> (an operation that changes one side of an agent
  only). Each is interpreted on the model's own functions, where its laws are proved.

  Parameters of the model, that is, code that is not under src/: the regular expressions,
  messages inside messages and sockets of CZMQ, the whispers, shouts and events of Zyre, the
  clock, files and the home directory, the functions of the application called back, new
  identifiers and addresses, the address of a copied string, and the cursor of a list of
  mappings that other functions have used in between. They are the fields of the records \<open>igs_env\<close>, \<open>net_env\<close>,
  \<open>split_env\<close>, \<open>pub_env\<close>, \<open>app_env\<close>, \<open>node_env\<close>, \<open>peer_env\<close> and \<open>parse_env\<close>; the theorems name what they assume of them (a decoder that reads what the
  encoder wrote, callbacks that leave the agents alone or keep them well-formed). Callbacks
  are named in the statements: \<open>quiet\<close> ones leave the agents and the mutex as they find them;
  \<open>observing\<close> and \<open>telling\<close> ones return as well and change nothing but the events; with
  \<open>node_sound\<close> they do what they want as long as the invariant of the context is kept.

  Loops. Loops over lists are structural recursion. The loops that a callback can prolong,
  over the entries of a mapping and over the agents of the process while a publication is
  handled, and over the agents that are told of an event, are \<open>partial_function\<close>s;
  \<open>publication_reaches_inputs\<close>, \<open>events_reach_every_observer\<close> and \<open>activation_takes_effect\<close>
  prove that they return when the functions of the application do and leave the agents
  alone. The loop over the attendees of an election is one as well, and
  \<open>event_never_returns\<close> proves that it may not end. The loop of the JSON parser is one too, and
  \<open>text_is_parsed\<close> proves that it
  returns. The loops of the lexer decrease what is left of buffer and chunk. The digit loops
  of the standard library come with their termination measure.
  A hash table is iterated in an order that changes with every insertion in a way nothing is
  known of (\<open>zhashx_rank\<close>), as CZMQ documents none: no theorem depends on the place of an entry.

  Not modelled: what is logged; memory (allocation always succeeds, freed memory is an absent
  entry of the store); the mutex of the peers, a leaf lock, and the mutex between starting and
  stopping the network; the creation of the actor with its sockets, ports, security and
  brokers, the timers of the application and the monitor; the default-agent wrappers of
  igs_core.c, which call the interface on one agent; the language bindings, which convert
  arguments and call this interface.
\<close>

text \<open>
  C1. Creating an input: with a free mutex, a live agent, a new and valid name and a
  value that can be written, \<open>igsagent_input_create\<close> succeeds; the name comes last in the
  list, the map of the inputs gains exactly the io with the value, outputs and
  attributes stay, and the JSON text kept is that of the new definition.
\<close>

theorem input_create_fresh:
  assumes "\<not> cx_model_locked c" and "deref p c = Some a" and "ag_uuid a = Some u" and "agent_wf a"
    and "ag_definition a = Some d" and "good_name name" and "value_type_of n = Some vt"
    and "ios_of IGS_INPUT_T a name = None"
    and "write_value vt v sz (new_io name IGS_INPUT_T vt) = Some (ok, io)"
  shows "\<exists>a'. igsagent_input_create env p name n v sz c = Some (IGS_SUCCESS, store p a' c)
     \<and> ios_of IGS_INPUT_T a' = (ios_of IGS_INPUT_T a)(name \<mapsto> io)
     \<and> names_of IGS_INPUT_T a' = names_of IGS_INPUT_T a @ [name]
     \<and> (\<forall>t'. t' \<noteq> IGS_INPUT_T \<longrightarrow> ios_of t' a' = ios_of t' a \<and> names_of t' a' = names_of t' a)
     \<and> json_fresh a' \<and> ag_need_definition_update a' \<and> agent_wf a'"
proof -
  obtain a' where a': "create_body env name IGS_INPUT_T n v sz a = Some (IGS_SUCCESS, a')"
    and post: "ios_of IGS_INPUT_T a' = (ios_of IGS_INPUT_T a)(name \<mapsto> io)"
      "names_of IGS_INPUT_T a' = names_of IGS_INPUT_T a @ [name]"
      "\<forall>t'. t' \<noteq> IGS_INPUT_T \<longrightarrow> ios_of t' a' = ios_of t' a \<and> names_of t' a' = names_of t' a"
      "json_fresh a'" "ag_need_definition_update a'" "agent_wf a'"
    using create_body_fresh [OF assms(4-9)] by blast
  have "locked (on_agent p (create_body env name IGS_INPUT_T n v sz)) c = Some (IGS_SUCCESS, store p a' c)"
    using assms(1,2) a' by (auto simp: locked_on_agent_iff)
  then have "igsagent_input_create env p name n v sz c = Some (IGS_SUCCESS, store p a' c)"
    using assms(2,3,6) by (simp add: igsagent_input_create_def io_create_def with_agent_def good_name_def)
  with post show ?thesis by blast
qed

theorem input_create_fresh_witness:
  "\<exists>a'. igsagent_input_create example_env 1 ''speed'' 1 (Some (wr_int 7)) 4 example_core = Some (IGS_SUCCESS, store 1 a' example_core)
     \<and> ios_of IGS_INPUT_T a' = [''speed'' \<mapsto> set_int 7 (new_io ''speed'' IGS_INPUT_T IGS_INTEGER_T)]"
  using input_create_fresh [of example_core 1 example_agent "''u1''" example_definition "''speed''" 1 IGS_INTEGER_T
      "Some (wr_int 7)" 4 True "set_int 7 (new_io ''speed'' IGS_INPUT_T IGS_INTEGER_T)" example_env]
  by (auto simp: good_name_def no_nul_def is_ctl_def IGS_MAX_IO_NAME_LENGTH_def value_type_of_def write_value_def
      write_integer_def)

text \<open>
  C2. Removing an existing io takes exactly its name out of the map and of the ordered
  list of its type, leaves the other types, and refreshes the JSON text.
\<close>

theorem io_remove_present:
  assumes "\<not> cx_model_locked c" and "deref p c = Some a" and "ag_uuid a = Some u" and "agent_wf a"
    and "ios_of t a name = Some io"
  shows "\<exists>a'. io_remove t p name c = Some (IGS_SUCCESS, store p a' c)
     \<and> ios_of t a' = (ios_of t a)(name := None) \<and> names_of t a' = filter (\<lambda>n. n \<noteq> name) (names_of t a)
     \<and> (\<forall>t'. t' \<noteq> t \<longrightarrow> ios_of t' a' = ios_of t' a \<and> names_of t' a' = names_of t' a) \<and> json_fresh a'"
proof -
  obtain a' where a': "remove_body t name a = Some (IGS_SUCCESS, a')"
    and post: "ios_of t a' = (ios_of t a)(name := None)" "names_of t a' = filter (\<lambda>n. n \<noteq> name) (names_of t a)"
      "\<forall>t'. t' \<noteq> t \<longrightarrow> ios_of t' a' = ios_of t' a \<and> names_of t' a' = names_of t' a" "json_fresh a'"
    using remove_body_present [OF assms(4,5)] by blast
  have "io_remove t p name c = Some (IGS_SUCCESS, store p a' c)"
    using assms(1-3) a' by (auto simp: io_remove_def with_agent_iff locked_on_agent_iff)
  with post show ?thesis by blast
qed

theorem io_remove_present_witness:
  "\<exists>c' b. io_remove IGS_INPUT_T 1 ''x'' (store 1 (example_agent\<lparr> ag_definition :=
       Some (put_ios IGS_INPUT_T ([''x''], [(''x'', new_io ''x'' IGS_INPUT_T IGS_BOOL_T)]) example_definition) \<rparr>) example_core)
     = Some (IGS_SUCCESS, c') \<and> deref 1 c' = Some b \<and> names_of IGS_INPUT_T b = []"
proof -
  let ?d = "put_ios IGS_INPUT_T ([''x''], [(''x'', new_io ''x'' IGS_INPUT_T IGS_BOOL_T)]) example_definition"
  let ?a = "example_agent\<lparr> ag_definition := Some ?d \<rparr>"
  have "agent_wf ?a"
    using io_add_wf [of example_definition IGS_INPUT_T "new_io ''x'' IGS_INPUT_T IGS_BOOL_T"] example_agent_wf
    by (simp add: agent_wf_def example_definition_def empty_definition_def io_table_def io_names_def reg_add_def
        zh_lookup_def zh_insert_def)
  moreover have "ios_of IGS_INPUT_T ?a ''x'' = Some (new_io ''x'' IGS_INPUT_T IGS_BOOL_T)" "names_of IGS_INPUT_T ?a = [''x'']"
    by (simp_all add: ios_of_put zh_lookup_def)
  ultimately show ?thesis
    using io_remove_present [of "store 1 ?a example_core" 1 ?a "''u1''" IGS_INPUT_T "''x''" "new_io ''x'' IGS_INPUT_T IGS_BOOL_T"]
    by (auto simp: store_def deref_def example_core_def)
qed

text \<open>
  C3. Enforced constraints hold: after an accepted write of an integer, a double, a
  string, no value, or data into an io that is not a string, the value of the io
  satisfies its constraint. (The data written into a string io is checked as an
  integer: see the next claim.)
\<close>

theorem enforced_constraint:
  assumes "io_constraint io = Some c" and "write_io env True t value sz io = Some (True, io')"
    and "value = None \<or> t \<in> {IGS_INTEGER_T, IGS_DOUBLE_T, IGS_STRING_T} \<or> t = IGS_DATA_T \<and> io_value_type io \<noteq> IGS_STRING_T"
  shows "satisfies env c io'"
  by (rule enforced_write_satisfies [OF assms])

theorem enforced_constraint_witness:
  "satisfies example_env (new_constraint IGS_CONSTRAINT_MAX\<lparr> ct_max_int := 10 \<rparr>)
     (set_int 9 ((new_io ''x'' IGS_INPUT_T IGS_INTEGER_T)\<lparr> io_constraint := Some (new_constraint IGS_CONSTRAINT_MAX\<lparr> ct_max_int := 10 \<rparr>) \<rparr>))"
  by (rule enforced_constraint [of "(new_io ''x'' IGS_INPUT_T IGS_INTEGER_T)\<lparr> io_constraint := Some (new_constraint IGS_CONSTRAINT_MAX\<lparr> ct_max_int := 10 \<rparr>) \<rparr>"
      _ _ IGS_INTEGER_T "Some (wr_int 9)" 4])
    (simp_all add: write_io_def constraint_check_def constraint_int_def int_allowed_def new_constraint_def write_value_def
      write_integer_def new_io_def)

text \<open>
  C4. Data written into a constrained string io: the check misses a \<open>break\<close>, so what the
  expression is matched against is the decimal text of the first four bytes, and that alone
  decides, both ways; the bytes themselves are stored without having been looked at. Data of
  less than four bytes with its NUL is read past its end.
\<close>

theorem data_escapes_regexp:
  assumes "io_value_type io = IGS_STRING_T" and "io_constraint io = Some c" and "ct_type c = IGS_CONSTRAINT_REGEXP" and "no_nul s"
  shows "if length s < 3 then write_io env True IGS_DATA_T (Some (wr_cstr s)) (length s + 1) io = None
    else \<exists>i. rd_int (wr_cstr s) = Some i
      \<and> (if zrex_hits env (ct_regexp c) (fmt_d (sint i)) = None
         then write_io env True IGS_DATA_T (Some (wr_cstr s)) (length s + 1) io = Some (False, io)
         else \<exists>io'. write_io env True IGS_DATA_T (Some (wr_cstr s)) (length s + 1) io = Some (True, io')
                \<and> read_string io' = Some (Some s))"
proof (cases "length s < 3")
  case True
  then have "rd_int (wr_cstr s) = None" by (simp add: rd_int_def wr_cstr_def)
  with True assms show ?thesis
    by (simp add: write_io_def constraint_check_def constraint_string_def wr_cstr_def nth_append)
next
  case False
  then obtain i where i: "rd_int (wr_cstr s) = Some i" by (auto simp: rd_int_def wr_cstr_def)
  have check: "constraint_check env c IGS_STRING_T IGS_DATA_T (Some (wr_cstr s)) (length s + 1)
      = Some (zrex_hits env (ct_regexp c) (fmt_d (sint i)) \<noteq> None)"
    using i assms(3) by (simp add: constraint_check_def constraint_string_def wr_cstr_def nth_append)
  have stored: "\<exists>io'. write_value IGS_DATA_T (Some (wr_cstr s)) (length s + 1) io = Some (True, io') \<and> read_string io' = Some (Some s)"
    using assms(1,4) by (simp add: write_value_def write_data_def copy_bytes_def read_string_def wr_cstr_def nth_append)
  show ?thesis using False i check stored assms(1,2) by (simp add: write_io_def)
qed

theorem data_escapes_regexp_witness:
  "(\<exists>io'. write_io (example_env\<lparr> zrex_hits := (\<lambda>e s. if s = fmt_d 1684234849 then Some [s] else None) \<rparr>) True IGS_DATA_T
       (Some (wr_cstr ''abcd'')) 5 ((new_io ''x'' IGS_INPUT_T IGS_STRING_T)\<lparr> io_constraint := Some (new_constraint IGS_CONSTRAINT_REGEXP) \<rparr>)
     = Some (True, io') \<and> read_string io' = Some (Some ''abcd''))
   \<and> write_io (example_env\<lparr> zrex_hits := (\<lambda>e s. if s = ''abcd'' then Some [s] else None) \<rparr>) True IGS_DATA_T
       (Some (wr_cstr ''abcd'')) 5 ((new_io ''x'' IGS_INPUT_T IGS_STRING_T)\<lparr> io_constraint := Some (new_constraint IGS_CONSTRAINT_REGEXP) \<rparr>)
     = Some (False, (new_io ''x'' IGS_INPUT_T IGS_STRING_T)\<lparr> io_constraint := Some (new_constraint IGS_CONSTRAINT_REGEXP) \<rparr>)"
proof -
  let ?io = "(new_io ''x'' IGS_INPUT_T IGS_STRING_T)\<lparr> io_constraint := Some (new_constraint IGS_CONSTRAINT_REGEXP) \<rparr>"
  have i: "rd_int (wr_cstr ''abcd'') = Some 1684234849"
    by (simp add: rd_int_def wr_cstr_def of_char_of)
  have "is_digit_char ch" if "ch \<in> set (fmt_d 1684234849)" for ch using that dec_nat_digits by (simp add: fmt_d_def)
  from this [of "CHR ''a''"] have ne: "fmt_d 1684234849 \<noteq> ''abcd''" by (auto simp: is_digit_char_def)
  show ?thesis
    using data_escapes_regexp [of ?io "new_constraint IGS_CONSTRAINT_REGEXP" "''abcd''"
        "example_env\<lparr> zrex_hits := (\<lambda>e s. if s = fmt_d 1684234849 then Some [s] else None) \<rparr>"]
      data_escapes_regexp [of ?io "new_constraint IGS_CONSTRAINT_REGEXP" "''abcd''"
        "example_env\<lparr> zrex_hits := (\<lambda>e s. if s = ''abcd'' then Some [s] else None) \<rparr>"] ne
    by (simp add: i no_nul_def new_constraint_def eval_nat_numeral)
qed

text \<open>
  C5. A mapping refines a set of links: when no other link of the agent hashes the same,
  \<open>igsagent_mapping_add\<close> inserts the link and returns its id, and removing by name deletes
  it and succeeds exactly when it was there.
\<close>

theorem links_add_remove:
  assumes "agent_mapping_ok a" and "ag_mapping a = Some m" and "hash_free i ag out (links a)"
  shows "(\<exists>a'. mapping_add_body i ag out a = Some (entry_id i ag out, a') \<and> links a' = insert (i, ag, out) (links a))
    \<and> (\<exists>r a'. mapping_remove_body (entry_id i ag out) a = Some (r, a') \<and> links a' = links a - {(i, ag, out)}
        \<and> (r = IGS_SUCCESS \<longleftrightarrow> (i, ag, out) \<in> links a))"
  using mapping_add_links [OF assms] mapping_remove_links [OF assms] by blast+

theorem links_add_remove_witness:
  "\<exists>a'. mapping_add_body ''i'' ''bob'' ''o'' example_agent = Some (entry_id ''i'' ''bob'' ''o'', a') \<and> links a' = {(''i'', ''bob'', ''o'')}"
  using links_add_remove [of example_agent example_mapping "''i''" "''bob''" "''o''"]
  by (simp add: hash_free_def links_def example_mapping_def empty_mapping_def)

text \<open>
  C6. Names with dots collide: \<open>i.x\<close> mapped to \<open>ag\<close> and \<open>i\<close> mapped to \<open>x.ag\<close> have the same id,
  and once the first is in the mapping the second is reported added but is not.
\<close>

theorem mapping_collision:
  assumes "ag_mapping a = Some m" and "new_map (i @ ''.'' @ x) ag out \<in> set (mg_map_elements m)"
  shows "mapping_add_body i (x @ ''.'' @ ag) out a = Some (entry_id (i @ ''.'' @ x) ag out, a)"
  using mapping_add_dropped [of a m "new_map (i @ ''.'' @ x) ag out" i "x @ ''.'' @ ag" out] assms
    mashup_collision [of i x ag out]
  by (simp add: new_map_def)

theorem mapping_collision_witness:
  "\<exists>a. mapping_add_body ''a'' ''b.c'' ''o'' a = Some (entry_id ''a.b'' ''c'' ''o'', a) \<and> links a = {(''a.b'', ''c'', ''o'')}"
proof (rule exI, rule conjI)
  let ?a = "example_agent\<lparr> ag_mapping := Some (empty_mapping\<lparr> mg_map_elements := [new_map ''a.b'' ''c'' ''o''] \<rparr>) \<rparr>"
  show "mapping_add_body ''a'' ''b.c'' ''o'' ?a = Some (entry_id ''a.b'' ''c'' ''o'', ?a)"
    using mapping_collision [of ?a "empty_mapping\<lparr> mg_map_elements := [new_map ''a.b'' ''c'' ''o''] \<rparr>" "''a''" "''b''" "''c''" "''o''"]
    by simp
  show "links ?a = {(''a.b'', ''c'', ''o'')}" by (simp add: links_def map_parts_def new_map_def)
qed

text \<open>
  C7. Export and load of a mapping: a well-formed mapping whose names are UTF-8, clean and
  within the limits of the interface is written to a text, and loading that text gives the
  same entries with the same ids, in order. The way there and back is the whole JSON layer:
  generator, lexer, parser, tree, and the parser of mappings.
\<close>

theorem mapping_roundtrip:
  assumes "mapping_wf m" and "mapping_clean m" and "mapping_utf8 m"
  shows "\<exists>s. parser_export_mapping m = Some s \<and>
    parser_load_mapping s = Some (Some (m\<lparr> mg_json := None, mg_json_legacy := None \<rparr>))"
  using export_mapping_text load_mapping_text [OF assms] by blast

theorem mapping_roundtrip_witness:
  "\<exists>s. parser_export_mapping (empty_mapping\<lparr> mg_map_elements := [new_map ''i'' ''bob'' ''o''] \<rparr>) = Some s \<and>
     parser_load_mapping s = Some (Some (empty_mapping\<lparr> mg_map_elements := [new_map ''i'' ''bob'' ''o''] \<rparr>))"
  using mapping_roundtrip [of "empty_mapping\<lparr> mg_map_elements := [new_map ''i'' ''bob'' ''o''] \<rparr>"]
  by (simp add: mapping_wf_def mapping_clean_def mapping_utf8_def keyed_def empty_mapping_def new_map_def clean_text_def no_nul_def
      is_ctl_def name_lengths lead_len_def)

text \<open>
  C8. \<open>mapping_is_equal\<close> decides equality of the sets of ids: for two texts that parse,
  the nested loops over counts and ids answer whether maps and splits have the same ids.
\<close>

theorem mapping_equal_iff:
  assumes "parser_load_mapping s = Some (Some m)" and "parser_load_mapping s' = Some (Some m')"
  shows "mapping_is_equal (Some s) (Some s') = Some
     (mp_id ` set (mg_map_elements m) = mp_id ` set (mg_map_elements m')
      \<and> sp_id ` set (mg_split_elements m) = sp_id ` set (mg_split_elements m'))"
  by (rule mapping_is_equal_ids [OF assms])

theorem mapping_equal_iff_witness:
  "mapping_is_equal (Some (mapping_text empty_mapping))
     (Some (mapping_text (empty_mapping\<lparr> mg_map_elements := [new_map ''i'' ''bob'' ''o''] \<rparr>))) = Some False"
  using mapping_equal_iff [OF load_mapping_text [of empty_mapping]
      load_mapping_text [of "empty_mapping\<lparr> mg_map_elements := [new_map ''i'' ''bob'' ''o''] \<rparr>"]]
  by (simp add: mapping_wf_def mapping_clean_def mapping_utf8_def keyed_def empty_mapping_def new_map_def clean_text_def no_nul_def
      is_ctl_def name_lengths lead_len_def)

text \<open>
  C9. Whatever JSON tree is accepted, the mapping has no two entries of the same id, and
  every id is the hash of the names of its entry.
\<close>

theorem parsed_mapping_wf:
  "parser_parse_mapping_from_node json = Some (Some m) \<Longrightarrow> mapping_wf m"
  by (rule parse_mapping_wf)

theorem parsed_mapping_wf_witness:
  "mapping_wf (empty_mapping\<lparr> mg_map_elements := [] \<rparr>)"
  by (rule parsed_mapping_wf [of "JMap [(''mappings'', JArray [])]"])
    (simp add: parser_parse_mapping_from_node_def igs_json_node_find_def or_else_def unchecked_array_def empty_mapping_def)

text \<open>
  C10. The parser of JSON texts does what the reference parser \<open>tree_of_text\<close> does, which
  scans the text as a list with a stack of states, on every text, valid or not, whose escapes
  of high surrogates are each followed by another escape (others stop the process): the same
  tree, the same refusal, the same overflow of a number. Where the text does not contain the
  digits 92233720368547758, which every number that overflows \<open>long long\<close> begins with, it
  returns: no read leaves the chunk, no assertion fails, no loop goes on for ever, the text of
  an error fits its buffer.
\<close>

theorem text_is_parsed:
  assumes "pairs_ok input"
  shows "map_option fst (igsyajl_tree_parse input error_buffer) = tree_of_text input
    \<and> (\<not> sublist risky_digits input \<longrightarrow> igsyajl_tree_parse input error_buffer \<noteq> None)"
  using paired.tree_parse [OF assms, of error_buffer] parse_is_defined [of input] by (metis option.map_disc_iff)

theorem text_is_parsed_witness:
  "\<exists>e. igsyajl_tree_parse (''{'' @ [CHR 0x22, CHR 0x5C] @ ''ud83d'' @ [CHR 0x5C] @ ''ude00'' @ [CHR 0x22] @ '': [true, ]}'') (Some 1024) =
     Some (None, e)"
proof -
  let ?s = "''{'' @ [CHR 0x22, CHR 0x5C] @ ''ud83d'' @ [CHR 0x5C] @ ''ude00'' @ [CHR 0x22] @ '': [true, ]}''"
  have p: "pairs_ok ?s" by (simp add: pairs_ok_def high_surrogate_def unicode_escape_def char_is_VHC)
  have "\<not> sublist risky_digits ?s"
    using set_mono_sublist [of risky_digits ?s] by (auto simp: risky_digits_def)
  with text_is_parsed [OF p, of "Some 1024"] obtain t e where "igsyajl_tree_parse ?s (Some 1024) = Some (t, e)" by auto
  moreover have "tree_of_text ?s = Some None" by code_simp
  ultimately show ?thesis using text_is_parsed [OF p, of "Some 1024"] by simp
qed

text \<open>
  C11. Dump and parse of trees: a tree whose objects and arrays are nested at most 127 deep
  (\<open>json_ok 0 t\<close>, \<open>IGSYAJL_MAX_DEPTH\<close> being 128), whose strings and keys are UTF-8 without NUL,
  and whose numbers are finite and what their printed texts are read as (every integer of 64
  bits but the least is), is dumped to a text that parses to the same tree.
\<close>

theorem json_round_trip:
  assumes "canonical t" and "json_ok 0 t"
  shows "\<exists>s. igs_json_node_dump t = Some s \<and> igs_json_node_parse_from_str s = Some (Some t)"
  using node_dump_render [OF assms(2)] parse_render [OF assms(1)] by blast

theorem json_round_trip_witness:
  "\<exists>s. igs_json_node_dump (JMap [(''a'', JArray [integer_node (- 42), JString [CHR 0xC3, CHR 0xA9, CHR 0x0A]])]) = Some s \<and>
     igs_json_node_parse_from_str s = Some (Some (JMap [(''a'', JArray [integer_node (- 42), JString [CHR 0xC3, CHR 0xA9, CHR 0x0A]])]))"
  by (rule json_round_trip)
    (simp_all add: integer_canonical LLONG_MAX_def string_ok_def lead_len_def is_cont_def IGSYAJL_MAX_DEPTH_def)



text \<open>
  C13. The integer of a number token, exactly: digits are read as their value whenever it fits
  a \<open>long long\<close>, with the sign that stands before them. Of the larger ones, those with a proper
  beginning between 922337203685477581 and 922337203685477587 make \<open>ret *= 10\<close> overflow, since
  the bound it is tested against is seven too large, and all others saturate with \<open>ERANGE\<close>. The
  least integer counts as out of range.
\<close>

theorem parse_integer_exact:
  assumes "ds \<noteq> []" and "list_all is_digit_char ds"
  shows "(int (digits_val 10 ds) \<le> LLONG_MAX \<longrightarrow>
        igsyajl_parse_integer ds = Some (int (digits_val 10 ds), False)
        \<and> igsyajl_parse_integer (CHR ''-'' # ds) = Some (- int (digits_val 10 ds), False))
    \<and> (LLONG_MAX < int (digits_val 10 ds) \<longrightarrow>
        (if \<exists>k < length ds. digits_val 10 (take k ds) \<in> {922337203685477581..922337203685477587}
         then igsyajl_parse_integer ds = None \<and> igsyajl_parse_integer (CHR ''-'' # ds) = None
         else igsyajl_parse_integer ds = Some (LLONG_MAX, True) \<and> igsyajl_parse_integer (CHR ''-'' # ds) = Some (LLONG_MIN, True)))"
  using parse_integer_text [OF assms] overflow_digits [of ds] fits_no_overflow [of ds] by auto

theorem parse_integer_exact_witness:
  "igsyajl_parse_integer ''9223372036854775807'' = Some (9223372036854775807, False)
   \<and> igsyajl_parse_integer ''-9223372036854775808'' = Some (- 9223372036854775808, True)
   \<and> igsyajl_parse_integer ''9223372036854775810'' = None"
proof -
  have "\<not> overflow_in 0 ''9223372036854775808''" "overflow_in 0 ''9223372036854775810''" by (simp_all add: unsafe_def)
  then have o: "\<not> (\<exists>k < length ''9223372036854775808''. digits_val 10 (take k ''9223372036854775808'') \<in> {922337203685477581..922337203685477587})"
    "\<exists>k < length ''9223372036854775810''. digits_val 10 (take k ''9223372036854775810'') \<in> {922337203685477581..922337203685477587}"
    by (simp_all only: overflow_digits simp_thms)
  have v: "digits_val 10 ''9223372036854775807'' = 9223372036854775807" "digits_val 10 ''9223372036854775808'' = 9223372036854775808"
    "digits_val 10 ''9223372036854775810'' = 9223372036854775810"
    by (simp_all add: digits_val_def)
  have d: "list_all is_digit_char ''9223372036854775807''" "list_all is_digit_char ''9223372036854775808''"
    "list_all is_digit_char ''9223372036854775810''"
    by (simp_all add: is_digit_char_def)
  have "igsyajl_parse_integer ''9223372036854775807'' = Some (9223372036854775807, False)"
    using parse_integer_exact [OF _ d(1)] v by (simp add: LLONG_MAX_def)
  moreover have "igsyajl_parse_integer ''-9223372036854775808'' = Some (- 9223372036854775808, True)"
    using parse_integer_exact [OF _ d(2)] v(2) o(1) by (simp only: LLONG_MAX_def LLONG_MIN_def if_False) simp
  moreover have "igsyajl_parse_integer ''9223372036854775810'' = None"
    using parse_integer_exact [OF _ d(3)] v(3) o(2) by (simp only: LLONG_MAX_def if_True) simp
  ultimately show ?thesis by blast
qed

text \<open>
  C14. The generator is a pretty-printer: driving its state machine of separators,
  indentation and depth over a printable tree yields the text of the recursive
  \<open>render\<close> and a final newline, and no call fails.
\<close>

theorem dump_is_render:
  assumes "json_ok 0 t" shows "igs_json_node_dump t = Some (render 0 t @ newline)"
  by (rule node_dump_render [OF assms])

theorem dump_is_render_witness:
  "igs_json_node_dump (JMap [(''a'', JArray [JTrue])]) = Some (render 0 (JMap [(''a'', JArray [JTrue])]) @ newline)"
  by (rule dump_is_render) (simp add: IGSYAJL_MAX_DEPTH_def lead_len_def igsyajl_string_validate_utf8.simps)

text \<open>
  C15. Escaping and unescaping: for every string of bytes and either treatment of the
  solidus, decoding the encoded string gives it back, whatever follows it in memory.
\<close>

theorem string_roundtrip:
  "igsyajl_string_decode (igsyajl_string_encode sol s @ after) (length (igsyajl_string_encode sol s)) = Some s"
  by (rule decode_encode)

text \<open>
  C16. \<open>model_clean_string\<close> stays inside the buffer of its string, removes exactly the five
  control characters, keeps at most \<open>max\<close> characters, and its result passes
  \<open>model_check_string\<close>.
\<close>

theorem clean_then_check:
  assumes "no_nul s"
  shows "\<exists>m n r. model_clean_string (wr_cstr s) mx = Some (m, n) \<and> rd_cstr m = Some r
     \<and> r = take (max_of mx) (filter (\<lambda>c. \<not> is_ctl c) s) \<and> model_check_string (wr_cstr r) mx = Some True"
proof -
  obtain m n where m: "model_clean_string (wr_cstr s) mx = Some (m, n)"
    "rd_cstr m = Some (take (max_of mx) (filter (\<lambda>c. \<not> is_ctl c) s))"
    using clean_string_result [OF assms] by blast
  have "no_nul (take (max_of mx) (filter (\<lambda>c. \<not> is_ctl c) s))" using assms by (simp add: no_nul_take no_nul_filter)
  then show ?thesis using m by (auto simp: check_string_result dest: in_set_takeD)
qed

theorem clean_then_check_witness:
  "\<exists>m n. model_clean_string (wr_cstr [CHR ''a'', CHR 0x09, CHR ''b'']) 8 = Some (m, n) \<and> rd_cstr m = Some ''ab''"
  using clean_then_check [of "[CHR ''a'', CHR 0x09, CHR ''b'']" 8] by (auto simp: no_nul_def is_ctl_def max_of_def)

text \<open>
  C17. On a well-formed io no read leaves its buffer, and the reads that fail are these: a
  number from a string io without a string, where the NULL pointer reaches \<open>atof\<close> or \<open>atoi\<close>;
  an int from a string that begins with an integer no \<open>int\<close> holds; an int from a double that
  is infinite, not a number or, with its half added, out of the range of \<open>int\<close>.
\<close>

theorem reads_never_overrun:
  assumes "io_wf io"
  shows "read_buffer io \<noteq> None \<and> read_data io \<noteq> None \<and> read_bool io \<noteq> None \<and> read_string io \<noteq> None
    \<and> (read_double io = None \<longleftrightarrow> io_value_type io = IGS_STRING_T \<and> io_s io = None)
    \<and> (read_int io = None \<longleftrightarrow>
        io_value_type io = IGS_STRING_T \<and>
          (case io_s io of None \<Rightarrow> True | Some m \<Rightarrow> \<not> int_ok (leading_integer (takeWhile (\<lambda>ch. ch \<noteq> CHR 0x00) m)))
        \<or> io_value_type io = IGS_DOUBLE_T \<and>
          (let d = d_half (d_lt (io_d io) 0) (io_d io) in d_exp d = 2047 \<or> \<not> int_ok (int_of_double d)))"
  using reads_defined [OF assms] read_double_defined [OF assms] read_int_defined [OF assms] by blast

theorem reads_never_overrun_witness:
  "read_double (new_io ''x'' IGS_INPUT_T IGS_STRING_T) = None \<and> read_string (new_io ''x'' IGS_INPUT_T IGS_STRING_T) \<noteq> None
   \<and> read_int (new_io ''x'' IGS_INPUT_T IGS_STRING_T) = None \<and> read_int (new_io ''x'' IGS_INPUT_T IGS_INTEGER_T) \<noteq> None"
  using reads_never_overrun [of "new_io ''x'' IGS_INPUT_T IGS_STRING_T"] reads_never_overrun [of "new_io ''x'' IGS_INPUT_T IGS_INTEGER_T"]
  by simp

text \<open>
  C18. The worker that a splitter chooses has the most credit, and among those the fewest
  uses.
\<close>

theorem best_worker:
  assumes "max_credit_worker ws = Some i"
  shows "i < length ws \<and> (\<forall>w \<in> set ws. wk_credit w < wk_credit (ws ! i)
    \<or> wk_credit w = wk_credit (ws ! i) \<and> wk_uses (ws ! i) \<le> wk_uses w)"
  using max_credit_worker_best [OF assms] by (simp add: worker_le_def)

theorem best_worker_witness:
  "list_all (\<lambda>w. wk_credit w < 2 \<or> wk_credit w = 2 \<and> 5 \<le> wk_uses w)
     [new_worker ''a'' ''i'' 1 0, new_worker ''b'' ''i'' 2 5]"
  using best_worker [of "[new_worker ''a'' ''i'' 1 0, new_worker ''b'' ''i'' 2 5]" 1]
  by (simp add: max_credit_worker_def new_worker_def)

text \<open>
  C19. A queued string never reaches its worker. For a string of up to 15 bytes the last frame
  of the message holds as many bytes, and one more, of the block that the pointer and the size
  are stored in; for a longer one the copy leaves the block, and the trigger has no result.
\<close>

theorem string_work_lost:
  assumes "find (is_splitter uuid (io_name out)) (cx_splitters c) = Some sp" and "max_credit_worker (sl_workers sp) = Some i"
    and "0 < wk_credit (sl_workers sp ! i)" and "sl_queued_works sp = q # qs" and "io_value_type out = IGS_STRING_T"
    and "qw_s q = Some (wr_cstr s)" and "no_nul s"
  shows "if length s < 16
    then \<exists>fs. work_message sp (sl_workers sp ! i) out q = Some (fs @ [take (Suc (length s))
           (le_bytes 8 (unat (qw_s_address q)) @ le_bytes 8 (qw_value_size q))]) \<and> length fs = 5
    else s_split_trigger_send_message_to_worker env uuid out c = None"
  using string_work_undefined [OF assms, of env] string_frame [OF assms(6,7)] assms(5)
  by (simp add: work_message_def work_memory_def)

theorem string_work_lost_witness:
  "s_split_trigger_send_message_to_worker (split_env.truncate example_app_env) ''u1'' (new_io ''o'' IGS_OUTPUT_T IGS_STRING_T)
      (example_core\<lparr> cx_splitters := [string_splitter ''abcdefghijklmnop''] \<rparr>) = None
   \<and> (\<exists>fs. work_message (string_splitter ''yes'') (new_worker ''w'' ''in'' 1 0) (new_io ''o'' IGS_OUTPUT_T IGS_STRING_T) (string_work ''yes'')
      = Some (fs @ [[CHR 0x10, CHR 0x00, CHR 0x7F, CHR 0x00]]))"
proof -
  have m: "max_credit_worker [new_worker ''w'' ''in'' 1 0] = Some 0" by (simp add: max_credit_worker_def)
  show ?thesis
    using string_work_lost [of "''u1''" "new_io ''o'' IGS_OUTPUT_T IGS_STRING_T"
        "example_core\<lparr> cx_splitters := [string_splitter ''abcdefghijklmnop''] \<rparr>" "string_splitter ''abcdefghijklmnop''" 0
        "string_work ''abcdefghijklmnop''" "[]" "''abcdefghijklmnop''" "split_env.truncate example_app_env"]
      string_work_lost [of "''u1''" "new_io ''o'' IGS_OUTPUT_T IGS_STRING_T"
        "example_core\<lparr> cx_splitters := [string_splitter ''yes''] \<rparr>" "string_splitter ''yes''" 0 "string_work ''yes''" "[]" "''yes''"]
    by (auto simp: m no_nul_def is_splitter_def pointer_bytes)
qed

text \<open>
  C20. A write of the interface, when it is accepted: the value is stored and, for an
  output of an agent that is not in synchronous mode, published under the mutex; then
  the observers run in turn on the new value with the mutex free, and the call returns if
  and only if they do, with the value stored and the mutex free. The observers are
  asked to leave the agents and the mutex as they find them (\<open>quiet env\<close>).
\<close>

theorem write_then_observers:
  assumes "quiet env" and "\<not> cx_model_locked c" and "deref p c = Some a" and "ag_uuid a \<noteq> None" and "agent_wf a"
    and "ios_of t a name = Some io" and "io_value_type io \<noteq> IGS_UNKNOWN_T"
    and "write_io (igs_env.truncate env) (ag_enforce_constraints a) vt v sz io = Some (True, io')"
    and "published t env (on_io t name (\<lambda>_. io') a) io'
      (store p (on_io t name (\<lambda>_. io') a) (c\<lparr> cx_model_locked := True \<rparr>)) = Some c1"
  shows "set_io t env p name vt v sz c
      = map_option (Pair IGS_SUCCESS) (in_turn (notify env p io') (io_callbacks io) (c1\<lparr> cx_model_locked := False \<rparr>))
    \<and> (\<forall>r c'. set_io t env p name vt v sz c = Some (r, c') \<longrightarrow>
         \<not> cx_model_locked c' \<and> deref p c' = Some (on_io t name (\<lambda>_. io') a) \<and> (\<forall>q. q \<noteq> p \<longrightarrow> deref q c' = deref q c))"
proof -
  obtain u where "ag_uuid a = Some u" using assms(4) by blast
  from set_io_reads [OF assms(1-3) this assms(5-8)] set_io_accepted [OF assms] show ?thesis by blast
qed

theorem write_then_observers_witness:
  "\<exists>c'. igsagent_output_set_int noting_env 1 ''out'' 9 watched_core = Some (IGS_SUCCESS, c')
     \<and> deref 1 c' = Some (on_io IGS_OUTPUT_T ''out'' (\<lambda>_. watched_output 9) watched_agent) \<and> \<not> cx_model_locked c'
     \<and> cx_events c' = [Publish_Network [''u1-out'', fmt_d 1, wr_int 9], Zyre_Shouts ''seen'' ''out'']"
proof -
  let ?a = "on_io IGS_OUTPUT_T ''out'' (\<lambda>_. watched_output 9) watched_agent"
  let ?c = "store 1 ?a (watched_core\<lparr> cx_model_locked := True \<rparr>)"
  have w: "write_io (igs_env.truncate noting_env) True IGS_INTEGER_T (Some (wr_int 9)) sizeof_int (watched_output 5)
      = Some (True, watched_output 9)"
    by (simp add: write_io_def write_value_def write_integer_def sizeof_int_def)
  obtain c1 where c1: "published IGS_OUTPUT_T noting_env ?a (watched_output 9) ?c = Some c1" "same_model ?c c1"
    "cx_events c1 = [Publish_Network [''u1-out'', fmt_d 1, wr_int 9]]"
  proof -
    have d: "ag_definition ?a \<noteq> None" "Option.bind (ag_definition ?a) df_name = Some ''alice''"
      by (simp_all add: on_io_def watched_agent_def put_ios_def set_ios_def put_io_def)
    obtain d n where "ag_definition ?a = Some d" "df_name d = Some ''alice''" using d by (cases "ag_definition ?a") auto
    from publish_events [of ?a "''u1''" "watched_output 9" ?c d "''alice''" "pub_env.truncate noting_env"] this
    obtain frames r c2 where "publication_frames (pub_env.truncate noting_env) (publication_time (pub_env.truncate noting_env) ?a ?c) (watched_output 9) = Some frames"
      "network_publish_output (pub_env.truncate noting_env) ?a (watched_output 9) ?c = Some (r, c2)" "same_model ?c c2"
      "cx_events c2 = [Publish_Network ((''u1-out'') # frames)]"
      by (auto simp: store_def on_io_def)
    then show thesis using that
      by (auto simp: published_def publication_time_def publication_frames_def value_frame_def on_io_def)
  qed
  have t: "in_turn (notify noting_env 1 (watched_output 9)) (io_callbacks (watched_output 5)) (c1\<lparr> cx_model_locked := False \<rparr>)
      = Some (emit (Zyre_Shouts ''seen'' ''out'') (c1\<lparr> cx_model_locked := False \<rparr>))"
    by (simp add: notify_def noting_env_def)
  from write_then_observers [of noting_env watched_core 1 watched_agent IGS_OUTPUT_T "''out''" "watched_output 5"
        IGS_INTEGER_T "Some (wr_int 9)" sizeof_int "watched_output 9" c1] w c1(1) t
  show ?thesis using c1(3) by (auto simp: igsagent_output_set_int_def set_io_int_def emit_def)
qed

text \<open>
  C21. Write, then read, through the interface: an int written into an unconstrained io of
  type integer is what the read returns after the observers have run, and no other agent
  has changed.
\<close>

theorem write_then_read:
  assumes "quiet env" and "\<not> cx_model_locked c" and "deref p c = Some a" and "ag_uuid a = Some u" and "agent_wf a"
    and "ios_of t a name = Some io" and "io_value_type io = IGS_INTEGER_T" and "io_constraint io = None"
    and "set_io_int t env p name i c = Some (r, c')"
  shows "r = IGS_SUCCESS \<and> io_int t p name c' = Some (i, c') \<and> (\<forall>q. q \<noteq> p \<longrightarrow> deref q c' = deref q c)"
proof -
  have w: "write_io (igs_env.truncate env) (ag_enforce_constraints a) IGS_INTEGER_T (Some (wr_int i)) sizeof_int io
      = Some (True, set_int i io)"
    using assms(7,8) by (simp add: write_io_def write_value_def write_integer_def sizeof_int_def)
  have s: "r = IGS_SUCCESS \<and> \<not> cx_model_locked c' \<and> deref p c' = Some (on_io t name (\<lambda>_. set_int i io) a)
      \<and> (\<forall>q. q \<noteq> p \<longrightarrow> deref q c' = deref q c)"
    using set_io_reads [OF assms(1-6) _ w] assms(7,9) by (simp add: set_io_int_def)
  have "s_model_read_io_as_int (on_io t name (\<lambda>_. set_int i io) a) name t = Some i"
    using assms(6,7) by (simp add: s_model_read_io_as_int_def ios_of_def read_int_def set_int_def)
  with s assms(4) show ?thesis by (auto simp: io_int_def read_io_iff)
qed

theorem write_then_read_witness:
  "\<exists>c'. igsagent_input_set_int example_app_env 1 ''in'' 9 busy_core = Some (IGS_SUCCESS, c')
     \<and> igsagent_input_int 1 ''in'' c' = Some (9, c')"
proof -
  have w: "write_io (igs_env.truncate example_app_env) True IGS_INTEGER_T (Some (wr_int 9)) sizeof_int (counter IGS_INPUT_T ''in'' 0)
      = Some (True, counter IGS_INPUT_T ''in'' 9)"
    by (simp add: write_io_def write_value_def write_integer_def sizeof_int_def) (simp add: counter_def set_int_def)
  obtain c' where "set_io_int IGS_INPUT_T example_app_env 1 ''in'' 9 busy_core = Some (IGS_SUCCESS, c')"
    using set_io_accepted [of example_app_env busy_core 1 busy_agent IGS_INPUT_T "''in''" "counter IGS_INPUT_T ''in'' 0"
        IGS_INTEGER_T "Some (wr_int 9)" sizeof_int "counter IGS_INPUT_T ''in'' 9"] w
    by (simp add: set_io_int_def published_def)
  with write_then_read [of example_app_env busy_core 1 busy_agent "''u1''" IGS_INPUT_T "''in''" "counter IGS_INPUT_T ''in'' 0" 9]
  show ?thesis by (simp add: igsagent_input_set_int_def igsagent_input_int_def)
qed

text \<open>
  C22. Every write through the interface keeps all agents well-formed (tables and ordered
  names agree, every buffer has the size kept for it), provided the callbacks of the
  application do.
\<close>

theorem writes_keep_invariant:
  "callbacks_keep env agent_wf \<Longrightarrow> all_agents agent_wf c \<Longrightarrow> set_io t env p name vt v sz c = Some (r, c') \<Longrightarrow>
     all_agents agent_wf c'"
  by (rule keepsD [OF wf_values.set_io_keeps])

theorem writes_keep_invariant_witness:
  "\<exists>c'. igsagent_output_set_bool example_app_env 1 ''none'' True example_core = Some (IGS_FAILURE, c') \<and> all_agents agent_wf c'"
proof -
  have m: "model_write e example_agent ''none'' IGS_OUTPUT_T IGS_BOOL_T v n = Some (False, example_agent)" for e v n
    by (simp add: model_write_def model_find_io_by_name_def example_definition_def empty_definition_def io_table_def zh_lookup_def)
  have "set_io IGS_OUTPUT_T example_app_env 1 ''none'' IGS_BOOL_T (Some (wr_bool True)) sizeof_bool example_core
      = Some (IGS_FAILURE, example_core)"
    by (rule set_io_refused [OF _ _ _ _ m]) simp_all
  with writes_keep_invariant [OF example_callbacks_keep example_wf(1) this] show ?thesis
    by (simp add: igsagent_output_set_bool_def set_io_bool_def)
qed

text \<open>
  C23. A publication reaches the mapped inputs and nothing else. When the frames built by
  \<open>network_publish_output\<close> for the output \<open>out\<close> of the agent named \<open>n\<close> arrive, the
  handler returns, and each agent of the process has taken the value, through the
  conversion and constraint check of a write, into every input \<open>k\<close> with a link
  \<open>(k, n, out)\<close> in its mapping; all its other inputs, its outputs and its attributes are
  as before. The wire form of nested messages is only asked to decode what it encodes, and
  the observers of inputs to return and to record only (\<open>observing env\<close>): with one that writes
  an output that output changes, and with one that adds a mapping the cursor of the list moves,
  which may skip entries.
\<close>

theorem publication_reaches_inputs:
  assumes "observing env" and "cx_model_locked c" and "\<not> cx_is_frozen c"
    and "feeding (cx_agents c) c" and "distinct (map fst (cx_agents c))"
    and "no_nul out" and "io_wf io" and "io_value_type io \<noteq> IGS_UNKNOWN_T" and "value_frame io = Some v"
    and "publication_frames penv us io = Some frames" and "\<And>fs. zmsg_decode env (zmsg_encode penv fs) = Some fs"
    and "- (2 ^ 63) \<le> us" "us < 2 ^ 63"
    and ok: "\<And>u q a. (u, q) \<in> set (cx_agents c) \<Longrightarrow> deref q c = Some a \<Longrightarrow> agent_mapping_ok a
      \<and> (\<forall>k i. (k, n, out) \<in> links a \<longrightarrow> ios_of IGS_INPUT_T a k = Some i \<longrightarrow> written_input env a (io_value_type io) v i \<noteq> None)"
  shows "\<exists>c'. s_handle_publication env ruuid (Some n) (out # frames) c = Some c'
    \<and> (\<forall>u q a. (u, q) \<in> set (cx_agents c) \<longrightarrow> deref q c = Some a \<longrightarrow> (\<exists>a'. deref q c' = Some a'
      \<and> (\<forall>k. ios_of IGS_INPUT_T a' k = (if (k, n, out) \<in> links a
            then Option.bind (ios_of IGS_INPUT_T a k) (\<lambda>i. map_option snd (written_input env a (io_value_type io) v i))
            else ios_of IGS_INPUT_T a k))
      \<and> (\<forall>t. t \<noteq> IGS_INPUT_T \<longrightarrow> ios_of t a' = ios_of t a)))"
proof -
  have serve: "\<forall>u q a. (u, q) \<in> set (cx_agents c) \<longrightarrow> deref q c = Some a
      \<longrightarrow> served env (io_value_type io) v (Some n) out a \<noteq> None"
  proof (intro allI impI)
    fix u q a assume "(u, q) \<in> set (cx_agents c)" "deref q c = Some a"
    from ok [OF this] show "served env (io_value_type io) v (Some n) out a \<noteq> None" by (intro served_defined) auto
  qed
  obtain c' where c': "s_handle_publication env ruuid (Some n) (out # frames) c = Some c'"
    "\<forall>q. deref q c' = (if q \<in> snd ` set (cx_agents c)
            then Option.bind (deref q c) (served env (io_value_type io) v (Some n) out) else deref q c)"
    using publication_received [OF assms(1-13) serve] by blast
  show ?thesis
  proof (intro exI [of _ c'] conjI allI impI)
    fix u q a assume a: "(u, q) \<in> set (cx_agents c)" "deref q c = Some a"
    obtain a' where a': "served env (io_value_type io) v (Some n) out a = Some a'" using serve a by blast
    have "deref q c' = Some a'" using c'(2) a a' by (force simp: image_iff)
    with served_inputs [OF a'] ok [OF a] show "\<exists>a'. deref q c' = Some a'
      \<and> (\<forall>k. ios_of IGS_INPUT_T a' k = (if (k, n, out) \<in> links a
            then Option.bind (ios_of IGS_INPUT_T a k) (\<lambda>i. map_option snd (written_input env a (io_value_type io) v i))
            else ios_of IGS_INPUT_T a k))
      \<and> (\<forall>t. t \<noteq> IGS_INPUT_T \<longrightarrow> ios_of t a' = ios_of t a)" by blast
  qed (rule c'(1))
qed

theorem publication_reaches_inputs_witness:
  "\<exists>c' a'. s_handle_publication example_app_env ''FAKE_UUID'' (Some ''bob'') [''out'', fmt_d 1, wr_int 5]
       (busy_core\<lparr> cx_model_locked := True \<rparr>) = Some c'
     \<and> deref 1 c' = Some a' \<and> ios_of IGS_INPUT_T a' ''in'' = Some (counter IGS_INPUT_T ''in'' 5)"
proof -
  have w: "written_input example_app_env busy_agent IGS_INTEGER_T (wr_int 5) (counter IGS_INPUT_T ''in'' 0)
      = Some (True, counter IGS_INPUT_T ''in'' 5)"
    by (simp add: written_input_def write_io_def write_value_def write_integer_def) (simp add: counter_def set_int_def)
  let ?c = "busy_core\<lparr> cx_model_locked := True \<rparr>" and ?io = "counter IGS_OUTPUT_T ''out'' 5"
  have "publication_frames (pub_env.truncate example_app_env) INT64_MIN ?io = Some [fmt_d 1, wr_int 5]"
    by (simp add: publication_frames_def value_frame_def)
  moreover have "feeding (cx_agents ?c) ?c" by (simp add: feeding_def fed_def)
  ultimately obtain c' where c': "s_handle_publication example_app_env ''FAKE_UUID'' (Some ''bob'') [''out'', fmt_d 1, wr_int 5] ?c = Some c'"
    "\<forall>u q a. (u, q) \<in> set (cx_agents ?c) \<longrightarrow> deref q ?c = Some a \<longrightarrow> (\<exists>a'. deref q c' = Some a'
      \<and> (\<forall>k. ios_of IGS_INPUT_T a' k = (if (k, ''bob'', ''out'') \<in> links a
            then Option.bind (ios_of IGS_INPUT_T a k) (\<lambda>i. map_option snd (written_input example_app_env a (io_value_type ?io) (wr_int 5) i))
            else ios_of IGS_INPUT_T a k))
      \<and> (\<forall>t. t \<noteq> IGS_INPUT_T \<longrightarrow> ios_of t a' = ios_of t a))"
    using publication_reaches_inputs [of example_app_env ?c "''out''" ?io "wr_int 5" "pub_env.truncate example_app_env" INT64_MIN
        "[fmt_d 1, wr_int 5]" "''bob''" "''FAKE_UUID''"] w
    by (auto simp: no_nul_def value_frame_def INT64_MIN_def pub_env.truncate_def)
  from c'(2) w have "\<exists>a'. deref 1 c' = Some a' \<and> ios_of IGS_INPUT_T a' ''in'' = Some (counter IGS_INPUT_T ''in'' 5)"
    by (auto dest!: spec [of _ "''in''"])
  with c'(1) show ?thesis by blast
qed

text \<open>
  C24. What a publication sends: for an unmuted output without splitters, one message,
  \<open>uuid-name\<close> followed by the frames, to the network socket and to the ipc and inproc
  sockets the context has, then the command \<open>HANDLE_PUBLICATION\<close> to the pipe when the
  process holds another agent; nothing but the events changes.
\<close>

theorem publication_sent:
  assumes "ag_context a" and "ag_uuid a = Some uuid" and "\<not> ag_is_whole_agent_muted a" and "\<not> io_is_muted io"
    and "\<not> cx_is_frozen c" and "io_wf io" and "ag_definition a = Some d" and "df_name d = Some n"
    and "\<forall>s \<in> set (cx_splitters c). \<not> is_splitter uuid (io_name io) s"
  shows "\<exists>frames r c'. publication_frames env (publication_time env a c) io = Some frames
     \<and> network_publish_output env a io c = Some (r, c') \<and> same_model c c'
     \<and> cx_events c' = cx_events c
         @ (let m = (uuid @ ''-'' @ io_name io) # frames
            in if cx_network_actor c \<and> cx_publisher c
               then Publish_Network m # (if cx_ipc_publisher c then [Publish_Ipc m] else [])
                    @ (if cx_inproc_publisher c then [Publish_Inproc m] else [])
               else [])
         @ (if cx_network_actor c \<and> \<not> ag_is_virtual a \<and> length (cx_agents c) > 1
            then [Pipe_Send ([''HANDLE_PUBLICATION'', n, io_name io] @ frames)] else [])"
  by (rule publish_events [OF assms])

theorem publication_sent_witness:
  "\<exists>r c'. network_publish_output (pub_env.truncate example_app_env) busy_agent (counter IGS_OUTPUT_T ''out'' 5) busy_core = Some (r, c')
     \<and> cx_events c' = [Publish_Network [''u1-out'', fmt_d 1, wr_int 5]]"
  using publication_sent [of busy_agent "''u1''" "counter IGS_OUTPUT_T ''out'' 5" busy_core busy_definition "''alice''"
      "pub_env.truncate example_app_env"]
  by (auto simp: publication_time_def publication_frames_def value_frame_def)

text \<open>
  C25. A muted output, a muted agent and a frozen context publish nothing: no event, no
  queued work, the context is as before.
\<close>

theorem muted_silent:
  assumes "ag_uuid a = Some uuid" and "ag_is_whole_agent_muted a \<or> io_is_muted io \<or> cx_is_frozen c"
  shows "\<exists>r. network_publish_output env a io c = Some (r, c)"
  by (rule publish_muted [OF assms])

theorem muted_silent_witness:
  "\<exists>r. network_publish_output (pub_env.truncate example_app_env) busy_agent ((counter IGS_OUTPUT_T ''out'' 5)\<lparr> io_is_muted := True \<rparr>) busy_core
     = Some (r, busy_core)"
  by (rule muted_silent [of _ "''u1''"]) simp_all

text \<open>
  C26. A service call over the wire. The message that \<open>igsagent_service_call\<close> builds,
  handled in the process of the callee, calls the function of the service with the
  argument values under the names the callee declared, with the uuid and name of the
  caller and the token, while the callee shows the timestamp of the call and the mutex
  is free; afterwards the timestamp is reset.
\<close>

theorem call_over_the_wire:
  assumes "list_all2 (\<lambda>x a. sa_type x = sa_type a \<and> sa_name x \<noteq> None) (sv_arguments s) args" and "list_all arg_ok args"
    and "call_message a ra sname (Some tok) args us = Some msg"
    and "- (2 ^ 63) \<le> us" "us < 2 ^ 63" "\<not> ag_rt_timestamps_enabled a \<longrightarrow> us = INT64_MIN"
    and "ag_uuid a = Some cu" "no_nul cu" "no_nul (ra_uuid ra)" "no_nul sname" "no_nul tok"
    and "\<not> cx_model_locked c" "zh_lookup (cx_agents c) (ra_uuid ra) = Some q" "deref q c = Some la" "ag_uuid la = Some lu"
      "ag_definition la = Some d" "zh_lookup (df_services d) sname = Some s" "sv_cb s = Some cb" "ag_igs_channel la = Some ch"
      "caller_name_of peer cu c = Some cn"
    and "c1 = emit (callee_shout ch sname cn cu) c"
    and "call_service env cb q (Some cn) cu sname (map2 received (sv_arguments s) args) (length args) (Some tok) (sv_cb_data s)
           (store q (la\<lparr> ag_rt_current_timestamp := us \<rparr>) c1) = Some c2"
      "\<not> cx_model_locked c2" "deref q c2 = Some la2"
  shows "handle_call_service env peer msg c = Some ((),
    if ag_uuid la2 = None then c2 else store q (la2\<lparr> ag_rt_current_timestamp := INT64_MIN \<rparr>) c2)"
  by (rule call_delivered [OF assms])

theorem call_over_the_wire_witness:
  "handle_call_service example_app_env ''host'' [''SERVICE'', ''caller'', ''u1'', ''add'', ''tk'', wr_int 3] serving_core
     = Some ((), store 1 (serving_agent\<lparr> ag_rt_current_timestamp := INT64_MIN \<rparr>)
         (emit (callee_shout ''alice-IGS'' ''add'' ''host'' ''caller'') serving_core))"
proof -
  let ?a = "example_agent\<lparr> ag_uuid := Some ''caller'' \<rparr>"
  let ?x = "zero_arg\<lparr> sa_type := IGS_INTEGER_T, sa_i := 3, sa_size := sizeof_int \<rparr>"
  let ?c1 = "emit (callee_shout ''alice-IGS'' ''add'' ''host'' ''caller'') serving_core"
  have m: "call_message ?a (example_remote ''u1'') ''add'' (Some ''tk'') [?x] INT64_MIN
      = Some [''SERVICE'', ''caller'', ''u1'', ''add'', ''tk'', wr_int 3]"
    by (simp add: call_message_def call_title_def example_remote_def example_peer_def arg_frame_def example_agent_def)
  let ?la = "serving_agent\<lparr> ag_rt_current_timestamp := INT64_MIN \<rparr>"
  have "handle_call_service example_app_env ''host'' [''SERVICE'', ''caller'', ''u1'', ''add'', ''tk'', wr_int 3] serving_core
      = Some ((), if ag_uuid ?la = None then store 1 ?la ?c1 else store 1 (?la\<lparr> ag_rt_current_timestamp := INT64_MIN \<rparr>) (store 1 ?la ?c1))"
    by (rule call_over_the_wire [OF _ _ m, where q = 1 and la = serving_agent
          and d = "put_services (reg_add ''add'' adder ([], [])) busy_definition" and lu = "''u1''" and s = adder and cb = 7
          and ch = "''alice-IGS''" and cn = "''host''"])
      (simp_all add: arg_ok_def no_nul_def INT64_MIN_def caller_name_of_def zh_lookup_def example_agent_def
         example_remote_def put_services_def reg_add_def zh_insert_def)
  then show ?thesis by simp
qed

text \<open>
  C27. A peer that joins the private channel is told of every active agent, in the order of the
  table: its definition and its mapping, in the version of the protocol of the peer, and then
  its state (mutes, state, paths, freezing, log). The messages are sent once each, in that
  order, after all that was sent before; the peer is marked as joined and nothing else changes.
\<close>

theorem newcomer_is_told:
  assumes "\<not> cx_model_locked c" and "ze_group ev = IGS_PRIVATE_CHANNEL"
    and "zh_lookup (cx_zyre_peers c) (ze_peer_uuid ev) = Some pe" and "cx_node c"
    and "list_all (introducible c) (map snd (cx_agents c))"
  shows "zyre_join ev c = Some (Carry_On, put_peer (ze_peer_uuid ev) (\<lambda>pe. pe\<lparr> pe_has_joined_private_channel := True \<rparr>)
    (emit_all (map (Zyre_Whisper (ze_peer_uuid ev)) (concat (map (introduction pe c) (map snd (cx_agents c))))) c))"
  by (rule join_tells [OF assms])

lemma newcomer_is_told_witness:
  "\<exists>c'. zyre_join (peer_event ''JOIN'' IGS_PRIVATE_CHANNEL []) meeting_core = Some (Carry_On, c')
     \<and> map (\<lambda>e. case e of Zyre_Whisper p (t # m) \<Rightarrow> (p, t) | _ \<Rightarrow> ([], [])) (cx_events c')
       = map (Pair ''them'') [''EXTERNAL_DEFINITION#'', ''EXTERNAL_MAPPING#'', ''MUTED'', ''FROZEN'', ''LOG_IN_STREAM'',
           ''LOG_IN_FILE'', ''LOG_FILE_PATH'']"
  using newcomer_is_told [of meeting_core "peer_event ''JOIN'' IGS_PRIVATE_CHANNEL []" "example_peer\<lparr> pe_peer_id := ''them'' \<rparr>"]
  by (simp add: put_peer_def emit_all_def introduction_def state_messages_def Let_def watching_agent_def example_agent_def
      example_definition_def empty_definition_def)

text \<open>
  C28. A mapping reaches the other processes unchanged: the message that
  \<open>s_send_mapping_to_zyre_peer\<close> builds for an agent with a well-formed mapping of clean UTF-8
  names, handled by a process that knows the agent, gives the remote agent there the same
  entries with the same ids, in order, and their texts. No other remote agent and no agent
  of the process changes, and the mutex is free again. The functions of the application
  return and record only.
\<close>

theorem mapping_over_the_wire:
  assumes "ag_uuid a = Some u" and "ag_mapping a = Some m" and "ag_context a" and "cx_node s" and "pe_protocol pe \<noteq> Some ''v2''"
    and "agent_mapping_ok a" and "mapping_clean m" and "mapping_utf8 m" and "no_nul u"
    and "s_send_mapping_to_zyre_peer a peer (or_empty (mapping_for pe m)) s = emit (Zyre_Whisper peer (ze_msg ev)) s"
    and "telling (app_of env)" and "ctx_ok c" and "\<not> cx_model_locked c"
    and "zh_lookup (cx_remote_agents c) u = Some ra" and "ra_uuid ra = u" and "ra_definition ra = Some d" and "df_name d = Some n"
  shows "\<exists>c'. zyre_whisper env ev c = Some (Carry_On, c')
    \<and> zh_lookup (cx_remote_agents c') u = Some (ra\<lparr> ra_mapping := Some (refreshed_mapping m) \<rparr>)
    \<and> (\<forall>v. v \<noteq> u \<longrightarrow> zh_lookup (cx_remote_agents c') v = zh_lookup (cx_remote_agents c) v)
    \<and> cx_store c' = cx_store c \<and> cx_agents c' = cx_agents c \<and> \<not> cx_model_locked c'"
  by (rule mapping_sent_and_received [OF assms])

lemma mapping_over_the_wire_witness:
  "\<exists>c' ra m. zyre_whisper example_peer_env (peer_event ''WHISPER'' [] [''EXTERNAL_MAPPING#'', mapping_text busy_mapping, ''u1'']) receiving_core
       = Some (Carry_On, c')
     \<and> zh_lookup (cx_remote_agents c') ''u1'' = Some ra \<and> ra_mapping ra = Some m
     \<and> map (\<lambda>e. (mp_from_input e, mp_to_agent e, mp_to_output e)) (mg_map_elements m) = [(''in'', ''bob'', ''out'')]"
proof -
  let ?ev = "peer_event ''WHISPER'' [] [''EXTERNAL_MAPPING#'', mapping_text busy_mapping, ''u1'']"
  have json: "mg_json busy_mapping = Some (mapping_text busy_mapping)" using busy_mapping_ok by (simp add: agent_mapping_ok_def)
  have "s_send_mapping_to_zyre_peer busy_agent ''them'' (or_empty (mapping_for example_peer busy_mapping)) example_core
      = emit (Zyre_Whisper ''them'' (ze_msg ?ev)) example_core"
    using json by (simp add: s_send_mapping_to_zyre_peer_def mapping_for_def example_peer_def or_empty_def)
  then obtain c' where c': "zyre_whisper example_peer_env ?ev receiving_core = Some (Carry_On, c')"
      "zh_lookup (cx_remote_agents c') ''u1'' = Some ((known_remote ''u1'' ''them'')\<lparr> ra_mapping := Some (refreshed_mapping busy_mapping) \<rparr>)"
    using mapping_over_the_wire [of busy_agent "''u1''" busy_mapping example_core example_peer "''them''" ?ev example_peer_env
        receiving_core "known_remote ''u1'' ''them''" "empty_definition\<lparr> df_name := Some ''bob'', df_json := Some ''{}'' \<rparr>" "''bob''"]
    by (auto simp: no_nul_def example_peer_def)
  have m: "map (\<lambda>e. (mp_from_input e, mp_to_agent e, mp_to_output e)) (mg_map_elements busy_mapping) = [(''in'', ''bob'', ''out'')]"
    by (simp add: busy_mapping_def Let_def new_map_def)
  show ?thesis
    by (rule exI [of _ c'], rule exI [of _ "(known_remote ''u1'' ''them'')\<lparr> ra_mapping := Some (refreshed_mapping busy_mapping) \<rparr>"],
        rule exI [of _ "refreshed_mapping busy_mapping"]) (simp add: c' m)
qed

text \<open>
  C29. When a peer exits that did not come back in the meantime, exactly its remote agents
  leave the table of remote agents, in whatever order they were found, and it leaves the
  table of peers. Remote agents of other peers and all agents of the process stay, and the
  handler returns with the mutex free, though it gives the mutex away to tell the agents of
  every single exit. The functions of the application for events return and record only
  (\<open>telling (app_of env)\<close>): one that writes a value changes an agent of the process.
\<close>

theorem peer_is_gone:
  assumes "telling (app_of env)" and "ctx_ok c" and "\<not> cx_model_locked c" and "remotes_ok c" and "subscribed_ok c"
    and "zh_lookup (cx_zyre_peers c) (ze_peer_uuid ev) = Some pe" and "pe_peer_id pe = ze_peer_uuid ev" and "pe_reconnected pe = 0"
  shows "\<exists>c'. zyre_exit env ev c = Some (Carry_On, c')
    \<and> cx_remote_agents c' = filter (\<lambda>e. \<not> of_peer (ze_peer_uuid ev) e) (cx_remote_agents c)
    \<and> cx_zyre_peers c' = zh_delete (ze_peer_uuid ev) (cx_zyre_peers c)
    \<and> cx_store c' = cx_store c \<and> cx_agents c' = cx_agents c \<and> cx_created_agents c' = cx_created_agents c \<and> \<not> cx_model_locked c'"
  by (rule exit_result [OF assms])

lemma peer_is_gone_witness:
  "\<exists>c'. zyre_exit example_peer_env (peer_event ''EXIT'' [] []) meeting_core = Some (Carry_On, c')
     \<and> cx_remote_agents c' = [(''r2'', known_remote ''r2'' ''others'')] \<and> zh_lookup (cx_zyre_peers c') ''them'' = None"
  using peer_is_gone [of example_peer_env meeting_core "peer_event ''EXIT'' [] []" "example_peer\<lparr> pe_peer_id := ''them'' \<rparr>"]
  by (auto simp: of_peer_def table_simps example_peer_def)

text \<open>
  C30. A publication whose id is missing or shorter than a uuid returns with the mutex
  locked: afterwards no operation that takes the mutex returns.
\<close>

theorem short_id_stops_the_process:
  assumes "\<not> cx_model_locked c" and "case popstr msg of None \<Rightarrow> True | Some (i, r) \<Rightarrow> length i < 32"
  shows "\<exists>c'. s_manage_received_publication env msg c = Some ((), c') \<and> locked op c' = None"
  using received_id_missing [OF assms, of env] by (auto intro: locked_twice)

theorem short_id_stops_the_process_witness:
  "\<exists>c'. s_manage_received_publication example_app_env [''short''] busy_core = Some ((), c')
     \<and> locked (on_agent 1 (create_body example_env ''x'' IGS_INPUT_T 1 None 0)) c' = None"
  by (rule short_id_stops_the_process) (simp_all add: popstr_def)

text \<open>
  C31. No worker is overdrawn by the splitter itself: sending, queueing, removing workers and
  granting a credit that is not negative keep every credit at or above zero. The credit comes
  from the messages of the workers, where it is not checked.
\<close>

theorem credits_never_negative:
  assumes "credits_ok c"
  shows "(\<forall>env uuid out c'. s_split_trigger_send_message_to_worker env uuid out c = Some c' \<longrightarrow> credits_ok c')
    \<and> (\<forall>env ag out uuid input k n c'. 0 \<le> k \<longrightarrow> s_split_add_credit_to_worker env ag out uuid input k n c = Some c' \<longrightarrow> credits_ok c')
    \<and> (\<forall>uuid input. credits_ok (split_remove_worker uuid input c))
    \<and> (\<forall>env uuid out c'. split_add_work_to_queue env uuid out c = Some c' \<longrightarrow> credits_ok c')"
  using trigger_credits [OF assms] add_credit_credits [OF assms] remove_worker_credits [OF assms] add_work_credits [OF assms]
  by blast

theorem credits_never_negative_witness:
  "\<exists>c'. split_add_work_to_queue (split_env.truncate example_app_env) ''u1'' (counter IGS_OUTPUT_T ''out'' 5)
        (busy_core\<lparr> cx_model_locked := True, cx_splitters := [busy_splitter 1 0] \<rparr>) = Some c'
     \<and> cx_splitters c' = [busy_splitter 0 1] \<and> credits_ok c'"
proof -
  let ?c = "busy_core\<lparr> cx_model_locked := True, cx_splitters := [busy_splitter 1 0] \<rparr>"
  obtain c' where c': "split_add_work_to_queue (split_env.truncate example_app_env) ''u1'' (counter IGS_OUTPUT_T ''out'' 5) ?c = Some c'"
    "cx_splitters c' = [busy_splitter 0 1]"
    using busy_splitter_works by blast
  moreover have "credits_ok ?c" by (simp add: credits_ok_def busy_splitter_def new_worker_def)
  ultimately show ?thesis using credits_never_negative [of ?c] by blast
qed

text \<open>
  C32. A parsed definition, whatever the tree: names and tables agree and every io is
  well-formed, except for services with two replies of one name, which are accepted.
\<close>

theorem parsed_definition_wf:
  assumes "parser_parse_definition_from_node env json = Some (Some d)"
  shows "definition_wf d \<longleftrightarrow> (\<forall>(k, s) \<in> set (df_services d). distinct (sv_replies_names s))"
  by (rule parse_definition_wf [OF assms])

theorem parsed_definition_wf_witness:
  "\<exists>d. parser_parse_definition_from_node example_env (JMap [(''definition'', JMap [(''name'', JString ''bob'')])]) = Some (Some d)
     \<and> definition_wf d"
proof -
  have "cleaned IGS_MAX_AGENT_NAME_LENGTH IGS_MAX_AGENT_NAME_LENGTH ''bob'' = Some ''bob''"
    by (rule cleaned_id) (simp_all add: clean_text_def no_nul_def is_ctl_def IGS_MAX_AGENT_NAME_LENGTH_def)
  then obtain d where d: "parser_parse_definition_from_node example_env (JMap [(''definition'', JMap [(''name'', JString ''bob'')])])
      = Some (Some d)" "df_services d = []"
    by (simp add: parser_parse_definition_from_node_def parse_inputs_def parse_outputs_def parse_attributes_def parse_services_def
        find_string_def igs_json_node_find_def in_array_def or_else_def optional_def node_string_def put_services_def)
  with parsed_definition_wf [OF d(1)] show ?thesis by simp
qed

text \<open>
  C33. Whatever calls of the interface, events of the network with their handlers, publications,
  timers, messages of the parent thread and ends of the event loop follow one another from an
  empty context, the tables hold each uuid once, every active agent was created, and behind
  every entry of the table of created agents there is an agent with that uuid, a well-formed
  definition and a well-formed mapping. What is asked: the functions of the application keep this themselves and do not
  bring back an agent that is being destroyed (\<open>node_sound\<close>, otherwise they may do what they
  want); a new agent, and the core agent where a call creates it, gets a uuid and memory not in
  use (\<open>fresh_agent\<close>, \<open>core_ready\<close>); and no definition is loaded, by a call or an event, that has
  two replies of one name in a service, which the parser accepts.
\<close>

theorem reachable_contexts:
  assumes "node_sound env" and "cx_created_agents c0 = []" and "cx_agents c0 = []" and "reachable env pe c0 c"
  shows "zh_wf (cx_created_agents c) \<and> zh_wf (cx_agents c) \<and> set (cx_agents c) \<subseteq> set (cx_created_agents c)
    \<and> (\<forall>(u, p) \<in> set (cx_created_agents c). \<exists>a. deref p c = Some a \<and> ag_uuid a = Some u
         \<and> agent_wf a \<and> agent_mapping_ok a \<and> ag_definition a \<noteq> None \<and> ag_mapping a \<noteq> None)"
proof -
  have "ctx_ok c0" using assms(2,3) by (simp add: ctx_ok_def)
  from reachable_ok [OF assms(1,4) this] show ?thesis by (simp add: ctx_ok_def good_def)
qed

lemma reachable_contexts_witness:
  "reachable example_peer_env example_parse_env empty_core carol_core
   \<and> (\<exists>a. deref 2 carol_core = Some a \<and> ag_uuid a = Some ''u2'' \<and> agent_wf a)"
proof -
  have "event_loads_well example_peer_env (peer_event ''JOIN'' ''team'' [])" by (simp add: event_loads_well_def popstr_def)
  then have "node_step example_peer_env example_parse_env empty_core empty_core"
    using example_core_ready by (intro node_step.event [OF _ _ example_joined]) simp_all
  moreover have "node_step example_peer_env example_parse_env empty_core carol_core"
    by (rule node_step.api, unfold example_app_of, rule api_step.new [OF empty_core_simps(5) carol_created])
  ultimately have r: "reachable example_peer_env example_parse_env empty_core carol_core"
    by (blast intro: reachable.intros)
  from reachable_contexts [OF example_node_sound empty_core_simps(2,1) r] have
    "\<forall>(u, p) \<in> set (cx_created_agents carol_core). \<exists>a. deref p carol_core = Some a \<and> ag_uuid a = Some u
         \<and> agent_wf a \<and> agent_mapping_ok a \<and> ag_definition a \<noteq> None \<and> ag_mapping a \<noteq> None" by blast
  then show ?thesis using r by (auto simp: carol_core_def)
qed

text \<open>
  C34. Creating an agent with a valid name, without activating it, returns its address.
  The agent there has the new uuid, the name as given, the channel of that name, no input,
  output, attribute or service, and no mapping entry. It is created but not active, and no
  other agent is touched.
\<close>

theorem new_agent_is_clean:
  assumes "\<not> cx_model_locked c" and "fresh_agent env (c\<lparr> cx_model_locked := True \<rparr>)"
    and "no_nul name" and "name \<noteq> []" and "length name \<le> IGS_MAX_AGENT_NAME_LENGTH" and "\<forall>ch \<in> set name. \<not> is_ctl ch"
  shows "\<exists>p c' a d m. igsagent_new env name False c = Some (p, c') \<and> deref p c' = Some a
    \<and> ag_uuid a = Some (zuuid_new env (c\<lparr> cx_model_locked := True \<rparr>))
    \<and> zh_lookup (cx_created_agents c') (zuuid_new env (c\<lparr> cx_model_locked := True \<rparr>)) = Some p
    \<and> cx_agents c' = cx_agents c \<and> (\<forall>q. q \<noteq> p \<longrightarrow> deref q c' = deref q c)
    \<and> ag_definition a = Some d \<and> df_name d = Some name \<and> ag_igs_channel a = Some (channel_of name)
    \<and> df_inputs d = [] \<and> df_outputs d = [] \<and> df_attributes d = [] \<and> df_services d = []
    \<and> ag_mapping a = Some m \<and> mg_map_elements m = [] \<and> mg_split_elements m = []"
proof -
  let ?u = "zuuid_new env (c\<lparr> cx_model_locked := True \<rparr>)" and ?p = "zmalloc_agent env (c\<lparr> cx_model_locked := True \<rparr>)"
  have look: "zh_lookup (cx_created_agents c) ?u = None" using assms(2) by (simp add: fresh_agent_def)
  have d: "df_inputs (new_definition name) = []" "df_outputs (new_definition name) = []"
    "df_attributes (new_definition name) = []" "df_services (new_definition name) = []"
    by (simp_all add: new_definition_def first_definition_def refreshed_def renamed_def empty_definition_def)
  have m: "ag_mapping (new_agent ?u name) = Some (refreshed_mapping empty_mapping)"
    "mg_map_elements (refreshed_mapping empty_mapping) = []" "mg_split_elements (refreshed_mapping empty_mapping) = []"
    by (simp_all add: new_agent_def empty_mapping_def)
  show ?thesis unfolding new_agent_result [OF assms refl refl]
    by (rule exI [of _ ?p],
        rule exI [of _ "(store ?p (new_agent ?u name) c)\<lparr> cx_created_agents := zh_insert ?u ?p (cx_created_agents c) \<rparr>"],
        rule exI [of _ "new_agent ?u name"], rule exI [of _ "new_definition name"],
        rule exI [of _ "refreshed_mapping empty_mapping"])
      (use d m look in \<open>simp add: deref_def store_def table_simps\<close>)
qed

lemma new_agent_is_clean_witness:
  "\<exists>p c' a d. igsagent_new example_app_env ''carol'' False empty_core = Some (p, c') \<and> deref p c' = Some a
     \<and> ag_definition a = Some d \<and> df_name d = Some ''carol''"
  using new_agent_is_clean [OF empty_core_simps(3,5) carol_name] by blast

text \<open>
  C35. Renaming an agent to a valid name that it does not have yet: the name is read back,
  the channel follows it, the class follows it when it was the name and nobody set it, an
  agent on the network leaves the channel of the old name and then joins that of the new
  one, and nothing else is sent.
\<close>

theorem renamed_agent:
  assumes "deref p c = Some a" and "ag_uuid a = Some u" and "agent_wf a" and "ag_definition a = Some d" and "df_name d = Some old"
    and "\<not> cx_model_locked c" and "no_nul name" and "name \<noteq> []" and "length name \<le> IGS_MAX_AGENT_NAME_LENGTH"
    and "\<forall>ch \<in> set name. \<not> is_ctl ch" and "old \<noteq> name"
  shows "\<exists>c' a' d'. igsagent_set_name p name c = Some ((), c') \<and> igsagent_name p c' = Some (Some name, c')
    \<and> deref p c' = Some a' \<and> ag_definition a' = Some d' \<and> ag_igs_channel a' = Some (name @ ''-IGS'')
    \<and> df_my_class d' = (if df_my_class d = None \<or> (df_my_class d = Some old \<and> \<not> df_class_set_explicitly d)
                         then Some name else df_my_class d)
    \<and> cx_events c' = cx_events c @ (if ag_context a \<and> cx_node c
         then [Zyre_Leave (old @ ''-IGS''), Zyre_Join (name @ ''-IGS'')] else [])"
proof -
  let ?a = "a\<lparr> ag_definition := Some (refreshed (renamed name d)), ag_need_definition_update := True,
              ag_igs_channel := Some (channel_of name) \<rparr>"
  let ?s = "store p ?a c"
  let ?c = "if ag_context a \<and> cx_node c then emit (Zyre_Join (channel_of name)) (emit (Zyre_Leave (channel_of old)) ?s) else ?s"
  have "ag_uuid a \<noteq> None" using assms(2) by simp
  from set_name_result [OF assms(1) this assms(3-11)]
  have r: "igsagent_set_name p name c = Some ((), ?c)" by (simp add: Let_def store_def)
  have a: "deref p ?c = Some ?a" by simp
  have l: "\<not> cx_model_locked ?c" using assms(6) by simp
  have n: "igsagent_name p ?c = Some (Some name, ?c)"
    by (rule igsagent_name_result [OF a _ l, of u "refreshed (renamed name d)"]) (use assms(2) in \<open>simp_all add: refreshed_names\<close>)
  have cl: "df_my_class (refreshed (renamed name d)) = (if df_my_class d = None \<or> (df_my_class d = Some old \<and> \<not> df_class_set_explicitly d)
                         then Some name else df_my_class d)"
    using assms(5) by (auto simp: refreshed_def renamed_def split: option.splits)
  have e: "cx_events ?c = cx_events c @ (if ag_context a \<and> cx_node c
         then [Zyre_Leave (old @ ''-IGS''), Zyre_Join (name @ ''-IGS'')] else [])"
    by (simp add: emit_def store_def channel_of_def)
  show ?thesis
    by (rule exI [of _ ?c], rule exI [of _ ?a], rule exI [of _ "refreshed (renamed name d)"])
      (use r n a cl e in \<open>simp add: channel_of_def\<close>)
qed

lemma renamed_agent_witness:
  "\<exists>c'. igsagent_set_name 1 ''carol'' example_core = Some ((), c') \<and> igsagent_name 1 c' = Some (Some ''carol'', c')
     \<and> cx_events c' = [Zyre_Leave ''alice-IGS'', Zyre_Join ''carol-IGS'']"
proof -
  have "df_name example_definition = Some ''alice''" "''alice'' \<noteq> ''carol''" "\<not> cx_model_locked example_core"
    "ag_context example_agent" "cx_node example_core" "cx_events example_core = []"
    by (simp_all add: example_definition_def example_agent_def example_core_def)
  then show ?thesis
    using renamed_agent [OF example_simps(2) example_simps(4) example_agent_wf example_simps(5) _ _ carol_name, of "''alice''"]
    by auto
qed

text \<open>
  C36. Propagating an event of the agent \<open>u\<close>, when the functions of the application return
  and only record what they are told, always returns, and is one call after the other of
  every function that the other active agents registered for events: each once, agents in
  the order of the table, functions in the order of registration. The loop of the code,
  which searches its next agent again after each unlocked call, is that plain sequence.
\<close>

theorem events_reach_every_observer:
  assumes "telling env" and "ctx_ok c" and "\<not> cx_model_locked c"
  shows "agent_LOCKED_propagate_agent_event env e (Some u) (Some n) x c
      = map_option (Pair ()) (in_turn (\<lambda>(p, w). call_event env (wr_callback w) p e u n x (wr_my_data w))
          (concat (map (\<lambda>(v, p). if v = u then [] else map (Pair p) (ag_agent_event_callbacks (the (deref p c)))) (cx_agents c))) c)
    \<and> agent_LOCKED_propagate_agent_event env e (Some u) (Some n) x c \<noteq> None"
proof -
  have st: "standing (cx_agents c) c" "distinct (map fst (cx_agents c))" using ctx_ok_standing [OF assms(2)] by auto
  have "listeners_at u c y = (case y of (v, p) \<Rightarrow> if v = u then [] else map (Pair p) (ag_agent_event_callbacks (the (deref p c))))"
    if "y \<in> set (cx_agents c)" for y
    using st(1) that by (cases y) (auto simp: standing_def listeners_at_def)
  then have l: "listeners u (cx_agents c) c
      = concat (map (\<lambda>(v, p). if v = u then [] else map (Pair p) (ag_agent_event_callbacks (the (deref p c)))) (cx_agents c))"
    unfolding listeners_def by - (rule arg_cong [of _ _ concat], rule map_cong, auto)
  have f: "(\<lambda>(p, w). call_event env (wr_callback w) p e u n x (wr_my_data w)) = tell env e u n x"
    by (auto simp: tell_def fun_eq_iff)
  obtain c' where "in_turn (tell env e u n x) (listeners u (cx_agents c) c) c = Some c'"
    using in_turn_returns [of "tell env e u n x"] tell_returns [OF assms(1)] by blast
  then show ?thesis using propagate_result [OF assms(1,3) st, of e u n x] unfolding l [symmetric] f by simp
qed

lemma events_reach_every_observer_witness:
  "agent_LOCKED_propagate_agent_event example_app_env IGS_AGENT_EXITED (Some ''u9'') (Some ''dave'') None watching_core
     = map_option (Pair ()) (call_event example_app_env 7 1 IGS_AGENT_EXITED ''u9'' ''dave'' None 0 watching_core)"
  using events_reach_every_observer [OF example_telling watching_simps(1,2), of IGS_AGENT_EXITED "''u9''" "''dave''" None]
  by (simp add: watch_def example_app_env_def)

text \<open>
  C37. Activating a created agent that is not active returns, with success, whatever agents
  of the process and of the network are known already, when the functions of the
  application return and only record (\<open>telling env\<close>): the table of active agents has the entry
  of the agent and those it had before, each once, the agent knows the context, what it sends
  first is that it joins its channel, no other agent has changed, and the mutex is free.
\<close>

theorem activation_takes_effect:
  assumes "telling env" and "ctx_ok c" and "created p c" and "deref p c = Some a" and "ag_uuid a = Some u"
    and "\<not> cx_model_locked c" and "named (ag_definition a)" and "announced c" and "remotes_ok c"
    and "zh_lookup (cx_agents c) u = None" and "ag_igs_channel a = Some ch"
  shows "\<exists>c' a' es. igsagent_activate env p c = Some (IGS_SUCCESS, c') 
    \<and> set (cx_agents c') = insert (u, p) (set (cx_agents c)) \<and> zh_wf (cx_agents c')
    \<and> deref p c' = Some a' \<and> ag_context a' \<and> ag_need_definition_update a' \<and> (\<forall>q. q \<noteq> p \<longrightarrow> deref q c' = deref q c)
    \<and> cx_events c' = cx_events c @ (if cx_node c then [Zyre_Join ch] else []) @ es \<and> \<not> cx_model_locked c'"
proof -
  have "cx_node c \<longrightarrow> ag_igs_channel a \<noteq> None" using assms(11) by simp
  then obtain c' where c': "igsagent_activate env p c = Some (IGS_SUCCESS, c')" "same_model (entered p a u c) c'"
    using activation_returns [OF assms(1-10)] by blast
  note k = same_model_keep [OF c'(2)]
  obtain es where "cx_events c' = cx_events (entered p a u c) @ es" using c'(2) by (auto simp: same_model_def)
  then have e: "cx_events c' = cx_events c @ (if cx_node c then [Zyre_Join ch] else []) @ es"
    using assms(11) by (simp add: entered_def Let_def emit_def store_def)
  have t: "set (zh_insert u p (cx_agents c)) = insert (u, p) (set (cx_agents c))" "zh_wf (zh_insert u p (cx_agents c))"
    using assms(2,10) by (simp_all add: set_zh_insert zh_wf_insert ctx_ok_def)
  have x: "ag_context (activated c a)" "ag_need_definition_update (activated c a)" by (simp_all add: activated_def)
  show ?thesis
    by (rule exI [of _ c'], rule exI [of _ "activated c a"], rule exI [of _ es]) (use c'(1) k e t x assms(6) in simp)
qed

lemma activation_takes_effect_witness:
  "\<exists>c' es. igsagent_activate example_app_env 2 carol_core = Some (IGS_SUCCESS, c') \<and> set (cx_agents c') = {(''u2'', 2)}
     \<and> cx_events c' = Zyre_Join ''carol-IGS'' # es"
proof -
  have "cx_agents carol_core = []" "cx_node carol_core" "cx_events carol_core = []" "channel_of ''carol'' = ''carol-IGS''"
    by (simp_all add: carol_core_def empty_core_def example_core_def store_def channel_of_def)
  then show ?thesis
    using activation_takes_effect [OF example_telling carol_simps(1-3) new_agent_simps(1) carol_simps(4) _ carol_simps(5-7) new_agent_simps(3)]
    by auto
qed

text \<open>
  C38. Destroying an agent, active or not, returns, when the functions of the application
  return and only record (\<open>telling env\<close>): its memory is freed, its uuid is in neither table of agents, every
  other agent and every other entry is as before. The elections are untouched, so an agent
  that joined one is still listed there after its destruction.
\<close>

theorem destroyed_agent_is_gone:
  assumes "telling env" and "ctx_ok c" and "deref p c = Some a" and "ag_uuid a = Some u"
    and "\<not> cx_model_locked c" and "named (ag_definition a)" and "ag_igs_channel a = Some ch"
  shows "\<exists>c'. igsagent_destroy env p c = Some ((), c') \<and> deref p c' = None \<and> (\<forall>q. q \<noteq> p \<longrightarrow> deref q c' = deref q c)
    \<and> (\<forall>v. zh_lookup (cx_agents c') v = (if v = u then None else zh_lookup (cx_agents c) v))
    \<and> (\<forall>v. zh_lookup (cx_created_agents c') v = (if v = u then None else zh_lookup (cx_created_agents c) v))
    \<and> cx_elections c' = cx_elections c"
proof -
  have "ag_igs_channel a \<noteq> None" using assms(7) by simp
  from destruction_returns [OF assms(1-6) this] obtain c' where
    "igsagent_destroy env p c = Some ((), c')" "deref p c' = None" "\<forall>q. q \<noteq> p \<longrightarrow> deref q c' = deref q c"
    "cx_agents c' = zh_delete u (cx_agents c)" "cx_created_agents c' = zh_delete u (cx_created_agents c)"
    "cx_elections c' = cx_elections c" by blast
  then show ?thesis by (intro exI [of _ c']) (simp add: table_simps)
qed

lemma destroyed_agent_is_gone_witness:
  "\<exists>c'. igsagent_destroy example_app_env 2 carol_core = Some ((), c') \<and> deref 2 c' = None
     \<and> zh_lookup (cx_created_agents c') ''u2'' = None"
  using destroyed_agent_is_gone [OF example_telling carol_simps(1,3) new_agent_simps(1) carol_simps(4) _ new_agent_simps(3)]
  by auto

text \<open>
  C39. Whatever arrives from the network, in whatever state of the process and with whatever
  functions of the application: if the handling of the event returns, it has given the model
  mutex back, unless the event is the message \<open>CURRENT_OUTPUTS\<close> with the uuid of an agent that
  is not known (\<open>leaves_locked\<close>), and then it never has. The theorem goes through all the
  branches of the handler and the operations they call.
\<close>

theorem event_returns_mutex:
  assumes "s_manage_zyre_incoming env ev c = Some (r, c')" and "\<not> cx_model_locked c"
  shows "cx_model_locked c' \<longleftrightarrow> leaves_locked ev c"
  by (rule event_lock [OF assms])

lemma event_returns_mutex_witness:
  "s_manage_zyre_incoming example_peer_env (peer_event ''WHISPER'' [] [''CURRENT_OUTPUTS'', ''u9'']) example_core
     = Some (0, example_core\<lparr> cx_model_locked := True \<rparr>)
   \<and> cx_model_locked (example_core\<lparr> cx_model_locked := True \<rparr>)"
proof -
  have r: "s_manage_zyre_incoming example_peer_env (peer_event ''WHISPER'' [] [''CURRENT_OUTPUTS'', ''u9'']) example_core
     = Some (0, example_core\<lparr> cx_model_locked := True \<rparr>)"
    by (simp add: s_manage_zyre_incoming_def zyre_handler_def zyre_whisper_def popped_def popstr_def current_outputs_title
        current_outputs_def model_lock_def zh_lookup_def)
  have "leaves_locked (peer_event ''WHISPER'' [] [''CURRENT_OUTPUTS'', ''u9'']) example_core"
    by (simp add: leaves_locked_def popstr_def zh_lookup_def)
  with event_returns_mutex [OF r] r show ?thesis by simp
qed

text \<open>
  C40. Two kinds of events stop the network actor for good, whatever the functions of the
  application are (\<open>never_returns\<close>). The shout \<open>RT_SET_TIME\<close> without a time on the private
  channel: its handler comes back with the mutex, and goes on to lock it for the observers of
  channels. The result of an election the first attendee of which is not among the active
  agents: the loop over the attendees runs through any number of rounds and is where it was,
  with the mutex. An agent that is deactivated or destroyed stays among the attendees.
\<close>

theorem event_never_returns:
  assumes "never_returns ev c" and "\<not> cx_model_locked c"
  shows "s_manage_zyre_incoming env ev c = None
    \<and> (if ze_type ev = ''SHOUT''
       then zyre_handler env ev c = Some (Carry_On, c\<lparr> cx_model_locked := True \<rparr>) \<and> model_lock (c\<lparr> cx_model_locked := True \<rparr>) = None
       else \<exists>u us. zh_lookup (cx_elections c) (ze_group ev) = Some (u # us)
         \<and> (\<forall>n b. attendee_rounds (app_of env) b (ze_group ev) n (u # us) (c\<lparr> cx_model_locked := True \<rparr>)
                = Some (u # us, c\<lparr> cx_model_locked := True \<rparr>)))"
  using event_handling_ends [OF assms] never_returns_why [OF assms] by blast

lemma event_never_returns_witness:
  "s_manage_zyre_incoming example_peer_env (peer_event ''SHOUT'' IGS_PRIVATE_CHANNEL [''RT_SET_TIME '']) example_core = None
   \<and> s_manage_zyre_incoming example_peer_env (peer_event ''LEADER'' ''el'' [])
       (example_core\<lparr> cx_elections := [(''el'', [''u7'', ''u1''])] \<rparr>) = None
   \<and> attendee_rounds example_app_env True ''el'' 1000 [''u7'', ''u1'']
       (example_core\<lparr> cx_elections := [(''el'', [''u7'', ''u1''])], cx_model_locked := True \<rparr>)
     = Some ([''u7'', ''u1''], example_core\<lparr> cx_elections := [(''el'', [''u7'', ''u1''])], cx_model_locked := True \<rparr>)"
proof -
  let ?c = "example_core\<lparr> cx_elections := [(''el'', [''u7'', ''u1''])] \<rparr>"
  have f: "\<not> cx_model_locked example_core" "\<not> cx_model_locked ?c" by (simp_all add: example_core_def)
  have s: "never_returns (peer_event ''SHOUT'' IGS_PRIVATE_CHANNEL [''RT_SET_TIME '']) example_core"
    by (simp add: never_returns_def popstr_def RT_SET_TIME_MSG_def IGS_PRIVATE_CHANNEL_def)
  have l: "never_returns (peer_event ''LEADER'' ''el'' []) ?c"
    by (simp add: never_returns_def zh_lookup_def)
  have z: "zh_lookup (cx_elections ?c) ''el'' = Some [''u7'', ''u1'']" by (simp add: zh_lookup_def)
  have "attendee_rounds example_app_env True ''el'' 1000 [''u7'', ''u1''] (?c\<lparr> cx_model_locked := True \<rparr>)
      = Some ([''u7'', ''u1''], ?c\<lparr> cx_model_locked := True \<rparr>)"
    using event_never_returns [OF l f(2), of example_peer_env] z unfolding peer_event_simps example_app_of by auto
  then show ?thesis
    using event_never_returns [OF s f(1), of example_peer_env] event_never_returns [OF l f(2), of example_peer_env] by blast
qed

end
